(* ===== verification/Prelude.thy ===== *)
theory Prelude
  imports Main "HOL-Library.Char_ord" "HOL-Library.List_Lexorder" "HOL-Library.Sublist"
begin

text \<open>
  The shared base of the development: Go strings as byte lists (a \<open>char\<close> is one byte), the
  operations of the packages \<open>strings\<close> and \<open>strconv\<close> the controller calls, the bounds of
  \<open>int64\<close>, the error-or-value results of fallible functions, and the lemma collections the
  component theories extend. Go compares strings bytewise, which is the order that
  \<open>List_Lexorder\<close> and \<open>Char_ord\<close> give to \<open>string\<close>.
\<close>

named_theorems go_string \<open>defining equations of the string predicates\<close>
named_theorems json_lookup \<open>reading fields of JSON objects\<close>
named_theorems sql_defs \<open>SQL comparison operators and their truth values\<close>
named_theorems queue_defs \<open>the guards and effects of the queueing statements\<close>
named_theorems rollout_defs \<open>the guards and effects of the rollout statements\<close>

section \<open>Results of fallible functions\<close>

definition andthen :: "'e + 'a \<Rightarrow> ('a \<Rightarrow> 'e + 'b) \<Rightarrow> 'e + 'b" where
  "andthen r f = (case r of Inl e \<Rightarrow> Inl e | Inr x \<Rightarrow> f x)"

lemma andthen_simps [simp]:
  "andthen (Inl e) f = Inl e"
  "andthen (Inr x) f = f x"
  by (simp_all add: andthen_def)

lemma andthen_Inr_iff: "andthen r f = Inr y \<longleftrightarrow> (\<exists>x. r = Inr x \<and> f x = Inr y)"
  by (cases r) auto

definition is_ok :: "'e + 'a \<Rightarrow> bool" where
  "is_ok r = (case r of Inl _ \<Rightarrow> False | Inr _ \<Rightarrow> True)"

lemma is_ok_simps [simp]: "is_ok (Inr x)" "\<not> is_ok (Inl e)"
  by (simp_all add: is_ok_def)

lemma is_ok_iff: "is_ok r \<longleftrightarrow> (\<exists>x. r = Inr x)"
  by (cases r) auto

section \<open>Machine integers\<close>

definition max_int64 :: int where
  "max_int64 = 9223372036854775807"

definition min_int64 :: int where
  "min_int64 = - 9223372036854775808"

definition in_int64 :: "int \<Rightarrow> bool" where
  "in_int64 n \<longleftrightarrow> min_int64 \<le> n \<and> n \<le> max_int64"

section \<open>Character classes\<close>

definition is_upper :: "char \<Rightarrow> bool" where
  "is_upper c \<longleftrightarrow> CHR ''A'' \<le> c \<and> c \<le> CHR ''Z''"

definition is_lower :: "char \<Rightarrow> bool" where
  "is_lower c \<longleftrightarrow> CHR ''a'' \<le> c \<and> c \<le> CHR ''z''"

definition is_digit :: "char \<Rightarrow> bool" where
  "is_digit c \<longleftrightarrow> CHR ''0'' \<le> c \<and> c \<le> CHR ''9''"

definition is_alnum :: "char \<Rightarrow> bool" where
  "is_alnum c \<longleftrightarrow> is_upper c \<or> is_lower c \<or> is_digit c"

definition is_hex :: "char \<Rightarrow> bool" where
  "is_hex c \<longleftrightarrow> (CHR ''A'' \<le> c \<and> c \<le> CHR ''F'') \<or> (CHR ''a'' \<le> c \<and> c \<le> CHR ''f'') \<or> is_digit c"

definition is_ascii :: "char \<Rightarrow> bool" where
  "is_ascii c \<longleftrightarrow> (of_char c :: nat) < 128"

lemmas char_class_defs = is_upper_def is_lower_def is_digit_def is_alnum_def is_hex_def

lemma is_ascii_upto: "c \<le> CHR ''z'' \<Longrightarrow> is_ascii c"
  by (simp add: is_ascii_def less_eq_char_def)

lemma alnum_ascii: "is_alnum c \<Longrightarrow> is_ascii c"
  by (rule is_ascii_upto) (auto simp: char_class_defs intro: order_trans)

section \<open>Package strings\<close>

definition to_lower_char :: "char \<Rightarrow> char" where
  "to_lower_char c = (if is_upper c then char_of (of_char c + 32 :: nat) else c)"

definition to_upper_char :: "char \<Rightarrow> char" where
  "to_upper_char c = (if is_lower c then char_of (of_char c - 32 :: nat) else c)"

text \<open>\<open>strings.ToLower\<close> and \<open>strings.ToUpper\<close> on ASCII strings, the only ones the modelled
  code depends on: every identifier that reaches them is checked to be ASCII.\<close>

definition to_lower :: "string \<Rightarrow> string" where
  "to_lower = map to_lower_char"

definition to_upper :: "string \<Rightarrow> string" where
  "to_upper = map to_upper_char"

text \<open>
  Case folding as \<open>strings.EqualFold\<close> and the key matching of \<open>encoding/json\<close> use it, for a
  comparison in which one side is ASCII: beside the ASCII letters only the Kelvin sign
  (\<open>E2 84 AA\<close>) and the long s (\<open>C5 BF\<close>) fold to an ASCII letter.
\<close>

fun go_fold :: "string \<Rightarrow> string" where
  "go_fold [] = []"
| "go_fold (c # cs) =
     (case cs of
        d # ds \<Rightarrow>
          if c = CHR 0xC5 \<and> d = CHR 0xBF then CHR ''s'' # go_fold ds
          else if c = CHR 0xE2 \<and> d = CHR 0x84 \<and> ds \<noteq> [] \<and> hd ds = CHR 0xAA
          then CHR ''k'' # go_fold (tl ds)
          else to_lower_char c # go_fold cs
      | [] \<Rightarrow> [to_lower_char c])"

definition equal_fold :: "string \<Rightarrow> string \<Rightarrow> bool" where
  "equal_fold a b \<longleftrightarrow> go_fold a = go_fold b"

lemma equal_fold_refl [simp]: "equal_fold a a"
  by (simp add: equal_fold_def)

lemma equal_fold_sym: "equal_fold a b \<Longrightarrow> equal_fold b a"
  by (simp add: equal_fold_def)

fun split_on :: "char \<Rightarrow> string \<Rightarrow> string list" where
  "split_on c [] = [[]]"
| "split_on c (x # xs) =
     (if x = c then [] # split_on c xs
      else (case split_on c xs of [] \<Rightarrow> [[x]] | w # ws \<Rightarrow> (x # w) # ws))"

lemma split_on_nonempty [simp]: "split_on c s \<noteq> []"
  by (cases s) (auto split: list.splits)

fun join_with :: "string \<Rightarrow> string list \<Rightarrow> string" where
  "join_with sep [] = []"
| "join_with sep [w] = w"
| "join_with sep (w # v # ws) = w @ sep @ join_with sep (v # ws)"

lemma join_split_on: "join_with [c] (split_on c s) = s"
proof (induction s)
  case Nil
  then show ?case by simp
next
  case (Cons x xs)
  obtain w ws where "split_on c xs = w # ws"
    by (cases "split_on c xs") auto
  with Cons show ?case by (cases ws) auto
qed

lemma set_split_on: "w \<in> set (split_on c s) \<Longrightarrow> set w \<subseteq> set s - {c}"
proof (induction s arbitrary: w)
  case Nil
  then show ?case by simp
next
  case (Cons x xs)
  then show ?case by (fastforce split: if_splits list.splits)
qed

definition has_prefix :: "string \<Rightarrow> string \<Rightarrow> bool" where
  "has_prefix s p \<longleftrightarrow> take (length p) s = p"

lemma has_prefix_iff: "has_prefix s p \<longleftrightarrow> (\<exists>r. s = p @ r)"
  by (metis append_eq_conv_conj has_prefix_def)

definition trim_prefix :: "string \<Rightarrow> string \<Rightarrow> string" where
  "trim_prefix s p = (if has_prefix s p then drop (length p) s else s)"

definition contains_any :: "string \<Rightarrow> string \<Rightarrow> bool" where
  "contains_any s cs \<longleftrightarrow> list_ex (\<lambda>c. c \<in> set cs) s"

text \<open>\<open>strings.Cut (s, "=")\<close>: the text before and after the first separator.\<close>

fun cut_at :: "char \<Rightarrow> string \<Rightarrow> (string \<times> string) option" where
  "cut_at c [] = None"
| "cut_at c (x # xs) =
     (if x = c then Some ([], xs) else map_option (\<lambda>(a, b). (x # a, b)) (cut_at c xs))"

lemma cut_at_Some: "cut_at c s = Some (a, b) \<Longrightarrow> s = a @ c # b \<and> c \<notin> set a"
  by (induction s arbitrary: a) (auto split: if_splits)

text \<open>\<open>strings.ReplaceAll\<close> of a single byte.\<close>

definition replace_char :: "char \<Rightarrow> string \<Rightarrow> string \<Rightarrow> string" where
  "replace_char c r s = concat (map (\<lambda>x. if x = c then r else [x]) s)"

text \<open>\<open>strings.Index\<close>: the offset of the first occurrence.\<close>

fun index_of :: "string \<Rightarrow> string \<Rightarrow> nat option" where
  "index_of s p =
     (if has_prefix s p then Some 0
      else (case s of [] \<Rightarrow> None | _ # r \<Rightarrow> map_option Suc (index_of r p)))"

declare index_of.simps [simp del]

text \<open>
  The encodings of the white-space runes of \<open>unicode.IsSpace\<close>. None of their first bytes can
  continue another rune, so scanning bytes finds exactly the runes.
\<close>

definition space_runes :: "string list" where
  "space_runes =
     [[CHR 0x09], [CHR 0x0A], [CHR 0x0B], [CHR 0x0C], [CHR 0x0D], [CHR 0x20],
      [CHR 0xC2, CHR 0x85], [CHR 0xC2, CHR 0xA0], [CHR 0xE1, CHR 0x9A, CHR 0x80],
      [CHR 0xE2, CHR 0x80, CHR 0x80], [CHR 0xE2, CHR 0x80, CHR 0x81], [CHR 0xE2, CHR 0x80, CHR 0x82],
      [CHR 0xE2, CHR 0x80, CHR 0x83], [CHR 0xE2, CHR 0x80, CHR 0x84], [CHR 0xE2, CHR 0x80, CHR 0x85],
      [CHR 0xE2, CHR 0x80, CHR 0x86], [CHR 0xE2, CHR 0x80, CHR 0x87], [CHR 0xE2, CHR 0x80, CHR 0x88],
      [CHR 0xE2, CHR 0x80, CHR 0x89], [CHR 0xE2, CHR 0x80, CHR 0x8A], [CHR 0xE2, CHR 0x80, CHR 0xA8],
      [CHR 0xE2, CHR 0x80, CHR 0xA9], [CHR 0xE2, CHR 0x80, CHR 0xAF], [CHR 0xE2, CHR 0x81, CHR 0x9F],
      [CHR 0xE3, CHR 0x80, CHR 0x80]]"

definition lead_space :: "string \<Rightarrow> nat" where
  "lead_space s = (case filter (has_prefix s) space_runes of [] \<Rightarrow> 0 | r # _ \<Rightarrow> length r)"

definition trail_space :: "string \<Rightarrow> nat" where
  "trail_space s = (case filter (\<lambda>r. suffix r s) space_runes of [] \<Rightarrow> 0 | r # _ \<Rightarrow> length r)"

function trim_left :: "string \<Rightarrow> string" where
  "trim_left s = (if s = [] \<or> lead_space s = 0 then s else trim_left (drop (lead_space s) s))"
  by pat_completeness auto
termination
  by (relation "measure length") auto

function trim_right :: "string \<Rightarrow> string" where
  "trim_right s =
     (if s = [] \<or> trail_space s = 0 then s
      else trim_right (take (length s - trail_space s) s))"
  by pat_completeness auto
termination
  by (relation "measure length") auto

declare trim_left.simps [simp del] trim_right.simps [simp del]

definition trim_space :: "string \<Rightarrow> string" where
  "trim_space s = trim_right (trim_left s)"

text \<open>\<open>strings.Fields\<close>: the maximal runs of bytes that are not white space.\<close>

function fields_acc :: "string \<Rightarrow> string \<Rightarrow> string list" where
  "fields_acc w s =
     (if s = [] then (if w = [] then [] else [w])
      else if lead_space s = 0 then fields_acc (w @ [hd s]) (tl s)
      else (if w = [] then [] else [w]) @ fields_acc [] (drop (lead_space s) s))"
  by pat_completeness auto
termination
  by (relation "measure (\<lambda>(w, s). length s)") auto

declare fields_acc.simps [simp del]

definition str_fields :: "string \<Rightarrow> string list" where
  "str_fields s = fields_acc [] s"

section \<open>Package strconv: decimal text\<close>

definition digit_char :: "nat \<Rightarrow> char" where
  "digit_char d = char_of (48 + d)"

fun nat_str :: "nat \<Rightarrow> string" where
  "nat_str n = (if n < 10 then [digit_char n] else nat_str (n div 10) @ [digit_char (n mod 10)])"

declare nat_str.simps [simp del]

definition int_str :: "int \<Rightarrow> string" where
  "int_str i = (if i < 0 then CHR ''-'' # nat_str (nat (- i)) else nat_str (nat i))"

definition str_nat :: "string \<Rightarrow> nat" where
  "str_nat s = foldl (\<lambda>n c. 10 * n + (of_char c - 48)) 0 s"

lemma of_char_digit: "d < 10 \<Longrightarrow> of_char (digit_char d) = 48 + d"
  by (simp add: digit_char_def)

lemma digit_char_digit: "d < 10 \<Longrightarrow> is_digit (digit_char d)"
  by (simp add: is_digit_def less_eq_char_def of_char_digit)

lemma nat_str_digits: "list_all is_digit (nat_str n)"
proof (induction n rule: nat_str.induct)
  case (1 n)
  then show ?case by (subst nat_str.simps) (auto simp: digit_char_digit)
qed

lemma nat_str_nonempty [simp]: "nat_str n \<noteq> []"
  by (subst nat_str.simps) simp

lemma str_nat_nat_str [simp]: "str_nat (nat_str n) = n"
proof (induction n rule: nat_str.induct)
  case (1 n)
  show ?case
  proof (cases "n < 10")
    case True
    then show ?thesis by (subst nat_str.simps) (simp add: str_nat_def of_char_digit)
  next
    case False
    with 1 have "foldl (\<lambda>n c. 10 * n + (of_char c - 48)) 0 (nat_str (n div 10)) = n div 10"
      by (simp add: str_nat_def)
    with False show ?thesis
      by (subst nat_str.simps) (simp add: str_nat_def of_char_digit)
  qed
qed

lemma nat_str_inject [simp]: "nat_str m = nat_str n \<longleftrightarrow> m = n"
  by (metis str_nat_nat_str)

lemma nat_str_no_minus: "nat_str n \<noteq> CHR ''-'' # r"
proof
  assume "nat_str n = CHR ''-'' # r"
  then have "is_digit CHR ''-''" using nat_str_digits [of n] by simp
  then show False by (simp add: is_digit_def less_eq_char_def)
qed

lemma int_str_inject [simp]: "int_str i = int_str j \<longleftrightarrow> i = j"
proof
  assume "int_str i = int_str j"
  then show "i = j"
    using nat_str_no_minus nat_str_no_minus [symmetric]
    by (auto simp: int_str_def split: if_splits)
qed simp

lemma int_str_nonempty [simp]: "int_str i \<noteq> []"
  by (simp add: int_str_def)

section \<open>Lists without duplicates\<close>

text \<open>The loops that skip what a \<open>seen\<close> set holds keep the first occurrence of every element.\<close>

fun dedup :: "'a set \<Rightarrow> 'a list \<Rightarrow> 'a list" where
  "dedup seen [] = []"
| "dedup seen (x # xs) = (if x \<in> seen then dedup seen xs else x # dedup (insert x seen) xs)"

lemma set_dedup: "set (dedup seen xs) = set xs - seen"
  by (induction xs arbitrary: seen) auto

lemma distinct_dedup: "distinct (dedup seen xs)"
  by (induction xs arbitrary: seen) (auto simp: set_dedup)

lemma subseq_dedup: "subseq (dedup seen xs) xs"
  by (induction xs arbitrary: seen) auto

section \<open>ASCII text\<close>

text \<open>Text between visible ASCII characters is not trimmed.\<close>

definition visible :: "char \<Rightarrow> bool" where
  "visible c \<longleftrightarrow> 32 < (of_char c :: nat) \<and> (of_char c :: nat) < 128"

lemma space_runes_invisible: "\<forall>r \<in> set space_runes. r \<noteq> [] \<and> \<not> visible (hd r) \<and> \<not> visible (last r)"
  by (simp add: space_runes_def visible_def)

lemma lead_space_visible: "visible (hd s) \<Longrightarrow> lead_space s = 0"
proof -
  assume v: "visible (hd s)"
  have "\<not> has_prefix s r" if "r \<in> set space_runes" for r
    using space_runes_invisible that v by (auto simp: has_prefix_iff)
  then have "filter (has_prefix s) space_runes = []" by (simp add: filter_empty_conv)
  then show ?thesis by (simp add: lead_space_def)
qed

lemma trail_space_visible: "visible (last s) \<Longrightarrow> trail_space s = 0"
proof -
  assume v: "visible (last s)"
  have "\<not> suffix r s" if "r \<in> set space_runes" for r
    using space_runes_invisible that v by (auto simp: suffix_def)
  then have "filter (\<lambda>r. suffix r s) space_runes = []" by (simp add: filter_empty_conv)
  then show ?thesis by (simp add: trail_space_def)
qed

lemma trim_visible:
  assumes "visible (hd s)" "visible (last s)"
  shows "trim_space s = s" "trim_space (CHR 0x20 # s) = s"
proof -
  have left: "trim_left s = s" using assms by (subst trim_left.simps) (simp add: lead_space_visible)
  have right: "trim_right s = s" using assms by (subst trim_right.simps) (simp add: trail_space_visible)
  have "lead_space (CHR 0x20 # s) = 1" by (simp add: lead_space_def space_runes_def has_prefix_def)
  then have "trim_left (CHR 0x20 # s) = s" by (subst trim_left.simps) (simp add: left)
  with left right show "trim_space s = s" "trim_space (CHR 0x20 # s) = s"
    by (simp_all add: trim_space_def)
qed

lemma visible_simps [simp]: "visible CHR 0x27" "\<not> visible CHR 0x20" "visible CHR ''=''" "visible CHR ''.''"
  by (simp_all add: visible_def)

lemma alnum_visible: "is_alnum c \<Longrightarrow> visible c"
  by (auto simp: char_class_defs visible_def less_eq_char_def)

lemma trim_all_visible: "list_all visible s \<Longrightarrow> trim_space s = s"
proof (cases "s = []")
  case False
  assume "list_all visible s"
  with False have "visible (hd s)" "visible (last s)" by (simp_all add: list_all_iff)
  then show ?thesis by (rule trim_visible)
next
  case True
  then show ?thesis
    by (subst True, simp only: trim_space_def, subst trim_left.simps) (simp, subst trim_right.simps, simp add: True)
qed

lemma go_fold_ascii: "list_all is_ascii s \<Longrightarrow> go_fold s = to_lower s"
proof (induction s rule: go_fold.induct)
  case (2 c cs)
  then have "c \<noteq> CHR 0xC5" "c \<noteq> CHR 0xE2" by (auto simp: is_ascii_def)
  with 2 show ?case by (cases cs) (auto simp: to_lower_def)
qed (simp add: to_lower_def)

lemma go_fold_no_upper:
  "list_all (\<lambda>c. is_ascii c \<and> \<not> is_upper c) s \<Longrightarrow> go_fold s = s"
proof -
  assume s: "list_all (\<lambda>c. is_ascii c \<and> \<not> is_upper c) s"
  then have "go_fold s = to_lower s" by (intro go_fold_ascii) (auto simp: list_all_iff)
  also have "\<dots> = s" using s by (induction s) (auto simp: to_lower_def to_lower_char_def)
  finally show ?thesis .
qed

end
