(* ===== verification/Go_Net.thy ===== *)
theory Go_Net
  imports Prelude
begin

text \<open>
  The address syntax of Go's \<open>net.ParseIP\<close>: dotted decimal IPv4 without leading zeros, and IPv6
  with at most one ellipsis and an optional dotted tail; an address with a zone is refused. The
  result is the 16-byte form, in which an IPv4 address has the prefix \<open>::ffff:0:0\<close>.
\<close>

definition octet_ok :: "string \<Rightarrow> bool" where
  "octet_ok p \<longleftrightarrow>
     p \<noteq> [] \<and> list_all is_digit p \<and> (length p = 1 \<or> hd p \<noteq> CHR ''0'') \<and> str_nat p \<le> 255"

definition ipv4_fields :: "string \<Rightarrow> nat list option" where
  "ipv4_fields s =
     (let ps = split_on CHR ''.'' s
      in if length ps = 4 \<and> list_all octet_ok ps then Some (map str_nat ps) else None)"

definition hex_value :: "char \<Rightarrow> nat" where
  "hex_value c =
     (if is_digit c then of_char c - 48
      else if is_lower c then of_char c - 87 else of_char c - 55)"

definition hex_number :: "string \<Rightarrow> nat" where
  "hex_number s = foldl (\<lambda>n c. 16 * n + hex_value c) 0 s"

definition v6_finish :: "nat list \<Rightarrow> nat option \<Rightarrow> nat list option" where
  "v6_finish ip ell =
     (if length ip < 16
      then (case ell of
              None \<Rightarrow> None
            | Some e \<Rightarrow> Some (take e ip @ replicate (16 - length ip) 0 @ drop e ip))
      else if ell \<noteq> None then None else Some ip)"

function v6_loop :: "nat list \<Rightarrow> nat option \<Rightarrow> string \<Rightarrow> nat list option" where
  "v6_loop ip ell s =
     (if length ip \<ge> 16 then (if s \<noteq> [] then None else v6_finish ip ell)
      else
        (let r = takeWhile is_hex s; rest = drop (length r) s;
             ip' = ip @ [hex_number r div 256, hex_number r mod 256] in
         if r = [] \<or> length r > 4 then None
         else if rest \<noteq> [] \<and> hd rest = CHR ''.'' then
           (if (ell = None \<and> length ip \<noteq> 12) \<or> length ip + 4 > 16 then None
            else (case ipv4_fields s of None \<Rightarrow> None | Some f \<Rightarrow> v6_finish (ip @ f) ell))
         else if rest = [] then v6_finish ip' ell
         else if hd rest \<noteq> CHR '':'' \<or> length rest = 1 then None
         else if hd (tl rest) = CHR '':'' then
           (if ell \<noteq> None then None
            else if tl (tl rest) = [] then v6_finish ip' (Some (length ip'))
            else v6_loop ip' (Some (length ip')) (tl (tl rest)))
         else v6_loop ip' ell (tl rest)))"
  by pat_completeness auto
termination
  by (relation "measure (\<lambda>(ip, ell, s). 16 - length ip)") auto

declare v6_loop.simps [simp del]

definition ipv6_parse :: "string \<Rightarrow> nat list option" where
  "ipv6_parse s =
     (if CHR ''%'' \<in> set s then None
      else if take 2 s = ''::''
      then (if drop 2 s = [] then Some (replicate 16 0) else v6_loop [] (Some 0) (drop 2 s))
      else v6_loop [] None s)"

definition parse_ip :: "string \<Rightarrow> nat list option" where
  "parse_ip s =
     (case dropWhile (\<lambda>c. c \<notin> set ''.:%'') s of
        [] \<Rightarrow> None
      | c # _ \<Rightarrow>
          if c = CHR ''.''
          then map_option (\<lambda>f. replicate 10 0 @ [255, 255] @ f) (ipv4_fields s)
          else if c = CHR '':'' then ipv6_parse s
          else None)"

text \<open>\<open>ip.To4 () != nil\<close> for a parsed address.\<close>

definition is_v4 :: "nat list \<Rightarrow> bool" where
  "is_v4 ip \<longleftrightarrow> take 12 ip = replicate 10 0 @ [255, 255]"

lemma parse_ip_v4:
  "length (split_on CHR ''.'' s) = 4 \<Longrightarrow> list_all octet_ok (split_on CHR ''.'' s) \<Longrightarrow>
   ipv4_fields s = Some (map str_nat (split_on CHR ''.'' s))"
  by (simp add: ipv4_fields_def)

end
