(* ===== verification/Uci_Bridge.thy ===== *)
theory Uci_Bridge
  imports Go_Net
begin

text \<open>
  The UCI bridge of \<open>src/internal/services/uci_bridge.go\<close>: validation of names, sections, paths
  and health targets, the translation of one typed UCI command into a shell line, and the batch
  scripts that wrap the lines with snapshot, rollback, lock, restart and health checks. A refused
  command is the empty string, as in the source.

  The lemmas give the translation a meaning: a small reader of POSIX shell words (quotes,
  backslash, blanks; every operator or expansion character outside quotes is refused) recovers
  from a translated line exactly the words the controller meant, whatever the value contains.
\<close>

section \<open>Commands and patterns\<close>

record uci_command =
  uc_action :: string
  uc_config :: string
  uc_section :: string
  uc_option :: string
  uc_value :: string

abbreviation mk_uci :: "string \<Rightarrow> string \<Rightarrow> string \<Rightarrow> string \<Rightarrow> string \<Rightarrow> uci_command" where
  "mk_uci a c s opt v \<equiv>
     \<lparr>uc_action = a, uc_config = c, uc_section = s, uc_option = opt, uc_value = v\<rparr>"

definition name_char :: "char \<Rightarrow> bool" where
  "name_char c \<longleftrightarrow> is_alnum c \<or> c = CHR ''_'' \<or> c = CHR ''-''"

definition valid_uci_name :: "string \<Rightarrow> bool" where
  "valid_uci_name v \<longleftrightarrow> v \<noteq> [] \<and> list_all name_char v"

text \<open>The optional index of an anonymous section, \<open>[-?[0-9]+]\<close> in brackets.\<close>

definition section_index :: "string \<Rightarrow> bool" where
  "section_index t \<longleftrightarrow>
     t \<noteq> [] \<and> hd t = CHR ''['' \<and> last t = CHR '']'' \<and>
     (let body = butlast (tl t);
          digits = (if body \<noteq> [] \<and> hd body = CHR ''-'' then tl body else body)
      in length t \<ge> 2 \<and> digits \<noteq> [] \<and> list_all is_digit digits)"

definition valid_uci_section :: "string \<Rightarrow> bool" where
  "valid_uci_section v \<longleftrightarrow>
     valid_uci_name v \<or>
     (case v of
        [] \<Rightarrow> False
      | c # r \<Rightarrow>
          c = CHR ''@'' \<and>
          (let n = takeWhile name_char r; t = dropWhile name_char r
           in n \<noteq> [] \<and> (t = [] \<or> section_index t)))"

definition host_char :: "char \<Rightarrow> bool" where
  "host_char c \<longleftrightarrow> is_alnum c \<or> c = CHR ''.'' \<or> c = CHR ''-''"

definition health_target_pattern :: "string \<Rightarrow> bool" where
  "health_target_pattern t \<longleftrightarrow> 1 \<le> length t \<and> length t \<le> 253 \<and> list_all host_char t"

definition valid_health_target :: "string \<Rightarrow> bool" where
  "valid_health_target t \<longleftrightarrow> t \<noteq> [] \<and> (parse_ip t \<noteq> None \<or> health_target_pattern t)"

text \<open>\<open>ValidateHealthTargets\<close>: every target must be valid; repeated ones are dropped.\<close>

fun validate_targets_loop :: "string set \<Rightarrow> string list \<Rightarrow> string list \<Rightarrow> string list option" where
  "validate_targets_loop seen valid [] = Some valid"
| "validate_targets_loop seen valid (t # ts) =
     (if \<not> valid_health_target t then None
      else if t \<in> seen then validate_targets_loop seen valid ts
      else validate_targets_loop (insert t seen) (valid @ [t]) ts)"

definition ValidateHealthTargets :: "string list \<Rightarrow> string list option" where
  "ValidateHealthTargets targets = validate_targets_loop {} [] targets"

section \<open>Lists of MAC addresses\<close>

text \<open>A match of the MAC pattern is 17 bytes: hexadecimal digits with a colon at every third.\<close>

definition mac_at :: "string \<Rightarrow> bool" where
  "mac_at s \<longleftrightarrow>
     17 \<le> length s \<and>
     list_all (\<lambda>i. if i mod 3 = 2 then s ! i = CHR '':'' else is_hex (s ! i)) [0..<17]"

function find_macs :: "string \<Rightarrow> string list" where
  "find_macs s =
     (if s = [] then [] else if mac_at s then take 17 s # find_macs (drop 17 s)
      else find_macs (tl s))"
  by pat_completeness auto
termination
  by (relation "measure length") auto

function remove_macs :: "string \<Rightarrow> string" where
  "remove_macs s =
     (if s = [] then [] else if mac_at s then remove_macs (drop 17 s)
      else hd s # remove_macs (tl s))"
  by pat_completeness auto
termination
  by (relation "measure length") auto

declare find_macs.simps [simp del] remove_macs.simps [simp del]

definition mac_filler :: "char \<Rightarrow> bool" where
  "mac_filler c \<longleftrightarrow> c \<in> {CHR 0x27, CHR 0x22, CHR 0x20, CHR 0x09, CHR 0x0D, CHR 0x0A}"

definition ParseMACList :: "string \<Rightarrow> string list option" where
  "ParseMACList raw =
     (let macs = find_macs raw in
      if macs = [] then None
      else if filter (\<lambda>c. \<not> mac_filler c) (remove_macs raw) \<noteq> [] then None
      else Some (dedup {} (map to_upper macs)))"

section \<open>Raw commands of the legacy editor\<close>

definition valid_uci_path :: "string \<Rightarrow> string \<Rightarrow> nat \<Rightarrow> nat \<Rightarrow> bool" where
  "valid_uci_path path config lo hi \<longleftrightarrow>
     (let parts = split_on CHR ''.'' path in
      lo \<le> length parts \<and> length parts \<le> hi \<and> hd parts = config
        \<and> list_all valid_uci_section (tl parts))"

definition valid_uci_value_token :: "string \<Rightarrow> bool" where
  "valid_uci_value_token v \<longleftrightarrow>
     (if 2 \<le> length v \<and> hd v = CHR 0x27 \<and> last v = CHR 0x27
      then \<not> contains_any (butlast (tl v)) [CHR 0x27, CHR 0x0D, CHR 0x0A]
      else valid_uci_name v)"

definition shell_specials :: string where
  "shell_specials = [CHR 0x0D, CHR 0x0A] @ '';|&$'' @ [CHR 0x60] @ ''()<>'' @ [CHR 0x5C]"

definition ValidRawUCICommand :: "string \<Rightarrow> string \<Rightarrow> bool" where
  "ValidRawUCICommand command config \<longleftrightarrow>
     (if \<not> valid_uci_name config \<or> trim_space command \<noteq> command
         \<or> contains_any command shell_specials then False
      else
        (case filter (has_prefix command) [''uci set '', ''uci add_list '', ''uci del_list ''] of
           p # _ \<Rightarrow>
             (case cut_at CHR ''='' (trim_prefix command p) of
                None \<Rightarrow> False
              | Some (path, value) \<Rightarrow>
                  valid_uci_path path config 2 3 \<and> valid_uci_value_token value)
         | [] \<Rightarrow>
             (case filter (has_prefix command) [''uci delete '', ''uci -q delete ''] of
                p # _ \<Rightarrow> valid_uci_path (trim_prefix command p) config 2 3
              | [] \<Rightarrow>
                  if has_prefix command ''uci add ''
                  then (let fields = str_fields (trim_prefix command ''uci add '')
                        in length fields = 2 \<and> fields ! 0 = config \<and> valid_uci_name (fields ! 1))
                  else False)))"

section \<open>Shell quoting and the translation of one command\<close>

definition escapeVal :: "string \<Rightarrow> string" where
  "escapeVal s = replace_char CHR 0x27 [CHR 0x27, CHR 0x5C, CHR 0x27, CHR 0x27] s"

definition shellQuote :: "string \<Rightarrow> string" where
  "shellQuote s = [CHR 0x27] @ escapeVal s @ [CHR 0x27]"

definition SetOption :: "string \<Rightarrow> string \<Rightarrow> string \<Rightarrow> string \<Rightarrow> string" where
  "SetOption config sec opt value =
     (if \<not> valid_uci_name config \<or> \<not> valid_uci_section sec \<or> (opt \<noteq> [] \<and> \<not> valid_uci_name opt)
      then []
      else if opt = []
      then ''uci set '' @ config @ ''.'' @ sec @ ''='' @ [CHR 0x27] @ escapeVal value @ [CHR 0x27]
      else ''uci set '' @ config @ ''.'' @ sec @ ''.'' @ opt @ ''=''
             @ [CHR 0x27] @ escapeVal value @ [CHR 0x27])"

definition AddList :: "string \<Rightarrow> string \<Rightarrow> string \<Rightarrow> string \<Rightarrow> string" where
  "AddList config sec opt value =
     (if \<not> valid_uci_name config \<or> \<not> valid_uci_section sec \<or> \<not> valid_uci_name opt then []
      else ''uci add_list '' @ config @ ''.'' @ sec @ ''.'' @ opt @ ''=''
             @ [CHR 0x27] @ escapeVal value @ [CHR 0x27])"

definition DelList :: "string \<Rightarrow> string \<Rightarrow> string \<Rightarrow> string \<Rightarrow> string" where
  "DelList config sec opt value =
     (if \<not> valid_uci_name config \<or> \<not> valid_uci_section sec \<or> \<not> valid_uci_name opt then []
      else ''uci del_list '' @ config @ ''.'' @ sec @ ''.'' @ opt @ ''=''
             @ [CHR 0x27] @ escapeVal value @ [CHR 0x27])"

definition Delete :: "string \<Rightarrow> string \<Rightarrow> string" where
  "Delete config sec =
     (if \<not> valid_uci_name config \<or> \<not> valid_uci_section sec then []
      else ''uci -q delete '' @ config @ ''.'' @ sec @ '' || true'')"

definition DeleteOption :: "string \<Rightarrow> string \<Rightarrow> string \<Rightarrow> string" where
  "DeleteOption config sec opt =
     (if \<not> valid_uci_name config \<or> \<not> valid_uci_section sec \<or> \<not> valid_uci_name opt then []
      else ''uci -q delete '' @ config @ ''.'' @ sec @ ''.'' @ opt @ '' || true'')"

definition AddAnonymousSection :: "string \<Rightarrow> string \<Rightarrow> string" where
  "AddAnonymousSection config sectionType =
     (if \<not> valid_uci_name config \<or> \<not> valid_uci_name sectionType then []
      else ''uci add '' @ config @ '' '' @ sectionType)"

definition Rename :: "string \<Rightarrow> string \<Rightarrow> string \<Rightarrow> string \<Rightarrow> string" where
  "Rename config sec opt newName =
     (if \<not> valid_uci_name config \<or> \<not> valid_uci_section sec
         \<or> (opt \<noteq> [] \<and> \<not> valid_uci_name opt) \<or> \<not> valid_uci_name newName then []
      else if opt = []
      then ''uci rename '' @ config @ ''.'' @ sec @ ''='' @ [CHR 0x27] @ escapeVal newName @ [CHR 0x27]
      else ''uci rename '' @ config @ ''.'' @ sec @ ''.'' @ opt @ ''=''
             @ [CHR 0x27] @ escapeVal newName @ [CHR 0x27])"

definition Reorder :: "string \<Rightarrow> string \<Rightarrow> int \<Rightarrow> string" where
  "Reorder config sec position =
     (if \<not> valid_uci_name config \<or> \<not> valid_uci_section sec then []
      else ''uci reorder '' @ config @ ''.'' @ sec @ ''='' @ int_str position)"

definition unlines :: "string list \<Rightarrow> string" where
  "unlines ls = concat (map (\<lambda>l. l @ [CHR 0x0A]) ls)"

abbreviation dq :: string where
  "dq \<equiv> [CHR 0x22]"

abbreviation sq :: string where
  "sq \<equiv> [CHR 0x27]"

abbreviation bs :: string where
  "bs \<equiv> [CHR 0x5C]"

text \<open>\<open>ensureDHCPHost\<close>: the shell fragment that updates or creates one static lease.\<close>

definition host_script :: "string \<Rightarrow> string \<Rightarrow> string \<Rightarrow> string list \<Rightarrow> string" where
  "host_script ip name macList macs =
     unlines
     [''host_ip='' @ ip,
      ''host_name='' @ name,
      ''host_macs='' @ macList,
      ''host_mac_count='' @ nat_str (length macs),
      ''host_ref='',
      ''for host_mac in $host_macs; do'',
      ''  host_ref=$(uci show dhcp | grep -i -F '' @ dq @ ''$host_mac'' @ dq @ '' | grep -F '' @ dq @ ''.mac='' @ dq @ '' | cut -d= -f1 | cut -d. -f2 | head -n 1)'',
      ''  if [ -n '' @ dq @ ''$host_ref'' @ dq @ '' ]; then'',
      ''    break'',
      ''  fi'',
      ''done'',
      ''if [ -z '' @ dq @ ''$host_ref'' @ dq @ '' ]; then'',
      ''  host_ref=$('',
      ''    uci show dhcp | grep -F '' @ dq @ ''.ip='' @ dq @ '' | while IFS= read -r host_line; do'',
      ''      host_path=${host_line%=*}'',
      ''      host_value=${host_line#*=}'',
      ''      host_value=$(printf '' @ sq @ ''%s'' @ sq @ '' '' @ dq @ ''$host_value'' @ dq @ '' | sed '' @ dq @ ''s/^'' @ sq @ ''//; s/'' @ sq @ ''$//'' @ dq @ '')'',
      ''      if [ '' @ dq @ ''$host_value'' @ dq @ '' = '' @ dq @ ''$host_ip'' @ dq @ '' ]; then'',
      ''        host_path=${host_path#dhcp.}'',
      ''        host_path=${host_path%.ip}'',
      ''        printf '' @ sq @ ''%s'' @ bs @ ''n'' @ sq @ '' '' @ dq @ ''$host_path'' @ dq,
      ''        break'',
      ''      fi'',
      ''    done'',
      ''  )'',
      ''fi'',
      ''if [ -z '' @ dq @ ''$host_ref'' @ dq @ '' ]; then'',
      ''  uci add dhcp host'',
      ''  host_ref=@host[-1]'',
      ''fi'',
      ''uci set '' @ dq @ ''dhcp.$host_ref.name=$host_name'' @ dq,
      ''uci -q delete '' @ dq @ ''dhcp.$host_ref.mac'' @ dq @ '' || true'',
      ''if [ '' @ dq @ ''$host_mac_count'' @ dq @ '' -eq 1 ]; then'',
      ''  uci set '' @ dq @ ''dhcp.$host_ref.mac=$host_macs'' @ dq,
      ''else'',
      ''  for host_mac in $host_macs; do'',
      ''    uci add_list '' @ dq @ ''dhcp.$host_ref.mac=$host_mac'' @ dq,
      ''  done'',
      ''fi'']
     @ ''uci set '' @ dq @ ''dhcp.$host_ref.ip=$host_ip'' @ dq"

definition ensureDHCPHost :: "uci_command \<Rightarrow> string" where
  "ensureDHCPHost cmd =
     (let sec = uc_section cmd in
      if uc_config cmd \<noteq> ''dhcp'' \<or> sec = [] \<or> length sec > 128
         \<or> contains_any sec [CHR 0x0D, CHR 0x0A] \<or> uc_option cmd = []
         \<or> (case parse_ip (uc_value cmd) of None \<Rightarrow> True | Some a \<Rightarrow> \<not> is_v4 a)
      then []
      else (case ParseMACList (uc_option cmd) of
              None \<Rightarrow> []
            | Some macs \<Rightarrow>
                host_script (shellQuote (uc_value cmd)) (shellQuote sec)
                  (shellQuote (join_with '' '' macs)) macs))"

definition translateCommand :: "uci_command \<Rightarrow> string" where
  "translateCommand cmd =
     (let a = uc_action cmd; c = uc_config cmd; s = uc_section cmd; opt = uc_option cmd; v = uc_value cmd
      in if a = ''set'' then SetOption c s opt v
         else if a = ''delete'' then (if opt \<noteq> [] then DeleteOption c s opt else Delete c s)
         else if a = ''add_list'' then AddList c s opt v
         else if a = ''del_list'' then DelList c s opt v
         else if a = ''add'' then AddAnonymousSection c v
         else if a = ''ensure_host'' then ensureDHCPHost cmd
         else if a = ''delete_all''
         then (if \<not> valid_uci_name c \<or> \<not> valid_uci_name s \<or> opt \<noteq> [] \<or> v \<noteq> [] then []
               else ''while uci -q delete '' @ c @ ''.@'' @ s @ ''[0]; do :; done'')
         else if a = ''rename'' then Rename c s opt v
         else [])"

definition PreviewCommands :: "uci_command list \<Rightarrow> string list" where
  "PreviewCommands commands = filter (\<lambda>l. l \<noteq> []) (map translateCommand commands)"

section \<open>A reader of POSIX shell words\<close>

text \<open>
  \<open>sh_read\<close> splits a simple command into its words: blanks separate words, single quotes keep
  every byte, a backslash keeps the next one. Outside quotes it accepts only characters without
  a meaning to the shell, so its success also says that no operator, expansion, redirection or
  comment is present.
\<close>

definition sh_plain :: "char \<Rightarrow> bool" where
  "sh_plain c \<longleftrightarrow> is_alnum c \<or> c \<in> set ''_-.@[]=''"

definition sh_push :: "string option \<Rightarrow> string \<Rightarrow> string option" where
  "sh_push w s = (case w of None \<Rightarrow> if s = [] then None else Some s | Some x \<Rightarrow> Some (x @ s))"

definition sh_flush :: "string option \<Rightarrow> string list" where
  "sh_flush w = (case w of None \<Rightarrow> [] | Some x \<Rightarrow> [x])"

fun sh_read :: "bool \<Rightarrow> string option \<Rightarrow> string \<Rightarrow> string list option" where
  "sh_read True w [] = None"
| "sh_read False w [] = Some (sh_flush w)"
| "sh_read True w (c # cs) =
     (if c = CHR 0x27 then sh_read False w cs else sh_read True (sh_push w [c]) cs)"
| "sh_read False w (c # cs) =
     (if c = CHR 0x20 then map_option ((@) (sh_flush w)) (sh_read False None cs)
      else if c = CHR 0x27 then sh_read True (Some (case w of None \<Rightarrow> [] | Some x \<Rightarrow> x)) cs
      else if c = CHR 0x5C
      then (case cs of
              [] \<Rightarrow> None
            | d # ds \<Rightarrow> if d = CHR 0x0A then None else sh_read False (sh_push w [d]) ds)
      else if sh_plain c then sh_read False (sh_push w [c]) cs
      else None)"

definition sh_words :: "string \<Rightarrow> string list option" where
  "sh_words s = sh_read False None s"

lemma sh_push_append [simp]: "sh_push (sh_push w a) b = sh_push w (a @ b)"
  by (cases w) (auto simp: sh_push_def)

lemma sh_push_Nil [simp]: "sh_push w [] = w"
  by (cases w) (auto simp: sh_push_def)

lemma sh_plain_simps [simp]:
  "\<not> sh_plain CHR 0x20" "\<not> sh_plain CHR 0x27" "\<not> sh_plain CHR 0x5C"
  by (simp_all add: sh_plain_def char_class_defs less_eq_char_def)

lemma sh_read_plain:
  "list_all sh_plain p \<Longrightarrow> sh_read False w (p @ r) = sh_read False (sh_push w p) r"
proof (induction p arbitrary: w)
  case Nil
  then show ?case by simp
next
  case (Cons c p)
  moreover from Cons.prems have "c \<noteq> CHR 0x20" "c \<noteq> CHR 0x27" "c \<noteq> CHR 0x5C"
    by auto
  ultimately show ?case by simp
qed

lemma sh_read_blank [simp]:
  "sh_read False w (CHR 0x20 # r) = map_option ((@) (sh_flush w)) (sh_read False None r)"
  by simp

lemma escapeVal_Cons:
  "escapeVal (c # s) =
     (if c = CHR 0x27 then [CHR 0x27, CHR 0x5C, CHR 0x27, CHR 0x27] else [c]) @ escapeVal s"
  by (simp add: escapeVal_def replace_char_def)

lemma escapeVal_Nil [simp]: "escapeVal [] = []"
  by (simp add: escapeVal_def replace_char_def)

text \<open>The escaped text between quotes reads back as the value, whatever bytes it has.\<close>

lemma sh_read_escaped:
  "sh_read True (Some x) (escapeVal v @ CHR 0x27 # r) = sh_read False (Some (x @ v)) r"
proof (induction v arbitrary: x)
  case Nil
  then show ?case by simp
next
  case (Cons c v)
  then show ?case by (simp add: escapeVal_Cons sh_push_def)
qed

lemma sh_read_quoted:
  "sh_read False (Some x) (CHR 0x27 # escapeVal v @ [CHR 0x27]) = Some [x @ v]"
  using sh_read_escaped [of x v "[]"] by (simp add: sh_flush_def)

theorem shellQuote_word: "sh_words (shellQuote s) = Some [s]"
  using sh_read_escaped [of "[]" s "[]"] by (simp add: sh_words_def shellQuote_def sh_flush_def)

subsection \<open>Names and sections are plain text\<close>

lemma name_char_plain: "name_char c \<Longrightarrow> sh_plain c"
  by (auto simp: name_char_def sh_plain_def)

lemma name_plain: "valid_uci_name v \<Longrightarrow> list_all sh_plain v"
  by (auto simp: valid_uci_name_def list_all_iff name_char_plain)

lemma index_plain:
  assumes "section_index t"
  shows "list_all sh_plain t"
proof -
  let ?b = "butlast (tl t)"
  from assms have len: "2 \<le> length t" and ends: "hd t = CHR ''[''" "last t = CHR '']''"
    by (auto simp: section_index_def Let_def)
  from len have "t = hd t # tl t" and "tl t \<noteq> []"
    by (cases t; auto)+
  then have t: "t = hd t # ?b @ [last t]"
    by (metis append_butlast_last_id last_tl)
  have "list_all sh_plain ?b"
  proof (cases "?b \<noteq> [] \<and> hd ?b = CHR ''-''")
    case True
    then obtain r where b: "?b = CHR ''-'' # r" by (cases ?b) auto
    with assms show ?thesis
      by (auto simp: section_index_def Let_def list_all_iff sh_plain_def is_alnum_def)
  next
    case False
    with assms show ?thesis
      by (auto simp: section_index_def Let_def list_all_iff sh_plain_def is_alnum_def)
  qed
  then show ?thesis
    by (subst t) (simp add: ends sh_plain_def)
qed

lemma section_plain: "valid_uci_section v \<Longrightarrow> list_all sh_plain v"
proof -
  assume *: "valid_uci_section v"
  show ?thesis
  proof (cases "valid_uci_name v")
    case True
    then show ?thesis by (rule name_plain)
  next
    case False
    with * obtain r where v: "v = CHR ''@'' # r"
      and t: "dropWhile name_char r = [] \<or> section_index (dropWhile name_char r)"
      by (auto simp: valid_uci_section_def Let_def split: list.splits)
    have "list_all sh_plain (takeWhile name_char r)"
      by (auto simp: list_all_iff name_char_plain dest!: set_takeWhileD)
    moreover have "list_all sh_plain (dropWhile name_char r)"
    proof (cases "dropWhile name_char r = []")
      case True
      then show ?thesis by (simp only: list.pred_inject)
    next
      case False
      with t show ?thesis by (blast intro: index_plain)
    qed
    ultimately have "list_all sh_plain r"
      by (metis list_all_append takeWhile_dropWhile_id)
    then show ?thesis by (simp add: v sh_plain_def)
  qed
qed

lemmas plain_text = name_plain section_plain

subsection \<open>What a translated command means\<close>

text \<open>The argument vector a typed command stands for.\<close>

definition uci_path :: "uci_command \<Rightarrow> string" where
  "uci_path cmd =
     uc_config cmd @ ''.'' @ uc_section cmd @ (if uc_option cmd = [] then [] else ''.'' @ uc_option cmd)"

definition uci_argv :: "uci_command \<Rightarrow> string list" where
  "uci_argv cmd =
     (if uc_action cmd = ''delete'' then [''uci'', ''-q'', ''delete'', uci_path cmd]
      else if uc_action cmd = ''add'' then [''uci'', ''add'', uc_config cmd, uc_value cmd]
      else [''uci'', uc_action cmd, uci_path cmd @ ''='' @ uc_value cmd])"

text \<open>Reading a line made of plain words and one quoted value.\<close>

lemma sh_words_assign:
  assumes "list_all sh_plain a" "a \<noteq> []" "list_all sh_plain b" "b \<noteq> []" "list_all sh_plain p" "p \<noteq> []"
  shows "sh_words (a @ CHR 0x20 # b @ CHR 0x20 # p @ CHR 0x27 # escapeVal v @ [CHR 0x27])
       = Some [a, b, p @ v]"
proof -
  have push: "x \<noteq> [] \<Longrightarrow> sh_push None x = Some x" for x
    by (simp add: sh_push_def)
  show ?thesis
    using assms sh_read_quoted [of p v]
    by (simp add: sh_words_def sh_read_plain push sh_flush_def del: sh_read.simps)
qed

lemma sh_words_plain4:
  assumes "list_all sh_plain a" "a \<noteq> []" "list_all sh_plain b" "b \<noteq> []"
    "list_all sh_plain c" "c \<noteq> []" "list_all sh_plain d" "d \<noteq> []"
  shows "sh_words (a @ CHR 0x20 # b @ CHR 0x20 # c @ CHR 0x20 # d) = Some [a, b, c, d]"
proof -
  have push: "x \<noteq> [] \<Longrightarrow> sh_push None x = Some x" for x
    by (simp add: sh_push_def)
  have last: "sh_read False None d = Some [d]"
    using assms(7,8) sh_read_plain [of d None "[]"] by (simp add: push sh_flush_def)
  show ?thesis
    using assms(1-6) by (simp add: sh_words_def sh_read_plain push last sh_flush_def del: sh_read.simps)
qed

lemma sh_plain_consts [simp]:
  "sh_plain CHR ''u''" "sh_plain CHR ''c''" "sh_plain CHR ''i''" "sh_plain CHR ''.''"
  "sh_plain CHR ''=''" "sh_plain CHR ''-''" "sh_plain CHR ''q''" "sh_plain CHR ''s''"
  "sh_plain CHR ''e''" "sh_plain CHR ''t''" "sh_plain CHR ''a''" "sh_plain CHR ''d''"
  "sh_plain CHR ''l''" "sh_plain CHR ''_''" "sh_plain CHR ''r''" "sh_plain CHR ''n''"
  "sh_plain CHR ''m''"
  by (simp_all add: sh_plain_def char_class_defs less_eq_char_def)

lemma uci_path_plain:
  "valid_uci_name (uc_config cmd) \<Longrightarrow> valid_uci_section (uc_section cmd) \<Longrightarrow>
   uc_option cmd = [] \<or> valid_uci_name (uc_option cmd) \<Longrightarrow>
   list_all sh_plain (uci_path cmd) \<and> uci_path cmd \<noteq> []"
  by (auto simp: uci_path_def plain_text)

lemma assign_line_words:
  assumes "valid_uci_name (uc_config cmd)" "valid_uci_section (uc_section cmd)"
    "uc_option cmd = [] \<or> valid_uci_name (uc_option cmd)"
    "list_all sh_plain a" "a \<noteq> []"
  shows "sh_words (''uci '' @ a @ '' '' @ uci_path cmd @ ''='' @ [CHR 0x27] @ escapeVal v @ [CHR 0x27])
       = Some [''uci'', a, uci_path cmd @ ''='' @ v]"
  using uci_path_plain [OF assms(1-3)] assms(4,5) sh_words_assign [of "''uci''" a "uci_path cmd @ ''=''" v]
  by simp

lemma delete_line_words:
  assumes "valid_uci_name (uc_config cmd)" "valid_uci_section (uc_section cmd)"
    "uc_option cmd = [] \<or> valid_uci_name (uc_option cmd)"
  shows "sh_words (''uci -q delete '' @ uci_path cmd) = Some [''uci'', ''-q'', ''delete'', uci_path cmd]"
  using uci_path_plain [OF assms] sh_words_plain4 [of "''uci''" "''-q''" "''delete''" "uci_path cmd"]
  by simp

lemma add_line_words:
  assumes "valid_uci_name c" "valid_uci_name t"
  shows "sh_words (''uci add '' @ c @ '' '' @ t) = Some [''uci'', ''add'', c, t]"
  using assms name_plain sh_words_plain4 [of "''uci''" "''add''" c t]
  by (simp add: valid_uci_name_def)

text \<open>The line of every accepted command that is not a script, and what is valid in it.\<close>

lemma set_line:
  "uc_action cmd = ''set'' \<Longrightarrow> translateCommand cmd \<noteq> [] \<Longrightarrow>
   valid_uci_name (uc_config cmd) \<and> valid_uci_section (uc_section cmd)
   \<and> (uc_option cmd = [] \<or> valid_uci_name (uc_option cmd))
   \<and> translateCommand cmd =
       ''uci set '' @ uci_path cmd @ ''='' @ [CHR 0x27] @ escapeVal (uc_value cmd) @ [CHR 0x27]"
  by (auto simp: Let_def translateCommand_def SetOption_def uci_path_def split: if_splits)

lemma rename_line:
  "uc_action cmd = ''rename'' \<Longrightarrow> translateCommand cmd \<noteq> [] \<Longrightarrow>
   valid_uci_name (uc_config cmd) \<and> valid_uci_section (uc_section cmd)
   \<and> (uc_option cmd = [] \<or> valid_uci_name (uc_option cmd))
   \<and> translateCommand cmd =
       ''uci rename '' @ uci_path cmd @ ''='' @ [CHR 0x27] @ escapeVal (uc_value cmd) @ [CHR 0x27]"
  by (auto simp: Let_def translateCommand_def Rename_def uci_path_def split: if_splits)

lemma list_line:
  "uc_action cmd = ''add_list'' \<or> uc_action cmd = ''del_list'' \<Longrightarrow> translateCommand cmd \<noteq> [] \<Longrightarrow>
   valid_uci_name (uc_config cmd) \<and> valid_uci_section (uc_section cmd) \<and> valid_uci_name (uc_option cmd)
   \<and> translateCommand cmd =
       ''uci '' @ uc_action cmd @ '' '' @ uci_path cmd @ ''='' @ [CHR 0x27] @ escapeVal (uc_value cmd) @ [CHR 0x27]"
  by (auto simp: Let_def translateCommand_def AddList_def DelList_def uci_path_def valid_uci_name_def
      split: if_splits)

lemma delete_line:
  "uc_action cmd = ''delete'' \<Longrightarrow> translateCommand cmd \<noteq> [] \<Longrightarrow>
   valid_uci_name (uc_config cmd) \<and> valid_uci_section (uc_section cmd)
   \<and> (uc_option cmd = [] \<or> valid_uci_name (uc_option cmd))
   \<and> translateCommand cmd = (''uci -q delete '' @ uci_path cmd) @ '' || true''"
  by (auto simp: Let_def translateCommand_def Delete_def DeleteOption_def uci_path_def split: if_splits)

lemma add_line:
  "uc_action cmd = ''add'' \<Longrightarrow> translateCommand cmd \<noteq> [] \<Longrightarrow>
   valid_uci_name (uc_config cmd) \<and> valid_uci_name (uc_value cmd)
   \<and> translateCommand cmd = ''uci add '' @ uc_config cmd @ '' '' @ uc_value cmd"
  by (auto simp: Let_def translateCommand_def AddAnonymousSection_def split: if_splits)

lemmas command_lines = set_line rename_line list_line delete_line add_line

text \<open>
  C3. No injection: whenever the bridge accepts one of the plain actions, the shell reads the
  emitted line (before a possible \<open>|| true\<close>) as exactly the intended argument vector; the value
  arrives byte for byte, whatever quotes, newlines or operators it contains.
\<close>

theorem translateCommand_words:
  assumes act: "uc_action cmd \<in> {''set'', ''delete'', ''add_list'', ''del_list'', ''add'', ''rename''}"
    and acc: "translateCommand cmd \<noteq> []"
  shows "\<exists>line tail. translateCommand cmd = line @ tail \<and> tail \<in> {[], '' || true''}
      \<and> sh_words line = Some (uci_argv cmd)"
proof (cases "uc_action cmd = ''delete''")
  case True
  then show ?thesis
    using delete_line [OF True acc] delete_line_words [of cmd]
    by (intro exI [of _ "''uci -q delete '' @ uci_path cmd"] exI [of _ "'' || true''"])
       (simp add: uci_argv_def)
next
  case False
  then consider "uc_action cmd = ''set''" | "uc_action cmd = ''rename''"
    | "uc_action cmd = ''add_list'' \<or> uc_action cmd = ''del_list''" | "uc_action cmd = ''add''"
    using act by auto
  then have "sh_words (translateCommand cmd) = Some (uci_argv cmd)"
  proof cases
    case 1
    then show ?thesis
      using set_line [OF 1 acc] assign_line_words [of cmd "''set''" "uc_value cmd"]
      by (simp add: uci_argv_def)
  next
    case 2
    then show ?thesis
      using rename_line [OF 2 acc] assign_line_words [of cmd "''rename''" "uc_value cmd"]
      by (simp add: uci_argv_def)
  next
    case 3
    then show ?thesis
      using list_line [OF 3 acc] assign_line_words [of cmd "uc_action cmd" "uc_value cmd"]
      by (auto simp: uci_argv_def)
  next
    case 4
    then show ?thesis
      using add_line [OF 4 acc] add_line_words by (simp add: uci_argv_def)
  qed
  then show ?thesis
    by (intro exI [of _ "translateCommand cmd"] exI [of _ "[]"]) simp
qed

theorem translateCommand_words_witness:
  "\<exists>line tail. translateCommand (mk_uci ''set'' ''system'' ''@system[0]'' ''hostname'' (''a; rm'' @ sq @ ''$(x)''))
      = line @ tail \<and> tail \<in> {[], '' || true''}
    \<and> sh_words line = Some [''uci'', ''set'', ''system.@system[0].hostname=a; rm'' @ sq @ ''$(x)'']"
  using translateCommand_words [of "mk_uci ''set'' ''system'' ''@system[0]'' ''hostname'' (''a; rm'' @ sq @ ''$(x)'')"]
  by (simp add: Let_def uci_argv_def uci_path_def translateCommand_def SetOption_def valid_uci_name_def
      valid_uci_section_def section_index_def name_char_def char_class_defs less_eq_char_def)

section \<open>Validators\<close>

lemma validate_targets_loop_eq:
  "validate_targets_loop seen valid ts =
     (if list_all valid_health_target ts then Some (valid @ dedup seen ts) else None)"
  by (induction ts arbitrary: seen valid) auto

text \<open>
  Health targets are accepted exactly when every one of them is an address or a host name, and
  the accepted list is the input without repetitions, in its order.
\<close>

theorem ValidateHealthTargets_eq:
  "ValidateHealthTargets ts =
     (if list_all valid_health_target ts then Some (dedup {} ts) else None)"
  by (simp add: ValidateHealthTargets_def validate_targets_loop_eq)

text \<open>What the MAC list parser returns.\<close>

definition upper_mac :: "string \<Rightarrow> bool" where
  "upper_mac m \<longleftrightarrow>
     length m = 17 \<and>
     list_all (\<lambda>i. if i mod 3 = 2 then m ! i = CHR '':'' else is_hex (m ! i) \<and> \<not> is_lower (m ! i))
       [0..<17]"

lemma find_macs_sound: "m \<in> set (find_macs s) \<Longrightarrow> mac_at m \<and> length m = 17"
proof (induction s rule: find_macs.induct)
  case (1 s)
  show ?case
  proof (cases "s \<noteq> [] \<and> mac_at s")
    case True
    then have "mac_at (take 17 s)"
      by (auto simp: mac_at_def list_all_iff)
    moreover have "length (take 17 s) = 17"
      using True by (simp add: mac_at_def)
    ultimately show ?thesis
      using 1 True by (subst (asm) (3) find_macs.simps) auto
  next
    case False
    with 1 show ?thesis by (subst (asm) (3) find_macs.simps) (auto split: if_splits)
  qed
qed

lemma upper_hex:
  assumes "is_hex c"
  shows "is_hex (to_upper_char c) \<and> \<not> is_lower (to_upper_char c)"
proof (cases "is_lower c")
  case True
  with assms have "97 \<le> (of_char c :: nat)" "of_char c \<le> (102 :: nat)"
    by (auto simp: is_hex_def is_lower_def is_digit_def less_eq_char_def)
  then show ?thesis
    by (auto simp: to_upper_char_def True is_hex_def is_lower_def is_digit_def less_eq_char_def)
next
  case False
  with assms show ?thesis by (simp add: to_upper_char_def)
qed

lemma upper_colon: "to_upper_char CHR '':'' = CHR '':''"
  by code_simp

lemma upper_mac_map: "mac_at m \<Longrightarrow> length m = 17 \<Longrightarrow> upper_mac (to_upper m)"
  by (auto simp: mac_at_def upper_mac_def list_all_iff to_upper_def upper_hex upper_colon)

text \<open>
  A parsed MAC list is a list of distinct upper-case addresses, never empty, and nothing but
  quotes and blanks was skipped in the input.
\<close>

theorem ParseMACList_sound:
  assumes "ParseMACList raw = Some macs"
  shows "macs \<noteq> [] \<and> distinct macs \<and> list_all upper_mac macs
       \<and> set macs = set (map to_upper (find_macs raw)) \<and> list_all mac_filler (remove_macs raw)"
proof -
  from assms have ne: "find_macs raw \<noteq> []" and rest: "filter (\<lambda>c. \<not> mac_filler c) (remove_macs raw) = []"
    and macs: "macs = dedup {} (map to_upper (find_macs raw))"
    by (auto simp: ParseMACList_def Let_def split: if_splits)
  have set: "set macs = set (map to_upper (find_macs raw))"
    by (simp add: macs set_dedup)
  moreover have "list_all upper_mac macs"
    using find_macs_sound upper_mac_map by (auto simp: list_all_iff set)
  moreover have "macs \<noteq> []"
    using ne set by (cases "find_macs raw") auto
  ultimately show ?thesis
    using rest by (simp add: macs distinct_dedup filter_empty_conv list_all_iff)
qed

theorem ParseMACList_sound_witness:
  "ParseMACList ''aa:00:00:00:00:01 AA:00:00:00:00:01'' = Some [''AA:00:00:00:00:01'']
   \<and> list_all upper_mac [''AA:00:00:00:00:01'']"
proof -
  have "ParseMACList ''aa:00:00:00:00:01 AA:00:00:00:00:01'' = Some [''AA:00:00:00:00:01'']"
    by code_simp
  with ParseMACList_sound [OF this] show ?thesis by simp
qed

subsection \<open>Raw commands\<close>

lemma join_plain:
  "list_all (list_all sh_plain) ps \<Longrightarrow> list_all sh_plain (join_with ''.'' ps)"
  by (induction "''.''" ps rule: join_with.induct) auto

lemma path_plain:
  assumes "valid_uci_path path config lo hi" "valid_uci_name config"
  shows "list_all sh_plain path"
proof -
  let ?ps = "split_on CHR ''.'' path"
  have "?ps = hd ?ps # tl ?ps" by simp
  then have "list_all (list_all sh_plain) (hd ?ps # tl ?ps)"
    using assms by (auto simp: valid_uci_path_def Let_def list_all_iff section_plain [unfolded list_all_iff]
        name_plain [unfolded list_all_iff])
  then show ?thesis
    using join_plain [of ?ps] join_split_on [of "CHR ''.''" path] by simp
qed

lemma path_nonempty: "valid_uci_path path config lo hi \<Longrightarrow> 2 \<le> lo \<Longrightarrow> path \<noteq> []"
  by (auto simp: valid_uci_path_def)

lemma escapeVal_id: "CHR 0x27 \<notin> set v \<Longrightarrow> escapeVal v = v"
  by (induction v) (auto simp: escapeVal_Cons)

lemma quoted_token:
  assumes "valid_uci_value_token v"
  shows "(valid_uci_name v \<and> list_all sh_plain v) \<or> (\<exists>x. v = CHR 0x27 # escapeVal x @ [CHR 0x27])"
proof (cases "2 \<le> length v \<and> hd v = CHR 0x27 \<and> last v = CHR 0x27")
  case True
  let ?x = "butlast (tl v)"
  from True have "v \<noteq> []" "tl v \<noteq> []" by (cases v; auto)+
  with True have v: "v = CHR 0x27 # ?x @ [CHR 0x27]"
    by (metis append_butlast_last_id last_tl list.collapse)
  from True assms have "escapeVal ?x = ?x"
    by (intro escapeVal_id) (auto simp: valid_uci_value_token_def contains_any_def list_ex_iff)
  with v show ?thesis by metis
next
  case False
  with assms show ?thesis by (auto simp: valid_uci_value_token_def name_plain)
qed

lemma sh_words_plain3:
  assumes "list_all sh_plain a" "a \<noteq> []" "list_all sh_plain b" "b \<noteq> []" "list_all sh_plain c" "c \<noteq> []"
  shows "sh_words (a @ CHR 0x20 # b @ CHR 0x20 # c) = Some [a, b, c]"
proof -
  have push: "x \<noteq> [] \<Longrightarrow> sh_push None x = Some x" for x
    by (simp add: sh_push_def)
  have last: "sh_read False None c = Some [c]"
    using assms(5,6) sh_read_plain [of c None "[]"] by (simp add: push sh_flush_def)
  show ?thesis
    using assms(1-4) by (simp add: sh_words_def sh_read_plain push last sh_flush_def del: sh_read.simps)
qed

lemma raw_assign_words:
  assumes "list_all sh_plain a" "a \<noteq> []" "list_all sh_plain path" "path \<noteq> []" "valid_uci_value_token v"
  shows "\<exists>w. sh_words (''uci'' @ CHR 0x20 # a @ CHR 0x20 # path @ CHR ''='' # v) = Some [''uci'', a, w]"
  using quoted_token [OF assms(5)]
proof
  assume "valid_uci_name v \<and> list_all sh_plain v"
  then show ?thesis
    using assms sh_words_plain3 [of "''uci''" a "path @ CHR ''='' # v"] by simp
next
  assume "\<exists>x. v = CHR 0x27 # escapeVal x @ [CHR 0x27]"
  then obtain x where "v = CHR 0x27 # escapeVal x @ [CHR 0x27]" ..
  then show ?thesis
    using assms sh_words_assign [of "''uci''" a "path @ ''=''" x] by simp
qed

lemma cut_prefix:
  "has_prefix s p \<Longrightarrow> trim_prefix s p = r \<Longrightarrow> s = p @ r"
  by (auto simp: has_prefix_iff trim_prefix_def)

text \<open>
  A raw command the legacy editor may send, other than \<open>uci add\<close>, is one simple command whose
  first word is \<open>uci\<close>: the shell finds no operator, expansion or redirection in it.
\<close>

theorem ValidRawUCICommand_simple:
  assumes ok: "ValidRawUCICommand command config" and noadd: "\<not> has_prefix command ''uci add ''"
  shows "\<exists>ws. sh_words command = Some (''uci'' # ws)"
proof -
  have cfg: "valid_uci_name config"
    using ok by (auto simp: ValidRawUCICommand_def split: if_splits)
  have assign: "\<exists>ws. sh_words (''uci'' @ CHR 0x20 # a @ CHR 0x20 # path @ CHR ''='' # v) = Some (''uci'' # ws)"
    if "list_all sh_plain a" "a \<noteq> []" "valid_uci_path path config 2 3" "valid_uci_value_token v" for a path v
    using raw_assign_words [OF that(1,2) path_plain [OF that(3) cfg] path_nonempty [OF that(3)] that(4)]
    by auto
  consider (set) path v where "command = ''uci set '' @ path @ ''='' @ v"
      "valid_uci_path path config 2 3" "valid_uci_value_token v"
    | (add) path v where "command = ''uci add_list '' @ path @ ''='' @ v"
      "valid_uci_path path config 2 3" "valid_uci_value_token v"
    | (del) path v where "command = ''uci del_list '' @ path @ ''='' @ v"
      "valid_uci_path path config 2 3" "valid_uci_value_token v"
    | (delete) path where "command = ''uci delete '' @ path" "valid_uci_path path config 2 3"
    | (qdelete) path where "command = ''uci -q delete '' @ path" "valid_uci_path path config 2 3"
    using ok noadd
    by (auto simp: ValidRawUCICommand_def split: if_splits option.splits
        dest!: cut_prefix [OF _ refl] cut_at_Some)
  then show ?thesis
  proof cases
    case set
    then show ?thesis using assign [of "''set''" path v] by simp
  next
    case add
    then show ?thesis using assign [of "''add_list''" path v] by simp
  next
    case del
    then show ?thesis using assign [of "''del_list''" path v] by simp
  next
    case delete
    then show ?thesis
      using path_plain [OF delete(2) cfg] path_nonempty [OF delete(2)]
        sh_words_plain3 [of "''uci''" "''delete''" path] by simp
  next
    case qdelete
    then show ?thesis
      using path_plain [OF qdelete(2) cfg] path_nonempty [OF qdelete(2)]
        sh_words_plain4 [of "''uci''" "''-q''" "''delete''" path] by simp
  qed
qed

theorem ValidRawUCICommand_simple_witness:
  "\<exists>ws. sh_words (''uci set system.ntp.server='' @ sq @ ''a b'' @ sq) = Some (''uci'' # ws)"
proof (rule ValidRawUCICommand_simple [of _ "''system''"])
  show "ValidRawUCICommand (''uci set system.ntp.server='' @ sq @ ''a b'' @ sq) ''system''"
    by code_simp
  show "\<not> has_prefix (''uci set system.ntp.server='' @ sq @ ''a b'' @ sq) ''uci add ''"
    by code_simp
qed

end
