(* ===== verification/Uci_Scripts.thy ===== *)
theory Uci_Scripts
  imports Uci_Bridge
begin

text \<open>
  The batch scripts of \<open>src/internal/services/uci_bridge.go\<close>: \<open>BuildBatchScript\<close> wraps the
  translated commands of one namespace with snapshot, rollback, commit, validation and service
  restart and puts them under the device lock, \<open>BuildSafeBatchScript\<close> adds health checks after
  the restart, \<open>BuildDryRunScript\<close> emits the commands alone. The template is kept line by line; its
  parts have names so that the lemmas can speak of them.
\<close>

definition ServiceRestartMap :: "(string \<times> string) list" where
  "ServiceRestartMap =
     [(''network'', ''/etc/init.d/network restart''),
      (''wireless'', ''wifi''),
      (''dhcp'', ''/etc/init.d/dnsmasq restart''),
      (''firewall'', ''/etc/init.d/firewall restart''),
      (''system'', ''/etc/init.d/system restart''),
      (''dropbear'', ''/etc/init.d/dropbear restart''),
      (''uhttpd'', ''/etc/init.d/uhttpd restart''),
      (''openvpn'', ''/etc/init.d/openvpn restart''),
      (''hostblock'', ''/etc/init.d/hostblock restart'')]"

definition restart_command :: "string \<Rightarrow> string" where
  "restart_command config =
     (case map_of ServiceRestartMap config of
        None \<Rightarrow> []
      | Some svc \<Rightarrow> svc @ '' && logger -t central_luci '' @ sq @ config @ '' service restarted'' @ sq)"

text \<open>The loop over the commands: \<open>None\<close> where the source returns the empty script.\<close>

fun batch_lines :: "string \<Rightarrow> uci_command list \<Rightarrow> string option" where
  "batch_lines config [] = Some []"
| "batch_lines config (cmd # cmds) =
     (if uc_config cmd \<noteq> config then None
      else if translateCommand cmd = [] then None
      else map_option (\<lambda>rest. translateCommand cmd @ [CHR 0x0A] @ rest) (batch_lines config cmds))"

definition em_dash :: string where
  "em_dash = [CHR 0xE2, CHR 0x80, CHR 0x94]"

definition box_rule :: "nat \<Rightarrow> string" where
  "box_rule n = concat (replicate n [CHR 0xE2, CHR 0x94, CHR 0x80])"

definition script_start :: string where
  "script_start = unlines [''#!/bin/sh'', ''set -e'']"

definition rollback_before_restart :: "string \<Rightarrow> string" where
  "rollback_before_restart config = unlines
     [[],
      ''# '' @ box_rule 62,
      ''# CENTRAL_LUCI '' @ em_dash @ '' Atomic UCI batch push (Nerve Center)'',
      ''# Config namespace: '' @ config,
      ''# '' @ box_rule 62,
      [],
      ''logger -t central_luci '' @ dq @ ''CENTRAL_LUCI: starting batch push for '' @ sq @ config @ sq @ dq,
      [],
      ''# Phase 1: Snapshot current state for rollback'',
      ''backup_exists=0'',
      ''if [ -f /etc/config/'' @ config @ '' ]; then'',
      ''  cp /etc/config/'' @ config @ '' /tmp/central_luci_bak_'' @ config @ ''.conf'',
      ''  backup_exists=1'',
      ''else'',
      ''  : > /tmp/central_luci_bak_'' @ config @ ''.conf'',
      ''fi'',
      [],
      [CHR 0x09] @ ''rollback() {'',
      ''  logger -t central_luci '' @ dq @ ''CENTRAL_LUCI: ROLLBACK '' @ em_dash @ '' restoring '' @ sq @ config @ sq @ '' from snapshot'' @ dq,
      ''  uci revert '' @ config @ '' 2>/dev/null || true'',
      ''  if [ '' @ dq @ ''$backup_exists'' @ dq @ '' -eq 1 ]; then'',
      ''    cp /tmp/central_luci_bak_'' @ config @ ''.conf /etc/config/'' @ config,
      ''  else'',
      ''    rm -f /etc/config/'' @ config,
      ''  fi'',
      ''  uci revert '' @ config @ '' 2>/dev/null || true'']"

definition rollback_restart_line :: "string \<Rightarrow> string" where
  "rollback_restart_line restartCmd = unlines [''  '' @ restartCmd @ '' || true'']"

definition rollback_after_restart :: "string \<Rightarrow> string" where
  "rollback_after_restart config = unlines
     [''  rm -f /tmp/central_luci_bak_'' @ config @ ''.conf'',
      ''  exit 1'',
      ''}'',
      [],
      ''trap '' @ sq @ ''status=$?; echo '' @ dq @ ''CENTRAL_LUCI: command failed at line $LINENO with status $status'' @ dq @ '' >&2; rollback'' @ sq @ '' ERR'',
      [],
      ''# Phase 2: Apply UCI mutations'']"

definition phases_before_restart :: "string \<Rightarrow> string" where
  "phases_before_restart config = unlines
     [''# Phase 3: Commit to flash'',
      ''uci commit '' @ config,
      [],
      ''# Phase 4: Syntax validation'',
      ''uci show '' @ config @ '' > /dev/null 2>&1 || {'',
      ''  logger -t central_luci '' @ dq @ ''CENTRAL_LUCI: VALIDATION FAILED for '' @ sq @ config @ sq @ dq,
      ''  rollback'',
      ''}'',
      [],
      ''# Phase 5: Service restart'']"

definition phases_after_restart :: "string \<Rightarrow> string" where
  "phases_after_restart config = unlines
     [[],
      ''logger -t central_luci '' @ dq @ ''CENTRAL_LUCI: batch push complete for '' @ sq @ config @ sq @ dq,
      ''rm -f /tmp/central_luci_bak_'' @ config @ ''.conf'',
      ''exit 0'']"

text \<open>The text \<open>fmt.Sprintf\<close> builds before the lock is inserted.\<close>

definition batch_template :: "string \<Rightarrow> string \<Rightarrow> string \<Rightarrow> string" where
  "batch_template config restartCmd mutations =
     script_start @ rollback_before_restart config @ rollback_restart_line restartCmd
       @ rollback_after_restart config @ mutations @ [CHR 0x0A] @ phases_before_restart config
       @ restartCmd @ [CHR 0x0A] @ phases_after_restart config"

definition lock_marker :: string where
  "lock_marker = unlines [''set -e'']"

definition lock_text :: string where
  "lock_text = unlines
     [[],
      ''uci_lock_dir=/tmp/central_luci_uci.lock'',
      ''uci_lock_acquired=0'',
      ''release_uci_lock() {'',
      ''  if [ '' @ dq @ ''$uci_lock_acquired'' @ dq @ '' -eq 1 ]; then'',
      ''    rmdir '' @ dq @ ''$uci_lock_dir'' @ dq @ '' 2>/dev/null || true'',
      ''    uci_lock_acquired=0'',
      ''  fi'',
      ''}'',
      ''trap release_uci_lock EXIT'',
      [],
      ''uci_lock_attempt=0'',
      ''while ! mkdir '' @ dq @ ''$uci_lock_dir'' @ dq @ '' 2>/dev/null; do'',
      ''  uci_lock_mtime=$(stat -c %Y '' @ dq @ ''$uci_lock_dir'' @ dq @ '' 2>/dev/null || printf '' @ sq @ ''0'' @ sq @ '')'',
      ''  uci_lock_now=$(date +%s)'',
      ''  if [ '' @ dq @ ''$uci_lock_mtime'' @ dq @ '' -gt 0 ] && [ '' @ dq @ ''$uci_lock_now'' @ dq @ '' -gt '' @ dq @ ''$uci_lock_mtime'' @ dq @ '' ] && [ '' @ dq @ ''$((uci_lock_now - uci_lock_mtime))'' @ dq @ '' -ge 1800 ]; then'',
      ''    rmdir '' @ dq @ ''$uci_lock_dir'' @ dq @ '' 2>/dev/null || true'',
      ''    continue'',
      ''  fi'',
      ''  uci_lock_attempt=$((uci_lock_attempt + 1))'',
      ''  if [ '' @ dq @ ''$uci_lock_attempt'' @ dq @ '' -ge 60 ]; then'',
      ''    printf '' @ sq @ ''CENTRAL_LUCI: timed out waiting for UCI lock'' @ bs @ ''n'' @ sq @ '' >&2'',
      ''    exit 1'',
      ''  fi'',
      ''  sleep 1'',
      ''done'',
      ''uci_lock_acquired=1'']"

definition withUciMutationLock :: "string \<Rightarrow> string" where
  "withUciMutationLock script =
     (case index_of script lock_marker of
        None \<Rightarrow> script
      | Some i \<Rightarrow>
          take (i + length lock_marker) script @ lock_text @ drop (i + length lock_marker) script)"

definition BuildBatchScript :: "string \<Rightarrow> uci_command list \<Rightarrow> string" where
  "BuildBatchScript config commands =
     (if \<not> valid_uci_name config then []
      else (case batch_lines config commands of
              None \<Rightarrow> []
            | Some mutations \<Rightarrow>
                withUciMutationLock (batch_template config (restart_command config) mutations)))"

definition health_check :: "string \<Rightarrow> string" where
  "health_check target = unlines
     [''health_target='' @ shellQuote target,
      ''health_ok=0'',
      ''for health_attempt in 1 2 3; do'',
      ''  if ping -c 1 -W 2 '' @ shellQuote target @ '' >/dev/null 2>&1; then'',
      ''    health_ok=1'',
      ''    break'',
      ''  fi'',
      ''  sleep 1'',
      ''done'',
      ''if [ '' @ dq @ ''$health_ok'' @ dq @ '' -ne 1 ]; then'',
      ''  printf '' @ sq @ ''CENTRAL_LUCI: health check failed for target %s'' @ bs @ ''n'' @ sq
        @ '' '' @ dq @ ''$health_target'' @ dq @ '' >&2'',
      ''  rollback'',
      ''fi'']"

definition health_text :: "string list \<Rightarrow> string" where
  "health_text targets = [CHR 0x0A] @ concat (map health_check targets) @ [CHR 0x0A]"

definition restart_marker :: string where
  "restart_marker = unlines [''# Phase 5: Service restart'']"

definition BuildSafeBatchScript :: "string \<Rightarrow> uci_command list \<Rightarrow> string list \<Rightarrow> string" where
  "BuildSafeBatchScript config commands healthTargets =
     (let script = BuildBatchScript config commands;
          targets = (if healthTargets = [] then [''1.1.1.1''] else healthTargets)
      in if script = [] then []
         else (case index_of script restart_marker of
             None \<Rightarrow> script
           | Some m \<Rightarrow>
               (let restartStart = m + length restart_marker in
                case index_of (drop restartStart script) [CHR 0x0A] of
                  None \<Rightarrow> script
                | Some e \<Rightarrow>
                    (let restartEnd = e + restartStart in
                     take (restartEnd + 1) script @ health_text targets @ drop (restartEnd + 1) script))))"

definition BuildDryRunScript :: "string \<Rightarrow> uci_command list \<Rightarrow> string" where
  "BuildDryRunScript config commands =
     (if commands = [] \<or> \<not> valid_uci_name config then []
      else (case batch_lines config commands of None \<Rightarrow> [] | Some text \<Rightarrow> text))"

section \<open>Searching text\<close>

lemma index_of_Cons:
  "index_of (c # s) p = (if has_prefix (c # s) p then Some 0 else map_option Suc (index_of s p))"
  by (subst index_of.simps) simp

lemma index_of_found: "index_of s p = Some i \<Longrightarrow> i \<le> length s \<and> has_prefix (drop i s) p"
proof (induction s arbitrary: i)
  case Nil
  then show ?case by (subst (asm) index_of.simps) (auto split: if_splits)
next
  case (Cons c s)
  then show ?case by (auto simp: index_of_Cons split: if_splits)
qed

lemma index_of_first: "\<exists>i \<le> length a. index_of (a @ p @ b) p = Some i"
proof (induction a)
  case Nil
  then show ?case by (subst index_of.simps) (auto simp: has_prefix_def)
next
  case (Cons c a)
  then show ?case by (auto simp: index_of_Cons)
qed

lemma index_of_first_Some: "index_of (a @ p @ b) p = Some i \<Longrightarrow> i \<le> length a"
  using index_of_first [of a p b] by auto

lemma unlines_Cons: "unlines (l # ls) = l @ [CHR 0x0A] @ unlines ls"
  by (simp add: unlines_def)

lemma unlines_Nil: "unlines [] = []"
  by (simp add: unlines_def)

section \<open>The shape of a batch script\<close>

definition batch_accepts :: "string \<Rightarrow> uci_command list \<Rightarrow> bool" where
  "batch_accepts config cmds \<longleftrightarrow>
     list_all (\<lambda>c. uc_config c = config \<and> translateCommand c \<noteq> []) cmds"

definition mutation_text :: "uci_command list \<Rightarrow> string" where
  "mutation_text cmds = concat (map (\<lambda>c. translateCommand c @ [CHR 0x0A]) cmds)"

lemma batch_lines_eq:
  "batch_lines config cmds = (if batch_accepts config cmds then Some (mutation_text cmds) else None)"
  by (induction cmds) (auto simp: batch_accepts_def mutation_text_def)

lemma index_of_lock: "index_of (script_start @ r) lock_marker = Some 10"
  by (simp add: script_start_def lock_marker_def unlines_def index_of_Cons has_prefix_def)

lemma withUciMutationLock_start:
  "withUciMutationLock (script_start @ r) = script_start @ lock_text @ r"
proof -
  have "length lock_marker = 7" "length script_start = 17"
    by (simp_all add: lock_marker_def script_start_def unlines_def)
  then show ?thesis
    by (simp add: withUciMutationLock_def index_of_lock)
qed

definition script_before_restart :: "string \<Rightarrow> uci_command list \<Rightarrow> string" where
  "script_before_restart config cmds =
     script_start @ lock_text @ rollback_before_restart config
       @ rollback_restart_line (restart_command config) @ rollback_after_restart config
       @ mutation_text cmds @ [CHR 0x0A] @ phases_before_restart config"

lemma batch_script_eq:
  "BuildBatchScript config cmds =
     (if valid_uci_name config \<and> batch_accepts config cmds
      then script_before_restart config cmds @ restart_command config @ [CHR 0x0A]
             @ phases_after_restart config
      else [])"
  by (simp add: BuildBatchScript_def batch_lines_eq batch_template_def withUciMutationLock_start
      script_before_restart_def)

text \<open>
  A batch script exists exactly when the namespace is a valid name and every command belongs to
  it and translates; it then takes the lock directly after \<open>set -e\<close>, defines the rollback before
  the first mutation, and runs the mutations in order before commit, validation and restart.
\<close>

theorem BuildBatchScript_shape:
  "BuildBatchScript config cmds =
     (if valid_uci_name config \<and> batch_accepts config cmds
      then script_before_restart config cmds @ restart_command config @ [CHR 0x0A]
             @ phases_after_restart config
      else [])"
  by (rule batch_script_eq)

lemma script_start_nonempty: "script_start \<noteq> []"
  by (simp add: script_start_def unlines_def)

lemma BuildBatchScript_nonempty:
  "BuildBatchScript config cmds \<noteq> [] \<longleftrightarrow> valid_uci_name config \<and> batch_accepts config cmds"
  by (simp add: batch_script_eq script_before_restart_def script_start_nonempty)

text \<open>
  For a namespace without an entry in the restart map (\<open>sqm\<close>, \<open>mwan3\<close>, \<open>opennds\<close>) the rollback
  function of the script contains the line \<open>   || true\<close>, an AND-OR list without a left operand.
\<close>

theorem batch_without_service:
  assumes "map_of ServiceRestartMap config = None" "BuildBatchScript config cmds \<noteq> []"
  shows "\<exists>pre post. BuildBatchScript config cmds = pre @ [CHR 0x0A] @ unlines [''   || true''] @ post"
proof -
  have "restart_command config = []"
    using assms(1) by (simp add: restart_command_def)
  then have "rollback_restart_line (restart_command config) = unlines [''   || true'']"
    by (simp add: rollback_restart_line_def)
  moreover obtain p where "rollback_before_restart config = p @ [CHR 0x0A]"
    by (auto simp: rollback_before_restart_def unlines_Cons unlines_Nil)
  ultimately show ?thesis
    using assms(2) unfolding BuildBatchScript_nonempty
    by (rule_tac x = "script_start @ lock_text @ p" in exI)
       (simp add: batch_script_eq script_before_restart_def)
qed

abbreviation sqm_enable :: uci_command where
  "sqm_enable \<equiv> mk_uci ''set'' ''sqm'' ''queue'' ''enabled'' ''1''"

lemma sqm_enable_accepted: "valid_uci_name ''sqm'' \<and> batch_accepts ''sqm'' [sqm_enable]"
  by code_simp

theorem batch_without_service_witness:
  "\<exists>pre post. BuildBatchScript ''sqm'' [sqm_enable] = pre @ [CHR 0x0A] @ unlines [''   || true''] @ post"
proof (rule batch_without_service)
  show "map_of ServiceRestartMap ''sqm'' = None" by code_simp
  show "BuildBatchScript ''sqm'' [sqm_enable] \<noteq> []"
    using sqm_enable_accepted by (simp only: BuildBatchScript_nonempty)
qed

section \<open>Health checks\<close>

definition effective_targets :: "string list \<Rightarrow> string list" where
  "effective_targets ts = (if ts = [] then [''1.1.1.1''] else ts)"

lemma phases_before_restart_marker:
  "\<exists>p. phases_before_restart config = p @ restart_marker"
  by (auto simp: phases_before_restart_def restart_marker_def unlines_Cons unlines_Nil)

lemma newline_in_phases: "\<exists>r. phases_after_restart config = [CHR 0x0A] @ r"
  by (auto simp: phases_after_restart_def unlines_Cons)

text \<open>The text up to the end of the line that follows a marker.\<close>

lemma line_after_marker:
  assumes "index_of s mk = Some m" "index_of (drop (m + length mk) s) [c] = Some e"
  shows "take (e + (m + length mk) + 1) s = take m s @ mk @ take e (drop (m + length mk) s) @ [c]"
proof -
  have "take (length mk) (drop m s) = mk"
    using index_of_found [OF assms(1)] by (simp add: has_prefix_def)
  moreover have "take 1 (drop e (drop (m + length mk) s)) = [c]"
    using index_of_found [OF assms(2)] by (simp add: has_prefix_def)
  moreover have "take (m + (length mk + (e + 1))) s
      = take m s @ take (length mk) (drop m s) @ take e (drop (m + length mk) s)
          @ take 1 (drop e (drop (m + length mk) s))"
    using take_add [of m "length mk + (e + 1)" s] take_add [of "length mk" "e + 1" "drop m s"]
      take_add [of e 1 "drop (m + length mk) s"] by (simp add: add.commute)
  ultimately show ?thesis
    by (simp add: algebra_simps)
qed

lemma safe_script_insertion:
  assumes script: "BuildBatchScript config cmds = a @ restart_marker @ b @ [CHR 0x0A] @ c"
  shows "\<exists>pre post. BuildBatchScript config cmds = pre @ post
       \<and> length pre \<le> length (a @ restart_marker @ b) + 1
       \<and> (\<exists>p l. pre = p @ restart_marker @ l @ [CHR 0x0A])
       \<and> BuildSafeBatchScript config cmds ts = pre @ health_text (effective_targets ts) @ post"
proof -
  let ?s = "BuildBatchScript config cmds" and ?k = "length restart_marker"
  obtain m where m: "index_of ?s restart_marker = Some m" and mle: "m \<le> length a"
    using index_of_first [of a restart_marker "b @ [CHR 0x0A] @ c"] by (auto simp: script)
  have tail: "drop (m + ?k) ?s = drop (m + ?k) (a @ restart_marker @ b) @ [CHR 0x0A] @ c"
    using mle by (simp add: script)
  obtain e where e: "index_of (drop (m + ?k) ?s) [CHR 0x0A] = Some e"
    and ele: "e \<le> length (drop (m + ?k) (a @ restart_marker @ b))"
    using index_of_first [of "drop (m + ?k) (a @ restart_marker @ b)" "[CHR 0x0A]" c] tail by auto
  let ?pos = "e + (m + ?k) + 1"
  have "?s \<noteq> []" by (simp add: script)
  then have safe: "BuildSafeBatchScript config cmds ts
      = take ?pos ?s @ health_text (effective_targets ts) @ drop ?pos ?s"
    using m e by (simp add: BuildSafeBatchScript_def Let_def effective_targets_def)
  have "length (take ?pos ?s) \<le> length (a @ restart_marker @ b) + 1"
    using ele mle by auto
  moreover have "\<exists>p l. take ?pos ?s = p @ restart_marker @ l @ [CHR 0x0A]"
    using line_after_marker [OF m e] by blast
  ultimately show ?thesis
    using safe append_take_drop_id [of ?pos ?s, symmetric] by metis
qed

text \<open>
  Adding health checks only inserts text: the safe script is the plain batch script with the
  checks of all targets (\<open>1.1.1.1\<close> when none is given) put after the line that follows a restart
  marker, at the latest right after the service restart and before the snapshot is removed.
\<close>

theorem BuildSafeBatchScript_inserts:
  assumes "BuildBatchScript config cmds \<noteq> []"
  shows "\<exists>pre post. BuildBatchScript config cmds = pre @ post
       \<and> length pre \<le> length (script_before_restart config cmds @ restart_command config) + 1
       \<and> (\<exists>p l. pre = p @ restart_marker @ l @ [CHR 0x0A])
       \<and> BuildSafeBatchScript config cmds ts = pre @ health_text (effective_targets ts) @ post"
proof -
  obtain p where p: "phases_before_restart config = p @ restart_marker"
    using phases_before_restart_marker by blast
  let ?a = "script_start @ lock_text @ rollback_before_restart config
       @ rollback_restart_line (restart_command config) @ rollback_after_restart config
       @ mutation_text cmds @ [CHR 0x0A] @ p"
  have "BuildBatchScript config cmds
      = ?a @ restart_marker @ restart_command config @ [CHR 0x0A] @ phases_after_restart config"
    using assms unfolding BuildBatchScript_nonempty
    by (simp add: batch_script_eq script_before_restart_def p)
  from safe_script_insertion [OF this, of ts] show ?thesis
    by (simp add: script_before_restart_def p)
qed

theorem BuildSafeBatchScript_inserts_witness:
  "\<exists>pre post. BuildBatchScript ''sqm'' [sqm_enable] = pre @ post
     \<and> BuildSafeBatchScript ''sqm'' [sqm_enable] [''9.9.9.9''] = pre @ health_text [''9.9.9.9''] @ post"
  using BuildSafeBatchScript_inserts [of "''sqm''" "[sqm_enable]" "[''9.9.9.9'']"] sqm_enable_accepted
  unfolding BuildBatchScript_nonempty effective_targets_def by auto

text \<open>
  The marker is searched in the whole script, the operator's values included: a value that holds
  the marker as a line of its own draws the health checks into the mutation phase, before commit,
  validation and restart.
\<close>

theorem health_check_misplaced:
  assumes "BuildBatchScript config cmds \<noteq> []"
    and "mutation_text cmds = x @ restart_marker @ y @ [CHR 0x0A] @ z"
  shows "\<exists>pre post. BuildSafeBatchScript config cmds ts
         = pre @ health_text (effective_targets ts) @ post
         @ phases_before_restart config @ restart_command config @ [CHR 0x0A] @ phases_after_restart config"
proof -
  let ?h = "script_start @ lock_text @ rollback_before_restart config
       @ rollback_restart_line (restart_command config) @ rollback_after_restart config"
  let ?t = "phases_before_restart config @ restart_command config @ [CHR 0x0A] @ phases_after_restart config"
  have s: "BuildBatchScript config cmds
      = (?h @ x) @ restart_marker @ y @ [CHR 0x0A] @ (z @ [CHR 0x0A] @ ?t)"
    using assms(1) unfolding BuildBatchScript_nonempty
    by (simp add: batch_script_eq script_before_restart_def assms(2))
  obtain pre post where split: "BuildBatchScript config cmds = pre @ post"
    and len: "length pre \<le> length ((?h @ x) @ restart_marker @ y) + 1"
    and safe: "BuildSafeBatchScript config cmds ts = pre @ health_text (effective_targets ts) @ post"
    using safe_script_insertion [OF s, of ts] by blast
  let ?front = "((?h @ x) @ restart_marker @ y @ [CHR 0x0A]) @ z @ [CHR 0x0A]"
  have "pre @ post = ?front @ ?t"
    using split s by simp
  moreover have "length pre \<le> length ?front"
    using len by simp
  ultimately have "post = drop (length pre) ?front @ ?t"
    by (metis append_eq_append_conv_if append_eq_conv_conj)
  with safe show ?thesis by metis
qed

abbreviation marker_value :: uci_command where
  "marker_value \<equiv> mk_uci ''set'' ''system'' ''main'' ''notes'' ([CHR 0x0A] @ ''# Phase 5: Service restart'' @ [CHR 0x0A])"

theorem health_check_misplaced_witness:
  "\<exists>pre post. BuildSafeBatchScript ''system'' [marker_value] []
     = pre @ health_text [''1.1.1.1''] @ post @ phases_before_restart ''system''
         @ restart_command ''system'' @ [CHR 0x0A] @ phases_after_restart ''system''"
proof -
  have acc: "valid_uci_name ''system'' \<and> batch_accepts ''system'' [marker_value]"
    by code_simp
  have text_eq: "mutation_text [marker_value]
      = (''uci set system.main.notes='' @ sq @ [CHR 0x0A]) @ restart_marker @ sq @ [CHR 0x0A] @ []"
    by code_simp
  have "BuildBatchScript ''system'' [marker_value] \<noteq> []"
    using acc by (simp only: BuildBatchScript_nonempty)
  from health_check_misplaced [OF this text_eq, of "[]"] show ?thesis
    by (simp only: effective_targets_def if_True refl)
qed

end
