(* ===== verification/Go_Json.thy ===== *)
theory Go_Json
  imports Prelude
begin

text \<open>
  JSON values as the controller sees them. A \<open>json.RawMessage\<close> is \<open>None\<close> for bytes that are not
  JSON and \<open>Some v\<close> otherwise. Three views of a value are modelled:
  \<^item> \<open>json.Unmarshal\<close> into structs: keys match a field up to case folding, of repeated keys the
    last one counts, \<open>null\<close> leaves a string as it is, a value of the wrong type is an error;
  \<^item> the \<open>jsonb\<close> operators of PostgreSQL (\<open>->\<close>, \<open>->>\<close>, \<open>jsonb_set\<close>, \<open>=\<close>): keys match
    exactly, of repeated keys the last one counts;
  \<^item> the text that \<open>json.Marshal\<close> and \<open>json.Encoder\<close> write, which the plan hashes are computed
    from.
  \<open>JNum\<close> is an integer literal, \<open>JDec\<close> any other numeric literal, kept as its text.
\<close>

datatype json =
    JNull
  | JBool bool
  | JNum int
  | JDec string
  | JStr string
  | JArr "json list"
  | JObj "(string \<times> json) list"

type_synonym raw_message = "json option"

section \<open>The jsonb operators\<close>

definition jfield :: "string \<Rightarrow> json \<Rightarrow> json option" where
  "jfield k j = (case j of JObj kvs \<Rightarrow> map_of (rev kvs) k | _ \<Rightarrow> None)"

text \<open>\<open>jsonb\<close> keeps one value per key and orders keys by length, then bytewise.\<close>

definition key_le :: "string \<Rightarrow> string \<Rightarrow> bool" where
  "key_le a b \<longleftrightarrow> length a < length b \<or> length a = length b \<and> a \<le> b"

fun insert_key :: "string \<times> json \<Rightarrow> (string \<times> json) list \<Rightarrow> (string \<times> json) list" where
  "insert_key kv [] = [kv]"
| "insert_key kv (x # xs) =
     (if fst kv = fst x then kv # xs
      else if key_le (fst kv) (fst x) then kv # x # xs
      else x # insert_key kv xs)"

fun jsonb_norm :: "json \<Rightarrow> json" where
  "jsonb_norm (JArr js) = JArr (map jsonb_norm js)"
| "jsonb_norm (JObj kvs) = JObj (fold insert_key (map (\<lambda>(k, v). (k, jsonb_norm v)) kvs) [])"
| "jsonb_norm j = j"

definition jsonb_eq :: "json \<Rightarrow> json \<Rightarrow> bool" where
  "jsonb_eq a b \<longleftrightarrow> jsonb_norm a = jsonb_norm b"

section \<open>Text of JSON values\<close>

definition hex_digit :: "nat \<Rightarrow> char" where
  "hex_digit d = (if d < 10 then char_of (48 + d) else char_of (87 + d))"

definition in_bytes :: "nat \<Rightarrow> nat \<Rightarrow> char \<Rightarrow> bool" where
  "in_bytes lo hi c \<longleftrightarrow> lo \<le> of_char c \<and> of_char c \<le> hi"

text \<open>The width of the UTF-8 encoded rune a string starts with, 0 if its bytes are none.\<close>

definition utf8_width :: "string \<Rightarrow> nat" where
  "utf8_width s =
     (let cont = in_bytes 0x80 0xBF in
      case s of
        a # b # r \<Rightarrow>
          if in_bytes 0xC2 0xDF a \<and> cont b then 2
          else (case r of
              c # q \<Rightarrow>
                if cont c \<and> ((of_char a = (0xE0::nat) \<and> in_bytes 0xA0 0xBF b)
                    \<or> ((in_bytes 0xE1 0xEC a \<or> in_bytes 0xEE 0xEF a) \<and> cont b)
                    \<or> (of_char a = (0xED::nat) \<and> in_bytes 0x80 0x9F b)) then 3
                else (case q of
                    d # _ \<Rightarrow>
                      if cont c \<and> cont d \<and> ((of_char a = (0xF0::nat) \<and> in_bytes 0x90 0xBF b)
                          \<or> (in_bytes 0xF1 0xF3 a \<and> cont b)
                          \<or> (of_char a = (0xF4::nat) \<and> in_bytes 0x80 0x8F b)) then 4 else 0
                  | [] \<Rightarrow> 0)
            | [] \<Rightarrow> 0)
      | _ \<Rightarrow> 0)"

definition esc_u :: "char \<Rightarrow> string" where
  "esc_u c = [CHR 0x5C] @ ''u00'' @ [hex_digit (of_char c div 16), hex_digit (of_char c mod 16)]"

definition esc_ascii :: "bool \<Rightarrow> char \<Rightarrow> string" where
  "esc_ascii html c =
     (if c = CHR 0x22 \<or> c = CHR 0x5C then [CHR 0x5C, c]
      else if c = CHR 0x08 then [CHR 0x5C, CHR ''b'']
      else if c = CHR 0x0C then [CHR 0x5C, CHR ''f'']
      else if c = CHR 0x0A then [CHR 0x5C, CHR ''n'']
      else if c = CHR 0x0D then [CHR 0x5C, CHR ''r'']
      else if c = CHR 0x09 then [CHR 0x5C, CHR ''t'']
      else if of_char c < (0x20::nat) then esc_u c
      else if html \<and> (c = CHR ''<'' \<or> c = CHR ''>'' \<or> c = CHR ''&'') then esc_u c
      else [c])"

function esc_body :: "bool \<Rightarrow> string \<Rightarrow> string" where
  "esc_body html s =
     (if s = [] then []
      else if is_ascii (hd s) then esc_ascii html (hd s) @ esc_body html (tl s)
      else if utf8_width s = 0 then CHR 0x5C # ''ufffd'' @ esc_body html (tl s)
      else if take 3 s = [CHR 0xE2, CHR 0x80, CHR 0xA8]
      then CHR 0x5C # ''u2028'' @ esc_body html (drop 3 s)
      else if take 3 s = [CHR 0xE2, CHR 0x80, CHR 0xA9]
      then CHR 0x5C # ''u2029'' @ esc_body html (drop 3 s)
      else take (utf8_width s) s @ esc_body html (drop (utf8_width s) s))"
  by pat_completeness auto
termination
  by (relation "measure (\<lambda>(h, s). length s)") auto

declare esc_body.simps [simp del]

definition quote_json :: "bool \<Rightarrow> string \<Rightarrow> string" where
  "quote_json html s = [CHR 0x22] @ esc_body html s @ [CHR 0x22]"

text \<open>\<open>json.Marshal\<close> escapes \<open><\<close>, \<open>>\<close> and \<open>&\<close>; an encoder after \<open>SetEscapeHTML (false)\<close> does not.\<close>

fun json_enc :: "bool \<Rightarrow> json \<Rightarrow> string" where
  "json_enc h JNull = ''null''"
| "json_enc h (JBool b) = (if b then ''true'' else ''false'')"
| "json_enc h (JNum n) = int_str n"
| "json_enc h (JDec s) = s"
| "json_enc h (JStr s) = quote_json h s"
| "json_enc h (JArr js) = ''['' @ join_with '','' (map (json_enc h) js) @ '']''"
| "json_enc h (JObj kvs) =
     ''{'' @ join_with '','' (map (\<lambda>(k, v). quote_json h k @ '':'' @ json_enc h v) kvs) @ ''}''"

text \<open>The text of a \<open>jsonb\<close> value, with PostgreSQL's spacing.\<close>

fun jsonb_out :: "json \<Rightarrow> string" where
  "jsonb_out (JArr js) = ''['' @ join_with '', '' (map jsonb_out js) @ '']''"
| "jsonb_out (JObj kvs) =
     ''{'' @ join_with '', '' (map (\<lambda>(k, v). quote_json False k @ '': '' @ jsonb_out v) kvs) @ ''}''"
| "jsonb_out j = json_enc False j"

text \<open>\<open>j->>'k'\<close>: SQL NULL when the key is missing or its value is JSON null.\<close>

definition jtext :: "string \<Rightarrow> json \<Rightarrow> string option" where
  "jtext k j =
     (case jfield k j of
        None \<Rightarrow> None
      | Some JNull \<Rightarrow> None
      | Some (JStr s) \<Rightarrow> Some s
      | Some v \<Rightarrow> Some (jsonb_out (jsonb_norm v)))"

text \<open>\<open>jsonb_set (j, '{k}', v, true)\<close> on an object.\<close>

definition jset :: "string \<Rightarrow> json \<Rightarrow> json \<Rightarrow> json" where
  "jset k v j = (case j of JObj kvs \<Rightarrow> JObj (filter (\<lambda>(x, _). x \<noteq> k) kvs @ [(k, v)]) | _ \<Rightarrow> j)"

text \<open>\<open>a || b\<close> on objects: the fields of \<open>b\<close> win.\<close>

definition jconcat :: "json \<Rightarrow> json \<Rightarrow> json" where
  "jconcat a b =
     (case (a, b) of (JObj xs, JObj ys) \<Rightarrow> JObj (xs @ ys) | _ \<Rightarrow> a)"

definition json_elems :: "json \<Rightarrow> json list" where
  "json_elems j = (case j of JArr js \<Rightarrow> js | _ \<Rightarrow> [])"

section \<open>Unmarshalling into structs\<close>

definition go_obj :: "json \<Rightarrow> (string \<times> json) list option" where
  "go_obj j = (case j of JObj kvs \<Rightarrow> Some kvs | JNull \<Rightarrow> Some [] | _ \<Rightarrow> None)"

definition go_entries :: "string \<Rightarrow> (string \<times> json) list \<Rightarrow> json list" where
  "go_entries name kvs = map snd (filter (\<lambda>(k, _). go_fold k = go_fold name) kvs)"

fun fold_str :: "string \<Rightarrow> json list \<Rightarrow> string option" where
  "fold_str cur [] = Some cur"
| "fold_str cur (JStr s # r) = fold_str s r"
| "fold_str cur (JNull # r) = fold_str cur r"
| "fold_str cur (_ # r) = None"

definition go_str :: "string \<Rightarrow> (string \<times> json) list \<Rightarrow> string option" where
  "go_str name kvs = fold_str [] (go_entries name kvs)"

text \<open>A field of type \<open>*int64\<close>: \<open>null\<close> resets the pointer.\<close>

fun fold_i64 :: "int option \<Rightarrow> json list \<Rightarrow> int option option" where
  "fold_i64 cur [] = Some cur"
| "fold_i64 cur (JNum n # r) = (if in_int64 n then fold_i64 (Some n) r else None)"
| "fold_i64 cur (JNull # r) = fold_i64 None r"
| "fold_i64 cur (_ # r) = None"

definition go_i64 :: "string \<Rightarrow> (string \<times> json) list \<Rightarrow> int option option" where
  "go_i64 name kvs = fold_i64 None (go_entries name kvs)"

text \<open>Fields of type \<open>int\<close> and \<open>bool\<close>: \<open>null\<close> leaves them as they are.\<close>

fun fold_int :: "int \<Rightarrow> json list \<Rightarrow> int option" where
  "fold_int cur [] = Some cur"
| "fold_int cur (JNum n # r) = (if in_int64 n then fold_int n r else None)"
| "fold_int cur (JNull # r) = fold_int cur r"
| "fold_int cur (_ # r) = None"

definition go_int :: "string \<Rightarrow> (string \<times> json) list \<Rightarrow> int option" where
  "go_int name kvs = fold_int 0 (go_entries name kvs)"

fun fold_bool :: "bool \<Rightarrow> json list \<Rightarrow> bool option" where
  "fold_bool cur [] = Some cur"
| "fold_bool cur (JBool b # r) = fold_bool b r"
| "fold_bool cur (JNull # r) = fold_bool cur r"
| "fold_bool cur (_ # r) = None"

definition go_bool :: "string \<Rightarrow> (string \<times> json) list \<Rightarrow> bool option" where
  "go_bool name kvs = fold_bool False (go_entries name kvs)"

fun all_some :: "'a option list \<Rightarrow> 'a list option" where
  "all_some [] = Some []"
| "all_some (None # r) = None"
| "all_some (Some x # r) = map_option ((#) x) (all_some r)"

text \<open>
  A slice field, \<open>None\<close> being the nil slice; \<open>dec\<close> decodes one element. A repeated array field
  starts again from an empty slice.
\<close>

fun fold_slice :: "(json \<Rightarrow> 'a option) \<Rightarrow> 'a list option \<Rightarrow> json list \<Rightarrow> 'a list option option" where
  "fold_slice dec cur [] = Some cur"
| "fold_slice dec cur (JNull # r) = fold_slice dec None r"
| "fold_slice dec cur (JArr js # r) =
     (case all_some (map dec js) of None \<Rightarrow> None | Some xs \<Rightarrow> fold_slice dec (Some xs) r)"
| "fold_slice dec cur (_ # r) = None"

definition go_slice :: "(json \<Rightarrow> 'a option) \<Rightarrow> string \<Rightarrow> (string \<times> json) list \<Rightarrow> 'a list option option" where
  "go_slice dec name kvs = fold_slice dec None (go_entries name kvs)"

definition top_slice :: "(json \<Rightarrow> 'a option) \<Rightarrow> json \<Rightarrow> 'a list option option" where
  "top_slice dec j = fold_slice dec None [j]"

definition elem_str :: "json \<Rightarrow> string option" where
  "elem_str j = (case j of JStr s \<Rightarrow> Some s | JNull \<Rightarrow> Some [] | _ \<Rightarrow> None)"

definition slice_elems :: "'a list option \<Rightarrow> 'a list" where
  "slice_elems s = (case s of None \<Rightarrow> [] | Some xs \<Rightarrow> xs)"

text \<open>\<open>append ([]T (nil), xs...)\<close> is nil for an empty \<open>xs\<close>.\<close>

definition append_nil :: "'a list \<Rightarrow> 'a list option" where
  "append_nil xs = (if xs = [] then None else Some xs)"

definition slice_json :: "('a \<Rightarrow> json) \<Rightarrow> 'a list option \<Rightarrow> json" where
  "slice_json f s = (case s of None \<Rightarrow> JNull | Some xs \<Rightarrow> JArr (map f xs))"

section \<open>Lemmas\<close>

lemma slice_elems_simps [simp]:
  "slice_elems None = []" "slice_elems (Some xs) = xs"
  by (simp_all add: slice_elems_def)

lemma slice_elems_append_nil [simp]: "slice_elems (append_nil xs) = xs"
  by (simp add: append_nil_def)

lemma all_some_map_Some [simp]: "all_some (map (\<lambda>x. Some (f x)) xs) = Some (map f xs)"
  by (induction xs) auto

lemma all_some_map_dec:
  "(\<And>x. x \<in> set xs \<Longrightarrow> dec (enc x) = Some x) \<Longrightarrow> all_some (map (dec \<circ> enc) xs) = Some xs"
  by (induction xs) auto

lemma jfield_jset_same [simp]: "jfield k (jset k v (JObj kvs)) = Some v"
  by (simp add: jfield_def jset_def)

lemma map_of_filter_neq: "x \<noteq> k \<Longrightarrow> map_of (filter (\<lambda>(y, _). y \<noteq> k) kvs) x = map_of kvs x"
  by (induction kvs) auto

lemma jfield_jset_other [simp]: "x \<noteq> k \<Longrightarrow> jfield x (jset k v (JObj kvs)) = jfield x (JObj kvs)"
  by (simp add: jfield_def jset_def rev_filter map_of_filter_neq)

lemma jtext_jset_same_num [simp]: "jtext k (jset k (JNum n) (JObj kvs)) = Some (int_str n)"
  by (simp add: jtext_def)

lemma jtext_jset_other [simp]: "x \<noteq> k \<Longrightarrow> jtext x (jset k v (JObj kvs)) = jtext x (JObj kvs)"
  by (simp add: jtext_def)

lemma jtext_num: "jfield k j = Some (JNum n) \<Longrightarrow> jtext k j = Some (int_str n)"
  by (simp add: jtext_def)

lemma jtext_str: "jfield k j = Some (JStr s) \<Longrightarrow> jtext k j = Some s"
  by (simp add: jtext_def)

end
