(* ===== verification/Sha256.thy ===== *)
theory Sha256
  imports Go_Json "HOL-Library.Word"
begin

text \<open>
  The digests of \<open>crypto/sha256\<close> and the text of \<open>encoding/hex\<close>. The clients need of a digest
  only that it is a function of the bytes with 32 bytes of output: the locale \<open>digest\<close> states
  that contract and derives from it that the identities built from a digest are well formed. The
  interpretation is the SHA-256 of FIPS 180-4.
\<close>

section \<open>Hexadecimal text\<close>

definition hex_encode :: "string \<Rightarrow> string" where
  "hex_encode s = concat (map (\<lambda>c. [hex_digit (of_char c div 16), hex_digit (of_char c mod 16)]) s)"

lemma hex_digit_table: "list_all (\<lambda>d. hex_digit d \<in> set ''0123456789abcdef'') [0..<16]"
  by code_simp

lemma hex_digit_cases: "d < 16 \<Longrightarrow> hex_digit d \<in> set ''0123456789abcdef''"
  using hex_digit_table by (simp only: list_all_iff set_upt) simp

lemma hex_lower_alphabet: "c \<in> set ''0123456789abcdef'' \<Longrightarrow> is_hex c \<and> \<not> is_upper c"
  by (auto simp: is_hex_def is_digit_def is_upper_def less_eq_char_def)

lemma hex_encode_Cons [simp]:
  "hex_encode (c # s) = hex_digit (of_char c div 16) # hex_digit (of_char c mod 16) # hex_encode s"
  by (simp add: hex_encode_def)

lemma hex_encode_Nil [simp]: "hex_encode [] = []"
  by (simp add: hex_encode_def)

lemma length_hex_encode [simp]: "length (hex_encode s) = 2 * length s"
  by (induction s) simp_all

lemma of_char_less [simp]: "of_char c < (256::nat)"
  by (cases c) (simp add: of_char_def horner_sum_bound [of "[_, _, _, _, _, _, _, _]", simplified])

lemma hex_encode_alphabet: "c \<in> set (hex_encode s) \<Longrightarrow> is_hex c \<and> \<not> is_upper c"
proof (induction s)
  case Nil
  then show ?case by simp
next
  case (Cons x s)
  have "of_char x div 16 < (16::nat)"
    using of_char_less [of x] by (simp add: less_mult_imp_div_less)
  moreover have "of_char x mod 16 < (16::nat)"
    by simp
  ultimately show ?case
    using Cons hex_lower_alphabet [OF hex_digit_cases] by auto
qed

section \<open>The contract of a digest\<close>

locale digest =
  fixes H :: "string \<Rightarrow> string"
  assumes digest_length: "length (H s) = 32"
begin

definition hex_digest :: "string \<Rightarrow> string" where
  "hex_digest s = hex_encode (H s)"

lemma hex_digest_length: "length (hex_digest s) = 64"
  by (simp add: hex_digest_def digest_length)

lemma hex_digest_hex: "list_all is_hex (hex_digest s)"
  using hex_encode_alphabet by (auto simp: hex_digest_def list_all_iff)

lemma short_id_length: "length (hex_encode (take 16 (H s))) = 32"
  by (simp add: digest_length)

end

section \<open>SHA-256\<close>

type_synonym w32 = "32 word"

text \<open>The round constants, in decimal: the cube roots of the first 64 primes, their first 32 fractional bits.\<close>

definition sha_k :: "w32 list" where
  "sha_k =
    [1116352408, 1899447441, 3049323471, 3921009573, 961987163, 1508970993, 2453635748, 2870763221,
     3624381080, 310598401, 607225278, 1426881987, 1925078388, 2162078206, 2614888103, 3248222580,
     3835390401, 4022224774, 264347078, 604807628, 770255983, 1249150122, 1555081692, 1996064986,
     2554220882, 2821834349, 2952996808, 3210313671, 3336571891, 3584528711, 113926993, 338241895,
     666307205, 773529912, 1294757372, 1396182291, 1695183700, 1986661051, 2177026350, 2456956037,
     2730485921, 2820302411, 3259730800, 3345764771, 3516065817, 3600352804, 4094571909, 275423344,
     430227734, 506948616, 659060556, 883997877, 958139571, 1322822218, 1537002063, 1747873779,
     1955562222, 2024104815, 2227730452, 2361852424, 2428436474, 2756734187, 3204031479, 3329325298]"

type_synonym sha_state = "w32 \<times> w32 \<times> w32 \<times> w32 \<times> w32 \<times> w32 \<times> w32 \<times> w32"

definition sha_init :: sha_state where
  "sha_init =
    (0x6a09e667, 0xbb67ae85, 0x3c6ef372, 0xa54ff53a, 0x510e527f, 0x9b05688c, 0x1f83d9ab, 0x5be0cd19)"

unbundle bit_operations_syntax

definition sha_s0 :: "w32 \<Rightarrow> w32" where
  "sha_s0 x = word_rotr 7 x XOR word_rotr 18 x XOR drop_bit 3 x"

definition sha_s1 :: "w32 \<Rightarrow> w32" where
  "sha_s1 x = word_rotr 17 x XOR word_rotr 19 x XOR drop_bit 10 x"

definition sha_S0 :: "w32 \<Rightarrow> w32" where
  "sha_S0 x = word_rotr 2 x XOR word_rotr 13 x XOR word_rotr 22 x"

definition sha_S1 :: "w32 \<Rightarrow> w32" where
  "sha_S1 x = word_rotr 6 x XOR word_rotr 11 x XOR word_rotr 25 x"

text \<open>The message schedule, built by appending one word at a time to the sixteen of the block.\<close>

fun sha_schedule :: "nat \<Rightarrow> w32 list \<Rightarrow> w32 list" where
  "sha_schedule 0 w = w"
| "sha_schedule (Suc n) w =
     (let i = length w in
      sha_schedule n
        (w @ [sha_s1 (w ! (i - 2)) + w ! (i - 7) + sha_s0 (w ! (i - 15)) + w ! (i - 16)]))"

definition sha_round :: "w32 \<times> w32 \<Rightarrow> sha_state \<Rightarrow> sha_state" where
  "sha_round kw st =
     (let (k, w) = kw; (a, b, c, d, e, f, g, h) = st;
          t1 = h + sha_S1 e + ((e AND f) XOR (NOT e AND g)) + k + w;
          t2 = sha_S0 a + ((a AND b) XOR (a AND c) XOR (b AND c))
      in (t1 + t2, a, b, c, d + t1, e, f, g))"

definition sha_block :: "w32 list \<Rightarrow> sha_state \<Rightarrow> sha_state" where
  "sha_block blk st =
     (let (a, b, c, d, e, f, g, h) = st;
          (a', b', c', d', e', f', g', h') = fold sha_round (zip sha_k (sha_schedule 48 blk)) st
      in (a + a', b + b', c + c', d + d', e + e', f + f', g + g', h + h'))"

definition byte_word :: "char \<Rightarrow> w32" where
  "byte_word c = word_of_nat (of_char c)"

fun bytes_words :: "string \<Rightarrow> w32 list" where
  "bytes_words (a # b # c # d # r) =
     (push_bit 24 (byte_word a) OR push_bit 16 (byte_word b) OR push_bit 8 (byte_word c) OR byte_word d)
       # bytes_words r"
| "bytes_words _ = []"

definition word_bytes :: "w32 \<Rightarrow> string" where
  "word_bytes w = map (\<lambda>n. char_of (unat (drop_bit n w AND 0xFF))) [24, 16, 8, 0]"

definition sha_pad :: "string \<Rightarrow> string" where
  "sha_pad m =
     (let n = length m; z = (119 - n mod 64) mod 64
      in m @ [CHR 0x80] @ replicate z CHR 0x00
         @ map (\<lambda>i. char_of (8 * n div 256 ^ i mod 256)) [7, 6, 5, 4, 3, 2, 1, 0])"

function sha_blocks :: "w32 list \<Rightarrow> sha_state \<Rightarrow> sha_state" where
  "sha_blocks ws st = (if ws = [] then st else sha_blocks (drop 16 ws) (sha_block (take 16 ws) st))"
  by pat_completeness auto
termination
  by (relation "measure (\<lambda>(ws, st). length ws)") auto

declare sha_blocks.simps [simp del]

definition sha_out :: "sha_state \<Rightarrow> string" where
  "sha_out st =
     (let (a, b, c, d, e, f, g, h) = st in concat (map word_bytes [a, b, c, d, e, f, g, h]))"

definition sha256 :: "string \<Rightarrow> string" where
  "sha256 m = sha_out (sha_blocks (bytes_words (sha_pad m)) sha_init)"

lemma length_word_bytes: "length (word_bytes w) = 4"
  by (simp add: word_bytes_def)

lemma length_sha_out: "length (sha_out st) = 32"
  by (simp add: sha_out_def length_word_bytes split: prod.splits)

interpretation sha: digest sha256
  by unfold_locales (simp add: sha256_def length_sha_out)

abbreviation sha256_hex :: "string \<Rightarrow> string" where
  "sha256_hex s \<equiv> hex_encode (sha256 s)"

lemmas sha256_hex_length = sha.hex_digest_length [unfolded sha.hex_digest_def]
lemmas sha256_hex_hex = sha.hex_digest_hex [unfolded sha.hex_digest_def]

end
