(* ===== verification/Device_Operation.thy ===== *)
theory Device_Operation
  imports Uci_Scripts Sha256
begin

text \<open>
  The typed device operation of \<open>src/internal/services/device_operation.go\<close>: the command grammar
  the local executor supports, the identities of an attempt (\<open>operation_id\<close>), of a content
  (\<open>plan_hash\<close>) and of a revision (\<open>generation\<close>), and the constructor of plans. A draw of
  \<open>crypto/rand\<close> is an argument: \<open>None\<close> when it fails, the bytes otherwise.
\<close>

datatype op_error =
    OpInvalidIdentity
  | OpInvalidGeneration
  | OpNegativeGeneration
  | OpInvalidNamespace
  | OpEmpty
  | OpNetworkNeedsHealthCheck
  | OpInvalidHealthTarget
  | OpCrossesNamespace
  | OpEnsureHostOnlyDhcp
  | OpDeleteAllOnlyRedirects
  | OpUnsupportedAction string
  | OpInvalidCommand
  | OpEntropy

record device_operation_plan =
  op_id :: string
  op_plan_hash :: string
  op_generation :: int
  op_config :: string
  op_commands :: "uci_command list"
  op_health_checks :: "string list option"
  op_auto_confirm :: bool

section \<open>Identities\<close>

definition op_id_char :: "char \<Rightarrow> bool" where
  "op_id_char c \<longleftrightarrow> is_alnum c \<or> c = CHR ''.'' \<or> c = CHR ''_'' \<or> c = CHR ''-''"

definition validDeviceOperationID :: "string \<Rightarrow> bool" where
  "validDeviceOperationID i \<longleftrightarrow> i \<noteq> [] \<and> length i \<le> 128 \<and> list_all op_id_char i"

definition validDeviceOperationPlanHash :: "string \<Rightarrow> bool" where
  "validDeviceOperationPlanHash h \<longleftrightarrow> length h = 64 \<and> list_all is_hex h"

definition newDeviceOperationID :: "string option \<Rightarrow> string option" where
  "newDeviceOperationID rnd = map_option (\<lambda>b. ''op-'' @ hex_encode b) rnd"

section \<open>The command grammar\<close>

definition deviceOperationConfigs :: "string list" where
  "deviceOperationConfigs =
     [''wireless'', ''network'', ''dhcp'', ''firewall'', ''dropbear'', ''system'', ''sqm'']"

definition check_op_command :: "string \<Rightarrow> uci_command \<Rightarrow> op_error option" where
  "check_op_command config command =
     (let a = uc_action command in
      if uc_config command \<noteq> config then Some OpCrossesNamespace
      else if a \<in> {''set'', ''delete'', ''add_list'', ''del_list'', ''add'', ''rename''}
      then (if translateCommand command = [] then Some OpInvalidCommand else None)
      else if a = ''ensure_host''
      then (if config \<noteq> ''dhcp'' then Some OpEnsureHostOnlyDhcp
            else if translateCommand command = [] then Some OpInvalidCommand else None)
      else if a = ''delete_all''
      then (if config \<noteq> ''firewall'' \<or> uc_section command \<noteq> ''redirect''
               \<or> uc_option command \<noteq> [] \<or> uc_value command \<noteq> [] then Some OpDeleteAllOnlyRedirects
            else if translateCommand command = [] then Some OpInvalidCommand else None)
      else Some (OpUnsupportedAction a))"

fun check_op_commands :: "string \<Rightarrow> uci_command list \<Rightarrow> op_error + unit" where
  "check_op_commands config [] = Inr ()"
| "check_op_commands config (c # cs) =
     (case check_op_command config c of Some e \<Rightarrow> Inl e | None \<Rightarrow> check_op_commands config cs)"

definition ValidateDeviceOperation ::
  "string \<Rightarrow> uci_command list \<Rightarrow> string list option \<Rightarrow> op_error + unit" where
  "ValidateDeviceOperation config commands healthChecks =
     (if config \<notin> set deviceOperationConfigs then Inl OpInvalidNamespace
      else if commands = [] then Inl OpEmpty
      else if config = ''network'' \<and> slice_elems healthChecks = [] then Inl OpNetworkNeedsHealthCheck
      else if ValidateHealthTargets (slice_elems healthChecks) = None then Inl OpInvalidHealthTarget
      else check_op_commands config commands)"

definition ValidateDeviceOperationPlan :: "device_operation_plan \<Rightarrow> op_error + unit" where
  "ValidateDeviceOperationPlan plan =
     (if \<not> validDeviceOperationID (op_id plan) \<or> \<not> validDeviceOperationPlanHash (op_plan_hash plan)
      then Inl OpInvalidIdentity
      else if op_generation plan < 0 then Inl OpInvalidGeneration
      else ValidateDeviceOperation (op_config plan) (op_commands plan) (op_health_checks plan))"

section \<open>Constructing a plan\<close>

definition command_json :: "uci_command \<Rightarrow> json" where
  "command_json c =
     JObj [(''action'', JStr (uc_action c)), (''config'', JStr (uc_config c)),
           (''section'', JStr (uc_section c)), (''option'', JStr (uc_option c)),
           (''value'', JStr (uc_value c))]"

definition operation_content_json ::
  "string \<Rightarrow> uci_command list \<Rightarrow> string list option \<Rightarrow> bool \<Rightarrow> json" where
  "operation_content_json config commands healthChecks autoConfirm =
     JObj [(''config'', JStr config),
           (''commands'', slice_json command_json (append_nil commands)),
           (''health_checks'', slice_json JStr healthChecks),
           (''auto_confirm'', JBool autoConfirm)]"

definition NewDeviceOperationPlanForGeneration ::
  "string option \<Rightarrow> int \<Rightarrow> string \<Rightarrow> uci_command list \<Rightarrow> string list option \<Rightarrow> bool
    \<Rightarrow> op_error + device_operation_plan" where
  "NewDeviceOperationPlanForGeneration rnd generation config commands healthChecks autoConfirm =
     (if generation < 0 then Inl OpNegativeGeneration
      else andthen (ValidateDeviceOperation config commands healthChecks) (\<lambda>_.
        case newDeviceOperationID rnd of
          None \<Rightarrow> Inl OpEntropy
        | Some i \<Rightarrow>
            Inr \<lparr>op_id = i,
                 op_plan_hash =
                   sha256_hex (json_enc True
                     (operation_content_json config commands healthChecks autoConfirm)),
                 op_generation = generation,
                 op_config = config,
                 op_commands = commands,
                 op_health_checks = append_nil (slice_elems healthChecks),
                 op_auto_confirm = autoConfirm\<rparr>))"

definition NewDeviceOperationPlan ::
  "string option \<Rightarrow> string \<Rightarrow> uci_command list \<Rightarrow> string list option \<Rightarrow> bool
    \<Rightarrow> op_error + device_operation_plan" where
  "NewDeviceOperationPlan rnd config commands healthChecks autoConfirm =
     NewDeviceOperationPlanForGeneration rnd 0 config commands healthChecks autoConfirm"

section \<open>Lemmas\<close>

lemma sha256_plan_hash [simp]: "validDeviceOperationPlanHash (sha256_hex s)"
  by (simp add: validDeviceOperationPlanHash_def sha256_hex_length sha256_hex_hex del: length_hex_encode)

lemma hex_op_id_char: "is_hex c \<Longrightarrow> op_id_char c"
  by (auto simp: is_hex_def op_id_char_def is_alnum_def is_upper_def is_lower_def intro: order_trans)

lemma hex_id_valid:
  assumes "list_all op_id_char p" "p \<noteq> []" "length p + 2 * length b \<le> 128"
  shows "validDeviceOperationID (p @ hex_encode b)"
proof -
  have "list_all op_id_char (hex_encode b)"
    using hex_encode_alphabet [of _ b] hex_op_id_char by (auto simp: list_all_iff)
  with assms show ?thesis by (simp add: validDeviceOperationID_def)
qed

lemma op_prefix_chars [simp]: "list_all op_id_char ''op-''" "list_all op_id_char ''cs-''"
  by code_simp+

lemma check_op_commands_ok:
  "check_op_commands config cs = Inr () \<longleftrightarrow> list_all (\<lambda>c. check_op_command config c = None) cs"
  by (induction cs) (auto split: option.splits)

lemma check_op_command_accepts:
  "check_op_command config c = None \<Longrightarrow> uc_config c = config \<and> translateCommand c \<noteq> []"
  by (auto simp: check_op_command_def Let_def split: if_splits)

lemma op_configs_named: "config \<in> set deviceOperationConfigs \<Longrightarrow> valid_uci_name config"
proof -
  have "list_all valid_uci_name deviceOperationConfigs" by code_simp
  then show "config \<in> set deviceOperationConfigs \<Longrightarrow> valid_uci_name config"
    by (simp only: list_all_iff)
qed

lemma ValidateHealthTargets_None:
  "ValidateHealthTargets ts = None \<longleftrightarrow> \<not> list_all valid_health_target ts"
  by (simp add: ValidateHealthTargets_def validate_targets_loop_eq)

lemma ValidateDeviceOperation_ok:
  "ValidateDeviceOperation config commands healthChecks = Inr () \<longleftrightarrow>
     config \<in> set deviceOperationConfigs \<and> commands \<noteq> []
     \<and> (config = ''network'' \<longrightarrow> slice_elems healthChecks \<noteq> [])
     \<and> list_all valid_health_target (slice_elems healthChecks)
     \<and> list_all (\<lambda>c. check_op_command config c = None) commands"
  by (auto simp: ValidateDeviceOperation_def ValidateHealthTargets_None check_op_commands_ok)

text \<open>
  C21. Every plan the constructor returns passes its own validation, carries the content unchanged,
  and its hash is a function of the content alone: neither the attempt (the random draw) nor the
  generation enters it.
\<close>

theorem NewDeviceOperationPlan_valid:
  assumes new: "NewDeviceOperationPlanForGeneration (Some b) g config commands hc auto = Inr plan"
    and draw: "length b = 16"
  shows "ValidateDeviceOperationPlan plan = Inr ()
       \<and> op_generation plan = g \<and> op_config plan = config \<and> op_commands plan = commands
       \<and> slice_elems (op_health_checks plan) = slice_elems hc \<and> op_auto_confirm plan = auto
       \<and> (\<forall>b' g' plan'. NewDeviceOperationPlanForGeneration b' g' config commands hc auto = Inr plan'
            \<longrightarrow> op_plan_hash plan' = op_plan_hash plan)"
proof -
  have id: "validDeviceOperationID (''op-'' @ hex_encode b)"
    by (rule hex_id_valid [OF op_prefix_chars(1)]) (simp_all add: draw)
  from new have "ValidateDeviceOperation config commands hc = Inr ()" and "0 \<le> g"
    and plan: "op_id plan = ''op-'' @ hex_encode b" "op_generation plan = g"
      "op_config plan = config" "op_commands plan = commands"
      "op_health_checks plan = append_nil (slice_elems hc)" "op_auto_confirm plan = auto"
      "op_plan_hash plan = sha256_hex (json_enc True (operation_content_json config commands hc auto))"
    by (auto simp: NewDeviceOperationPlanForGeneration_def newDeviceOperationID_def andthen_Inr_iff
        split: if_splits)
  with id have "ValidateDeviceOperationPlan plan = Inr ()"
    by (simp add: ValidateDeviceOperationPlan_def ValidateDeviceOperation_ok)
  moreover have "op_plan_hash plan' = op_plan_hash plan"
    if "NewDeviceOperationPlanForGeneration b' g' config commands hc auto = Inr plan'" for b' g' plan'
    using that plan
    by (auto simp: NewDeviceOperationPlanForGeneration_def andthen_Inr_iff split: if_splits option.splits)
  ultimately show ?thesis using plan by simp
qed

abbreviation sample_set :: uci_command where
  "sample_set \<equiv> mk_uci ''set'' ''system'' ''main'' ''hostname'' ''ap-1''"

lemma sample_operation_ok: "ValidateDeviceOperation ''system'' [sample_set] None = Inr ()"
  by code_simp

theorem NewDeviceOperationPlan_valid_witness:
  "\<exists>plan. NewDeviceOperationPlanForGeneration (Some (replicate 16 CHR 0x00)) 3 ''system'' [sample_set] None True
       = Inr plan \<and> ValidateDeviceOperationPlan plan = Inr () \<and> op_generation plan = 3"
proof -
  obtain plan where new: "NewDeviceOperationPlanForGeneration (Some (replicate 16 CHR 0x00)) 3 ''system''
      [sample_set] None True = Inr plan"
    by (simp add: NewDeviceOperationPlanForGeneration_def sample_operation_ok newDeviceOperationID_def)
  from NewDeviceOperationPlan_valid [OF new] new show ?thesis by auto
qed

lemma validated_accepts:
  assumes "ValidateDeviceOperation config commands hc = Inr ()"
  shows "valid_uci_name config \<and> batch_accepts config commands" "commands \<noteq> []"
  using assms
  by (auto simp: ValidateDeviceOperation_ok batch_accepts_def op_configs_named list_all_iff
      dest: check_op_command_accepts)

lemma validated_batch:
  "ValidateDeviceOperation config commands hc = Inr () \<Longrightarrow> BuildBatchScript config commands \<noteq> []"
  using validated_accepts(1) by (simp only: BuildBatchScript_nonempty)

text \<open>
  Validation is enough for execution: an operation that passes it is turned into a batch script
  (and a dry-run script), so the executor never meets an operation it has to refuse as empty.
\<close>

theorem ValidateDeviceOperation_executable:
  assumes "ValidateDeviceOperation config commands hc = Inr ()"
  shows "BuildBatchScript config commands \<noteq> [] \<and> BuildSafeBatchScript config commands ts \<noteq> []
       \<and> BuildDryRunScript config commands = mutation_text commands"
proof -
  note acc = validated_accepts [OF assms]
  note batch = validated_batch [OF assms]
  then have "BuildSafeBatchScript config commands ts \<noteq> []"
    by (auto simp: BuildSafeBatchScript_def Let_def health_text_def split: option.splits)
  with batch acc show ?thesis
    by (simp add: BuildDryRunScript_def batch_lines_eq)
qed

theorem ValidateDeviceOperation_executable_witness:
  "BuildBatchScript ''system'' [sample_set] \<noteq> []"
  using ValidateDeviceOperation_executable [OF sample_operation_ok] by (rule conjunct1)

end
