(* ===== verification/Change_Set.thy ===== *)
theory Change_Set
  imports Device_Operation
begin

text \<open>
  The changeset of \<open>src/internal/services/device_change_set.go\<close>: an ordered list of operations on
  distinct safe namespaces of one device, with a content hash that leaves out the identities and
  the generation, and constructors that either draw identities or derive them from a rollout.
\<close>

datatype cs_error =
    CsIdentity
  | CsDevice
  | CsGeneration
  | CsPolicy
  | CsOperationCount
  | CsHealthTarget
  | CsNamespace
  | CsDuplicateNamespace string
  | CsObservedHash
  | CsOperation op_error
  | CsHashMismatch
  | CsEntropy

record change_operation =
  co_operation_id :: string
  co_config :: string
  co_commands :: "uci_command list"
  co_observed_hash :: string

record change_set =
  cs_id :: string
  cs_device_id :: string
  cs_plan_hash :: string
  cs_generation :: int
  cs_operations :: "change_operation list"
  cs_health_checks :: "string list option"
  cs_policy :: string

definition ConfirmationLocalAuto :: string where
  "ConfirmationLocalAuto = ''local_auto''"

definition deviceChangeSetConfigAllowed :: "string \<Rightarrow> bool" where
  "deviceChangeSetConfigAllowed config \<longleftrightarrow>
     config \<in> {''system'', ''dhcp'', ''firewall'', ''dropbear'', ''sqm''}"

definition validDeviceChangeSetID :: "string \<Rightarrow> bool" where
  "validDeviceChangeSetID i = validDeviceOperationID i"

definition device_id_char :: "char \<Rightarrow> bool" where
  "device_id_char c \<longleftrightarrow>
     is_alnum c \<or> c = CHR '':'' \<or> c = CHR ''.'' \<or> c = CHR ''_'' \<or> c = CHR ''-''"

definition validDeviceChangeSetDeviceID :: "string \<Rightarrow> bool" where
  "validDeviceChangeSetDeviceID i \<longleftrightarrow> i \<noteq> [] \<and> length i \<le> 50 \<and> list_all device_id_char i"

section \<open>The content hash\<close>

text \<open>The slice of commands is nil exactly when it is empty: an empty one is refused by every
  validation, so its encoding is never compared.\<close>

definition content_operation_json :: "string \<Rightarrow> uci_command list \<Rightarrow> string \<Rightarrow> json" where
  "content_operation_json config commands observed =
     JObj [(''config'', JStr config),
           (''commands'', slice_json command_json (append_nil commands)),
           (''observed_state_hash'', JStr observed)]"

definition change_set_content_json :: "json list \<Rightarrow> string list option \<Rightarrow> string \<Rightarrow> json" where
  "change_set_content_json operations healthChecks policy =
     JObj [(''operations'', JArr operations),
           (''health_checks'', slice_json JStr healthChecks),
           (''confirmation_policy'', JStr policy)]"

definition deviceChangeSetPlanHash :: "change_set \<Rightarrow> string" where
  "deviceChangeSetPlanHash cs =
     sha256_hex (json_enc False (change_set_content_json
       (map (\<lambda>p. content_operation_json (co_config p) (co_commands p) (co_observed_hash p))
          (cs_operations cs))
       (cs_health_checks cs) (cs_policy cs)))"

section \<open>Validation\<close>

fun check_cs_operations ::
  "string list option \<Rightarrow> string set \<Rightarrow> change_operation list \<Rightarrow> cs_error + unit" where
  "check_cs_operations hc seen [] = Inr ()"
| "check_cs_operations hc seen (p # ps) =
     (if \<not> validDeviceOperationID (co_operation_id p) \<or> \<not> deviceChangeSetConfigAllowed (co_config p)
      then Inl CsNamespace
      else if co_config p \<in> seen then Inl (CsDuplicateNamespace (co_config p))
      else if \<not> validDeviceOperationPlanHash (co_observed_hash p) then Inl CsObservedHash
      else (case ValidateDeviceOperation (co_config p) (co_commands p) hc of
              Inl e \<Rightarrow> Inl (CsOperation e)
            | Inr _ \<Rightarrow> check_cs_operations hc (insert (co_config p) seen) ps))"

definition ValidateDeviceChangeSet :: "change_set \<Rightarrow> cs_error + unit" where
  "ValidateDeviceChangeSet cs =
     (if \<not> validDeviceChangeSetID (cs_id cs) \<or> \<not> validDeviceOperationPlanHash (cs_plan_hash cs)
      then Inl CsIdentity
      else if \<not> validDeviceChangeSetDeviceID (cs_device_id cs) then Inl CsDevice
      else if cs_generation cs < 0 then Inl CsGeneration
      else if cs_policy cs \<noteq> ConfirmationLocalAuto then Inl CsPolicy
      else if cs_operations cs = [] \<or> length (cs_operations cs) > 8 then Inl CsOperationCount
      else if ValidateHealthTargets (slice_elems (cs_health_checks cs)) = None then Inl CsHealthTarget
      else andthen (check_cs_operations (cs_health_checks cs) {} (cs_operations cs)) (\<lambda>_.
        if deviceChangeSetPlanHash cs \<noteq> cs_plan_hash cs then Inl CsHashMismatch else Inr ()))"

section \<open>Constructors\<close>

text \<open>The common end of the constructors: compute the hash, then validate.\<close>

definition seal_change_set :: "change_set \<Rightarrow> cs_error + change_set" where
  "seal_change_set cs =
     (let cs' = cs\<lparr>cs_plan_hash := deviceChangeSetPlanHash cs\<rparr>
      in andthen (ValidateDeviceChangeSet cs') (\<lambda>_. Inr cs'))"

definition newDeviceChangeSetWithIDs ::
  "string \<Rightarrow> string \<Rightarrow> string \<Rightarrow> string \<Rightarrow> uci_command list \<Rightarrow> string \<Rightarrow> string list \<Rightarrow> string
    \<Rightarrow> cs_error + change_set" where
  "newDeviceChangeSetWithIDs operationID changeSetID deviceID config commands observed healthChecks policy =
     seal_change_set
       \<lparr>cs_id = changeSetID, cs_device_id = deviceID, cs_plan_hash = [], cs_generation = 0,
        cs_operations = [\<lparr>co_operation_id = operationID, co_config = config, co_commands = commands,
                          co_observed_hash = observed\<rparr>],
        cs_health_checks = append_nil healthChecks, cs_policy = policy\<rparr>"

definition newDeviceChangeSetID :: "string option \<Rightarrow> string option" where
  "newDeviceChangeSetID rnd = map_option (\<lambda>b. ''cs-'' @ hex_encode b) rnd"

definition NewDeviceChangeSet ::
  "string option \<Rightarrow> string option \<Rightarrow> string \<Rightarrow> string \<Rightarrow> uci_command list \<Rightarrow> string \<Rightarrow> string list
    \<Rightarrow> string \<Rightarrow> cs_error + change_set" where
  "NewDeviceChangeSet rnd1 rnd2 deviceID config commands observed healthChecks policy =
     (case newDeviceOperationID rnd1 of
        None \<Rightarrow> Inl CsEntropy
      | Some operationID \<Rightarrow>
          (case newDeviceChangeSetID rnd2 of
             None \<Rightarrow> Inl CsEntropy
           | Some changeSetID \<Rightarrow>
               newDeviceChangeSetWithIDs operationID changeSetID deviceID config commands observed
                 healthChecks policy))"

definition identity_seed :: "string \<Rightarrow> string \<Rightarrow> string" where
  "identity_seed rolloutID deviceID = to_lower rolloutID @ '':'' @ to_lower deviceID"

definition change_set_seed_id :: "string \<Rightarrow> string" where
  "change_set_seed_id seed = ''cs-'' @ hex_encode (take 16 (sha256 (''device-change-set:'' @ seed)))"

definition NewDeviceChangeSetForRollout ::
  "string \<Rightarrow> string \<Rightarrow> string \<Rightarrow> uci_command list \<Rightarrow> string \<Rightarrow> string list \<Rightarrow> string
    \<Rightarrow> cs_error + change_set" where
  "NewDeviceChangeSetForRollout rolloutID deviceID config commands observed healthChecks policy =
     (let seed = identity_seed rolloutID deviceID
      in newDeviceChangeSetWithIDs
           (''op-'' @ hex_encode (take 16 (sha256 (''device-operation:'' @ seed))))
           (change_set_seed_id seed) deviceID config commands observed healthChecks policy)"

definition rollout_operation_id :: "string \<Rightarrow> nat \<Rightarrow> string \<Rightarrow> string" where
  "rollout_operation_id seed index config =
     ''op-'' @ hex_encode (take 16 (sha256
       (''device-operation:'' @ seed @ '':'' @ nat_str index @ '':'' @ config)))"

definition NewDeviceChangeSetForRolloutOperations ::
  "string \<Rightarrow> string \<Rightarrow> change_operation list \<Rightarrow> string list \<Rightarrow> string \<Rightarrow> cs_error + change_set" where
  "NewDeviceChangeSetForRolloutOperations rolloutID deviceID operations healthChecks policy =
     (let seed = identity_seed rolloutID deviceID
      in seal_change_set
           \<lparr>cs_id = change_set_seed_id seed, cs_device_id = deviceID, cs_plan_hash = [],
            cs_generation = 0,
            cs_operations =
              map (\<lambda>(i, p). p\<lparr>co_operation_id := rollout_operation_id seed i (co_config p)\<rparr>)
                (List.enumerate 0 operations),
            cs_health_checks = append_nil healthChecks, cs_policy = policy\<rparr>)"

section \<open>Encoding for the device\<close>

text \<open>\<open>json.Marshal\<close> of a changeset: a zero generation and an empty health check list are omitted.\<close>

definition operation_json :: "change_operation \<Rightarrow> json" where
  "operation_json p =
     JObj [(''operation_id'', JStr (co_operation_id p)), (''config'', JStr (co_config p)),
           (''commands'', slice_json command_json (append_nil (co_commands p))),
           (''observed_state_hash'', JStr (co_observed_hash p))]"

definition change_set_json :: "change_set \<Rightarrow> json" where
  "change_set_json cs =
     JObj ([(''change_set_id'', JStr (cs_id cs)), (''device_id'', JStr (cs_device_id cs)),
            (''plan_hash'', JStr (cs_plan_hash cs))]
         @ (if cs_generation cs = 0 then [] else [(''generation'', JNum (cs_generation cs))])
         @ [(''operations'', JArr (map operation_json (cs_operations cs)))]
         @ (if slice_elems (cs_health_checks cs) = [] then []
            else [(''health_checks'', slice_json JStr (cs_health_checks cs))])
         @ [(''confirmation_policy'', JStr (cs_policy cs))])"

section \<open>Lemmas\<close>

lemma check_cs_operations_ok:
  "check_cs_operations hc seen ps = Inr () \<longleftrightarrow>
     distinct (map co_config ps) \<and> set (map co_config ps) \<inter> seen = {}
     \<and> list_all (\<lambda>p. validDeviceOperationID (co_operation_id p) \<and> deviceChangeSetConfigAllowed (co_config p)
          \<and> validDeviceOperationPlanHash (co_observed_hash p)
          \<and> ValidateDeviceOperation (co_config p) (co_commands p) hc = Inr ()) ps"
  by (induction ps arbitrary: seen) (auto split: sum.splits)

lemma ValidateDeviceChangeSet_ok:
  "ValidateDeviceChangeSet cs = Inr () \<longleftrightarrow>
     validDeviceChangeSetID (cs_id cs) \<and> validDeviceOperationPlanHash (cs_plan_hash cs)
     \<and> validDeviceChangeSetDeviceID (cs_device_id cs) \<and> 0 \<le> cs_generation cs
     \<and> cs_policy cs = ConfirmationLocalAuto
     \<and> cs_operations cs \<noteq> [] \<and> length (cs_operations cs) \<le> 8
     \<and> list_all valid_health_target (slice_elems (cs_health_checks cs))
     \<and> check_cs_operations (cs_health_checks cs) {} (cs_operations cs) = Inr ()
     \<and> deviceChangeSetPlanHash cs = cs_plan_hash cs"
  by (auto simp: ValidateDeviceChangeSet_def ValidateHealthTargets_None andthen_Inr_iff not_le)

lemma plan_hash_update [simp]:
  "deviceChangeSetPlanHash (cs\<lparr>cs_plan_hash := h\<rparr>) = deviceChangeSetPlanHash cs"
  by (simp add: deviceChangeSetPlanHash_def)

lemma seal_change_set_Inr:
  "seal_change_set cs = Inr cs' \<Longrightarrow>
     ValidateDeviceChangeSet cs' = Inr () \<and> cs' = cs\<lparr>cs_plan_hash := deviceChangeSetPlanHash cs\<rparr>"
  by (auto simp: seal_change_set_def Let_def andthen_Inr_iff)

lemma to_lower_idem_char: "to_lower_char (to_lower_char c) = to_lower_char c"
proof (cases "is_upper c")
  case True
  then have "65 \<le> (of_char c :: nat)" "of_char c \<le> (90 :: nat)"
    by (auto simp: is_upper_def less_eq_char_def)
  then have "\<not> is_upper (char_of (of_char c + 32 :: nat))"
    by (auto simp: is_upper_def less_eq_char_def)
  with True show ?thesis by (simp add: to_lower_char_def)
qed (simp add: to_lower_char_def)

section \<open>What the constructors promise\<close>

definition sample_operation :: "uci_command \<Rightarrow> change_operation" where
  "sample_operation c =
     \<lparr>co_operation_id = [], co_config = uc_config c, co_commands = [c], co_observed_hash = replicate 64 CHR ''0''\<rparr>"

abbreviation sample_lease :: uci_command where
  "sample_lease \<equiv> mk_uci ''ensure_host'' ''dhcp'' ''printer'' ''02:00:00:00:00:01'' ''10.0.0.9''"

lemma hex_take_id:
  "validDeviceOperationID (''op-'' @ hex_encode (take 16 b))"
  "validDeviceOperationID (''cs-'' @ hex_encode (take 16 b))"
  by (rule hex_id_valid [OF op_prefix_chars(1)]; simp) (rule hex_id_valid [OF op_prefix_chars(2)]; simp)

lemma seeded_ids [simp]:
  "validDeviceOperationID (rollout_operation_id seed n config)"
  "validDeviceOperationID (change_set_seed_id seed)"
  using hex_take_id by (simp_all add: rollout_operation_id_def change_set_seed_id_def)

lemma single_rollout_change_set:
  assumes "ValidateDeviceOperation (co_config p) (co_commands p) None = Inr ()"
    "deviceChangeSetConfigAllowed (co_config p)" "validDeviceOperationPlanHash (co_observed_hash p)"
    "validDeviceChangeSetDeviceID i"
  shows "\<exists>cs. NewDeviceChangeSetForRolloutOperations rollout i [p] [] ''local_auto'' = Inr cs"
proof -
  let ?cs = "\<lparr>cs_id = change_set_seed_id (identity_seed rollout i), cs_device_id = i, cs_plan_hash = [],
      cs_generation = 0,
      cs_operations = [p\<lparr>co_operation_id := rollout_operation_id (identity_seed rollout i) 0 (co_config p)\<rparr>],
      cs_health_checks = None, cs_policy = ''local_auto''\<rparr>"
  have "ValidateDeviceChangeSet (?cs\<lparr>cs_plan_hash := deviceChangeSetPlanHash ?cs\<rparr>) = Inr ()"
    using assms
    by (simp add: ValidateDeviceChangeSet_ok validDeviceChangeSetID_def ConfirmationLocalAuto_def
        deviceChangeSetPlanHash_def)
  then show ?thesis
    by (simp add: NewDeviceChangeSetForRolloutOperations_def Let_def seal_change_set_def append_nil_def)
qed

lemma sample_change_set:
  "\<exists>cs. NewDeviceChangeSetForRolloutOperations ''r-1'' ''dev-1'' [sample_operation sample_set] [] ''local_auto'' = Inr cs"
  "\<exists>cs. NewDeviceChangeSetForRolloutOperations ''r-1'' ''dev-1'' [sample_operation sample_lease] [] ''local_auto'' = Inr cs"
  by (rule single_rollout_change_set; code_simp)+

lemma to_lower_idem [simp]: "to_lower (to_lower s) = to_lower s"
  by (simp add: to_lower_def to_lower_idem_char)

lemma rollout_seed_case: "identity_seed (to_lower rollout) (to_lower i) = identity_seed rollout i"
  by (simp add: identity_seed_def)

text \<open>
  A changeset built for a rollout has at most eight operations, in the requested order and with
  the requested content, on distinct namespaces that exclude network and wireless; every operation
  can be executed as a batch script. Its identities depend only on the rollout, the device and the
  position, up to case, so a retried apply builds the same changeset.
\<close>

theorem rollout_change_set_contract:
  assumes "NewDeviceChangeSetForRolloutOperations rollout i ops hc policy = Inr cs"
  shows "ValidateDeviceChangeSet cs = Inr ()
       \<and> length (cs_operations cs) \<le> 8 \<and> distinct (map co_config (cs_operations cs))
       \<and> map (\<lambda>p. (co_config p, co_commands p, co_observed_hash p)) (cs_operations cs)
           = map (\<lambda>p. (co_config p, co_commands p, co_observed_hash p)) ops
       \<and> list_all (\<lambda>p. co_config p \<noteq> ''network'' \<and> co_config p \<noteq> ''wireless''
             \<and> BuildBatchScript (co_config p) (co_commands p) \<noteq> []) (cs_operations cs)
       \<and> (\<forall>rollout' cs'. to_lower rollout' = to_lower rollout
            \<longrightarrow> NewDeviceChangeSetForRolloutOperations rollout' i ops hc policy = Inr cs' \<longrightarrow> cs' = cs)"
proof -
  note sealed = assms [unfolded NewDeviceChangeSetForRolloutOperations_def Let_def, THEN seal_change_set_Inr]
  then have ok: "ValidateDeviceChangeSet cs = Inr ()" by (rule conjunct1)
  from sealed have ops: "cs_operations cs =
      map (\<lambda>(n, p). p\<lparr>co_operation_id := rollout_operation_id (identity_seed rollout i) n (co_config p)\<rparr>)
        (List.enumerate 0 ops)" by simp
  have content: "map (\<lambda>p. (co_config p, co_commands p, co_observed_hash p)) (cs_operations cs)
      = map (\<lambda>p. (co_config p, co_commands p, co_observed_hash p)) ops"
    unfolding ops by (intro nth_equalityI) (simp_all add: nth_enumerate_eq)
  have "BuildBatchScript (co_config p) (co_commands p) \<noteq> [] \<and> co_config p \<noteq> ''network'' \<and> co_config p \<noteq> ''wireless''"
    if "p \<in> set (cs_operations cs)" for p
    using that ok validated_batch [of "co_config p" "co_commands p" "cs_health_checks cs"]
    by (auto simp: ValidateDeviceChangeSet_ok check_cs_operations_ok list_all_iff deviceChangeSetConfigAllowed_def)
  moreover have "cs' = cs" if "to_lower rollout' = to_lower rollout"
      "NewDeviceChangeSetForRolloutOperations rollout' i ops hc policy = Inr cs'" for rollout' cs'
    using that assms by (simp add: NewDeviceChangeSetForRolloutOperations_def identity_seed_def)
  ultimately show ?thesis
    using ok content by (auto simp: ValidateDeviceChangeSet_ok check_cs_operations_ok list_all_iff)
qed

theorem rollout_change_set_contract_witness:
  "\<exists>cs. NewDeviceChangeSetForRolloutOperations ''r-1'' ''dev-1'' [sample_operation sample_set] [] ''local_auto'' = Inr cs
     \<and> ValidateDeviceChangeSet cs = Inr ()"
  using sample_change_set(1) rollout_change_set_contract by blast

end
