(* ===== verification/Tenant_Db.thy ===== *)
theory Tenant_Db
  imports Change_Set
begin

text \<open>
  The tables of one tenant schema that the queue and rollout code of \<open>src/internal/database\<close> reads
  and writes: \<open>devices\<close> by primary key, \<open>rollout_runs\<close> as a list of rows, and the audit log. Each
  SQL statement of the source is one function on these tables; a transaction is the composition of
  its statements and a rolled back one returns the tables it started from. Identifiers of type
  \<open>uuid\<close> are their canonical text. Times are microseconds, \<open>CURRENT_TIMESTAMP\<close> and
  \<open>gen_random_uuid ()\<close> are arguments. SQL NULL is \<open>None\<close>; a comparison with NULL is unknown, which
  a WHERE clause treats as false.
\<close>

section \<open>Rows\<close>

record device_row =
  dv_site :: "string option"
  dv_role :: "string option"
  dv_capabilities :: "json option"
  dv_desired :: int
  dv_observed :: int
  dv_last_successful :: int
  dv_pending_op :: "json option"
  dv_last_op :: "json option"
  dv_pending_cs :: "json option"
  dv_last_cs :: "json option"
  dv_rollout_status :: "string option"
  dv_rollout_at :: "int option"
  dv_health_at :: "int option"
  dv_updated_at :: int

record rollout_row =
  rr_id :: string
  rr_site :: string
  rr_generation :: int
  rr_status :: string
  rr_claim_token :: "string option"
  rr_worker_token :: "string option"
  rr_lease_until :: "int option"
  rr_cursor :: int
  rr_plan_hash :: string
  rr_requested_by :: string
  rr_targets :: json
  rr_plan :: json
  rr_results :: json
  rr_updated_at :: int

record audit_row =
  au_username :: string
  au_action :: string
  au_resource_type :: string
  au_resource_id :: string
  au_payload :: string
  au_ip :: string

record tenant_db =
  devices :: "string \<rightharpoonup> device_row"
  rollouts :: "rollout_row list"
  audit_logs :: "audit_row list"

datatype db_error =
    DbSchema
  | DbFailure
  | DbInvalidEnvelope
  | DbInvalidIdentity
  | DbInvalidStatus
  | DbInvalidGeneration
  | DbUnsupported
  | DbHashMismatch
  | DbDeviceNotFound
  | DbOtherDevice
  | DbOtherSite
  | DbOtherRole
  | DbCapability
  | DbRecoveryRequired
  | DbDifferentPlan
  | DbGenerationConflict int int
  | DbOtherPending
  | DbNotQueued
  | DbStatusNotApplied
  | DbDraftNotFound
  | DbDraftNotAvailable
  | DbNoItems
  | DbInvalidResults
  | DbLeaseDuration
  | DbLeaseUnavailable
  | DbLeaseLost
  | DbNotInitialized

section \<open>Schema names\<close>

definition isValidSchemaName :: "string \<Rightarrow> bool" where
  "isValidSchemaName n \<longleftrightarrow>
     n \<noteq> [] \<and> length n \<le> 63 \<and> \<not> is_digit (hd n)
     \<and> list_all (\<lambda>c. is_alnum c \<or> c = CHR ''_'') n"

definition SafeSchemaIdent :: "string \<Rightarrow> db_error + string" where
  "SafeSchemaIdent schema = (if \<not> isValidSchemaName schema then Inl DbSchema else Inr schema)"

definition SafeTenantSchema :: "string \<Rightarrow> db_error + string" where
  "SafeTenantSchema alias =
     (if alias = [] then Inl DbSchema
      else if length alias > 55 then Inl DbSchema
      else if \<not> isValidSchemaName alias then Inl DbSchema
      else Inr (''tenant_'' @ alias))"

section \<open>SQL comparisons\<close>

text \<open>Three-valued truth: \<open>None\<close> is unknown.\<close>

definition eq3 :: "'a option \<Rightarrow> 'a option \<Rightarrow> bool option" where
  "eq3 a b = (case (a, b) of (Some x, Some y) \<Rightarrow> Some (x = y) | _ \<Rightarrow> None)"

definition not3 :: "bool option \<Rightarrow> bool option" where
  "not3 a = map_option Not a"

definition and3 :: "bool option \<Rightarrow> bool option \<Rightarrow> bool option" where
  "and3 a b =
     (if a = Some False \<or> b = Some False then Some False
      else if a = Some True \<and> b = Some True then Some True else None)"

text \<open>\<open>col->>'k'\<close> and \<open>COALESCE (col->>'k', '')\<close> of a nullable \<open>jsonb\<close> column.\<close>

definition col_text :: "string \<Rightarrow> json option \<Rightarrow> string option" where
  "col_text k col = Option.bind col (jtext k)"

definition coalesce :: "string option \<Rightarrow> string" where
  "coalesce t = (case t of None \<Rightarrow> [] | Some s \<Rightarrow> s)"

definition col_str :: "string \<Rightarrow> json option \<Rightarrow> string" where
  "col_str k col = coalesce (col_text k col)"

lemma col_text_simps [simp]: "col_text k None = None" "col_text k (Some j) = jtext k j"
  by (simp_all add: col_text_def)

lemma coalesce_simps [simp]: "coalesce None = []" "coalesce (Some s) = s"
  by (simp_all add: coalesce_def)

definition twenty_minutes :: int where
  "twenty_minutes = 20 * 60 * 1000000"

text \<open>A rollout of the site is running and was touched within the last twenty minutes.\<close>

definition fresh_running :: "int \<Rightarrow> string option \<Rightarrow> rollout_row \<Rightarrow> bool" where
  "fresh_running now site r \<longleftrightarrow>
     Some (rr_site r) = site \<and> rr_status r = ''RUNNING'' \<and> rr_updated_at r \<ge> now - twenty_minutes"

definition update_device :: "string \<Rightarrow> (device_row \<Rightarrow> device_row) \<Rightarrow> tenant_db \<Rightarrow> tenant_db" where
  "update_device i f db = db\<lparr>devices := (devices db)(i := map_option f (devices db i))\<rparr>"

definition update_rollouts :: "(rollout_row \<Rightarrow> rollout_row) \<Rightarrow> tenant_db \<Rightarrow> tenant_db" where
  "update_rollouts f db = db\<lparr>rollouts := map f (rollouts db)\<rparr>"

lemma update_device_simps [simp]:
  "rollouts (update_device i f db) = rollouts db"
  "audit_logs (update_device i f db) = audit_logs db"
  "devices (update_device i f db) i = map_option f (devices db i)"
  "j \<noteq> i \<Longrightarrow> devices (update_device i f db) j = devices db j"
  by (simp_all add: update_device_def)

lemma update_rollouts_simps [simp]:
  "devices (update_rollouts f db) = devices db"
  "audit_logs (update_rollouts f db) = audit_logs db"
  "rollouts (update_rollouts f db) = map f (rollouts db)"
  by (simp_all add: update_rollouts_def)

section \<open>Lemmas on schema names\<close>

lemma SafeSchemaIdent_simps [simp]:
  "isValidSchemaName s \<Longrightarrow> SafeSchemaIdent s = Inr s"
  "\<not> isValidSchemaName s \<Longrightarrow> SafeSchemaIdent s = Inl DbSchema"
  by (simp_all add: SafeSchemaIdent_def)

text \<open>
  A tenant alias that passes its check always gives a schema name that passes the check of
  every statement, fits the 63 bytes of a PostgreSQL identifier, and determines the alias.
\<close>

theorem SafeTenantSchema_safe:
  assumes "SafeTenantSchema alias = Inr s"
  shows "SafeSchemaIdent s = Inr s \<and> length s \<le> 63 \<and> drop 7 s = alias
       \<and> set s \<subseteq> {c. is_alnum c \<or> c = CHR ''_''}"
proof -
  have prefix: "list_all (\<lambda>c. is_alnum c \<or> c = CHR ''_'') ''tenant_''" "\<not> is_digit CHR ''t''"
    by code_simp+
  from assms have "s = ''tenant_'' @ alias" "length alias \<le> 55" "isValidSchemaName alias"
    by (auto simp: SafeTenantSchema_def split: if_splits)
  with prefix show ?thesis
    by (auto simp: SafeSchemaIdent_def isValidSchemaName_def list_all_iff)
qed

theorem SafeTenantSchema_safe_witness:
  "SafeTenantSchema ''acme_1'' = Inr ''tenant_acme_1'' \<and> SafeSchemaIdent ''tenant_acme_1'' = Inr ''tenant_acme_1''"
proof -
  have "SafeTenantSchema ''acme_1'' = Inr ''tenant_acme_1''" by code_simp
  with SafeTenantSchema_safe [OF this] show ?thesis by simp
qed

end
