(* ===== verification/Device_Queue.thy ===== *)
theory Device_Queue
  imports Tenant_Db
begin

text \<open>
  The queue of standalone device operations, \<open>src/internal/database/device_operations.go\<close>: parsing
  the identity out of a plan or a status report, reserving a generation and storing the plan in one
  statement, and applying the agent's status reports.
\<close>

record op_identity =
  oi_id :: string
  oi_plan_hash :: string
  oi_generation :: int

section \<open>Envelopes\<close>

text \<open>The four fields the Go code reads from a plan or a status.\<close>

definition op_envelope :: "json \<Rightarrow> (string \<times> string \<times> string \<times> int option) option" where
  "op_envelope j =
     (case go_obj j of
        None \<Rightarrow> None
      | Some kvs \<Rightarrow>
          (case (go_str ''operation_id'' kvs, go_str ''id'' kvs, go_str ''plan_hash'' kvs,
                 go_i64 ''generation'' kvs) of
             (Some op, Some i, Some h, Some g) \<Rightarrow> Some (op, i, h, g)
           | _ \<Rightarrow> None))"

definition parseOperationIdentity :: "raw_message \<Rightarrow> bool \<Rightarrow> db_error + op_identity" where
  "parseOperationIdentity raw status =
     (case Option.bind raw op_envelope of
        None \<Rightarrow> Inl DbInvalidEnvelope
      | Some (op, i, h, g) \<Rightarrow>
          (let ident = (if status then i else op) in
           if ident = [] \<or> \<not> validDeviceOperationID ident then Inl DbInvalidIdentity
           else if \<not> status \<and> \<not> validDeviceOperationPlanHash h then Inl DbInvalidIdentity
           else if status \<and> h \<noteq> [] \<and> \<not> validDeviceOperationPlanHash h then Inl DbInvalidStatus
           else (case g of
                   None \<Rightarrow> Inr \<lparr>oi_id = ident, oi_plan_hash = h, oi_generation = 0\<rparr>
                 | Some n \<Rightarrow>
                     if n < 0 then Inl DbInvalidGeneration
                     else Inr \<lparr>oi_id = ident, oi_plan_hash = h, oi_generation = n\<rparr>)))"

definition parseDeviceOperationEnvelope :: "raw_message \<Rightarrow> db_error + string \<times> string" where
  "parseDeviceOperationEnvelope plan =
     andthen (parseOperationIdentity plan False) (\<lambda>ident. Inr (oi_id ident, oi_plan_hash ident))"

text \<open>The field \<open>state\<close> as Go reads it.\<close>

definition go_state :: "json \<Rightarrow> string option" where
  "go_state j = Option.bind (go_obj j) (go_str ''state'')"

definition validDeviceOperationState :: "string \<Rightarrow> bool" where
  "validDeviceOperationState s \<longleftrightarrow>
     s \<in> {''APPLYING'', ''PENDING_CONFIRM'', ''ROLLING_BACK'', ''COMMITTED'', ''RESTORED'', ''RECOVERY_REQUIRED''}"

section \<open>Queueing an operation\<close>

text \<open>The WHERE clause of the queueing UPDATE for the row of the device.\<close>

definition queue_op_guard :: "tenant_db \<Rightarrow> int \<Rightarrow> json \<Rightarrow> op_identity \<Rightarrow> device_row \<Rightarrow> bool" where
  "queue_op_guard db now plan ident d \<longleftrightarrow>
     coalesce (dv_rollout_status d) \<noteq> ''RUNNING''
     \<and> dv_pending_op d = None \<and> dv_pending_cs d = None
     \<and> col_str ''state'' (dv_last_op d) \<noteq> ''RECOVERY_REQUIRED''
     \<and> col_str ''state'' (dv_last_cs d) \<noteq> ''RECOVERY_REQUIRED''
     \<and> \<not> list_ex (fresh_running now (dv_site d)) (rollouts db)
     \<and> (oi_generation ident > 0 \<and> dv_desired d = oi_generation ident
          \<and> (dv_pending_op d = None \<and> col_str ''id'' (dv_last_op d) \<noteq> oi_id ident
             \<or> col_text ''operation_id'' (dv_pending_op d) = Some (oi_id ident)
                 \<and> (\<exists>p \<in> set_option (dv_pending_op d). jsonb_eq p plan))
        \<or> oi_generation ident = 0 \<and> dv_pending_op d = None
          \<and> col_str ''id'' (dv_last_op d) \<noteq> oi_id ident)"

definition queue_op_row :: "int \<Rightarrow> json \<Rightarrow> op_identity \<Rightarrow> device_row \<Rightarrow> device_row" where
  "queue_op_row now plan ident d =
     d\<lparr>dv_pending_op :=
         Some (if oi_generation ident > 0 then plan
               else jset ''generation'' (JNum (dv_desired d + 1)) plan),
       dv_desired := (if oi_generation ident > 0 then dv_desired d else dv_desired d + 1),
       dv_last_op := None,
       dv_rollout_status := Some ''QUEUED'',
       dv_rollout_at := Some now,
       dv_updated_at := now\<rparr>"

text \<open>What the code answers when no row was updated, from a second read of the device.\<close>

definition queue_op_refusal :: "op_identity \<Rightarrow> device_row \<Rightarrow> db_error + int" where
  "queue_op_refusal ident d =
     (if (case dv_last_op d of None \<Rightarrow> False | Some l \<Rightarrow> go_state l = Some ''RECOVERY_REQUIRED'')
      then Inl DbRecoveryRequired
      else
        (case dv_pending_op d of
           Some p \<Rightarrow>
             (case parseOperationIdentity (Some p) False of
                Inr pi \<Rightarrow>
                  if oi_id pi = oi_id ident
                  then (if oi_plan_hash pi \<noteq> oi_plan_hash ident then Inl DbDifferentPlan
                        else if oi_generation ident > 0 \<and> oi_generation pi \<noteq> oi_generation ident
                        then Inl (DbGenerationConflict (oi_generation pi) (oi_generation ident))
                        else Inr (oi_generation pi))
                  else Inl DbOtherPending
              | Inl _ \<Rightarrow> Inl DbOtherPending)
         | None \<Rightarrow>
             (let final =
                (if oi_generation ident > 0 \<and> dv_desired d \<noteq> oi_generation ident
                 then Inl (DbGenerationConflict (dv_desired d) (oi_generation ident))
                 else Inl DbNotQueued)
              in case dv_last_op d of
                   None \<Rightarrow> final
                 | Some l \<Rightarrow>
                     (case parseOperationIdentity (Some l) True of
                        Inl _ \<Rightarrow> final
                      | Inr li \<Rightarrow>
                          if oi_id li = oi_id ident
                          then (if oi_plan_hash li \<noteq> [] \<and> oi_plan_hash li \<noteq> oi_plan_hash ident
                                then Inl DbDifferentPlan
                                else if oi_generation ident > 0
                                then (if oi_generation li > 0 \<and> oi_generation li \<noteq> oi_generation ident
                                      then Inl (DbGenerationConflict (oi_generation li) (oi_generation ident))
                                      else if dv_desired d \<noteq> oi_generation ident
                                      then Inl (DbGenerationConflict (dv_desired d) (oi_generation ident))
                                      else Inr (oi_generation ident))
                                else Inr (oi_generation li))
                          else final))))"

definition QueueDeviceOperation ::
  "string \<Rightarrow> int \<Rightarrow> string \<Rightarrow> raw_message \<Rightarrow> tenant_db \<Rightarrow> (db_error + int) \<times> tenant_db" where
  "QueueDeviceOperation schema now deviceID plan db =
     (case SafeSchemaIdent schema of
        Inl e \<Rightarrow> (Inl e, db)
      | Inr _ \<Rightarrow>
          (case parseOperationIdentity plan False of
             Inl e \<Rightarrow> (Inl e, db)
           | Inr ident \<Rightarrow>
               (case (devices db deviceID, plan) of
                  (Some d, Some p) \<Rightarrow>
                    if queue_op_guard db now p ident d
                    then (if oi_generation ident = 0 \<and> dv_desired d \<ge> max_int64 then (Inl DbFailure, db)
                          else (Inr (dv_desired (queue_op_row now p ident d)),
                                update_device deviceID (queue_op_row now p ident) db))
                    else (queue_op_refusal ident d, db)
                | _ \<Rightarrow> (Inl DbDeviceNotFound, db))))"

section \<open>Reading back\<close>

definition non_null :: "json option \<Rightarrow> json option" where
  "non_null col = (case col of None \<Rightarrow> None | Some j \<Rightarrow> if j = JNull then None else Some j)"

definition GetPendingDeviceOperation :: "string \<Rightarrow> string \<Rightarrow> tenant_db \<Rightarrow> db_error + json option" where
  "GetPendingDeviceOperation schema deviceID db =
     andthen (SafeSchemaIdent schema) (\<lambda>_.
       Inr (case devices db deviceID of None \<Rightarrow> None | Some d \<Rightarrow> non_null (dv_pending_op d)))"

definition GetLastDeviceOperation :: "string \<Rightarrow> string \<Rightarrow> tenant_db \<Rightarrow> db_error + json option" where
  "GetLastDeviceOperation schema deviceID db =
     andthen (SafeSchemaIdent schema) (\<lambda>_.
       Inr (case devices db deviceID of None \<Rightarrow> None | Some d \<Rightarrow> non_null (dv_last_op d)))"

section \<open>Status reports\<close>

definition op_terminal :: "string \<Rightarrow> bool" where
  "op_terminal s \<longleftrightarrow> s = ''COMMITTED'' \<or> s = ''RESTORED''"

definition generation_text :: "op_identity \<Rightarrow> string" where
  "generation_text ident = (if oi_generation ident > 0 then int_str (oi_generation ident) else [])"

text \<open>The columns match the reported identity: \<open>key\<close> is the name the column uses for the id.\<close>

definition identity_match :: "string \<Rightarrow> op_identity \<Rightarrow> json option \<Rightarrow> bool" where
  "identity_match key ident col \<longleftrightarrow>
     col_text key col = Some (oi_id ident)
     \<and> (oi_plan_hash ident \<noteq> [] \<and> col_text ''plan_hash'' col = Some (oi_plan_hash ident)
        \<or> oi_plan_hash ident = [] \<and> col_str ''generation'' col = [])
     \<and> (generation_text ident = [] \<or> col_text ''generation'' col = Some (generation_text ident))"

definition op_pending_match :: "op_identity \<Rightarrow> device_row \<Rightarrow> bool" where
  "op_pending_match ident d \<longleftrightarrow> identity_match ''operation_id'' ident (dv_pending_op d)"

definition op_last_match :: "op_identity \<Rightarrow> string \<Rightarrow> device_row \<Rightarrow> bool" where
  "op_last_match ident st d \<longleftrightarrow>
     dv_pending_cs d = None \<and> identity_match ''id'' ident (dv_last_op d)
     \<and> (col_str ''state'' (dv_last_op d) \<notin> {''COMMITTED'', ''RESTORED''}
        \<or> col_text ''state'' (dv_last_op d) = Some st)"

definition record_op_row :: "int \<Rightarrow> json \<Rightarrow> op_identity \<Rightarrow> string \<Rightarrow> device_row \<Rightarrow> device_row" where
  "record_op_row now status ident st d =
     (let terminal = op_terminal st;
          advance = terminal \<and> st = ''COMMITTED'' \<and> oi_generation ident > 0
      in d\<lparr>dv_last_op := Some status,
           dv_pending_op := (if terminal \<and> op_pending_match ident d then None else dv_pending_op d),
           dv_rollout_status :=
             (if coalesce (dv_rollout_status d) = ''RUNNING'' then dv_rollout_status d else Some st),
           dv_health_at := (if terminal then Some now else dv_health_at d),
           dv_observed := (if advance then max (dv_observed d) (oi_generation ident) else dv_observed d),
           dv_last_successful :=
             (if advance then max (dv_last_successful d) (oi_generation ident) else dv_last_successful d),
           dv_updated_at := now\<rparr>)"

definition RecordDeviceOperationStatus ::
  "string \<Rightarrow> int \<Rightarrow> string \<Rightarrow> raw_message \<Rightarrow> tenant_db \<Rightarrow> (db_error + unit) \<times> tenant_db" where
  "RecordDeviceOperationStatus schema now deviceID status db =
     (case SafeSchemaIdent schema of
        Inl e \<Rightarrow> (Inl e, db)
      | Inr _ \<Rightarrow>
          (case (parseOperationIdentity status True, status) of
             (Inr ident, Some j) \<Rightarrow>
               (case go_state j of
                  None \<Rightarrow> (Inl DbInvalidStatus, db)
                | Some st \<Rightarrow>
                    if \<not> validDeviceOperationState st then (Inl DbInvalidStatus, db)
                    else (case devices db deviceID of
                            Some d \<Rightarrow>
                              if op_pending_match ident d \<or> op_last_match ident st d
                              then (Inr (), update_device deviceID (record_op_row now j ident st) db)
                              else (Inl DbStatusNotApplied, db)
                          | None \<Rightarrow> (Inl DbStatusNotApplied, db)))
           | _ \<Rightarrow> (Inl DbInvalidStatus, db)))"

section \<open>The contract of the writers of device rows\<close>

text \<open>
  Whatever a writer of the table \<open>devices\<close> does, it may not lose a row, move a device between
  sites, roles or capabilities, take back a generation, or give a device a pending operation and a
  pending changeset at the same time.
\<close>

definition exclusive :: "device_row \<Rightarrow> bool" where
  "exclusive d \<longleftrightarrow> dv_pending_op d = None \<or> dv_pending_cs d = None"

definition row_progress :: "device_row \<Rightarrow> device_row \<Rightarrow> bool" where
  "row_progress d d' \<longleftrightarrow>
     dv_desired d \<le> dv_desired d' \<and> dv_observed d \<le> dv_observed d'
     \<and> dv_last_successful d \<le> dv_last_successful d'
     \<and> dv_site d' = dv_site d \<and> dv_role d' = dv_role d \<and> dv_capabilities d' = dv_capabilities d
     \<and> (exclusive d \<longrightarrow> exclusive d')"

definition db_progress :: "tenant_db \<Rightarrow> tenant_db \<Rightarrow> bool" where
  "db_progress db db' \<longleftrightarrow> (\<forall>i. rel_option row_progress (devices db i) (devices db' i))"

lemma row_progress_refl [simp]: "row_progress d d"
  by (simp add: row_progress_def)

lemma row_progress_trans: "row_progress a b \<Longrightarrow> row_progress b c \<Longrightarrow> row_progress a c"
  by (auto simp: row_progress_def)

lemma db_progress_refl [simp]: "db_progress db db"
  by (simp add: db_progress_def option.rel_refl)

lemma rel_option_row_trans:
  "rel_option row_progress x y \<Longrightarrow> rel_option row_progress y z \<Longrightarrow> rel_option row_progress x z"
  by (cases x; cases y; cases z) (auto intro: row_progress_trans)

lemma db_progress_trans: "db_progress a b \<Longrightarrow> db_progress b c \<Longrightarrow> db_progress a c"
  unfolding db_progress_def using rel_option_row_trans by blast

lemma db_progress_same_devices: "devices db' = devices db \<Longrightarrow> db_progress db db'"
  by (simp add: db_progress_def option.rel_refl)

lemma db_progress_update:
  "(\<And>d. devices db i = Some d \<Longrightarrow> row_progress d (f d)) \<Longrightarrow> db_progress db (update_device i f db)"
  by (auto simp: db_progress_def update_device_def rel_option_iff split: option.splits)

locale device_writer =
  fixes perform :: "'req \<Rightarrow> tenant_db \<Rightarrow> tenant_db"
  assumes progress: "db_progress db (perform req db)"
begin

lemma run_progress: "db_progress db (fold perform reqs db)"
  by (induction reqs arbitrary: db) (auto intro: db_progress_trans progress)

lemma run_generations:
  "devices db i = Some d \<Longrightarrow> \<exists>d'. devices (fold perform reqs db) i = Some d'
     \<and> dv_desired d \<le> dv_desired d' \<and> dv_observed d \<le> dv_observed d'
     \<and> dv_last_successful d \<le> dv_last_successful d' \<and> (exclusive d \<longrightarrow> exclusive d')"
  using run_progress [of db reqs, unfolded db_progress_def, rule_format, of i]
  by (cases "devices (fold perform reqs db) i") (simp_all add: row_progress_def)

end

section \<open>Queueing respects the contract\<close>

lemma queue_op_row_progress:
  "queue_op_guard db now p ident d \<Longrightarrow> row_progress d (queue_op_row now p ident d)"
  by (auto simp: queue_op_guard_def queue_op_row_def row_progress_def exclusive_def)

lemma QueueDeviceOperation_outcome:
  "snd (QueueDeviceOperation schema now i plan db) = db \<or>
   (\<exists>ident p d. isValidSchemaName schema \<and> parseOperationIdentity plan False = Inr ident
      \<and> plan = Some p \<and> devices db i = Some d \<and> queue_op_guard db now p ident d
      \<and> (oi_generation ident = 0 \<longrightarrow> dv_desired d < max_int64)
      \<and> QueueDeviceOperation schema now i plan db
         = (Inr (dv_desired (queue_op_row now p ident d)), update_device i (queue_op_row now p ident) db))"
  by (auto simp: QueueDeviceOperation_def SafeSchemaIdent_def split: sum.split option.split)

lemma QueueDeviceOperation_cases:
  obtains (refused) "snd (QueueDeviceOperation schema now i plan db) = db"
  | (queued) ident p d where "isValidSchemaName schema" "parseOperationIdentity plan False = Inr ident"
      "plan = Some p" "devices db i = Some d" "queue_op_guard db now p ident d"
      "oi_generation ident = 0 \<longrightarrow> dv_desired d < max_int64"
      "QueueDeviceOperation schema now i plan db
         = (Inr (dv_desired (queue_op_row now p ident d)), update_device i (queue_op_row now p ident) db)"
  using QueueDeviceOperation_outcome [of schema now i plan db] by blast

lemma record_op_row_progress: "row_progress d (record_op_row now j ident st d)"
  by (auto simp: record_op_row_def row_progress_def exclusive_def Let_def)

lemma RecordDeviceOperationStatus_outcome:
  "(\<exists>e. RecordDeviceOperationStatus schema now i status db = (Inl e, db)) \<or>
   (\<exists>ident j st d. parseOperationIdentity status True = Inr ident \<and> status = Some j
      \<and> go_state j = Some st \<and> validDeviceOperationState st \<and> devices db i = Some d
      \<and> (op_pending_match ident d \<or> op_last_match ident st d)
      \<and> RecordDeviceOperationStatus schema now i status db
         = (Inr (), update_device i (record_op_row now j ident st) db))"
  by (auto simp: RecordDeviceOperationStatus_def split: sum.split option.split)

lemma RecordDeviceOperationStatus_cases:
  obtains (refused) e where "RecordDeviceOperationStatus schema now i status db = (Inl e, db)"
  | (applied) ident j st d where "parseOperationIdentity status True = Inr ident" "status = Some j"
      "go_state j = Some st" "validDeviceOperationState st" "devices db i = Some d"
      "op_pending_match ident d \<or> op_last_match ident st d"
      "RecordDeviceOperationStatus schema now i status db
         = (Inr (), update_device i (record_op_row now j ident st) db)"
  using RecordDeviceOperationStatus_outcome [of schema now i status db] by blast

definition op_request :: "string \<Rightarrow> int \<times> string \<times> raw_message \<Rightarrow> tenant_db \<Rightarrow> tenant_db" where
  "op_request schema req db =
     (let (now, i, plan) = req in snd (QueueDeviceOperation schema now i plan db))"

definition op_report :: "string \<Rightarrow> int \<times> string \<times> raw_message \<Rightarrow> tenant_db \<Rightarrow> tenant_db" where
  "op_report schema req db =
     (let (now, i, status) = req in snd (RecordDeviceOperationStatus schema now i status db))"

lemma QueueDeviceOperation_progress: "db_progress db (snd (QueueDeviceOperation schema now i plan db))"
proof (cases rule: QueueDeviceOperation_cases [of schema now i plan db])
  case (queued ident p d)
  then show ?thesis by (auto intro!: db_progress_update queue_op_row_progress)
qed simp

lemma RecordDeviceOperationStatus_progress:
  "db_progress db (snd (RecordDeviceOperationStatus schema now i status db))"
proof (cases rule: RecordDeviceOperationStatus_cases [of schema now i status db])
  case (applied ident j st d)
  then show ?thesis by (auto intro!: db_progress_update record_op_row_progress)
qed simp

interpretation op_queue: device_writer "op_request schema" for schema
  by unfold_locales (auto simp: op_request_def QueueDeviceOperation_progress)

interpretation op_reports: device_writer "op_report schema" for schema
  by unfold_locales (auto simp: op_report_def RecordDeviceOperationStatus_progress)

section \<open>Two readers of one document\<close>

text \<open>
  Go matches keys up to case, PostgreSQL exactly. On documents in which no two keys differ only in
  case, as \<open>json.Marshal\<close> of a struct writes them, both read the same generation.
\<close>

definition case_distinct :: "json \<Rightarrow> bool" where
  "case_distinct j = (case j of JObj kvs \<Rightarrow> distinct (map (\<lambda>kv. go_fold (fst kv)) kvs) | _ \<Rightarrow> True)"

lemma go_entries_Cons:
  "go_entries name ((k, v) # kvs) =
     (if go_fold k = go_fold name then v # go_entries name kvs else go_entries name kvs)"
  by (simp add: go_entries_def)

lemma go_entries_Nil [simp]: "go_entries name [] = []"
  by (simp add: go_entries_def)

lemma go_entries_append: "go_entries name (xs @ ys) = go_entries name xs @ go_entries name ys"
  by (simp add: go_entries_def)

lemma go_entries_empty:
  "go_fold name \<notin> set (map (\<lambda>kv. go_fold (fst kv)) kvs) \<Longrightarrow> go_entries name kvs = []"
  by (induction kvs) (auto simp: go_entries_Cons)

lemma go_entries_single:
  "distinct (map (\<lambda>kv. go_fold (fst kv)) kvs) \<Longrightarrow> (k, v) \<in> set kvs \<Longrightarrow> go_fold k = go_fold name
     \<Longrightarrow> go_entries name kvs = [v]"
proof (induction kvs)
  case Nil
  then show ?case by simp
next
  case (Cons kv kvs)
  obtain x y where kv: "kv = (x, y)" by (cases kv)
  show ?case
  proof (cases "(k, v) \<in> set kvs")
    case True
    with Cons.prems have "go_fold x \<noteq> go_fold name" by (auto simp: kv image_iff)
    with Cons True show ?thesis by (simp add: kv go_entries_Cons)
  next
    case False
    with Cons.prems have "x = k" "y = v" by (auto simp: kv)
    moreover from Cons.prems calculation have "go_entries name kvs = []"
      by (intro go_entries_empty) (auto simp: kv)
    ultimately show ?thesis using Cons.prems(3) by (simp add: kv go_entries_Cons)
  qed
qed

lemma jfield_mem: "jfield k (JObj kvs) = Some v \<Longrightarrow> (k, v) \<in> set kvs"
  by (auto simp: jfield_def dest: map_of_SomeD)

lemma jtext_not_null: "jtext k j = Some t \<Longrightarrow> \<exists>v. jfield k j = Some v \<and> v \<noteq> JNull"
  by (auto simp: jtext_def split: option.splits json.splits)

lemma generation_views:
  assumes "case_distinct (JObj kvs)" "go_i64 ''generation'' kvs = Some g"
    "jtext ''generation'' (JObj kvs) = Some t"
  shows "\<exists>n. g = Some n \<and> t = int_str n"
proof -
  from assms(3) obtain v where v: "jfield ''generation'' (JObj kvs) = Some v" and "v \<noteq> JNull"
    using jtext_not_null by blast
  from go_entries_single [OF _ jfield_mem [OF v] refl] assms(1)
  have "go_entries ''generation'' kvs = [v]" by (simp add: case_distinct_def)
  with assms(2) \<open>v \<noteq> JNull\<close> show ?thesis
    using assms(3) v by (cases v) (auto simp: go_i64_def jtext_def split: if_splits)
qed

lemma parse_identity_view:
  assumes "parseOperationIdentity (Some j) status = Inr ident"
  shows "\<exists>kvs g. j = JObj kvs \<and> go_i64 ''generation'' kvs = Some g
     \<and> oi_generation ident = (case g of None \<Rightarrow> 0 | Some n \<Rightarrow> n) \<and> 0 \<le> oi_generation ident"
proof -
  from assms obtain op i h g where env: "op_envelope j = Some (op, i, h, g)"
    by (auto simp: parseOperationIdentity_def split: option.splits)
  then obtain kvs where kvs: "go_obj j = Some kvs" "go_str ''operation_id'' kvs = Some op"
      "go_str ''id'' kvs = Some i" "go_i64 ''generation'' kvs = Some g"
    by (auto simp: op_envelope_def split: option.splits)
  from assms env have ident: "(if status then i else op) \<noteq> []"
      "oi_generation ident = (case g of None \<Rightarrow> 0 | Some n \<Rightarrow> n) \<and> 0 \<le> oi_generation ident"
    by (auto simp: parseOperationIdentity_def Let_def split: if_splits option.splits)
  have "kvs \<noteq> []" using kvs(2,3) ident(1) by (auto simp: go_str_def)
  with kvs(1) have "j = JObj kvs" by (cases j) (auto simp: go_obj_def)
  with kvs ident show ?thesis by blast
qed

section \<open>Generations stay behind the desired one\<close>

definition gen_le :: "json option \<Rightarrow> int \<Rightarrow> bool" where
  "gen_le col m \<longleftrightarrow> (\<forall>n. col_text ''generation'' col = Some (int_str n) \<longrightarrow> n \<le> m)"

definition bounded :: "device_row \<Rightarrow> bool" where
  "bounded d \<longleftrightarrow>
     0 \<le> dv_desired d \<and> dv_desired d \<le> max_int64 \<and> dv_observed d \<le> dv_desired d \<and> dv_last_successful d \<le> dv_desired d
     \<and> gen_le (dv_pending_op d) (dv_desired d) \<and> gen_le (dv_last_op d) (dv_desired d)
     \<and> gen_le (dv_pending_cs d) (dv_desired d) \<and> gen_le (dv_last_cs d) (dv_desired d)"

lemma gen_le_None [simp]: "gen_le None m"
  by (simp add: gen_le_def)

lemma gen_le_mono: "gen_le col m \<Longrightarrow> m \<le> n \<Longrightarrow> gen_le col n"
  by (auto simp: gen_le_def)

lemma parsed_gen_le:
  assumes "parseOperationIdentity (Some j) status = Inr ident" "case_distinct j" "oi_generation ident \<le> m"
  shows "gen_le (Some j) m"
proof -
  obtain kvs g where j: "j = JObj kvs" and g: "go_i64 ''generation'' kvs = Some g"
    and gen: "oi_generation ident = (case g of None \<Rightarrow> 0 | Some n \<Rightarrow> n)"
    using parse_identity_view [OF assms(1)] by blast
  show ?thesis
    unfolding gen_le_def
  proof (intro allI impI)
    fix n assume "col_text ''generation'' (Some j) = Some (int_str n)"
    with generation_views [OF assms(2) [unfolded j] g, of "int_str n"] j gen assms(3)
    show "n \<le> m" by auto
  qed
qed

lemma queue_op_row_bounded:
  assumes "parseOperationIdentity (Some p) False = Inr ident" "case_distinct p"
    "queue_op_guard db now p ident d" "bounded d" "oi_generation ident = 0 \<longrightarrow> dv_desired d < max_int64"
  shows "bounded (queue_op_row now p ident d)"
proof (cases "oi_generation ident > 0")
  case True
  with assms(3) have "oi_generation ident = dv_desired d"
    by (auto simp: queue_op_guard_def)
  with parsed_gen_le [OF assms(1,2), of "dv_desired d"] assms(4) True show ?thesis
    by (auto simp: bounded_def queue_op_row_def)
next
  case False
  obtain kvs where p: "p = JObj kvs"
    using parse_identity_view [OF assms(1)] by blast
  have "gen_le (Some (jset ''generation'' (JNum (dv_desired d + 1)) p)) (dv_desired d + 1)"
    by (simp add: gen_le_def p)
  moreover have "dv_desired d < max_int64"
    using False assms(3,5) by (auto simp: queue_op_guard_def)
  ultimately show ?thesis
    using assms(4) False by (auto simp: bounded_def queue_op_row_def intro: gen_le_mono)
qed

lemma match_generation:
  "identity_match key ident col \<Longrightarrow> gen_le col m \<Longrightarrow> 0 \<le> m \<Longrightarrow> oi_generation ident \<le> m"
  by (cases "oi_generation ident > 0") (auto simp: identity_match_def gen_le_def generation_text_def)

lemma record_op_row_bounded:
  assumes "parseOperationIdentity (Some j) True = Inr ident" "case_distinct j"
    "op_pending_match ident d \<or> op_last_match ident st d" "bounded d"
  shows "bounded (record_op_row now j ident st d)"
proof -
  have "oi_generation ident \<le> dv_desired d"
    using assms(3,4) by (auto simp: op_pending_match_def op_last_match_def bounded_def dest: match_generation)
  with parsed_gen_le [OF assms(1,2)] assms(4) show ?thesis
    by (auto simp: bounded_def record_op_row_def Let_def)
qed

definition all_bounded :: "tenant_db \<Rightarrow> bool" where
  "all_bounded db \<longleftrightarrow> (\<forall>i d. devices db i = Some d \<longrightarrow> bounded d)"

lemma all_bounded_update:
  "all_bounded db \<Longrightarrow> devices db i = Some d \<Longrightarrow> bounded (f d) \<Longrightarrow> all_bounded (update_device i f db)"
  by (auto simp: all_bounded_def update_device_def)

text \<open>
  C7. In every device row the observed and the last successful generation, and the generation of
  every stored plan or status, stay at or below the desired generation, which itself never leaves the
  range of the bigint column: both queueing an operation and recording a status keep this, for
  documents without keys that differ only in case.
\<close>

theorem generations_bounded:
  assumes "all_bounded db" "\<forall>j. doc = Some j \<longrightarrow> case_distinct j"
  shows "all_bounded (snd (QueueDeviceOperation schema now i doc db))
       \<and> all_bounded (snd (RecordDeviceOperationStatus schema now i doc db))"
proof
  show "all_bounded (snd (QueueDeviceOperation schema now i doc db))"
  proof (cases rule: QueueDeviceOperation_cases [of schema now i doc db])
    case refused
    with assms show ?thesis by simp
  next
    case (queued ident p d)
    then have "bounded (queue_op_row now p ident d)"
      using assms by (intro queue_op_row_bounded) (auto simp: all_bounded_def)
    with queued assms show ?thesis by (simp add: all_bounded_update)
  qed
  show "all_bounded (snd (RecordDeviceOperationStatus schema now i doc db))"
  proof (cases rule: RecordDeviceOperationStatus_cases [of schema now i doc db])
    case refused
    with assms show ?thesis by simp
  next
    case (applied ident j st d)
    then have "bounded (record_op_row now j ident st d)"
      using assms by (intro record_op_row_bounded) (auto simp: all_bounded_def)
    with applied assms show ?thesis by (simp add: all_bounded_update)
  qed
qed


definition sample_plan :: json where
  "sample_plan = JObj [(''operation_id'', JStr ''op-1''), (''plan_hash'', JStr (replicate 64 CHR ''a''))]"

definition sample_row :: device_row where
  "sample_row =
     \<lparr>dv_site = Some ''site-1'', dv_role = Some ''ap'', dv_capabilities = None,
      dv_desired = 4, dv_observed = 3, dv_last_successful = 3,
      dv_pending_op = None, dv_last_op = None, dv_pending_cs = None, dv_last_cs = None,
      dv_rollout_status = None, dv_rollout_at = None, dv_health_at = None, dv_updated_at = 0\<rparr>"

definition sample_db :: tenant_db where
  "sample_db = \<lparr>devices = [''dev-1'' \<mapsto> sample_row], rollouts = [], audit_logs = []\<rparr>"

lemma sample_db_row [simp]: "devices sample_db ''dev-1'' = Some sample_row"
  by (simp add: sample_db_def)

lemma sample_bounded: "all_bounded sample_db"
  by (simp add: all_bounded_def bounded_def sample_db_def sample_row_def max_int64_def)

lemma sample_plan_distinct: "case_distinct sample_plan"
  by code_simp

lemma sample_plan_parse:
  "parseOperationIdentity (Some sample_plan) False
     = Inr \<lparr>oi_id = ''op-1'', oi_plan_hash = replicate 64 CHR ''a'', oi_generation = 0\<rparr>"
  by code_simp

lemma sample_guard:
  "queue_op_guard sample_db now sample_plan
     \<lparr>oi_id = ''op-1'', oi_plan_hash = replicate 64 CHR ''a'', oi_generation = 0\<rparr> sample_row"
  by (simp add: queue_op_guard_def sample_row_def sample_db_def col_str_def)

lemma sample_queued:
  "fst (QueueDeviceOperation ''tenant_a'' now ''dev-1'' (Some sample_plan) sample_db) = Inr 5"
proof -
  have "isValidSchemaName ''tenant_a''" by code_simp
  then show ?thesis
    by (simp add: QueueDeviceOperation_def sample_plan_parse sample_guard queue_op_row_def)
      (simp add: sample_row_def max_int64_def)
qed

theorem generations_bounded_witness:
  "fst (QueueDeviceOperation ''tenant_a'' 7 ''dev-1'' (Some sample_plan) sample_db) = Inr 5
   \<and> all_bounded (snd (QueueDeviceOperation ''tenant_a'' 7 ''dev-1'' (Some sample_plan) sample_db))"
  using generations_bounded [OF sample_bounded, of "Some sample_plan" "''tenant_a''" 7 "''dev-1''"]
    sample_plan_distinct sample_queued by simp

section \<open>Retries\<close>

definition i64_elem :: "json \<Rightarrow> bool" where
  "i64_elem j = (case j of JNull \<Rightarrow> True | JNum n \<Rightarrow> in_int64 n | _ \<Rightarrow> False)"

lemma fold_i64_defined: "fold_i64 c xs \<noteq> None \<longleftrightarrow> list_all i64_elem xs"
proof (induction xs arbitrary: c)
  case (Cons j xs)
  then show ?case by (cases j) (auto simp: i64_elem_def)
qed simp

lemma fold_i64_last:
  "fold_i64 c xs \<noteq> None \<Longrightarrow> in_int64 n \<Longrightarrow> fold_i64 c (xs @ [JNum n]) = Some (Some n)"
proof (induction xs arbitrary: c)
  case (Cons j xs)
  then show ?case by (cases j) (auto split: if_splits)
qed simp

lemma go_entries_filter_other:
  "go_fold name \<noteq> go_fold k \<Longrightarrow> go_entries name (filter (\<lambda>(x, _). x \<noteq> k) kvs) = go_entries name kvs"
  by (induction kvs) (auto simp: go_entries_Cons)

lemma go_entries_filter_sub: "set (go_entries name (filter P kvs)) \<subseteq> set (go_entries name kvs)"
  by (auto simp: go_entries_def)

lemma go_str_jset:
  assumes "go_fold name \<noteq> go_fold k"
  shows "go_str name (filter (\<lambda>(x, _). x \<noteq> k) kvs @ [(k, v)]) = go_str name kvs"
proof -
  from assms have "go_entries name [(k, v)] = []" by (auto simp: go_entries_Cons)
  then show ?thesis by (simp add: go_str_def go_entries_append go_entries_filter_other [OF assms])
qed

lemma go_i64_jset:
  assumes "go_i64 k kvs \<noteq> None" "in_int64 n"
  shows "go_i64 k (filter (\<lambda>(x, _). x \<noteq> k) kvs @ [(k, JNum n)]) = Some (Some n)"
proof -
  have "fold_i64 None (go_entries k (filter (\<lambda>(x, _). x \<noteq> k) kvs)) \<noteq> None"
    using assms(1) go_entries_filter_sub [of k "\<lambda>(x, _). x \<noteq> k" kvs]
    by (auto simp only: go_i64_def fold_i64_defined list_all_iff)
  from fold_i64_last [OF this assms(2)] show ?thesis
    by (simp add: go_i64_def go_entries_append go_entries_Cons)
qed

lemma generation_folds:
  "go_fold ''operation_id'' \<noteq> go_fold ''generation''" "go_fold ''id'' \<noteq> go_fold ''generation''"
  "go_fold ''plan_hash'' \<noteq> go_fold ''generation''"
  by code_simp+

lemma parse_reserved:
  assumes "parseOperationIdentity (Some p) False = Inr ident" "0 \<le> n" "in_int64 n"
  shows "parseOperationIdentity (Some (jset ''generation'' (JNum n) p)) False = Inr (ident\<lparr>oi_generation := n\<rparr>)"
proof -
  from assms(1) obtain op i h g where env: "op_envelope p = Some (op, i, h, g)"
    by (auto simp: parseOperationIdentity_def split: option.splits)
  obtain kvs where p: "p = JObj kvs"
    using parse_identity_view [OF assms(1)] by blast
  with env have kvs: "go_str ''operation_id'' kvs = Some op" "go_str ''id'' kvs = Some i"
      "go_str ''plan_hash'' kvs = Some h" "go_i64 ''generation'' kvs \<noteq> None"
    by (auto simp: op_envelope_def go_obj_def split: option.splits)
  have "op_envelope (jset ''generation'' (JNum n) p) = Some (op, i, h, Some n)"
    by (simp add: op_envelope_def p jset_def go_obj_def go_str_jset generation_folds kvs(1-3)
        go_i64_jset [OF kvs(4) assms(3)])
  with env assms show ?thesis
    by (auto simp: parseOperationIdentity_def Let_def split: if_splits option.splits)
qed

lemma queued_row_parse:
  assumes "parseOperationIdentity (Some p) False = Inr ident" "queue_op_guard db now p ident d"
    "0 \<le> dv_desired d" "oi_generation ident = 0 \<longrightarrow> dv_desired d < max_int64"
  shows "\<exists>q pi. dv_pending_op (queue_op_row now p ident d) = Some q
     \<and> parseOperationIdentity (Some q) False = Inr pi
     \<and> oi_id pi = oi_id ident \<and> oi_plan_hash pi = oi_plan_hash ident
     \<and> oi_generation pi = dv_desired (queue_op_row now p ident d)
     \<and> (oi_generation ident > 0 \<longrightarrow> oi_generation pi = oi_generation ident)"
proof (cases "oi_generation ident > 0")
  case True
  with assms show ?thesis by (auto simp: queue_op_row_def queue_op_guard_def)
next
  case False
  have "oi_generation ident = 0" using False parse_identity_view [OF assms(1)] by auto
  with assms(3,4) have "in_int64 (dv_desired d + 1)" by (simp add: in_int64_def max_int64_def min_int64_def)
  from parse_reserved [OF assms(1) _ this] assms(3) False show ?thesis
    by (simp add: queue_op_row_def)
qed

lemma queue_retry:
  assumes "QueueDeviceOperation schema now i (Some p) db = (Inr g, db')" "db' \<noteq> db"
    "devices db i = Some d" "0 \<le> dv_desired d"
  shows "QueueDeviceOperation schema later i (Some p) db' = (Inr g, db')"
proof (cases rule: QueueDeviceOperation_cases [of schema now i "Some p" db])
  case refused
  with assms show ?thesis by simp
next
  case (queued ident q e)
  then have q: "q = p" "e = d" using assms by auto
  note queued = queued [unfolded q]
  define r where "r = queue_op_row now p ident d"
  obtain s pi where s: "dv_pending_op r = Some s" "parseOperationIdentity (Some s) False = Inr pi"
      "oi_id pi = oi_id ident" "oi_plan_hash pi = oi_plan_hash ident" "oi_generation pi = dv_desired r"
      "oi_generation ident > 0 \<longrightarrow> oi_generation pi = oi_generation ident"
    using queued_row_parse [OF queued(2) queued(5) assms(4) queued(6)] by (auto simp: r_def)
  have res: "g = dv_desired r" "db' = update_device i (queue_op_row now p ident) db"
    using assms(1) queued(7) by (auto simp: r_def)
  have row: "devices db' i = Some r" using res assms(3) by (simp add: r_def)
  have "\<not> queue_op_guard db' later p ident r" using s(1) by (simp add: queue_op_guard_def)
  moreover have "queue_op_refusal ident r = Inr g"
    using s res by (auto simp: queue_op_refusal_def r_def queue_op_row_def)
  ultimately show ?thesis using queued(1,2) row by (simp add: QueueDeviceOperation_def)
qed

text \<open>
  Queueing is idempotent: once a plan has been queued and a generation reserved for it,
  sending the same plan again at any later time returns the same generation and changes nothing.
\<close>

theorem QueueDeviceOperation_retry:
  assumes "QueueDeviceOperation schema now i (Some p) db = (Inr g, db')" "db' \<noteq> db"
    "devices db i = Some d" "0 \<le> dv_desired d"
  shows "QueueDeviceOperation schema later i (Some p) db' = (Inr g, db')"
  by (rule queue_retry [OF assms])

definition sample_queued_db :: tenant_db where
  "sample_queued_db = snd (QueueDeviceOperation ''tenant_a'' 7 ''dev-1'' (Some sample_plan) sample_db)"

lemma sample_queued_pair:
  "QueueDeviceOperation ''tenant_a'' 7 ''dev-1'' (Some sample_plan) sample_db = (Inr 5, sample_queued_db)"
  using sample_queued [of 7] by (simp add: sample_queued_db_def prod_eq_iff)

lemma sample_queued_db_row:
  "devices sample_queued_db ''dev-1''
     = Some (queue_op_row 7 sample_plan
         \<lparr>oi_id = ''op-1'', oi_plan_hash = replicate 64 CHR ''a'', oi_generation = 0\<rparr> sample_row)"
proof -
  have "isValidSchemaName ''tenant_a''" by code_simp
  then show ?thesis
    by (simp add: sample_queued_db_def QueueDeviceOperation_def sample_plan_parse sample_guard)
      (simp add: sample_row_def max_int64_def)
qed

theorem QueueDeviceOperation_retry_witness:
  "QueueDeviceOperation ''tenant_a'' 99 ''dev-1'' (Some sample_plan) sample_queued_db = (Inr 5, sample_queued_db)"
proof (rule QueueDeviceOperation_retry [OF sample_queued_pair _ sample_db_row])
  have "devices sample_queued_db ''dev-1'' \<noteq> devices sample_db ''dev-1''"
    by (simp add: sample_queued_db_row) (simp add: sample_row_def queue_op_row_def)
  then show "sample_queued_db \<noteq> sample_db" by metis
  show "0 \<le> dv_desired sample_row" by (simp add: sample_row_def)
qed

section \<open>Fencing of status reports\<close>

lemma record_row_unchanged:
  "\<not> (op_terminal st \<and> op_pending_match ident d) \<Longrightarrow>
     dv_pending_op (record_op_row now j ident st d) = dv_pending_op d"
  "\<not> (st = ''COMMITTED'' \<and> oi_generation ident > 0) \<Longrightarrow>
     dv_observed (record_op_row now j ident st d) = dv_observed d"
  by (auto simp: record_op_row_def Let_def)

text \<open>
  A status report clears the pending operation only if it carries the operation's own id and
  plan hash and a final state; any other report, accepted or refused, leaves the pending plan in
  place. Only a COMMITTED report that names a generation moves the observed generation.
\<close>

theorem pending_operation_fenced:
  assumes "devices db i = Some d" "dv_pending_op d = Some p" "jtext ''generation'' p = Some g" "g \<noteq> []"
    "devices (snd (RecordDeviceOperationStatus schema now i status db)) i = Some d'"
  shows "(dv_pending_op d' = Some p \<or>
          (\<exists>ident st. parseOperationIdentity status True = Inr ident
             \<and> Option.bind status go_state = Some st \<and> st \<in> {''COMMITTED'', ''RESTORED''}
             \<and> jtext ''operation_id'' p = Some (oi_id ident)
             \<and> jtext ''plan_hash'' p = Some (oi_plan_hash ident)))
       \<and> (dv_observed d' = dv_observed d \<or> Option.bind status go_state = Some ''COMMITTED'')"
proof (cases rule: RecordDeviceOperationStatus_cases [of schema now i status db])
  case (refused e)
  with assms show ?thesis by simp
next
  case (applied ident j st e)
  then have d': "d' = record_op_row now j ident st d" using assms by simp
  have "dv_pending_op d' = Some p \<or> op_terminal st \<and> op_pending_match ident d"
    using record_row_unchanged(1) assms(2) d' by metis
  moreover have "dv_observed d' = dv_observed d \<or> st = ''COMMITTED''"
    using record_row_unchanged(2) d' by metis
  ultimately show ?thesis
    using applied(1-4) assms(2-4)
    by (auto simp: op_pending_match_def identity_match_def op_terminal_def col_str_def)
qed

definition sample_status :: "string \<Rightarrow> json" where
  "sample_status st = JObj [(''id'', JStr ''op-1''), (''plan_hash'', JStr (replicate 64 CHR ''a'')),
     (''generation'', JNum 5), (''state'', JStr st)]"

theorem pending_operation_fenced_witness:
  "\<exists>d'. devices (snd (RecordDeviceOperationStatus ''tenant_a'' 8 ''dev-1'' (Some (sample_status ''APPLYING''))
      sample_queued_db)) ''dev-1'' = Some d'
    \<and> dv_pending_op d' = Some (jset ''generation'' (JNum 5) sample_plan)"
proof -
  let ?d = "queue_op_row 7 sample_plan
         \<lparr>oi_id = ''op-1'', oi_plan_hash = replicate 64 CHR ''a'', oi_generation = 0\<rparr> sample_row"
  let ?r = "snd (RecordDeviceOperationStatus ''tenant_a'' 8 ''dev-1'' (Some (sample_status ''APPLYING'')) sample_queued_db)"
  have st: "go_state (sample_status ''APPLYING'') = Some ''APPLYING''" by code_simp
  have pend: "dv_pending_op ?d = Some (jset ''generation'' (JNum 5) sample_plan)"
    by (simp add: queue_op_row_def) (simp add: sample_row_def)
  obtain d' where d': "devices ?r ''dev-1'' = Some d'"
    using op_reports.run_generations [OF sample_queued_db_row, of "''tenant_a''" "[(8, ''dev-1'', Some (sample_status ''APPLYING''))]"]
    by (auto simp: op_report_def)
  have gen: "jtext ''generation'' (jset ''generation'' (JNum 5) sample_plan) = Some ''5''" by code_simp
  from pending_operation_fenced [OF sample_queued_db_row pend gen _ d'] d' st
  show ?thesis by auto
qed

lemma settled_refuses:
  assumes "devices db i = Some d" "dv_pending_op d = None"
    "col_text ''state'' (dv_last_op d) = Some s" "op_terminal s" "Option.bind status go_state \<noteq> Some s"
  shows "\<exists>e. RecordDeviceOperationStatus schema now i status db = (Inl e, db)"
proof (cases rule: RecordDeviceOperationStatus_cases [of schema now i status db])
  case (applied ident j st e)
  with assms have False
    by (auto simp: op_pending_match_def op_last_match_def identity_match_def op_terminal_def col_str_def)
  then show ?thesis ..
qed blast

text \<open>
  COMMITTED and RESTORED are final: after the pending operation is settled, a report with any
  other state is refused and leaves the database as it was.
\<close>

theorem settled_operation_final:
  assumes "devices db i = Some d" "dv_pending_op d = None"
    "col_text ''state'' (dv_last_op d) = Some s" "s \<in> {''COMMITTED'', ''RESTORED''}"
    "Option.bind status go_state \<noteq> Some s"
  shows "\<exists>e. RecordDeviceOperationStatus schema now i status db = (Inl e, db)"
  using assms by (intro settled_refuses) (auto simp: op_terminal_def)

definition sample_settled_db :: tenant_db where
  "sample_settled_db =
     snd (RecordDeviceOperationStatus ''tenant_a'' 8 ''dev-1'' (Some (sample_status ''COMMITTED'')) sample_queued_db)"

lemma sample_settled_row:
  "\<exists>d. devices sample_settled_db ''dev-1'' = Some d \<and> dv_pending_op d = None
     \<and> col_text ''state'' (dv_last_op d) = Some ''COMMITTED'' \<and> dv_observed d = 5"
proof -
  let ?i = "\<lparr>oi_id = ''op-1'', oi_plan_hash = replicate 64 CHR ''a'', oi_generation = 0\<rparr>"
  have p: "parseOperationIdentity (Some (sample_status ''COMMITTED'')) True = Inr (?i\<lparr>oi_generation := 5\<rparr>)"
    by code_simp
  have st: "go_state (sample_status ''COMMITTED'') = Some ''COMMITTED''"
    "jtext ''state'' (sample_status ''COMMITTED'') = Some ''COMMITTED''" by code_simp+
  have m: "op_pending_match (?i\<lparr>oi_generation := 5\<rparr>) (queue_op_row 7 sample_plan ?i sample_row)"
    by code_simp
  have "isValidSchemaName ''tenant_a''" by code_simp
  with p st m show ?thesis
    by (simp add: sample_settled_db_def RecordDeviceOperationStatus_def sample_queued_db_row
        validDeviceOperationState_def)
      (simp add: record_op_row_def op_terminal_def Let_def queue_op_row_def sample_row_def)
qed

theorem settled_operation_final_witness:
  "\<exists>e. RecordDeviceOperationStatus ''tenant_a'' 9 ''dev-1'' (Some (sample_status ''ROLLING_BACK'')) sample_settled_db
     = (Inl e, sample_settled_db)"
proof -
  have "go_state (sample_status ''ROLLING_BACK'') = Some ''ROLLING_BACK''" by code_simp
  with sample_settled_row show ?thesis
    by (elim exE conjE, intro settled_operation_final) auto
qed

end
