(* ===== verification/Change_Set_Queue.thy ===== *)
theory Change_Set_Queue
  imports Device_Queue
begin

text \<open>
  The queue of device changesets, \<open>src/internal/database/device_change_sets.go\<close>: the second, stricter
  reader of changesets at the database boundary, queueing under the device, capability and rollout
  fences, and the status reports that drive a changeset through its states and, when they are final,
  the results of the rollout run that waits for it. The predicates on identifiers, namespaces and
  hashes are textual copies of those in the services package and are shared with it.
\<close>

record cs_identity =
  ci_id :: string
  ci_device :: string
  ci_hash :: string
  ci_generation :: int
  ci_has_gen :: bool

record cs_envelope =
  ce_id :: string
  ce_device :: string
  ce_hash :: string
  ce_generation :: "int option"
  ce_state :: string
  ce_failure :: string
  ce_policy :: string
  ce_operations :: "change_operation list"
  ce_health :: "string list option"

section \<open>Decoding\<close>

definition dec_command :: "json \<Rightarrow> uci_command option" where
  "dec_command j =
     Option.bind (go_obj j) (\<lambda>kvs.
     Option.bind (go_str ''action'' kvs) (\<lambda>a.
     Option.bind (go_str ''config'' kvs) (\<lambda>c.
     Option.bind (go_str ''section'' kvs) (\<lambda>s.
     Option.bind (go_str ''option'' kvs) (\<lambda>p.
     Option.bind (go_str ''value'' kvs) (\<lambda>v. Some (mk_uci a c s p v)))))))"

text \<open>A missing, null or empty list of commands is an empty list: the code only asks for its length.\<close>

definition dec_operation :: "json \<Rightarrow> change_operation option" where
  "dec_operation j =
     Option.bind (go_obj j) (\<lambda>kvs.
     Option.bind (go_str ''operation_id'' kvs) (\<lambda>i.
     Option.bind (go_str ''config'' kvs) (\<lambda>c.
     Option.bind (go_str ''observed_state_hash'' kvs) (\<lambda>h.
     Option.bind (go_slice dec_command ''commands'' kvs) (\<lambda>cmds.
       Some \<lparr>co_operation_id = i, co_config = c, co_commands = slice_elems cmds, co_observed_hash = h\<rparr>)))))"

definition dec_envelope :: "json \<Rightarrow> cs_envelope option" where
  "dec_envelope j =
     Option.bind (go_obj j) (\<lambda>kvs.
     Option.bind (go_str ''change_set_id'' kvs) (\<lambda>i.
     Option.bind (go_str ''device_id'' kvs) (\<lambda>d.
     Option.bind (go_str ''plan_hash'' kvs) (\<lambda>h.
     Option.bind (go_i64 ''generation'' kvs) (\<lambda>g.
     Option.bind (go_str ''state'' kvs) (\<lambda>st.
     Option.bind (go_str ''failure'' kvs) (\<lambda>f.
     Option.bind (go_str ''confirmation_policy'' kvs) (\<lambda>p.
     Option.bind (go_slice dec_operation ''operations'' kvs) (\<lambda>ops.
     Option.bind (go_slice elem_str ''health_checks'' kvs) (\<lambda>hc.
       Some \<lparr>ce_id = i, ce_device = d, ce_hash = h, ce_generation = g, ce_state = st, ce_failure = f,
             ce_policy = p, ce_operations = slice_elems ops, ce_health = hc\<rparr>))))))))))"

definition envelopePlanHash :: "cs_envelope \<Rightarrow> string" where
  "envelopePlanHash e =
     sha256_hex (json_enc False (change_set_content_json
       (map (\<lambda>p. content_operation_json (co_config p) (co_commands p) (co_observed_hash p))
          (ce_operations e))
       (ce_health e) (ce_policy e)))"

section \<open>Validation\<close>

definition validDeviceChangeSetHealthChecks :: "string list \<Rightarrow> bool" where
  "validDeviceChangeSetHealthChecks ts \<longleftrightarrow> list_all (\<lambda>t. parse_ip t \<noteq> None \<or> health_target_pattern t) ts"

definition validDeviceChangeSetCommand :: "uci_command \<Rightarrow> bool" where
  "validDeviceChangeSetCommand c \<longleftrightarrow>
     deviceChangeSetConfigAllowed (uc_config c)
     \<and> (if uc_action c \<in> {''set'', ''delete'', ''rename''}
        then valid_uci_section (uc_section c)
             \<and> (uc_option c = [] \<or> valid_uci_name (uc_option c))
             \<and> (uc_action c \<noteq> ''rename'' \<or> valid_uci_name (uc_value c))
        else if uc_action c \<in> {''add_list'', ''del_list''}
        then valid_uci_section (uc_section c) \<and> valid_uci_name (uc_option c)
        else if uc_action c = ''add'' then valid_uci_name (uc_value c)
        else False)"

definition validDeviceChangeSetState :: "string \<Rightarrow> bool" where
  "validDeviceChangeSetState s \<longleftrightarrow>
     s \<in> {''PREPARED'', ''APPLYING'', ''PENDING_CONFIRM'', ''ROLLING_BACK'', ''COMMITTED'', ''RESTORED'',
          ''RECOVERY_REQUIRED'', ''REJECTED''}"

fun check_envelope_operations :: "string set \<Rightarrow> change_operation list \<Rightarrow> bool" where
  "check_envelope_operations seen [] = True"
| "check_envelope_operations seen (p # ps) =
     (if \<not> validDeviceOperationID (co_operation_id p) \<or> \<not> deviceChangeSetConfigAllowed (co_config p)
         \<or> co_config p \<in> seen \<or> \<not> validDeviceOperationPlanHash (co_observed_hash p)
         \<or> co_commands p = []
      then False
      else check_envelope_operations (insert (co_config p) seen) ps)"

definition valueOrZero :: "int option \<Rightarrow> int" where
  "valueOrZero v = (case v of None \<Rightarrow> 0 | Some n \<Rightarrow> n)"

definition parseDeviceChangeSet :: "raw_message \<Rightarrow> bool \<Rightarrow> db_error + cs_identity" where
  "parseDeviceChangeSet raw status =
     (case Option.bind raw dec_envelope of
        None \<Rightarrow> Inl DbInvalidEnvelope
      | Some e \<Rightarrow>
          (if \<not> validDeviceChangeSetID (ce_id e) \<or> \<not> validDeviceChangeSetDeviceID (ce_device e)
              \<or> \<not> validDeviceOperationPlanHash (ce_hash e)
           then Inl DbInvalidIdentity
           else if ce_generation e \<noteq> None \<and> valueOrZero (ce_generation e) < 0
           then Inl DbInvalidGeneration
           else if status
           then (if ce_generation e = None \<or> valueOrZero (ce_generation e) \<le> 0
                    \<or> \<not> validDeviceChangeSetState (ce_state e)
                 then Inl DbInvalidStatus
                 else Inr \<lparr>ci_id = ce_id e, ci_device = ce_device e, ci_hash = ce_hash e,
                           ci_generation = valueOrZero (ce_generation e), ci_has_gen = True\<rparr>)
           else if ce_generation e = Some 0 then Inl DbInvalidGeneration
           else if ce_policy e \<noteq> ''local_auto'' \<or> ce_operations e = [] \<or> length (ce_operations e) > 8
           then Inl DbUnsupported
           else if \<not> check_envelope_operations {} (ce_operations e) then Inl DbUnsupported
           else if \<not> validDeviceChangeSetHealthChecks (slice_elems (ce_health e)) then Inl DbUnsupported
           else if \<not> list_all (\<lambda>p. list_all validDeviceChangeSetCommand (co_commands p)) (ce_operations e)
           then Inl DbUnsupported
           else if envelopePlanHash e \<noteq> ce_hash e then Inl DbHashMismatch
           else Inr \<lparr>ci_id = ce_id e, ci_device = ce_device e, ci_hash = ce_hash e,
                     ci_generation = valueOrZero (ce_generation e),
                     ci_has_gen = (ce_generation e \<noteq> None)\<rparr>))"

section \<open>Queueing\<close>

definition deviceChangeSetCapabilityContract :: json where
  "deviceChangeSetCapabilityContract =
     JObj [(''version'', JNum 2),
           (''namespaces'', JArr (map JStr [''system'', ''dhcp'', ''firewall'', ''dropbear'', ''sqm''])),
           (''max_operations'', JNum 8),
           (''confirmation_policies'', JArr [JStr ''local_auto''])]"

text \<open>
  \<open>COALESCE (capabilities->'device_change_set' = contract, false)\<close>. The statement also asks for
  \<open>@>\<close> the same document, which equality gives, and for a COALESCE that is never NULL.
\<close>

definition change_set_capable :: "device_row \<Rightarrow> bool" where
  "change_set_capable d =
     (case Option.bind (dv_capabilities d) (jfield ''device_change_set'') of
        None \<Rightarrow> False
      | Some c \<Rightarrow> jsonb_eq c deviceChangeSetCapabilityContract)"

text \<open>The constraints added when a rollout owns the request; \<open>rollout\<close> is empty without one.\<close>

definition owner_constraints :: "tenant_db \<Rightarrow> string \<Rightarrow> string \<Rightarrow> string \<Rightarrow> device_row \<Rightarrow> bool" where
  "owner_constraints db site role rollout d \<longleftrightarrow>
     rollout \<noteq> [] \<longrightarrow>
       map_option to_lower (dv_site d) = Some (to_lower site)
       \<and> list_ex (\<lambda>r. to_lower (rr_id r) = to_lower rollout \<and> Some (rr_site r) = dv_site d
             \<and> rr_status r = ''RUNNING'') (rollouts db)
       \<and> (case dv_role d of None \<Rightarrow> ''AP'' | Some x \<Rightarrow> x) = role"

definition other_rollout_active :: "tenant_db \<Rightarrow> int \<Rightarrow> string \<Rightarrow> device_row \<Rightarrow> bool" where
  "other_rollout_active db now rollout d \<longleftrightarrow>
     list_ex (\<lambda>r. fresh_running now (dv_site d) r
       \<and> (rollout \<noteq> [] \<longrightarrow> to_lower (rr_id r) \<noteq> to_lower rollout)) (rollouts db)"

definition queue_cs_guard ::
  "tenant_db \<Rightarrow> int \<Rightarrow> string \<Rightarrow> string \<Rightarrow> string \<Rightarrow> cs_identity \<Rightarrow> device_row \<Rightarrow> bool" where
  "queue_cs_guard db now site role rollout ident d \<longleftrightarrow>
     owner_constraints db site role rollout d
     \<and> change_set_capable d
     \<and> dv_pending_op d = None \<and> dv_pending_cs d = None
     \<and> col_str ''state'' (dv_last_op d) \<noteq> ''RECOVERY_REQUIRED''
     \<and> col_str ''state'' (dv_last_cs d) \<noteq> ''RECOVERY_REQUIRED''
     \<and> col_str ''change_set_id'' (dv_last_cs d) \<noteq> ci_id ident
     \<and> coalesce (dv_rollout_status d) \<noteq> ''RUNNING''
     \<and> \<not> other_rollout_active db now rollout d
     \<and> (ci_generation ident = 0 \<or> dv_desired d = ci_generation ident)"

definition queue_cs_row :: "int \<Rightarrow> json \<Rightarrow> cs_identity \<Rightarrow> device_row \<Rightarrow> device_row" where
  "queue_cs_row now j ident d =
     d\<lparr>dv_pending_cs :=
         Some (if ci_generation ident > 0 then j
               else jset ''generation'' (JNum (dv_desired d + 1)) j),
       dv_desired := (if ci_generation ident > 0 then dv_desired d else dv_desired d + 1),
       dv_rollout_status := Some ''QUEUED'',
       dv_rollout_at := Some now,
       dv_updated_at := now\<rparr>"

definition queue_cs_refusal :: "string \<Rightarrow> string \<Rightarrow> string \<Rightarrow> cs_identity \<Rightarrow> device_row \<Rightarrow> db_error + int" where
  "queue_cs_refusal site role rollout ident d =
     (case dv_site d of
        None \<Rightarrow> Inl DbFailure
      | Some actual \<Rightarrow>
          (let final =
             (if ci_has_gen ident \<and> dv_desired d \<noteq> ci_generation ident
              then Inl (DbGenerationConflict (dv_desired d) (ci_generation ident))
              else Inl DbNotQueued)
           in
           if rollout \<noteq> [] \<and> \<not> equal_fold actual site then Inl DbOtherSite
           else if rollout \<noteq> [] \<and> (case dv_role d of None \<Rightarrow> ''AP'' | Some x \<Rightarrow> x) \<noteq> role
           then Inl DbOtherRole
           else if \<not> change_set_capable d then Inl DbCapability
           else if (case non_null (dv_last_cs d) of
                      None \<Rightarrow> False | Some l \<Rightarrow> go_state l = Some ''RECOVERY_REQUIRED'')
           then Inl DbRecoveryRequired
           else
             (case non_null (dv_pending_cs d) of
                Some p \<Rightarrow>
                  (case parseDeviceChangeSet (Some p) False of
                     Inr pi \<Rightarrow>
                       if ci_id pi = ci_id ident
                       then (if ci_hash pi \<noteq> ci_hash ident then Inl DbDifferentPlan
                             else if ci_has_gen ident \<and> ci_generation pi \<noteq> ci_generation ident
                             then Inl (DbGenerationConflict (ci_generation pi) (ci_generation ident))
                             else Inr (ci_generation pi))
                       else Inl DbOtherPending
                   | Inl _ \<Rightarrow> Inl DbOtherPending)
              | None \<Rightarrow>
                  (case non_null (dv_last_cs d) of
                     None \<Rightarrow> final
                   | Some l \<Rightarrow>
                       (case parseDeviceChangeSet (Some l) True of
                          Inl _ \<Rightarrow> final
                        | Inr li \<Rightarrow>
                            if ci_id li = ci_id ident
                            then (if ci_hash li \<noteq> ci_hash ident then Inl DbDifferentPlan
                                  else if ci_has_gen ident \<and> ci_generation li \<noteq> ci_generation ident
                                  then Inl (DbGenerationConflict (ci_generation li) (ci_generation ident))
                                  else Inr (ci_generation li))
                            else final)))))"

definition queueDeviceChangeSet ::
  "string \<Rightarrow> int \<Rightarrow> string \<Rightarrow> string \<Rightarrow> string \<Rightarrow> raw_message \<Rightarrow> string \<Rightarrow> tenant_db
    \<Rightarrow> (db_error + int) \<times> tenant_db" where
  "queueDeviceChangeSet schema now site role deviceID cs rollout db =
     (case SafeSchemaIdent schema of
        Inl e \<Rightarrow> (Inl e, db)
      | Inr _ \<Rightarrow>
          (case parseDeviceChangeSet cs False of
             Inl e \<Rightarrow> (Inl e, db)
           | Inr ident \<Rightarrow>
               if \<not> equal_fold (ci_device ident) deviceID then (Inl DbOtherDevice, db)
               else
                 (case (devices db deviceID, cs) of
                    (Some d, Some j) \<Rightarrow>
                      if queue_cs_guard db now site role rollout ident d
                      then (if ci_generation ident = 0 \<and> dv_desired d \<ge> max_int64 then (Inl DbFailure, db)
                            else (Inr (dv_desired (queue_cs_row now j ident d)),
                                  update_device deviceID (queue_cs_row now j ident) db))
                      else (queue_cs_refusal site role rollout ident d, db)
                  | _ \<Rightarrow> (Inl DbDeviceNotFound, db))))"

definition QueueDeviceChangeSet ::
  "string \<Rightarrow> int \<Rightarrow> string \<Rightarrow> raw_message \<Rightarrow> tenant_db \<Rightarrow> (db_error + int) \<times> tenant_db" where
  "QueueDeviceChangeSet schema now deviceID cs db = queueDeviceChangeSet schema now [] [] deviceID cs [] db"

definition QueueDeviceChangeSetForRollout ::
  "string \<Rightarrow> int \<Rightarrow> string \<Rightarrow> string \<Rightarrow> string \<Rightarrow> raw_message \<Rightarrow> string \<Rightarrow> tenant_db
    \<Rightarrow> (db_error + int) \<times> tenant_db" where
  "QueueDeviceChangeSetForRollout schema now site role deviceID cs rollout db =
     queueDeviceChangeSet schema now site role deviceID cs rollout db"

definition GetPendingDeviceChangeSet :: "string \<Rightarrow> string \<Rightarrow> tenant_db \<Rightarrow> db_error + json option" where
  "GetPendingDeviceChangeSet schema deviceID db =
     andthen (SafeSchemaIdent schema) (\<lambda>_.
       Inr (case devices db deviceID of None \<Rightarrow> None | Some d \<Rightarrow> non_null (dv_pending_cs d)))"

definition GetLastDeviceChangeSet :: "string \<Rightarrow> string \<Rightarrow> tenant_db \<Rightarrow> db_error + json option" where
  "GetLastDeviceChangeSet schema deviceID db =
     andthen (SafeSchemaIdent schema) (\<lambda>_.
       Inr (case devices db deviceID of None \<Rightarrow> None | Some d \<Rightarrow> non_null (dv_last_cs d)))"

section \<open>Status reports\<close>

definition cs_terminal :: "string \<Rightarrow> bool" where
  "cs_terminal s \<longleftrightarrow> s \<in> {''COMMITTED'', ''RESTORED'', ''RECOVERY_REQUIRED'', ''REJECTED''}"

definition cs_match :: "string \<Rightarrow> cs_identity \<Rightarrow> json option \<Rightarrow> bool" where
  "cs_match deviceID ident col \<longleftrightarrow>
     col_text ''change_set_id'' col = Some (ci_id ident)
     \<and> col_text ''device_id'' col = Some deviceID
     \<and> col_text ''plan_hash'' col = Some (ci_hash ident)
     \<and> col_text ''generation'' col = Some (int_str (ci_generation ident))"

text \<open>The states a changeset may be in when a report with the given state arrives.\<close>

definition cs_predecessors :: "string \<Rightarrow> string list" where
  "cs_predecessors st =
     (if st = ''PREPARED'' then [[], ''PREPARED'']
      else if st = ''APPLYING'' then [''PREPARED'', ''APPLYING'']
      else if st = ''PENDING_CONFIRM'' then [''APPLYING'', ''PENDING_CONFIRM'']
      else if st = ''ROLLING_BACK'' then [''PREPARED'', ''APPLYING'', ''PENDING_CONFIRM'', ''ROLLING_BACK'']
      else if st = ''COMMITTED'' then [''APPLYING'', ''PENDING_CONFIRM'', ''COMMITTED'']
      else if st = ''RESTORED'' then [''ROLLING_BACK'', ''RESTORED'']
      else if st = ''RECOVERY_REQUIRED''
      then [''PREPARED'', ''APPLYING'', ''PENDING_CONFIRM'', ''ROLLING_BACK'', ''RECOVERY_REQUIRED'']
      else if st = ''REJECTED'' then [[], ''PREPARED'', ''APPLYING'', ''REJECTED'']
      else [])"

definition statusTransition :: "cs_identity \<Rightarrow> string \<Rightarrow> device_row \<Rightarrow> bool" where
  "statusTransition ident st d \<longleftrightarrow>
     col_str ''change_set_id'' (dv_last_cs d) \<noteq> ci_id ident
     \<or> col_str ''state'' (dv_last_cs d) \<in> set (cs_predecessors st)"

definition cs_pending_match :: "string \<Rightarrow> cs_identity \<Rightarrow> string \<Rightarrow> device_row \<Rightarrow> bool" where
  "cs_pending_match deviceID ident st d \<longleftrightarrow>
     dv_pending_op d = None \<and> cs_match deviceID ident (dv_pending_cs d) \<and> statusTransition ident st d"

definition cs_last_match :: "string \<Rightarrow> cs_identity \<Rightarrow> string \<Rightarrow> device_row \<Rightarrow> bool" where
  "cs_last_match deviceID ident st d \<longleftrightarrow>
     dv_pending_op d = None \<and> dv_pending_cs d = None \<and> cs_match deviceID ident (dv_last_cs d)
     \<and> (\<not> cs_terminal (col_str ''state'' (dv_last_cs d)) \<or> col_text ''state'' (dv_last_cs d) = Some st)
     \<and> statusTransition ident st d"

definition record_cs_row ::
  "int \<Rightarrow> json \<Rightarrow> string \<Rightarrow> cs_identity \<Rightarrow> string \<Rightarrow> device_row \<Rightarrow> device_row" where
  "record_cs_row now j deviceID ident st d =
     d\<lparr>dv_last_cs := Some j,
       dv_pending_cs := (if cs_terminal st \<and> cs_pending_match deviceID ident st d then None else dv_pending_cs d),
       dv_rollout_status :=
         (if coalesce (dv_rollout_status d) = ''RUNNING'' then dv_rollout_status d else Some st),
       dv_rollout_at := Some now,
       dv_health_at := (if cs_terminal st then Some now else dv_health_at d),
       dv_observed :=
         (if st = ''COMMITTED'' then max (dv_observed d) (ci_generation ident) else dv_observed d),
       dv_last_successful :=
         (if st = ''COMMITTED'' then max (dv_last_successful d) (ci_generation ident)
          else dv_last_successful d),
       dv_updated_at := now\<rparr>"

section \<open>Final reports and the rollout run\<close>

text \<open>\<open>result->>'device_id' = $2 AND result->>'change_set_id' = $3\<close>, in three-valued logic.\<close>

definition result_is :: "string \<Rightarrow> string \<Rightarrow> json \<Rightarrow> bool option" where
  "result_is deviceID changeSetID r =
     and3 (eq3 (jtext ''device_id'' r) (Some deviceID)) (eq3 (jtext ''change_set_id'' r) (Some changeSetID))"

definition result_state :: "json \<Rightarrow> string" where
  "result_state r = coalesce (jtext ''change_set_state'' r)"

definition results_mention :: "string \<Rightarrow> string \<Rightarrow> json \<Rightarrow> bool" where
  "results_mention deviceID changeSetID results \<longleftrightarrow>
     list_ex (\<lambda>r. jfield ''device_id'' r = Some (JStr deviceID)
       \<and> jfield ''change_set_id'' r = Some (JStr changeSetID)) (json_elems results)"

definition settle_result ::
  "string \<Rightarrow> cs_identity \<Rightarrow> string \<Rightarrow> string \<Rightarrow> json \<Rightarrow> json" where
  "settle_result deviceID ident st failure r =
     (if result_is deviceID (ci_id ident) r = Some True
      then jconcat
             (jconcat r (JObj [(''status'', JStr (if st = ''COMMITTED'' then ''SUCCESS'' else ''FAILED'')),
                               (''change_set_state'', JStr st), (''plan_hash'', JStr (ci_hash ident)),
                               (''device_generation'', JNum (ci_generation ident))]))
             (if failure \<noteq> [] then JObj [(''error'', JStr failure)] else JObj [])
      else r)"

definition settled_status :: "string \<Rightarrow> cs_identity \<Rightarrow> string \<Rightarrow> json list \<Rightarrow> string" where
  "settled_status deviceID ident st results =
     (if list_ex (\<lambda>r. not3 (result_is deviceID (ci_id ident) r) = Some True \<and> \<not> cs_terminal (result_state r)) results
      then ''QUEUED''
      else if list_ex (\<lambda>r. not3 (result_is deviceID (ci_id ident) r) = Some True
                \<and> result_state r \<noteq> ''COMMITTED'') results
      then ''failed''
      else if st = ''COMMITTED'' then ''completed'' else ''failed'')"

definition settle_rollout ::
  "int \<Rightarrow> string \<Rightarrow> string option \<Rightarrow> cs_identity \<Rightarrow> string \<Rightarrow> string \<Rightarrow> rollout_row \<Rightarrow> rollout_row" where
  "settle_rollout now deviceID site ident st failure r =
     (if rr_status r = ''QUEUED'' \<and> Some (rr_site r) = site
         \<and> results_mention deviceID (ci_id ident) (rr_results r)
      then r\<lparr>rr_status := settled_status deviceID ident st (json_elems (rr_results r)),
             rr_results := JArr (map (settle_result deviceID ident st failure) (json_elems (rr_results r))),
             rr_updated_at := now\<rparr>
      else r)"

definition RecordDeviceChangeSetStatus ::
  "string \<Rightarrow> int \<Rightarrow> string \<Rightarrow> raw_message \<Rightarrow> tenant_db \<Rightarrow> (db_error + unit) \<times> tenant_db" where
  "RecordDeviceChangeSetStatus schema now deviceID status db =
     (case SafeSchemaIdent schema of
        Inl e \<Rightarrow> (Inl e, db)
      | Inr _ \<Rightarrow>
          (case (parseDeviceChangeSet status True, status, Option.bind status dec_envelope) of
             (Inr ident, Some j, Some e) \<Rightarrow>
               if \<not> equal_fold (ci_device ident) deviceID then (Inl DbStatusNotApplied, db)
               else
                 (case devices db deviceID of
                    None \<Rightarrow> (Inl DbStatusNotApplied, db)
                  | Some d \<Rightarrow>
                      if \<not> (cs_pending_match deviceID ident (ce_state e) d
                            \<or> cs_last_match deviceID ident (ce_state e) d)
                      then (Inl DbStatusNotApplied, db)
                      else
                        (let db1 = update_device deviceID (record_cs_row now j deviceID ident (ce_state e)) db
                         in (Inr (),
                             if cs_terminal (ce_state e)
                             then update_rollouts
                                    (settle_rollout now deviceID (dv_site d) ident (ce_state e) (ce_failure e)) db1
                             else db1)))
           | _ \<Rightarrow> (Inl DbStatusNotApplied, db)))"

section \<open>Outcomes\<close>

lemma queue_cs_row_progress:
  "queue_cs_guard db now site role rollout ident d \<Longrightarrow> row_progress d (queue_cs_row now j ident d)"
  by (auto simp: queue_cs_guard_def queue_cs_row_def row_progress_def exclusive_def)

lemma queueDeviceChangeSet_outcome:
  "snd (queueDeviceChangeSet schema now site role i cs rollout db) = db \<or>
   (\<exists>ident j d. isValidSchemaName schema \<and> parseDeviceChangeSet cs False = Inr ident \<and> cs = Some j
      \<and> equal_fold (ci_device ident) i
      \<and> devices db i = Some d \<and> queue_cs_guard db now site role rollout ident d
      \<and> (ci_generation ident = 0 \<longrightarrow> dv_desired d < max_int64)
      \<and> queueDeviceChangeSet schema now site role i cs rollout db
         = (Inr (dv_desired (queue_cs_row now j ident d)), update_device i (queue_cs_row now j ident) db))"
  by (auto simp: queueDeviceChangeSet_def SafeSchemaIdent_def split: sum.split option.split)

lemma queueDeviceChangeSet_cases:
  obtains (refused) "snd (queueDeviceChangeSet schema now site role i cs rollout db) = db"
  | (queued) ident j d where "isValidSchemaName schema" "parseDeviceChangeSet cs False = Inr ident"
      "cs = Some j" "equal_fold (ci_device ident) i" "devices db i = Some d"
      "queue_cs_guard db now site role rollout ident d"
      "ci_generation ident = 0 \<longrightarrow> dv_desired d < max_int64"
      "queueDeviceChangeSet schema now site role i cs rollout db
         = (Inr (dv_desired (queue_cs_row now j ident d)), update_device i (queue_cs_row now j ident) db)"
  using queueDeviceChangeSet_outcome [of schema now site role i cs rollout db] by blast

lemma queueDeviceChangeSet_progress:
  "db_progress db (snd (queueDeviceChangeSet schema now site role i cs rollout db))"
proof (cases rule: queueDeviceChangeSet_cases [of schema now site role i cs rollout db])
  case (queued ident j d)
  then show ?thesis by (auto intro!: db_progress_update queue_cs_row_progress)
qed simp

lemma queueDeviceChangeSet_rollouts [simp]:
  "rollouts (snd (queueDeviceChangeSet schema now site role i cs rollout db)) = rollouts db"
  by (cases rule: queueDeviceChangeSet_cases [of schema now site role i cs rollout db]) simp_all

lemma record_cs_row_progress: "row_progress d (record_cs_row now j i ident st d)"
  by (auto simp: record_cs_row_def row_progress_def exclusive_def)

lemma RecordDeviceChangeSetStatus_outcome:
  "(\<exists>e. RecordDeviceChangeSetStatus schema now i status db = (Inl e, db)) \<or>
   (\<exists>ident j e d. parseDeviceChangeSet status True = Inr ident \<and> status = Some j
      \<and> dec_envelope j = Some e \<and> devices db i = Some d
      \<and> (cs_pending_match i ident (ce_state e) d \<or> cs_last_match i ident (ce_state e) d)
      \<and> RecordDeviceChangeSetStatus schema now i status db
         = (Inr (), if cs_terminal (ce_state e)
              then update_rollouts (settle_rollout now i (dv_site d) ident (ce_state e) (ce_failure e))
                     (update_device i (record_cs_row now j i ident (ce_state e)) db)
              else update_device i (record_cs_row now j i ident (ce_state e)) db))"
  by (auto simp: RecordDeviceChangeSetStatus_def Let_def split: sum.split option.split)

lemma RecordDeviceChangeSetStatus_cases:
  obtains (refused) e where "RecordDeviceChangeSetStatus schema now i status db = (Inl e, db)"
  | (applied) ident j e d where "parseDeviceChangeSet status True = Inr ident" "status = Some j"
      "dec_envelope j = Some e" "devices db i = Some d"
      "cs_pending_match i ident (ce_state e) d \<or> cs_last_match i ident (ce_state e) d"
      "RecordDeviceChangeSetStatus schema now i status db
         = (Inr (), if cs_terminal (ce_state e)
              then update_rollouts (settle_rollout now i (dv_site d) ident (ce_state e) (ce_failure e))
                     (update_device i (record_cs_row now j i ident (ce_state e)) db)
              else update_device i (record_cs_row now j i ident (ce_state e)) db)"
  using RecordDeviceChangeSetStatus_outcome [of schema now i status db] by blast

lemma db_progress_rollouts [simp]: "db_progress db (update_rollouts f db') \<longleftrightarrow> db_progress db db'"
  by (simp add: db_progress_def)

lemma RecordDeviceChangeSetStatus_progress:
  "db_progress db (snd (RecordDeviceChangeSetStatus schema now i status db))"
proof (cases rule: RecordDeviceChangeSetStatus_cases [of schema now i status db])
  case (applied ident j e d)
  then show ?thesis by (auto intro!: db_progress_update record_cs_row_progress)
qed simp

definition cs_request ::
  "string \<Rightarrow> int \<times> string \<times> string \<times> string \<times> raw_message \<times> string \<Rightarrow> tenant_db \<Rightarrow> tenant_db" where
  "cs_request schema req db =
     (let (now, site, role, i, cs, rollout) = req
      in snd (queueDeviceChangeSet schema now site role i cs rollout db))"

definition cs_report :: "string \<Rightarrow> int \<times> string \<times> raw_message \<Rightarrow> tenant_db \<Rightarrow> tenant_db" where
  "cs_report schema req db =
     (let (now, i, status) = req in snd (RecordDeviceChangeSetStatus schema now i status db))"

interpretation cs_queue: device_writer "cs_request schema" for schema
  by unfold_locales (auto simp: cs_request_def queueDeviceChangeSet_progress)

interpretation cs_reports: device_writer "cs_report schema" for schema
  by unfold_locales (auto simp: cs_report_def RecordDeviceChangeSetStatus_progress)

section \<open>The two readers agree\<close>

text \<open>
  The keys of the documents the services write. No two of them are equal up to case, so the
  decoder finds each field at its own key.
\<close>

definition doc_keys :: "string list" where
  "doc_keys =
     [''action'', ''config'', ''section'', ''option'', ''value'', ''operation_id'', ''commands'',
      ''observed_state_hash'', ''change_set_id'', ''device_id'', ''plan_hash'', ''generation'', ''operations'',
      ''health_checks'', ''confirmation_policy'', ''state'', ''failure'', ''id'']"

lemma doc_keys_inj: "inj_on go_fold (set doc_keys)"
proof -
  have "distinct (map go_fold doc_keys)" by code_simp
  then show ?thesis by (simp add: distinct_map)
qed

lemma go_entries_doc:
  "k \<in> set doc_keys \<Longrightarrow> name \<in> set doc_keys \<Longrightarrow>
     go_entries name ((k, v) # kvs) = (if k = name then v # go_entries name kvs else go_entries name kvs)"
  using doc_keys_inj by (auto simp: go_entries_Cons inj_on_def)

lemma doc_keys_mem:
  "''action'' \<in> set doc_keys" "''config'' \<in> set doc_keys" "''section'' \<in> set doc_keys"
  "''option'' \<in> set doc_keys" "''value'' \<in> set doc_keys" "''operation_id'' \<in> set doc_keys"
  "''commands'' \<in> set doc_keys" "''observed_state_hash'' \<in> set doc_keys" "''change_set_id'' \<in> set doc_keys"
  "''device_id'' \<in> set doc_keys" "''plan_hash'' \<in> set doc_keys" "''generation'' \<in> set doc_keys"
  "''operations'' \<in> set doc_keys" "''health_checks'' \<in> set doc_keys" "''confirmation_policy'' \<in> set doc_keys"
  "''state'' \<in> set doc_keys" "''failure'' \<in> set doc_keys" "''id'' \<in> set doc_keys"
  by (simp_all add: doc_keys_def)

lemmas doc_entries = go_entries_doc doc_keys_mem

lemma dec_command_json [simp]: "dec_command (command_json c) = Some c"
  by (simp add: dec_command_def command_json_def go_obj_def go_str_def doc_entries)

lemma all_some_dec:
  "(\<And>x. dec (enc x) = Some x) \<Longrightarrow> all_some (map (\<lambda>x. dec (enc x)) xs) = Some xs"
  by (induction xs) auto

lemma fold_slice_json:
  "(\<And>x. dec (enc x) = Some x) \<Longrightarrow> fold_slice dec cur [slice_json enc s] = Some s"
  by (cases s) (auto simp: slice_json_def all_some_dec comp_def)

lemma dec_operation_json [simp]: "dec_operation (operation_json p) = Some p"
proof -
  have "go_slice dec_command ''commands''
      [(''operation_id'', JStr (co_operation_id p)), (''config'', JStr (co_config p)),
       (''commands'', slice_json command_json (append_nil (co_commands p))),
       (''observed_state_hash'', JStr (co_observed_hash p))] = Some (append_nil (co_commands p))"
    by (simp add: go_slice_def doc_entries fold_slice_json)
  then show ?thesis
    by (simp add: dec_operation_def operation_json_def go_obj_def go_str_def doc_entries)
qed

lemma elem_str_JStr [simp]: "elem_str (JStr s) = Some s"
  by (simp add: elem_str_def)

definition envelope_of :: "change_set \<Rightarrow> cs_envelope" where
  "envelope_of cs =
     \<lparr>ce_id = cs_id cs, ce_device = cs_device_id cs, ce_hash = cs_plan_hash cs,
      ce_generation = (if cs_generation cs = 0 then None else Some (cs_generation cs)),
      ce_state = [], ce_failure = [], ce_policy = cs_policy cs, ce_operations = cs_operations cs,
      ce_health = (if slice_elems (cs_health_checks cs) = [] then None else cs_health_checks cs)\<rparr>"

lemma dec_envelope_json:
  assumes "in_int64 (cs_generation cs)"
  shows "dec_envelope (change_set_json cs) = Some (envelope_of cs)"
proof -
  have ops: "fold_slice dec_operation None [JArr (map operation_json (cs_operations cs))]
      = Some (Some (cs_operations cs))"
    using fold_slice_json [of dec_operation operation_json None "Some (cs_operations cs)"]
    by (simp add: slice_json_def)
  have hc: "fold_slice elem_str None [slice_json JStr (cs_health_checks cs)] = Some (cs_health_checks cs)"
    by (rule fold_slice_json) simp
  show ?thesis
    using assms ops hc
    by (cases "cs_generation cs = 0"; cases "slice_elems (cs_health_checks cs) = []")
      (simp_all add: dec_envelope_def change_set_json_def envelope_of_def go_obj_def go_str_def
        go_i64_def go_slice_def doc_entries)
qed

lemma check_envelope_operations_ok:
  "check_envelope_operations seen ps \<longleftrightarrow>
     distinct (map co_config ps) \<and> set (map co_config ps) \<inter> seen = {}
     \<and> list_all (\<lambda>p. validDeviceOperationID (co_operation_id p) \<and> deviceChangeSetConfigAllowed (co_config p)
          \<and> validDeviceOperationPlanHash (co_observed_hash p) \<and> co_commands p \<noteq> []) ps"
  by (induction ps arbitrary: seen) auto

text \<open>The actions the database boundary knows.\<close>

definition db_action :: "uci_command \<Rightarrow> bool" where
  "db_action c \<longleftrightarrow> uc_action c \<noteq> ''ensure_host'' \<and> uc_action c \<noteq> ''delete_all''"

lemma command_grammars:
  assumes "check_op_command config c = None" "deviceChangeSetConfigAllowed config"
  shows "validDeviceChangeSetCommand c \<longleftrightarrow> db_action c"
proof -
  have cfg: "deviceChangeSetConfigAllowed (uc_config c)" and tr: "translateCommand c \<noteq> []"
    using check_op_command_accepts [OF assms(1)] assms(2) by auto
  note line = SetOption_def DeleteOption_def Delete_def AddList_def DelList_def AddAnonymousSection_def Rename_def
  have "uc_action c \<in> {''set'', ''delete'', ''add_list'', ''del_list'', ''add'', ''rename'',
      ''ensure_host'', ''delete_all''}"
    using assms(1) by (simp add: check_op_command_def Let_def split: if_splits) blast+
  then consider "uc_action c = ''set''" | "uc_action c = ''delete''" | "uc_action c = ''add_list''"
    | "uc_action c = ''del_list''" | "uc_action c = ''add''" | "uc_action c = ''rename''"
    | "uc_action c = ''ensure_host'' \<or> uc_action c = ''delete_all''"
    by blast
  then show ?thesis
    using cfg tr
    by cases (auto simp only: validDeviceChangeSetCommand_def db_action_def translateCommand_def Let_def line
        simp_thms if_True if_False insert_iff empty_iff list.inject char.inject list.distinct split: if_splits)
qed

lemma validated_commands:
  assumes "ValidateDeviceChangeSet cs = Inr ()"
  shows "list_all (\<lambda>p. list_all validDeviceChangeSetCommand (co_commands p)) (cs_operations cs)
     \<longleftrightarrow> list_all (\<lambda>p. list_all db_action (co_commands p)) (cs_operations cs)"
proof -
  have "validDeviceChangeSetCommand c \<longleftrightarrow> db_action c"
    if "p \<in> set (cs_operations cs)" "c \<in> set (co_commands p)" for p c
    using that assms command_grammars [of "co_config p" c]
    by (auto simp: ValidateDeviceChangeSet_ok check_cs_operations_ok ValidateDeviceOperation_ok list_all_iff)
  then show ?thesis by (auto simp: list_all_iff)
qed

lemma envelope_hash:
  "cs_health_checks cs \<noteq> Some [] \<Longrightarrow> envelopePlanHash (envelope_of cs) = deviceChangeSetPlanHash cs"
  by (cases "cs_health_checks cs")
    (auto simp: envelopePlanHash_def envelope_of_def deviceChangeSetPlanHash_def)

lemma validated_envelope:
  assumes "ValidateDeviceChangeSet cs = Inr ()"
  shows "check_envelope_operations {} (cs_operations cs)"
    and "validDeviceChangeSetHealthChecks (slice_elems (ce_health (envelope_of cs)))"
  using assms
  by (auto simp: ValidateDeviceChangeSet_ok check_cs_operations_ok check_envelope_operations_ok
      ValidateDeviceOperation_ok validDeviceChangeSetHealthChecks_def valid_health_target_def
      envelope_of_def list_all_iff)

lemma parse_validated:
  assumes "ValidateDeviceChangeSet cs = Inr ()" "cs_health_checks cs \<noteq> Some []" "in_int64 (cs_generation cs)"
  shows "parseDeviceChangeSet (Some (change_set_json cs)) False =
     (if list_all (\<lambda>p. list_all db_action (co_commands p)) (cs_operations cs)
      then Inr \<lparr>ci_id = cs_id cs, ci_device = cs_device_id cs, ci_hash = cs_plan_hash cs,
                ci_generation = cs_generation cs, ci_has_gen = (cs_generation cs \<noteq> 0)\<rparr>
      else Inl DbUnsupported)"
proof -
  note ok = assms(1) [unfolded ValidateDeviceChangeSet_ok ConfirmationLocalAuto_def]
  show ?thesis
    using ok validated_envelope [OF assms(1)] envelope_hash [OF assms(2)] validated_commands [OF assms(1)]
    by (simp add: parseDeviceChangeSet_def dec_envelope_json [OF assms(3)] valueOrZero_def)
      (auto simp: envelope_of_def)
qed


lemma rollout_change_set_Inr:
  assumes "NewDeviceChangeSetForRolloutOperations rollout i ops hc policy = Inr cs"
  shows "ValidateDeviceChangeSet cs = Inr ()" "cs_health_checks cs \<noteq> Some []" "cs_generation cs = 0"
    "cs_device_id cs = i" "map co_commands (cs_operations cs) = map co_commands ops"
  using assms [unfolded NewDeviceChangeSetForRolloutOperations_def Let_def, THEN seal_change_set_Inr]
  by (auto simp: append_nil_def split_def comp_def map_snd_enumerate
      simp flip: map_map [of co_commands snd, unfolded comp_def])

text \<open>
  C12. The two validators agree: a changeset the services build for a rollout, encoded and sent to
  the queue, is decoded there to its own identity, device and hash with no generation, if its
  commands use only the actions the database boundary knows. Otherwise it is refused as unsupported.
\<close>

theorem change_set_roundtrip:
  assumes "NewDeviceChangeSetForRolloutOperations rollout i ops hc policy = Inr cs"
  shows "parseDeviceChangeSet (Some (change_set_json cs)) False =
     (if list_all (\<lambda>p. list_all db_action (co_commands p)) ops
      then Inr \<lparr>ci_id = cs_id cs, ci_device = i, ci_hash = cs_plan_hash cs,
                ci_generation = 0, ci_has_gen = False\<rparr>
      else Inl DbUnsupported)"
proof -
  note cs = rollout_change_set_Inr [OF assms]
  have "list_all (\<lambda>p. list_all db_action (co_commands p)) xs
      \<longleftrightarrow> list_all (list_all db_action) (map co_commands xs)" for xs :: "change_operation list"
    by (simp add: list_all_iff)
  with parse_validated [OF cs(1,2)] cs(3-5) show ?thesis
    by (simp add: in_int64_def max_int64_def min_int64_def)
qed

theorem change_set_roundtrip_witness:
  "\<exists>cs. NewDeviceChangeSetForRolloutOperations ''r-1'' ''dev-1'' [sample_operation sample_set] [] ''local_auto'' = Inr cs
     \<and> parseDeviceChangeSet (Some (change_set_json cs)) False
         = Inr \<lparr>ci_id = cs_id cs, ci_device = ''dev-1'', ci_hash = cs_plan_hash cs, ci_generation = 0, ci_has_gen = False\<rparr>"
proof -
  obtain cs where cs: "NewDeviceChangeSetForRolloutOperations ''r-1'' ''dev-1'' [sample_operation sample_set] []
      ''local_auto'' = Inr cs"
    using sample_change_set(1) by blast
  from change_set_roundtrip [OF cs] cs show ?thesis
    by (simp add: sample_operation_def db_action_def)
qed

text \<open>
  The services and the database disagree on two actions: a changeset with a static lease
  (\<open>ensure_host\<close>) or a cleared section list (\<open>delete_all\<close>) is built and validated by the services,
  but the queue refuses it for every device and owner and stores nothing.
\<close>

theorem unsupported_actions_refused:
  assumes "NewDeviceChangeSetForRolloutOperations rollout i ops hc policy = Inr cs"
    "p \<in> set ops" "c \<in> set (co_commands p)" "uc_action c \<in> {''ensure_host'', ''delete_all''}"
  shows "\<exists>e. queueDeviceChangeSet schema now site role deviceID (Some (change_set_json cs)) owner db = (Inl e, db)"
proof -
  note cs = rollout_change_set_Inr [OF assms(1)]
  have "\<not> list_all (list_all db_action) (map co_commands ops)"
    using assms(2-4) by (auto simp: list_all_iff db_action_def)
  then have "\<not> list_all (\<lambda>p. list_all db_action (co_commands p)) (cs_operations cs)"
    unfolding cs(5) [symmetric] by (simp add: list_all_iff)
  with parse_validated [OF cs(1,2)] cs(3)
  have "parseDeviceChangeSet (Some (change_set_json cs)) False = Inl DbUnsupported"
    by (simp add: in_int64_def max_int64_def min_int64_def)
  then show ?thesis
    by (simp add: queueDeviceChangeSet_def split: sum.split)
qed

theorem unsupported_actions_refused_witness:
  "\<exists>cs e. NewDeviceChangeSetForRolloutOperations ''r-1'' ''dev-1'' [sample_operation sample_lease] [] ''local_auto'' = Inr cs
     \<and> queueDeviceChangeSet ''tenant_a'' 5 [] [] ''dev-1'' (Some (change_set_json cs)) [] sample_db = (Inl e, sample_db)"
proof -
  obtain cs where cs: "NewDeviceChangeSetForRolloutOperations ''r-1'' ''dev-1'' [sample_operation sample_lease] []
      ''local_auto'' = Inr cs"
    using sample_change_set(2) by blast
  from unsupported_actions_refused [OF cs, of "sample_operation sample_lease" sample_lease] cs show ?thesis
    by (simp add: sample_operation_def)
qed

section \<open>Retried changesets\<close>

lemma to_lower_fixed:
  assumes "128 \<le> (of_char d :: nat)"
  shows "to_lower_char c = d \<longleftrightarrow> c = d"
proof (cases "is_upper c")
  case True
  then have "of_char c \<le> (90 :: nat)" by (auto simp: is_upper_def less_eq_char_def)
  with assms True show ?thesis by (auto simp: to_lower_char_def)
qed (simp add: to_lower_char_def)

lemma go_fold_lower: "go_fold (to_lower s) = go_fold s"
proof (induction s rule: go_fold.induct)
  case (2 c cs)
  have fixed: "to_lower_char x = CHR 0xC5 \<longleftrightarrow> x = CHR 0xC5" "to_lower_char x = CHR 0xBF \<longleftrightarrow> x = CHR 0xBF"
    "to_lower_char x = CHR 0xE2 \<longleftrightarrow> x = CHR 0xE2" "to_lower_char x = CHR 0x84 \<longleftrightarrow> x = CHR 0x84"
    "to_lower_char x = CHR 0xAA \<longleftrightarrow> x = CHR 0xAA" for x
    by (rule to_lower_fixed; simp)+
  show ?case
  proof (cases cs)
    case Nil
    then show ?thesis by (simp add: to_lower_def to_lower_idem_char)
  next
    case (Cons d ds)
    with 2 show ?thesis
      by (cases ds) (auto simp: to_lower_def to_lower_idem_char fixed)
  qed
qed (simp add: to_lower_def)

lemma lower_equal_fold: "to_lower a = to_lower b \<Longrightarrow> equal_fold a b"
  by (metis equal_fold_def go_fold_lower)

lemma go_slice_jset:
  assumes "go_fold name \<noteq> go_fold k"
  shows "go_slice dec name (filter (\<lambda>(x, _). x \<noteq> k) kvs @ [(k, v)]) = go_slice dec name kvs"
proof -
  from assms have "go_entries name [(k, v)] = []" by (auto simp: go_entries_Cons)
  then show ?thesis by (simp add: go_slice_def go_entries_append go_entries_filter_other [OF assms])
qed

lemma envelope_folds:
  "go_fold ''change_set_id'' \<noteq> go_fold ''generation''" "go_fold ''device_id'' \<noteq> go_fold ''generation''"
  "go_fold ''state'' \<noteq> go_fold ''generation''" "go_fold ''failure'' \<noteq> go_fold ''generation''"
  "go_fold ''confirmation_policy'' \<noteq> go_fold ''generation''"
  "go_fold ''operations'' \<noteq> go_fold ''generation''" "go_fold ''health_checks'' \<noteq> go_fold ''generation''"
  by code_simp+

lemma dec_envelope_obj:
  assumes "dec_envelope j = Some e" "ce_id e \<noteq> []"
  shows "\<exists>kvs. j = JObj kvs"
proof -
  from assms(1) obtain kvs where "go_obj j = Some kvs" "go_str ''change_set_id'' kvs = Some (ce_id e)"
    by (auto simp: dec_envelope_def bind_eq_Some_conv)
  with assms(2) show ?thesis
    by (cases j) (auto simp: go_obj_def go_str_def)
qed

lemma dec_envelope_jset:
  assumes "dec_envelope (JObj kvs) = Some e" "in_int64 n"
  shows "dec_envelope (jset ''generation'' (JNum n) (JObj kvs)) = Some (e\<lparr>ce_generation := Some n\<rparr>)"
proof -
  from assms(1) have "go_i64 ''generation'' kvs \<noteq> None"
    by (auto simp: dec_envelope_def go_obj_def bind_eq_Some_conv)
  note jset = go_i64_jset [OF this assms(2)] go_str_jset [OF envelope_folds(1)] go_str_jset [OF envelope_folds(2)]
    go_str_jset [OF generation_folds(3)] go_str_jset [OF envelope_folds(3)] go_str_jset [OF envelope_folds(4)]
    go_str_jset [OF envelope_folds(5)] go_slice_jset [OF envelope_folds(6)] go_slice_jset [OF envelope_folds(7)]
  from assms(1) show ?thesis
    by (auto simp: dec_envelope_def go_obj_def jset_def jset bind_eq_Some_conv)
qed

lemma parse_cs_Inr:
  assumes "parseDeviceChangeSet (Some j) status = Inr ident"
  shows "\<exists>e kvs. dec_envelope j = Some e \<and> j = JObj kvs \<and> ci_id ident = ce_id e \<and> ci_device ident = ce_device e
     \<and> ci_hash ident = ce_hash e \<and> ci_generation ident = valueOrZero (ce_generation e)
     \<and> ci_has_gen ident = (ce_generation e \<noteq> None) \<and> 0 \<le> ci_generation ident
     \<and> (ci_has_gen ident \<longleftrightarrow> 0 < ci_generation ident)"
proof -
  from assms obtain e where e: "dec_envelope j = Some e"
    by (auto simp: parseDeviceChangeSet_def split: option.splits)
  with assms have "ce_id e \<noteq> []"
    by (auto simp: parseDeviceChangeSet_def validDeviceChangeSetID_def validDeviceOperationID_def split: if_splits)
  from dec_envelope_obj [OF e this] e assms show ?thesis
    by (auto simp: parseDeviceChangeSet_def valueOrZero_def split: if_splits option.splits)
qed

lemma parse_cs_reserved:
  assumes "parseDeviceChangeSet (Some j) False = Inr ident" "0 < n" "in_int64 n"
  shows "parseDeviceChangeSet (Some (jset ''generation'' (JNum n) j)) False
     = Inr (ident\<lparr>ci_generation := n, ci_has_gen := True\<rparr>)"
proof -
  obtain e kvs where e: "dec_envelope j = Some e" and j: "j = JObj kvs"
    using parse_cs_Inr [OF assms(1)] by blast
  have hash: "envelopePlanHash (e\<lparr>ce_generation := Some n\<rparr>) = envelopePlanHash e"
    by (simp add: envelopePlanHash_def)
  from e assms dec_envelope_jset [OF e [unfolded j] assms(3)] show ?thesis
    by (auto simp: parseDeviceChangeSet_def valueOrZero_def hash j split: if_splits)
qed

lemma queued_cs_parse:
  assumes "parseDeviceChangeSet (Some j) False = Inr ident" "queue_cs_guard db now site role rollout ident d"
    "0 \<le> dv_desired d" "ci_generation ident = 0 \<longrightarrow> dv_desired d < max_int64"
  shows "\<exists>q pi. dv_pending_cs (queue_cs_row now j ident d) = Some q \<and> q \<noteq> JNull
     \<and> parseDeviceChangeSet (Some q) False = Inr pi
     \<and> ci_id pi = ci_id ident \<and> ci_hash pi = ci_hash ident
     \<and> ci_generation pi = dv_desired (queue_cs_row now j ident d)
     \<and> (ci_has_gen ident \<longrightarrow> ci_generation pi = ci_generation ident)"
proof -
  obtain kvs where j: "j = JObj kvs" and gen: "0 \<le> ci_generation ident" "ci_has_gen ident \<longleftrightarrow> 0 < ci_generation ident"
    using parse_cs_Inr [OF assms(1)] by blast
  show ?thesis
  proof (cases "ci_generation ident > 0")
    case True
    with assms(1,2) show ?thesis by (auto simp: queue_cs_row_def queue_cs_guard_def j)
  next
    case False
    with assms(3,4) gen have "in_int64 (dv_desired d + 1)"
      by (simp add: in_int64_def max_int64_def min_int64_def)
    from parse_cs_reserved [OF assms(1) _ this] assms(3) False gen show ?thesis
      by (simp add: queue_cs_row_def j) (simp add: jset_def)
  qed
qed

text \<open>
  Queueing a changeset is idempotent: once it is queued, the same request repeated at any later
  time returns the generation reserved for it and changes nothing, for requests of an operator and
  of a rollout alike.
\<close>

theorem queueDeviceChangeSet_retry:
  assumes "queueDeviceChangeSet schema now site role i (Some j) rollout db = (Inr g, db')" "db' \<noteq> db"
    "devices db i = Some d" "0 \<le> dv_desired d" "dv_site d = Some actual"
    "Option.bind (dv_last_cs d) go_state \<noteq> Some ''RECOVERY_REQUIRED''"
  shows "queueDeviceChangeSet schema later site role i (Some j) rollout db' = (Inr g, db')"
proof (cases rule: queueDeviceChangeSet_cases [of schema now site role i "Some j" rollout db])
  case refused
  with assms show ?thesis by simp
next
  case (queued ident q e)
  then have q: "q = j" "e = d" using assms by auto
  note queued = queued [unfolded q]
  define r where "r = queue_cs_row now j ident d"
  obtain s pi where s: "dv_pending_cs r = Some s" "s \<noteq> JNull" "parseDeviceChangeSet (Some s) False = Inr pi"
      "ci_id pi = ci_id ident" "ci_hash pi = ci_hash ident" "ci_generation pi = dv_desired r"
      "ci_has_gen ident \<longrightarrow> ci_generation pi = ci_generation ident"
    using queued_cs_parse [OF queued(2) queued(6) assms(4) queued(7)] by (auto simp: r_def)
  have res: "g = dv_desired r" "db' = update_device i (queue_cs_row now j ident) db"
    using assms(1) queued(8) by (auto simp: r_def)
  have row: "devices db' i = Some r" using res assms(3) by (simp add: r_def)
  have "\<not> queue_cs_guard db' later site role rollout ident r" using s(1) by (simp add: queue_cs_guard_def)
  moreover have same: "dv_site r = dv_site d" "dv_role r = dv_role d" "dv_last_cs r = dv_last_cs d"
      "change_set_capable r = change_set_capable d"
    by (simp_all add: r_def queue_cs_row_def change_set_capable_def)
  have "rollout \<noteq> [] \<longrightarrow> equal_fold actual site"
    using queued(6) assms(5) by (auto simp: queue_cs_guard_def owner_constraints_def intro: lower_equal_fold)
  then have "queue_cs_refusal site role rollout ident r = Inr g"
    using s res same assms(5,6) queued(6)
    by (auto simp: queue_cs_refusal_def non_null_def queue_cs_guard_def owner_constraints_def Let_def
        split: option.splits)
  ultimately show ?thesis using queued(1,2,4) row by (simp add: queueDeviceChangeSet_def)
qed

section \<open>A device that can take changesets\<close>

definition sample_cs_row :: device_row where
  "sample_cs_row =
     sample_row\<lparr>dv_capabilities := Some (JObj [(''device_change_set'', deviceChangeSetCapabilityContract)])\<rparr>"

definition sample_cs_db :: tenant_db where
  "sample_cs_db = sample_db\<lparr>devices := [''dev-1'' \<mapsto> sample_cs_row]\<rparr>"

lemma sample_cs_db_row [simp]: "devices sample_cs_db ''dev-1'' = Some sample_cs_row"
  by (simp add: sample_cs_db_def)

lemma sample_cs_guard:
  "ci_id ident \<noteq> [] \<Longrightarrow> ci_generation ident = 0 \<Longrightarrow> queue_cs_guard sample_cs_db now [] [] [] ident sample_cs_row"
  by (simp add: queue_cs_guard_def owner_constraints_def other_rollout_active_def sample_cs_db_def sample_db_def
      sample_cs_row_def sample_row_def change_set_capable_def jsonb_eq_def col_str_def jfield_def)

lemma sample_cs_parse:
  assumes "NewDeviceChangeSetForRolloutOperations rollout i [sample_operation sample_set] [] ''local_auto'' = Inr cs"
  shows "parseDeviceChangeSet (Some (change_set_json cs)) False =
     Inr \<lparr>ci_id = cs_id cs, ci_device = i, ci_hash = cs_plan_hash cs, ci_generation = 0, ci_has_gen = False\<rparr>"
proof -
  note cs = rollout_change_set_Inr [OF assms]
  have "map co_commands (cs_operations cs) = [[sample_set]]"
    using cs(5) by (simp add: sample_operation_def)
  then have "list_all (list_all db_action) (map co_commands (cs_operations cs))"
    by (simp add: db_action_def)
  then have act: "list_all (\<lambda>p. list_all db_action (co_commands p)) (cs_operations cs)"
    by (simp add: list_all_iff)
  show ?thesis
    using parse_validated [OF cs(1,2)] cs(3,4) act by (simp add: in_int64_def max_int64_def min_int64_def)
qed

lemma sample_cs_queued:
  assumes "NewDeviceChangeSetForRolloutOperations rollout i [sample_operation sample_set] [] ''local_auto'' = Inr cs"
    "equal_fold i ''dev-1''"
  shows "\<exists>db'. queueDeviceChangeSet ''tenant_a'' 7 [] [] ''dev-1'' (Some (change_set_json cs)) [] sample_cs_db = (Inr 5, db')
     \<and> db' \<noteq> sample_cs_db
     \<and> (\<exists>d. devices db' ''dev-1'' = Some d \<and> dv_pending_cs d = Some (jset ''generation'' (JNum 5) (change_set_json cs)))"
proof -
  note cs = rollout_change_set_Inr [OF assms(1)]
  let ?i = "\<lparr>ci_id = cs_id cs, ci_device = i, ci_hash = cs_plan_hash cs, ci_generation = 0, ci_has_gen = False\<rparr>"
  note parse = sample_cs_parse [OF assms(1)]
  have "cs_id cs \<noteq> []"
    using cs(1) by (auto simp: ValidateDeviceChangeSet_ok validDeviceChangeSetID_def validDeviceOperationID_def)
  then have guard: "queue_cs_guard sample_cs_db 7 [] [] [] ?i sample_cs_row"
    by (intro sample_cs_guard) simp_all
  have desired: "dv_desired sample_cs_row = 4" "dv_pending_cs sample_cs_row = None"
    by (simp_all add: sample_cs_row_def sample_row_def)
  let ?row = "queue_cs_row 7 (change_set_json cs) ?i"
  let ?db = "update_device ''dev-1'' ?row sample_cs_db"
  have row: "devices ?db ''dev-1'' = Some (?row sample_cs_row)" by simp
  moreover have "dv_pending_cs (?row sample_cs_row) = Some (jset ''generation'' (JNum 5) (change_set_json cs))"
    "dv_desired (?row sample_cs_row) = 5"
    by (simp_all add: queue_cs_row_def desired)
  moreover from calculation have "?db \<noteq> sample_cs_db"
    using desired sample_cs_db_row by (metis option.sel option.distinct(1))
  moreover have "isValidSchemaName ''tenant_a''" by code_simp
  ultimately show ?thesis
    using parse guard assms(2) desired(1)
    by (simp add: queueDeviceChangeSet_def max_int64_def)
qed

theorem queueDeviceChangeSet_retry_witness:
  "\<exists>cs db'. queueDeviceChangeSet ''tenant_a'' 7 [] [] ''dev-1'' (Some (change_set_json cs)) [] sample_cs_db = (Inr 5, db')
     \<and> queueDeviceChangeSet ''tenant_a'' 99 [] [] ''dev-1'' (Some (change_set_json cs)) [] db' = (Inr 5, db')"
proof -
  obtain cs where "NewDeviceChangeSetForRolloutOperations ''r-1'' ''dev-1'' [sample_operation sample_set] []
      ''local_auto'' = Inr cs"
    using sample_change_set(1) by blast
  from sample_cs_queued [OF this] obtain db' where
    db': "queueDeviceChangeSet ''tenant_a'' 7 [] [] ''dev-1'' (Some (change_set_json cs)) [] sample_cs_db = (Inr 5, db')"
    "db' \<noteq> sample_cs_db" by auto
  have "queueDeviceChangeSet ''tenant_a'' 99 [] [] ''dev-1'' (Some (change_set_json cs)) [] db' = (Inr 5, db')"
    by (rule queueDeviceChangeSet_retry [OF db' sample_cs_db_row])
      (simp_all add: sample_cs_row_def sample_row_def)
  with db' show ?thesis by blast
qed

section \<open>Fencing of changeset reports\<close>

lemma record_cs_unchanged:
  "\<not> (cs_terminal st \<and> cs_pending_match i ident st d) \<Longrightarrow>
     dv_pending_cs (record_cs_row now j i ident st d) = dv_pending_cs d"
  "st \<noteq> ''COMMITTED'' \<Longrightarrow> dv_observed (record_cs_row now j i ident st d) = dv_observed d"
  by (auto simp: record_cs_row_def)

lemma report_row:
  assumes "devices db k = Some d"
  shows "\<exists>d'. devices (snd (RecordDeviceChangeSetStatus schema now i status db)) k = Some d' \<and>
     (d' = d \<or> (\<exists>ident j e. i = k \<and> status = Some j \<and> parseDeviceChangeSet status True = Inr ident
        \<and> dec_envelope j = Some e
        \<and> (cs_pending_match i ident (ce_state e) d \<or> cs_last_match i ident (ce_state e) d)
        \<and> d' = record_cs_row now j i ident (ce_state e) d))"
proof (cases rule: RecordDeviceChangeSetStatus_cases [of schema now i status db])
  case (refused e)
  with assms show ?thesis by simp
next
  case (applied ident j e d0)
  show ?thesis
  proof (cases "i = k")
    case True
    with applied assms show ?thesis by auto
  next
    case False
    with applied(6) assms show ?thesis by auto
  qed
qed

lemma pending_kept:
  assumes "devices db k = Some d" "dv_pending_cs d = Some p"
  shows "\<exists>d'. devices (snd (RecordDeviceChangeSetStatus schema now i status db)) k = Some d' \<and>
     (dv_pending_cs d' = Some p \<or>
       (\<exists>ident e. i = k \<and> parseDeviceChangeSet status True = Inr ident \<and> Option.bind status dec_envelope = Some e
          \<and> cs_terminal (ce_state e) \<and> cs_match i ident (Some p)))
     \<and> (dv_observed d' = dv_observed d \<or> map_option ce_state (Option.bind status dec_envelope) = Some ''COMMITTED'')"
proof -
  obtain d' where d': "devices (snd (RecordDeviceChangeSetStatus schema now i status db)) k = Some d'"
    and cases: "d' = d \<or> (\<exists>ident j e. i = k \<and> status = Some j \<and> parseDeviceChangeSet status True = Inr ident
        \<and> dec_envelope j = Some e \<and> d' = record_cs_row now j i ident (ce_state e) d)"
    using report_row [OF assms(1), of schema now i status] by blast
  from cases show ?thesis
  proof (elim disjE exE conjE)
    assume "d' = d"
    with d' assms show ?thesis by auto
  next
    fix ident j e
    assume *: "i = k" "status = Some j" "parseDeviceChangeSet status True = Inr ident"
      "dec_envelope j = Some e" "d' = record_cs_row now j i ident (ce_state e) d"
    have "dv_pending_cs d' = Some p \<or> cs_terminal (ce_state e) \<and> cs_pending_match i ident (ce_state e) d"
      using record_cs_unchanged(1) assms(2) *(5) by metis
    moreover have "dv_observed d' = dv_observed d \<or> ce_state e = ''COMMITTED''"
      using record_cs_unchanged(2) *(5) by metis
    ultimately show ?thesis
      using * d' assms(2) by (auto simp: cs_pending_match_def)
  qed
qed

text \<open>
  A report clears the pending changeset only if it is final and carries the changeset's id,
  device, plan hash and generation; any other report, accepted or refused, leaves it in place. Only
  a COMMITTED report moves the observed generation.
\<close>

theorem pending_change_set_fenced:
  assumes "devices db k = Some d" "dv_pending_cs d = Some p"
  shows "\<exists>d'. devices (snd (RecordDeviceChangeSetStatus schema now i status db)) k = Some d' \<and>
     (dv_pending_cs d' = Some p \<or>
       (\<exists>ident e. i = k \<and> parseDeviceChangeSet status True = Inr ident \<and> Option.bind status dec_envelope = Some e
          \<and> ce_state e \<in> {''COMMITTED'', ''RESTORED'', ''RECOVERY_REQUIRED'', ''REJECTED''}
          \<and> jtext ''change_set_id'' p = Some (ci_id ident) \<and> jtext ''device_id'' p = Some k
          \<and> jtext ''plan_hash'' p = Some (ci_hash ident)
          \<and> jtext ''generation'' p = Some (int_str (ci_generation ident))))
     \<and> (dv_observed d' = dv_observed d \<or> map_option ce_state (Option.bind status dec_envelope) = Some ''COMMITTED'')"
  using pending_kept [OF assms, of schema now i status] by (auto simp: cs_match_def cs_terminal_def)

definition status_doc :: "change_set \<Rightarrow> int \<Rightarrow> string \<Rightarrow> json" where
  "status_doc cs g st =
     JObj [(''change_set_id'', JStr (cs_id cs)), (''device_id'', JStr (cs_device_id cs)),
           (''plan_hash'', JStr (cs_plan_hash cs)), (''generation'', JNum g), (''state'', JStr st)]"

lemma dec_status_doc:
  "in_int64 g \<Longrightarrow> dec_envelope (status_doc cs g st) =
     Some \<lparr>ce_id = cs_id cs, ce_device = cs_device_id cs, ce_hash = cs_plan_hash cs, ce_generation = Some g,
           ce_state = st, ce_failure = [], ce_policy = [], ce_operations = [], ce_health = None\<rparr>"
  by (simp add: dec_envelope_def status_doc_def go_obj_def go_str_def go_i64_def go_slice_def doc_entries)

theorem pending_change_set_fenced_witness:
  "\<exists>cs db'. queueDeviceChangeSet ''tenant_a'' 7 [] [] ''dev-1'' (Some (change_set_json cs)) [] sample_cs_db = (Inr 5, db')
     \<and> (\<exists>d'. devices (snd (RecordDeviceChangeSetStatus ''tenant_a'' 8 ''dev-1'' (Some (status_doc cs 5 ''APPLYING'')) db')) ''dev-1'' = Some d'
           \<and> dv_pending_cs d' = Some (jset ''generation'' (JNum 5) (change_set_json cs)))"
proof -
  obtain cs where "NewDeviceChangeSetForRolloutOperations ''r-1'' ''dev-1'' [sample_operation sample_set] []
      ''local_auto'' = Inr cs"
    using sample_change_set(1) by blast
  from sample_cs_queued [OF this] obtain db' d where
    db': "queueDeviceChangeSet ''tenant_a'' 7 [] [] ''dev-1'' (Some (change_set_json cs)) [] sample_cs_db = (Inr 5, db')"
    "devices db' ''dev-1'' = Some d" "dv_pending_cs d = Some (jset ''generation'' (JNum 5) (change_set_json cs))" by auto
  have "in_int64 5" by (simp add: in_int64_def max_int64_def min_int64_def)
  from pending_change_set_fenced [OF db'(2,3), of "''tenant_a''" 8 "''dev-1''" "Some (status_doc cs 5 ''APPLYING'')"]
    dec_status_doc [OF this, of cs "''APPLYING''"] db' show ?thesis
    by auto
qed

section \<open>Changesets that no report can settle\<close>

lemma unmatched_stays:
  assumes "devices db k = Some d" "dv_pending_cs d = Some p" "jtext ''device_id'' p \<noteq> Some k"
  shows "\<exists>d'. devices (fold (cs_report schema) reports db) k = Some d' \<and> dv_pending_cs d' = Some p"
  using assms(1,2)
proof (induction reports arbitrary: db d)
  case (Cons r rs)
  obtain now i status where r: "r = (now, i, status)" by (cases r)
  obtain d' where d': "devices (snd (RecordDeviceChangeSetStatus schema now i status db)) k = Some d'"
      "dv_pending_cs d' = Some p \<or> (\<exists>ident. i = k \<and> cs_match i ident (Some p))"
    using pending_kept [OF Cons.prems, of schema now i status] by blast
  with assms(3) have "dv_pending_cs d' = Some p" by (auto simp: cs_match_def)
  from Cons.IH [OF d'(1) this] show ?case by (simp add: r cs_report_def)
qed simp

text \<open>
  The queue compares the device of a changeset with the device row up to case, but a report
  has to match the stored spelling byte for byte. A changeset whose device id differs from the row's
  key in case only is therefore queued and then stays pending whatever reports arrive.
\<close>

theorem case_variant_never_settles:
  assumes "queueDeviceChangeSet schema now site role i (Some (change_set_json cs)) rollout db = (Inr g, db')"
    "db' \<noteq> db" "cs_device_id cs \<noteq> i"
  shows "\<exists>d p. devices (fold (cs_report schema') reports db') i = Some d \<and> dv_pending_cs d = Some p
     \<and> jtext ''change_set_id'' p = Some (cs_id cs)"
proof (cases rule: queueDeviceChangeSet_cases [of schema now site role i "Some (change_set_json cs)" rollout db])
  case refused
  with assms show ?thesis by simp
next
  case (queued ident j d)
  then have db': "db' = update_device i (queue_cs_row now j ident) db" and j: "j = change_set_json cs"
    using assms(1) by auto
  let ?r = "queue_cs_row now j ident d"
  obtain p where p: "dv_pending_cs ?r = Some p" "jtext ''device_id'' p = Some (cs_device_id cs)"
      "jtext ''change_set_id'' p = Some (cs_id cs)"
    by (auto simp: queue_cs_row_def j change_set_json_def jtext_def jfield_def jset_def)
  have "devices db' i = Some ?r" using queued(5) by (simp add: db')
  from unmatched_stays [OF this p(1), of schema' reports] p assms(3) show ?thesis by auto
qed

theorem case_variant_never_settles_witness:
  "\<exists>cs db'. queueDeviceChangeSet ''tenant_a'' 7 [] [] ''dev-1'' (Some (change_set_json cs)) [] sample_cs_db = (Inr 5, db')
     \<and> (\<exists>d p. devices (fold (cs_report ''tenant_a'') [(8, ''dev-1'', Some (status_doc cs 5 ''COMMITTED''))] db') ''dev-1'' = Some d
          \<and> dv_pending_cs d = Some p \<and> jtext ''change_set_id'' p = Some (cs_id cs))"
proof -
  have "\<exists>cs. NewDeviceChangeSetForRolloutOperations ''r-1'' ''DEV-1'' [sample_operation sample_set] [] ''local_auto'' = Inr cs"
    by (rule single_rollout_change_set; code_simp)
  then obtain cs where cs: "NewDeviceChangeSetForRolloutOperations ''r-1'' ''DEV-1'' [sample_operation sample_set] []
      ''local_auto'' = Inr cs" by blast
  have "equal_fold ''DEV-1'' ''dev-1''" by code_simp
  from sample_cs_queued [OF cs this] obtain db' where
    db': "queueDeviceChangeSet ''tenant_a'' 7 [] [] ''dev-1'' (Some (change_set_json cs)) [] sample_cs_db = (Inr 5, db')"
    "db' \<noteq> sample_cs_db" by auto
  from case_variant_never_settles [OF db', of "''tenant_a''" "[(8, ''dev-1'', Some (status_doc cs 5 ''COMMITTED''))]"]
    rollout_change_set_Inr(4) [OF cs] db'(1) show ?thesis by auto
qed

section \<open>The life of a changeset\<close>

text \<open>
  The specification: the phases of a changeset as the controller sees them, and the reports it may
  accept in each. The first report of a changeset may carry any state.
\<close>

datatype phase =
    Fresh | Prepared | Applying | PendingConfirm | RollingBack | Committed | Restored | RecoveryRequired | Rejected

inductive lifecycle :: "phase \<Rightarrow> phase \<Rightarrow> bool" where
  first: "q \<noteq> Fresh \<Longrightarrow> lifecycle Fresh q"
| again: "q \<noteq> Fresh \<Longrightarrow> lifecycle q q"
| begin_apply: "lifecycle Prepared Applying"
| await_confirm: "lifecycle Applying PendingConfirm"
| roll_back: "p \<in> {Prepared, Applying, PendingConfirm} \<Longrightarrow> lifecycle p RollingBack"
| commit: "p \<in> {Applying, PendingConfirm} \<Longrightarrow> lifecycle p Committed"
| restore: "lifecycle RollingBack Restored"
| give_up: "p \<in> {Prepared, Applying, PendingConfirm, RollingBack} \<Longrightarrow> lifecycle p RecoveryRequired"
| reject: "p \<in> {Prepared, Applying} \<Longrightarrow> lifecycle p Rejected"

inductive_simps lifecycle_to [simp]:
  "lifecycle p Prepared" "lifecycle p Applying" "lifecycle p PendingConfirm" "lifecycle p RollingBack"
  "lifecycle p Committed" "lifecycle p Restored" "lifecycle p RecoveryRequired" "lifecycle p Rejected"

definition state_phase :: "string \<Rightarrow> phase" where
  "state_phase s =
     (if s = ''PREPARED'' then Prepared else if s = ''APPLYING'' then Applying
      else if s = ''PENDING_CONFIRM'' then PendingConfirm else if s = ''ROLLING_BACK'' then RollingBack
      else if s = ''COMMITTED'' then Committed else if s = ''RESTORED'' then Restored
      else if s = ''RECOVERY_REQUIRED'' then RecoveryRequired else if s = ''REJECTED'' then Rejected
      else Fresh)"

text \<open>The phase of a changeset id on a device, read from the last report.\<close>

definition device_phase :: "string \<Rightarrow> device_row \<Rightarrow> phase" where
  "device_phase csid d =
     (if col_str ''change_set_id'' (dv_last_cs d) \<noteq> csid then Fresh
      else state_phase (col_str ''state'' (dv_last_cs d)))"

lemma state_phase_eq:
  "state_phase s = Prepared \<longleftrightarrow> s = ''PREPARED''" "state_phase s = Applying \<longleftrightarrow> s = ''APPLYING''"
  "state_phase s = PendingConfirm \<longleftrightarrow> s = ''PENDING_CONFIRM''" "state_phase s = RollingBack \<longleftrightarrow> s = ''ROLLING_BACK''"
  "state_phase s = Committed \<longleftrightarrow> s = ''COMMITTED''" "state_phase s = Restored \<longleftrightarrow> s = ''RESTORED''"
  "state_phase s = RecoveryRequired \<longleftrightarrow> s = ''RECOVERY_REQUIRED''" "state_phase s = Rejected \<longleftrightarrow> s = ''REJECTED''"
  by (simp_all add: state_phase_def)

lemmas state_phase_sym = state_phase_eq [unfolded eq_commute [of "state_phase s" for s]]

lemma valid_not_fresh: "validDeviceChangeSetState s \<Longrightarrow> state_phase s \<noteq> Fresh"
  by (simp only: validDeviceChangeSetState_def insert_iff empty_iff simp_thms, elim disjE)
    (simp_all add: state_phase_def)

lemma predecessor_lifecycle:
  assumes "validDeviceChangeSetState s" "validDeviceChangeSetState t"
  shows "s \<in> set (cs_predecessors t) \<longleftrightarrow> lifecycle (state_phase s) (state_phase t)"
proof -
  have ne: "s \<noteq> []" using valid_not_fresh [OF assms(1)] assms(1)
    by (cases s) (simp_all add: validDeviceChangeSetState_def)
  note fresh = valid_not_fresh [OF assms(1)]
  from assms(2) show ?thesis
    unfolding validDeviceChangeSetState_def insert_iff empty_iff
  proof (elim disjE FalseE)
    assume t: "t = ''PREPARED''"
    show ?thesis using ne fresh
      by (simp add: t cs_predecessors_def state_phase_def [of "''PREPARED''"] state_phase_eq state_phase_sym disj_ac)
  next
    assume t: "t = ''APPLYING''"
    show ?thesis using ne fresh
      by (simp add: t cs_predecessors_def state_phase_def [of "''APPLYING''"] state_phase_eq state_phase_sym disj_ac)
  next
    assume t: "t = ''PENDING_CONFIRM''"
    show ?thesis using ne fresh
      by (simp add: t cs_predecessors_def state_phase_def [of "''PENDING_CONFIRM''"] state_phase_eq state_phase_sym disj_ac)
  next
    assume t: "t = ''ROLLING_BACK''"
    show ?thesis using ne fresh
      by (simp add: t cs_predecessors_def state_phase_def [of "''ROLLING_BACK''"] state_phase_eq state_phase_sym disj_ac)
  next
    assume t: "t = ''COMMITTED''"
    show ?thesis using ne fresh
      by (simp add: t cs_predecessors_def state_phase_def [of "''COMMITTED''"] state_phase_eq state_phase_sym disj_ac)
  next
    assume t: "t = ''RESTORED''"
    show ?thesis using ne fresh
      by (simp add: t cs_predecessors_def state_phase_def [of "''RESTORED''"] state_phase_eq state_phase_sym disj_ac)
  next
    assume t: "t = ''RECOVERY_REQUIRED''"
    show ?thesis using ne fresh
      by (simp add: t cs_predecessors_def state_phase_def [of "''RECOVERY_REQUIRED''"] state_phase_eq state_phase_sym disj_ac)
  next
    assume t: "t = ''REJECTED''"
    show ?thesis using ne fresh
      by (simp add: t cs_predecessors_def state_phase_def [of "''REJECTED''"] state_phase_eq state_phase_sym disj_ac)
  qed
qed

lemma transition_lifecycle:
  assumes "validDeviceChangeSetState st"
    "col_str ''change_set_id'' (dv_last_cs d) = ci_id ident \<longrightarrow> validDeviceChangeSetState (col_str ''state'' (dv_last_cs d))"
  shows "statusTransition ident st d \<longleftrightarrow> lifecycle (device_phase (ci_id ident) d) (state_phase st)"
proof (cases "col_str ''change_set_id'' (dv_last_cs d) = ci_id ident")
  case True
  with assms predecessor_lifecycle show ?thesis by (simp add: statusTransition_def device_phase_def)
next
  case False
  with valid_not_fresh [OF assms(1)] show ?thesis by (simp add: statusTransition_def device_phase_def lifecycle.first)
qed

lemma sample_cs_queued_rows:
  assumes "NewDeviceChangeSetForRolloutOperations rollout ''dev-1'' [sample_operation sample_set] [] ''local_auto'' = Inr cs"
  shows "\<exists>db' d. queueDeviceChangeSet ''tenant_a'' 7 [] [] ''dev-1'' (Some (change_set_json cs)) [] sample_cs_db = (Inr 5, db')
     \<and> devices db' ''dev-1'' = Some d \<and> dv_pending_cs d = Some (jset ''generation'' (JNum 5) (change_set_json cs))
     \<and> dv_pending_op d = None \<and> dv_last_cs d = None"
proof -
  obtain db' d where db': "queueDeviceChangeSet ''tenant_a'' 7 [] [] ''dev-1'' (Some (change_set_json cs)) [] sample_cs_db = (Inr 5, db')"
    "db' \<noteq> sample_cs_db" "devices db' ''dev-1'' = Some d"
    "dv_pending_cs d = Some (jset ''generation'' (JNum 5) (change_set_json cs))"
    using sample_cs_queued [OF assms] by auto
  then have "dv_pending_op d = None \<and> dv_last_cs d = None"
    by (cases rule: queueDeviceChangeSet_cases [of "''tenant_a''" 7 "[]" "[]" "''dev-1''" "Some (change_set_json cs)" "[]" sample_cs_db])
      (auto simp: queue_cs_row_def sample_cs_row_def sample_row_def)
  with db' show ?thesis by blast
qed

lemma parsed_status_state:
  assumes "parseDeviceChangeSet (Some j) True = Inr ident" "dec_envelope j = Some e"
  shows "validDeviceChangeSetState (ce_state e)"
  using assms by (auto simp: parseDeviceChangeSet_def split: if_splits)

text \<open>
  C2. The SQL guards implement the life cycle: a report for the pending changeset of a device is
  applied exactly if it moves the changeset along the specified life cycle, and is otherwise refused
  with nothing changed.
\<close>

theorem change_set_lifecycle:
  assumes "parseDeviceChangeSet (Some j) True = Inr ident" "dec_envelope j = Some e"
    "isValidSchemaName schema" "devices db i = Some d" "dv_pending_op d = None"
    "cs_match i ident (dv_pending_cs d)" "equal_fold (ci_device ident) i"
    "col_str ''change_set_id'' (dv_last_cs d) = ci_id ident \<longrightarrow> validDeviceChangeSetState (col_str ''state'' (dv_last_cs d))"
  shows "if lifecycle (device_phase (ci_id ident) d) (state_phase (ce_state e))
     then fst (RecordDeviceChangeSetStatus schema now i (Some j) db) = Inr ()
     else RecordDeviceChangeSetStatus schema now i (Some j) db = (Inl DbStatusNotApplied, db)"
proof -
  have "dv_pending_cs d \<noteq> None" using assms(6) by (cases "dv_pending_cs d") (simp_all add: cs_match_def)
  with assms(5,6) have "cs_pending_match i ident (ce_state e) d \<longleftrightarrow> statusTransition ident (ce_state e) d"
    "\<not> cs_last_match i ident (ce_state e) d"
    by (auto simp: cs_pending_match_def cs_last_match_def)
  with assms transition_lifecycle [OF parsed_status_state [OF assms(1,2)] assms(8)] show ?thesis
    by (simp add: RecordDeviceChangeSetStatus_def Let_def)
qed


section \<open>Delivery from the services to the device and back\<close>

lemma change_set_texts:
  "jtext ''change_set_id'' (change_set_json cs) = Some (cs_id cs)"
  "jtext ''device_id'' (change_set_json cs) = Some (cs_device_id cs)"
  "jtext ''plan_hash'' (change_set_json cs) = Some (cs_plan_hash cs)"
  by (simp_all add: change_set_json_def jtext_def jfield_def)

lemma status_texts [simp]:
  "jtext ''change_set_id'' (status_doc cs g st) = Some (cs_id cs)"
  "jtext ''state'' (status_doc cs g st) = Some st"
  by (simp_all add: status_doc_def jtext_def jfield_def)

lemma change_set_json_obj: "\<exists>kvs. change_set_json cs = JObj kvs"
  by (simp add: change_set_json_def)

lemma queued_matches:
  "cs_match (cs_device_id cs) \<lparr>ci_id = cs_id cs, ci_device = i, ci_hash = cs_plan_hash cs, ci_generation = g, ci_has_gen = b\<rparr>
     (Some (jset ''generation'' (JNum g) (change_set_json cs)))"
proof -
  obtain kvs where kvs: "change_set_json cs = JObj kvs" using change_set_json_obj by blast
  show ?thesis
    using change_set_texts [of cs] by (simp add: cs_match_def kvs)
qed

lemma parse_status_doc:
  assumes "ValidateDeviceChangeSet cs = Inr ()" "0 < g" "in_int64 g" "validDeviceChangeSetState st"
  shows "parseDeviceChangeSet (Some (status_doc cs g st)) True =
     Inr \<lparr>ci_id = cs_id cs, ci_device = cs_device_id cs, ci_hash = cs_plan_hash cs, ci_generation = g, ci_has_gen = True\<rparr>"
  using assms by (simp add: parseDeviceChangeSet_def dec_status_doc ValidateDeviceChangeSet_ok valueOrZero_def)

lemma report_applied:
  assumes "ValidateDeviceChangeSet cs = Inr ()" "cs_device_id cs = i" "0 < g" "in_int64 g"
    "validDeviceChangeSetState st" "isValidSchemaName schema" "devices db i = Some d" "dv_pending_op d = None"
    "dv_pending_cs d = Some (jset ''generation'' (JNum g) (change_set_json cs))"
    "ident = \<lparr>ci_id = cs_id cs, ci_device = cs_device_id cs, ci_hash = cs_plan_hash cs, ci_generation = g, ci_has_gen = True\<rparr>"
    "statusTransition ident st d"
  shows "\<exists>db'. RecordDeviceChangeSetStatus schema now i (Some (status_doc cs g st)) db = (Inr (), db')
     \<and> devices db' i = Some (record_cs_row now (status_doc cs g st) i ident st d)
     \<and> cs_pending_match i ident st d"
proof -
  have match: "cs_pending_match i ident st d"
    using queued_matches [of cs i g True] assms(2,8-11) by (simp add: cs_pending_match_def)
  with assms show ?thesis
    by (simp add: RecordDeviceChangeSetStatus_def parse_status_doc dec_status_doc Let_def)
qed

text \<open>
  C5. End to end: a changeset the services build for a device, once queued, is settled by the
  agent's reports APPLYING and COMMITTED for the reserved generation. Both reports are accepted, the
  device ends with no pending work, and its observed and last successful generation are the desired one.
\<close>

theorem change_set_delivery:
  assumes "NewDeviceChangeSetForRolloutOperations run i ops hc policy = Inr cs"
    "queueDeviceChangeSet schema now site role i (Some (change_set_json cs)) rollout db = (Inr g, db1)" "db1 \<noteq> db"
    "devices db i = Some d" "0 \<le> dv_desired d" "dv_observed d \<le> dv_desired d" "dv_last_successful d \<le> dv_desired d"
  shows "\<exists>db2 db3 d3.
      RecordDeviceChangeSetStatus schema t2 i (Some (status_doc cs g ''APPLYING'')) db1 = (Inr (), db2)
    \<and> RecordDeviceChangeSetStatus schema t3 i (Some (status_doc cs g ''COMMITTED'')) db2 = (Inr (), db3)
    \<and> devices db3 i = Some d3 \<and> dv_pending_cs d3 = None \<and> dv_pending_op d3 = None
    \<and> dv_desired d3 = g \<and> dv_observed d3 = g \<and> dv_last_successful d3 = g \<and> device_phase (cs_id cs) d3 = Committed"
proof (cases rule: queueDeviceChangeSet_cases [of schema now site role i "Some (change_set_json cs)" rollout db])
  case refused
  with assms show ?thesis by simp
next
  case (queued ident j e)
  note cs = rollout_change_set_Inr [OF assms(1)]
  define r where "r = queue_cs_row now j ident d"
  have j: "j = change_set_json cs" "e = d" using queued assms by auto
  have "parseDeviceChangeSet (Some (change_set_json cs)) False =
      Inr \<lparr>ci_id = cs_id cs, ci_device = i, ci_hash = cs_plan_hash cs, ci_generation = 0, ci_has_gen = False\<rparr>"
    using parse_validated [OF cs(1,2)] cs(3,4) queued(2) j by (auto simp: in_int64_def max_int64_def min_int64_def split: if_splits)
  with queued(2) j have ident: "ci_generation ident = 0" "ci_id ident = cs_id cs" by auto
  have g: "g = dv_desired d + 1" "0 < g" "in_int64 g"
    using assms(2,5) queued(7,8) ident j by (auto simp: queue_cs_row_def in_int64_def max_int64_def min_int64_def)
  have row1: "devices db1 i = Some r" using assms(2,4) queued(8) j by (auto simp: r_def)
  have r: "dv_pending_op r = None" "dv_pending_cs r = Some (jset ''generation'' (JNum g) (change_set_json cs))"
      "dv_desired r = g" "dv_observed r \<le> g" "dv_last_successful r \<le> g" "col_str ''change_set_id'' (dv_last_cs r) \<noteq> cs_id cs"
    using queued(6) ident j g assms(6,7) by (auto simp: r_def queue_cs_row_def queue_cs_guard_def)
  define rid where "rid = \<lparr>ci_id = cs_id cs, ci_device = cs_device_id cs, ci_hash = cs_plan_hash cs, ci_generation = g, ci_has_gen = True\<rparr>"
  have trans1: "statusTransition rid ''APPLYING'' r" using r(6) by (simp add: statusTransition_def rid_def)
  have states: "validDeviceChangeSetState ''APPLYING''" "validDeviceChangeSetState ''COMMITTED''"
    by (simp_all add: validDeviceChangeSetState_def)
  obtain db2 where db2: "RecordDeviceChangeSetStatus schema t2 i (Some (status_doc cs g ''APPLYING'')) db1 = (Inr (), db2)"
      "devices db2 i = Some (record_cs_row t2 (status_doc cs g ''APPLYING'') i rid ''APPLYING'' r)"
    using report_applied [OF cs(1,4) g(2,3) states(1) queued(1) row1 r(1,2) rid_def trans1] by blast
  define r2 where "r2 = record_cs_row t2 (status_doc cs g ''APPLYING'') i rid ''APPLYING'' r"
  have r2: "dv_pending_op r2 = None" "dv_pending_cs r2 = Some (jset ''generation'' (JNum g) (change_set_json cs))"
      "dv_desired r2 = g" "dv_observed r2 \<le> g" "dv_last_successful r2 \<le> g" "statusTransition rid ''COMMITTED'' r2"
    using r by (simp_all add: r2_def record_cs_row_def cs_terminal_def statusTransition_def cs_predecessors_def col_str_def rid_def)
  obtain db3 where db3: "RecordDeviceChangeSetStatus schema t3 i (Some (status_doc cs g ''COMMITTED'')) db2 = (Inr (), db3)"
      "devices db3 i = Some (record_cs_row t3 (status_doc cs g ''COMMITTED'') i rid ''COMMITTED'' r2)"
      "cs_pending_match i rid ''COMMITTED'' r2"
    using report_applied [OF cs(1,4) g(2,3) states(2) queued(1) db2(2) [folded r2_def] r2(1,2) rid_def r2(6)] by blast
  from db2(1) db3 r2 show ?thesis
    by (auto simp: record_cs_row_def cs_terminal_def rid_def device_phase_def state_phase_def col_str_def)
qed

theorem change_set_delivery_witness:
  "\<exists>cs db1 db2 db3 d3.
      queueDeviceChangeSet ''tenant_a'' 7 [] [] ''dev-1'' (Some (change_set_json cs)) [] sample_cs_db = (Inr 5, db1)
    \<and> RecordDeviceChangeSetStatus ''tenant_a'' 8 ''dev-1'' (Some (status_doc cs 5 ''APPLYING'')) db1 = (Inr (), db2)
    \<and> RecordDeviceChangeSetStatus ''tenant_a'' 9 ''dev-1'' (Some (status_doc cs 5 ''COMMITTED'')) db2 = (Inr (), db3)
    \<and> devices db3 ''dev-1'' = Some d3 \<and> dv_observed d3 = 5"
proof -
  obtain cs where cs: "NewDeviceChangeSetForRolloutOperations ''r-1'' ''dev-1'' [sample_operation sample_set] []
      ''local_auto'' = Inr cs"
    using sample_change_set(1) by blast
  from sample_cs_queued [OF cs] obtain db' where
    db': "queueDeviceChangeSet ''tenant_a'' 7 [] [] ''dev-1'' (Some (change_set_json cs)) [] sample_cs_db = (Inr 5, db')"
    "db' \<noteq> sample_cs_db" by auto
  have "0 \<le> dv_desired sample_cs_row" "dv_observed sample_cs_row \<le> dv_desired sample_cs_row"
      "dv_last_successful sample_cs_row \<le> dv_desired sample_cs_row"
    by (simp_all add: sample_cs_row_def sample_row_def)
  from change_set_delivery [OF cs db' sample_cs_db_row this, of 8 9] db'(1) show ?thesis by blast
qed

theorem change_set_lifecycle_witness:
  "\<exists>cs db'. queueDeviceChangeSet ''tenant_a'' 7 [] [] ''dev-1'' (Some (change_set_json cs)) [] sample_cs_db = (Inr 5, db')
     \<and> fst (RecordDeviceChangeSetStatus ''tenant_a'' 8 ''dev-1'' (Some (status_doc cs 5 ''REJECTED'')) db') = Inr ()"
proof -
  obtain cs where cs: "NewDeviceChangeSetForRolloutOperations ''r-1'' ''dev-1'' [sample_operation sample_set] []
      ''local_auto'' = Inr cs"
    using sample_change_set(1) by blast
  let ?i = "\<lparr>ci_id = cs_id cs, ci_device = cs_device_id cs, ci_hash = cs_plan_hash cs, ci_generation = 5, ci_has_gen = True\<rparr>"
  obtain db' d where
    db': "queueDeviceChangeSet ''tenant_a'' 7 [] [] ''dev-1'' (Some (change_set_json cs)) [] sample_cs_db = (Inr 5, db')"
    "devices db' ''dev-1'' = Some d" "dv_pending_cs d = Some (jset ''generation'' (JNum 5) (change_set_json cs))"
    "dv_pending_op d = None" "dv_last_cs d = None"
    using sample_cs_queued_rows [OF cs] by auto
  have small: "in_int64 5" by (simp add: in_int64_def max_int64_def min_int64_def)
  note v = rollout_change_set_Inr [OF cs]
  have p: "parseDeviceChangeSet (Some (status_doc cs 5 ''REJECTED'')) True = Inr ?i"
    by (rule parse_status_doc [OF v(1) _ small]) (simp_all add: validDeviceChangeSetState_def)
  have "cs_match ''dev-1'' ?i (dv_pending_cs d)" using queued_matches [of cs _ 5] v(4) db'(3) by simp
  moreover have "isValidSchemaName ''tenant_a''" by code_simp
  moreover have "cs_id cs \<noteq> []"
    using v(1) by (auto simp: ValidateDeviceChangeSet_ok validDeviceChangeSetID_def validDeviceOperationID_def)
  ultimately show ?thesis
    using change_set_lifecycle [OF p dec_status_doc [OF small] _ db'(2,4), of "''tenant_a''" 8] db' v(4)
    by (auto simp: device_phase_def col_str_def state_phase_def)
qed

text \<open>
  A settled changeset is final: when nothing is pending and the last report had a final state,
  a report with any other state is refused and leaves the database as it was.
\<close>

theorem settled_change_set_final:
  assumes "devices db i = Some d" "dv_pending_cs d = None" "col_text ''state'' (dv_last_cs d) = Some s"
    "s \<in> {''COMMITTED'', ''RESTORED'', ''RECOVERY_REQUIRED'', ''REJECTED''}"
    "map_option ce_state (Option.bind status dec_envelope) \<noteq> Some s"
  shows "\<exists>e. RecordDeviceChangeSetStatus schema now i status db = (Inl e, db)"
proof (cases rule: RecordDeviceChangeSetStatus_cases [of schema now i status db])
  case (applied ident j e d')
  have "cs_terminal s" using assms(4) by (simp only: cs_terminal_def)
  with applied assms have False
    by (auto simp: cs_pending_match_def cs_last_match_def cs_match_def col_str_def)
  then show ?thesis ..
qed blast

definition sample_restored_db :: tenant_db where
  "sample_restored_db = sample_cs_db\<lparr>devices := [''dev-1'' \<mapsto>
     sample_cs_row\<lparr>dv_last_cs := Some (JObj [(''change_set_id'', JStr ''cs-1''), (''state'', JStr ''RESTORED'')])\<rparr>]\<rparr>"

theorem settled_change_set_final_witness:
  "\<exists>e. RecordDeviceChangeSetStatus ''tenant_a'' 9 ''dev-1'' (Some (JObj [(''state'', JStr ''APPLYING'')])) sample_restored_db
     = (Inl e, sample_restored_db)"
proof (rule settled_change_set_final)
  show "devices sample_restored_db ''dev-1'' = Some (sample_cs_row\<lparr>dv_last_cs :=
      Some (JObj [(''change_set_id'', JStr ''cs-1''), (''state'', JStr ''RESTORED'')])\<rparr>)"
    by (simp add: sample_restored_db_def)
  show "map_option ce_state (Option.bind (Some (JObj [(''state'', JStr ''APPLYING'')])) dec_envelope) \<noteq> Some ''RESTORED''"
    by (simp add: dec_envelope_def go_obj_def go_str_def go_i64_def go_slice_def doc_entries)
qed (simp_all add: sample_cs_row_def sample_row_def jtext_def jfield_def)

section \<open>The verdict on a rollout run\<close>

text \<open>
  The reference: a run is still queued while some result is not final, completed if every result
  was committed, and failed otherwise, judged on the results after the report.
\<close>

definition run_verdict :: "json list \<Rightarrow> string" where
  "run_verdict rs =
     (if list_all (\<lambda>r. cs_terminal (result_state r)) rs
      then (if list_all (\<lambda>r. result_state r = ''COMMITTED'') rs then ''completed'' else ''failed'')
      else ''QUEUED'')"

definition identified :: "json \<Rightarrow> bool" where
  "identified r \<longleftrightarrow> (\<exists>kvs. r = JObj kvs) \<and> jtext ''device_id'' r \<noteq> None \<and> jtext ''change_set_id'' r \<noteq> None"

lemma result_is_identified:
  "identified r \<Longrightarrow> result_is i c r = Some (jtext ''device_id'' r = Some i \<and> jtext ''change_set_id'' r = Some c)"
  by (auto simp: identified_def result_is_def eq3_def and3_def)

lemma not3_True: "not3 x = Some True \<longleftrightarrow> x = Some False"
  by (auto simp: not3_def)

lemma jtext_jconcat:
  "jtext k (jconcat (JObj xs) (JObj ys)) = (if k \<in> fst ` set ys then jtext k (JObj ys) else jtext k (JObj xs))"
proof (cases "k \<in> fst ` set ys")
  case True
  then have "map_of (rev ys) k \<noteq> None" by (simp add: map_of_eq_None_iff)
  then show ?thesis using True by (auto simp: jtext_def jfield_def jconcat_def map_add_def)
next
  case False
  then have "map_of (rev ys) k = None" by (simp add: map_of_eq_None_iff)
  then show ?thesis using False by (simp add: jtext_def jfield_def jconcat_def map_add_def)
qed

lemma settled_result_state:
  assumes "identified r"
  shows "result_state (settle_result i ident st f r) =
     (if result_is i (ci_id ident) r = Some True then st else result_state r)"
proof -
  obtain kvs where r: "r = JObj kvs" using assms by (auto simp: identified_def)
  let ?u = "[(''status'', JStr (if st = ''COMMITTED'' then ''SUCCESS'' else ''FAILED'')),
      (''change_set_state'', JStr st), (''plan_hash'', JStr (ci_hash ident)),
      (''device_generation'', JNum (ci_generation ident))]"
  have u: "jtext ''change_set_state'' (JObj ?u) = Some st" by (simp add: jtext_def jfield_def)
  have c: "jconcat (JObj kvs) (JObj ?u) = JObj (kvs @ ?u)" by (simp add: jconcat_def)
  have "jtext ''change_set_state'' (JObj (kvs @ ?u)) = Some st"
    using jtext_jconcat [of "''change_set_state''" kvs ?u] u c by simp
  then show ?thesis
    using jtext_jconcat [of "''change_set_state''" "kvs @ ?u"]
    by (auto simp: settle_result_def result_state_def r c)
qed

lemma settled_status_verdict:
  assumes "cs_terminal st" "list_all identified rs" "list_ex (\<lambda>r. result_is i (ci_id ident) r = Some True) rs"
  shows "settled_status i ident st rs = run_verdict (map (settle_result i ident st f) rs)"
proof -
  have split: "result_is i (ci_id ident) r = Some True \<or> result_is i (ci_id ident) r = Some False" if "r \<in> set rs" for r
    using that assms(2) result_is_identified by (auto simp: list_all_iff)
  have state: "result_state (settle_result i ident st f r) =
      (if result_is i (ci_id ident) r = Some True then st else result_state r)" if "r \<in> set rs" for r
    using that assms(2) by (intro settled_result_state) (auto simp: list_all_iff)
  have all: "list_all (\<lambda>r. P (result_state r)) (map (settle_result i ident st f) rs)
      \<longleftrightarrow> P st \<and> \<not> list_ex (\<lambda>r. result_is i (ci_id ident) r = Some False \<and> \<not> P (result_state r)) rs" for P
    using state split assms(3) by (fastforce simp: list_all_iff list_ex_iff)
  show ?thesis
    unfolding settled_status_def run_verdict_def not3_True
    using assms(1) all [of cs_terminal] all [of "\<lambda>s. s = ''COMMITTED''"] by auto
qed

lemma result_is_fields:
  "jfield ''device_id'' r = Some (JStr i) \<Longrightarrow> jfield ''change_set_id'' r = Some (JStr c)
     \<Longrightarrow> result_is i c r = Some True"
  by (simp add: result_is_def eq3_def and3_def jtext_str)

lemma mention_is:
  "results_mention i c (JArr rs) \<Longrightarrow> list_ex (\<lambda>r. result_is i c r = Some True) rs"
  using result_is_fields by (auto simp: results_mention_def json_elems_def list_ex_iff)

text \<open>
  C11. The status a run gets from a final report, which the SQL computes from the old results,
  is the verdict on the new results, provided every result names its device and changeset: still
  queued while one is open, completed if all were committed, failed otherwise. Runs that are not
  QUEUED or do not wait for the changeset are left alone.
\<close>

theorem run_settlement:
  assumes "rr_results r = JArr rs" "list_all identified rs" "cs_terminal st"
  shows "settle_rollout now i site ident st f r = r \<or>
     (rr_status r = ''QUEUED'' \<and> results_mention i (ci_id ident) (JArr rs)
      \<and> rr_results (settle_rollout now i site ident st f r) = JArr (map (settle_result i ident st f) rs)
      \<and> rr_status (settle_rollout now i site ident st f r) = run_verdict (map (settle_result i ident st f) rs))"
  using assms settled_status_verdict [OF assms(3,2) mention_is, of i ident f]
  by (auto simp: settle_rollout_def json_elems_def)

definition sample_run :: rollout_row where
  "sample_run =
     \<lparr>rr_id = ''r-1'', rr_site = ''site-1'', rr_generation = 1, rr_status = ''QUEUED'', rr_claim_token = None,
      rr_worker_token = None, rr_lease_until = None, rr_cursor = 0, rr_plan_hash = replicate 64 CHR ''0'',
      rr_requested_by = [], rr_targets = JArr [], rr_plan = JObj [],
      rr_results = JArr [JObj [(''device_id'', JStr ''dev-1''), (''change_set_id'', JStr ''cs-1'')]],
      rr_updated_at = 0\<rparr>"

definition sample_identity :: cs_identity where
  "sample_identity = \<lparr>ci_id = ''cs-1'', ci_device = ''dev-1'', ci_hash = [], ci_generation = 5, ci_has_gen = True\<rparr>"

theorem run_settlement_witness:
  "rr_status (settle_rollout 9 ''dev-1'' (Some ''site-1'') sample_identity ''COMMITTED'' [] sample_run) = ''completed''"
proof -
  let ?r = "JObj [(''device_id'', JStr ''dev-1''), (''change_set_id'', JStr ''cs-1'')]"
  have "identified ?r" by (simp add: identified_def jtext_def jfield_def)
  then have "list_all identified [?r]" by simp
  from run_settlement [OF _ this, of sample_run "''COMMITTED''" 9 "''dev-1''" "Some ''site-1''" sample_identity "[]"]
  have "settle_rollout 9 ''dev-1'' (Some ''site-1'') sample_identity ''COMMITTED'' [] sample_run = sample_run \<or>
     rr_status (settle_rollout 9 ''dev-1'' (Some ''site-1'') sample_identity ''COMMITTED'' [] sample_run)
       = run_verdict (map (settle_result ''dev-1'' sample_identity ''COMMITTED'' []) [?r])"
    by (auto simp: sample_run_def cs_terminal_def)
  moreover have "rr_updated_at (settle_rollout 9 ''dev-1'' (Some ''site-1'') sample_identity ''COMMITTED'' [] sample_run) = 9"
    by code_simp
  moreover have "rr_updated_at sample_run = 0" by code_simp
  moreover have "run_verdict (map (settle_result ''dev-1'' sample_identity ''COMMITTED'' []) [?r]) = ''completed''"
    by code_simp
  ultimately show ?thesis by auto
qed

end
