(* ===== verification/Rollout_Drafts.thy ===== *)
theory Rollout_Drafts
  imports Change_Set_Queue
begin

text \<open>
  Rollout drafts, \<open>src/internal/database/rollout_drafts.go\<close>: a site's rollout runs are numbered by a
  sequence, stored as drafts with an immutable plan, claimed under a fencing token, and either
  released, closed, or turned into queued device changesets in one transaction. Transactions of one
  site are serialised by an advisory lock, so each operation is one function on the tables; an error
  rolls back and returns the tables unchanged. The fresh row id and the claim token are arguments.
\<close>

section \<open>Runs\<close>

record rollout_draft =
  rd_id :: string
  rd_site :: string
  rd_generation :: int
  rd_status :: string
  rd_claim_token :: string
  rd_plan_hash :: string
  rd_requested_by :: string
  rd_targets :: json
  rd_plan :: json
  rd_results :: json

definition draft_of_row :: "rollout_row \<Rightarrow> rollout_draft" where
  "draft_of_row r =
     \<lparr>rd_id = rr_id r, rd_site = rr_site r, rd_generation = rr_generation r, rd_status = rr_status r,
      rd_claim_token = coalesce (rr_claim_token r), rd_plan_hash = rr_plan_hash r,
      rd_requested_by = rr_requested_by r, rd_targets = rr_targets r, rd_plan = rr_plan r,
      rd_results = rr_results r\<rparr>"

text \<open>\<open>UPDATE ... WHERE P\<close> on the run the condition selects by its primary key, or an error when no row matched.\<close>

definition update_run ::
  "(rollout_row \<Rightarrow> bool) \<Rightarrow> (rollout_row \<Rightarrow> rollout_row) \<Rightarrow> db_error \<Rightarrow> tenant_db \<Rightarrow> (db_error + unit) \<times> tenant_db" where
  "update_run P f e db =
     (if list_ex P (rollouts db) then (Inr (), update_rollouts (\<lambda>r. if P r then f r else r) db)
      else (Inl e, db))"

definition set_stale :: "int \<Rightarrow> rollout_row \<Rightarrow> rollout_row" where
  "set_stale now r = r\<lparr>rr_status := ''STALE'', rr_claim_token := None, rr_updated_at := now\<rparr>"

section \<open>Creating and reading drafts\<close>

definition next_sequence :: "string \<Rightarrow> rollout_row list \<Rightarrow> int" where
  "next_sequence site rs =
     (let gens = map rr_generation (filter (\<lambda>r. rr_site r = site) rs)
      in (if gens = [] then 0 else Max (set gens)) + 1)"

text \<open>\<open>CHAR (64)\<close> pads with blanks and refuses longer text, \<open>VARCHAR (100)\<close> refuses longer text.\<close>

definition pad64 :: "string \<Rightarrow> string" where
  "pad64 s = s @ replicate (64 - length s) CHR '' ''"

definition CreateRolloutDraft ::
  "string \<Rightarrow> int \<Rightarrow> string \<Rightarrow> string \<Rightarrow> string \<Rightarrow> string \<Rightarrow> raw_message \<Rightarrow> raw_message \<Rightarrow> tenant_db
    \<Rightarrow> (db_error + rollout_draft) \<times> tenant_db" where
  "CreateRolloutDraft schema now newID siteID requestedBy planHash targets plan db =
     (case SafeSchemaIdent schema of
        Inl e \<Rightarrow> (Inl e, db)
      | Inr _ \<Rightarrow>
          (let seqno = next_sequence siteID (rollouts db) in
           case (targets, plan) of
             (Some ts, Some pl) \<Rightarrow>
               if seqno > max_int64 \<or> length planHash > 64 \<or> length requestedBy > 100 then (Inl DbFailure, db)
               else
                 (let row =
                    \<lparr>rr_id = newID, rr_site = siteID, rr_generation = seqno, rr_status = ''DRAFT'',
                     rr_claim_token = None, rr_worker_token = None, rr_lease_until = None, rr_cursor = 0,
                     rr_plan_hash = pad64 planHash, rr_requested_by = requestedBy, rr_targets = ts,
                     rr_plan = pl, rr_results = JArr [], rr_updated_at = now\<rparr>;
                      db1 = update_rollouts (\<lambda>r.
                        if rr_site r = siteID \<and> rr_status r = ''DRAFT'' \<and> rr_generation r < seqno
                        then set_stale now r else r) db
                  in (Inr \<lparr>rd_id = newID, rd_site = siteID, rd_generation = seqno, rd_status = ''DRAFT'',
                           rd_claim_token = [], rd_plan_hash = planHash, rd_requested_by = requestedBy,
                           rd_targets = ts, rd_plan = pl, rd_results = JArr []\<rparr>,
                      db1\<lparr>rollouts := rollouts db1 @ [row]\<rparr>))
           | _ \<Rightarrow> (Inl DbFailure, db)))"

definition GetRolloutDraft :: "string \<Rightarrow> string \<Rightarrow> string \<Rightarrow> tenant_db \<Rightarrow> db_error + rollout_draft" where
  "GetRolloutDraft schema siteID rolloutID db =
     andthen (SafeSchemaIdent schema) (\<lambda>_.
       case find (\<lambda>r. rr_id r = rolloutID \<and> rr_site r = siteID) (rollouts db) of
         None \<Rightarrow> Inl DbDraftNotFound
       | Some r \<Rightarrow> Inr (draft_of_row r))"

section \<open>Claiming\<close>

text \<open>
  The statement with its CTEs: every part reads the snapshot \<open>rs\<close>, and the rows they update are
  disjoint, so its effect on the runs is one map.
\<close>

definition expired_run :: "int \<Rightarrow> string \<Rightarrow> rollout_row \<Rightarrow> bool" where
  "expired_run now siteID r \<longleftrightarrow>
     rr_site r = siteID \<and> rr_status r = ''RUNNING'' \<and> rr_updated_at r < now - twenty_minutes"

definition newer_draft :: "string \<Rightarrow> rollout_row list \<Rightarrow> rollout_row \<Rightarrow> bool" where
  "newer_draft siteID rs r \<longleftrightarrow>
     list_ex (\<lambda>n. rr_site n = siteID \<and> rr_status n = ''DRAFT'' \<and> rr_generation n > rr_generation r) rs"

definition claim_candidate :: "int \<Rightarrow> string \<Rightarrow> string \<Rightarrow> rollout_row list \<Rightarrow> rollout_row \<Rightarrow> bool" where
  "claim_candidate now siteID rolloutID rs r \<longleftrightarrow>
     rr_id r = rolloutID \<and> rr_site r = siteID \<and> rr_status r = ''DRAFT''
     \<and> \<not> newer_draft siteID rs r \<and> \<not> list_ex (fresh_running now (Some siteID)) rs"

definition claim_row :: "int \<Rightarrow> string \<Rightarrow> string \<Rightarrow> string \<Rightarrow> rollout_row list \<Rightarrow> rollout_row \<Rightarrow> rollout_row" where
  "claim_row now token siteID rolloutID rs r =
     (if expired_run now siteID r then set_stale now r
      else if rr_site r = siteID \<and> rr_status r = ''DRAFT'' \<and> newer_draft siteID rs r then set_stale now r
      else if claim_candidate now siteID rolloutID rs r
      then r\<lparr>rr_status := ''RUNNING'', rr_claim_token := Some token, rr_updated_at := now\<rparr>
      else r)"

definition fail_running_devices :: "int \<Rightarrow> string \<Rightarrow> tenant_db \<Rightarrow> tenant_db" where
  "fail_running_devices now siteID db =
     db\<lparr>devices := (\<lambda>i. map_option (\<lambda>d.
       if dv_site d = Some siteID \<and> dv_rollout_status d = Some ''RUNNING''
       then d\<lparr>dv_rollout_status := Some ''FAILED'', dv_rollout_at := Some now\<rparr> else d) (devices db i))\<rparr>"

definition claimRolloutDraftTx ::
  "int \<Rightarrow> string \<Rightarrow> string \<Rightarrow> string \<Rightarrow> tenant_db \<Rightarrow> (db_error + rollout_draft) \<times> tenant_db" where
  "claimRolloutDraftTx now token siteID rolloutID db =
     (let rs = rollouts db;
          db1 = (if list_ex (expired_run now siteID) rs then fail_running_devices now siteID db else db);
          db2 = update_rollouts (claim_row now token siteID rolloutID rs) db1
      in case find (claim_candidate now siteID rolloutID rs) rs of
           None \<Rightarrow> (Inl DbDraftNotAvailable, db2)
         | Some r \<Rightarrow> (Inr (draft_of_row (claim_row now token siteID rolloutID rs r)), db2))"

definition ClaimRolloutDraft ::
  "string \<Rightarrow> int \<Rightarrow> string \<Rightarrow> string \<Rightarrow> string \<Rightarrow> tenant_db \<Rightarrow> (db_error + rollout_draft) \<times> tenant_db" where
  "ClaimRolloutDraft schema now token siteID rolloutID db =
     (case SafeSchemaIdent schema of
        Inl e \<Rightarrow> (Inl e, db)
      | Inr _ \<Rightarrow>
          (case claimRolloutDraftTx now token siteID rolloutID db of
             (Inl e, _) \<Rightarrow> (Inl e, db)
           | (Inr rec, db') \<Rightarrow> (Inr rec, db')))"

section \<open>Queueing a claimed run\<close>

text \<open>
  The generations by device, the latest entry first. Results are decoded into maps: keys are exact,
  an element that is not an object is an error, and a number keeps its value.
\<close>

type_synonym generations = "(string \<times> int) list"

fun add_generations_loop ::
  "generations \<Rightarrow> string set \<Rightarrow> json list \<Rightarrow> db_error + (string set \<times> json list)" where
  "add_generations_loop gens seen [] = Inr (seen, [])"
| "add_generations_loop gens seen (r # rs) =
     (case jfield ''device_id'' r of
        Some (JStr i) \<Rightarrow>
          (case map_of gens i of
             None \<Rightarrow>
               if jfield ''status'' r = Some (JStr ''WAITING'')
               then andthen (add_generations_loop gens (insert i seen) rs) (\<lambda>(s, out). Inr (s, r # out))
               else Inl DbInvalidResults
           | Some g \<Rightarrow>
               if i \<in> seen then Inl DbInvalidResults
               else andthen (add_generations_loop gens (insert i seen) rs)
                      (\<lambda>(s, out). Inr (s, jset ''device_generation'' (JNum g) r # out)))
      | _ \<Rightarrow> Inl DbInvalidResults)"

definition dec_results :: "raw_message \<Rightarrow> json list option" where
  "dec_results raw =
     (case raw of
        Some (JArr rs) \<Rightarrow>
          if list_all (\<lambda>r. case r of JObj _ \<Rightarrow> True | JNull \<Rightarrow> True | _ \<Rightarrow> False) rs then Some rs else None
      | Some JNull \<Rightarrow> Some []
      | _ \<Rightarrow> None)"

definition addDeviceGenerations :: "raw_message \<Rightarrow> generations \<Rightarrow> db_error + json" where
  "addDeviceGenerations raw gens =
     (case dec_results raw of
        None \<Rightarrow> Inl DbInvalidResults
      | Some rs \<Rightarrow>
          andthen (add_generations_loop gens {} rs) (\<lambda>(seen, out).
            if list_all (\<lambda>(i, _). i \<in> seen) gens
            then Inr (if raw = Some JNull then JNull else JArr out)
            else Inl DbInvalidResults))"

fun queue_items ::
  "string \<Rightarrow> int \<Rightarrow> string \<Rightarrow> string \<Rightarrow> (string \<times> raw_message) list \<Rightarrow> generations \<Rightarrow> cs_identity list \<Rightarrow> tenant_db
    \<Rightarrow> (db_error + generations \<times> cs_identity list) \<times> tenant_db" where
  "queue_items schema now siteID rolloutID [] gens idents db = (Inr (gens, idents), db)"
| "queue_items schema now siteID rolloutID ((role, cs) # items) gens idents db =
     (case parseDeviceChangeSet cs False of
        Inl e \<Rightarrow> (Inl e, db)
      | Inr ident \<Rightarrow>
          (case QueueDeviceChangeSetForRollout schema now siteID role (ci_device ident) cs rolloutID db of
             (Inl e, db') \<Rightarrow> (Inl e, db')
           | (Inr g, db') \<Rightarrow>
               queue_items schema now siteID rolloutID items ((ci_device ident, g) # gens) (idents @ [ident]) db'))"

definition InsertAuditLogContext ::
  "string \<Rightarrow> string \<Rightarrow> string \<Rightarrow> string \<Rightarrow> string \<Rightarrow> string \<Rightarrow> tenant_db \<Rightarrow> tenant_db" where
  "InsertAuditLogContext username action resourceType resourceID payload ip db =
     db\<lparr>audit_logs := audit_logs db @
        [\<lparr>au_username = username, au_action = action, au_resource_type = resourceType,
          au_resource_id = resourceID, au_payload = payload, au_ip = ip\<rparr>]\<rparr>"

definition queued_payload :: "string \<Rightarrow> generations \<Rightarrow> cs_identity \<Rightarrow> string" where
  "queued_payload rolloutID gens ident =
     ''Rollout '' @ rolloutID @ '' queued changeset '' @ ci_id ident @ '' for device '' @ ci_device ident
       @ '' at generation '' @ int_str (case map_of gens (ci_device ident) of None \<Rightarrow> 0 | Some g \<Rightarrow> g)"

definition audit_queued ::
  "string \<Rightarrow> string \<Rightarrow> string \<Rightarrow> string \<Rightarrow> rollout_draft \<Rightarrow> generations \<Rightarrow> cs_identity list \<Rightarrow> tenant_db \<Rightarrow> tenant_db" where
  "audit_queued username remoteAddr siteID rolloutID rec gens idents db =
     fold (\<lambda>ident. InsertAuditLogContext username ''SITE_ORCHESTRATOR_CHANGESET_QUEUED'' ''SITE'' siteID
             (queued_payload rolloutID gens ident) remoteAddr) idents
       (InsertAuditLogContext username ''SITE_ORCHESTRATOR_ROLLOUT_START'' ''SITE'' siteID
          (''Claimed rollout draft '' @ rolloutID @ '' rollout sequence '' @ int_str (rd_generation rec)
             @ '' plan_hash '' @ rd_plan_hash rec) remoteAddr db)"

definition ClaimAndQueueDeviceChangeSets ::
  "string \<Rightarrow> int \<Rightarrow> string \<Rightarrow> string \<Rightarrow> string \<Rightarrow> (string \<times> raw_message) list \<Rightarrow> raw_message \<Rightarrow> string \<Rightarrow> string
    \<Rightarrow> tenant_db \<Rightarrow> (db_error + generations) \<times> tenant_db" where
  "ClaimAndQueueDeviceChangeSets schema now token siteID rolloutID items queuedResults username remoteAddr db =
     (if items = [] then (Inl DbNoItems, db)
      else case SafeSchemaIdent schema of
        Inl e \<Rightarrow> (Inl e, db)
      | Inr _ \<Rightarrow>
          (case claimRolloutDraftTx now token siteID rolloutID db of
             (Inl e, _) \<Rightarrow> (Inl e, db)
           | (Inr rec, db1) \<Rightarrow>
               (case queue_items schema now siteID rolloutID items [] [] db1 of
                  (Inl e, _) \<Rightarrow> (Inl e, db)
                | (Inr (gens, idents), db2) \<Rightarrow>
                    (case addDeviceGenerations queuedResults gens of
                       Inl e \<Rightarrow> (Inl e, db)
                     | Inr results \<Rightarrow>
                         (case update_run
                                 (\<lambda>r. rr_id r = rolloutID \<and> rr_site r = siteID \<and> rr_status r = ''RUNNING''
                                    \<and> rr_claim_token r = Some (rd_claim_token rec))
                                 (\<lambda>r. r\<lparr>rr_status := ''QUEUED'', rr_results := results, rr_claim_token := None,
                                        rr_updated_at := now\<rparr>)
                                 DbDraftNotAvailable db2 of
                            (Inl e, _) \<Rightarrow> (Inl e, db)
                          | (Inr _, db3) \<Rightarrow>
                              (Inr gens, audit_queued username remoteAddr siteID rolloutID rec gens idents db3))))))"

definition ClaimAndQueueDeviceChangeSet ::
  "string \<Rightarrow> int \<Rightarrow> string \<Rightarrow> string \<Rightarrow> string \<Rightarrow> string \<Rightarrow> raw_message \<Rightarrow> raw_message \<Rightarrow> string \<Rightarrow> string
    \<Rightarrow> tenant_db \<Rightarrow> (db_error + int) \<times> tenant_db" where
  "ClaimAndQueueDeviceChangeSet schema now token siteID rolloutID role cs queuedResult username remoteAddr db =
     (case ClaimAndQueueDeviceChangeSets schema now token siteID rolloutID [(role, cs)] queuedResult username remoteAddr db of
        (Inl e, db') \<Rightarrow> (Inl e, db')
      | (Inr gens, db') \<Rightarrow>
          (case parseDeviceChangeSet cs False of
             Inl e \<Rightarrow> (Inl e, db')
           | Inr ident \<Rightarrow> (Inr (case map_of gens (ci_device ident) of None \<Rightarrow> 0 | Some g \<Rightarrow> g), db')))"

section \<open>Closing and releasing drafts\<close>

definition RejectRolloutDraft ::
  "string \<Rightarrow> int \<Rightarrow> string \<Rightarrow> string \<Rightarrow> string \<Rightarrow> tenant_db \<Rightarrow> (db_error + unit) \<times> tenant_db" where
  "RejectRolloutDraft schema now siteID rolloutID reason db =
     (case SafeSchemaIdent schema of
        Inl e \<Rightarrow> (Inl e, db)
      | Inr _ \<Rightarrow>
          update_run (\<lambda>r. rr_id r = rolloutID \<and> rr_site r = siteID \<and> rr_status r = ''DRAFT'')
            (\<lambda>r. r\<lparr>rr_status := ''REJECTED'',
                   rr_results := JArr [JObj [(''status'', JStr ''REJECTED''), (''error'', JStr reason)]],
                   rr_updated_at := now\<rparr>)
            DbDraftNotAvailable db)"

definition ReleaseRolloutDraft ::
  "string \<Rightarrow> int \<Rightarrow> string \<Rightarrow> string \<Rightarrow> string \<Rightarrow> tenant_db \<Rightarrow> (db_error + unit) \<times> tenant_db" where
  "ReleaseRolloutDraft schema now siteID rolloutID claimToken db =
     (case SafeSchemaIdent schema of
        Inl e \<Rightarrow> (Inl e, db)
      | Inr _ \<Rightarrow>
          update_run (\<lambda>r. rr_id r = rolloutID \<and> rr_site r = siteID \<and> rr_status r = ''RUNNING''
                        \<and> rr_claim_token r = Some claimToken)
            (\<lambda>r. r\<lparr>rr_status := ''DRAFT'', rr_claim_token := None, rr_updated_at := now\<rparr>)
            DbDraftNotAvailable db)"

definition MarkRolloutDraftStale ::
  "string \<Rightarrow> int \<Rightarrow> string \<Rightarrow> string \<Rightarrow> string \<Rightarrow> tenant_db \<Rightarrow> (db_error + unit) \<times> tenant_db" where
  "MarkRolloutDraftStale schema now siteID rolloutID claimToken db =
     (case SafeSchemaIdent schema of
        Inl e \<Rightarrow> (Inl e, db)
      | Inr _ \<Rightarrow>
          (case find (\<lambda>r. rr_id r = rolloutID \<and> rr_site r = siteID
                  \<and> (rr_status r = ''DRAFT'' \<or> rr_status r = ''RUNNING'' \<and> rr_claim_token r = Some claimToken))
                 (rollouts db) of
             None \<Rightarrow> (Inl DbDraftNotAvailable, db)
           | Some old \<Rightarrow>
               (case update_run (\<lambda>r. rr_id r = rolloutID \<and> rr_site r = siteID) (set_stale now)
                       DbDraftNotAvailable db of
                  (Inl e, _) \<Rightarrow> (Inl e, db)
                | (Inr _, db1) \<Rightarrow>
                    (Inr (), if rr_status old = ''RUNNING'' then fail_running_devices now siteID db1 else db1))))"

section \<open>The contract of the writers of runs\<close>

text \<open>
  A writer of \<open>rollout_runs\<close> may add runs, but it keeps the identity and the plan of every run, in
  the order of the table, and never moves a worker's cursor back.
\<close>

definition run_kept :: "rollout_row \<Rightarrow> rollout_row \<Rightarrow> bool" where
  "run_kept r r' \<longleftrightarrow>
     rr_id r' = rr_id r \<and> rr_site r' = rr_site r \<and> rr_generation r' = rr_generation r
     \<and> rr_plan_hash r' = rr_plan_hash r \<and> rr_requested_by r' = rr_requested_by r
     \<and> rr_targets r' = rr_targets r \<and> rr_plan r' = rr_plan r \<and> rr_cursor r \<le> rr_cursor r'"

definition runs_extend :: "tenant_db \<Rightarrow> tenant_db \<Rightarrow> bool" where
  "runs_extend db db' \<longleftrightarrow> (\<exists>rs new. rollouts db' = rs @ new \<and> list_all2 run_kept (rollouts db) rs)"

lemma run_kept_refl [simp]: "run_kept r r"
  by (simp add: run_kept_def)

lemma run_kept_trans: "run_kept a b \<Longrightarrow> run_kept b c \<Longrightarrow> run_kept a c"
  by (auto simp: run_kept_def)

lemma runs_extend_refl [simp]: "runs_extend db db"
  unfolding runs_extend_def by (intro exI [of _ "rollouts db"] exI [of _ "[]"]) (simp add: list_all2_refl)

lemma runs_extend_same [simp]: "rollouts db' = rollouts db \<Longrightarrow> runs_extend db db'"
  unfolding runs_extend_def by (intro exI [of _ "rollouts db"] exI [of _ "[]"]) (simp add: list_all2_refl)

lemma runs_extend_trans:
  assumes "runs_extend a b" "runs_extend b c"
  shows "runs_extend a c"
proof -
  from assms(1) obtain rs new where ab: "rollouts b = rs @ new" "list_all2 run_kept (rollouts a) rs"
    by (auto simp: runs_extend_def)
  from assms(2) obtain ss more where bc: "rollouts c = ss @ more" "list_all2 run_kept (rollouts b) ss"
    by (auto simp: runs_extend_def)
  from bc(2) ab(1) obtain s1 s2 where s: "ss = s1 @ s2" "list_all2 run_kept rs s1"
    by (auto simp: list_all2_append1)
  have "list_all2 run_kept (rollouts a) s1"
    by (rule list_all2_trans [OF run_kept_trans ab(2) s(2)])
  with bc(1) s(1) show ?thesis
    unfolding runs_extend_def by (intro exI [of _ s1] exI [of _ "s2 @ more"]) simp
qed

lemma runs_extend_map: "(\<And>r. r \<in> set (rollouts db) \<Longrightarrow> run_kept r (f r)) \<Longrightarrow> runs_extend db (update_rollouts f db)"
  unfolding runs_extend_def
  by (intro exI [of _ "map f (rollouts db)"] exI [of _ "[]"]) (simp add: list_all2_conv_all_nth)

lemma runs_extend_lookup:
  assumes "runs_extend db db'" "r \<in> set (rollouts db)"
  shows "\<exists>r' \<in> set (rollouts db'). run_kept r r'"
proof -
  from assms obtain rs new where rs: "rollouts db' = rs @ new" "list_all2 run_kept (rollouts db) rs"
    by (auto simp: runs_extend_def)
  from assms(2) obtain n where "n < length (rollouts db)" "rollouts db ! n = r"
    by (auto simp: in_set_conv_nth)
  with rs have "rs ! n \<in> set (rollouts db')" "run_kept r (rs ! n)"
    by (auto simp: list_all2_conv_all_nth)
  then show ?thesis by blast
qed

locale rollout_writer =
  fixes perform :: "'req \<Rightarrow> tenant_db \<Rightarrow> tenant_db"
  assumes extends: "runs_extend db (perform req db)"
begin

lemma run_extends: "runs_extend db (fold perform reqs db)"
  by (induction reqs arbitrary: db) (auto intro: runs_extend_trans extends)

lemma plan_kept:
  "r \<in> set (rollouts db) \<Longrightarrow> \<exists>r' \<in> set (rollouts (fold perform reqs db)).
     rr_id r' = rr_id r \<and> rr_plan r' = rr_plan r \<and> rr_plan_hash r' = rr_plan_hash r \<and> rr_cursor r \<le> rr_cursor r'"
  using runs_extend_lookup [OF run_extends] by (fastforce simp: run_kept_def)

end

text \<open>A writer of both tables keeps both contracts.\<close>

locale control_writer = device_writer perform + rollout_writer perform
  for perform :: "'req \<Rightarrow> tenant_db \<Rightarrow> tenant_db"

section \<open>Every draft operation keeps the contracts\<close>

lemma update_run_extend:
  "(\<And>r. run_kept r (f r)) \<Longrightarrow> runs_extend db (snd (update_run P f e db))"
  by (auto simp: update_run_def intro: runs_extend_map)

lemma update_run_devices [simp]: "devices (snd (update_run P f e db)) = devices db"
  by (simp add: update_run_def)

lemma set_stale_kept [simp]: "run_kept r (set_stale now r)"
  by (simp add: run_kept_def set_stale_def)

lemma claim_row_kept [simp]: "run_kept r (claim_row now token site i rs r)"
  by (simp add: run_kept_def claim_row_def set_stale_def)

lemma fail_running_progress: "db_progress db (fail_running_devices now site db)"
  by (auto simp: db_progress_def fail_running_devices_def rel_option_iff row_progress_def exclusive_def
      split: option.splits)

lemma fail_running_rollouts [simp]:
  "rollouts (fail_running_devices now site db) = rollouts db"
  "audit_logs (fail_running_devices now site db) = audit_logs db"
  by (simp_all add: fail_running_devices_def)

lemma claim_tx_db:
  "snd (claimRolloutDraftTx now token site i db) =
     update_rollouts (claim_row now token site i (rollouts db))
       (if list_ex (expired_run now site) (rollouts db) then fail_running_devices now site db else db)"
  by (simp add: claimRolloutDraftTx_def Let_def split: option.split)

lemma claim_tx_contract:
  "db_progress db (snd (claimRolloutDraftTx now token site i db))"
  "runs_extend db (snd (claimRolloutDraftTx now token site i db))"
proof -
  show "db_progress db (snd (claimRolloutDraftTx now token site i db))"
    by (simp add: claim_tx_db fail_running_progress)
  have "runs_extend db (if list_ex (expired_run now site) (rollouts db) then fail_running_devices now site db else db)"
    by simp
  then show "runs_extend db (snd (claimRolloutDraftTx now token site i db))"
    unfolding claim_tx_db by (rule runs_extend_trans) (rule runs_extend_map, simp)
qed

lemma queue_items_contract:
  "db_progress db (snd (queue_items schema now site i items gens idents db))
   \<and> rollouts (snd (queue_items schema now site i items gens idents db)) = rollouts db"
proof (induction items arbitrary: gens idents db)
  case (Cons item items)
  obtain role cs where item: "item = (role, cs)" by (cases item)
  show ?case
  proof (cases "parseDeviceChangeSet cs False")
    case (Inl e)
    then show ?thesis by (simp add: item)
  next
    case (Inr ident)
    define q where "q = QueueDeviceChangeSetForRollout schema now site role (ci_device ident) cs i db"
    have q: "db_progress db (snd q)" "rollouts (snd q) = rollouts db"
      by (simp_all add: q_def QueueDeviceChangeSetForRollout_def queueDeviceChangeSet_progress)
    obtain res db' where res: "q = (res, db')" by (cases q)
    with q Cons.IH [where db = db'] show ?thesis
      by (cases res) (auto simp: item Inr q_def [symmetric] intro: db_progress_trans)
  qed
qed simp

lemma audit_insert_simps [simp]:
  "devices (InsertAuditLogContext u a t i p ip db) = devices db"
  "rollouts (InsertAuditLogContext u a t i p ip db) = rollouts db"
  by (simp_all add: InsertAuditLogContext_def)

lemma audit_fold_simps:
  "devices (fold (\<lambda>x. InsertAuditLogContext u a t i (p x) ip) xs db) = devices db"
  "rollouts (fold (\<lambda>x. InsertAuditLogContext u a t i (p x) ip) xs db) = rollouts db"
  by (induction xs arbitrary: db) simp_all

lemma audit_queued_simps [simp]:
  "devices (audit_queued u ip site i rec gens idents db) = devices db"
  "rollouts (audit_queued u ip site i rec gens idents db) = rollouts db"
  by (simp_all add: audit_queued_def audit_fold_simps)

lemma ClaimAndQueue_outcome:
  "(\<exists>e. ClaimAndQueueDeviceChangeSets schema now token site i items qr u ip db = (Inl e, db)) \<or>
   (\<exists>rec db1 gens idents db2 results db3.
      isValidSchemaName schema \<and> items \<noteq> []
      \<and> claimRolloutDraftTx now token site i db = (Inr rec, db1)
      \<and> queue_items schema now site i items [] [] db1 = (Inr (gens, idents), db2)
      \<and> addDeviceGenerations qr gens = Inr results
      \<and> update_run (\<lambda>r. rr_id r = i \<and> rr_site r = site \<and> rr_status r = ''RUNNING''
              \<and> rr_claim_token r = Some (rd_claim_token rec))
           (\<lambda>r. r\<lparr>rr_status := ''QUEUED'', rr_results := results, rr_claim_token := None, rr_updated_at := now\<rparr>)
           DbDraftNotAvailable db2 = (Inr (), db3)
      \<and> ClaimAndQueueDeviceChangeSets schema now token site i items qr u ip db
          = (Inr gens, audit_queued u ip site i rec gens idents db3))"
  by (auto simp: ClaimAndQueueDeviceChangeSets_def SafeSchemaIdent_def split: prod.split sum.split)

lemma ClaimAndQueue_contract:
  "db_progress db (snd (ClaimAndQueueDeviceChangeSets schema now token site i items qr u ip db))
   \<and> runs_extend db (snd (ClaimAndQueueDeviceChangeSets schema now token site i items qr u ip db))"
  using ClaimAndQueue_outcome [of schema now token site i items qr u ip db]
proof (elim disjE exE conjE)
  fix e assume "ClaimAndQueueDeviceChangeSets schema now token site i items qr u ip db = (Inl e, db)"
  then show ?thesis by simp
next
  fix rec db1 gens idents db2 results db3
  assume claim: "claimRolloutDraftTx now token site i db = (Inr rec, db1)"
    and queue: "queue_items schema now site i items [] [] db1 = (Inr (gens, idents), db2)"
    and upd: "update_run (\<lambda>r. rr_id r = i \<and> rr_site r = site \<and> rr_status r = ''RUNNING''
              \<and> rr_claim_token r = Some (rd_claim_token rec))
           (\<lambda>r. r\<lparr>rr_status := ''QUEUED'', rr_results := results, rr_claim_token := None, rr_updated_at := now\<rparr>)
           DbDraftNotAvailable db2 = (Inr (), db3)"
    and res: "ClaimAndQueueDeviceChangeSets schema now token site i items qr u ip db
          = (Inr gens, audit_queued u ip site i rec gens idents db3)"
  have 1: "db_progress db db1" "runs_extend db db1" using claim_tx_contract [of db now token site i] claim by simp_all
  have 2: "db_progress db1 db2" "rollouts db2 = rollouts db1"
    using queue_items_contract [of db1 schema now site i items "[]" "[]"] queue by simp_all
  have 3: "devices db3 = devices db2" using arg_cong [OF upd, of "\<lambda>x. devices (snd x)"] by simp
  have "runs_extend db2 (snd (update_run (\<lambda>r. rr_id r = i \<and> rr_site r = site \<and> rr_status r = ''RUNNING''
              \<and> rr_claim_token r = Some (rd_claim_token rec))
           (\<lambda>r. r\<lparr>rr_status := ''QUEUED'', rr_results := results, rr_claim_token := None, rr_updated_at := now\<rparr>)
           DbDraftNotAvailable db2))"
    by (rule update_run_extend) (simp add: run_kept_def)
  then have 4: "runs_extend db2 db3" by (simp only: upd snd_conv)
  have "db_progress db db3"
    using db_progress_trans [OF 1(1) 2(1)] 3 by (simp add: db_progress_def)
  moreover have "runs_extend db db3"
    using runs_extend_trans [OF 1(2) runs_extend_trans [OF runs_extend_same [OF 2(2)] 4]] .
  ultimately show ?thesis by (simp add: res db_progress_def runs_extend_def)
qed


text \<open>The operations of the component as requests, and one step of the component.\<close>

datatype draft_request =
    Create int string string string string raw_message raw_message
  | Claim int string string string
  | ClaimQueue int string string string "(string \<times> raw_message) list" raw_message string string
  | Reject int string string string
  | Release int string string string
  | Stale int string string string

fun draft_step :: "string \<Rightarrow> draft_request \<Rightarrow> tenant_db \<Rightarrow> tenant_db" where
  "draft_step schema (Create now newID site by hash ts pl) db = snd (CreateRolloutDraft schema now newID site by hash ts pl db)"
| "draft_step schema (Claim now token site i) db = snd (ClaimRolloutDraft schema now token site i db)"
| "draft_step schema (ClaimQueue now token site i items qr u ip) db =
     snd (ClaimAndQueueDeviceChangeSets schema now token site i items qr u ip db)"
| "draft_step schema (Reject now site i reason) db = snd (RejectRolloutDraft schema now site i reason db)"
| "draft_step schema (Release now site i token) db = snd (ReleaseRolloutDraft schema now site i token db)"
| "draft_step schema (Stale now site i token) db = snd (MarkRolloutDraftStale schema now site i token db)"

lemma Create_contract:
  "db_progress db (snd (CreateRolloutDraft schema now newID site by hash ts pl db))
   \<and> runs_extend db (snd (CreateRolloutDraft schema now newID site by hash ts pl db))"
proof (cases "snd (CreateRolloutDraft schema now newID site by hash ts pl db) = db")
  case False
  let ?f = "\<lambda>r. if rr_site r = site \<and> rr_status r = ''DRAFT'' \<and> rr_generation r < next_sequence site (rollouts db)
      then set_stale now r else r"
  from False obtain row where
    "rollouts (snd (CreateRolloutDraft schema now newID site by hash ts pl db)) = map ?f (rollouts db) @ [row]"
    "devices (snd (CreateRolloutDraft schema now newID site by hash ts pl db)) = devices db"
    by (auto simp: CreateRolloutDraft_def Let_def split: sum.splits option.splits if_splits)
  moreover have "list_all2 run_kept (rollouts db) (map ?f (rollouts db))"
    by (simp add: list_all2_conv_all_nth)
  ultimately show ?thesis
    by (auto simp: runs_extend_def intro: db_progress_same_devices)
qed simp

lemma Claim_contract:
  "db_progress db (snd (ClaimRolloutDraft schema now token site i db))
   \<and> runs_extend db (snd (ClaimRolloutDraft schema now token site i db))"
  using claim_tx_contract [of db now token site i]
  by (auto simp: ClaimRolloutDraft_def split: sum.split prod.split)

lemma update_run_contract:
  "(\<And>r. run_kept r (f r)) \<Longrightarrow>
     db_progress db (snd (update_run P f e db)) \<and> runs_extend db (snd (update_run P f e db))"
  by (simp add: update_run_extend db_progress_same_devices)

lemma close_contract:
  "db_progress db (snd (RejectRolloutDraft schema now site i reason db))
   \<and> runs_extend db (snd (RejectRolloutDraft schema now site i reason db))"
  "db_progress db (snd (ReleaseRolloutDraft schema now site i tok db))
   \<and> runs_extend db (snd (ReleaseRolloutDraft schema now site i tok db))"
  by (auto simp: RejectRolloutDraft_def ReleaseRolloutDraft_def run_kept_def split: sum.split
      intro!: update_run_contract [THEN conjunct1] update_run_contract [THEN conjunct2])

lemma Stale_contract:
  "db_progress db (snd (MarkRolloutDraftStale schema now site i tok db))
   \<and> runs_extend db (snd (MarkRolloutDraftStale schema now site i tok db))"
proof -
  let ?u = "update_run (\<lambda>r. rr_id r = i \<and> rr_site r = site) (set_stale now) DbDraftNotAvailable db"
  have u: "db_progress db (snd ?u)" "runs_extend db (snd ?u)"
    using update_run_contract [of "set_stale now"] by simp_all
  have "db_progress db (fail_running_devices now site (snd ?u))"
    by (rule db_progress_trans [OF u(1) fail_running_progress])
  moreover have "runs_extend db (fail_running_devices now site (snd ?u))"
    using u(2) by (simp add: runs_extend_def)
  ultimately show ?thesis
    using u by (auto simp: MarkRolloutDraftStale_def split: sum.split option.split prod.split)
qed

lemma draft_step_contract: "db_progress db (draft_step schema req db) \<and> runs_extend db (draft_step schema req db)"
  by (cases req) (simp_all add: Create_contract Claim_contract ClaimAndQueue_contract close_contract Stale_contract)

interpretation drafts: control_writer "draft_step schema" for schema
  by unfold_locales (simp_all add: draft_step_contract)

lemma settle_rollout_kept: "run_kept r (settle_rollout now i site ident st f r)"
  by (simp add: settle_rollout_def run_kept_def)

lemma cs_report_extend: "runs_extend db (cs_report schema req db)"
proof -
  obtain now i status where req: "req = (now, i, status)" by (cases req)
  show ?thesis
  proof (cases rule: RecordDeviceChangeSetStatus_cases [of schema now i status db])
    case (refused e)
    then show ?thesis by (simp add: req cs_report_def)
  next
    case (applied ident j e d)
    let ?db = "update_device i (record_cs_row now j i ident (ce_state e)) db"
    have "runs_extend db ?db" by simp
    moreover from calculation have "runs_extend db (update_rollouts (settle_rollout now i (dv_site d) ident (ce_state e) (ce_failure e)) ?db)"
      by (rule runs_extend_trans) (rule runs_extend_map, rule settle_rollout_kept)
    ultimately show ?thesis
      using applied(6) by (simp add: req cs_report_def)
  qed
qed

interpretation cs_report_runs: rollout_writer "cs_report schema" for schema
  by unfold_locales (rule cs_report_extend)

section \<open>Sequences and drafts\<close>

text \<open>The primary key and the unique pair of site and sequence.\<close>

definition runs_wf :: "tenant_db \<Rightarrow> bool" where
  "runs_wf db \<longleftrightarrow> distinct (map rr_id (rollouts db)) \<and> distinct (map (\<lambda>r. (rr_site r, rr_generation r)) (rollouts db))"

lemma next_sequence_greater:
  assumes "r \<in> set rs" "rr_site r = site"
  shows "rr_generation r < next_sequence site rs"
proof -
  let ?gens = "map rr_generation (filter (\<lambda>r. rr_site r = site) rs)"
  have "rr_generation r \<in> set ?gens" using assms by auto
  then have "?gens \<noteq> []" "rr_generation r \<le> Max (set ?gens)" by (auto simp del: set_map)
  then show ?thesis by (simp add: next_sequence_def Let_def)
qed

lemma runs_wf_by_id:
  "runs_wf db \<Longrightarrow> r \<in> set (rollouts db) \<Longrightarrow> s \<in> set (rollouts db) \<Longrightarrow> rr_id r = rr_id s \<Longrightarrow> r = s"
  by (auto simp: runs_wf_def distinct_map inj_on_def)

lemma runs_wf_by_generation:
  "runs_wf db \<Longrightarrow> r \<in> set (rollouts db) \<Longrightarrow> s \<in> set (rollouts db) \<Longrightarrow> rr_site r = rr_site s
     \<Longrightarrow> rr_generation r = rr_generation s \<Longrightarrow> r = s"
  by (auto simp: runs_wf_def distinct_map inj_on_def)

lemma set_stale_simps [simp]:
  "rr_id (set_stale now r) = rr_id r" "rr_site (set_stale now r) = rr_site r"
  "rr_generation (set_stale now r) = rr_generation r" "rr_status (set_stale now r) = ''STALE''"
  by (simp_all add: set_stale_def)

lemma Create_success:
  assumes "CreateRolloutDraft schema now newID site by hash ts pl db = (Inr rec, db')"
  shows "\<exists>row t p. ts = Some t \<and> pl = Some p \<and> isValidSchemaName schema \<and> length hash \<le> 64
     \<and> row = \<lparr>rr_id = newID, rr_site = site, rr_generation = next_sequence site (rollouts db), rr_status = ''DRAFT'',
          rr_claim_token = None, rr_worker_token = None, rr_lease_until = None, rr_cursor = 0,
          rr_plan_hash = pad64 hash, rr_requested_by = by, rr_targets = t, rr_plan = p, rr_results = JArr [], rr_updated_at = now\<rparr>
     \<and> rec = (draft_of_row row)\<lparr>rd_plan_hash := hash\<rparr>
     \<and> rollouts db' = map (\<lambda>r. if rr_site r = site \<and> rr_status r = ''DRAFT'' \<and> rr_generation r < next_sequence site (rollouts db)
          then set_stale now r else r) (rollouts db) @ [row]"
  using assms
  by (cases ts; cases pl)
    (auto simp: CreateRolloutDraft_def Let_def draft_of_row_def SafeSchemaIdent_def split: if_splits)

lemma find_appended:
  "\<forall>x \<in> set xs. \<not> P x \<Longrightarrow> P y \<Longrightarrow> find P (xs @ [y]) = Some y"
  by (induction xs) auto

lemma create_then_get:
  assumes "CreateRolloutDraft schema now newID site by hash ts pl db = (Inr rec, db')"
    "runs_wf db" "newID \<notin> set (map rr_id (rollouts db))" "length hash = 64"
  shows "runs_wf db' \<and> GetRolloutDraft schema site newID db' = Inr rec"
proof -
  let ?f = "\<lambda>r. if rr_site r = site \<and> rr_status r = ''DRAFT'' \<and> rr_generation r < next_sequence site (rollouts db)
      then set_stale now r else r"
  obtain row where row: "rollouts db' = map ?f (rollouts db) @ [row]" "rec = (draft_of_row row)\<lparr>rd_plan_hash := hash\<rparr>"
    "rr_id row = newID" "rr_site row = site" "rr_generation row = next_sequence site (rollouts db)"
    "rr_plan_hash row = pad64 hash" "isValidSchemaName schema"
    using Create_success [OF assms(1)] by auto
  have ids: "map rr_id (rollouts db') = map rr_id (rollouts db) @ [newID]"
    "map (\<lambda>r. (rr_site r, rr_generation r)) (rollouts db')
       = map (\<lambda>r. (rr_site r, rr_generation r)) (rollouts db) @ [(site, next_sequence site (rollouts db))]"
    using row(3-5) by (simp_all add: row(1))
  have "(site, next_sequence site (rollouts db)) \<notin> set (map (\<lambda>r. (rr_site r, rr_generation r)) (rollouts db))"
    using next_sequence_greater [of _ "rollouts db" site] by fastforce
  then have "runs_wf db'"
    using assms(2,3) unfolding runs_wf_def ids by simp
  moreover have "pad64 hash = hash" using assms(4) by (simp add: pad64_def)
  then have "rec = draft_of_row row" using row by (simp add: draft_of_row_def)
  moreover have "find (\<lambda>r. rr_id r = newID \<and> rr_site r = site) (rollouts db') = Some row"
    unfolding row(1) using assms(3) row(3,4) by (intro find_appended) (auto simp: image_iff)
  ultimately show ?thesis using row(7) by (simp add: GetRolloutDraft_def)
qed

text \<open>
  Creating a draft numbers it above every earlier run of the site, keeps ids and sequence
  numbers unique, leaves it as the only draft of the site, and reading it back returns the created record.
\<close>

theorem create_draft_roundtrip:
  assumes "CreateRolloutDraft schema now newID site by hash ts pl db = (Inr rec, db')"
    "runs_wf db" "newID \<notin> set (map rr_id (rollouts db))" "length hash = 64"
  shows "runs_wf db' \<and> GetRolloutDraft schema site newID db' = Inr rec
     \<and> (\<forall>r \<in> set (rollouts db). rr_site r = site \<longrightarrow> rr_generation r < rd_generation rec)
     \<and> (\<forall>r \<in> set (rollouts db'). rr_site r = site \<and> rr_status r = ''DRAFT'' \<longrightarrow> rr_id r = newID)"
proof -
  let ?f = "\<lambda>r. if rr_site r = site \<and> rr_status r = ''DRAFT'' \<and> rr_generation r < next_sequence site (rollouts db)
      then set_stale now r else r"
  obtain row where row: "rollouts db' = map ?f (rollouts db) @ [row]" "rec = (draft_of_row row)\<lparr>rd_plan_hash := hash\<rparr>"
    "rr_id row = newID" "rr_generation row = next_sequence site (rollouts db)"
    using Create_success [OF assms(1)] by auto
  have "\<forall>r \<in> set (rollouts db). rr_site r = site \<longrightarrow> rr_generation r < rd_generation rec"
    using next_sequence_greater [of _ "rollouts db" site] row(2,4) by (simp add: draft_of_row_def)
  moreover have "\<forall>r \<in> set (rollouts db'). rr_site r = site \<and> rr_status r = ''DRAFT'' \<longrightarrow> rr_id r = newID"
  proof (intro ballI impI)
    fix r assume r: "r \<in> set (rollouts db')" and d: "rr_site r = site \<and> rr_status r = ''DRAFT''"
    from r consider "r = row" | x where "x \<in> set (rollouts db)" "r = ?f x" unfolding row(1) by auto
    then show "rr_id r = newID"
    proof cases
      case 2
      with d next_sequence_greater [OF 2(1)] have False by (simp split: if_splits)
      then show ?thesis ..
    qed (simp add: row(3))
  qed
  ultimately show ?thesis using create_then_get [OF assms] by blast
qed

definition sample_hash :: string where
  "sample_hash = replicate 64 CHR ''a''"

theorem create_draft_roundtrip_witness:
  "\<exists>rec db'. CreateRolloutDraft ''tenant_a'' 10 ''r-1'' ''site-1'' ''ops'' sample_hash (Some (JArr [])) (Some (JObj [])) sample_cs_db = (Inr rec, db')
     \<and> GetRolloutDraft ''tenant_a'' ''site-1'' ''r-1'' db' = Inr rec \<and> rd_generation rec = 1"
proof -
  have "isValidSchemaName ''tenant_a''" by code_simp
  then obtain rec db' where c: "CreateRolloutDraft ''tenant_a'' 10 ''r-1'' ''site-1'' ''ops'' sample_hash (Some (JArr []))
      (Some (JObj [])) sample_cs_db = (Inr rec, db')" and g: "rd_generation rec = 1"
    by (simp add: CreateRolloutDraft_def Let_def sample_cs_db_def sample_db_def next_sequence_def max_int64_def sample_hash_def)
  from create_draft_roundtrip [OF c] have "GetRolloutDraft ''tenant_a'' ''site-1'' ''r-1'' db' = Inr rec"
    by (simp add: runs_wf_def sample_cs_db_def sample_db_def sample_hash_def)
  with c g show ?thesis by blast
qed

section \<open>Claims\<close>

lemma claim_row_cases:
  "r' = claim_row now token site i rs r \<Longrightarrow>
     rr_id r' = rr_id r \<and> rr_site r' = rr_site r \<and> rr_generation r' = rr_generation r \<and>
     (r' = r \<and> \<not> claim_candidate now site i rs r \<and> \<not> expired_run now site r
        \<and> \<not> (rr_site r = site \<and> rr_status r = ''DRAFT'' \<and> newer_draft site rs r)
      \<or> rr_status r' = ''STALE''
      \<or> claim_candidate now site i rs r \<and> rr_status r' = ''RUNNING'' \<and> rr_claim_token r' = Some token \<and> rr_updated_at r' = now)"
  by (auto simp: claim_row_def)

lemma claim_success:
  assumes "claimRolloutDraftTx now token site i db = (Inr rec, db')"
  shows "\<exists>r \<in> set (rollouts db). claim_candidate now site i (rollouts db) r
     \<and> claim_row now token site i (rollouts db) r = r\<lparr>rr_status := ''RUNNING'', rr_claim_token := Some token, rr_updated_at := now\<rparr>
     \<and> rec = draft_of_row (r\<lparr>rr_status := ''RUNNING'', rr_claim_token := Some token, rr_updated_at := now\<rparr>)
     \<and> rollouts db' = map (claim_row now token site i (rollouts db)) (rollouts db)"
proof -
  obtain r where r: "find (claim_candidate now site i (rollouts db)) (rollouts db) = Some r"
    "rec = draft_of_row (claim_row now token site i (rollouts db) r)"
    using assms by (auto simp: claimRolloutDraftTx_def Let_def split: option.splits)
  have "rollouts db' = map (claim_row now token site i (rollouts db)) (rollouts db)"
    using claim_tx_db [of now token site i db] assms by simp
  moreover have "claim_candidate now site i (rollouts db) r" "r \<in> set (rollouts db)"
    using r(1) by (auto simp: find_Some_iff)
  moreover from calculation have
    "claim_row now token site i (rollouts db) r = r\<lparr>rr_status := ''RUNNING'', rr_claim_token := Some token, rr_updated_at := now\<rparr>"
    by (auto simp: claim_row_def claim_candidate_def expired_run_def)
  ultimately show ?thesis using r(2) by auto
qed

lemma claim_db:
  "ClaimRolloutDraft schema now token site i db = (Inr rec, db') \<longleftrightarrow>
     isValidSchemaName schema \<and> claimRolloutDraftTx now token site i db = (Inr rec, db')"
  by (auto simp: ClaimRolloutDraft_def SafeSchemaIdent_def split: sum.splits prod.splits)

lemma claim_refused:
  "\<not> list_ex (claim_candidate now site i (rollouts db)) (rollouts db) \<Longrightarrow>
     \<exists>e. ClaimRolloutDraft schema now token site i db = (Inl e, db)"
  using find_None_iff [of "claim_candidate now site i (rollouts db)" "rollouts db"]
  by (auto simp: ClaimRolloutDraft_def claimRolloutDraftTx_def Let_def list_ex_iff split: sum.split)

text \<open>The runs of the site after a claim: one is running, under the new token, and none is a draft.\<close>

lemma claimed_runs:
  assumes "claimRolloutDraftTx now token site i db = (Inr rec, db')" "runs_wf db" "r' \<in> set (rollouts db')" "rr_site r' = site"
  shows "rr_status r' \<noteq> ''DRAFT'' \<and>
     (rr_status r' = ''RUNNING'' \<longrightarrow> rr_id r' = i \<and> rr_claim_token r' = Some token \<and> rr_updated_at r' = now)"
proof -
  obtain c where c: "c \<in> set (rollouts db)" "claim_candidate now site i (rollouts db) c"
    "rollouts db' = map (claim_row now token site i (rollouts db)) (rollouts db)"
    using claim_success [OF assms(1)] by blast
  then obtain r where r: "r \<in> set (rollouts db)" "r' = claim_row now token site i (rollouts db) r"
    using assms(3) by auto
  have fresh: "\<not> fresh_running now (Some site) r" using c(2) r(1) by (auto simp: claim_candidate_def list_ex_iff)
  have site: "rr_site r = site" using claim_row_cases [OF r(2)] assms(4) by simp
  have cand: "rr_site c = site" "rr_status c = ''DRAFT''" "\<not> newer_draft site (rollouts db) c"
    using c(2) by (simp_all add: claim_candidate_def)
  have draft: "newer_draft site (rollouts db) r \<or> r = c" if "rr_status r = ''DRAFT''"
  proof (cases "rr_generation r" "rr_generation c" rule: linorder_cases)
    case less
    with c(1) cand show ?thesis by (auto simp: newer_draft_def list_ex_iff)
  next
    case equal
    with runs_wf_by_generation [OF assms(2) r(1) c(1)] site cand show ?thesis by simp
  next
    case greater
    with r(1) site that cand(3) show ?thesis by (auto simp: newer_draft_def list_ex_iff)
  qed
  have running: "expired_run now site r" if "rr_status r = ''RUNNING''"
    using fresh site that by (simp add: expired_run_def fresh_running_def)
  from claim_row_cases [OF r(2)]
  consider "r' = r" "\<not> claim_candidate now site i (rollouts db) r" "\<not> expired_run now site r"
      "\<not> (rr_site r = site \<and> rr_status r = ''DRAFT'' \<and> newer_draft site (rollouts db) r)"
    | "rr_status r' = ''STALE''"
    | "claim_candidate now site i (rollouts db) r" "rr_id r' = rr_id r" "rr_status r' = ''RUNNING''"
      "rr_claim_token r' = Some token" "rr_updated_at r' = now"
    by blast
  then show ?thesis
  proof cases
    case 1
    with draft running site c(2) show ?thesis by metis
  next
    case 2
    then show ?thesis by simp
  next
    case 3
    then show ?thesis by (simp add: claim_candidate_def)
  qed
qed


definition sample_draft_db :: tenant_db where
  "sample_draft_db = sample_cs_db\<lparr>rollouts := [sample_run\<lparr>rr_status := ''DRAFT''\<rparr>]\<rparr>"

lemma sample_draft_wf: "runs_wf sample_draft_db"
  by (simp add: runs_wf_def sample_draft_db_def)

lemma sample_claim:
  "\<exists>rec db'. ClaimRolloutDraft ''tenant_a'' 100 ''tok'' ''site-1'' ''r-1'' sample_draft_db = (Inr rec, db')"
proof -
  have "claim_candidate 100 ''site-1'' ''r-1'' (rollouts sample_draft_db) (sample_run\<lparr>rr_status := ''DRAFT''\<rparr>)"
    by code_simp
  moreover have "isValidSchemaName ''tenant_a''" by code_simp
  moreover have "rollouts sample_draft_db = [sample_run\<lparr>rr_status := ''DRAFT''\<rparr>]"
    by (simp add: sample_draft_db_def)
  ultimately show ?thesis
    by (simp add: ClaimRolloutDraft_def claimRolloutDraftTx_def Let_def)
qed


lemma claimed_row:
  assumes "claimRolloutDraftTx now token site i db = (Inr rec, db')"
  shows "\<exists>r \<in> set (rollouts db'). rr_id r = i \<and> rr_site r = site \<and> rr_status r = ''RUNNING'' \<and> rr_claim_token r = Some token"
proof -
  obtain r where r: "r \<in> set (rollouts db)" "claim_candidate now site i (rollouts db) r"
    "claim_row now token site i (rollouts db) r = r\<lparr>rr_status := ''RUNNING'', rr_claim_token := Some token, rr_updated_at := now\<rparr>"
    "rollouts db' = map (claim_row now token site i (rollouts db)) (rollouts db)"
    using claim_success [OF assms] by blast
  have "claim_row now token site i (rollouts db) r \<in> set (rollouts db')" using r(1,4) by simp
  with r(2,3) show ?thesis
    by (intro bexI [of _ "claim_row now token site i (rollouts db) r"]) (simp_all add: claim_candidate_def)
qed

lemma claimed_ids:
  assumes "claimRolloutDraftTx now token site i db = (Inr rec, db')" "runs_wf db"
    "r \<in> set (rollouts db')" "s \<in> set (rollouts db')" "rr_id r = rr_id s"
  shows "r = s"
proof -
  obtain x y where x: "x \<in> set (rollouts db)" "r = claim_row now token site i (rollouts db) x"
    and y: "y \<in> set (rollouts db)" "s = claim_row now token site i (rollouts db) y"
    using claim_success [OF assms(1)] assms(3,4) by auto
  have "x = y" using runs_wf_by_id [OF assms(2) x(1) y(1)] assms(5) claim_row_cases [OF x(2)] claim_row_cases [OF y(2)] by simp
  then show ?thesis using x y by simp
qed

lemma claim_succeeds:
  assumes "isValidSchemaName schema" "r \<in> set (rollouts db)" "claim_candidate now site i (rollouts db) r"
  shows "\<exists>rec db'. ClaimRolloutDraft schema now token site i db = (Inr rec, db')"
proof -
  have "find (claim_candidate now site i (rollouts db)) (rollouts db) \<noteq> None"
    using assms(2,3) by (auto simp: find_None_iff)
  then show ?thesis using assms(1) by (auto simp: ClaimRolloutDraft_def claimRolloutDraftTx_def Let_def)
qed

text \<open>
  Claims are fenced by their token: a release with another token is refused and changes
  nothing, a release with the token returns the run to a draft, and the draft can then be claimed
  again at once, by anyone.
\<close>

theorem release_fenced:
  assumes "ClaimRolloutDraft schema now token site i db = (Inr rec, db')" "runs_wf db"
  shows "(tok \<noteq> token \<longrightarrow> ReleaseRolloutDraft schema t site i tok db' = (Inl DbDraftNotAvailable, db'))
     \<and> (\<exists>db''. ReleaseRolloutDraft schema t site i token db' = (Inr (), db'')
          \<and> (\<exists>rec2 db3. ClaimRolloutDraft schema later token2 site i db'' = (Inr rec2, db3)))"
proof -
  have tx: "claimRolloutDraftTx now token site i db = (Inr rec, db')" and schema: "isValidSchemaName schema"
    using assms(1) by (simp_all add: claim_db)
  note runs = claimed_runs [OF tx assms(2)]
  let ?P = "\<lambda>tok r. rr_id r = i \<and> rr_site r = site \<and> rr_status r = ''RUNNING'' \<and> rr_claim_token r = Some tok"
  let ?f = "\<lambda>r. r\<lparr>rr_status := ''DRAFT'', rr_claim_token := None, rr_updated_at := t\<rparr>"
  have "\<not> list_ex (?P tok) (rollouts db')" if "tok \<noteq> token"
    using runs that by (auto simp: list_ex_iff)
  then have wrong: "tok \<noteq> token \<longrightarrow> ReleaseRolloutDraft schema t site i tok db' = (Inl DbDraftNotAvailable, db')"
    using schema by (simp add: ReleaseRolloutDraft_def update_run_def)
  obtain c where c: "c \<in> set (rollouts db')" "?P token c" using claimed_row [OF tx] by blast
  define db2 where "db2 = update_rollouts (\<lambda>r. if ?P token r then ?f r else r) db'"
  have rel: "ReleaseRolloutDraft schema t site i token db' = (Inr (), db2)"
    using c schema by (auto simp: ReleaseRolloutDraft_def update_run_def db2_def list_ex_iff)
  have site2: "rr_status r = ''DRAFT'' \<longrightarrow> rr_generation r = rr_generation c" "rr_status r \<noteq> ''RUNNING''"
    if r: "r \<in> set (rollouts db2)" "rr_site r = site" for r
  proof -
    obtain q where q: "q \<in> set (rollouts db')" "r = (if ?P token q then ?f q else q)"
      using r(1) unfolding db2_def update_rollouts_simps set_map by blast
    have qs: "rr_site q = site" using q(2) r(2) by (cases "?P token q") simp_all
    have same: "q = c" if "?P token q"
      using claimed_ids [OF tx assms(2) q(1) c(1)] that c(2) by simp
    have "(rr_status r = ''DRAFT'' \<longrightarrow> rr_generation r = rr_generation c) \<and> rr_status r \<noteq> ''RUNNING''"
    proof (cases "?P token q")
      case True
      have "r = ?f c" using q(2) same [OF True] True by simp
      then show ?thesis by simp
    next
      case False
      have "r = q" using q(2) False by simp
      with runs [OF q(1) qs] False qs show ?thesis by metis
    qed
    then show "rr_status r = ''DRAFT'' \<longrightarrow> rr_generation r = rr_generation c" "rr_status r \<noteq> ''RUNNING''" by blast+
  qed
  have cand: "claim_candidate later site i (rollouts db2) (?f c)"
  proof -
    have "\<not> newer_draft site (rollouts db2) (?f c)"
      using site2(1) by (auto simp: newer_draft_def list_ex_iff)
    moreover have "\<not> list_ex (fresh_running later (Some site)) (rollouts db2)"
      using site2(2) by (auto simp: list_ex_iff fresh_running_def)
    ultimately show ?thesis using c(2) by (simp add: claim_candidate_def)
  qed
  have "?f c \<in> set (rollouts db2)" using c unfolding db2_def update_rollouts_simps set_map by (intro image_eqI [of _ _ c]) simp_all
  from claim_succeeds [OF schema this cand] wrong rel show ?thesis by blast
qed

theorem release_fenced_witness:
  "\<exists>rec db'. ClaimRolloutDraft ''tenant_a'' 100 ''tok'' ''site-1'' ''r-1'' sample_draft_db = (Inr rec, db')
     \<and> ReleaseRolloutDraft ''tenant_a'' 101 ''site-1'' ''r-1'' ''bad'' db' = (Inl DbDraftNotAvailable, db')
     \<and> fst (ReleaseRolloutDraft ''tenant_a'' 101 ''site-1'' ''r-1'' ''tok'' db') = Inr ()"
proof -
  obtain rec db' where c: "ClaimRolloutDraft ''tenant_a'' 100 ''tok'' ''site-1'' ''r-1'' sample_draft_db = (Inr rec, db')"
    using sample_claim by blast
  from release_fenced [OF c sample_draft_wf, of "''bad''" 101 102 "''tok2''"] c show ?thesis by auto
qed

section \<open>Claim and queue in one transaction\<close>

lemma queue_items_keys:
  "queue_items schema now site i items gens idents db = (Inr (gens', idents'), db') \<Longrightarrow>
     (\<exists>new. idents' = idents @ new \<and> length new = length items
        \<and> map (\<lambda>(_, cs). parseDeviceChangeSet cs False) items = map Inr new
        \<and> set (map fst gens') = set (map fst gens) \<union> set (map ci_device new))"
proof (induction items arbitrary: gens idents db)
  case (Cons item items)
  obtain role cs where item: "item = (role, cs)" by (cases item)
  from Cons.prems obtain ident where ident: "parseDeviceChangeSet cs False = Inr ident"
    by (auto simp: item split: sum.splits)
  obtain g db1 where q: "QueueDeviceChangeSetForRollout schema now site role (ci_device ident) cs i db = (Inr g, db1)"
    using Cons.prems ident by (auto simp: item split: sum.splits prod.splits)
  have "queue_items schema now site i items ((ci_device ident, g) # gens) (idents @ [ident]) db1 = (Inr (gens', idents'), db')"
    using Cons.prems ident q by (simp add: item)
  from Cons.IH [OF this] obtain new where new: "idents' = idents @ [ident] @ new" "length new = length items"
    "map (\<lambda>(_, cs). parseDeviceChangeSet cs False) items = map Inr new"
    "set (map fst gens') = insert (ci_device ident) (set (map fst gens)) \<union> set (map ci_device new)"
    by auto
  then show ?case
    by (intro exI [of _ "ident # new"]) (auto simp: item ident)
qed simp

lemma audit_queued_length:
  "length (audit_logs (audit_queued u ip site i rec gens idents db)) = length (audit_logs db) + 1 + length idents"
proof -
  have "length (audit_logs (fold (\<lambda>x. InsertAuditLogContext a b c d (p x) e) xs db'))
      = length (audit_logs db') + length xs" for a b c d e p db' and xs :: "cs_identity list"
    by (induction xs arbitrary: db') (simp_all add: InsertAuditLogContext_def)
  then show ?thesis by (simp add: audit_queued_def InsertAuditLogContext_def [of u _ _ site])
qed

lemma queue_items_audit:
  "audit_logs (snd (queue_items schema now site i items gens idents db)) = audit_logs db"
proof (induction items arbitrary: gens idents db)
  case (Cons item items)
  have q: "audit_logs (snd (queueDeviceChangeSet schema now site role k cs i db)) = audit_logs db" for role k cs
    by (cases rule: queueDeviceChangeSet_cases [of schema now site role k cs i db]) simp_all
  obtain role cs where item: "item = (role, cs)" by (cases item)
  show ?case
  proof (cases "parseDeviceChangeSet cs False")
    case (Inr ident)
    obtain res db' where res: "queueDeviceChangeSet schema now site role (ci_device ident) cs i db = (res, db')"
      by (cases "queueDeviceChangeSet schema now site role (ci_device ident) cs i db")
    with q [of role "ci_device ident" cs] Cons.IH [where db = db'] Inr show ?thesis
      by (cases res) (auto simp: item QueueDeviceChangeSetForRollout_def)
  qed (simp add: item)
qed simp

lemma queued_run_update:
  assumes "update_run P f e db = (Inr (), db')"
  shows "rollouts db' = map (\<lambda>r. if P r then f r else r) (rollouts db)" "list_ex P (rollouts db)"
    "audit_logs db' = audit_logs db"
  using assms by (auto simp: update_run_def split: if_splits)

lemma claim_taken:
  assumes "claimRolloutDraftTx now token site i db = (Inr rec, db1)" "runs_wf db"
    "rollouts db' = map (\<lambda>r. if rr_id r = i \<and> rr_site r = site \<and> rr_status r = ''RUNNING'' \<and> rr_claim_token r = Some token
        then f r else r) (rollouts db1)"
    "\<And>r. rr_status (f r) \<noteq> ''RUNNING''" "\<And>r. rr_site (f r) = rr_site r"
    "r \<in> set (rollouts db')" "rr_site r = site"
  shows "rr_status r \<noteq> ''RUNNING''"
proof -
  let ?P = "\<lambda>r. rr_id r = i \<and> rr_site r = site \<and> rr_status r = ''RUNNING'' \<and> rr_claim_token r = Some token"
  obtain q where q: "q \<in> set (rollouts db1)" "r = (if ?P q then f q else q)"
    using assms(6) unfolding assms(3) set_map by blast
  show ?thesis
  proof (cases "?P q")
    case True
    with q(2) assms(4) show ?thesis by simp
  next
    case False
    then have "r = q" using q(2) by (simp only: if_False)
    with False assms(7) claimed_runs [OF assms(1,2) q(1)] show ?thesis by metis
  qed
qed

text \<open>
  C6. Claiming and queueing is atomic: it either fails and changes nothing, or it succeeds with the
  run QUEUED, no run of the site left RUNNING, a generation for exactly the devices of the given
  changesets, and one audit entry for the start and one for every changeset.
\<close>

theorem claim_and_queue_atomic:
  assumes "ClaimAndQueueDeviceChangeSets schema now token site i items qr u ip db = (res, db')" "runs_wf db"
  shows "case res of
      Inl e \<Rightarrow> db' = db
    | Inr gens \<Rightarrow>
        (\<exists>r \<in> set (rollouts db'). rr_id r = i \<and> rr_site r = site \<and> rr_status r = ''QUEUED'' \<and> rr_claim_token r = None
           \<and> Inr (rr_results r) = addDeviceGenerations qr gens)
      \<and> (\<forall>r \<in> set (rollouts db'). rr_site r = site \<longrightarrow> rr_status r \<noteq> ''RUNNING'')
      \<and> (\<exists>idents. map (\<lambda>(_, cs). parseDeviceChangeSet cs False) items = map Inr idents
           \<and> set (map fst gens) = set (map ci_device idents))
      \<and> length (audit_logs db') = length (audit_logs db) + 1 + length items"
proof (cases res)
  case (Inl e)
  with assms(1) ClaimAndQueue_outcome [of schema now token site i items qr u ip db] show ?thesis by auto
next
  case (Inr gens)
  then obtain rec db1 idents db2 results db3 where
    claim: "claimRolloutDraftTx now token site i db = (Inr rec, db1)"
    and queue: "queue_items schema now site i items [] [] db1 = (Inr (gens, idents), db2)"
    and results: "addDeviceGenerations qr gens = Inr results"
    and upd: "update_run (\<lambda>r. rr_id r = i \<and> rr_site r = site \<and> rr_status r = ''RUNNING''
              \<and> rr_claim_token r = Some (rd_claim_token rec))
           (\<lambda>r. r\<lparr>rr_status := ''QUEUED'', rr_results := results, rr_claim_token := None, rr_updated_at := now\<rparr>)
           DbDraftNotAvailable db2 = (Inr (), db3)"
    and db': "db' = audit_queued u ip site i rec gens idents db3"
    using assms(1) ClaimAndQueue_outcome [of schema now token site i items qr u ip db] by auto
  let ?P = "\<lambda>r. rr_id r = i \<and> rr_site r = site \<and> rr_status r = ''RUNNING'' \<and> rr_claim_token r = Some (rd_claim_token rec)"
  let ?f = "\<lambda>r. r\<lparr>rr_status := ''QUEUED'', rr_results := results, rr_claim_token := None, rr_updated_at := now\<rparr>"
  note u = queued_run_update [OF upd]
  have token: "rd_claim_token rec = token"
    using claim_success [OF claim] by (auto simp: draft_of_row_def)
  have runs2: "rollouts db2 = rollouts db1"
    using queue_items_contract [of db1 schema now site i items "[]" "[]"] queue by simp
  have runs': "rollouts db' = map (\<lambda>r. if ?P r then ?f r else r) (rollouts db1)" using u(1) by (simp add: db' runs2)
  from u(2) obtain c where c: "c \<in> set (rollouts db1)" "?P c" by (auto simp: runs2 list_ex_iff)
  have "?f c \<in> set (rollouts db')" unfolding runs' set_map using c by (intro image_eqI [of _ _ c]) simp_all
  with c(2) results have queued: "\<exists>r \<in> set (rollouts db'). rr_id r = i \<and> rr_site r = site \<and> rr_status r = ''QUEUED''
      \<and> rr_claim_token r = None \<and> Inr (rr_results r) = addDeviceGenerations qr gens"
    by (intro bexI [of _ "?f c"]) simp_all
  have idle: "rr_status r \<noteq> ''RUNNING''" if "r \<in> set (rollouts db')" "rr_site r = site" for r
    by (rule claim_taken [OF claim assms(2) runs' [unfolded token] _ _ that]) simp_all
  have "length (audit_logs db') = length (audit_logs db) + 1 + length items"
    using queue_items_audit [of schema now site i items "[]" "[]" db1] queue u(3)
      queue_items_keys [OF queue] claim_tx_db [of now token site i db] claim
    by (auto simp: db' audit_queued_length)
  with queue_items_keys [OF queue] queued idle Inr show ?thesis by auto
qed


lemma sample_owned_guard:
  assumes "rollouts db1 = [(sample_run\<lparr>rr_status := ''RUNNING'', rr_claim_token := Some ''tok'', rr_updated_at := 100\<rparr>)]"
    "ci_id ident \<noteq> []" "ci_generation ident = 0"
  shows "queue_cs_guard db1 100 ''site-1'' ''ap'' ''r-1'' ident sample_cs_row"
  using assms
  by (simp add: queue_cs_guard_def owner_constraints_def other_rollout_active_def
      sample_cs_row_def sample_row_def sample_run_def change_set_capable_def jsonb_eq_def col_str_def jfield_def)

abbreviation sample_results :: json where
  "sample_results \<equiv> JArr [JObj [(''device_id'', JStr ''dev-1''), (''status'', JStr ''QUEUED'')]]"

lemma sample_claim_queue_results:
  assumes new: "NewDeviceChangeSetForRolloutOperations ''r-1'' ''dev-1'' [p] [] ''local_auto'' = Inr cs"
    and known: "list_all db_action (co_commands p)"
    and res: "addDeviceGenerations qr [(''dev-1'', 5)] = Inr res"
  shows "\<exists>db'. ClaimAndQueueDeviceChangeSets ''tenant_a'' 100 ''tok'' ''site-1'' ''r-1'' [(''ap'', Some (change_set_json cs))]
      qr u ip sample_draft_db = (Inr [(''dev-1'', 5)], db')"
proof -
  let ?run = "sample_run\<lparr>rr_status := ''RUNNING'', rr_claim_token := Some ''tok'', rr_updated_at := 100\<rparr>"
  let ?i = "\<lparr>ci_id = cs_id cs, ci_device = ''dev-1'', ci_hash = cs_plan_hash cs, ci_generation = 0, ci_has_gen = False\<rparr>"
  obtain rec db1 where tx: "claimRolloutDraftTx 100 ''tok'' ''site-1'' ''r-1'' sample_draft_db = (Inr rec, db1)"
    using sample_claim by (auto simp: claim_db)
  have "rollouts sample_draft_db = [sample_run\<lparr>rr_status := ''DRAFT''\<rparr>]" by (simp add: sample_draft_db_def)
  with claim_success [OF tx] have runs: "rollouts db1 = [?run]" and token: "rd_claim_token rec = ''tok''"
    by (auto simp: draft_of_row_def)
  have "\<not> list_ex (expired_run 100 ''site-1'') (rollouts sample_draft_db)" by code_simp
  then have dev: "devices db1 ''dev-1'' = Some sample_cs_row"
    using claim_tx_db [of 100 "''tok''" "''site-1''" "''r-1''" sample_draft_db] tx by (simp add: sample_draft_db_def)
  note cs = rollout_change_set_Inr [OF new]
  have "cs_operations cs \<noteq> [] \<and> map co_commands (cs_operations cs) = [co_commands p]" using cs(5) by auto
  then have "list_all (\<lambda>p. list_all db_action (co_commands p)) (cs_operations cs)"
    using known by (auto simp: list_all_iff)
  with parse_validated [OF cs(1,2)] cs(3,4) have parse: "parseDeviceChangeSet (Some (change_set_json cs)) False = Inr ?i"
    by (simp add: in_int64_def max_int64_def min_int64_def)
  have "cs_id cs \<noteq> []"
    using cs(1) by (auto simp: ValidateDeviceChangeSet_ok validDeviceChangeSetID_def validDeviceOperationID_def)
  then have guard: "queue_cs_guard db1 100 ''site-1'' ''ap'' ''r-1'' ?i sample_cs_row"
    by (intro sample_owned_guard [OF runs]) simp_all
  have schema: "isValidSchemaName ''tenant_a''" by code_simp
  have desired: "dv_desired sample_cs_row = 4" by (simp add: sample_cs_row_def sample_row_def)
  have "QueueDeviceChangeSetForRollout ''tenant_a'' 100 ''site-1'' ''ap'' ''dev-1'' (Some (change_set_json cs)) ''r-1'' db1
      = (Inr 5, update_device ''dev-1'' (queue_cs_row 100 (change_set_json cs) ?i) db1)"
    using schema parse dev guard desired
    by (simp add: QueueDeviceChangeSetForRollout_def queueDeviceChangeSet_def max_int64_def queue_cs_row_def)
  then have q: "queue_items ''tenant_a'' 100 ''site-1'' ''r-1'' [(''ap'', Some (change_set_json cs))] [] [] db1
      = (Inr ([(''dev-1'', 5)], [?i]), update_device ''dev-1'' (queue_cs_row 100 (change_set_json cs) ?i) db1)"
    using parse by simp
  show ?thesis
    by (simp add: ClaimAndQueueDeviceChangeSets_def schema tx q res update_run_def runs token sample_run_def
        del: queue_items.simps)
qed

lemma sample_claim_queue:
  "\<exists>cs gens db'. ClaimAndQueueDeviceChangeSets ''tenant_a'' 100 ''tok'' ''site-1'' ''r-1'' [(''ap'', Some (change_set_json cs))]
      (Some sample_results) ''ops'' ''::1'' sample_draft_db = (Inr gens, db')"
proof -
  obtain cs where new: "NewDeviceChangeSetForRolloutOperations ''r-1'' ''dev-1'' [sample_operation sample_set] []
      ''local_auto'' = Inr cs"
    using sample_change_set(1) by blast
  obtain res where "addDeviceGenerations (Some sample_results) [(''dev-1'', 5)] = Inr res"
    by (simp add: addDeviceGenerations_def dec_results_def jfield_def)
  moreover have "list_all db_action (co_commands (sample_operation sample_set))"
    by (simp add: sample_operation_def db_action_def)
  ultimately show ?thesis
    using sample_claim_queue_results [OF new, of "Some sample_results" _ "''ops''" "''::1''"] by blast
qed

theorem claim_and_queue_atomic_witness:
  "\<exists>cs gens db'. ClaimAndQueueDeviceChangeSets ''tenant_a'' 100 ''tok'' ''site-1'' ''r-1'' [(''ap'', Some (change_set_json cs))]
      (Some sample_results) ''ops'' ''::1'' sample_draft_db = (Inr gens, db')
     \<and> (\<exists>r \<in> set (rollouts db'). rr_id r = ''r-1'' \<and> rr_status r = ''QUEUED'')"
proof -
  obtain cs gens db' where c: "ClaimAndQueueDeviceChangeSets ''tenant_a'' 100 ''tok'' ''site-1'' ''r-1''
      [(''ap'', Some (change_set_json cs))] (Some sample_results) ''ops'' ''::1'' sample_draft_db = (Inr gens, db')"
    using sample_claim_queue by blast
  from claim_and_queue_atomic [OF c sample_draft_wf] c show ?thesis by auto
qed

section \<open>Generations in the results\<close>

lemma add_generations_loop_ok:
  assumes "add_generations_loop gens seen rs = Inr (seen', out)"
  shows "list_all2 (\<lambda>r r'. \<exists>i. jfield ''device_id'' r = Some (JStr i) \<and>
          (case map_of gens i of
             None \<Rightarrow> r' = r \<and> jfield ''status'' r = Some (JStr ''WAITING'')
           | Some g \<Rightarrow> r' = jset ''device_generation'' (JNum g) r)) rs out
     \<and> seen' = seen \<union> {i. \<exists>r \<in> set rs. jfield ''device_id'' r = Some (JStr i)}
     \<and> (\<forall>i g. map_of gens i = Some g \<longrightarrow>
          length (filter (\<lambda>r. jfield ''device_id'' r = Some (JStr i)) rs) \<le> (if i \<in> seen then 0 else 1))"
  using assms
proof (induction rs arbitrary: seen out)
  case (Cons r rs)
  then obtain i where i: "jfield ''device_id'' r = Some (JStr i)"
    by (auto split: option.splits json.splits)
  show ?case
  proof (cases "map_of gens i")
    case None
    from Cons.prems i None obtain out' where o: "out = r # out'" "jfield ''status'' r = Some (JStr ''WAITING'')"
      "add_generations_loop gens (insert i seen) rs = Inr (seen', out')"
      by (auto simp: andthen_Inr_iff split: if_splits)
    from Cons.IH [OF o(3)] o(1,2) i None show ?thesis by auto
  next
    case (Some g)
    from Cons.prems i Some obtain out' where o: "out = jset ''device_generation'' (JNum g) r # out'" "i \<notin> seen"
      "add_generations_loop gens (insert i seen) rs = Inr (seen', out')"
      by (auto simp: andthen_Inr_iff split: if_splits)
    from Cons.IH [OF o(3)] o(1,2) i Some show ?thesis by auto
  qed
qed auto

text \<open>
  The results stored for a queued run cover the changesets: every device with a generation has
  exactly one result, which gets that generation; every other result is unchanged and waits for a later phase.
\<close>

theorem results_cover_generations:
  assumes "addDeviceGenerations (Some (JArr rs)) gens = Inr (JArr out)"
  shows "list_all2 (\<lambda>r r'. \<exists>i. jfield ''device_id'' r = Some (JStr i) \<and>
          (case map_of gens i of
             None \<Rightarrow> r' = r \<and> jfield ''status'' r = Some (JStr ''WAITING'')
           | Some g \<Rightarrow> r' = jset ''device_generation'' (JNum g) r)) rs out
     \<and> (\<forall>i \<in> set (map fst gens). length (filter (\<lambda>r. jfield ''device_id'' r = Some (JStr i)) rs) = 1)"
proof -
  from assms obtain seen where loop: "add_generations_loop gens {} rs = Inr (seen, out)"
    and all: "\<forall>i \<in> set (map fst gens). i \<in> seen"
    by (auto simp: addDeviceGenerations_def dec_results_def andthen_Inr_iff list_all_iff split_def split: if_splits)
  note ok = add_generations_loop_ok [OF loop]
  have "length (filter (\<lambda>r. jfield ''device_id'' r = Some (JStr i)) rs) = 1" if "i \<in> set (map fst gens)" for i
  proof -
    have "map_of gens i \<noteq> None" using that by (simp add: map_of_eq_None_iff)
    with ok have "length (filter (\<lambda>r. jfield ''device_id'' r = Some (JStr i)) rs) \<le> 1" by fastforce
    moreover have "filter (\<lambda>r. jfield ''device_id'' r = Some (JStr i)) rs \<noteq> []"
      using all that ok by (auto simp: filter_empty_conv)
    ultimately show ?thesis by (cases "filter (\<lambda>r. jfield ''device_id'' r = Some (JStr i)) rs") auto
  qed
  with ok show ?thesis by blast
qed

theorem results_cover_generations_witness:
  "\<exists>out. addDeviceGenerations (Some sample_results) [(''dev-1'', 5)] = Inr (JArr out)
     \<and> length (filter (\<lambda>r. jfield ''device_id'' r = Some (JStr ''dev-1'')) (json_elems sample_results)) = 1"
proof -
  obtain out where o: "addDeviceGenerations (Some sample_results) [(''dev-1'', 5)] = Inr (JArr out)"
    by (simp add: addDeviceGenerations_def dec_results_def jfield_def)
  from results_cover_generations [OF o] o show ?thesis by (simp add: json_elems_def)
qed

end
