(* ===== verification/Rollout_Worker.thy ===== *)
theory Rollout_Worker
  imports Rollout_Drafts "HOL-Library.Multiset" "HOL-Library.Product_Lexorder"
begin

text \<open>
  The rollout worker: the leases and fenced updates of \<open>src/internal/database/rollout_worker.go\<close> and the
  reconciliation of \<open>src/internal/rolloutworker/worker.go\<close>. A worker claims a queued run under a
  token with a deadline, reads the results the devices produced, moves the cursor and queues the next
  device. The goroutine of a lease is a step relation, interleaved with the reports of the devices.
\<close>

section \<open>Leases\<close>

record rollout_lease =
  rl_id :: string
  rl_site :: string
  rl_token :: string
  rl_cursor :: int

record rollout_progress =
  rp_status :: string
  rp_terminal :: int
  rp_count :: int
  rp_failures :: int
  rp_plan :: json
  rp_results :: json

text \<open>The table \<open>tenants\<close> as alias and active flag; \<open>None\<close> when there is no database.\<close>

definition ActiveTenantSchemas :: "(string \<times> bool) list option \<Rightarrow> db_error + string list" where
  "ActiveTenantSchemas tenants =
     (case tenants of
        None \<Rightarrow> Inl DbNotInitialized
      | Some rows \<Rightarrow>
          Inr (concat (map (\<lambda>(alias, active).
            if active then (case SafeTenantSchema alias of Inl _ \<Rightarrow> [] | Inr s \<Rightarrow> [s]) else []) rows)))"

definition dec_result_states :: "json \<Rightarrow> (string \<times> string) option" where
  "dec_result_states j =
     Option.bind (go_obj j) (\<lambda>kvs.
     Option.bind (go_str ''status'' kvs) (\<lambda>s.
     Option.bind (go_str ''change_set_state'' kvs) (\<lambda>c. Some (s, c))))"

definition result_terminal :: "string \<times> string \<Rightarrow> bool" where
  "result_terminal r \<longleftrightarrow>
     fst r = ''SUCCESS'' \<or> fst r = ''SKIPPED''
     \<or> snd r \<in> {''COMMITTED'', ''RESTORED'', ''RECOVERY_REQUIRED'', ''REJECTED''}"

definition result_failed :: "string \<times> string \<Rightarrow> bool" where
  "result_failed r \<longleftrightarrow>
     result_terminal r \<and> fst r \<noteq> ''SUCCESS'' \<and> fst r \<noteq> ''SKIPPED'' \<and> snd r \<noteq> ''COMMITTED''"

definition dec_progress_results :: "json \<Rightarrow> (string \<times> string) list option" where
  "dec_progress_results j =
     (case j of
        JNull \<Rightarrow> Some []
      | JArr rs \<Rightarrow> all_some (map dec_result_states rs)
      | _ \<Rightarrow> None)"

definition GetRolloutProgress :: "string \<Rightarrow> string \<Rightarrow> string \<Rightarrow> tenant_db \<Rightarrow> db_error + rollout_progress" where
  "GetRolloutProgress schema rolloutID siteID db =
     andthen (SafeSchemaIdent schema) (\<lambda>_.
       case find (\<lambda>r. rr_id r = rolloutID \<and> rr_site r = siteID) (rollouts db) of
         None \<Rightarrow> Inl DbFailure
       | Some r \<Rightarrow>
           (case dec_progress_results (rr_results r) of
              None \<Rightarrow> Inl DbInvalidResults
            | Some rs \<Rightarrow>
                Inr \<lparr>rp_status = rr_status r,
                     rp_terminal = int (length (filter result_terminal rs)),
                     rp_count = int (length rs),
                     rp_failures = int (length (filter result_failed rs)),
                     rp_plan = rr_plan r, rp_results = rr_results r\<rparr>))"

text \<open>The fence of every update of a worker.\<close>

definition holds_lease :: "int \<Rightarrow> rollout_lease \<Rightarrow> rollout_row \<Rightarrow> bool" where
  "holds_lease now l r \<longleftrightarrow>
     rr_id r = rl_id l \<and> rr_site r = rl_site l \<and> rr_status r = ''RUNNING''
     \<and> rr_worker_token r = Some (rl_token l)
     \<and> (case rr_lease_until r of None \<Rightarrow> False | Some t \<Rightarrow> t \<ge> now)"

definition UpdateRolloutWorkerCursor ::
  "string \<Rightarrow> int \<Rightarrow> rollout_lease \<Rightarrow> int \<Rightarrow> tenant_db \<Rightarrow> (db_error + unit) \<times> tenant_db" where
  "UpdateRolloutWorkerCursor schema now l cursor db =
     (case SafeSchemaIdent schema of
        Inl e \<Rightarrow> (Inl e, db)
      | Inr _ \<Rightarrow>
          update_run (holds_lease now l)
            (\<lambda>r. r\<lparr>rr_cursor := max (rr_cursor r) cursor, rr_updated_at := now\<rparr>) DbLeaseLost db)"

definition UpdateRolloutWorkerResults ::
  "string \<Rightarrow> int \<Rightarrow> rollout_lease \<Rightarrow> json \<Rightarrow> tenant_db \<Rightarrow> (db_error + unit) \<times> tenant_db" where
  "UpdateRolloutWorkerResults schema now l results db =
     (case SafeSchemaIdent schema of
        Inl e \<Rightarrow> (Inl e, db)
      | Inr _ \<Rightarrow>
          update_run (holds_lease now l)
            (\<lambda>r. r\<lparr>rr_results := results, rr_updated_at := now\<rparr>) DbLeaseLost db)"

definition RenewRolloutLease ::
  "string \<Rightarrow> int \<Rightarrow> rollout_lease \<Rightarrow> int \<Rightarrow> tenant_db \<Rightarrow> (db_error + unit) \<times> tenant_db" where
  "RenewRolloutLease schema now l duration db =
     (case SafeSchemaIdent schema of
        Inl e \<Rightarrow> (Inl e, db)
      | Inr _ \<Rightarrow>
          update_run (holds_lease now l)
            (\<lambda>r. r\<lparr>rr_lease_until := Some (now + duration), rr_updated_at := now\<rparr>) DbLeaseLost db)"

definition live_lease :: "int \<Rightarrow> rollout_row \<Rightarrow> bool" where
  "live_lease now r \<longleftrightarrow>
     rr_status r = ''RUNNING'' \<and> (case rr_lease_until r of None \<Rightarrow> False | Some t \<Rightarrow> t \<ge> now)"

definition lease_candidate :: "int \<Rightarrow> rollout_row list \<Rightarrow> rollout_row \<Rightarrow> bool" where
  "lease_candidate now rs r \<longleftrightarrow>
     (rr_status r = ''QUEUED''
      \<or> rr_status r = ''RUNNING'' \<and> (case rr_lease_until r of None \<Rightarrow> False | Some t \<Rightarrow> t < now))
     \<and> \<not> list_ex (\<lambda>a. rr_site a = rr_site r \<and> live_lease now a) rs"

text \<open>\<open>ORDER BY generation LIMIT 1\<close>; among equal sequence numbers of different sites, the first of the table.\<close>

fun first_by_generation :: "rollout_row list \<Rightarrow> rollout_row option" where
  "first_by_generation [] = None"
| "first_by_generation (r # rs) =
     (case first_by_generation rs of
        None \<Rightarrow> Some r
      | Some s \<Rightarrow> if rr_generation s < rr_generation r then Some s else Some r)"

definition lease_row :: "int \<Rightarrow> int \<Rightarrow> string \<Rightarrow> rollout_row \<Rightarrow> rollout_row" where
  "lease_row now duration token r =
     r\<lparr>rr_status := ''RUNNING'', rr_worker_token := Some token,
       rr_lease_until := Some (now + duration), rr_updated_at := now\<rparr>"

definition ClaimQueuedRollout ::
  "string \<Rightarrow> int \<Rightarrow> string \<Rightarrow> int \<Rightarrow> tenant_db \<Rightarrow> (db_error + rollout_lease) \<times> tenant_db" where
  "ClaimQueuedRollout schema now token duration db =
     (case SafeSchemaIdent schema of
        Inl e \<Rightarrow> (Inl e, db)
      | Inr _ \<Rightarrow>
          if duration \<le> 0 then (Inl DbLeaseDuration, db)
          else
            (case first_by_generation (filter (lease_candidate now (rollouts db)) (rollouts db)) of
               None \<Rightarrow> (Inl DbLeaseUnavailable, db)
             | Some c \<Rightarrow>
                 (Inr \<lparr>rl_id = rr_id c, rl_site = rr_site c, rl_token = token, rl_cursor = rr_cursor c\<rparr>,
                  update_rollouts (\<lambda>r. if rr_id r = rr_id c then lease_row now duration token r else r) db)))"

section \<open>Plans\<close>

record rollout_device =
  rv_id :: string
  rv_hostname :: string
  rv_role :: string
  rv_commands :: "uci_command list"
  rv_observed :: "(string \<times> string) list"

record rollout_plan =
  pn_health_checks :: "string list option"
  pn_namespace :: string
  pn_devices :: "rollout_device list"

text \<open>A field of type \<open>map[string]string\<close>, as pairs with the latest first; \<open>null\<close> values are empty strings.\<close>

fun fold_str_map :: "(string \<times> string) list \<Rightarrow> json list \<Rightarrow> (string \<times> string) list option" where
  "fold_str_map cur [] = Some cur"
| "fold_str_map cur (JNull # r) = fold_str_map [] r"
| "fold_str_map cur (JObj kvs # r) =
     (case all_some (map (\<lambda>(k, v). map_option (Pair k) (elem_str v)) kvs) of
        None \<Rightarrow> None
      | Some ps \<Rightarrow> fold_str_map (rev ps @ cur) r)"
| "fold_str_map cur (_ # r) = None"

definition go_str_map :: "string \<Rightarrow> (string \<times> json) list \<Rightarrow> (string \<times> string) list option" where
  "go_str_map name kvs = fold_str_map [] (go_entries name kvs)"

definition dec_rollout_device :: "json \<Rightarrow> rollout_device option" where
  "dec_rollout_device j =
     Option.bind (go_obj j) (\<lambda>kvs.
     Option.bind (go_str ''device_id'' kvs) (\<lambda>i.
     Option.bind (go_str ''hostname'' kvs) (\<lambda>h.
     Option.bind (go_str ''role'' kvs) (\<lambda>role.
     Option.bind (go_slice dec_command ''commands'' kvs) (\<lambda>cs.
     Option.bind (go_str_map ''observed_state'' kvs) (\<lambda>ob.
       Some \<lparr>rv_id = i, rv_hostname = h, rv_role = role, rv_commands = slice_elems cs, rv_observed = ob\<rparr>))))))"

definition dec_rollout_plan :: "json \<Rightarrow> rollout_plan option" where
  "dec_rollout_plan j =
     Option.bind (go_obj j) (\<lambda>kvs.
     Option.bind (go_slice elem_str ''health_checks'' kvs) (\<lambda>hc.
     Option.bind (go_str ''namespace'' kvs) (\<lambda>ns.
     Option.bind (go_slice dec_rollout_device ''devices'' kvs) (\<lambda>ds.
       Some \<lparr>pn_health_checks = hc, pn_namespace = ns, pn_devices = slice_elems ds\<rparr>))))"

definition is_gateway :: "rollout_device \<Rightarrow> bool" where
  "is_gateway d = equal_fold (rv_role d) ''Gateway''"

text \<open>\<open>sort.SliceStable\<close> with gateways last, then by device id.\<close>

definition phase_order :: "rollout_device list \<Rightarrow> rollout_device list" where
  "phase_order ds = sort_key (\<lambda>d. (is_gateway d, rv_id d)) ds"

definition safe_namespaces :: "string list" where
  "safe_namespaces = [''system'', ''dhcp'', ''firewall'', ''dropbear'', ''sqm'']"

definition plan_namespaces :: "rollout_plan \<Rightarrow> string list" where
  "plan_namespaces plan =
     filter (\<lambda>n. n \<in> set safe_namespaces) (map trim_space (split_on CHR '','' (pn_namespace plan)))"

text \<open>
  The operations of a device in the fixed order of namespaces; \<open>None\<close> when the phase is skipped
  because a command leaves the planned namespaces or an observed state is missing.
\<close>

fun gather_operations ::
  "(string \<times> string) list \<Rightarrow> uci_command list \<Rightarrow> string list \<Rightarrow> change_operation list option" where
  "gather_operations observed commands [] = Some []"
| "gather_operations observed commands (ns # nss) =
     (let cs = filter (\<lambda>c. uc_config c = ns) commands;
          ob = (case map_of observed ns of None \<Rightarrow> [] | Some s \<Rightarrow> s)
      in if cs = [] then gather_operations observed commands nss
         else if ob = [] then None
         else map_option
                ((#) \<lparr>co_operation_id = [], co_config = ns, co_commands = cs, co_observed_hash = ob\<rparr>)
                (gather_operations observed commands nss))"

definition device_operations :: "rollout_plan \<Rightarrow> rollout_device \<Rightarrow> change_operation list option" where
  "device_operations plan d =
     (if list_all (\<lambda>c. uc_config c \<in> set (plan_namespaces plan)) (rv_commands d)
      then gather_operations (rv_observed d) (rv_commands d) safe_namespaces
      else None)"

section \<open>Queueing the next phase\<close>

datatype worker_error = WePlan | WeResults | WeChangeSet cs_error | WeDb db_error

definition result_of :: "string \<Rightarrow> json \<Rightarrow> bool" where
  "result_of i r \<longleftrightarrow> jfield ''device_id'' r = Some (JStr i)"

definition mark_queued :: "string \<Rightarrow> int \<Rightarrow> json \<Rightarrow> json" where
  "mark_queued i g r =
     (if result_of i r
      then jset ''device_generation'' (JNum g)
             (jset ''output'' (JStr ''device agent will apply and report the durable changeset result'')
                (jset ''status'' (JStr ''QUEUED'') r))
      else r)"

definition canAdvancePhase :: "rollout_lease \<Rightarrow> rollout_progress \<Rightarrow> bool" where
  "canAdvancePhase l p \<longleftrightarrow> rl_cursor l > 0 \<and> rp_failures p = 0"

definition boundedDiagnostic :: "string \<Rightarrow> string" where
  "boundedDiagnostic v = (if length v \<le> 4096 then v else take 4096 v @ '' [diagnostic output truncated]'')"

definition as_worker :: "(db_error + unit) \<times> tenant_db \<Rightarrow> (worker_error + unit) \<times> tenant_db" where
  "as_worker x = (case fst x of Inl e \<Rightarrow> Inl (WeDb e) | Inr u \<Rightarrow> Inr u, snd x)"

definition queueNextPhase ::
  "string \<Rightarrow> int \<Rightarrow> rollout_lease \<Rightarrow> rollout_progress \<Rightarrow> tenant_db \<Rightarrow> (worker_error + unit) \<times> tenant_db" where
  "queueNextPhase schema now l p db =
     (case dec_rollout_plan (rp_plan p) of
        None \<Rightarrow> (Inl WePlan, db)
      | Some plan \<Rightarrow>
          (case dec_results (Some (rp_results p)) of
             None \<Rightarrow> (Inl WeResults, db)
           | Some results \<Rightarrow>
               (let order = phase_order (pn_devices plan) in
                if rl_cursor l \<ge> int (length order) then (Inr (), db)
                else
                  (let d = order ! nat (rl_cursor l) in
                   if list_ex (\<lambda>r. result_of (rv_id d) r \<and> jfield ''status'' r \<noteq> Some (JStr ''WAITING'')) results
                   then (Inr (), db)
                   else
                     (case device_operations plan d of
                        None \<Rightarrow> (Inr (), db)
                      | Some ops \<Rightarrow>
                          (case NewDeviceChangeSetForRolloutOperations (rl_id l) (rv_id d) ops
                                  (slice_elems (pn_health_checks plan)) ConfirmationLocalAuto of
                             Inl e \<Rightarrow> (Inl (WeChangeSet e), db)
                           | Inr cs \<Rightarrow>
                               (case QueueDeviceChangeSetForRollout schema now (rl_site l) (rv_role d) (rv_id d)
                                       (Some (change_set_json cs)) (rl_id l) db of
                                  (Inl e, db1) \<Rightarrow> (Inl (WeDb e), db1)
                                | (Inr g, db1) \<Rightarrow>
                                    as_worker (UpdateRolloutWorkerResults schema now l
                                      (if rp_results p = JNull then JNull
                                       else JArr (map (mark_queued (rv_id d) g) results)) db1))))))))"

section \<open>Reconciliation\<close>

text \<open>One pass of the loop in \<open>reconcileLease\<close>: the lease to go on with, or \<open>None\<close> when the goroutine returns.\<close>

definition reconcile_pass ::
  "string \<Rightarrow> int \<Rightarrow> rollout_lease \<Rightarrow> tenant_db \<Rightarrow> rollout_lease option \<times> tenant_db" where
  "reconcile_pass schema now l db =
     (case GetRolloutProgress schema (rl_id l) (rl_site l) db of
        Inl _ \<Rightarrow> (None, db)
      | Inr p \<Rightarrow>
          (let (moved, db1) =
             (if rp_terminal p > rl_cursor l
              then (case UpdateRolloutWorkerCursor schema now l (rp_terminal p) db of
                      (Inl _, db') \<Rightarrow> (None, db')
                    | (Inr _, db') \<Rightarrow> (Some (l\<lparr>rl_cursor := rp_terminal p\<rparr>), db'))
              else (Some l, db))
           in case moved of
                None \<Rightarrow> (None, db1)
              | Some l1 \<Rightarrow>
                  (let (ok, db2) =
                     (if canAdvancePhase l1 p
                      then (case queueNextPhase schema now l1 p db1 of
                              (Inl _, db') \<Rightarrow> (False, db')
                            | (Inr _, db') \<Rightarrow> (True, db'))
                      else (True, db1))
                   in if \<not> ok then (None, db2)
                      else if rp_status p \<noteq> ''RUNNING'' \<or> rp_count p > 0 \<and> rp_terminal p = rp_count p
                      then (None, db2)
                      else (Some l1, db2))))"

text \<open>
  The goroutine of one lease between the ticks of its timer, with reports of devices at any time.
  A component of the state is \<open>None\<close> once the goroutine has returned.
\<close>

inductive worker_step ::
  "string \<Rightarrow> int \<Rightarrow> rollout_lease option \<times> tenant_db \<Rightarrow> rollout_lease option \<times> tenant_db \<Rightarrow> bool"
  for schema :: string and duration :: int where
  pass: "reconcile_pass schema now l db = (l', db') \<Longrightarrow> worker_step schema duration (Some l, db) (l', db')"
| renew: "RenewRolloutLease schema now l duration db = (Inr (), db') \<Longrightarrow>
    worker_step schema duration (Some l, db) (Some l, db')"
| lost: "RenewRolloutLease schema now l duration db = (Inl e, db') \<Longrightarrow>
    worker_step schema duration (Some l, db) (None, db')"
| report: "worker_step schema duration (x, db) (x, cs_report schema req db)"

inductive_cases worker_stepE: "worker_step schema duration s t"

text \<open>\<open>reconcile\<close> for one tenant: claim, audit, and start the goroutine of the lease.\<close>

definition reconcile_tenant ::
  "string \<Rightarrow> int \<Rightarrow> string \<Rightarrow> int \<Rightarrow> tenant_db \<Rightarrow> rollout_lease option \<times> tenant_db" where
  "reconcile_tenant schema now token duration db =
     (case ClaimQueuedRollout schema now token duration db of
        (Inl _, db') \<Rightarrow> (None, db')
      | (Inr l, db') \<Rightarrow>
          (Some l, InsertAuditLogContext ''rollout-worker'' ''ROLLOUT_WORKER_CLAIM'' ''ROLLOUT'' (rl_id l)
                     ''claimed durable rollout for reconciliation'' [] db'))"

section \<open>Fenced updates\<close>

text \<open>
  The contract of an update under a lease: without the lease it is refused and changes nothing;
  with it, it touches only runs that hold the lease.
\<close>

locale fenced_update =
  fixes upd :: "string \<Rightarrow> int \<Rightarrow> rollout_lease \<Rightarrow> 'a \<Rightarrow> tenant_db \<Rightarrow> (db_error + unit) \<times> tenant_db"
  assumes refused: "\<not> list_ex (holds_lease now l) (rollouts db) \<Longrightarrow> isValidSchemaName schema
      \<Longrightarrow> upd schema now l x db = (Inl DbLeaseLost, db)"
    and effect: "\<exists>f. (\<forall>r. run_kept r (f r)) \<and> (\<forall>r. \<not> holds_lease now l r \<longrightarrow> f r = r)
      \<and> snd (upd schema now l x db) = update_rollouts f db"
begin

lemma keeps_devices: "devices (snd (upd schema now l x db)) = devices db"
  using effect [of now l schema x db] by auto

lemma keeps_audit: "audit_logs (snd (upd schema now l x db)) = audit_logs db"
  using effect [of now l schema x db] by auto

lemma contract:
  "db_progress db (snd (upd schema now l x db)) \<and> runs_extend db (snd (upd schema now l x db))"
proof -
  obtain f where f: "\<forall>r. run_kept r (f r)" "snd (upd schema now l x db) = update_rollouts f db"
    using effect [of now l schema x db] by auto
  then show ?thesis by (auto intro: runs_extend_map)
qed

lemma other_runs:
  "r \<in> set (rollouts db) \<Longrightarrow> \<not> holds_lease now l r \<Longrightarrow> r \<in> set (rollouts (snd (upd schema now l x db)))"
  using effect [of now l schema x db] by (auto intro!: image_eqI [of r _ r])

lemma stale_run:
  "\<forall>(now, x) \<in> set reqs. \<not> list_ex (holds_lease now l) (rollouts db) \<Longrightarrow> isValidSchemaName schema
    \<Longrightarrow> fold (\<lambda>(now, x) db. snd (upd schema now l x db)) reqs db = db"
  by (induction reqs) (auto simp: refused)

end

lemma update_run_effect:
  assumes "\<And>r. run_kept r (g r)"
  shows "\<exists>f. (\<forall>r. run_kept r (f r)) \<and> (\<forall>r. \<not> P r \<longrightarrow> f r = r) \<and> snd (update_run P g e db) = update_rollouts f db"
proof (cases "list_ex P (rollouts db)")
  case True
  then show ?thesis
    using assms by (intro exI [of _ "\<lambda>r. if P r then g r else r"]) (simp add: update_run_def)
next
  case False
  then show ?thesis by (intro exI [of _ id]) (simp add: update_run_def update_rollouts_def)
qed

lemma update_rollouts_id: "update_rollouts id db = db"
  by (simp add: update_rollouts_def)

lemma fenced_updateI:
  assumes "\<And>schema now l x db. upd schema now l x db =
     (case SafeSchemaIdent schema of Inl e \<Rightarrow> (Inl e, db) | Inr _ \<Rightarrow> update_run (holds_lease now l) (g now x) DbLeaseLost db)"
    "\<And>now x r. run_kept r (g now x r)"
  shows "fenced_update upd"
proof
  fix now l schema x and db :: tenant_db
  assume "\<not> list_ex (holds_lease now l) (rollouts db)" "isValidSchemaName schema"
  then show "upd schema now l x db = (Inl DbLeaseLost, db)" by (simp add: assms(1) update_run_def)
next
  fix now l schema x and db :: tenant_db
  show "\<exists>f. (\<forall>r. run_kept r (f r)) \<and> (\<forall>r. \<not> holds_lease now l r \<longrightarrow> f r = r) \<and> snd (upd schema now l x db) = update_rollouts f db"
  proof (cases "isValidSchemaName schema")
    case True
    then show ?thesis
      using update_run_effect [of "g now x" "holds_lease now l", OF assms(2)] by (simp add: assms(1))
  next
    case False
    then show ?thesis by (intro exI [of _ id]) (simp add: assms(1) update_rollouts_id)
  qed
qed

interpretation cursor: fenced_update UpdateRolloutWorkerCursor
  by (rule fenced_updateI [where g = "\<lambda>now c r. r\<lparr>rr_cursor := max (rr_cursor r) c, rr_updated_at := now\<rparr>"])
    (simp_all add: UpdateRolloutWorkerCursor_def run_kept_def)

interpretation results: fenced_update UpdateRolloutWorkerResults
  by (rule fenced_updateI [where g = "\<lambda>now x r. r\<lparr>rr_results := x, rr_updated_at := now\<rparr>"])
    (simp_all add: UpdateRolloutWorkerResults_def run_kept_def)

interpretation renewal: fenced_update RenewRolloutLease
  by (rule fenced_updateI [where g = "\<lambda>now d r. r\<lparr>rr_lease_until := Some (now + d), rr_updated_at := now\<rparr>"])
    (simp_all add: RenewRolloutLease_def run_kept_def)

section \<open>Claiming a lease\<close>

lemma first_by_generation_in: "first_by_generation rs = Some r \<Longrightarrow> r \<in> set rs"
  by (induction rs arbitrary: r) (auto split: option.splits if_splits)

lemma first_by_generation_None: "first_by_generation rs = None \<longleftrightarrow> rs = []"
  by (cases rs) (auto split: option.splits)

lemma first_by_generation_least:
  "first_by_generation rs = Some r \<Longrightarrow> s \<in> set rs \<Longrightarrow> rr_generation r \<le> rr_generation s"
proof (induction rs arbitrary: r)
  case (Cons a rs)
  show ?case
  proof (cases "first_by_generation rs")
    case None
    then have "rs = []" by (simp add: first_by_generation_None)
    with Cons.prems show ?thesis by simp
  next
    case (Some b)
    with Cons show ?thesis by (fastforce split: if_splits)
  qed
qed simp

lemma claim_lease_outcome:
  "(\<exists>e. ClaimQueuedRollout schema now token d db = (Inl e, db)) \<or>
   (\<exists>c. isValidSchemaName schema \<and> 0 < d \<and> c \<in> set (rollouts db) \<and> lease_candidate now (rollouts db) c
      \<and> (\<forall>s \<in> set (rollouts db). lease_candidate now (rollouts db) s \<longrightarrow> rr_generation c \<le> rr_generation s)
      \<and> ClaimQueuedRollout schema now token d db =
          (Inr \<lparr>rl_id = rr_id c, rl_site = rr_site c, rl_token = token, rl_cursor = rr_cursor c\<rparr>,
           update_rollouts (\<lambda>r. if rr_id r = rr_id c then lease_row now d token r else r) db))"
proof (cases "isValidSchemaName schema \<and> 0 < d")
  case True
  show ?thesis
  proof (cases "first_by_generation (filter (lease_candidate now (rollouts db)) (rollouts db))")
    case None
    with True show ?thesis by (simp add: ClaimQueuedRollout_def)
  next
    case (Some c)
    note first_by_generation_in [OF Some] first_by_generation_least [OF Some]
    with True Some show ?thesis by (auto simp: ClaimQueuedRollout_def)
  qed
next
  case False
  then show ?thesis by (auto simp: ClaimQueuedRollout_def split: sum.split)
qed

lemma lease_row_kept: "run_kept r (lease_row now d token r)"
  by (simp add: run_kept_def lease_row_def)

lemma claim_lease_contract:
  "db_progress db (snd (ClaimQueuedRollout schema now token d db)) \<and> runs_extend db (snd (ClaimQueuedRollout schema now token d db))"
  using claim_lease_outcome [of schema now token d db] lease_row_kept by (auto intro!: runs_extend_map)


text \<open>
  C13. A worker that lost its lease is fenced off: once another worker has claimed the run, every
  update the old holder attempts, cursor, results or renewal, is refused as lost and changes nothing.
\<close>

theorem stale_worker_fenced:
  assumes "ClaimQueuedRollout schema now token d db = (Inr l2, db')" "rl_id l = rl_id l2" "rl_token l \<noteq> token"
  shows "UpdateRolloutWorkerCursor schema t l cursor db' = (Inl DbLeaseLost, db')
     \<and> UpdateRolloutWorkerResults schema t l results db' = (Inl DbLeaseLost, db')
     \<and> RenewRolloutLease schema t l d' db' = (Inl DbLeaseLost, db')"
proof -
  obtain c :: rollout_row where c: "isValidSchemaName schema" "rl_id l = rr_id c"
      "db' = update_rollouts (\<lambda>r. if rr_id r = rr_id c then lease_row now d token r else r) db"
    using claim_lease_outcome [of schema now token d db] assms(1,2) by auto
  have "\<not> list_ex (holds_lease t l) (rollouts db')"
    using assms(3) c(2) by (auto simp: c(3) list_ex_iff holds_lease_def lease_row_def)
  with c(1) show ?thesis
    by (simp add: cursor.refused results.refused renewal.refused)
qed

definition sample_queued_run_db :: tenant_db where
  "sample_queued_run_db = sample_cs_db\<lparr>rollouts := [sample_run]\<rparr>"

lemma sample_lease:
  "\<exists>db'. ClaimQueuedRollout ''tenant_a'' 100 ''w-1'' 30 sample_queued_run_db
     = (Inr \<lparr>rl_id = ''r-1'', rl_site = ''site-1'', rl_token = ''w-1'', rl_cursor = 0\<rparr>, db')"
proof -
  have "first_by_generation (filter (lease_candidate 100 (rollouts sample_queued_run_db)) (rollouts sample_queued_run_db))
      = Some sample_run" by code_simp
  moreover have "isValidSchemaName ''tenant_a''" by code_simp
  ultimately show ?thesis by (simp add: ClaimQueuedRollout_def) (simp add: sample_run_def)
qed


theorem stale_worker_fenced_witness:
  "\<exists>l db'. ClaimQueuedRollout ''tenant_a'' 100 ''w-1'' 30 sample_queued_run_db = (Inr l, db')
     \<and> RenewRolloutLease ''tenant_a'' 110 (l\<lparr>rl_token := ''w-0''\<rparr>) 30 db' = (Inl DbLeaseLost, db')"
proof -
  let ?l = "\<lparr>rl_id = ''r-1'', rl_site = ''site-1'', rl_token = ''w-1'', rl_cursor = 0\<rparr>"
  obtain db' where c: "ClaimQueuedRollout ''tenant_a'' 100 ''w-1'' 30 sample_queued_run_db = (Inr ?l, db')"
    using sample_lease by blast
  from stale_worker_fenced [OF c, of "?l\<lparr>rl_token := ''w-0''\<rparr>" 110 0 JNull 30] c show ?thesis by auto
qed

section \<open>One phase at a time\<close>

lemma queueNextPhase_outcome:
  "snd (queueNextPhase schema now l p db) = db \<or>
   (\<exists>plan d ops cs res db1.
      dec_rollout_plan (rp_plan p) = Some plan \<and> rl_cursor l < int (length (phase_order (pn_devices plan)))
      \<and> d = phase_order (pn_devices plan) ! nat (rl_cursor l)
      \<and> device_operations plan d = Some ops
      \<and> NewDeviceChangeSetForRolloutOperations (rl_id l) (rv_id d) ops (slice_elems (pn_health_checks plan)) ConfirmationLocalAuto = Inr cs
      \<and> QueueDeviceChangeSetForRollout schema now (rl_site l) (rv_role d) (rv_id d) (Some (change_set_json cs)) (rl_id l) db = (res, db1)
      \<and> (snd (queueNextPhase schema now l p db) = db1
         \<or> (\<exists>results. snd (queueNextPhase schema now l p db) = snd (UpdateRolloutWorkerResults schema now l results db1))))"
proof (cases "dec_rollout_plan (rp_plan p)")
  case None
  then show ?thesis by (simp add: queueNextPhase_def)
next
  case (Some plan)
  let ?d = "phase_order (pn_devices plan) ! nat (rl_cursor l)"
  show ?thesis
  proof (cases "device_operations plan ?d")
    case None
    with Some show ?thesis by (simp add: queueNextPhase_def Let_def split: option.split)
  next
    case ops: (Some ops)
    show ?thesis
    proof (cases "NewDeviceChangeSetForRolloutOperations (rl_id l) (rv_id ?d) ops (slice_elems (pn_health_checks plan)) ConfirmationLocalAuto")
      case (Inl e)
      with Some ops show ?thesis by (simp add: queueNextPhase_def Let_def split: option.split)
    next
      case (Inr cs)
      obtain res db1 where q: "QueueDeviceChangeSetForRollout schema now (rl_site l) (rv_role ?d) (rv_id ?d)
          (Some (change_set_json cs)) (rl_id l) db = (res, db1)"
        by (cases "QueueDeviceChangeSetForRollout schema now (rl_site l) (rv_role ?d) (rv_id ?d)
          (Some (change_set_json cs)) (rl_id l) db")
      have "snd (queueNextPhase schema now l p db) = db
         \<or> rl_cursor l < int (length (phase_order (pn_devices plan)))
         \<and> (snd (queueNextPhase schema now l p db) = db1
            \<or> (\<exists>results. snd (queueNextPhase schema now l p db) = snd (UpdateRolloutWorkerResults schema now l results db1)))"
        using Some ops Inr q
        by (cases res) (auto simp: queueNextPhase_def Let_def as_worker_def split: option.split)
      with Some ops Inr q show ?thesis by blast
    qed
  qed
qed

lemma queueNextPhase_contract:
  "db_progress db (snd (queueNextPhase schema now l p db)) \<and> runs_extend db (snd (queueNextPhase schema now l p db))"
proof (cases "snd (queueNextPhase schema now l p db) = db")
  case False
  then obtain d :: rollout_device and cs :: change_set and res db1 where
    q: "QueueDeviceChangeSetForRollout schema now (rl_site l) (rv_role d) (rv_id d) (Some (change_set_json cs)) (rl_id l) db = (res, db1)"
    and u: "snd (queueNextPhase schema now l p db) = db1 \<or>
      (\<exists>results. snd (queueNextPhase schema now l p db) = snd (UpdateRolloutWorkerResults schema now l results db1))"
    using queueNextPhase_outcome [of schema now l p db] by blast
  from q have db1: "db1 = snd (queueDeviceChangeSet schema now (rl_site l) (rv_role d) (rv_id d) (Some (change_set_json cs)) (rl_id l) db)"
    by (simp add: QueueDeviceChangeSetForRollout_def)
  have 1: "db_progress db db1" "rollouts db1 = rollouts db"
    by (simp_all add: db1 queueDeviceChangeSet_progress)
  have 2: "runs_extend db db1" using 1(2) by simp
  show ?thesis
  proof (cases "snd (queueNextPhase schema now l p db) = db1")
    case True
    with 1 2 show ?thesis by simp
  next
    case False
    with u obtain x where "snd (queueNextPhase schema now l p db) = snd (UpdateRolloutWorkerResults schema now l x db1)"
      by blast
    with results.contract [of db1 schema now l x] show ?thesis
      using db_progress_trans [OF 1(1)] runs_extend_trans [OF 2] by simp
  qed
qed simp

lemma queueDeviceChangeSet_other_device:
  "k \<noteq> i \<Longrightarrow> devices (snd (queueDeviceChangeSet schema now site role i cs rollout db)) k = devices db k"
  by (cases rule: queueDeviceChangeSet_cases [of schema now site role i cs rollout db]) simp_all

lemma phase_order_props:
  "mset (phase_order ds) = mset ds" "set (phase_order ds) = set ds" "length (phase_order ds) = length ds"
  by (simp_all add: phase_order_def)

lemma phase_order_sorted:
  assumes "m \<le> n" "n < length (phase_order ds)"
  shows "(is_gateway (phase_order ds ! m), rv_id (phase_order ds ! m))
       \<le> (is_gateway (phase_order ds ! n), rv_id (phase_order ds ! n))"
proof -
  have "sorted (map (\<lambda>d. (is_gateway d, rv_id d)) (phase_order ds))" by (simp add: phase_order_def)
  from sorted_nth_mono [OF this assms(1)] assms show ?thesis by simp
qed

lemma gateways_last:
  assumes "n < length (phase_order ds)" "is_gateway (phase_order ds ! n)" "e \<in> set ds" "\<not> is_gateway e"
  shows "e \<in> set (take n (phase_order ds))"
proof -
  from assms(3) obtain k where k: "k < length (phase_order ds)" "phase_order ds ! k = e"
    by (metis in_set_conv_nth phase_order_props(2))
  have "\<not> n \<le> k"
  proof
    assume "n \<le> k"
    from phase_order_sorted [OF this k(1)] assms(2,4) k(2) show False by (auto simp: less_eq_prod_def)
  qed
  with k show ?thesis by (auto simp: in_set_conv_nth intro!: exI [of _ k])
qed

text \<open>
  A phase touches one device: the one at the cursor in the rollout order. Every other device
  keeps its row, and when that device is a gateway, every device that is not a gateway comes earlier
  in the order, before the cursor.
\<close>

theorem phase_touches_one_device:
  assumes "dec_rollout_plan (rp_plan p) = Some plan" "0 \<le> rl_cursor l"
    "devices (snd (queueNextPhase schema now l p db)) k \<noteq> devices db k"
  shows "\<exists>d. rl_cursor l < int (length (pn_devices plan)) \<and> d = phase_order (pn_devices plan) ! nat (rl_cursor l)
     \<and> k = rv_id d
     \<and> (is_gateway d \<longrightarrow> (\<forall>e \<in> set (pn_devices plan). \<not> is_gateway e \<longrightarrow>
            e \<in> set (take (nat (rl_cursor l)) (phase_order (pn_devices plan)))))"
proof -
  have "snd (queueNextPhase schema now l p db) \<noteq> db" using assms(3) by auto
  then obtain d :: rollout_device and cs :: change_set and res db1 where d: "rl_cursor l < int (length (phase_order (pn_devices plan)))"
      "d = phase_order (pn_devices plan) ! nat (rl_cursor l)"
      "QueueDeviceChangeSetForRollout schema now (rl_site l) (rv_role d) (rv_id d) (Some (change_set_json cs)) (rl_id l) db = (res, db1)"
      "devices (snd (queueNextPhase schema now l p db)) = devices db1"
    using queueNextPhase_outcome [of schema now l p db] assms(1) results.keeps_devices by force
  have "k = rv_id d"
    using queueDeviceChangeSet_other_device [of k "rv_id d" schema now "rl_site l" "rv_role d" "Some (change_set_json cs)" "rl_id l" db]
      d(3,4) assms(3) by (auto simp: QueueDeviceChangeSetForRollout_def)
  moreover have "nat (rl_cursor l) < length (phase_order (pn_devices plan))" using d(1) assms(2) by linarith
  ultimately show ?thesis
    using d(1,2) gateways_last by (auto simp: phase_order_props)
qed

section \<open>Runs that cannot advance\<close>

text \<open>
  A run that a worker holds, none of whose results is final. Only a run with status QUEUED takes
  over the devices' final reports, so its results stay as they are.
\<close>

definition stuck_run :: "string \<Rightarrow> json list \<Rightarrow> rollout_row \<Rightarrow> bool" where
  "stuck_run i rs r \<longleftrightarrow>
     rr_id r = i \<and> rr_status r = ''RUNNING'' \<and> rr_results r = JArr rs \<and> rr_cursor r = 0"

definition stuck :: "string \<Rightarrow> json list \<Rightarrow> tenant_db \<Rightarrow> bool" where
  "stuck i rs db \<longleftrightarrow> list_ex (stuck_run i rs) (rollouts db)
     \<and> (\<forall>r \<in> set (rollouts db). rr_id r = i \<longrightarrow> stuck_run i rs r)"

lemma stuck_map:
  assumes "stuck i rs db" "\<And>r. r \<in> set (rollouts db) \<Longrightarrow> rr_id (f r) = rr_id r"
    "\<And>r. stuck_run i rs r \<Longrightarrow> stuck_run i rs (f r)" "rollouts db' = map f (rollouts db)"
  shows "stuck i rs db'"
  using assms by (fastforce simp: stuck_def list_ex_iff)

lemma stuck_report: "stuck i rs db \<Longrightarrow> stuck i rs (cs_report schema req db)"
proof -
  assume stuck: "stuck i rs db"
  obtain now k status where req: "req = (now, k, status)" by (cases req)
  show ?thesis
  proof (cases rule: RecordDeviceChangeSetStatus_cases [of schema now k status db])
    case (refused e)
    with stuck show ?thesis by (simp add: req cs_report_def)
  next
    case (applied ident j e d)
    have keep: "stuck_run i rs r \<Longrightarrow> stuck_run i rs (settle_rollout now k (dv_site d) ident (ce_state e) (ce_failure e) r)" for r
      by (simp add: stuck_run_def settle_rollout_def)
    show ?thesis
    proof (cases "cs_terminal (ce_state e)")
      case True
      show ?thesis
        by (rule stuck_map [OF stuck, where f = "settle_rollout now k (dv_site d) ident (ce_state e) (ce_failure e)", OF _ keep])
          (simp_all add: req cs_report_def applied(6) True settle_rollout_kept [unfolded run_kept_def])
    next
      case False
      with stuck applied(6) show ?thesis by (simp add: req cs_report_def stuck_def)
    qed
  qed
qed

lemma stuck_renew: "stuck i rs db \<Longrightarrow> stuck i rs (snd (RenewRolloutLease schema now l d db))"
proof (cases "isValidSchemaName schema \<and> list_ex (holds_lease now l) (rollouts db)")
  case True
  assume stuck: "stuck i rs db"
  show ?thesis
    by (rule stuck_map [OF stuck, where f = "\<lambda>r. if holds_lease now l r
          then r\<lparr>rr_lease_until := Some (now + d), rr_updated_at := now\<rparr> else r"])
      (use True in \<open>auto simp: RenewRolloutLease_def update_run_def stuck_run_def\<close>)
next
  case False
  assume "stuck i rs db"
  with False show ?thesis by (auto simp: RenewRolloutLease_def update_run_def split: sum.split)
qed

lemma stuck_pass:
  assumes "stuck i rs db" "rl_id l = i" "rl_cursor l = 0" "all_some (map dec_result_states rs) = Some states"
    "\<not> list_ex result_terminal states"
  shows "snd (reconcile_pass schema now l db) = db \<and> fst (reconcile_pass schema now l db) \<in> {None, Some l}"
proof (cases "GetRolloutProgress schema (rl_id l) (rl_site l) db")
  case (Inl e)
  then show ?thesis by (simp add: reconcile_pass_def)
next
  case (Inr p)
  then obtain r where r: "find (\<lambda>r. rr_id r = rl_id l \<and> rr_site r = rl_site l) (rollouts db) = Some r"
    by (auto simp: GetRolloutProgress_def andthen_Inr_iff split: option.splits)
  then have "r \<in> set (rollouts db)" "rr_id r = i" using assms(2) by (auto simp: find_Some_iff)
  with assms(1) have "stuck_run i rs r" by (simp add: stuck_def)
  then have "dec_progress_results (rr_results r) = Some states"
    using assms(4) by (simp add: stuck_run_def dec_progress_results_def)
  moreover have "filter result_terminal states = []" using assms(5) by (auto simp: filter_empty_conv list_ex_iff)
  ultimately have "rp_terminal p = 0" using Inr r by (auto simp: GetRolloutProgress_def andthen_Inr_iff)
  with Inr assms(3) show ?thesis by (simp add: reconcile_pass_def canAdvancePhase_def)
qed

lemma stuck_forever:
  assumes "(worker_step schema d)\<^sup>*\<^sup>* (x, db) (x', db')" "x = Some l \<or> x = None" "stuck i rs db"
    "rl_id l = i" "rl_cursor l = 0" "all_some (map dec_result_states rs) = Some states" "\<not> list_ex result_terminal states"
  shows "stuck i rs db' \<and> (x' = Some l \<or> x' = None)"
  using assms(1-3)
proof (induction rule: rtranclp_induct2)
  case refl
  then show ?case by simp
next
  case (step x1 db1 x2 db2)
  then have IH: "stuck i rs db1" "x1 = Some l \<or> x1 = None" by auto
  from step.hyps(2) show ?case
  proof (cases rule: worker_step.cases)
    case (pass now l1)
    with stuck_pass [OF IH(1) assms(4-7), of schema now] IH show ?thesis by auto
  next
    case (renew now l1)
    with stuck_renew [OF IH(1), of schema now l1 d] IH show ?thesis by auto
  next
    case (lost now l1 e)
    with stuck_renew [OF IH(1), of schema now l1 d] IH show ?thesis by auto
  next
    case (report req)
    with stuck_report [OF IH(1)] IH show ?thesis by auto
  qed
qed


text \<open>
  A claimed run cannot advance: the worker turns a QUEUED run into a RUNNING one, but final
  reports are written into the results of QUEUED runs only. From the claim of a run none of whose
  results is final, every interleaving of the worker's passes and renewals with reports of devices
  leaves the run RUNNING with the results and the cursor it had.
\<close>

theorem worker_never_advances:
  assumes "ClaimQueuedRollout schema now token d db = (Inr l, db')" "runs_wf db"
    "r \<in> set (rollouts db)" "rr_id r = rl_id l" "rr_results r = JArr rs" "rr_cursor r = 0"
    "all_some (map dec_result_states rs) = Some states" "\<not> list_ex result_terminal states"
    "(worker_step schema d)\<^sup>*\<^sup>* (Some l, db') (x, db'')"
  shows "\<exists>r'' \<in> set (rollouts db''). rr_id r'' = rl_id l \<and> rr_status r'' = ''RUNNING''
     \<and> rr_results r'' = JArr rs \<and> rr_cursor r'' = 0"
proof -
  obtain c :: rollout_row where c: "c \<in> set (rollouts db)" "l = \<lparr>rl_id = rr_id c, rl_site = rr_site c, rl_token = token, rl_cursor = rr_cursor c\<rparr>"
      "db' = update_rollouts (\<lambda>r. if rr_id r = rr_id c then lease_row now d token r else r) db"
    using claim_lease_outcome [of schema now token d db] assms(1) by auto
  have "c = r" using runs_wf_by_id [OF assms(2) c(1) assms(3)] assms(4) c(2) by simp
  have run: "stuck_run (rl_id l) rs (lease_row now d token r)"
    using assms(4-6) by (simp add: stuck_run_def lease_row_def)
  have only: "q = r" if "q \<in> set (rollouts db)" "rr_id q = rl_id l" for q
    using runs_wf_by_id [OF assms(2) that(1) assms(3)] that(2) assms(4) by simp
  have "stuck (rl_id l) rs db'"
    unfolding stuck_def list_ex_iff
  proof (intro conjI ballI impI)
    show "\<exists>q \<in> set (rollouts db'). stuck_run (rl_id l) rs q"
      using run c assms(3) \<open>c = r\<close> by (intro bexI [of _ "lease_row now d token r"]) (auto intro!: image_eqI [of _ _ r])
    fix q assume "q \<in> set (rollouts db')" "rr_id q = rl_id l"
    then obtain q0 where q0: "q0 \<in> set (rollouts db)" "q = (if rr_id q0 = rr_id c then lease_row now d token q0 else q0)"
      by (auto simp: c(3))
    have "rr_id q0 = rl_id l"
      using q0(2) \<open>rr_id q = rl_id l\<close> by (cases "rr_id q0 = rr_id c") (auto simp: lease_row_def)
    with q0 only c(2) run show "stuck_run (rl_id l) rs q" by simp
  qed
  moreover have "rl_cursor l = 0" using c(2) \<open>c = r\<close> assms(6) by simp
  ultimately have "stuck (rl_id l) rs db''"
    using stuck_forever [OF assms(9) _ _ refl _ assms(7,8)] by blast
  then show ?thesis by (auto simp: stuck_def list_ex_iff stuck_run_def)
qed

theorem worker_never_advances_witness:
  "\<exists>l db' db''. ClaimQueuedRollout ''tenant_a'' 100 ''w-1'' 30 sample_queued_run_db = (Inr l, db')
     \<and> db'' = cs_report ''tenant_a'' (110, ''dev-1'', Some (JObj [(''state'', JStr ''COMMITTED'')])) db'
     \<and> (\<exists>r'' \<in> set (rollouts db''). rr_id r'' = ''r-1'' \<and> rr_status r'' = ''RUNNING'')"
proof -
  let ?l = "\<lparr>rl_id = ''r-1'', rl_site = ''site-1'', rl_token = ''w-1'', rl_cursor = 0\<rparr>"
  let ?rs = "[JObj [(''device_id'', JStr ''dev-1''), (''change_set_id'', JStr ''cs-1'')]]"
  let ?req = "(110, ''dev-1'', Some (JObj [(''state'', JStr ''COMMITTED'')]))"
  obtain db' where c: "ClaimQueuedRollout ''tenant_a'' 100 ''w-1'' 30 sample_queued_run_db = (Inr ?l, db')"
    using sample_lease by blast
  have wf: "runs_wf sample_queued_run_db" by (simp add: runs_wf_def sample_queued_run_db_def)
  have run: "sample_run \<in> set (rollouts sample_queued_run_db)" "rr_id sample_run = rl_id ?l"
      "rr_results sample_run = JArr ?rs" "rr_cursor sample_run = 0"
    by (simp_all add: sample_queued_run_db_def sample_run_def)
  have dec: "all_some (map dec_result_states ?rs) = Some [([], [])]" by code_simp
  have open_: "\<not> list_ex result_terminal [([], [])]" by (simp add: result_terminal_def)
  have "(worker_step ''tenant_a'' 30)\<^sup>*\<^sup>* (Some ?l, db') (Some ?l, cs_report ''tenant_a'' ?req db')"
    by (intro r_into_rtranclp worker_step.report)
  from worker_never_advances [OF c wf run dec open_ this] c show ?thesis by auto
qed

section \<open>The worker keeps the contracts\<close>

lemma reconcile_pass_contract:
  "db_progress db (snd (reconcile_pass schema now l db)) \<and> runs_extend db (snd (reconcile_pass schema now l db))"
proof (cases "GetRolloutProgress schema (rl_id l) (rl_site l) db")
  case (Inl e)
  then show ?thesis by (simp add: reconcile_pass_def)
next
  case (Inr p)
  define moved where "moved = (if rp_terminal p > rl_cursor l
      then (case UpdateRolloutWorkerCursor schema now l (rp_terminal p) db of
              (Inl _, db') \<Rightarrow> (None, db') | (Inr _, db') \<Rightarrow> (Some (l\<lparr>rl_cursor := rp_terminal p\<rparr>), db'))
      else (Some l, db))"
  have "snd moved = db \<or> snd moved = snd (UpdateRolloutWorkerCursor schema now l (rp_terminal p) db)"
    by (auto simp: moved_def split: prod.split sum.split)
  then have m: "db_progress db (snd moved)" "runs_extend db (snd moved)"
    using cursor.contract [of db schema now l "rp_terminal p"] by auto
  have "snd (reconcile_pass schema now l db) = snd moved
     \<or> (\<exists>l1. snd (reconcile_pass schema now l db) = snd (queueNextPhase schema now l1 p (snd moved)))"
  proof (cases moved)
    case (Pair l1 db1)
    show ?thesis
    proof (cases l1)
      case None
      with Pair Inr show ?thesis by (simp add: reconcile_pass_def moved_def [symmetric])
    next
      case (Some l2)
      obtain res db2 where "queueNextPhase schema now l2 p db1 = (res, db2)"
        by (cases "queueNextPhase schema now l2 p db1")
      with Some Pair Inr show ?thesis
        by (cases res) (auto simp: reconcile_pass_def moved_def [symmetric] intro!: exI [of _ l2])
    qed
  qed
  then show ?thesis
  proof (elim disjE exE)
    fix l1 assume "snd (reconcile_pass schema now l db) = snd (queueNextPhase schema now l1 p (snd moved))"
    with queueNextPhase_contract [of "snd moved" schema now l1 p] show ?thesis
      using db_progress_trans [OF m(1)] runs_extend_trans [OF m(2)] by simp
  qed (use m in simp)
qed

datatype worker_request =
    WorkerClaim int string int
  | WorkerRenew int rollout_lease int
  | WorkerPass int rollout_lease

fun worker_exec :: "string \<Rightarrow> worker_request \<Rightarrow> tenant_db \<Rightarrow> tenant_db" where
  "worker_exec schema (WorkerClaim now token d) db = snd (reconcile_tenant schema now token d db)"
| "worker_exec schema (WorkerRenew now l d) db = snd (RenewRolloutLease schema now l d db)"
| "worker_exec schema (WorkerPass now l) db = snd (reconcile_pass schema now l db)"

lemma reconcile_tenant_contract:
  "db_progress db (snd (reconcile_tenant schema now token d db)) \<and> runs_extend db (snd (reconcile_tenant schema now token d db))"
proof -
  have "devices (snd (reconcile_tenant schema now token d db)) = devices (snd (ClaimQueuedRollout schema now token d db))"
    "rollouts (snd (reconcile_tenant schema now token d db)) = rollouts (snd (ClaimQueuedRollout schema now token d db))"
    by (auto simp: reconcile_tenant_def split: prod.split sum.split)
  with claim_lease_contract [of db schema now token d] show ?thesis
    by (simp add: db_progress_def runs_extend_def)
qed

interpretation workers: control_writer "worker_exec schema" for schema
proof
  fix db req
  show "db_progress db (worker_exec schema req db)"
    by (cases req) (simp_all add: reconcile_tenant_contract renewal.contract reconcile_pass_contract)
  show "runs_extend db (worker_exec schema req db)"
    by (cases req) (simp_all add: reconcile_tenant_contract renewal.contract reconcile_pass_contract)
qed

section \<open>An example phase\<close>

definition sample_plan_doc :: json where
  "sample_plan_doc =
     JObj [(''namespace'', JStr ''system''),
           (''devices'', JArr
             [JObj [(''device_id'', JStr ''dev-1''), (''role'', JStr ''ap''),
                    (''commands'', JArr [command_json sample_set]),
                    (''observed_state'', JObj [(''system'', JStr (replicate 64 CHR ''0''))])],
              JObj [(''device_id'', JStr ''dev-0''), (''role'', JStr ''ap'')]])]"

definition sample_progress :: rollout_progress where
  "sample_progress =
     \<lparr>rp_status = ''RUNNING'', rp_terminal = 1, rp_count = 2, rp_failures = 0, rp_plan = sample_plan_doc,
      rp_results = JArr [JObj [(''device_id'', JStr ''dev-0''), (''status'', JStr ''SUCCESS'')],
                         JObj [(''device_id'', JStr ''dev-1''), (''status'', JStr ''WAITING'')]]\<rparr>"

definition sample_worker_lease :: rollout_lease where
  "sample_worker_lease = \<lparr>rl_id = ''r-1'', rl_site = ''site-1'', rl_token = ''w-1'', rl_cursor = 1\<rparr>"

definition sample_running_db :: tenant_db where
  "sample_running_db = sample_cs_db\<lparr>rollouts :=
     [sample_run\<lparr>rr_status := ''RUNNING'', rr_claim_token := Some ''tok'', rr_updated_at := 100\<rparr>]\<rparr>"

definition sample_rollout_plan :: rollout_plan where
  "sample_rollout_plan =
     \<lparr>pn_health_checks = None, pn_namespace = ''system'',
      pn_devices = [\<lparr>rv_id = ''dev-1'', rv_hostname = [], rv_role = ''ap'', rv_commands = [sample_set],
                     rv_observed = [(''system'', replicate 64 CHR ''0'')]\<rparr>,
                    \<lparr>rv_id = ''dev-0'', rv_hostname = [], rv_role = ''ap'', rv_commands = [], rv_observed = []\<rparr>]\<rparr>"

lemma sample_plan_decoded: "dec_rollout_plan sample_plan_doc = Some sample_rollout_plan"
  by code_simp

lemma sample_phase:
  "phase_order (pn_devices sample_rollout_plan) ! 1 = hd (pn_devices sample_rollout_plan)"
  "length (phase_order (pn_devices sample_rollout_plan)) = 2"
  "device_operations sample_rollout_plan (hd (pn_devices sample_rollout_plan)) = Some [sample_operation sample_set]"
  by code_simp+

lemma sample_phase_queued:
  "devices (snd (queueNextPhase ''tenant_a'' 100 sample_worker_lease sample_progress sample_running_db)) ''dev-1''
     \<noteq> devices sample_running_db ''dev-1''"
proof -
  obtain cs where new: "NewDeviceChangeSetForRolloutOperations ''r-1'' ''dev-1'' [sample_operation sample_set] []
      ''local_auto'' = Inr cs"
    using sample_change_set(1) by blast
  let ?i = "\<lparr>ci_id = cs_id cs, ci_device = ''dev-1'', ci_hash = cs_plan_hash cs, ci_generation = 0, ci_has_gen = False\<rparr>"
  let ?db = "update_device ''dev-1'' (queue_cs_row 100 (change_set_json cs) ?i) sample_running_db"
  have "cs_id cs \<noteq> []"
    using rollout_change_set_Inr(1) [OF new]
    by (auto simp: ValidateDeviceChangeSet_ok validDeviceChangeSetID_def validDeviceOperationID_def)
  then have guard: "queue_cs_guard sample_running_db 100 ''site-1'' ''ap'' ''r-1'' ?i sample_cs_row"
    by (intro sample_owned_guard) (simp_all add: sample_running_db_def)
  have schema: "isValidSchemaName ''tenant_a''" by code_simp
  have row: "devices sample_running_db ''dev-1'' = Some sample_cs_row" "dv_desired sample_cs_row = 4"
      "dv_pending_cs sample_cs_row = None"
    by (simp_all add: sample_running_db_def sample_cs_row_def sample_row_def)
  have q: "QueueDeviceChangeSetForRollout ''tenant_a'' 100 ''site-1'' ''ap'' ''dev-1'' (Some (change_set_json cs)) ''r-1'' sample_running_db
      = (Inr 5, ?db)"
    using schema sample_cs_parse [OF new] guard row
    by (simp add: QueueDeviceChangeSetForRollout_def queueDeviceChangeSet_def max_int64_def queue_cs_row_def)
  have plan: "rp_plan sample_progress = sample_plan_doc" "rl_id sample_worker_lease = ''r-1''"
      "rl_site sample_worker_lease = ''site-1''" "rl_cursor sample_worker_lease = 1"
      "slice_elems (pn_health_checks sample_rollout_plan) = []" "rv_id (hd (pn_devices sample_rollout_plan)) = ''dev-1''"
      "rv_role (hd (pn_devices sample_rollout_plan)) = ''ap''"
    by (simp_all add: sample_progress_def sample_worker_lease_def sample_rollout_plan_def)
  obtain res where res: "dec_results (Some (rp_results sample_progress)) = Some res"
      "\<not> list_ex (\<lambda>r. result_of ''dev-1'' r \<and> jfield ''status'' r \<noteq> Some (JStr ''WAITING'')) res"
    by (simp add: sample_progress_def dec_results_def result_of_def jfield_def)
  have "devices (snd (queueNextPhase ''tenant_a'' 100 sample_worker_lease sample_progress sample_running_db)) = devices ?db"
    using q new res
    by (simp add: queueNextPhase_def plan sample_plan_decoded sample_phase [unfolded One_nat_def] Let_def
        ConfirmationLocalAuto_def as_worker_def results.keeps_devices)
  moreover have "dv_desired (queue_cs_row 100 (change_set_json cs) ?i sample_cs_row) \<noteq> dv_desired sample_cs_row"
    by (simp add: queue_cs_row_def)
  then have "queue_cs_row 100 (change_set_json cs) ?i sample_cs_row \<noteq> sample_cs_row" by metis
  ultimately show ?thesis using row by simp
qed

theorem phase_touches_one_device_witness:
  "\<exists>d. d = phase_order (pn_devices sample_rollout_plan) ! 1 \<and> rv_id d = ''dev-1''"
proof -
  have "dec_rollout_plan (rp_plan sample_progress) = Some sample_rollout_plan" "0 \<le> rl_cursor sample_worker_lease"
    by (simp_all add: sample_progress_def sample_worker_lease_def sample_plan_decoded)
  from phase_touches_one_device [OF this sample_phase_queued] show ?thesis
    by (auto simp: sample_worker_lease_def)
qed

end
