(* ===== verification/Edge_Nexus.thy ===== *)
theory Edge_Nexus
  imports Device_Operation
begin

text \<open>
  The edge configuration of a single device, \<open>src/internal/services/edge_nexus.go\<close>: interfaces, DHCP
  and port forwards as records, their validators, the typed commands handed to the device-local
  executor, and the older serialisers that print the same configuration as shell text.

  The lemmas show that a validated configuration is always accepted by the command grammar, and
  they compare the two serialisers line by line.
\<close>

section \<open>Models\<close>

record network_interface =
  ni_name :: string
  ni_vlan :: int
  ni_proto :: string
  ni_ipaddr :: string
  ni_netmask :: string
  ni_gateway :: string
  ni_device :: string
  ni_enabled :: bool

record static_lease =
  sl_name :: string
  sl_mac :: string
  sl_ip :: string

record dhcp_interface =
  di_interface :: string
  di_enabled :: bool
  di_start :: int
  di_limit :: int
  di_lease_time :: string
  di_upstream_dns :: "string list"
  di_static_leases :: "static_lease list"

record port_forward_rule =
  pf_name :: string
  pf_proto :: string
  pf_src_port :: int
  pf_dest_ip :: string
  pf_dest_port :: int
  pf_enabled :: bool

datatype edge_error =
    EdgeInterfaceName nat
  | EdgeInterfaceProto nat
  | EdgeDhcpName nat
  | EdgeDhcpLease nat nat
  | EdgeForwardName nat
  | EdgeForwardProto nat
  | EdgeForwardPort nat
  | EdgeForwardAddress nat

section \<open>Validators\<close>

text \<open>A loop that returns the first error, with the index of the element.\<close>

fun first_error :: "(nat \<Rightarrow> 'a \<Rightarrow> 'e option) \<Rightarrow> nat \<Rightarrow> 'a list \<Rightarrow> 'e option" where
  "first_error check i [] = None"
| "first_error check i (x # xs) =
     (case check i x of Some e \<Rightarrow> Some e | None \<Rightarrow> first_error check (Suc i) xs)"

definition check_interface :: "nat \<Rightarrow> network_interface \<Rightarrow> edge_error option" where
  "check_interface i x =
     (if \<not> valid_uci_name (ni_name x) then Some (EdgeInterfaceName i)
      else if ni_proto x \<notin> {''static'', ''dhcp'', ''dhcpv6'', ''wireguard''} then Some (EdgeInterfaceProto i)
      else None)"

definition ValidateNetworkInterfaces :: "network_interface list \<Rightarrow> edge_error option" where
  "ValidateNetworkInterfaces ifaces = first_error check_interface 0 ifaces"

definition lease_command :: "static_lease \<Rightarrow> uci_command" where
  "lease_command l = mk_uci ''ensure_host'' ''dhcp'' (sl_name l) (sl_mac l) (sl_ip l)"

definition check_dhcp :: "nat \<Rightarrow> dhcp_interface \<Rightarrow> edge_error option" where
  "check_dhcp i d =
     (if \<not> valid_uci_name (di_interface d) then Some (EdgeDhcpName i)
      else first_error (\<lambda>j l. if ensureDHCPHost (lease_command l) = [] then Some (EdgeDhcpLease i j) else None)
             0 (di_static_leases d))"

definition ValidateDHCPInterfaces :: "dhcp_interface list \<Rightarrow> edge_error option" where
  "ValidateDHCPInterfaces dhcpList = first_error check_dhcp 0 dhcpList"

definition check_forward :: "nat \<Rightarrow> port_forward_rule \<Rightarrow> edge_error option" where
  "check_forward i r =
     (if pf_name r = [] \<or> length (pf_name r) > 128 \<or> contains_any (pf_name r) [CHR 0x0D, CHR 0x0A]
      then Some (EdgeForwardName i)
      else if pf_proto r \<notin> {''tcp'', ''udp'', ''tcp udp''} then Some (EdgeForwardProto i)
      else if pf_src_port r < 0 \<or> pf_src_port r > 65535 \<or> pf_dest_port r < 1 \<or> pf_dest_port r > 65535
      then Some (EdgeForwardPort i)
      else if parse_ip (pf_dest_ip r) = None then Some (EdgeForwardAddress i)
      else None)"

definition ValidatePortForwardRules :: "port_forward_rule list \<Rightarrow> edge_error option" where
  "ValidatePortForwardRules rules = first_error check_forward 0 rules"

section \<open>Typed commands\<close>

definition interface_commands :: "network_interface \<Rightarrow> uci_command list" where
  "interface_commands x =
     (let s = ni_name x; put = (\<lambda>opt v. mk_uci ''set'' ''network'' s opt v) in
      if \<not> valid_uci_name s then []
      else [put [] ''interface'', put ''proto'' (ni_proto x)]
        @ (if ni_device x \<noteq> [] then [put ''device'' (ni_device x)] else [])
        @ (if ni_vlan x > 0 then [put ''vid'' (int_str (ni_vlan x))] else [])
        @ (if ni_proto x = ''static''
           then (if ni_ipaddr x \<noteq> [] then [put ''ipaddr'' (ni_ipaddr x)] else [])
             @ (if ni_netmask x \<noteq> [] then [put ''netmask'' (ni_netmask x)] else [])
             @ (if ni_gateway x \<noteq> [] then [put ''gateway'' (ni_gateway x)] else [])
           else []))"

definition BuildNetworkCommands :: "network_interface list \<Rightarrow> uci_command list" where
  "BuildNetworkCommands ifaces = concat (map interface_commands ifaces)"

definition dhcp_commands :: "dhcp_interface \<Rightarrow> uci_command list" where
  "dhcp_commands d =
     (let s = di_interface d; put = (\<lambda>opt v. mk_uci ''set'' ''dhcp'' s opt v) in
      if \<not> valid_uci_name s then []
      else [put [] ''dhcp'', put ''interface'' s, put ''ignore'' (if di_enabled d then ''0'' else ''1'')]
        @ (if di_enabled d
           then [put ''start'' (int_str (di_start d)), put ''limit'' (int_str (di_limit d))]
             @ (if di_lease_time d \<noteq> [] then [put ''leasetime'' (di_lease_time d)] else [])
           else [])
        @ (if di_upstream_dns d \<noteq> []
           then mk_uci ''delete'' ''dhcp'' ''@dnsmasq[0]'' ''server'' []
             # map (mk_uci ''add_list'' ''dhcp'' ''@dnsmasq[0]'' ''server'') (di_upstream_dns d)
           else [])
        @ map lease_command (di_static_leases d))"

definition BuildDHCPCommands :: "dhcp_interface list \<Rightarrow> uci_command list" where
  "BuildDHCPCommands dhcpList = concat (map dhcp_commands dhcpList)"

definition forward_commands :: "port_forward_rule \<Rightarrow> uci_command list" where
  "forward_commands r =
     (let put = (\<lambda>opt v. mk_uci ''set'' ''firewall'' ''@redirect[-1]'' opt v) in
      [mk_uci ''add'' ''firewall'' [] [] ''redirect'',
       put ''name'' (pf_name r), put ''target'' ''DNAT'', put ''src'' ''wan'',
       put ''src_dport'' (int_str (pf_src_port r)), put ''proto'' (pf_proto r),
       put ''dest_ip'' (pf_dest_ip r), put ''dest_port'' (int_str (pf_dest_port r)),
       put ''dest'' ''lan'', put ''enabled'' (if pf_enabled r then ''1'' else ''0'')])"

definition BuildFirewallCommands :: "port_forward_rule list \<Rightarrow> uci_command list" where
  "BuildFirewallCommands rules =
     mk_uci ''delete_all'' ''firewall'' ''redirect'' [] [] # concat (map forward_commands rules)"

section \<open>Shell text\<close>

text \<open>
  One line of the older serialisers: \<open>uci set path='value'\<close>, either escaped or, for constants and
  \<open>%d\<close>, as it is.
\<close>

definition opt_path :: "string \<Rightarrow> string \<Rightarrow> string \<Rightarrow> string" where
  "opt_path c s opt = c @ ''.'' @ s @ ''.'' @ opt"

definition set_plain :: "string \<Rightarrow> string \<Rightarrow> string" where
  "set_plain path v = ''uci set '' @ path @ ''='' @ sq @ v @ sq"

definition set_text :: "string \<Rightarrow> string \<Rightarrow> string" where
  "set_text path v = set_plain path (escapeVal v)"

definition interface_lines :: "network_interface \<Rightarrow> string list" where
  "interface_lines x =
     (let n = ni_name x; p = opt_path ''network'' n in
      if \<not> valid_uci_name n then []
      else [''uci set network.'' @ n @ ''=interface'', set_text (p ''proto'') (ni_proto x)]
        @ (if ni_device x \<noteq> [] then [set_text (p ''device'') (ni_device x)] else [])
        @ (if ni_vlan x > 0 then [set_plain (p ''vid'') (int_str (ni_vlan x))] else [])
        @ (if ni_proto x = ''static''
           then (if ni_ipaddr x \<noteq> [] then [set_text (p ''ipaddr'') (ni_ipaddr x)] else [])
             @ (if ni_netmask x \<noteq> [] then [set_text (p ''netmask'') (ni_netmask x)] else [])
             @ (if ni_gateway x \<noteq> [] then [set_text (p ''gateway'') (ni_gateway x)] else [])
           else []))"

definition BuildNetworkUCI :: "network_interface list \<Rightarrow> string" where
  "BuildNetworkUCI ifaces = unlines (concat (map interface_lines ifaces) @ [''uci commit network''])"

definition dhcp_lines :: "dhcp_interface \<Rightarrow> string list" where
  "dhcp_lines d =
     (let n = di_interface d; p = opt_path ''dhcp'' n in
      if \<not> valid_uci_name n then []
      else [''uci set dhcp.'' @ n @ ''=dhcp'', set_text (p ''interface'') n]
        @ (if \<not> di_enabled d then [set_plain (p ''ignore'') ''1'']
           else [set_plain (p ''ignore'') ''0'',
                 set_plain (p ''start'') (int_str (di_start d)), set_plain (p ''limit'') (int_str (di_limit d))]
             @ (if di_lease_time d \<noteq> [] then [set_text (p ''leasetime'') (di_lease_time d)] else []))
        @ (if di_upstream_dns d \<noteq> []
           then ''uci -q delete dhcp.@dnsmasq[0].server''
             # map (\<lambda>dns. ''uci add_list '' @ opt_path ''dhcp'' ''@dnsmasq[0]'' ''server'' @ ''='' @ sq @ escapeVal dns @ sq) (di_upstream_dns d)
           else [])
        @ concat (map (\<lambda>l.
            [''uci add dhcp host'',
             set_text (opt_path ''dhcp'' ''@host[-1]'' ''name'') (sl_name l), set_text (opt_path ''dhcp'' ''@host[-1]'' ''mac'') (sl_mac l),
             set_text (opt_path ''dhcp'' ''@host[-1]'' ''ip'') (sl_ip l)]) (di_static_leases d)))"

definition BuildDHCPUCI :: "dhcp_interface list \<Rightarrow> string" where
  "BuildDHCPUCI dhcpList = unlines (concat (map dhcp_lines dhcpList) @ [''uci commit dhcp''])"

definition forward_lines :: "port_forward_rule \<Rightarrow> string list" where
  "forward_lines r =
     (let p = opt_path ''firewall'' ''@redirect[-1]'' in
      [''uci add firewall redirect'', set_text (p ''name'') (pf_name r),
       set_plain (p ''target'') ''DNAT'',
       set_plain (p ''src'') ''wan'',
       set_plain (p ''src_dport'') (int_str (pf_src_port r)), set_text (p ''proto'') (pf_proto r),
       set_text (p ''dest_ip'') (pf_dest_ip r), set_plain (p ''dest_port'') (int_str (pf_dest_port r)),
       set_plain (p ''enabled'') (if \<not> pf_enabled r then ''0'' else ''1'')])"

definition redirect_wipe :: string where
  "redirect_wipe = ''while uci -q delete firewall.@redirect[0]; do :; done''"

definition BuildFirewallUCI :: "port_forward_rule list \<Rightarrow> string" where
  "BuildFirewallUCI rules =
     unlines (redirect_wipe # concat (map forward_lines rules) @ [''uci commit firewall''])"

definition reload_head :: string where
  "reload_head = unlines
     [''#!/bin/sh'',
      ''set -e'',
      [],
      ''# '' @ box_rule 62,
      ''# EDGE_NEXUS '' @ em_dash @ '' Validated configuration push (Nerve Center)'',
      ''# '' @ box_rule 62,
      [],
      ''logger -t edge_nexus '' @ dq @ ''EDGE_NEXUS: starting config push'' @ dq,
      [],
      ''# 1. Backup current state'',
      ''uci export network  > /tmp/edge_bak_network.conf  2>/dev/null  || true'',
      ''uci export dhcp     > /tmp/edge_bak_dhcp.conf     2>/dev/null  || true'',
      ''uci export firewall > /tmp/edge_bak_firewall.conf 2>/dev/null  || true'',
      [],
      ''rollback() {'',
      ''  logger -t edge_nexus '' @ dq @ ''EDGE_NEXUS: ERROR '' @ em_dash @ '' rolling back config'' @ dq,
      ''  uci import network  < /tmp/edge_bak_network.conf  2>/dev/null || true'',
      ''  uci import dhcp     < /tmp/edge_bak_dhcp.conf     2>/dev/null || true'',
      ''  uci import firewall < /tmp/edge_bak_firewall.conf 2>/dev/null || true'',
      ''  uci commit network'',
      ''  uci commit dhcp'',
      ''  uci commit firewall'',
      ''  exit 1'',
      ''}'',
      ''trap rollback ERR'',
      [],
      ''# 2. Apply UCI changes'']"

definition reload_tail :: string where
  "reload_tail = [CHR 0x0A] @ unlines
     [[],
      ''# 3. Validate: uci show network must parse cleanly'',
      ''uci show network > /dev/null 2>&1 || { logger -t edge_nexus '' @ dq @ ''network validation failed'' @ dq @ ''; rollback; }'',
      ''uci show dhcp    > /dev/null 2>&1 || { logger -t edge_nexus '' @ dq @ ''dhcp validation failed'' @ dq @ '';    rollback; }'',
      ''uci show firewall> /dev/null 2>&1 || { logger -t edge_nexus '' @ dq @ ''firewall validation failed'' @ dq @ ''; rollback; }'',
      [],
      ''# 4. Reload services'',
      ''/etc/init.d/network reload  && logger -t edge_nexus '' @ dq @ ''network reloaded'' @ dq,
      ''/etc/init.d/dnsmasq restart && logger -t edge_nexus '' @ dq @ ''dnsmasq restarted'' @ dq,
      ''/etc/init.d/firewall restart && logger -t edge_nexus '' @ dq @ ''firewall restarted'' @ dq,
      [],
      ''logger -t edge_nexus '' @ dq @ ''EDGE_NEXUS: config push complete'' @ dq,
      ''exit 0'']"

definition BuildValidatedReloadScript :: "string \<Rightarrow> string \<Rightarrow> string \<Rightarrow> string" where
  "BuildValidatedReloadScript networkUCI dhcpUCI firewallUCI =
     reload_head @ networkUCI @ [CHR 0x0A] @ dhcpUCI @ [CHR 0x0A] @ firewallUCI @ reload_tail"

section \<open>Validated input is accepted\<close>

lemma first_error_None:
  "first_error check i xs = None \<longleftrightarrow> (\<forall>j < length xs. check (i + j) (xs ! j) = None)"
proof (induction xs arbitrary: i)
  case (Cons x xs)
  then show ?case by (auto simp: less_Suc_eq_0_disj split: option.split)
qed simp

lemma first_error_None_set:
  assumes "first_error check i xs = None" "x \<in> set xs"
  shows "\<exists>j. check j x = None"
  using assms by (auto simp: first_error_None in_set_conv_nth)

text \<open>The constant names and sections of the builders.\<close>

lemma edge_names [simp]:
  "valid_uci_name ''network''" "valid_uci_name ''proto''" "valid_uci_name ''device''" "valid_uci_name ''vid''"
  "valid_uci_name ''ipaddr''" "valid_uci_name ''netmask''" "valid_uci_name ''gateway''"
  "valid_uci_name ''dhcp''" "valid_uci_name ''interface''" "valid_uci_name ''ignore''" "valid_uci_name ''start''"
  "valid_uci_name ''limit''" "valid_uci_name ''leasetime''" "valid_uci_name ''server''"
  "valid_uci_name ''firewall''" "valid_uci_name ''redirect''" "valid_uci_name ''name''" "valid_uci_name ''target''"
  "valid_uci_name ''src''" "valid_uci_name ''src_dport''" "valid_uci_name ''dest_ip''" "valid_uci_name ''dest_port''"
  "valid_uci_name ''dest''" "valid_uci_name ''enabled''" "valid_uci_name ''mac''" "valid_uci_name ''ip''"
  "valid_uci_name ''host''"
  by code_simp+

lemma edge_sections [simp]:
  "valid_uci_section ''@dnsmasq[0]''" "valid_uci_section ''@redirect[-1]''" "valid_uci_section ''@host[-1]''"
  by code_simp+

lemma name_is_section [simp]: "valid_uci_name v \<Longrightarrow> valid_uci_section v"
  by (simp add: valid_uci_section_def)

text \<open>When the grammar accepts a command of each action.\<close>

lemma set_accepted:
  "valid_uci_name c \<Longrightarrow> valid_uci_section s \<Longrightarrow> opt = [] \<or> valid_uci_name opt \<Longrightarrow>
   check_op_command c (mk_uci ''set'' c s opt v) = None"
  by (auto simp: check_op_command_def translateCommand_def SetOption_def)

lemma add_list_accepted:
  "valid_uci_name c \<Longrightarrow> valid_uci_section s \<Longrightarrow> valid_uci_name opt \<Longrightarrow>
   check_op_command c (mk_uci ''add_list'' c s opt v) = None"
  by (simp add: check_op_command_def translateCommand_def AddList_def)

lemma delete_accepted:
  "valid_uci_name c \<Longrightarrow> valid_uci_section s \<Longrightarrow> opt = [] \<or> valid_uci_name opt \<Longrightarrow>
   check_op_command c (mk_uci ''delete'' c s opt v) = None"
  by (auto simp: check_op_command_def translateCommand_def Delete_def DeleteOption_def)

lemma add_accepted:
  "valid_uci_name c \<Longrightarrow> check_op_command c (mk_uci ''add'' c s opt v) = None \<longleftrightarrow> valid_uci_name v"
  by (simp add: check_op_command_def translateCommand_def AddAnonymousSection_def)

lemma lease_accepted:
  "ensureDHCPHost (lease_command l) \<noteq> [] \<Longrightarrow> check_op_command ''dhcp'' (lease_command l) = None"
  by (simp add: check_op_command_def translateCommand_def lease_command_def)

lemma wipe_accepted: "check_op_command ''firewall'' (mk_uci ''delete_all'' ''firewall'' ''redirect'' [] []) = None"
  by (simp add: check_op_command_def translateCommand_def)

lemmas accepted = set_accepted add_list_accepted delete_accepted add_accepted lease_accepted wipe_accepted

lemma interface_commands_accepted:
  "list_all (\<lambda>c. check_op_command ''network'' c = None) (interface_commands x)"
  by (simp add: interface_commands_def Let_def set_accepted)

lemma forward_commands_accepted:
  "list_all (\<lambda>c. check_op_command ''firewall'' c = None) (forward_commands r)"
  by (simp add: forward_commands_def Let_def set_accepted add_accepted)

lemma dhcp_commands_accepted:
  assumes "check_dhcp i d = None"
  shows "list_all (\<lambda>c. check_op_command ''dhcp'' c = None) (dhcp_commands d)"
proof -
  have "ensureDHCPHost (lease_command l) \<noteq> []" if "l \<in> set (di_static_leases d)" for l
    using assms first_error_None_set [OF _ that, of "\<lambda>j l. if ensureDHCPHost (lease_command l) = [] then Some (EdgeDhcpLease i j) else None" 0]
    by (auto simp: check_dhcp_def split: if_splits)
  then show ?thesis
    by (auto simp: dhcp_commands_def Let_def list_all_iff set_accepted add_list_accepted delete_accepted lease_accepted)
qed

lemma interface_commands_nonempty: "check_interface i x = None \<Longrightarrow> interface_commands x \<noteq> []"
  by (simp add: check_interface_def interface_commands_def Let_def split: if_splits)

lemma dhcp_commands_nonempty: "check_dhcp i d = None \<Longrightarrow> dhcp_commands d \<noteq> []"
  by (simp add: check_dhcp_def dhcp_commands_def Let_def split: if_splits)

lemma concat_all: "(\<And>x. x \<in> set xs \<Longrightarrow> list_all P (f x)) \<Longrightarrow> list_all P (concat (map f xs))"
  by (auto simp: list_all_iff)

text \<open>
  A validated edge configuration always passes the command grammar: interfaces and DHCP
  sections with their leases that the validators let through, and port forwards whatever text they
  hold, give commands that \<open>ValidateDeviceOperation\<close> accepts, network changes with at least one
  health target.
\<close>

theorem edge_commands_accepted:
  assumes net: "ValidateNetworkInterfaces ifaces = None" "ifaces \<noteq> []" "slice_elems hc \<noteq> []"
    and dhcp: "ValidateDHCPInterfaces ds = None" "ds \<noteq> []"
    and hc: "ValidateHealthTargets (slice_elems hc) \<noteq> None"
  shows "ValidateDeviceOperation ''network'' (BuildNetworkCommands ifaces) hc = Inr ()
       \<and> ValidateDeviceOperation ''dhcp'' (BuildDHCPCommands ds) hc = Inr ()
       \<and> ValidateDeviceOperation ''firewall'' (BuildFirewallCommands rules) hc = Inr ()"
proof -
  have configs: "''network'' \<in> set deviceOperationConfigs" "''dhcp'' \<in> set deviceOperationConfigs"
    "''firewall'' \<in> set deviceOperationConfigs" by (simp_all add: deviceOperationConfigs_def)
  have targets: "list_all valid_health_target (slice_elems hc)"
    using hc by (simp add: ValidateHealthTargets_None)
  have d: "\<exists>i. check_dhcp i d = None" if "d \<in> set ds" for d
    using first_error_None_set [OF _ that] dhcp(1) by (auto simp: ValidateDHCPInterfaces_def)
  have n: "\<exists>i. check_interface i x = None" if "x \<in> set ifaces" for x
    using first_error_None_set [OF _ that] net(1) by (auto simp: ValidateNetworkInterfaces_def)
  have "BuildNetworkCommands ifaces \<noteq> []"
    using net(2) n [of "hd ifaces"] interface_commands_nonempty
    by (auto simp: BuildNetworkCommands_def dest!: hd_in_set)
  moreover have "BuildDHCPCommands ds \<noteq> []"
    using dhcp(2) d [of "hd ds"] dhcp_commands_nonempty
    by (auto simp: BuildDHCPCommands_def dest!: hd_in_set)
  moreover have "list_all (\<lambda>c. check_op_command ''network'' c = None) (BuildNetworkCommands ifaces)"
    unfolding BuildNetworkCommands_def by (rule concat_all) (rule interface_commands_accepted)
  moreover have "list_all (\<lambda>c. check_op_command ''dhcp'' c = None) (BuildDHCPCommands ds)"
    unfolding BuildDHCPCommands_def by (rule concat_all) (use d dhcp_commands_accepted in blast)
  moreover have "list_all (\<lambda>c. check_op_command ''firewall'' c = None) (BuildFirewallCommands rules)"
    unfolding BuildFirewallCommands_def
    by (simp add: wipe_accepted concat_all forward_commands_accepted)
  ultimately show ?thesis
    using targets net(3) configs by (simp add: ValidateDeviceOperation_ok BuildFirewallCommands_def)
qed

abbreviation sample_interface :: network_interface where
  "sample_interface \<equiv> \<lparr>ni_name = ''lan'', ni_vlan = 0, ni_proto = ''static'', ni_ipaddr = ''10.0.0.1'',
     ni_netmask = ''255.0.0.0'', ni_gateway = [], ni_device = ''br-lan'', ni_enabled = True\<rparr>"

abbreviation sample_dhcp :: dhcp_interface where
  "sample_dhcp \<equiv> \<lparr>di_interface = ''lan'', di_enabled = True, di_start = 100, di_limit = 150,
     di_lease_time = ''12h'', di_upstream_dns = [''10.0.0.53''],
     di_static_leases = [\<lparr>sl_name = ''printer'', sl_mac = ''aa:bb:cc:dd:ee:ff'', sl_ip = ''10.0.0.9''\<rparr>]\<rparr>"

abbreviation sample_forward :: port_forward_rule where
  "sample_forward \<equiv> \<lparr>pf_name = ''web'', pf_proto = ''tcp'', pf_src_port = 8080, pf_dest_ip = ''10.0.0.9'',
     pf_dest_port = 80, pf_enabled = True\<rparr>"

lemma sample_edge_valid:
  "ValidateNetworkInterfaces [sample_interface] = None"
  "ValidateDHCPInterfaces [sample_dhcp] = None"
  "ValidatePortForwardRules [sample_forward] = None"
  "ValidateHealthTargets (slice_elems (Some [''10.0.0.53''])) \<noteq> None"
  by code_simp+

theorem edge_commands_accepted_witness:
  "ValidateDeviceOperation ''network'' (BuildNetworkCommands [sample_interface]) (Some [''10.0.0.53'']) = Inr ()
   \<and> ValidateDeviceOperation ''dhcp'' (BuildDHCPCommands [sample_dhcp]) (Some [''10.0.0.53'']) = Inr ()
   \<and> ValidateDeviceOperation ''firewall'' (BuildFirewallCommands [sample_forward]) (Some [''10.0.0.53'']) = Inr ()"
  by (rule edge_commands_accepted [OF sample_edge_valid(1) _ _ sample_edge_valid(2) _ sample_edge_valid(4)])
    simp_all

section \<open>The two serialisers\<close>

text \<open>Lines that the shell reads as the argument vectors of typed commands, one each.\<close>

definition lines_mean :: "string list \<Rightarrow> uci_command list \<Rightarrow> bool" where
  "lines_mean ls cs \<longleftrightarrow> map sh_words ls = map (\<lambda>c. Some (uci_argv c)) cs"

lemma lines_mean_simps [simp]:
  "lines_mean [] []"
  "lines_mean (l # ls) (c # cs) \<longleftrightarrow> sh_words l = Some (uci_argv c) \<and> lines_mean ls cs"
  by (auto simp: lines_mean_def)

lemma lines_mean_append: "lines_mean ls cs \<Longrightarrow> lines_mean ks ds \<Longrightarrow> lines_mean (ls @ ks) (cs @ ds)"
  by (simp add: lines_mean_def)

lemma lines_mean_concat:
  "(\<And>x. x \<in> set xs \<Longrightarrow> lines_mean (f x) (g x)) \<Longrightarrow> lines_mean (concat (map f xs)) (concat (map g xs))"
  by (induction xs) (auto intro: lines_mean_append)

lemma int_str_escape [simp]: "escapeVal (int_str n) = int_str n"
proof (rule escapeVal_id)
  have "CHR 0x27 \<notin> set (nat_str m)" for m
    using nat_str_digits [of m] by (auto simp: list_all_iff is_digit_def less_eq_char_def)
  then show "CHR 0x27 \<notin> set (int_str n)" by (simp add: int_str_def)
qed

lemma set_text_words:
  assumes "valid_uci_name c" "valid_uci_section s" "valid_uci_name opt"
  shows "sh_words (set_text (opt_path c s opt) v) = Some (uci_argv (mk_uci ''set'' c s opt v))"
  using assign_line_words [of "mk_uci ''set'' c s opt v" "''set''" v] assms
  by (auto simp: set_text_def set_plain_def opt_path_def uci_path_def uci_argv_def valid_uci_name_def)

lemma set_plain_words:
  assumes "valid_uci_name c" "valid_uci_section s" "valid_uci_name opt" "escapeVal v = v"
  shows "sh_words (set_plain (opt_path c s opt) v) = Some (uci_argv (mk_uci ''set'' c s opt v))"
  using set_text_words [OF assms(1-3), of v] by (simp add: set_text_def assms(4))

lemma plain_constants [simp]:
  "escapeVal ''0'' = ''0''" "escapeVal ''1'' = ''1''" "escapeVal ''DNAT'' = ''DNAT''" "escapeVal ''wan'' = ''wan''"
  by code_simp+

lemma add_list_words:
  assumes "valid_uci_name c" "valid_uci_section s" "valid_uci_name opt"
  shows "sh_words (''uci add_list '' @ opt_path c s opt @ ''='' @ sq @ escapeVal v @ sq)
       = Some (uci_argv (mk_uci ''add_list'' c s opt v))"
  using assign_line_words [of "mk_uci ''add_list'' c s opt v" "''add_list''" v] assms
  by (auto simp: opt_path_def uci_path_def uci_argv_def valid_uci_name_def)

lemma set_type_words:
  assumes "valid_uci_name c" "valid_uci_name s" "valid_uci_name t"
  shows "sh_words (''uci set '' @ c @ ''.'' @ s @ ''='' @ t) = Some (uci_argv (mk_uci ''set'' c s [] t))"
proof -
  have push: "x \<noteq> [] \<Longrightarrow> sh_push None x = Some x" for x by (simp add: sh_push_def)
  let ?p = "c @ ''.'' @ s @ ''='' @ t"
  have "list_all sh_plain ?p" "?p \<noteq> []" using assms name_plain by auto
  then have "sh_read False None ?p = Some [?p]"
    using sh_read_plain [of ?p None "[]"] by (simp add: push sh_flush_def)
  then show ?thesis
    using sh_read_plain [of "''uci''" None "'' set '' @ ?p"] sh_read_plain [of "''set''" None "'' '' @ ?p"]
    by (simp add: sh_words_def push sh_flush_def uci_argv_def uci_path_def)
qed

lemmas line_words = set_text_words set_plain_words set_type_words

lemma interface_lines_mean: "lines_mean (interface_lines x) (interface_commands x)"
  using set_type_words [of "''network''" "ni_name x" "''interface''"]
  by (simp add: interface_lines_def interface_commands_def Let_def line_words)

lemma forward_lines_mean:
  "lines_mean (forward_lines r) (filter (\<lambda>c. uc_option c \<noteq> ''dest'') (forward_commands r))"
  using add_line_words [of "''firewall''" "''redirect''"]
  by (simp add: forward_lines_def forward_commands_def Let_def line_words uci_argv_def [of "mk_uci ''add'' _ _ _ _"])

lemma dns_lines_mean:
  "lines_mean (map (\<lambda>dns. ''uci add_list '' @ opt_path ''dhcp'' ''@dnsmasq[0]'' ''server'' @ ''='' @ sq @ escapeVal dns @ sq) ds)
     (map (mk_uci ''add_list'' ''dhcp'' ''@dnsmasq[0]'' ''server'') ds)"
  by (induction ds) (simp_all only: list.map lines_mean_simps add_list_words edge_names edge_sections)

lemma dns_delete_words:
  "sh_words ''uci -q delete dhcp.@dnsmasq[0].server''
     = Some (uci_argv (mk_uci ''delete'' ''dhcp'' ''@dnsmasq[0]'' ''server'' []))"
  by code_simp

lemma dhcp_lines_mean:
  "lines_mean (dhcp_lines (d\<lparr>di_static_leases := []\<rparr>)) (dhcp_commands (d\<lparr>di_static_leases := []\<rparr>))"
  using set_type_words [of "''dhcp''" "di_interface d" "''dhcp''"] dns_lines_mean [of "di_upstream_dns d"] dns_delete_words
  by (simp add: dhcp_lines_def dhcp_commands_def Let_def line_words)

text \<open>
  The reload script does what the typed commands say, with one exception: between backup and
  validation the shell reads exactly one line per typed command, the interfaces first, then the DHCP
  sections (without static leases), then the wipe of the redirects and the port forwards, each group
  followed by its commit. The exception is \<open>dest='lan'\<close>, which no line of a port forward sets.
\<close>

theorem reload_script_agrees:
  "\<exists>ns ds fs. BuildValidatedReloadScript (BuildNetworkUCI ifaces)
        (BuildDHCPUCI (map (di_static_leases_update (\<lambda>_. [])) dhcp)) (BuildFirewallUCI rules)
      = reload_head @ unlines (ns @ [''uci commit network'', []] @ ds @ [''uci commit dhcp'', []]
          @ redirect_wipe # fs @ [''uci commit firewall'']) @ reload_tail
    \<and> lines_mean ns (BuildNetworkCommands ifaces)
    \<and> lines_mean ds (BuildDHCPCommands (map (di_static_leases_update (\<lambda>_. [])) dhcp))
    \<and> redirect_wipe = translateCommand (hd (BuildFirewallCommands rules))
    \<and> lines_mean fs (filter (\<lambda>c. uc_option c \<noteq> ''dest'') (tl (BuildFirewallCommands rules)))"
proof (intro exI conjI)
  let ?ds = "map (di_static_leases_update (\<lambda>_. [])) dhcp"
  show "BuildValidatedReloadScript (BuildNetworkUCI ifaces) (BuildDHCPUCI ?ds) (BuildFirewallUCI rules)
    = reload_head @ unlines (concat (map interface_lines ifaces) @ [''uci commit network'', []]
        @ concat (map dhcp_lines ?ds) @ [''uci commit dhcp'', []]
        @ redirect_wipe # concat (map forward_lines rules) @ [''uci commit firewall'']) @ reload_tail"
    by (simp add: BuildValidatedReloadScript_def BuildNetworkUCI_def BuildDHCPUCI_def BuildFirewallUCI_def unlines_def)
  show "lines_mean (concat (map interface_lines ifaces)) (BuildNetworkCommands ifaces)"
    unfolding BuildNetworkCommands_def by (rule lines_mean_concat) (rule interface_lines_mean)
  show "lines_mean (concat (map dhcp_lines ?ds)) (BuildDHCPCommands ?ds)"
    unfolding BuildDHCPCommands_def by (rule lines_mean_concat) (auto intro: dhcp_lines_mean)
  show "redirect_wipe = translateCommand (hd (BuildFirewallCommands rules))"
    by (simp add: redirect_wipe_def BuildFirewallCommands_def translateCommand_def)
  show "lines_mean (concat (map forward_lines rules)) (filter (\<lambda>c. uc_option c \<noteq> ''dest'') (tl (BuildFirewallCommands rules)))"
    by (simp add: BuildFirewallCommands_def filter_concat comp_def lines_mean_concat forward_lines_mean)
qed

end
