(* ===== verification/Edge_Api.thy ===== *)
theory Edge_Api
  imports Edge_Nexus Device_Queue
begin

text \<open>
  The handlers that change the edge configuration of one device, \<open>src/internal/api/handlers/edge_api.go\<close>:
  \<open>PutEdgeNetworkHandler\<close>, \<open>PutEdgeDHCPHandler\<close> and \<open>PutEdgeFirewallHandler\<close>. Each decodes the body,
  validates it, builds the typed commands, answers with a preview unless the request confirms, and
  otherwise backs the device up, queues the operation and commits.

  What the handlers get from outside is an environment: the draw of \<open>crypto/rand\<close>, whether the backup
  over SSH and the COMMIT succeed, the clock, and the text of an error. \<open>InsertAuditLog\<close> writes
  through the default connection, not through the tenant's transaction, so its log is a part of the
  state of its own.
\<close>

section \<open>Requests\<close>

record edge_request =
  er_device :: string
  er_username :: string
  er_remote :: string
  er_schema :: string
  er_body :: raw_message

record edge_env =
  ev_random :: "string option"
  ev_now :: int
  ev_backup :: bool
  ev_commit :: bool
  ev_error_text :: "db_error \<Rightarrow> string"

record edge_state =
  es_tenant :: tenant_db
  es_audit :: "audit_row list"

datatype edge_response =
    BadBody
  | BadConfig edge_error
  | NoCommands
  | Preview "string list" "string list option"
  | BadPlan op_error
  | BadTenant db_error
  | BackupFailed
  | NotQueued db_error
  | CommitFailed
  | Queued device_operation_plan

section \<open>Decoding\<close>

definition dec_interface :: "json \<Rightarrow> network_interface option" where
  "dec_interface j =
     (case go_obj j of
        None \<Rightarrow> None
      | Some kvs \<Rightarrow>
          (case (go_str ''name'' kvs, go_int ''vlan_id'' kvs, go_str ''proto'' kvs, go_str ''ip_addr'' kvs,
                 go_str ''netmask'' kvs, go_str ''gateway'' kvs, go_str ''device'' kvs, go_bool ''enabled'' kvs) of
             (Some n, Some v, Some p, Some a, Some m, Some g, Some d, Some e) \<Rightarrow>
               Some \<lparr>ni_name = n, ni_vlan = v, ni_proto = p, ni_ipaddr = a, ni_netmask = m, ni_gateway = g,
                     ni_device = d, ni_enabled = e\<rparr>
           | _ \<Rightarrow> None))"

definition dec_lease :: "json \<Rightarrow> static_lease option" where
  "dec_lease j =
     (case go_obj j of
        None \<Rightarrow> None
      | Some kvs \<Rightarrow>
          (case (go_str ''name'' kvs, go_str ''mac'' kvs, go_str ''ip'' kvs) of
             (Some n, Some m, Some i) \<Rightarrow> Some \<lparr>sl_name = n, sl_mac = m, sl_ip = i\<rparr>
           | _ \<Rightarrow> None))"

definition dec_dhcp :: "json \<Rightarrow> dhcp_interface option" where
  "dec_dhcp j =
     (case go_obj j of
        None \<Rightarrow> None
      | Some kvs \<Rightarrow>
          (case (go_str ''interface'' kvs, go_bool ''enabled'' kvs, go_int ''start'' kvs, go_int ''limit'' kvs,
                 go_str ''lease_time'' kvs, go_slice elem_str ''upstream_dns'' kvs,
                 go_slice dec_lease ''static_leases'' kvs) of
             (Some i, Some e, Some st, Some l, Some t, Some dns, Some leases) \<Rightarrow>
               Some \<lparr>di_interface = i, di_enabled = e, di_start = st, di_limit = l, di_lease_time = t,
                     di_upstream_dns = slice_elems dns, di_static_leases = slice_elems leases\<rparr>
           | _ \<Rightarrow> None))"

definition dec_forward :: "json \<Rightarrow> port_forward_rule option" where
  "dec_forward j =
     (case go_obj j of
        None \<Rightarrow> None
      | Some kvs \<Rightarrow>
          (case (go_str ''name'' kvs, go_str ''proto'' kvs, go_int ''src_port'' kvs, go_str ''dest_ip'' kvs,
                 go_int ''dest_port'' kvs, go_bool ''enabled'' kvs) of
             (Some n, Some p, Some s, Some i, Some d, Some e) \<Rightarrow>
               Some \<lparr>pf_name = n, pf_proto = p, pf_src_port = s, pf_dest_ip = i, pf_dest_port = d, pf_enabled = e\<rparr>
           | _ \<Rightarrow> None))"

text \<open>\<open>readBody\<close> into the payload of a handler: the entries, \<open>confirm\<close> and \<open>health_checks\<close>.\<close>

definition read_body ::
  "(json \<Rightarrow> 'a option) \<Rightarrow> string \<Rightarrow> raw_message \<Rightarrow> ('a list \<times> bool \<times> string list option) option" where
  "read_body dec field body =
     (case Option.bind body go_obj of
        None \<Rightarrow> None
      | Some kvs \<Rightarrow>
          (case (go_slice dec field kvs, go_bool ''confirm'' kvs, go_slice elem_str ''health_checks'' kvs) of
             (Some xs, Some c, Some hc) \<Rightarrow> Some (slice_elems xs, c, hc)
           | _ \<Rightarrow> None))"

section \<open>Queueing a confirmed change\<close>

definition operation_plan_json :: "device_operation_plan \<Rightarrow> json" where
  "operation_plan_json p =
     JObj ([(''operation_id'', JStr (op_id p)), (''plan_hash'', JStr (op_plan_hash p))]
       @ (if op_generation p = 0 then [] else [(''generation'', JNum (op_generation p))])
       @ [(''config'', JStr (op_config p)), (''commands'', slice_json command_json (append_nil (op_commands p)))]
       @ (if slice_elems (op_health_checks p) = [] then []
          else [(''health_checks'', slice_json JStr (op_health_checks p))])
       @ [(''auto_confirm'', JBool (op_auto_confirm p))])"

definition InsertAuditLog ::
  "string \<Rightarrow> string \<Rightarrow> string \<Rightarrow> string \<Rightarrow> string \<Rightarrow> string \<Rightarrow> edge_state \<Rightarrow> edge_state" where
  "InsertAuditLog username action resourceType resourceID payload ip s =
     s\<lparr>es_audit := es_audit s @
        [\<lparr>au_username = username, au_action = action, au_resource_type = resourceType,
          au_resource_id = resourceID, au_payload = payload, au_ip = ip\<rparr>]\<rparr>"

definition getTenantSchema :: "string \<Rightarrow> db_error + string" where
  "getTenantSchema schema = SafeSchemaIdent (if schema = [] then ''public'' else schema)"

text \<open>
  The part every handler runs once the request confirms: \<open>config\<close> is the namespace, \<open>label\<close> the
  beginning of the audit actions and \<open>msg\<close> the payload of the last audit entry.
\<close>

definition queue_edge ::
  "string \<Rightarrow> string \<Rightarrow> string \<Rightarrow> uci_command list \<Rightarrow> string list option \<Rightarrow> edge_env \<Rightarrow> edge_request
    \<Rightarrow> edge_state \<Rightarrow> edge_response \<times> edge_state" where
  "queue_edge config label msg cmds hc env req s =
     (let audit = (\<lambda>suffix payload. InsertAuditLog (er_username req) (label @ suffix) ''DEVICE''
                      (er_device req) payload (er_remote req))
      in case NewDeviceOperationPlan (ev_random env) config cmds hc True of
           Inl e \<Rightarrow> (BadPlan e, s)
         | Inr plan \<Rightarrow>
             (case getTenantSchema (er_schema req) of
                Inl e \<Rightarrow> (BadTenant e, s)
              | Inr schema \<Rightarrow>
                  if \<not> ev_backup env then (BackupFailed, s)
                  else
                    (case QueueDeviceOperation schema (ev_now env) (er_device req)
                            (Some (operation_plan_json plan)) (es_tenant s) of
                       (Inl e, _) \<Rightarrow> (NotQueued e, audit ''_QUEUE_FAILED'' (ev_error_text env e) s)
                     | (Inr g, db) \<Rightarrow>
                         if \<not> ev_commit env
                         then (CommitFailed, audit ''_QUEUE_COMMIT_FAILED'' (ev_error_text env DbFailure) s)
                         else (Queued (plan\<lparr>op_generation := g\<rparr>),
                               audit ''_QUEUED'' msg (s\<lparr>es_tenant := db\<rparr>)))))"

section \<open>The handlers\<close>

definition PutEdgeNetworkHandler :: "edge_env \<Rightarrow> edge_request \<Rightarrow> edge_state \<Rightarrow> edge_response \<times> edge_state" where
  "PutEdgeNetworkHandler env req s =
     (case read_body dec_interface ''interfaces'' (er_body req) of
        None \<Rightarrow> (BadBody, s)
      | Some (ifaces, confirm, hc) \<Rightarrow>
          (case ValidateNetworkInterfaces ifaces of
             Some e \<Rightarrow> (BadConfig e, s)
           | None \<Rightarrow>
               (let cmds = BuildNetworkCommands ifaces in
                if cmds = [] then (NoCommands, s)
                else if \<not> confirm then (Preview (PreviewCommands cmds) hc, s)
                else queue_edge ''network'' ''EDGE_NEXUS_NETWORK''
                       (''Pushed '' @ nat_str (length ifaces) @ '' interface(s)'') cmds hc env req s)))"

definition PutEdgeDHCPHandler :: "edge_env \<Rightarrow> edge_request \<Rightarrow> edge_state \<Rightarrow> edge_response \<times> edge_state" where
  "PutEdgeDHCPHandler env req s =
     (case read_body dec_dhcp ''dhcp'' (er_body req) of
        None \<Rightarrow> (BadBody, s)
      | Some (ds, confirm, hc) \<Rightarrow>
          (case ValidateDHCPInterfaces ds of
             Some e \<Rightarrow> (BadConfig e, s)
           | None \<Rightarrow>
               (let cmds = BuildDHCPCommands ds in
                if cmds = [] then (NoCommands, s)
                else if \<not> confirm then (Preview (PreviewCommands cmds) hc, s)
                else queue_edge ''dhcp'' ''EDGE_NEXUS_DHCP''
                       (''Pushed DHCP config for '' @ nat_str (length ds) @ '' interface(s)'') cmds hc env req s)))"

definition PutEdgeFirewallHandler :: "edge_env \<Rightarrow> edge_request \<Rightarrow> edge_state \<Rightarrow> edge_response \<times> edge_state" where
  "PutEdgeFirewallHandler env req s =
     (case read_body dec_forward ''port_forwarding'' (er_body req) of
        None \<Rightarrow> (BadBody, s)
      | Some (rules, confirm, hc) \<Rightarrow>
          (case ValidatePortForwardRules rules of
             Some e \<Rightarrow> (BadConfig e, s)
           | None \<Rightarrow>
               (let cmds = BuildFirewallCommands rules in
                if \<not> confirm then (Preview (PreviewCommands cmds) hc, s)
                else queue_edge ''firewall'' ''EDGE_NEXUS_FIREWALL''
                       (''Pushed '' @ nat_str (length rules) @ '' port-forward rule(s)'') cmds hc env req s)))"

section \<open>What a handler queues\<close>

text \<open>The queue reads back the identity that the plan was built with.\<close>

definition plan_keys :: "string list" where
  "plan_keys = [''operation_id'', ''id'', ''plan_hash'', ''generation'', ''config'', ''commands'',
     ''health_checks'', ''auto_confirm'']"

lemma plan_keys_mem [simp]:
  "''operation_id'' \<in> set plan_keys" "''id'' \<in> set plan_keys" "''plan_hash'' \<in> set plan_keys"
  "''generation'' \<in> set plan_keys" "''config'' \<in> set plan_keys" "''commands'' \<in> set plan_keys"
  "''health_checks'' \<in> set plan_keys" "''auto_confirm'' \<in> set plan_keys"
  by (simp_all add: plan_keys_def)

lemma go_entries_plan:
  assumes "k \<in> set plan_keys" "name \<in> set plan_keys"
  shows "go_entries name ((k, v) # kvs) = (if k = name then v # go_entries name kvs else go_entries name kvs)"
proof -
  have "distinct (map go_fold plan_keys)" by code_simp
  then have "inj_on go_fold (set plan_keys)" by (simp add: distinct_map)
  with assms show ?thesis by (auto simp: go_entries_Cons inj_on_def)
qed

lemma operation_plan_envelope:
  "op_generation p = 0 \<Longrightarrow>
   op_envelope (operation_plan_json p) = Some (op_id p, [], op_plan_hash p, None)"
  by (simp add: op_envelope_def operation_plan_json_def go_obj_def go_str_def go_i64_def go_entries_plan)

lemma operation_plan_identity:
  assumes "ValidateDeviceOperationPlan p = Inr ()" "op_generation p = 0"
  shows "parseOperationIdentity (Some (operation_plan_json p)) False
       = Inr \<lparr>oi_id = op_id p, oi_plan_hash = op_plan_hash p, oi_generation = 0\<rparr>"
proof -
  have "op_id p \<noteq> []" "validDeviceOperationID (op_id p)" "validDeviceOperationPlanHash (op_plan_hash p)"
    using assms(1) by (auto simp: ValidateDeviceOperationPlan_def validDeviceOperationID_def split: if_splits)
  then show ?thesis by (simp add: parseOperationIdentity_def operation_plan_envelope assms(2))
qed

lemma new_plan_valid:
  assumes "NewDeviceOperationPlan (Some b) config cmds hc True = Inr plan" "length b = 16"
  shows "ValidateDeviceOperationPlan plan = Inr ()" "op_generation plan = 0" "op_config plan = config"
    "op_commands plan = cmds" "ValidateDeviceOperation config cmds hc = Inr ()"
proof -
  have "validDeviceOperationID (''op-'' @ hex_encode b)"
    by (rule hex_id_valid [OF op_prefix_chars(1)]) (simp_all add: assms(2))
  with assms(1) show "ValidateDeviceOperationPlan plan = Inr ()" "op_generation plan = 0" "op_config plan = config"
    "op_commands plan = cmds" "ValidateDeviceOperation config cmds hc = Inr ()"
    by (auto simp: NewDeviceOperationPlan_def NewDeviceOperationPlanForGeneration_def newDeviceOperationID_def
        andthen_Inr_iff ValidateDeviceOperationPlan_def ValidateDeviceOperation_ok)
qed

text \<open>A fresh plan that got into the device row.\<close>

definition edge_queued :: "string \<Rightarrow> uci_command list \<Rightarrow> edge_request \<Rightarrow> edge_state \<Rightarrow> edge_response \<Rightarrow> edge_state \<Rightarrow> bool" where
  "edge_queued config cmds req s r s' \<longleftrightarrow>
     (\<exists>plan d d'. r = Queued plan
        \<and> ValidateDeviceOperationPlan (plan\<lparr>op_generation := 0\<rparr>) = Inr ()
        \<and> op_config plan = config \<and> op_commands plan = cmds
        \<and> devices (es_tenant s) (er_device req) = Some d \<and> dv_pending_op d = None \<and> dv_pending_cs d = None
        \<and> devices (es_tenant s') = (devices (es_tenant s))(er_device req \<mapsto> d')
        \<and> dv_pending_op d' = Some (jset ''generation'' (JNum (op_generation plan))
                                    (operation_plan_json (plan\<lparr>op_generation := 0\<rparr>)))
        \<and> op_generation plan = dv_desired d + 1 \<and> dv_desired d' = dv_desired d + 1)"

lemma queue_edge_changes:
  "es_tenant (snd (queue_edge config label msg cmds hc env req s)) = es_tenant s \<or>
   (\<exists>plan schema g db. NewDeviceOperationPlan (ev_random env) config cmds hc True = Inr plan
      \<and> ev_backup env \<and> ev_commit env
      \<and> QueueDeviceOperation schema (ev_now env) (er_device req) (Some (operation_plan_json plan)) (es_tenant s)
          = (Inr g, db)
      \<and> queue_edge config label msg cmds hc env req s
          = (Queued (plan\<lparr>op_generation := g\<rparr>),
             InsertAuditLog (er_username req) (label @ ''_QUEUED'') ''DEVICE''
                (er_device req) msg (er_remote req) (s\<lparr>es_tenant := db\<rparr>)))"
  (is "?same \<or> ?changed")
proof (cases "NewDeviceOperationPlan (ev_random env) config cmds hc True")
  case plan: (Inr plan)
  show ?thesis
  proof (cases "getTenantSchema (er_schema req)")
    case schema: (Inr schema)
    obtain res db where q: "QueueDeviceOperation schema (ev_now env) (er_device req)
        (Some (operation_plan_json plan)) (es_tenant s) = (res, db)" by force
    show ?thesis
    proof (cases "ev_backup env \<and> ev_commit env")
      case up: True
      show ?thesis
        by (cases res) (use q plan schema up in \<open>auto simp: queue_edge_def InsertAuditLog_def\<close>)
    next
      case False
      then have ?same
        by (cases res; cases "ev_backup env") (simp_all add: queue_edge_def plan schema q InsertAuditLog_def)
      then show ?thesis ..
    qed
  qed (simp add: queue_edge_def plan)
qed (simp add: queue_edge_def)

lemma queue_edge_outcome:
  assumes b: "ev_random env = Some b" "length b = 16"
    and run: "queue_edge config label msg cmds hc env req s = (r, s')"
  shows "es_tenant s' = es_tenant s \<or>
     edge_queued config cmds req s r s' \<and> ev_backup env \<and> ev_commit env
     \<and> (\<exists>a. es_audit s' = es_audit s @ [a] \<and> au_username a = er_username req
            \<and> au_action a = label @ ''_QUEUED'' \<and> au_resource_id a = er_device req)"
proof (cases "es_tenant s' = es_tenant s")
  case False
  then obtain plan schema g db where
      plan: "NewDeviceOperationPlan (Some b) config cmds hc True = Inr plan"
      and up: "ev_backup env" "ev_commit env"
      and q: "QueueDeviceOperation schema (ev_now env) (er_device req) (Some (operation_plan_json plan)) (es_tenant s)
         = (Inr g, db)"
      and r: "r = Queued (plan\<lparr>op_generation := g\<rparr>)"
        "s' = InsertAuditLog (er_username req) (label @ ''_QUEUED'') ''DEVICE''
                (er_device req) msg (er_remote req) (s\<lparr>es_tenant := db\<rparr>)"
    using queue_edge_changes [of config label msg cmds hc env req s] b(1) unfolding run by auto
  note valid = new_plan_valid [OF plan b(2)]
  from False r(2) q have "snd (QueueDeviceOperation schema (ev_now env) (er_device req)
      (Some (operation_plan_json plan)) (es_tenant s)) \<noteq> es_tenant s"
    by (simp add: InsertAuditLog_def)
  then obtain ident d where ident: "ident = \<lparr>oi_id = op_id plan, oi_plan_hash = op_plan_hash plan, oi_generation = 0\<rparr>"
      and d: "devices (es_tenant s) (er_device req) = Some d"
      and guard: "queue_op_guard (es_tenant s) (ev_now env) (operation_plan_json plan) ident d"
      and gdb: "g = dv_desired d + 1"
        "db = update_device (er_device req) (queue_op_row (ev_now env) (operation_plan_json plan) ident) (es_tenant s)"
    using QueueDeviceOperation_outcome [of schema "ev_now env" "er_device req" "Some (operation_plan_json plan)" "es_tenant s"]
      q operation_plan_identity [OF valid(1,2)]
    by (auto simp: queue_op_row_def)
  have same: "plan\<lparr>op_generation := 0\<rparr> = plan" using valid(2) by simp
  have "dv_pending_op d = None" "dv_pending_cs d = None"
    using guard by (simp_all add: queue_op_guard_def)
  then have "edge_queued config cmds req s r s'"
    unfolding edge_queued_def
    by (intro exI [of _ "plan\<lparr>op_generation := g\<rparr>"] exI [of _ d]
        exI [of _ "queue_op_row (ev_now env) (operation_plan_json plan) ident d"])
      (use valid d r gdb ident in \<open>simp add: same InsertAuditLog_def update_device_def queue_op_row_def fun_upd_def\<close>)
  with up r(2) show ?thesis by (simp add: InsertAuditLog_def)
qed simp

section \<open>The three handlers together\<close>

datatype edge_kind = EdgeNetwork | EdgeDhcp | EdgeFirewall

fun edge_put :: "edge_kind \<Rightarrow> edge_env \<Rightarrow> edge_request \<Rightarrow> edge_state \<Rightarrow> edge_response \<times> edge_state" where
  "edge_put EdgeNetwork = PutEdgeNetworkHandler"
| "edge_put EdgeDhcp = PutEdgeDHCPHandler"
| "edge_put EdgeFirewall = PutEdgeFirewallHandler"

fun edge_config :: "edge_kind \<Rightarrow> string" where
  "edge_config EdgeNetwork = ''network''"
| "edge_config EdgeDhcp = ''dhcp''"
| "edge_config EdgeFirewall = ''firewall''"

fun edge_label :: "edge_kind \<Rightarrow> string" where
  "edge_label EdgeNetwork = ''EDGE_NEXUS_NETWORK''"
| "edge_label EdgeDhcp = ''EDGE_NEXUS_DHCP''"
| "edge_label EdgeFirewall = ''EDGE_NEXUS_FIREWALL''"

text \<open>The commands a confirmed and valid body asks for.\<close>

definition edge_asks :: "edge_kind \<Rightarrow> raw_message \<Rightarrow> uci_command list \<Rightarrow> bool" where
  "edge_asks k body cmds \<longleftrightarrow>
     (case k of
        EdgeNetwork \<Rightarrow> (\<exists>xs hc. read_body dec_interface ''interfaces'' body = Some (xs, True, hc)
          \<and> ValidateNetworkInterfaces xs = None \<and> cmds = BuildNetworkCommands xs)
      | EdgeDhcp \<Rightarrow> (\<exists>xs hc. read_body dec_dhcp ''dhcp'' body = Some (xs, True, hc)
          \<and> ValidateDHCPInterfaces xs = None \<and> cmds = BuildDHCPCommands xs)
      | EdgeFirewall \<Rightarrow> (\<exists>xs hc. read_body dec_forward ''port_forwarding'' body = Some (xs, True, hc)
          \<and> ValidatePortForwardRules xs = None \<and> cmds = BuildFirewallCommands xs))"

lemmas put_defs = PutEdgeNetworkHandler_def PutEdgeDHCPHandler_def PutEdgeFirewallHandler_def

lemma edge_put_cases:
  assumes "edge_put k env req s = (r, s')"
  obtains (refused) "s' = s"
  | (queueing) cmds msg hc where "edge_asks k (er_body req) cmds"
      "queue_edge (edge_config k) (edge_label k) msg cmds hc env req s = (r, s')"
  using assms
  by (cases k) (auto simp: put_defs Let_def edge_asks_def split: option.splits prod.splits if_splits)

text \<open>
  C10. A handler of the edge configuration changes the tenant's tables only by queueing the operation
  that was asked for: the body was confirmed and valid, backup and commit succeeded, the device had
  nothing pending, and now holds the validated plan with exactly the commands of the body under the
  next generation. Every other device is untouched, and one audit entry of the caller is written.
\<close>

theorem edge_put_queues:
  assumes "ev_random env = Some b" "length b = 16" "edge_put k env req s = (r, s')"
  shows "es_tenant s' = es_tenant s \<or>
    (\<exists>cmds a. edge_asks k (er_body req) cmds \<and> edge_queued (edge_config k) cmds req s r s'
       \<and> ev_backup env \<and> ev_commit env
       \<and> es_audit s' = es_audit s @ [a] \<and> au_username a = er_username req
       \<and> au_action a = edge_label k @ ''_QUEUED'' \<and> au_resource_id a = er_device req)"
  using assms(3)
proof (cases rule: edge_put_cases)
  case (queueing cmds msg hc)
  then show ?thesis using queue_edge_outcome [OF assms(1,2) queueing(2)] by blast
qed simp

definition sample_edge_request :: edge_request where
  "sample_edge_request = \<lparr>er_device = ''dev-1'', er_username = ''alice'', er_remote = ''10.0.0.7'', er_schema = ''tenant_a'',
     er_body = Some (JObj [(''port_forwarding'', JArr [JObj [(''name'', JStr ''web''), (''proto'', JStr ''tcp''),
       (''src_port'', JNum 8080), (''dest_ip'', JStr ''10.0.0.9''), (''dest_port'', JNum 80), (''enabled'', JBool True)]]),
       (''confirm'', JBool True)])\<rparr>"

definition sample_edge_env :: edge_env where
  "sample_edge_env = \<lparr>ev_random = Some (replicate 16 CHR 0x07), ev_now = 9, ev_backup = True, ev_commit = True,
     ev_error_text = (\<lambda>_. [])\<rparr>"

lemma sample_edge_body:
  "read_body dec_forward ''port_forwarding'' (er_body sample_edge_request) = Some ([sample_forward], True, None)"
  by code_simp

lemma sample_forward_ok:
  "ValidateDeviceOperation ''firewall'' (BuildFirewallCommands [sample_forward]) None = Inr ()"
  using wipe_accepted forward_commands_accepted [of sample_forward]
  by (simp add: ValidateDeviceOperation_ok BuildFirewallCommands_def deviceOperationConfigs_def)

lemma sample_edge_fields:
  "er_device sample_edge_request = ''dev-1''" "er_schema sample_edge_request = ''tenant_a''"
  "ev_now sample_edge_env = 9" "ev_backup sample_edge_env" "ev_commit sample_edge_env"
  "ev_random sample_edge_env = Some (replicate 16 CHR 0x07)"
  by (simp_all add: sample_edge_request_def sample_edge_env_def)

text \<open>On the sample tables a valid plan is queued.\<close>

lemma sample_plan_queued:
  assumes "ValidateDeviceOperationPlan plan = Inr ()" "op_generation plan = 0"
  shows "\<exists>db'. QueueDeviceOperation ''tenant_a'' 9 ''dev-1'' (Some (operation_plan_json plan)) sample_db = (Inr 5, db') \<and> db' \<noteq> sample_db"
proof -
  let ?ident = "\<lparr>oi_id = op_id plan, oi_plan_hash = op_plan_hash plan, oi_generation = 0\<rparr>"
  let ?db = "update_device ''dev-1'' (queue_op_row 9 (operation_plan_json plan) ?ident) sample_db"
  have "op_id plan \<noteq> []"
    using assms(1) by (auto simp: ValidateDeviceOperationPlan_def validDeviceOperationID_def split: if_splits)
  then have guard: "queue_op_guard sample_db 9 (operation_plan_json plan) ?ident sample_row"
    by (simp add: queue_op_guard_def sample_row_def sample_db_def col_str_def)
  have schema: "isValidSchemaName ''tenant_a''" by code_simp
  have row: "devices sample_db ''dev-1'' = Some sample_row" "dv_desired sample_row = 4" "(4 :: int) < max_int64"
    by (simp_all add: sample_row_def max_int64_def)
  have "QueueDeviceOperation ''tenant_a'' 9 ''dev-1'' (Some (operation_plan_json plan)) sample_db = (Inr 5, ?db)"
    using guard schema row operation_plan_identity [OF assms]
    by (simp add: QueueDeviceOperation_def queue_op_row_def)
  moreover have "devices ?db ''dev-1'' \<noteq> devices sample_db ''dev-1''"
    by (simp add: update_device_def queue_op_row_def sample_db_def sample_row_def)
  ultimately show ?thesis by metis
qed

lemma sample_queue_edge:
  assumes ok: "ValidateDeviceOperation config cmds hc = Inr ()"
    and req: "er_device req = ''dev-1''" "er_schema req = ''tenant_a''"
  shows "es_tenant (snd (queue_edge config label msg cmds hc sample_edge_env req
     \<lparr>es_tenant = sample_db, es_audit = []\<rparr>)) \<noteq> sample_db"
proof -
  obtain plan where plan: "NewDeviceOperationPlan (ev_random sample_edge_env) config cmds hc True = Inr plan"
    by (simp add: NewDeviceOperationPlan_def NewDeviceOperationPlanForGeneration_def ok
        newDeviceOperationID_def sample_edge_fields)
  from plan have plan': "NewDeviceOperationPlan (Some (replicate 16 CHR 0x07)) config cmds hc True = Inr plan"
    by (simp add: sample_edge_fields)
  note valid = new_plan_valid [OF plan' length_replicate]
  from sample_plan_queued [OF valid(1,2)] obtain db' where
    "QueueDeviceOperation ''tenant_a'' 9 ''dev-1'' (Some (operation_plan_json plan)) sample_db = (Inr 5, db')" "db' \<noteq> sample_db"
    by blast
  moreover have "isValidSchemaName ''tenant_a''" by code_simp
  ultimately show ?thesis
    using plan'
    by (simp add: queue_edge_def getTenantSchema_def InsertAuditLog_def SafeSchemaIdent_def sample_edge_fields req)
qed

lemma sample_edge_put:
  "es_tenant (snd (edge_put EdgeFirewall sample_edge_env sample_edge_request
     \<lparr>es_tenant = sample_db, es_audit = []\<rparr>)) \<noteq> sample_db"
  using sample_queue_edge [OF sample_forward_ok, of sample_edge_request] sample_edge_valid
  by (simp add: put_defs sample_edge_body sample_edge_fields)

theorem edge_put_queues_witness:
  "\<exists>r s'. edge_put EdgeFirewall sample_edge_env sample_edge_request \<lparr>es_tenant = sample_db, es_audit = []\<rparr> = (r, s')
     \<and> edge_queued ''firewall'' (BuildFirewallCommands [sample_forward]) sample_edge_request
         \<lparr>es_tenant = sample_db, es_audit = []\<rparr> r s'"
proof -
  obtain r s' where run: "edge_put EdgeFirewall sample_edge_env sample_edge_request \<lparr>es_tenant = sample_db, es_audit = []\<rparr> = (r, s')"
    by force
  from edge_put_queues [OF sample_edge_fields(6) length_replicate run] sample_edge_put run show ?thesis
    by (auto simp: edge_asks_def sample_edge_body)
qed

end
