(* ===== verification/Site_Config.thy ===== *)
theory Site_Config
  imports Edge_Api "HOL-Library.Monad_Syntax"
begin

text \<open>
  The desired-state template of a site. The record, \<open>ValidateSQM\<close>, \<open>GetSiteConfig\<close> and
  \<open>UpsertSiteConfig\<close> are those of \<open>src/internal/services/orchestrator_engine.go\<close>, the writers
  \<open>PutSiteConfigHandler\<close> and \<open>CommitOmadaMigration\<close> those of \<open>src/internal/api/handlers\<close>
  (\<open>site_orchestrator.go\<close>, \<open>migration.go\<close>), with the WLAN policy check of
  \<open>src/internal/services/wlan_policy.go\<close>.

  The table \<open>site_configs\<close> maps a site to its row. A \<open>json.RawMessage\<close> is \<open>None\<close> when it is empty
  (SQL NULL in the table). Whether PostgreSQL accepts a row (lengths, ranges, the foreign key) is a
  parameter \<open>fits\<close>, and \<open>gen_random_uuid ()\<close> an argument.
\<close>

section \<open>The template\<close>

record site_config =
  sc_id :: string
  sc_site :: string
  sc_enable_global_ssid :: bool
  sc_global_ssid :: string
  sc_global_wpa_key :: string
  sc_global_encryption :: string
  sc_lan_ipaddr :: string
  sc_lan_netmask :: string
  sc_dhcp_start :: int
  sc_dhcp_limit :: int
  sc_dhcp_leasetime :: string
  sc_dns_primary :: string
  sc_dns_secondary :: string
  sc_timezone :: string
  sc_hostname_prefix :: string
  sc_sqm_cake_enabled :: bool
  sc_sqm_section :: string
  sc_sqm_interface :: string
  sc_sqm_download :: int
  sc_sqm_upload :: int
  sc_dpi_enabled :: bool
  sc_secure_tunnel_enabled :: bool
  sc_tailscale_enabled :: bool
  sc_tailscale_auth_key :: string
  sc_firewall_syn_flood :: bool
  sc_firewall_drop_invalid :: bool
  sc_dropbear_port :: int
  sc_dropbear_password_auth :: bool
  sc_dhcp_reservations :: raw_message
  sc_port_forwarding_rules :: raw_message
  sc_threat_shield_enabled :: bool
  sc_guest_portal_enabled :: bool
  sc_allow_public_surveys :: bool
  sc_wan_interfaces :: raw_message
  sc_benchmark_baseline :: raw_message
  sc_topology_metadata :: raw_message
  sc_health_checks :: raw_message

datatype site_error = SqmTarget | SqmRates | SiteRowRefused

definition sqm_section_char :: "char \<Rightarrow> bool" where
  "sqm_section_char c \<longleftrightarrow> is_alnum c \<or> c = CHR ''_''"

definition sqm_interface_char :: "char \<Rightarrow> bool" where
  "sqm_interface_char c \<longleftrightarrow> is_alnum c \<or> c = CHR ''_'' \<or> c = CHR ''.'' \<or> c = CHR ''-''"

definition ValidateSQM :: "site_config \<Rightarrow> site_error option" where
  "ValidateSQM sc =
     (if \<not> sc_sqm_cake_enabled sc then None
      else if \<not> (sc_sqm_section sc \<noteq> [] \<and> list_all sqm_section_char (sc_sqm_section sc))
           \<or> \<not> (sc_sqm_interface sc \<noteq> [] \<and> list_all sqm_interface_char (sc_sqm_interface sc))
      then Some SqmTarget
      else if sc_sqm_download sc \<le> 0 \<or> sc_sqm_upload sc \<le> 0 then Some SqmRates
      else None)"

section \<open>The table\<close>

type_synonym site_table = "string \<rightharpoonup> site_config"

definition or_default :: "json \<Rightarrow> raw_message \<Rightarrow> raw_message" where
  "or_default j r = (case r of None \<Rightarrow> Some j | Some v \<Rightarrow> Some v)"

text \<open>\<open>COALESCE\<close> on the columns that may be NULL; the two lists of rules are read as they are.\<close>

definition GetSiteConfig :: "site_table \<Rightarrow> string \<Rightarrow> site_config option" where
  "GetSiteConfig tbl siteID =
     map_option (\<lambda>row. row
       \<lparr>sc_wan_interfaces := or_default (JArr []) (sc_wan_interfaces row),
        sc_benchmark_baseline := or_default (JObj []) (sc_benchmark_baseline row),
        sc_topology_metadata := or_default (JObj []) (sc_topology_metadata row),
        sc_health_checks := or_default (JArr []) (sc_health_checks row)\<rparr>) (tbl siteID)"

definition site_defaults :: "site_config \<Rightarrow> site_config" where
  "site_defaults sc = sc
     \<lparr>sc_wan_interfaces := or_default (JArr []) (sc_wan_interfaces sc),
      sc_benchmark_baseline := or_default (JObj []) (sc_benchmark_baseline sc),
      sc_topology_metadata := or_default (JObj []) (sc_topology_metadata sc),
      sc_health_checks := or_default (JArr []) (sc_health_checks sc)\<rparr>"

definition jsonb_columns :: "site_config \<Rightarrow> site_config" where
  "jsonb_columns sc = sc
     \<lparr>sc_dhcp_reservations := map_option jsonb_norm (sc_dhcp_reservations sc),
      sc_port_forwarding_rules := map_option jsonb_norm (sc_port_forwarding_rules sc),
      sc_wan_interfaces := map_option jsonb_norm (sc_wan_interfaces sc),
      sc_benchmark_baseline := map_option jsonb_norm (sc_benchmark_baseline sc),
      sc_topology_metadata := map_option jsonb_norm (sc_topology_metadata sc),
      sc_health_checks := map_option jsonb_norm (sc_health_checks sc)\<rparr>"

text \<open>The column \<open>id\<close> is not written: a new row draws it, an existing one keeps it.\<close>

definition UpsertSiteConfig ::
  "(site_config \<Rightarrow> bool) \<Rightarrow> string \<Rightarrow> site_config \<Rightarrow> site_table \<Rightarrow> site_error option \<times> site_table" where
  "UpsertSiteConfig fits new_id sc tbl =
     (case ValidateSQM sc of
        Some e \<Rightarrow> (Some e, tbl)
      | None \<Rightarrow>
          (let row = jsonb_columns (site_defaults sc);
               i = (case tbl (sc_site sc) of None \<Rightarrow> new_id | Some old \<Rightarrow> sc_id old)
           in if \<not> fits row then (Some SiteRowRefused, tbl)
              else (None, tbl(sc_site sc \<mapsto> row\<lparr>sc_id := i\<rparr>))))"

section \<open>The policy of a WLAN\<close>

record wlan_row =
  wl_site :: string
  wl_ssid :: string
  wl_enabled :: bool
  wl_security :: string
  wl_password :: "string option"

definition ResolveCanonicalWLAN ::
  "string \<Rightarrow> string \<Rightarrow> string \<Rightarrow> string \<Rightarrow> string \<Rightarrow> string \<Rightarrow> string \<times> string \<times> string list" where
  "ResolveCanonicalWLAN siteSSID siteSecurity sitePassword wlanSSID wlanSecurity wlanPassword =
     (wlanSecurity, wlanPassword,
      if siteSSID = [] \<or> siteSSID \<noteq> wlanSSID then []
      else (if siteSecurity \<noteq> [] \<and> siteSecurity \<noteq> wlanSecurity then [''global_encryption''] else [])
         @ (if sitePassword \<noteq> [] \<and> sitePassword \<noteq> wlanPassword then [''global_wpa_key''] else []))"

definition WLANAppliesToDevice :: "bool \<Rightarrow> string \<Rightarrow> bool \<Rightarrow> bool" where
  "WLANAppliesToDevice globalEnabled targetMode assigned =
     (if equal_fold (trim_space targetMode) ''custom'' then assigned else globalEnabled)"

definition siteWLANPolicyConflicts :: "wlan_row list \<Rightarrow> string \<Rightarrow> string \<Rightarrow> string \<Rightarrow> string \<Rightarrow> string list" where
  "siteWLANPolicyConflicts wlans siteID siteSSID siteEncryption sitePassword =
     dedup {} (concat (map
       (\<lambda>w. snd (snd (ResolveCanonicalWLAN siteSSID siteEncryption sitePassword siteSSID
                        (wl_security w) (coalesce (wl_password w)))))
       (filter (\<lambda>w. wl_site w = siteID \<and> wl_ssid w = siteSSID \<and> wl_enabled w) wlans)))"

section \<open>Saving a template\<close>

definition go_raw :: "string \<Rightarrow> (string \<times> json) list \<Rightarrow> raw_message" where
  "go_raw name kvs = (case go_entries name kvs of [] \<Rightarrow> None | js \<Rightarrow> Some (last js))"

definition array_or_empty :: "raw_message \<Rightarrow> raw_message" where
  "array_or_empty r = (case r of None \<Rightarrow> Some (JArr []) | Some j \<Rightarrow> if j = JNull then Some (JArr []) else Some j)"

text \<open>The fields of the DTO, and the \<open>SiteConfig\<close> the handler builds from them.\<close>

definition body_config :: "string \<Rightarrow> raw_message \<Rightarrow> site_config option" where
  "body_config siteID body =
     do { kvs \<leftarrow> Option.bind body go_obj;
       enable_global_ssid \<leftarrow> go_bool ''enable_global_ssid'' kvs;
       global_ssid \<leftarrow> go_str ''global_ssid'' kvs;
       global_wpa_key \<leftarrow> go_str ''global_wpa_key'' kvs;
       global_encryption \<leftarrow> go_str ''global_encryption'' kvs;
       lan_ipaddr \<leftarrow> go_str ''lan_ipaddr'' kvs;
       lan_netmask \<leftarrow> go_str ''lan_netmask'' kvs;
       dhcp_start \<leftarrow> go_int ''dhcp_start'' kvs;
       dhcp_limit \<leftarrow> go_int ''dhcp_limit'' kvs;
       dhcp_leasetime \<leftarrow> go_str ''dhcp_leasetime'' kvs;
       dns_primary \<leftarrow> go_str ''dns_primary'' kvs;
       dns_secondary \<leftarrow> go_str ''dns_secondary'' kvs;
       timezone \<leftarrow> go_str ''timezone'' kvs;
       hostname_prefix \<leftarrow> go_str ''hostname_prefix'' kvs;
       sqm_cake_enabled \<leftarrow> go_bool ''sqm_cake_enabled'' kvs;
       sqm_section \<leftarrow> go_str ''sqm_section'' kvs;
       sqm_interface \<leftarrow> go_str ''sqm_interface'' kvs;
       sqm_download \<leftarrow> go_int ''sqm_download'' kvs;
       sqm_upload \<leftarrow> go_int ''sqm_upload'' kvs;
       dpi_enabled \<leftarrow> go_bool ''dpi_enabled'' kvs;
       secure_tunnel_enabled \<leftarrow> go_bool ''secure_tunnel_enabled'' kvs;
       tailscale_enabled \<leftarrow> go_bool ''tailscale_enabled'' kvs;
       tailscale_auth_key \<leftarrow> go_str ''tailscale_auth_key'' kvs;
       firewall_syn_flood \<leftarrow> go_bool ''firewall_syn_flood'' kvs;
       firewall_drop_invalid \<leftarrow> go_bool ''firewall_drop_invalid'' kvs;
       dropbear_port \<leftarrow> go_int ''dropbear_port'' kvs;
       dropbear_password_auth \<leftarrow> go_bool ''dropbear_password_auth'' kvs;
       threat_shield_enabled \<leftarrow> go_bool ''threat_shield_enabled'' kvs;
       allow_public_surveys \<leftarrow> go_bool ''allow_public_surveys'' kvs;
       Some
         \<lparr>sc_id = [],
          sc_site = siteID,
          sc_enable_global_ssid = enable_global_ssid,
          sc_global_ssid = global_ssid,
          sc_global_wpa_key = global_wpa_key,
          sc_global_encryption = global_encryption,
          sc_lan_ipaddr = lan_ipaddr,
          sc_lan_netmask = lan_netmask,
          sc_dhcp_start = dhcp_start,
          sc_dhcp_limit = dhcp_limit,
          sc_dhcp_leasetime = dhcp_leasetime,
          sc_dns_primary = dns_primary,
          sc_dns_secondary = dns_secondary,
          sc_timezone = timezone,
          sc_hostname_prefix = hostname_prefix,
          sc_sqm_cake_enabled = sqm_cake_enabled,
          sc_sqm_section = sqm_section,
          sc_sqm_interface = sqm_interface,
          sc_sqm_download = sqm_download,
          sc_sqm_upload = sqm_upload,
          sc_dpi_enabled = dpi_enabled,
          sc_secure_tunnel_enabled = secure_tunnel_enabled,
          sc_tailscale_enabled = tailscale_enabled,
          sc_tailscale_auth_key = tailscale_auth_key,
          sc_firewall_syn_flood = firewall_syn_flood,
          sc_firewall_drop_invalid = firewall_drop_invalid,
          sc_dropbear_port = dropbear_port,
          sc_dropbear_password_auth = dropbear_password_auth,
          sc_dhcp_reservations = array_or_empty (go_raw ''dhcp_reservations'' kvs),
          sc_port_forwarding_rules = array_or_empty (go_raw ''port_forwarding_rules'' kvs),
          sc_threat_shield_enabled = threat_shield_enabled,
          sc_guest_portal_enabled = False,
          sc_allow_public_surveys = allow_public_surveys,
          sc_wan_interfaces = None,
          sc_benchmark_baseline = go_raw ''benchmark_baseline'' kvs,
          sc_topology_metadata = go_raw ''topology_metadata'' kvs,
          sc_health_checks = go_raw ''health_checks'' kvs\<rparr> }"

datatype site_response =
    SiteBadBody
  | SiteBadTenant db_error
  | SiteConflicts "string list"
  | SiteInvalid site_error
  | SiteSaveFailed site_error
  | SiteSaved
  | SiteMissing
  | SiteNothing

record site_state =
  ss_configs :: site_table
  ss_wlans :: "wlan_row list"
  ss_audit :: "audit_row list"

record site_request =
  sr_site :: string
  sr_schema :: string
  sr_username :: string
  sr_remote :: string
  sr_body :: raw_message

definition site_audit :: "site_request \<Rightarrow> string \<Rightarrow> string \<Rightarrow> string \<Rightarrow> string \<Rightarrow> site_state \<Rightarrow> site_state" where
  "site_audit req action resourceType resourceID payload s =
     s\<lparr>ss_audit := ss_audit s @
        [\<lparr>au_username = sr_username req, au_action = action, au_resource_type = resourceType,
          au_resource_id = resourceID, au_payload = payload, au_ip = sr_remote req\<rparr>]\<rparr>"

definition wlan_check :: "site_request \<Rightarrow> site_config \<Rightarrow> site_state \<Rightarrow> site_response option" where
  "wlan_check req sc s =
     (if sc_enable_global_ssid sc \<and> sc_global_ssid sc \<noteq> []
      then (case getTenantSchema (sr_schema req) of
              Inl e \<Rightarrow> Some (SiteBadTenant e)
            | Inr _ \<Rightarrow>
                (let conflicts = siteWLANPolicyConflicts (ss_wlans s) (sr_site req) (sc_global_ssid sc)
                                   (sc_global_encryption sc) (sc_global_wpa_key sc)
                 in if conflicts \<noteq> [] then Some (SiteConflicts conflicts) else None))
      else None)"

definition PutSiteConfigHandler ::
  "(site_config \<Rightarrow> bool) \<Rightarrow> string \<Rightarrow> site_request \<Rightarrow> site_state \<Rightarrow> site_response \<times> site_state" where
  "PutSiteConfigHandler fits new_id req s =
     (case body_config (sr_site req) (sr_body req) of
        None \<Rightarrow> (SiteBadBody, s)
      | Some sc \<Rightarrow>
          (case wlan_check req sc s of
             Some r \<Rightarrow> (r, s)
           | None \<Rightarrow>
               (case ValidateSQM sc of
                  Some e \<Rightarrow> (SiteInvalid e, s)
                | None \<Rightarrow>
                    (case UpsertSiteConfig fits new_id sc (ss_configs s) of
                       (Some e, _) \<Rightarrow> (SiteSaveFailed e, s)
                     | (None, tbl) \<Rightarrow>
                         (SiteSaved,
                          site_audit req ''SITE_ORCHESTRATOR_CONFIG_SAVE'' ''SITE'' (sr_site req)
                            (''Updated site desired-state template (SSID: '' @ sc_global_ssid sc @ '')'')
                            (s\<lparr>ss_configs := tbl\<rparr>))))))"

section \<open>Taking over an Omada export\<close>

definition empty_site :: "string \<Rightarrow> site_config" where
  "empty_site siteID =
     \<lparr>sc_id = [],
      sc_site = siteID,
      sc_enable_global_ssid = False,
      sc_global_ssid = [],
      sc_global_wpa_key = [],
      sc_global_encryption = [],
      sc_lan_ipaddr = [],
      sc_lan_netmask = [],
      sc_dhcp_start = 0,
      sc_dhcp_limit = 0,
      sc_dhcp_leasetime = [],
      sc_dns_primary = [],
      sc_dns_secondary = [],
      sc_timezone = [],
      sc_hostname_prefix = [],
      sc_sqm_cake_enabled = False,
      sc_sqm_section = [],
      sc_sqm_interface = [],
      sc_sqm_download = 0,
      sc_sqm_upload = 0,
      sc_dpi_enabled = False,
      sc_secure_tunnel_enabled = False,
      sc_tailscale_enabled = False,
      sc_tailscale_auth_key = [],
      sc_firewall_syn_flood = False,
      sc_firewall_drop_invalid = False,
      sc_dropbear_port = 0,
      sc_dropbear_password_auth = False,
      sc_dhcp_reservations = None,
      sc_port_forwarding_rules = None,
      sc_threat_shield_enabled = False,
      sc_guest_portal_enabled = False,
      sc_allow_public_surveys = False,
      sc_wan_interfaces = None,
      sc_benchmark_baseline = None,
      sc_topology_metadata = None,
      sc_health_checks = None\<rparr>"

definition lease_json :: "static_lease \<Rightarrow> json" where
  "lease_json l = JObj [(''name'', JStr (sl_name l)), (''mac'', JStr (sl_mac l)), (''ip'', JStr (sl_ip l))]"

definition forward_json :: "port_forward_rule \<Rightarrow> json" where
  "forward_json r =
     JObj [(''name'', JStr (pf_name r)), (''proto'', JStr (pf_proto r)), (''src_port'', JNum (pf_src_port r)),
           (''dest_ip'', JStr (pf_dest_ip r)), (''dest_port'', JNum (pf_dest_port r)), (''enabled'', JBool (pf_enabled r))]"

definition migration_payload ::
  "raw_message \<Rightarrow> (string \<times> static_lease list option \<times> port_forward_rule list option) option" where
  "migration_payload body =
     do { kvs \<leftarrow> Option.bind body go_obj;
          site \<leftarrow> go_str ''site_id'' kvs;
          dhcp \<leftarrow> go_slice dec_lease ''dhcp'' kvs;
          fw \<leftarrow> go_slice dec_forward ''port_forwarding'' kvs;
          Some (site, dhcp, fw) }"

definition CommitOmadaMigration ::
  "(site_config \<Rightarrow> bool) \<Rightarrow> string \<Rightarrow> site_request \<Rightarrow> site_state \<Rightarrow> site_response \<times> site_state" where
  "CommitOmadaMigration fits new_id req s =
     (case migration_payload (sr_body req) of
        None \<Rightarrow> (SiteBadBody, s)
      | Some (site, dhcp, fw) \<Rightarrow>
          if site = [] then (SiteMissing, s)
          else if slice_elems dhcp = [] \<and> slice_elems fw = [] then (SiteNothing, s)
          else
            (let sc = (case GetSiteConfig (ss_configs s) site of None \<Rightarrow> empty_site site | Some c \<Rightarrow> c);
                 sc' = sc\<lparr>sc_dhcp_reservations := Some (slice_json lease_json dhcp),
                          sc_port_forwarding_rules := Some (slice_json forward_json fw)\<rparr>
             in case UpsertSiteConfig fits new_id sc' (ss_configs s) of
                  (Some e, _) \<Rightarrow> (SiteSaveFailed e, s)
                | (None, tbl) \<Rightarrow>
                    (SiteSaved,
                     site_audit req ''OMADA_MIGRATOR_COMMIT'' ''SITE_TEMPLATE'' site
                       (''Assimilated '' @ nat_str (length (slice_elems dhcp)) @ '' DHCP / ''
                          @ nat_str (length (slice_elems fw)) @ '' FW rules into Orchestrator'')
                       (s\<lparr>ss_configs := tbl\<rparr>))))"

section \<open>What a save stores\<close>

lemma or_default_simps [simp]:
  "or_default j (Some v) = Some v" "or_default j None = Some j"
  by (simp_all add: or_default_def)

lemma or_default_not_None [simp]: "or_default j r \<noteq> None"
  by (cases r) simp_all

lemma or_default_again [simp]: "or_default k (or_default j r) = or_default j r"
  by (cases r) simp_all

lemma or_default_norm [simp]: "or_default k (map_option jsonb_norm (or_default j r)) = map_option jsonb_norm (or_default j r)"
  by (cases r) simp_all

lemma body_config_site:
  assumes "body_config siteID body = Some sc"
  shows "sc_site sc = siteID" "sc_wan_interfaces sc = None" "\<not> sc_guest_portal_enabled sc"
  using assms by (auto simp: body_config_def bind_eq_Some_conv)

text \<open>Reading a row back right after it was written.\<close>

lemma Upsert_saved:
  assumes "UpsertSiteConfig fits n sc tbl = (None, tbl')"
  shows "\<exists>i. (case tbl (sc_site sc) of None \<Rightarrow> i = n | Some old \<Rightarrow> i = sc_id old)
     \<and> ValidateSQM sc = None
     \<and> GetSiteConfig tbl' (sc_site sc) = Some ((jsonb_columns (site_defaults sc))\<lparr>sc_id := i\<rparr>)
     \<and> tbl' = tbl(sc_site sc \<mapsto> (jsonb_columns (site_defaults sc))\<lparr>sc_id := i\<rparr>)"
  using assms
  by (auto simp: UpsertSiteConfig_def Let_def GetSiteConfig_def jsonb_columns_def site_defaults_def
      split: option.splits if_splits)

lemma put_saved:
  assumes "PutSiteConfigHandler fits n req s = (SiteSaved, s')"
  obtains sc tbl where "body_config (sr_site req) (sr_body req) = Some sc" "wlan_check req sc s = None"
    "UpsertSiteConfig fits n sc (ss_configs s) = (None, tbl)" "ss_configs s' = tbl" "ss_wlans s' = ss_wlans s"
  using assms
  by (auto simp: PutSiteConfigHandler_def site_audit_def wlan_check_def Let_def
      split: option.splits prod.splits if_splits sum.splits)

text \<open>
  C14. What is saved is what is read back: after a successful save, reading the site gives the template
  of the body with its JSON columns normalised and its missing ones defaulted, the identity of an
  existing row is kept, the rates of an enabled shaper are positive, and no other site changes. But the
  handler does not take the uplinks and the guest portal from the body, so every save resets them.
\<close>

theorem site_save_roundtrip:
  assumes "PutSiteConfigHandler fits n req s = (SiteSaved, s')"
  shows "\<exists>sc i. body_config (sr_site req) (sr_body req) = Some sc
     \<and> GetSiteConfig (ss_configs s') (sr_site req) = Some ((jsonb_columns (site_defaults sc))\<lparr>sc_id := i\<rparr>)
     \<and> (case GetSiteConfig (ss_configs s) (sr_site req) of None \<Rightarrow> i = n | Some old \<Rightarrow> i = sc_id old)
     \<and> (sc_sqm_cake_enabled sc \<longrightarrow> 0 < sc_sqm_download sc \<and> 0 < sc_sqm_upload sc)
     \<and> sc_wan_interfaces ((jsonb_columns (site_defaults sc))\<lparr>sc_id := i\<rparr>) = Some (JArr [])
     \<and> \<not> sc_guest_portal_enabled ((jsonb_columns (site_defaults sc))\<lparr>sc_id := i\<rparr>)
     \<and> (\<forall>site. site \<noteq> sr_site req \<longrightarrow> GetSiteConfig (ss_configs s') site = GetSiteConfig (ss_configs s) site)"
proof -
  obtain sc tbl where sc: "body_config (sr_site req) (sr_body req) = Some sc"
      and up: "UpsertSiteConfig fits n sc (ss_configs s) = (None, tbl)" and tbl: "ss_configs s' = tbl"
    using put_saved [OF assms] by metis
  note site = body_config_site [OF sc]
  obtain i where i: "case ss_configs s (sr_site req) of None \<Rightarrow> i = n | Some old \<Rightarrow> i = sc_id old"
      "ValidateSQM sc = None"
      "GetSiteConfig tbl (sr_site req) = Some ((jsonb_columns (site_defaults sc))\<lparr>sc_id := i\<rparr>)"
      "tbl = (ss_configs s)(sr_site req \<mapsto> (jsonb_columns (site_defaults sc))\<lparr>sc_id := i\<rparr>)"
    using Upsert_saved [OF up] site(1) by auto
  have "case GetSiteConfig (ss_configs s) (sr_site req) of None \<Rightarrow> i = n | Some old \<Rightarrow> i = sc_id old"
    using i(1) by (simp add: GetSiteConfig_def split: option.splits)
  moreover have "sc_sqm_cake_enabled sc \<longrightarrow> 0 < sc_sqm_download sc \<and> 0 < sc_sqm_upload sc"
    using i(2) by (auto simp: ValidateSQM_def split: if_splits)
  moreover have "sc_wan_interfaces (jsonb_columns (site_defaults sc)) = Some (JArr [])"
    "\<not> sc_guest_portal_enabled (jsonb_columns (site_defaults sc))"
    using site by (simp_all add: jsonb_columns_def site_defaults_def)
  moreover have "GetSiteConfig tbl j = GetSiteConfig (ss_configs s) j" if "j \<noteq> sr_site req" for j
    using that by (simp add: i(4) GetSiteConfig_def)
  ultimately show ?thesis using sc i(3) tbl by auto
qed

definition sample_site_request :: site_request where
  "sample_site_request = \<lparr>sr_site = ''site-1'', sr_schema = ''tenant_a'', sr_username = ''alice'', sr_remote = ''10.0.0.7'',
     sr_body = Some (JObj [(''timezone'', JStr ''UTC''), (''guest_portal_enabled'', JBool True)])\<rparr>"

lemma sample_site_saved:
  "fst (PutSiteConfigHandler (\<lambda>_. True) ''id-1'' sample_site_request
     \<lparr>ss_configs = (\<lambda>_. None), ss_wlans = [], ss_audit = []\<rparr>) = SiteSaved"
  by code_simp

theorem site_save_roundtrip_witness:
  "\<exists>s' sc. PutSiteConfigHandler (\<lambda>_. True) ''id-1'' sample_site_request
       \<lparr>ss_configs = (\<lambda>_. None), ss_wlans = [], ss_audit = []\<rparr> = (SiteSaved, s')
     \<and> GetSiteConfig (ss_configs s') ''site-1'' = Some sc \<and> \<not> sc_guest_portal_enabled sc"
proof -
  obtain s' where s': "PutSiteConfigHandler (\<lambda>_. True) ''id-1'' sample_site_request
      \<lparr>ss_configs = (\<lambda>_. None), ss_wlans = [], ss_audit = []\<rparr> = (SiteSaved, s')"
    using sample_site_saved by (metis prod.collapse)
  have "sr_site sample_site_request = ''site-1''" by (simp add: sample_site_request_def)
  with site_save_roundtrip [OF s'] s' show ?thesis by metis
qed

end
