(* ===== verification/Site_Renderer.thy ===== *)
theory Site_Renderer
  imports Site_Config
begin

text \<open>
  The rendering of a site template into UCI commands per device and role,
  \<open>RenderSiteConfig\<close> and \<open>renderMwan3Commands\<close> of \<open>src/internal/services/orchestrator_engine.go\<close>, and the
  guarded change of a device's role. The lemmas show which namespaces a role can touch, and follow the
  rendered commands into the command grammar of the executor.
\<close>

section \<open>Devices\<close>

record wan_interface =
  wi_name :: string
  wi_iface :: string
  wi_track_ip :: string
  wi_tier :: int
  wi_weight :: int

text \<open>Of the capabilities the renderer reads only \<open>LogicalNetworks\<close>.\<close>

record device_role_info =
  dr_device :: string
  dr_hostname :: string
  dr_last_ip :: string
  dr_role :: string
  dr_logical_networks :: "string \<rightharpoonup> string"

record render_result =
  rn_device :: string
  rn_hostname :: string
  rn_role :: string
  rn_last_ip :: string
  rn_commands :: "uci_command list"

definition logicalNetworkSection :: "(string \<rightharpoonup> string) \<Rightarrow> string \<Rightarrow> string" where
  "logicalNetworkSection networks name =
     (case networks name of None \<Rightarrow> name | Some s \<Rightarrow> if s \<noteq> [] then s else name)"

section \<open>Multi-WAN\<close>

definition member_name :: "wan_interface \<Rightarrow> string" where
  "member_name w =
     wi_iface w @ ''_m'' @ int_str (if wi_tier w \<le> 0 then 1 else wi_tier w) @ ''_''
       @ int_str (if wi_weight w \<le> 0 then 1 else wi_weight w)"

definition wan_commands :: "wan_interface \<Rightarrow> uci_command list" where
  "wan_commands w =
     (if wi_iface w = [] then []
      else
        (let iface = wi_iface w; member = member_name w;
             trackIP = (if wi_track_ip w = [] then ''8.8.8.8'' else wi_track_ip w);
             weight = (if wi_weight w \<le> 0 then 1 else wi_weight w);
             tier = (if wi_tier w \<le> 0 then 1 else wi_tier w)
         in [mk_uci ''set'' ''network'' iface ''proto'' ''dhcp'',
             mk_uci ''set'' ''network'' iface ''ifname'' iface,
             mk_uci ''set'' ''mwan3'' iface [] ''interface'',
             mk_uci ''set'' ''mwan3'' iface ''enabled'' ''1'',
             mk_uci ''set'' ''mwan3'' iface ''count'' ''1'',
             mk_uci ''set'' ''mwan3'' iface ''timeout'' ''2'',
             mk_uci ''set'' ''mwan3'' iface ''interval'' ''5'',
             mk_uci ''set'' ''mwan3'' iface ''reliability'' ''1'',
             mk_uci ''add_list'' ''mwan3'' iface ''track_ip'' trackIP,
             mk_uci ''set'' ''mwan3'' member [] ''member'',
             mk_uci ''set'' ''mwan3'' member ''interface'' iface,
             mk_uci ''set'' ''mwan3'' member ''metric'' (int_str tier),
             mk_uci ''set'' ''mwan3'' member ''weight'' (int_str weight)]))"

definition renderMwan3Commands :: "wan_interface list \<Rightarrow> uci_command list" where
  "renderMwan3Commands wans =
     mk_uci ''set'' ''mwan3'' ''globals'' ''mmx_mask'' ''0x3F00''
     # concat (map wan_commands wans)
     @ mk_uci ''set'' ''mwan3'' ''failover'' [] ''policy''
     # map (mk_uci ''add_list'' ''mwan3'' ''failover'' ''use_member'')
         (map member_name (filter (\<lambda>w. wi_iface w \<noteq> []) wans))
     @ [mk_uci ''set'' ''mwan3'' ''default_rule'' [] ''rule'',
        mk_uci ''set'' ''mwan3'' ''default_rule'' ''proto'' ''all'',
        mk_uci ''set'' ''mwan3'' ''default_rule'' ''sticky'' ''0'',
        mk_uci ''set'' ''mwan3'' ''default_rule'' ''use_policy'' ''failover'']"

section \<open>The sections of a rendered device\<close>

definition render_hostname :: "site_config \<Rightarrow> nat \<Rightarrow> string \<Rightarrow> device_role_info \<Rightarrow> string" where
  "render_hostname cfg i role dev =
     (if dr_hostname dev \<noteq> [] \<and> dr_hostname dev \<noteq> ''UNKNOWN'' then dr_hostname dev
      else sc_hostname_prefix cfg @ ''-'' @ role @ ''-'' @ nat_str (i + 1))"

definition render_system :: "site_config \<Rightarrow> string \<Rightarrow> uci_command list" where
  "render_system cfg hostname =
     [mk_uci ''set'' ''system'' ''@system[0]'' ''hostname'' hostname,
      mk_uci ''set'' ''system'' ''@system[0]'' ''timezone'' (sc_timezone cfg)]"

definition render_network :: "site_config \<Rightarrow> string \<Rightarrow> uci_command list" where
  "render_network cfg lan =
     [mk_uci ''set'' ''network'' lan ''ipaddr'' (sc_lan_ipaddr cfg),
      mk_uci ''set'' ''network'' lan ''netmask'' (sc_lan_netmask cfg)]"

definition render_dhcp :: "site_config \<Rightarrow> string \<Rightarrow> uci_command list" where
  "render_dhcp cfg lan =
     [mk_uci ''set'' ''dhcp'' lan ''start'' (int_str (sc_dhcp_start cfg)),
      mk_uci ''set'' ''dhcp'' lan ''limit'' (int_str (sc_dhcp_limit cfg)),
      mk_uci ''set'' ''dhcp'' lan ''leasetime'' (sc_dhcp_leasetime cfg),
      mk_uci ''delete'' ''dhcp'' ''@dnsmasq[0]'' ''server'' [],
      mk_uci ''add_list'' ''dhcp'' ''@dnsmasq[0]'' ''server'' (sc_dns_primary cfg),
      mk_uci ''add_list'' ''dhcp'' ''@dnsmasq[0]'' ''server'' (sc_dns_secondary cfg)]"

definition flag01 :: "bool \<Rightarrow> string" where
  "flag01 b = (if b then ''1'' else ''0'')"

definition render_firewall :: "site_config \<Rightarrow> uci_command list" where
  "render_firewall cfg =
     [mk_uci ''set'' ''firewall'' ''@defaults[0]'' ''syn_flood'' (flag01 (sc_firewall_syn_flood cfg)),
      mk_uci ''set'' ''firewall'' ''@defaults[0]'' ''drop_invalid'' (flag01 (sc_firewall_drop_invalid cfg))]
     @ (if \<not> sc_dpi_enabled cfg then [mk_uci ''delete'' ''firewall'' ''@defaults[0]'' ''dpi_enabled'' []] else [])"

text \<open>A list column that does not decode is skipped.\<close>

definition column_list :: "(json \<Rightarrow> 'a option) \<Rightarrow> raw_message \<Rightarrow> 'a list" where
  "column_list dec col =
     (case col of None \<Rightarrow> [] | Some j \<Rightarrow> (case top_slice dec j of None \<Rightarrow> [] | Some xs \<Rightarrow> slice_elems xs))"

definition render_reservations :: "site_config \<Rightarrow> uci_command list" where
  "render_reservations cfg = map lease_command (column_list dec_lease (sc_dhcp_reservations cfg))"

definition redirect_commands :: "port_forward_rule \<Rightarrow> uci_command list" where
  "redirect_commands pf =
     (let put = (\<lambda>opt v. mk_uci ''set'' ''firewall'' ''@redirect[-1]'' opt v) in
      [mk_uci ''add'' ''firewall'' ''redirect'' [] [],
       put ''name'' (pf_name pf), put ''target'' ''DNAT'', put ''src'' ''wan'',
       put ''src_dport'' (int_str (pf_src_port pf)), put ''proto'' (pf_proto pf),
       put ''dest_ip'' (pf_dest_ip pf), put ''dest_port'' (int_str (pf_dest_port pf)), put ''dest'' ''lan''])"

definition render_forwards :: "site_config \<Rightarrow> uci_command list" where
  "render_forwards cfg = concat (map redirect_commands (column_list dec_forward (sc_port_forwarding_rules cfg)))"

definition render_sqm :: "site_config \<Rightarrow> uci_command list" where
  "render_sqm cfg =
     (if sc_sqm_cake_enabled cfg
      then (let put = (\<lambda>opt v. mk_uci ''set'' ''sqm'' (sc_sqm_section cfg) opt v) in
        [mk_uci ''set'' ''firewall'' ''@defaults[0]'' ''flow_offloading_hw'' ''0'',
         put ''enabled'' ''1'', put ''interface'' (sc_sqm_interface cfg),
         put ''download'' (int_str (sc_sqm_download cfg)), put ''upload'' (int_str (sc_sqm_upload cfg)),
         put ''qdisc'' ''cake'', put ''script'' ''piece_of_cake.qos'', put ''linklayer'' ''none''])
      else [])"

definition render_portal :: "site_config \<Rightarrow> uci_command list" where
  "render_portal cfg =
     (if sc_guest_portal_enabled cfg
      then map (\<lambda>(opt, v). mk_uci ''set'' ''opennds'' ''@opennds[0]'' opt v)
        [(''enabled'', ''1''), (''gatewayinterface'', ''br-lan''), (''fasport'', ''3000''), (''faspath'', ''/portal/auth'')]
      else [])"

definition dec_wan :: "json \<Rightarrow> wan_interface option" where
  "dec_wan j =
     do { kvs \<leftarrow> go_obj j;
          n \<leftarrow> go_str ''name'' kvs;
          i \<leftarrow> go_str ''iface_name'' kvs;
          t \<leftarrow> go_str ''track_ip'' kvs;
          tier \<leftarrow> go_int ''tier'' kvs;
          w \<leftarrow> go_int ''weight'' kvs;
          Some \<lparr>wi_name = n, wi_iface = i, wi_track_ip = t, wi_tier = tier, wi_weight = w\<rparr> }"

definition render_wans :: "site_config \<Rightarrow> uci_command list" where
  "render_wans cfg =
     (if (case sc_wan_interfaces cfg of None \<Rightarrow> False | Some j \<Rightarrow> length (jsonb_out j) > 2)
      then (let wans = column_list dec_wan (sc_wan_interfaces cfg)
            in if length wans \<ge> 2 then renderMwan3Commands wans else [])
      else [])"

definition render_gateway :: "site_config \<Rightarrow> string \<Rightarrow> uci_command list" where
  "render_gateway cfg lan =
     render_network cfg lan @ render_dhcp cfg lan @ render_firewall cfg @ render_reservations cfg
     @ render_forwards cfg @ render_sqm cfg @ render_portal cfg @ render_wans cfg"

definition render_dropbear :: "site_config \<Rightarrow> uci_command list" where
  "render_dropbear cfg =
     [mk_uci ''set'' ''dropbear'' ''@dropbear[0]'' ''Port'' (int_str (sc_dropbear_port cfg)),
      mk_uci ''set'' ''dropbear'' ''@dropbear[0]'' ''PasswordAuth''
        (if sc_dropbear_password_auth cfg then ''on'' else ''off'')]"

definition render_device :: "site_config \<Rightarrow> nat \<Rightarrow> device_role_info \<Rightarrow> render_result" where
  "render_device cfg i dev =
     (let role = (if dr_role dev = [] then ''AP'' else dr_role dev);
          hostname = render_hostname cfg i role dev
      in \<lparr>rn_device = dr_device dev, rn_hostname = hostname, rn_role = role, rn_last_ip = dr_last_ip dev,
          rn_commands = render_system cfg hostname
            @ (if role = ''Gateway'' then render_gateway cfg (logicalNetworkSection (dr_logical_networks dev) ''lan'')
               else [])
            @ render_dropbear cfg\<rparr>)"

definition RenderSiteConfig :: "site_config \<Rightarrow> device_role_info list \<Rightarrow> render_result list" where
  "RenderSiteConfig cfg devs = map (\<lambda>(i, dev). render_device cfg i dev) (enumerate 0 devs)"

section \<open>Changing the role of a device\<close>

datatype role_error = RoleSchema db_error | RoleConflict

definition UpdateDeviceRoleForTenant ::
  "string \<Rightarrow> string \<Rightarrow> string \<Rightarrow> tenant_db \<Rightarrow> (role_error + unit) \<times> tenant_db" where
  "UpdateDeviceRoleForTenant schema deviceID role db =
     (case SafeSchemaIdent schema of
        Inl e \<Rightarrow> (Inl (RoleSchema e), db)
      | Inr _ \<Rightarrow>
          (case devices db deviceID of
             None \<Rightarrow> (Inl RoleConflict, db)
           | Some d \<Rightarrow>
               if coalesce (dv_rollout_status d) = ''RUNNING'' then (Inl RoleConflict, db)
               else (Inr (), update_device deviceID (dv_role_update (\<lambda>_. Some role)) db)))"

section \<open>Namespaces\<close>

text \<open>What a role may touch.\<close>

definition role_may :: "string \<Rightarrow> string \<Rightarrow> bool" where
  "role_may role config \<longleftrightarrow>
     config \<in> {''system'', ''dropbear''} \<or>
     role = ''Gateway'' \<and> config \<in> {''network'', ''dhcp'', ''firewall'', ''sqm'', ''opennds'', ''mwan3''}"

lemma gateway_may:
  "role_may ''Gateway'' ''network''" "role_may ''Gateway'' ''dhcp''" "role_may ''Gateway'' ''firewall''"
  "role_may ''Gateway'' ''sqm''" "role_may ''Gateway'' ''opennds''" "role_may ''Gateway'' ''mwan3''"
  "role_may role ''system''" "role_may role ''dropbear''"
  by (simp_all add: role_may_def)

abbreviation within :: "string \<Rightarrow> uci_command list \<Rightarrow> bool" where
  "within role cmds \<equiv> list_all (\<lambda>c. role_may role (uc_config c)) cmds"

lemma within_concat: "(\<And>x. within role (f x)) \<Longrightarrow> within role (concat (map f xs))"
  by (auto simp: list_all_iff)

lemma within_map: "(\<And>x. role_may role (uc_config (f x))) \<Longrightarrow> within role (map f xs)"
  by (simp add: list_all_iff)

lemma wan_within: "within ''Gateway'' (wan_commands w)"
  by (simp add: wan_commands_def Let_def gateway_may)

lemma mwan3_within: "within ''Gateway'' (renderMwan3Commands wans)"
  by (simp add: renderMwan3Commands_def gateway_may within_concat wan_within within_map)

lemma forwards_within: "within ''Gateway'' (render_forwards cfg)"
  unfolding render_forwards_def
  by (rule within_concat) (simp add: redirect_commands_def Let_def gateway_may)

lemma gateway_within: "within ''Gateway'' (render_gateway cfg lan)"
proof -
  have "within ''Gateway'' (render_reservations cfg)"
    by (simp add: render_reservations_def lease_command_def within_map gateway_may)
  moreover have "within ''Gateway'' (render_wans cfg)"
    by (simp add: render_wans_def Let_def mwan3_within)
  moreover have "within ''Gateway'' (render_sqm cfg)" "within ''Gateway'' (render_portal cfg)"
    "within ''Gateway'' (render_network cfg lan)" "within ''Gateway'' (render_dhcp cfg lan)"
    "within ''Gateway'' (render_firewall cfg)"
    by (simp_all add: render_sqm_def render_portal_def render_network_def render_dhcp_def render_firewall_def
        Let_def gateway_may)
  ultimately show ?thesis by (simp add: render_gateway_def forwards_within)
qed

lemma device_within: "within (rn_role (render_device cfg i dev)) (rn_commands (render_device cfg i dev))"
  by (simp add: render_device_def Let_def render_system_def render_dropbear_def gateway_may gateway_within)

lemma not_wireless: "role_may role config \<Longrightarrow> config \<noteq> ''wireless''"
  by (auto simp: role_may_def)

lemma rendered_devices: "map rn_device (RenderSiteConfig cfg devs) = map dr_device devs"
  by (rule nth_equalityI) (simp_all add: RenderSiteConfig_def nth_enumerate_eq render_device_def Let_def)

lemma rendered: "r \<in> set (RenderSiteConfig cfg devs) \<Longrightarrow> \<exists>i dev. r = render_device cfg i dev"
  by (auto simp: RenderSiteConfig_def)

text \<open>
  Rendering keeps to the role: there is one result per device, in the order of the devices; every
  command of a device that is not a gateway is for the system or the SSH server, and no device, gateway
  or not, gets a command for the wireless configuration, which belongs to the WLAN provisioner.
\<close>

theorem render_role_namespaces:
  "map rn_device (RenderSiteConfig cfg devs) = map dr_device devs
   \<and> list_all (\<lambda>r. list_all (\<lambda>c. role_may (rn_role r) (uc_config c) \<and> uc_config c \<noteq> ''wireless'') (rn_commands r))
       (RenderSiteConfig cfg devs)"
proof
  show "map rn_device (RenderSiteConfig cfg devs) = map dr_device devs" by (rule rendered_devices)
  have "list_all (\<lambda>c. role_may (rn_role r) (uc_config c) \<and> uc_config c \<noteq> ''wireless'') (rn_commands r)"
    if "r = render_device cfg i dev" for r i dev
    unfolding that by (rule list.pred_mono_strong [OF device_within]) (auto dest: not_wireless)
  then show "list_all (\<lambda>r. list_all (\<lambda>c. role_may (rn_role r) (uc_config c) \<and> uc_config c \<noteq> ''wireless'') (rn_commands r))
       (RenderSiteConfig cfg devs)"
    unfolding list_all_iff [of _ "RenderSiteConfig cfg devs"] using rendered by blast
qed

section \<open>Port forwards of a template\<close>

lemma redirect_add_refused: "translateCommand (mk_uci ''add'' ''firewall'' ''redirect'' [] []) = []"
  by (simp add: translateCommand_def AddAnonymousSection_def valid_uci_name_def)

lemma batch_needs_all:
  assumes "c \<in> set cmds" "translateCommand c = []"
  shows "BuildBatchScript config cmds = []" "ValidateDeviceOperation config cmds hc \<noteq> Inr ()"
proof -
  have "\<not> batch_accepts config cmds" using assms by (auto simp: batch_accepts_def list_all_iff)
  then show "BuildBatchScript config cmds = []" by (metis BuildBatchScript_nonempty)
  then show "ValidateDeviceOperation config cmds hc \<noteq> Inr ()" using validated_batch by blast
qed

lemma forwards_emitted:
  assumes "column_list dec_forward (sc_port_forwarding_rules cfg) \<noteq> []" "rn_role (render_device cfg i dev) = ''Gateway''"
  shows "mk_uci ''add'' ''firewall'' ''redirect'' [] [] \<in> set (rn_commands (render_device cfg i dev))"
proof -
  obtain pf where "pf \<in> set (column_list dec_forward (sc_port_forwarding_rules cfg))"
    using assms(1) by (meson list.set_sel(1))
  then have "mk_uci ''add'' ''firewall'' ''redirect'' [] [] \<in> set (render_forwards cfg)"
    unfolding render_forwards_def by (force simp: redirect_commands_def Let_def)
  then have "mk_uci ''add'' ''firewall'' ''redirect'' [] [] \<in> set (render_gateway cfg lan)" for lan
    by (simp only: render_gateway_def set_append Un_iff simp_thms)
  then show ?thesis using assms(2) by (simp add: render_device_def Let_def)
qed

text \<open>
  A template with a port forward cannot be deployed: the renderer puts the section type of the
  new redirect where the translation expects a section name and leaves the value empty, so the
  firewall commands of every gateway are refused as a whole, both as a script and as an operation.
\<close>

theorem rendered_forwards_refused:
  assumes "column_list dec_forward (sc_port_forwarding_rules cfg) \<noteq> []"
    and "r \<in> set (RenderSiteConfig cfg devs)" "rn_role r = ''Gateway''"
  shows "BuildBatchScript ''firewall'' (filter (\<lambda>c. uc_config c = ''firewall'') (rn_commands r)) = []
    \<and> (\<forall>hc. ValidateDeviceOperation ''firewall'' (filter (\<lambda>c. uc_config c = ''firewall'') (rn_commands r)) hc \<noteq> Inr ())"
proof -
  obtain i dev where "r = render_device cfg i dev" using rendered [OF assms(2)] by blast
  then have "mk_uci ''add'' ''firewall'' ''redirect'' [] [] \<in> set (filter (\<lambda>c. uc_config c = ''firewall'') (rn_commands r))"
    using forwards_emitted [OF assms(1)] assms(3) by simp
  from batch_needs_all [OF this redirect_add_refused] show ?thesis by blast
qed

definition sample_gateway :: device_role_info where
  "sample_gateway = \<lparr>dr_device = ''dev-1'', dr_hostname = [], dr_last_ip = [], dr_role = ''Gateway'',
     dr_logical_networks = Map.empty\<rparr>"

definition sample_forward_site :: site_config where
  "sample_forward_site = (empty_site ''site-1'')\<lparr>sc_port_forwarding_rules := Some (JArr [forward_json sample_forward])\<rparr>"

lemma sample_forward_column: "column_list dec_forward (sc_port_forwarding_rules sample_forward_site) = [sample_forward]"
  by code_simp

theorem rendered_forwards_refused_witness:
  "BuildBatchScript ''firewall'' (filter (\<lambda>c. uc_config c = ''firewall'')
     (rn_commands (render_device sample_forward_site 0 sample_gateway))) = []"
proof (rule rendered_forwards_refused [THEN conjunct1])
  show "column_list dec_forward (sc_port_forwarding_rules sample_forward_site) \<noteq> []"
    by (simp only: sample_forward_column) simp
  show "render_device sample_forward_site 0 sample_gateway \<in> set (RenderSiteConfig sample_forward_site [sample_gateway])"
    by (simp add: RenderSiteConfig_def enumerate_eq_zip)
  show "rn_role (render_device sample_forward_site 0 sample_gateway) = ''Gateway''"
    by (simp add: render_device_def Let_def sample_gateway_def)
qed

section \<open>Templates that the controller itself can store\<close>

inductive site_step :: "(site_config \<Rightarrow> bool) \<Rightarrow> site_state \<Rightarrow> site_state \<Rightarrow> bool" for fits where
  put: "PutSiteConfigHandler fits n req s = (r, s') \<Longrightarrow> site_step fits s s'"
| migrate: "CommitOmadaMigration fits n req s = (r, s') \<Longrightarrow> site_step fits s s'"

definition no_uplinks :: "site_table \<Rightarrow> bool" where
  "no_uplinks tbl \<longleftrightarrow>
     (\<forall>row \<in> ran tbl. sc_wan_interfaces row = Some (JArr []) \<and> \<not> sc_guest_portal_enabled row)"

lemma upsert_no_uplinks:
  assumes "no_uplinks tbl" "UpsertSiteConfig fits n sc tbl = (e, tbl')"
    "sc_wan_interfaces sc \<in> {None, Some (JArr [])}" "\<not> sc_guest_portal_enabled sc"
  shows "no_uplinks tbl'"
proof (cases e)
  case None
  then obtain i where "tbl' = tbl(sc_site sc \<mapsto> (jsonb_columns (site_defaults sc))\<lparr>sc_id := i\<rparr>)"
    using Upsert_saved assms(2) by blast
  moreover have "sc_wan_interfaces (jsonb_columns (site_defaults sc)) = Some (JArr [])"
    "\<not> sc_guest_portal_enabled (jsonb_columns (site_defaults sc))"
    using assms(3,4) by (auto simp: jsonb_columns_def site_defaults_def)
  ultimately show ?thesis using assms(1) by (auto simp: no_uplinks_def ran_def)
next
  case (Some x)
  then have "tbl' = tbl" using assms(2) by (auto simp: UpsertSiteConfig_def Let_def split: option.splits if_splits)
  with assms(1) show ?thesis by simp
qed

lemma upsert_outcome:
  "(\<exists>e. UpsertSiteConfig fits n sc tbl = (Some e, tbl)) \<or> (\<exists>tbl'. UpsertSiteConfig fits n sc tbl = (None, tbl'))"
  by (auto simp: UpsertSiteConfig_def Let_def split: option.split)

lemma put_outcome:
  "ss_configs (snd (PutSiteConfigHandler fits n req s)) = ss_configs s \<or>
   (\<exists>sc. body_config (sr_site req) (sr_body req) = Some sc
      \<and> UpsertSiteConfig fits n sc (ss_configs s) = (None, ss_configs (snd (PutSiteConfigHandler fits n req s))))"
proof (cases "body_config (sr_site req) (sr_body req)")
  case (Some sc)
  then show ?thesis
    using upsert_outcome [of fits n sc "ss_configs s"]
    by (cases "wlan_check req sc s"; cases "ValidateSQM sc")
      (auto simp: PutSiteConfigHandler_def site_audit_def)
qed (simp add: PutSiteConfigHandler_def)

lemma migrate_outcome:
  "ss_configs (snd (CommitOmadaMigration fits n req s)) = ss_configs s \<or>
   (\<exists>site sc dhcp fw. sc = (case GetSiteConfig (ss_configs s) site of None \<Rightarrow> empty_site site | Some c \<Rightarrow> c)
      \<and> UpsertSiteConfig fits n (sc\<lparr>sc_dhcp_reservations := dhcp, sc_port_forwarding_rules := fw\<rparr>) (ss_configs s)
          = (None, ss_configs (snd (CommitOmadaMigration fits n req s))))"
proof (cases "migration_payload (sr_body req)")
  case (Some a)
  obtain site dhcp fw where a: "a = (site, dhcp, fw)" by (cases a)
  let ?sc = "(case GetSiteConfig (ss_configs s) site of None \<Rightarrow> empty_site site | Some c \<Rightarrow> c)
    \<lparr>sc_dhcp_reservations := Some (slice_json lease_json dhcp), sc_port_forwarding_rules := Some (slice_json forward_json fw)\<rparr>"
  show ?thesis
  proof (cases "site = [] \<or> slice_elems dhcp = [] \<and> slice_elems fw = []")
    case True
    then show ?thesis using Some a by (auto simp: CommitOmadaMigration_def)
  next
    case False
    then have go: "(site = []) = False" "(slice_elems dhcp = [] \<and> slice_elems fw = []) = False" by blast+
    have run: "CommitOmadaMigration fits n req s =
      (case UpsertSiteConfig fits n ?sc (ss_configs s) of
         (Some e, _) \<Rightarrow> (SiteSaveFailed e, s)
       | (None, tbl) \<Rightarrow>
           (SiteSaved, site_audit req ''OMADA_MIGRATOR_COMMIT'' ''SITE_TEMPLATE'' site
              (''Assimilated '' @ nat_str (length (slice_elems dhcp)) @ '' DHCP / ''
                 @ nat_str (length (slice_elems fw)) @ '' FW rules into Orchestrator'') (s\<lparr>ss_configs := tbl\<rparr>)))"
      by (simp only: CommitOmadaMigration_def Some a option.case prod.case Let_def go if_False)
    from upsert_outcome [of fits n ?sc "ss_configs s"] show ?thesis
      unfolding run by (fastforce simp: site_audit_def)
  qed
qed (simp add: CommitOmadaMigration_def)

lemma site_step_no_uplinks:
  assumes "site_step fits s s'" "no_uplinks (ss_configs s)"
  shows "no_uplinks (ss_configs s')"
  using assms
proof (induction rule: site_step.induct)
  case (put n req s r s')
  then show ?case
    using put_outcome [of fits n req s] upsert_no_uplinks [OF put.prems] body_config_site by fastforce
next
  case (migrate n req s r s')
  have got: "sc_wan_interfaces sc \<in> {None, Some (JArr [])}" "\<not> sc_guest_portal_enabled sc"
    if "sc = (case GetSiteConfig (ss_configs s) site of None \<Rightarrow> empty_site site | Some c \<Rightarrow> c)" for site sc
    using that migrate.prems
    by (auto simp: GetSiteConfig_def no_uplinks_def ran_def empty_site_def split: option.splits)
  consider "ss_configs s' = ss_configs s" | site sc dhcp fw where
      "sc = (case GetSiteConfig (ss_configs s) site of None \<Rightarrow> empty_site site | Some c \<Rightarrow> c)"
      "UpsertSiteConfig fits n (sc\<lparr>sc_dhcp_reservations := dhcp, sc_port_forwarding_rules := fw\<rparr>) (ss_configs s)
          = (None, ss_configs s')"
    using migrate_outcome [of fits n req s] unfolding migrate.hyps by auto
  then show ?case
  proof cases
    case 2
    from upsert_no_uplinks [OF migrate.prems 2(2)] got [OF 2(1)] show ?thesis by simp
  qed (use migrate.prems in simp)
qed

text \<open>Commands of a template without uplinks and portal.\<close>

lemma plain_gateway:
  assumes "sc_wan_interfaces cfg = Some (JArr [])" "\<not> sc_guest_portal_enabled cfg"
  shows "list_all (\<lambda>c. uc_config c \<notin> {''mwan3'', ''opennds''}) (render_gateway cfg lan)"
proof -
  have "render_wans cfg = []" "render_portal cfg = []"
    using assms by (simp_all add: render_wans_def render_portal_def)
  moreover have "list_all (\<lambda>c. uc_config c \<notin> {''mwan3'', ''opennds''}) (render_reservations cfg)"
    by (simp add: render_reservations_def list_all_iff lease_command_def)
  moreover have "list_all (\<lambda>c. uc_config c \<notin> {''mwan3'', ''opennds''}) (render_forwards cfg)"
    by (auto simp: render_forwards_def list_all_iff redirect_commands_def)
  moreover have "list_all (\<lambda>c. uc_config c \<notin> {''mwan3'', ''opennds''}) (render_network cfg lan @ render_dhcp cfg lan
      @ render_firewall cfg @ render_sqm cfg)"
    by (simp add: render_sqm_def render_network_def render_dhcp_def render_firewall_def Let_def)
  ultimately show ?thesis by (simp add: render_gateway_def)
qed

text \<open>
  Multi-WAN and the guest portal are dead options: starting without templates, whatever sequence
  of saves and migrations the controller performs, no stored template ever renders a command for the
  multi-WAN daemon or the captive portal, on any device.
\<close>

theorem uplinks_never_rendered:
  assumes "(site_step fits)\<^sup>*\<^sup>* s0 s" "ss_configs s0 = Map.empty" "GetSiteConfig (ss_configs s) site = Some cfg"
  shows "list_all (\<lambda>r. list_all (\<lambda>c. uc_config c \<notin> {''mwan3'', ''opennds''}) (rn_commands r)) (RenderSiteConfig cfg devs)"
proof -
  have "no_uplinks (ss_configs s)"
    using assms(1,2) by (induction rule: rtranclp_induct) (auto simp: no_uplinks_def dest: site_step_no_uplinks)
  with assms(3) have "sc_wan_interfaces cfg = Some (JArr [])" "\<not> sc_guest_portal_enabled cfg"
    by (auto simp: GetSiteConfig_def no_uplinks_def ran_def)
  note plain = plain_gateway [OF this]
  show ?thesis
    unfolding list_all_iff [of _ "RenderSiteConfig cfg devs"]
    using plain by (auto simp: RenderSiteConfig_def render_device_def Let_def render_system_def render_dropbear_def)
qed

theorem uplinks_never_rendered_witness:
  "\<exists>(s :: site_state) cfg. GetSiteConfig (ss_configs s) ''site-1'' = Some cfg
     \<and> list_all (\<lambda>r. list_all (\<lambda>c. uc_config c \<notin> {''mwan3'', ''opennds''}) (rn_commands r))
         (RenderSiteConfig cfg [sample_gateway])"
proof -
  let ?s0 = "\<lparr>ss_configs = (\<lambda>_. None), ss_wlans = [], ss_audit = []\<rparr> :: site_state"
  obtain s' where s': "PutSiteConfigHandler (\<lambda>_. True) ''id-1'' sample_site_request ?s0 = (SiteSaved, s')"
    using sample_site_saved by (metis prod.collapse)
  then have steps: "(site_step (\<lambda>_. True))\<^sup>*\<^sup>* ?s0 s'" by (blast intro: site_step.put)
  obtain cfg where cfg: "GetSiteConfig (ss_configs s') (sr_site sample_site_request) = Some cfg"
    using put_saved [OF s'] Upsert_saved body_config_site(1) by metis
  have "ss_configs ?s0 = Map.empty" by simp
  from uplinks_never_rendered [OF steps this cfg, of "[sample_gateway]"] cfg
  show ?thesis unfolding sample_site_request_def by auto
qed

end
