(* ===== verification/Uci_Observed.thy ===== *)
theory Uci_Observed
  imports Uci_Bridge
begin

text \<open>
  Reading back what a device has: the parser of \<open>uci show\<close> output in
  \<open>src/internal/api/handlers/central_config.go\<close>, the comparison of planned commands with the observed
  sections, and the filter of \<open>site_orchestrator.go\<close> that drops the commands a device already satisfies.
  A Go value of type \<open>interface{}\<close> is a string or a list of strings here, the only two the parser builds.
\<close>

datatype uci_value = UciStr string | UciList "string list"

record uci_section =
  us_id :: string
  us_type :: string
  us_name :: string
  us_anon :: bool
  us_options :: "string \<rightharpoonup> uci_value"

section \<open>Values\<close>

text \<open>The inner loop of \<open>parseUCIValue\<close>: the text up to the closing quote, and what follows it.\<close>

function quoted_text :: "string \<Rightarrow> string \<times> string" where
  "quoted_text s =
     (if s = [] then ([], [])
      else if has_prefix s [CHR 0x27, CHR 0x5C, CHR 0x27, CHR 0x27]
      then (let (v, r) = quoted_text (drop 4 s) in (CHR 0x27 # v, r))
      else if hd s = CHR 0x27 then ([], tl s)
      else (let (v, r) = quoted_text (tl s) in (hd s # v, r)))"
  by pat_completeness auto
termination
  by (relation "measure length") auto

declare quoted_text.simps [simp del]

lemma quoted_text_shorter: "length (snd (quoted_text s)) \<le> length s"
proof (induction s rule: quoted_text.induct)
  case (1 s)
  then show ?case by (subst quoted_text.simps) (auto split: prod.split)
qed

lemma length_trim_left: "length (trim_left s) \<le> length s"
proof (induction s rule: trim_left.induct)
  case (1 s)
  then show ?case by (subst trim_left.simps) auto
qed

lemma length_trim_right: "length (trim_right s) \<le> length s"
proof (induction s rule: trim_right.induct)
  case (1 s)
  then show ?case by (subst trim_right.simps) auto
qed

lemma length_trim_space: "length (trim_space s) \<le> length s"
  using length_trim_left [of s] length_trim_right [of "trim_left s"] by (simp add: trim_space_def)

function quoted_values :: "string \<Rightarrow> string list" where
  "quoted_values s =
     (let raw = trim_space s in
      if raw = [] \<or> hd raw \<noteq> CHR 0x27 then []
      else fst (quoted_text (tl raw)) # quoted_values (snd (quoted_text (tl raw))))"
  by pat_completeness auto
termination
proof (relation "measure length")
  fix s raw
  assume "raw = trim_space s" "\<not> (raw = [] \<or> hd raw \<noteq> CHR 0x27)"
  then show "(snd (quoted_text (tl raw)), s) \<in> measure length"
    using quoted_text_shorter [of "tl raw"] length_trim_space [of s] by (cases "trim_space s") auto
qed simp

declare quoted_values.simps [simp del]

definition trim_quotes :: "string \<Rightarrow> string" where
  "trim_quotes s = rev (dropWhile ((=) CHR 0x27) (rev (dropWhile ((=) CHR 0x27) s)))"

definition parseUCIValue :: "string \<Rightarrow> uci_value" where
  "parseUCIValue s =
     (let raw = trim_space s in
      if raw = [] \<or> hd raw \<noteq> CHR 0x27 then UciStr (trim_quotes raw)
      else (case quoted_values raw of [v] \<Rightarrow> UciStr v | vs \<Rightarrow> UciList vs))"

fun uciOptionValues :: "uci_value \<Rightarrow> string list" where
  "uciOptionValues (UciStr v) = [v]"
| "uciOptionValues (UciList vs) = vs"

definition mergeUCIValues :: "uci_value \<Rightarrow> uci_value \<Rightarrow> uci_value" where
  "mergeUCIValues existing new =
     (case uciOptionValues existing @ uciOptionValues new of [v] \<Rightarrow> UciStr v | vs \<Rightarrow> UciList vs)"

section \<open>Sections\<close>

text \<open>
  The parser keeps a map of sections and the order of their first mention; here the sections are one
  list in that order, in which an id is looked up and updated in place.
\<close>

definition has_section :: "string \<Rightarrow> uci_section list \<Rightarrow> bool" where
  "has_section i secs \<longleftrightarrow> list_ex (\<lambda>s. us_id s = i) secs"

definition new_section :: "string \<Rightarrow> string \<Rightarrow> uci_section" where
  "new_section i ty = \<lparr>us_id = i, us_type = ty, us_name = i, us_anon = has_prefix i ''@'', us_options = Map.empty\<rparr>"

definition update_section :: "string \<Rightarrow> (uci_section \<Rightarrow> uci_section) \<Rightarrow> uci_section list \<Rightarrow> uci_section list" where
  "update_section i f secs = map (\<lambda>s. if us_id s = i then f s else s) secs"

definition declare_section :: "string \<Rightarrow> uci_value \<Rightarrow> uci_section list \<Rightarrow> uci_section list" where
  "declare_section i value secs =
     (if \<not> has_section i secs
      then secs @ [new_section i (case value of UciStr ty \<Rightarrow> ty | UciList _ \<Rightarrow> [])]
      else (case value of
              UciStr ty \<Rightarrow> update_section i (\<lambda>s. s\<lparr>us_type := ty\<rparr>) secs
            | UciList _ \<Rightarrow> secs))"

definition set_section_option :: "string \<Rightarrow> string \<Rightarrow> uci_value \<Rightarrow> uci_section list \<Rightarrow> uci_section list" where
  "set_section_option i opt value secs =
     update_section i
       (\<lambda>s. s\<lparr>us_options := (us_options s)
          (opt \<mapsto> (case us_options s opt of None \<Rightarrow> value | Some old \<Rightarrow> mergeUCIValues old value))\<rparr>)
       (if has_section i secs then secs else secs @ [new_section i []])"

definition parse_show_line :: "string \<Rightarrow> string \<Rightarrow> uci_section list \<Rightarrow> uci_section list" where
  "parse_show_line config text secs =
     (let line = trim_space text; pre = config @ ''.'' in
      if line = [] \<or> \<not> has_prefix line pre then secs
      else (case cut_at CHR ''='' (drop (length pre) line) of
              None \<Rightarrow> secs
            | Some (key, v) \<Rightarrow>
                (case cut_at CHR ''.'' key of
                   None \<Rightarrow> declare_section key (parseUCIValue v) secs
                 | Some (i, opt) \<Rightarrow> set_section_option i opt (parseUCIValue v) secs)))"

definition parseUciShow :: "string \<Rightarrow> string \<Rightarrow> uci_section list" where
  "parseUciShow raw config = fold (parse_show_line config) (split_on CHR 0x0A raw) []"

section \<open>Matching commands with sections\<close>

text \<open>The two groups of \<open>uciAnonymousSectionPattern\<close>, and \<open>strconv.Atoi\<close> of the second.\<close>

definition anonymous_reference :: "string \<Rightarrow> (string \<times> string) option" where
  "anonymous_reference ref =
     (case ref of
        [] \<Rightarrow> None
      | c # r \<Rightarrow>
          (let n = takeWhile name_char r; t = dropWhile name_char r
           in if c = CHR ''@'' \<and> n \<noteq> [] \<and> section_index t then Some (n, butlast (tl t)) else None))"

definition atoi :: "string \<Rightarrow> int option" where
  "atoi t =
     (let v = (if t \<noteq> [] \<and> hd t = CHR ''-'' then - int (str_nat (tl t)) else int (str_nat t))
      in if in_int64 v then Some v else None)"

definition uciSectionMatchesReference :: "string \<Rightarrow> uci_section \<Rightarrow> uci_section list \<Rightarrow> bool" where
  "uciSectionMatchesReference reference s secs \<longleftrightarrow>
     reference = us_id s \<or>
     (case anonymous_reference reference of
        None \<Rightarrow> False
      | Some (ty, digits) \<Rightarrow>
          us_type s = ty \<and>
          (case atoi digits of
             None \<Rightarrow> False
           | Some index \<Rightarrow>
               (let candidates = filter (\<lambda>c. us_type c = ty) secs;
                    positions = filter (\<lambda>n. us_id (candidates ! n) = us_id s) [0..<length candidates];
                    last_index = int (length candidates) - 1
                in positions \<noteq> [] \<and>
                   int (last positions) = (if index < 0 then last_index + index + 1 else index))))"

definition uciOptionContains :: "uci_value \<Rightarrow> string \<Rightarrow> bool \<Rightarrow> bool" where
  "uciOptionContains value want caseInsensitive \<longleftrightarrow>
     list_ex (\<lambda>candidate. if caseInsensitive then equal_fold candidate want else candidate = want)
       (uciOptionValues value)"

definition uciListEquals :: "uci_value \<Rightarrow> string list \<Rightarrow> bool" where
  "uciListEquals observed desired \<longleftrightarrow> uciOptionValues observed = desired"

definition uciMACListsEqual :: "uci_value \<Rightarrow> string list \<Rightarrow> bool" where
  "uciMACListsEqual observed desired \<longleftrightarrow> list_all2 equal_fold (uciOptionValues observed) desired"

definition uciCommandValueMatches :: "string \<Rightarrow> uci_value \<Rightarrow> string \<Rightarrow> bool" where
  "uciCommandValueMatches action observed want \<longleftrightarrow>
     (if action = ''add_list'' then uciOptionContains observed want False
      else if action = ''del_list'' then \<not> uciOptionContains observed want False
      else (case observed of
              UciList vs \<Rightarrow> length vs = 1 \<and> uciOptionContains (UciList vs) want False
            | UciStr _ \<Rightarrow> uciOptionContains observed want False))"

definition host_matches :: "uci_command \<Rightarrow> string list \<Rightarrow> uci_section \<Rightarrow> bool" where
  "host_matches cmd macs s \<longleftrightarrow>
     us_type s = ''host''
     \<and> us_options s ''name'' = Some (UciStr (uc_section cmd))
     \<and> (case us_options s ''mac'' of None \<Rightarrow> False | Some m \<Rightarrow> uciMACListsEqual m macs)
     \<and> (case us_options s ''ip'' of None \<Rightarrow> False | Some ip \<Rightarrow> uciOptionContains ip (uc_value cmd) False)"

definition uciCommandMatchesObserved :: "uci_command \<Rightarrow> uci_section list \<Rightarrow> bool" where
  "uciCommandMatchesObserved cmd secs \<longleftrightarrow>
     (if uc_action cmd = ''ensure_host''
      then (case ParseMACList (uc_option cmd) of None \<Rightarrow> False | Some macs \<Rightarrow> list_ex (host_matches cmd macs) secs)
      else if uc_action cmd = ''delete''
      then (case find (\<lambda>s. uciSectionMatchesReference (uc_section cmd) s secs) secs of
              None \<Rightarrow> True
            | Some s \<Rightarrow> uc_option cmd \<noteq> [] \<and> us_options s (uc_option cmd) = None)
      else list_ex (\<lambda>s. uciSectionMatchesReference (uc_section cmd) s secs
              \<and> (case us_options s (uc_option cmd) of
                   None \<Rightarrow> False
                 | Some v \<Rightarrow> uciCommandValueMatches (uc_action cmd) v (uc_value cmd))) secs)"

definition same_target :: "uci_command \<Rightarrow> uci_command \<Rightarrow> bool" where
  "same_target a b \<longleftrightarrow> uc_config a = uc_config b \<and> uc_section a = uc_section b \<and> uc_option a = uc_option b"

text \<open>The values a plan adds after it deleted an option: \<open>None\<close> where the source returns \<open>false\<close>.\<close>

definition plannedListAfterDelete :: "uci_command \<Rightarrow> uci_command list \<Rightarrow> string list option" where
  "plannedListAfterDelete cmd later =
     (let same = filter (\<lambda>l. same_target l cmd) later;
          desired = map uc_value (filter (\<lambda>l. uc_action l = ''add_list'') same)
      in if list_ex (\<lambda>l. uc_action l \<in> {''delete'', ''set'', ''del_list''}) same \<or> desired = [] then None
         else Some desired)"

definition observedUCIOption :: "string \<Rightarrow> string \<Rightarrow> uci_section list \<Rightarrow> uci_value option" where
  "observedUCIOption ref opt secs =
     (case find (\<lambda>s. uciSectionMatchesReference ref s secs) secs of None \<Rightarrow> None | Some s \<Rightarrow> us_options s opt)"

definition uciCommandMatchesObservedInPlan ::
  "uci_command \<Rightarrow> uci_command list \<Rightarrow> uci_section list \<Rightarrow> bool" where
  "uciCommandMatchesObservedInPlan cmd later secs \<longleftrightarrow>
     (case (if uc_action cmd = ''delete'' then plannedListAfterDelete cmd later else None) of
        Some desired \<Rightarrow>
          (case observedUCIOption (uc_section cmd) (uc_option cmd) secs of
             None \<Rightarrow> False
           | Some v \<Rightarrow> uciListEquals v desired)
      | None \<Rightarrow> uciCommandMatchesObserved cmd secs)"

definition isDefaultDifference :: "uci_command \<Rightarrow> bool" where
  "isDefaultDifference cmd \<longleftrightarrow>
     uc_config cmd = ''wireless'' \<and> uc_option cmd = ''disabled'' \<and> uc_value cmd = ''0''"

text \<open>The loop over the commands, with the commands after each.\<close>

fun filterUCICommandsByObservedState :: "uci_command list \<Rightarrow> uci_section list \<Rightarrow> uci_command list" where
  "filterUCICommandsByObservedState [] secs = []"
| "filterUCICommandsByObservedState (cmd # later) secs =
     (if uc_option cmd \<noteq> [] \<and> (uciCommandMatchesObservedInPlan cmd later secs \<or> isDefaultDifference cmd)
      then filterUCICommandsByObservedState later secs
      else cmd # filterUCICommandsByObservedState later secs)"

section \<open>Redaction\<close>

definition secret_options :: "string list" where
  "secret_options = [''key'', ''password'', ''secret'', ''private_key'', ''auth_secret'', ''auth_key'']"

fun redact_first :: "string list \<Rightarrow> string \<Rightarrow> string" where
  "redact_first [] command = command"
| "redact_first (opt # opts) command =
     (let marker = ''.'' @ opt @ ''='' in
      case index_of command marker of
        None \<Rightarrow> redact_first opts command
      | Some i \<Rightarrow> take (i + length marker) command @ sq @ ''<redacted>'' @ sq)"

definition redactUCICommand :: "string \<Rightarrow> string" where
  "redactUCICommand command = redact_first secret_options command"

definition redact_line :: "string \<Rightarrow> string" where
  "redact_line line =
     (case cut_at CHR ''='' line of
        None \<Rightarrow> line
      | Some (path, _) \<Rightarrow>
          if list_ex (\<lambda>opt. suffix (''.'' @ opt) path) secret_options
          then path @ ''='' @ sq @ ''<redacted>'' @ sq
          else line)"

definition redactUCIRaw :: "string \<Rightarrow> string" where
  "redactUCIRaw raw = join_with [CHR 0x0A] (map redact_line (split_on CHR 0x0A raw))"

section \<open>The output of uci show reads back\<close>

text \<open>
  The programmable notation that the source documents above its parser: a line per section with its
  type, then a line per option with the values in single quotes.
\<close>

type_synonym shown_section = "string \<times> string \<times> (string \<times> string list) list"

definition show_values :: "string list \<Rightarrow> string" where
  "show_values vs = join_with '' '' (map shellQuote vs)"

definition show_section :: "string \<Rightarrow> shown_section \<Rightarrow> string list" where
  "show_section config s =
     (case s of (i, ty, opts) \<Rightarrow>
        (config @ ''.'' @ i @ ''='' @ ty)
        # map (\<lambda>(opt, vs). config @ ''.'' @ i @ ''.'' @ opt @ ''='' @ show_values vs) opts)"

definition uci_show :: "string \<Rightarrow> shown_section list \<Rightarrow> string" where
  "uci_show config secs = unlines (concat (map (show_section config) secs))"

definition uci_value_of :: "string list \<Rightarrow> uci_value" where
  "uci_value_of vs = (case vs of [v] \<Rightarrow> UciStr v | _ \<Rightarrow> UciList vs)"

definition section_of :: "shown_section \<Rightarrow> uci_section" where
  "section_of s =
     (case s of (i, ty, opts) \<Rightarrow>
        (new_section i ty)\<lparr>us_options := map_of (map (\<lambda>(opt, vs). (opt, uci_value_of vs)) opts)\<rparr>)"

text \<open>What UCI stores: names from its alphabet, no option twice, at least one value, no line breaks.\<close>

definition shown_ok :: "shown_section \<Rightarrow> bool" where
  "shown_ok s \<longleftrightarrow>
     (case s of (i, ty, opts) \<Rightarrow>
        valid_uci_section i \<and> valid_uci_name ty \<and> distinct (map fst opts)
        \<and> list_all (\<lambda>(opt, vs). valid_uci_name opt \<and> vs \<noteq> [] \<and> list_all (\<lambda>v. CHR 0x0A \<notin> set v) vs) opts)"

lemma quoted_text_Nil [simp]: "quoted_text [] = ([], [])"
  by (simp add: quoted_text.simps)

lemma quoted_text_escaped:
  assumes "r = [] \<or> hd r = CHR 0x20"
  shows "quoted_text (escapeVal v @ CHR 0x27 # r) = (v, r)"
proof (induction v)
  case Nil
  have "\<not> has_prefix (CHR 0x27 # r) [CHR 0x27, CHR 0x5C, CHR 0x27, CHR 0x27]"
    using assms by (cases r) (auto simp: has_prefix_def)
  then show ?case by (subst quoted_text.simps) (simp add: escapeVal_def replace_char_def)
next
  case (Cons c v)
  show ?case
  proof (cases "c = CHR 0x27")
    case True
    then have e: "escapeVal (c # v) = [CHR 0x27, CHR 0x5C, CHR 0x27, CHR 0x27] @ escapeVal v"
      by (simp add: escapeVal_def replace_char_def)
    show ?thesis unfolding e by (subst quoted_text.simps) (simp add: has_prefix_def Cons True)
  next
    case False
    then have "escapeVal (c # v) = c # escapeVal v"
      by (simp add: escapeVal_def replace_char_def)
    with False show ?thesis by (subst quoted_text.simps) (simp add: has_prefix_def Cons)
  qed
qed


lemma name_char_visible: "name_char c \<Longrightarrow> visible c"
  by (auto simp: name_char_def visible_def char_class_defs less_eq_char_def)

lemma show_values_ends:
  "vs \<noteq> [] \<Longrightarrow> show_values vs \<noteq> [] \<and> hd (show_values vs) = CHR 0x27 \<and> last (show_values vs) = CHR 0x27"
proof (induction vs)
  case (Cons v vs)
  then show ?case
    by (cases vs) (auto simp: show_values_def shellQuote_def)
qed simp

lemma quoted_values_show:
  "vs \<noteq> [] \<Longrightarrow> quoted_values (show_values vs) = vs \<and> quoted_values (CHR 0x20 # show_values vs) = vs"
proof (induction vs)
  case (Cons v vs)
  let ?s = "show_values (v # vs)"
  have ends: "?s \<noteq> []" "hd ?s = CHR 0x27" "last ?s = CHR 0x27" using show_values_ends [of "v # vs"] by simp_all
  have trim: "trim_space ?s = ?s" "trim_space (CHR 0x20 # ?s) = ?s" using trim_visible [of ?s] ends by simp_all
  obtain r where r: "?s = CHR 0x27 # escapeVal v @ CHR 0x27 # r" "r = (if vs = [] then [] else CHR 0x20 # show_values vs)"
    by (cases vs) (simp_all add: show_values_def shellQuote_def)
  have "quoted_text (tl ?s) = (v, r)"
    using quoted_text_escaped [of r v] r by (auto split: if_splits)
  moreover have "quoted_values r = vs"
    using Cons.IH r(2) by (cases "vs = []") (auto simp: quoted_values.simps [of "[]"] trim_space_def trim_left.simps trim_right.simps)
  ultimately show ?case
    using trim ends by (subst (1 2) quoted_values.simps) simp
qed simp

lemma parse_shown_values: "vs \<noteq> [] \<Longrightarrow> parseUCIValue (show_values vs) = uci_value_of vs"
  using trim_visible(1) [of "show_values vs"] show_values_ends [of vs] quoted_values_show [of vs]
  by (simp add: parseUCIValue_def Let_def uci_value_of_def split: list.split)

lemma parse_shown_type: "valid_uci_name ty \<Longrightarrow> parseUCIValue ty = UciStr ty"
proof -
  assume "valid_uci_name ty"
  then have n: "ty \<noteq> []" "list_all name_char ty" by (simp_all add: valid_uci_name_def)
  then have ends: "name_char (hd ty)" "name_char (last ty)" by (auto simp: list_all_iff)
  then have q: "hd ty \<noteq> CHR 0x27" "last ty \<noteq> CHR 0x27"
    by (auto simp: name_char_def char_class_defs less_eq_char_def)
  with n(1) have "trim_quotes ty = ty"
    by (simp add: trim_quotes_def dropWhile_eq_self_iff [THEN iffD2] hd_rev)
  with n(1) q trim_visible(1) [of ty] ends show ?thesis
    by (simp add: parseUCIValue_def name_char_visible)
qed


lemma section_chars:
  assumes "valid_uci_section i"
  shows "i \<noteq> [] \<and> list_all (\<lambda>c. name_char c \<or> c \<in> {CHR ''@'', CHR ''['', CHR '']''}) i"
proof (cases "valid_uci_name i")
  case True
  then show ?thesis by (auto simp: valid_uci_name_def list_all_iff)
next
  case False
  with assms obtain r where i: "i = CHR ''@'' # r" and t: "dropWhile name_char r = [] \<or> section_index (dropWhile name_char r)"
    by (cases i) (simp_all add: valid_uci_section_def Let_def)
  have n: "list_all name_char (takeWhile name_char r)" by (auto simp: list_all_iff dest: set_takeWhileD)
  have "list_all (\<lambda>c. name_char c \<or> c \<in> {CHR ''['', CHR '']''}) (dropWhile name_char r)"
  proof (cases "dropWhile name_char r")
    case (Cons c u)
    with t have idx: "section_index (c # u)" by simp
    then obtain b where u: "c = CHR ''['' " "u = b @ [CHR '']'']"
      by (cases u rule: rev_cases) (auto simp: section_index_def Let_def)
    have "list_all name_char b"
      using idx by (cases b) (auto simp: u section_index_def Let_def list_all_iff name_char_def is_alnum_def split: if_splits)
    then show ?thesis by (auto simp: Cons u list_all_iff)
  next
    case Nil
    show ?thesis unfolding Nil by simp
  qed
  with n have "list_all (\<lambda>c. name_char c \<or> c \<in> {CHR ''@'', CHR ''['', CHR '']''}) (takeWhile name_char r @ dropWhile name_char r)"
    unfolding list_all_append by (auto simp: list_all_iff)
  then show ?thesis by (simp add: i)
qed

text \<open>Separators do not occur in names.\<close>

lemma separators_outside:
  assumes "list_all (\<lambda>c. name_char c \<or> c \<in> {CHR ''@'', CHR ''['', CHR '']''}) i"
  shows "CHR ''.'' \<notin> set i" "CHR ''='' \<notin> set i" "CHR 0x0A \<notin> set i"
  using assms by (auto simp: list_all_iff name_char_def char_class_defs less_eq_char_def)

lemma name_section: "valid_uci_name n \<Longrightarrow> valid_uci_section n"
  by (simp add: valid_uci_section_def)

lemma cut_at_append: "c \<notin> set a \<Longrightarrow> cut_at c (a @ c # b) = Some (a, b)"
  by (induction a) auto

lemma cut_at_None: "c \<notin> set a \<Longrightarrow> cut_at c a = None"
  by (induction a) auto

lemma name_ends: "valid_uci_name n \<Longrightarrow> n \<noteq> [] \<and> visible (hd n) \<and> visible (last n)"
  by (cases n) (auto simp: valid_uci_name_def list_all_iff name_char_visible)

lemma parse_type_line:
  assumes "valid_uci_name config" "valid_uci_section i" "valid_uci_name ty"
  shows "parse_show_line config (config @ ''.'' @ i @ ''='' @ ty) secs = declare_section i (UciStr ty) secs"
proof -
  let ?l = "config @ ''.'' @ i @ ''='' @ ty"
  have "trim_space ?l = ?l"
    using name_ends [OF assms(1)] name_ends [OF assms(3)] by (intro trim_visible(1)) auto
  moreover have "cut_at CHR ''='' (i @ CHR ''='' # ty) = Some (i, ty)" "cut_at CHR ''.'' i = None"
    using section_chars [OF assms(2)] by (simp_all add: cut_at_append cut_at_None separators_outside)
  ultimately show ?thesis
    by (simp add: parse_show_line_def Let_def has_prefix_def parse_shown_type [OF assms(3)])
qed

lemma parse_option_line:
  assumes "valid_uci_name config" "valid_uci_section i" "valid_uci_name opt" "vs \<noteq> []"
  shows "parse_show_line config (config @ ''.'' @ i @ ''.'' @ opt @ ''='' @ show_values vs) secs
       = set_section_option i opt (uci_value_of vs) secs"
proof -
  let ?l = "config @ ''.'' @ i @ ''.'' @ opt @ ''='' @ show_values vs"
  have "trim_space ?l = ?l"
    using name_ends [OF assms(1)] show_values_ends [OF assms(4)] by (intro trim_visible(1)) auto
  moreover have "cut_at CHR ''='' ((i @ CHR ''.'' # opt) @ CHR ''='' # show_values vs) = Some (i @ CHR ''.'' # opt, show_values vs)"
    using section_chars [OF assms(2)] section_chars [OF name_section [OF assms(3)]]
    by (intro cut_at_append) (simp add: separators_outside)
  moreover have "cut_at CHR ''.'' (i @ CHR ''.'' # opt) = Some (i, opt)"
    using section_chars [OF assms(2)] by (simp add: cut_at_append separators_outside)
  ultimately show ?thesis
    by (simp add: parse_show_line_def Let_def has_prefix_def parse_shown_values [OF assms(4)])
qed

lemma update_last:
  "\<not> has_section (us_id s) secs \<Longrightarrow> update_section (us_id s) f (secs @ [s]) = secs @ [f s]"
  by (auto simp: update_section_def has_section_def list_ex_iff intro!: map_idI)

lemma set_option_last:
  assumes "\<not> has_section (us_id s) secs" "us_options s opt = None"
  shows "set_section_option (us_id s) opt v (secs @ [s]) = secs @ [s\<lparr>us_options := (us_options s)(opt \<mapsto> v)\<rparr>]"
proof -
  have "has_section (us_id s) (secs @ [s])" by (simp add: has_section_def)
  with assms show ?thesis by (simp add: set_section_option_def update_last)
qed

lemma fold_update_map_of:
  "distinct (map fst kvs) \<Longrightarrow> fold (\<lambda>(k, v) m. m(k \<mapsto> v)) kvs m = m ++ map_of kvs"
proof (induction kvs arbitrary: m)
  case (Cons kv kvs)
  then show ?case
    by (cases kv) (auto simp: fun_eq_iff map_add_def map_of_eq_None_iff [symmetric] split: option.split)
qed simp


lemma parse_shown_options:
  assumes "valid_uci_name config" "valid_uci_section i" "us_id s = i" "\<not> has_section i secs" "distinct (map fst opts)"
    "list_all (\<lambda>(opt, vs). valid_uci_name opt \<and> vs \<noteq> []) opts" "\<forall>opt \<in> fst ` set opts. us_options s opt = None"
  shows "fold (parse_show_line config) (map (\<lambda>(opt, vs). config @ ''.'' @ i @ ''.'' @ opt @ ''='' @ show_values vs) opts) (secs @ [s])
       = secs @ [s\<lparr>us_options := us_options s ++ map_of (map (\<lambda>(opt, vs). (opt, uci_value_of vs)) opts)\<rparr>]"
  using assms(3-)
proof (induction opts arbitrary: s)
  case (Cons o' opts)
  obtain opt vs where o': "o' = (opt, vs)" by (cases o')
  let ?s = "s\<lparr>us_options := (us_options s)(opt \<mapsto> uci_value_of vs)\<rparr>"
  have step: "parse_show_line config (config @ ''.'' @ i @ ''.'' @ opt @ ''='' @ show_values vs) (secs @ [s]) = secs @ [?s]"
    using Cons.prems set_option_last [of s secs opt] by (simp add: o' parse_option_line [OF assms(1,2), simplified])
  have fresh: "\<forall>k \<in> fst ` set opts. us_options ?s k = None"
    using Cons.prems by (force simp: o')
  have "opt \<notin> dom (map_of (map (\<lambda>(opt, vs). (opt, uci_value_of vs)) opts))"
    using Cons.prems(3) by (auto simp: o' dom_map_of_conv_image_fst image_image split_beta)
  then have "(us_options s)(opt \<mapsto> uci_value_of vs) ++ map_of (map (\<lambda>(opt, vs). (opt, uci_value_of vs)) opts)
      = us_options s ++ (map_of (map (\<lambda>(opt, vs). (opt, uci_value_of vs)) opts))(opt \<mapsto> uci_value_of vs)"
    by (simp add: map_add_upd_left)
  with Cons.IH [of ?s] Cons.prems fresh step show ?case by (simp add: o' del: fun_upd_apply)
qed simp

lemma parse_shown_section:
  assumes "valid_uci_name config" "shown_ok s" "\<not> has_section (fst s) secs"
  shows "fold (parse_show_line config) (show_section config s) secs = secs @ [section_of s]"
proof -
  obtain i ty opts where s: "s = (i, ty, opts)" by (cases s)
  have ok: "valid_uci_section i" "valid_uci_name ty" "distinct (map fst opts)"
    "list_all (\<lambda>(opt, vs). valid_uci_name opt \<and> vs \<noteq> []) opts"
    using assms(2) by (auto simp: s shown_ok_def list_all_iff)
  have "declare_section i (UciStr ty) secs = secs @ [new_section i ty]"
    using assms(3) by (simp add: s declare_section_def)
  moreover have "us_id (new_section i ty) = i" "us_options (new_section i ty) = Map.empty"
    by (simp_all add: new_section_def)
  ultimately show ?thesis
    using parse_shown_options [OF assms(1) ok(1), of "new_section i ty" secs opts] assms(3) ok
    by (simp add: s show_section_def section_of_def parse_type_line [OF assms(1), simplified])
qed

lemma section_of_id: "us_id (section_of s) = fst s"
  by (cases s) (simp add: section_of_def new_section_def)

lemma parse_shown_sections:
  assumes "valid_uci_name config"
  shows "list_all shown_ok ss \<Longrightarrow> distinct (map fst ss) \<Longrightarrow> \<forall>i \<in> set (map fst ss). \<not> has_section i secs \<Longrightarrow>
     fold (parse_show_line config) (concat (map (show_section config) ss)) secs = secs @ map section_of ss"
proof (induction ss arbitrary: secs)
  case (Cons s ss)
  have fresh: "\<forall>i \<in> set (map fst ss). \<not> has_section i (secs @ [section_of s])"
    using Cons.prems by (auto simp: has_section_def section_of_id)
  have "fold (parse_show_line config) (show_section config s) secs = secs @ [section_of s]"
    using Cons.prems by (intro parse_shown_section [OF assms]) simp_all
  with Cons.IH [of "secs @ [section_of s]"] Cons.prems fresh show ?case by simp
qed simp

lemma split_on_Cons_line: "c \<notin> set l \<Longrightarrow> split_on c (l @ c # r) = l # split_on c r"
  by (induction l) auto

lemma split_unlines: "\<forall>l \<in> set ls. CHR 0x0A \<notin> set l \<Longrightarrow> split_on CHR 0x0A (unlines ls) = ls @ [[]]"
  by (induction ls) (auto simp: unlines_def split_on_Cons_line)

lemma show_values_no_newline: "list_all (\<lambda>v. CHR 0x0A \<notin> set v) vs \<Longrightarrow> CHR 0x0A \<notin> set (show_values vs)"
proof (induction vs)
  case (Cons v vs)
  have "CHR 0x0A \<notin> set (shellQuote v)"
    using Cons.prems by (auto simp: shellQuote_def escapeVal_def replace_char_def split: if_splits)
  with Cons show ?case by (cases vs) (auto simp: show_values_def)
qed (simp add: show_values_def)

lemma name_no_newline: "valid_uci_section n \<Longrightarrow> CHR 0x0A \<notin> set n"
  using section_chars separators_outside(3) by blast

lemma show_section_no_newline:
  assumes "valid_uci_name config" "shown_ok s" "l \<in> set (show_section config s)"
  shows "CHR 0x0A \<notin> set l"
  using assms show_values_no_newline name_no_newline [OF name_section [OF assms(1)]]
  by (auto simp: show_section_def shown_ok_def list_all_iff name_no_newline name_section split: prod.splits)

text \<open>
  Reading back \<open>uci show\<close>: for sections as UCI stores them, with values that hold quotes, blanks,
  dots and equals signs but no line break, the parser returns exactly the sections that were printed,
  in their order, with every option and every list element.
\<close>

theorem uci_show_roundtrip:
  assumes "valid_uci_name config" "list_all shown_ok ss" "distinct (map fst ss)"
  shows "parseUciShow (uci_show config ss) config = map section_of ss"
proof -
  have "split_on CHR 0x0A (uci_show config ss) = concat (map (show_section config) ss) @ [[]]"
    unfolding uci_show_def using show_section_no_newline [OF assms(1)] assms(2)
    by (intro split_unlines) (auto simp: list_all_iff)
  moreover have "parse_show_line config [] secs = secs" for secs
    by (simp add: parse_show_line_def trim_space_def trim_left.simps trim_right.simps)
  ultimately show ?thesis
    using parse_shown_sections [OF assms(1,2,3), of "[]"] by (simp add: parseUciShow_def has_section_def)
qed

definition sample_shown :: "shown_section list" where
  "sample_shown =
     [(''@dnsmasq[0]'', ''dnsmasq'', [(''server'', [''9.9.9.9'', ''1.1.1.1'']), (''domain'', [''lan''])]),
      (''lan'', ''dhcp'', [(''start'', [''100'']), (''comment'', [''it'' @ sq @ ''s = a.b''])])]"

theorem uci_show_roundtrip_witness:
  "map us_id (parseUciShow (uci_show ''dhcp'' sample_shown) ''dhcp'') = [''@dnsmasq[0]'', ''lan'']
   \<and> us_options (parseUciShow (uci_show ''dhcp'' sample_shown) ''dhcp'' ! 1) ''comment'' = Some (UciStr (''it'' @ sq @ ''s = a.b''))"
proof -
  have ok: "valid_uci_name ''dhcp''" "list_all shown_ok sample_shown" "distinct (map fst sample_shown)"
    by code_simp+
  show ?thesis
    unfolding uci_show_roundtrip [OF ok]
    by (simp add: sample_shown_def section_of_def new_section_def uci_value_of_def)
qed


section \<open>What the filter may drop\<close>

text \<open>
  The effect of the four option commands of UCI on the options of a namespace. An option holds a
  list of values; setting it replaces the list, and a list that loses its last element is gone.
\<close>

type_synonym uci_options = "string \<times> string \<rightharpoonup> string list"

definition uci_key :: "uci_command \<Rightarrow> string \<times> string" where
  "uci_key c = (uc_section c, uc_option c)"

definition uci_exec :: "uci_command \<Rightarrow> uci_options \<Rightarrow> uci_options" where
  "uci_exec c st =
     (let k = uci_key c; old = (case st k of None \<Rightarrow> [] | Some vs \<Rightarrow> vs) in
      if uc_action c = ''set'' then st(k \<mapsto> [uc_value c])
      else if uc_action c = ''add_list'' then st(k \<mapsto> old @ [uc_value c])
      else if uc_action c = ''delete'' then st(k := None)
      else if uc_action c = ''del_list''
      then (let vs = filter (\<lambda>v. v \<noteq> uc_value c) old in st(k := if vs = [] then None else Some vs))
      else st)"

definition observed_options :: "uci_section list \<Rightarrow> uci_options" where
  "observed_options secs k = map_option uciOptionValues (observedUCIOption (fst k) (snd k) secs)"

text \<open>A reference names one section at most.\<close>

definition names_one :: "uci_section list \<Rightarrow> string \<Rightarrow> bool" where
  "names_one secs ref \<longleftrightarrow> length (filter (\<lambda>s. uciSectionMatchesReference ref s secs) secs) \<le> 1"

lemma find_unique:
  assumes "length (filter P xs) \<le> 1" "x \<in> set xs" "P x"
  shows "find P xs = Some x"
proof -
  have "x \<in> set (filter P xs)" using assms by simp
  then have "filter P xs = [x]" using assms(1) by (cases "filter P xs") auto
  then show ?thesis
  proof (cases "find P xs")
    case None
    then show ?thesis using assms by (auto simp: find_None_iff)
  next
    case (Some y)
    then have "y \<in> set (filter P xs)" by (auto simp: find_Some_iff)
    with \<open>filter P xs = [x]\<close> Some show ?thesis by simp
  qed
qed

lemma set_matches_observed:
  assumes "names_one secs (uc_section c)" "uc_action c = ''set''" "uciCommandMatchesObserved c secs"
  shows "observed_options secs (uci_key c) = Some [uc_value c]"
proof -
  from assms(2,3) obtain s v where s: "s \<in> set secs" "uciSectionMatchesReference (uc_section c) s secs"
      "us_options s (uc_option c) = Some v" "uciCommandValueMatches ''set'' v (uc_value c)"
    by (auto simp: uciCommandMatchesObserved_def list_ex_iff split: option.splits)
  have "find (\<lambda>s. uciSectionMatchesReference (uc_section c) s secs) secs = Some s"
    using assms(1) s(1,2) unfolding names_one_def by (intro find_unique)
  moreover have "uciOptionValues v = [uc_value c]"
    using s(4) by (cases v) (auto simp: uciCommandValueMatches_def uciOptionContains_def length_Suc_conv)
  ultimately show ?thesis
    by (simp add: observed_options_def observedUCIOption_def uci_key_def s(3))
qed

lemma delete_matches_observed:
  assumes "uc_action c = ''delete''" "uciCommandMatchesObserved c secs"
  shows "observed_options secs (uci_key c) = None"
  using assms by (auto simp: uciCommandMatchesObserved_def observed_options_def observedUCIOption_def uci_key_def
      split: option.splits)

text \<open>A command that would not change the observed value.\<close>

definition settled_command :: "uci_options \<Rightarrow> uci_command \<Rightarrow> bool" where
  "settled_command st c \<longleftrightarrow> uci_exec c st = st"

lemma uci_exec_other: "k \<noteq> uci_key c \<Longrightarrow> uci_exec c st k = st k"
  by (simp add: uci_exec_def Let_def)

lemma settled_by_value:
  "uc_action c = ''set'' \<Longrightarrow> settled_command st c \<longleftrightarrow> st (uci_key c) = Some [uc_value c]"
  "uc_action c = ''delete'' \<Longrightarrow> settled_command st c \<longleftrightarrow> st (uci_key c) = None"
  by (simp_all add: settled_command_def uci_exec_def Let_def fun_upd_idem_iff)

lemma dropped_settled:
  assumes "uc_action c \<in> {''set'', ''delete''}" "\<forall>l \<in> set later. uci_key l \<noteq> uci_key c" "names_one secs (uc_section c)"
    "uciCommandMatchesObservedInPlan c later secs" "st (uci_key c) = observed_options secs (uci_key c)"
  shows "settled_command st c"
proof -
  have "filter (\<lambda>l. same_target l c) later = []"
    using assms(2) by (auto simp: filter_empty_conv same_target_def uci_key_def)
  then have "plannedListAfterDelete c later = None" by (simp add: plannedListAfterDelete_def)
  then have m: "uciCommandMatchesObserved c secs"
    using assms(4) by (simp add: uciCommandMatchesObservedInPlan_def split: if_splits)
  show ?thesis
  proof (cases "uc_action c = ''set''")
    case True
    then show ?thesis using set_matches_observed [OF assms(3) _ m] settled_by_value(1) assms(5) by simp
  next
    case False
    then have "uc_action c = ''delete''" using assms(1) by simp
    then show ?thesis using delete_matches_observed [OF _ m] settled_by_value(2) assms(5) by simp
  qed
qed

lemma filter_keeps_effect:
  assumes "distinct (map uci_key cmds)" "\<forall>c \<in> set cmds. uc_action c \<in> {''set'', ''delete''} \<and> uc_config c \<noteq> ''wireless''
      \<and> names_one secs (uc_section c)"
    "\<forall>c \<in> set cmds. st (uci_key c) = observed_options secs (uci_key c)"
  shows "fold uci_exec (filterUCICommandsByObservedState cmds secs) st = fold uci_exec cmds st"
  using assms
proof (induction cmds arbitrary: st)
  case (Cons c cmds)
  have keys: "\<forall>d \<in> set cmds. uci_key d \<noteq> uci_key c"
    using Cons.prems(1) by (metis distinct.simps(2) image_eqI list.map(2) list.set_map)
  then have rest: "\<forall>d \<in> set cmds. uci_exec c st (uci_key d) = observed_options secs (uci_key d)"
    using Cons.prems(3) by (simp add: uci_exec_other)
  have c: "uc_action c \<in> {''set'', ''delete''}" "names_one secs (uc_section c)"
    "st (uci_key c) = observed_options secs (uci_key c)" using Cons.prems(2,3) by simp_all
  note IH = Cons.IH [of "uci_exec c st"] Cons.IH [of st]
  show ?case
  proof (cases "uc_option c \<noteq> [] \<and> uciCommandMatchesObservedInPlan c cmds secs")
    case True
    have "settled_command st c"
      using dropped_settled [OF c(1) keys c(2), of st] c(3) True by simp
    with IH(2) Cons.prems True show ?thesis by (simp add: settled_command_def)
  next
    case False
    then have "filterUCICommandsByObservedState (c # cmds) secs = c # filterUCICommandsByObservedState cmds secs"
      using Cons.prems(2) by (auto simp: isDefaultDifference_def)
    with IH(1) Cons.prems rest show ?thesis by simp
  qed
qed simp


definition sample_sections :: "uci_section list" where
  "sample_sections = map section_of sample_shown"

definition sample_planned :: "uci_command list" where
  "sample_planned =
     [mk_uci ''set'' ''dhcp'' ''lan'' ''start'' ''100'', mk_uci ''set'' ''dhcp'' ''lan'' ''limit'' ''150'',
      mk_uci ''delete'' ''dhcp'' ''@dnsmasq[0]'' ''rebind_protection'' []]"

lemma sample_filtered:
  "filterUCICommandsByObservedState sample_planned sample_sections = [mk_uci ''set'' ''dhcp'' ''lan'' ''limit'' ''150'']"
  by code_simp


end
