(* ===== verification/Rollout_Planning.thy ===== *)
theory Rollout_Planning
  imports Rollout_Worker Site_Renderer Uci_Observed
begin

text \<open>
  From a site template to an immutable rollout draft, \<open>src/internal/api/handlers/site_orchestrator.go\<close>:
  the rendered commands are restricted to the requested namespaces, compared with the observed state
  of every device, ordered into phases and stored with guarded scripts (\<open>PreviewSyncHandler\<close>); a
  stored draft is decoded, checked against its hash, and turned into device changesets. The session
  with a device is the argument \<open>show\<close>, the text of \<open>uci show\<close> or \<open>None\<close> for a transport error; the
  rows of the device query are an argument too.
\<close>

section \<open>Drafts\<close>

text \<open>A Go map from strings to strings, as its entries in the order in which they are encoded.\<close>

type_synonym str_map = "(string \<times> string) list"

fun put_entry :: "string \<Rightarrow> string \<Rightarrow> str_map \<Rightarrow> str_map" where
  "put_entry k v [] = [(k, v)]"
| "put_entry k v ((x, y) # m) =
     (if k = x then (k, v) # m else if k < x then (k, v) # (x, y) # m else (x, y) # put_entry k v m)"

definition entry :: "str_map \<Rightarrow> string \<Rightarrow> string" where
  "entry m k = (case map_of m k of None \<Rightarrow> [] | Some v \<Rightarrow> v)"

text \<open>Slices and maps that may be nil are options: \<open>nil\<close> is encoded as \<open>null\<close>.\<close>

record draft_device =
  dd_id :: string
  dd_hostname :: string
  dd_role :: string
  dd_commands :: "uci_command list option"
  dd_preview :: "string list option"
  dd_scripts :: "str_map option"
  dd_observed :: "str_map option"

record draft_plan =
  dp_site :: string
  dp_target :: string
  dp_namespace :: string
  dp_health_checks :: "string list option"
  dp_devices :: "draft_device list option"

definition map_json :: "str_map option \<Rightarrow> json" where
  "map_json m = (case m of None \<Rightarrow> JNull | Some kvs \<Rightarrow> JObj (map (\<lambda>(k, v). (k, JStr v)) kvs))"

definition draft_device_json :: "draft_device \<Rightarrow> json" where
  "draft_device_json d =
     JObj [(''device_id'', JStr (dd_id d)), (''hostname'', JStr (dd_hostname d)), (''role'', JStr (dd_role d)),
           (''commands'', slice_json command_json (dd_commands d)),
           (''preview_commands'', slice_json JStr (dd_preview d)),
           (''scripts'', map_json (dd_scripts d)), (''observed_state'', map_json (dd_observed d))]"

definition draft_json :: "draft_plan \<Rightarrow> json" where
  "draft_json p =
     JObj ([(''site_id'', JStr (dp_site p))]
       @ (if dp_target p = [] then [] else [(''target_device_id'', JStr (dp_target p))])
       @ (if dp_namespace p = [] then [] else [(''namespace'', JStr (dp_namespace p))])
       @ [(''health_checks'', slice_json JStr (dp_health_checks p)),
          (''devices'', slice_json draft_device_json (dp_devices p))])"

text \<open>Decoding: entries of an object are put into the map one by one; \<open>null\<close> resets it to nil.\<close>

fun fold_map :: "str_map option \<Rightarrow> json list \<Rightarrow> str_map option option" where
  "fold_map cur [] = Some cur"
| "fold_map cur (JNull # r) = fold_map None r"
| "fold_map cur (JObj kvs # r) =
     (case all_some (map (\<lambda>(k, v). map_option (Pair k) (elem_str v)) kvs) of
        None \<Rightarrow> None
      | Some ps \<Rightarrow> fold_map (Some (fold (\<lambda>(k, v). put_entry k v) ps (slice_elems cur))) r)"
| "fold_map cur (_ # r) = None"

definition go_map :: "string \<Rightarrow> (string \<times> json) list \<Rightarrow> str_map option option" where
  "go_map name kvs = fold_map None (go_entries name kvs)"

definition dec_draft_device :: "json \<Rightarrow> draft_device option" where
  "dec_draft_device j =
     do { kvs \<leftarrow> go_obj j;
          i \<leftarrow> go_str ''device_id'' kvs;
          h \<leftarrow> go_str ''hostname'' kvs;
          r \<leftarrow> go_str ''role'' kvs;
          cs \<leftarrow> go_slice dec_command ''commands'' kvs;
          ps \<leftarrow> go_slice elem_str ''preview_commands'' kvs;
          ss \<leftarrow> go_map ''scripts'' kvs;
          ob \<leftarrow> go_map ''observed_state'' kvs;
          Some \<lparr>dd_id = i, dd_hostname = h, dd_role = r, dd_commands = cs, dd_preview = ps,
                dd_scripts = ss, dd_observed = ob\<rparr> }"

definition dec_draft :: "json \<Rightarrow> draft_plan option" where
  "dec_draft j =
     do { kvs \<leftarrow> go_obj j;
          s \<leftarrow> go_str ''site_id'' kvs;
          t \<leftarrow> go_str ''target_device_id'' kvs;
          n \<leftarrow> go_str ''namespace'' kvs;
          hc \<leftarrow> go_slice elem_str ''health_checks'' kvs;
          ds \<leftarrow> go_slice dec_draft_device ''devices'' kvs;
          Some \<lparr>dp_site = s, dp_target = t, dp_namespace = n, dp_health_checks = hc, dp_devices = ds\<rparr> }"

definition rolloutPlanHash :: "draft_plan \<Rightarrow> string" where
  "rolloutPlanHash p = hex_encode (sha256 (json_enc True (draft_json p)))"

section \<open>Namespaces and phases\<close>

definition requestedChangeSetNamespaces :: "string \<Rightarrow> string list option" where
  "requestedChangeSetNamespaces raw =
     (let parts = map trim_space (split_on CHR '','' raw)
      in if list_all (\<lambda>n. n \<noteq> [] \<and> n \<in> set safe_namespaces) parts then Some parts else None)"

definition selectRolloutDevices :: "device_role_info list \<Rightarrow> string \<Rightarrow> device_role_info list option" where
  "selectRolloutDevices devs target =
     (if target = [] then Some devs
      else map_option (\<lambda>d. [d]) (find (\<lambda>d. dr_device d = target) devs))"

definition rolloutHealthTargets :: "site_config \<Rightarrow> string list option" where
  "rolloutHealthTargets sc =
     (case (case sc_health_checks sc of None \<Rightarrow> Some None | Some j \<Rightarrow> top_slice elem_str j) of
        None \<Rightarrow> None
      | Some ts \<Rightarrow>
          (case ValidateHealthTargets (slice_elems ts) of
             None \<Rightarrow> None
           | Some valid \<Rightarrow> Some (if valid = [] then [''1.1.1.1''] else valid)))"

definition filterRolloutResultsByNamespace :: "render_result list \<Rightarrow> string \<Rightarrow> render_result list option" where
  "filterRolloutResultsByNamespace results namespace =
     (if namespace = [] then Some results
      else map_option (\<lambda>nss. map (\<lambda>r. r\<lparr>rn_commands := filter (\<lambda>c. uc_config c \<in> set nss) (rn_commands r)\<rparr>) results)
             (requestedChangeSetNamespaces namespace))"

type_synonym observed_state = "string \<rightharpoonup> str_map"

definition dropEmptyRolloutResults ::
  "render_result list \<Rightarrow> observed_state \<Rightarrow> render_result list \<times> observed_state" where
  "dropEmptyRolloutResults results observed =
     (let kept = filter (\<lambda>r. rn_commands r \<noteq> []) results
      in (kept, observed |` (rn_device ` set kept)))"

definition rejectUnsafeNetworkMutations :: "render_result list \<Rightarrow> bool" where
  "rejectUnsafeNetworkMutations results \<longleftrightarrow>
     list_ex (\<lambda>r. list_ex (\<lambda>c. uc_config c = ''network'') (rn_commands r)) results"

definition groupCommandsByConfig :: "uci_command list \<Rightarrow> string \<Rightarrow> uci_command list" where
  "groupCommandsByConfig cmds config = filter (\<lambda>c. uc_config c = config) cmds"

definition sortedConfigNames :: "uci_command list \<Rightarrow> string list" where
  "sortedConfigNames cmds = sort (remdups (map uc_config cmds))"

text \<open>\<open>sort.SliceStable\<close> on the indices: gateways last, then by device id; one device per phase.\<close>

definition sequentialFleetRolloutPhases :: "render_result list \<Rightarrow> nat list list" where
  "sequentialFleetRolloutPhases results =
     map (\<lambda>i. [i]) (sort_key (\<lambda>i. (rn_role (results ! i) = ''Gateway'', rn_device (results ! i))) [0..<length results])"

section \<open>Preflight\<close>

definition observedStateHash :: "string \<Rightarrow> string" where
  "observedStateHash raw = hex_encode (sha256 raw)"

fun preflight_configs ::
  "(string \<Rightarrow> string option) \<Rightarrow> uci_command list \<Rightarrow> string list \<Rightarrow> (uci_command list \<times> str_map) option" where
  "preflight_configs show cmds [] = Some ([], [])"
| "preflight_configs show cmds (config # configs) =
     do { observed \<leftarrow> show config;
          (rest, state) \<leftarrow> preflight_configs show cmds configs;
          Some (filterUCICommandsByObservedState (groupCommandsByConfig cmds config) (parseUciShow observed config) @ rest,
                put_entry config (observedStateHash observed) state) }"

fun preflightRenderedResultsWithState ::
  "(string \<Rightarrow> string \<Rightarrow> string option) \<Rightarrow> render_result list \<Rightarrow> (render_result list \<times> observed_state) option" where
  "preflightRenderedResultsWithState show [] = Some ([], Map.empty)"
| "preflightRenderedResultsWithState show (r # rs) =
     do { (cmds, state) \<leftarrow> preflight_configs (show (rn_device r)) (rn_commands r) (sortedConfigNames (rn_commands r));
          (rest, observed) \<leftarrow> preflightRenderedResultsWithState show rs;
          Some (r\<lparr>rn_commands := cmds\<rparr> # rest,
                if rn_device r \<in> dom observed then observed else observed(rn_device r \<mapsto> state)) }"

section \<open>Scripts with a guard\<close>

definition mutation_marker :: string where
  "mutation_marker = unlines [''# Phase 2: Apply UCI mutations'']"

text \<open>The verb \<open>%q\<close> on a hash, which is hexadecimal text.\<close>

definition rollout_guard :: "string \<Rightarrow> string \<Rightarrow> string" where
  "rollout_guard config hash = unlines
     [''observed_rollout_hash=$(uci show '' @ config @ '' 2>&1 | sha256sum | awk '' @ sq @ ''{print $1}'' @ sq @ '')'',
      ''if [ '' @ dq @ ''$observed_rollout_hash'' @ dq @ '' != '' @ dq @ hash @ dq @ '' ]; then'',
      ''  printf '' @ sq @ ''SITE_ORCHESTRATOR: rollout draft stale for config '' @ config @ bs @ ''n'' @ sq @ '' >&2'',
      ''  exit 75'',
      ''fi'',
      []]"

definition buildGuardedRolloutScript ::
  "string \<Rightarrow> uci_command list \<Rightarrow> string list \<Rightarrow> string \<Rightarrow> string option" where
  "buildGuardedRolloutScript config cmds healthChecks hash =
     (let script = BuildSafeBatchScript config cmds healthChecks in
      if script = [] \<or> hash = [] then None
      else (case index_of script mutation_marker of
              None \<Rightarrow> None
            | Some i \<Rightarrow> Some (take i script @ rollout_guard config hash @ drop i script)))"

section \<open>Building a draft\<close>

datatype plan_error = PlanMissingState string | PlanScript string

fun device_scripts :: "uci_command list \<Rightarrow> string list \<Rightarrow> str_map \<Rightarrow> string list \<Rightarrow> str_map option" where
  "device_scripts cmds healthChecks state [] = Some []"
| "device_scripts cmds healthChecks state (config # configs) =
     do { script \<leftarrow> buildGuardedRolloutScript config (groupCommandsByConfig cmds config) healthChecks (entry state config);
          rest \<leftarrow> device_scripts cmds healthChecks state configs;
          Some (put_entry config script rest) }"

definition draft_device_of ::
  "string list \<Rightarrow> observed_state \<Rightarrow> render_result \<Rightarrow> plan_error + draft_device" where
  "draft_device_of healthChecks observed r =
     (let state = (case observed (rn_device r) of None \<Rightarrow> [] | Some m \<Rightarrow> m) in
      if rn_commands r \<noteq> [] \<and> state = [] then Inl (PlanMissingState (rn_device r))
      else (case device_scripts (rn_commands r) healthChecks state (sortedConfigNames (rn_commands r)) of
              None \<Rightarrow> Inl (PlanScript (rn_device r))
            | Some scripts \<Rightarrow>
                Inr \<lparr>dd_id = rn_device r, dd_hostname = rn_hostname r, dd_role = rn_role r,
                     dd_commands = Some (rn_commands r), dd_preview = Some (PreviewCommands (rn_commands r)),
                     dd_scripts = Some scripts, dd_observed = Some state\<rparr>))"

fun draft_devices ::
  "string list \<Rightarrow> observed_state \<Rightarrow> render_result list \<Rightarrow> plan_error + draft_device list" where
  "draft_devices healthChecks observed [] = Inr []"
| "draft_devices healthChecks observed (r # rs) =
     andthen (draft_device_of healthChecks observed r) (\<lambda>d.
     andthen (draft_devices healthChecks observed rs) (\<lambda>ds. Inr (d # ds)))"

definition buildRolloutDraft ::
  "string \<Rightarrow> string \<Rightarrow> string list \<Rightarrow> render_result list \<Rightarrow> observed_state \<Rightarrow> plan_error + draft_plan" where
  "buildRolloutDraft siteID target healthChecks results observed =
     andthen (draft_devices healthChecks observed
         (map (\<lambda>i. results ! i) (concat (sequentialFleetRolloutPhases results))))
       (\<lambda>ds. Inr \<lparr>dp_site = siteID, dp_target = target, dp_namespace = [], dp_health_checks = Some healthChecks,
                  dp_devices = Some ds\<rparr>)"

section \<open>Reading a stored draft\<close>

datatype draft_error = DraftInvalid | DraftIdentity | DraftNamespace

definition decodeRolloutDraft :: "rollout_draft \<Rightarrow> draft_error + draft_plan" where
  "decodeRolloutDraft rec =
     (case dec_draft (rd_plan rec) of
        None \<Rightarrow> Inl DraftInvalid
      | Some p \<Rightarrow>
          if dp_site p \<noteq> rd_site rec \<or> rolloutPlanHash p \<noteq> rd_plan_hash rec then Inl DraftIdentity
          else if dp_namespace p \<noteq> [] \<and> requestedChangeSetNamespaces (dp_namespace p) = None then Inl DraftNamespace
          else Inr p)"

definition rolloutResultsFromDraft :: "draft_plan \<Rightarrow> render_result list" where
  "rolloutResultsFromDraft p =
     map (\<lambda>d. \<lparr>rn_device = dd_id d, rn_hostname = dd_hostname d, rn_role = dd_role d, rn_last_ip = [],
               rn_commands = slice_elems (dd_commands d)\<rparr>) (slice_elems (dp_devices p))"

datatype build_error =
    BuildNamespace | BuildNoCommands string | BuildNotSelected string | BuildMissingState string string
  | BuildChangeSet cs_error | BuildCount | BuildDuplicate string

fun draft_operations ::
  "string \<Rightarrow> str_map \<Rightarrow> uci_command list \<Rightarrow> string list \<Rightarrow> build_error + change_operation list" where
  "draft_operations i observed cmds [] = Inr []"
| "draft_operations i observed cmds (ns # nss) =
     (let cs = groupCommandsByConfig cmds ns in
      if cs = [] then draft_operations i observed cmds nss
      else if entry observed ns = [] then Inl (BuildMissingState ns i)
      else andthen (draft_operations i observed cmds nss) (\<lambda>ops.
             Inr (\<lparr>co_operation_id = [], co_config = ns, co_commands = cs, co_observed_hash = entry observed ns\<rparr> # ops)))"

definition buildDeviceChangeSet :: "string \<Rightarrow> draft_plan \<Rightarrow> draft_device \<Rightarrow> build_error + change_set" where
  "buildDeviceChangeSet rolloutID p d =
     (case requestedChangeSetNamespaces (dp_namespace p) of
        None \<Rightarrow> Inl BuildNamespace
      | Some nss \<Rightarrow>
          (let cmds = slice_elems (dd_commands d) in
           if cmds = [] \<or> nss = [] then Inl (BuildNoCommands (dd_id d))
           else (case find (\<lambda>c. uc_config c \<notin> set nss) cmds of
                   Some c \<Rightarrow> Inl (BuildNotSelected (uc_config c))
                 | None \<Rightarrow>
                     andthen (draft_operations (dd_id d) (slice_elems (dd_observed d)) cmds safe_namespaces) (\<lambda>ops.
                       case NewDeviceChangeSetForRolloutOperations rolloutID (dd_id d) ops
                              (slice_elems (dp_health_checks p)) ConfirmationLocalAuto of
                         Inl e \<Rightarrow> Inl (BuildChangeSet e)
                       | Inr cs \<Rightarrow> Inr cs))))"

definition buildSingleDeviceChangeSet :: "string \<Rightarrow> draft_plan \<Rightarrow> build_error + change_set" where
  "buildSingleDeviceChangeSet rolloutID p =
     (case slice_elems (dp_devices p) of [d] \<Rightarrow> buildDeviceChangeSet rolloutID p d | _ \<Rightarrow> Inl BuildCount)"

fun fleet_change_sets ::
  "string \<Rightarrow> draft_plan \<Rightarrow> string set \<Rightarrow> draft_device list \<Rightarrow> build_error + change_set list" where
  "fleet_change_sets rolloutID p seen [] = Inr []"
| "fleet_change_sets rolloutID p seen (d # ds) =
     (if to_lower (dd_id d) \<in> seen then Inl (BuildDuplicate (dd_id d))
      else andthen (buildDeviceChangeSet rolloutID p d) (\<lambda>cs.
           andthen (fleet_change_sets rolloutID p (insert (to_lower (dd_id d)) seen) ds) (\<lambda>css. Inr (cs # css))))"

definition buildFleetDeviceChangeSets :: "string \<Rightarrow> draft_plan \<Rightarrow> build_error + change_set list" where
  "buildFleetDeviceChangeSets rolloutID p =
     (if slice_elems (dp_devices p) = [] then Inl BuildCount
      else fleet_change_sets rolloutID p {} (slice_elems (dp_devices p)))"

definition changeSetCommandCount :: "change_set \<Rightarrow> nat" where
  "changeSetCommandCount cs = sum_list (map (\<lambda>p. length (co_commands p)) (cs_operations cs))"


section \<open>Previews\<close>

record device_preview =
  pw_id :: string
  pw_hostname :: string
  pw_role :: string
  pw_commands :: "string list"
  pw_scripts :: str_map
  pw_observed :: str_map

definition rolloutDevicePreviews :: "draft_plan \<Rightarrow> device_preview list" where
  "rolloutDevicePreviews p =
     map (\<lambda>d. \<lparr>pw_id = dd_id d, pw_hostname = dd_hostname d, pw_role = dd_role d,
               pw_commands = (case dd_preview d of
                  None \<Rightarrow> PreviewCommands (slice_elems (dd_commands d)) | Some ls \<Rightarrow> ls),
               pw_scripts = slice_elems (dd_scripts d), pw_observed = slice_elems (dd_observed d)\<rparr>)
       (slice_elems (dp_devices p))"

definition rolloutDevicePreviewsFromRecord :: "rollout_draft \<Rightarrow> device_preview list" where
  "rolloutDevicePreviewsFromRecord rec =
     (case decodeRolloutDraft rec of Inl _ \<Rightarrow> [] | Inr p \<Rightarrow> rolloutDevicePreviews p)"

record preview_request =
  pq_site :: string
  pq_schema :: string
  pq_username :: string
  pq_remote :: string
  pq_namespace :: string
  pq_target :: string

record preview_env =
  pv_now :: int
  pv_new_id :: string
  pv_devices :: "device_role_info list option"
  pv_show :: "string \<Rightarrow> string \<Rightarrow> string option"
  pv_audit :: bool

record fleet_state =
  fs_sites :: site_table
  fs_tenant :: tenant_db
  fs_audit :: "audit_row list"

datatype preview_response =
    PvNamespace | PvNoTemplate | PvSqm site_error | PvDevices | PvTarget | PvNoDevices | PvHealth
  | PvTenant db_error | PvTransport | PvNothing | PvNetwork | PvPlan plan_error | PvStore db_error | PvAudit
  | Previewed rollout_draft draft_plan "device_preview list"

text \<open>\<open>auditRolloutEvent\<close>: the state with the entry, or nothing when the insert fails.\<close>

definition auditRolloutEvent ::
  "bool \<Rightarrow> string \<Rightarrow> string \<Rightarrow> string \<Rightarrow> string \<Rightarrow> string \<Rightarrow> fleet_state \<Rightarrow> fleet_state option" where
  "auditRolloutEvent ok username action siteID payload remote s =
     (if ok
      then Some (s\<lparr>fs_audit := fs_audit s @
        [\<lparr>au_username = username, au_action = action, au_resource_type = ''SITE'', au_resource_id = siteID,
          au_payload = payload, au_ip = remote\<rparr>]\<rparr>)
      else None)"

text \<open>The plan a preview stores, or the response that ends the request before it.\<close>

definition preview_plan :: "preview_env \<Rightarrow> preview_request \<Rightarrow> site_table \<Rightarrow> preview_response + draft_plan" where
  "preview_plan env req sites =
     (let namespace = trim_space (pq_namespace req) in
      if namespace \<noteq> [] \<and> requestedChangeSetNamespaces namespace = None then Inl PvNamespace
      else case GetSiteConfig sites (pq_site req) of
        None \<Rightarrow> Inl PvNoTemplate
      | Some sc \<Rightarrow>
          (case ValidateSQM sc of
             Some e \<Rightarrow> Inl (PvSqm e)
           | None \<Rightarrow>
          (case pv_devices env of
             None \<Rightarrow> Inl PvDevices
           | Some all \<Rightarrow>
          (case selectRolloutDevices all (pq_target req) of
             None \<Rightarrow> Inl PvTarget
           | Some devs \<Rightarrow>
               if devs = [] then Inl PvNoDevices
               else
          (case rolloutHealthTargets sc of
             None \<Rightarrow> Inl PvHealth
           | Some health \<Rightarrow>
          (case getTenantSchema (pq_schema req) of
             Inl e \<Rightarrow> Inl (PvTenant e)
           | Inr schema \<Rightarrow>
          (case filterRolloutResultsByNamespace (RenderSiteConfig sc devs) namespace of
             None \<Rightarrow> Inl PvNamespace
           | Some selected \<Rightarrow>
          (case preflightRenderedResultsWithState (pv_show env) selected of
             None \<Rightarrow> Inl PvTransport
           | Some (results, observed) \<Rightarrow>
               (let (results', observed') =
                  (if namespace \<noteq> [] then dropEmptyRolloutResults results observed else (results, observed))
                in
                if namespace \<noteq> [] \<and> results' = [] then Inl PvNothing
                else if rejectUnsafeNetworkMutations results' then Inl PvNetwork
                else (case buildRolloutDraft (pq_site req) (pq_target req) health results' observed' of
                        Inl e \<Rightarrow> Inl (PvPlan e)
                      | Inr p \<Rightarrow> Inr (p\<lparr>dp_namespace := namespace\<rparr>)))))))))))"

definition PreviewSyncHandler ::
  "preview_env \<Rightarrow> preview_request \<Rightarrow> fleet_state \<Rightarrow> preview_response \<times> fleet_state" where
  "PreviewSyncHandler env req s =
     (case preview_plan env req (fs_sites s) of
        Inl r \<Rightarrow> (r, s)
      | Inr p \<Rightarrow>
          (case getTenantSchema (pq_schema req) of
             Inl e \<Rightarrow> (PvTenant e, s)
           | Inr schema \<Rightarrow>
               (case CreateRolloutDraft schema (pv_now env) (pv_new_id env) (pq_site req) (pq_username req)
                       (rolloutPlanHash p) (Some (JArr (map (\<lambda>d. JStr (dd_id d)) (slice_elems (dp_devices p)))))
                       (Some (draft_json p)) (fs_tenant s) of
                  (Inl e, _) \<Rightarrow> (PvStore e, s)
                | (Inr rec, db) \<Rightarrow>
                    (case auditRolloutEvent (pv_audit env) (pq_username req) ''SITE_ORCHESTRATOR_ROLLOUT_DRAFT''
                            (pq_site req)
                            (''Created rollout draft '' @ rd_id rec @ '' rollout sequence '' @ int_str (rd_generation rec)
                               @ '' plan_hash '' @ rd_plan_hash rec)
                            (pq_remote req) (s\<lparr>fs_tenant := db\<rparr>) of
                       None \<Rightarrow> (PvAudit, s\<lparr>fs_tenant := db\<rparr>)
                     | Some s' \<Rightarrow> (Previewed rec p (rolloutDevicePreviews p), s')))))"


section \<open>A stored draft reads back\<close>

definition canonical :: "str_map \<Rightarrow> bool" where
  "canonical m \<longleftrightarrow> sorted_wrt (<) (map fst m)"

lemma put_entry_last: "(\<And>x. x \<in> fst ` set m \<Longrightarrow> x < k) \<Longrightarrow> put_entry k v m = m @ [(k, v)]"
proof (induction m)
  case (Cons e m)
  obtain x y where e: "e = (x, y)" by (cases e)
  have "x < k" using Cons.prems by (simp add: e)
  then have "k \<noteq> x" "\<not> k < x" by auto
  with Cons show ?case by (simp add: e)
qed simp

lemma fold_put_entry: "canonical (m @ ps) \<Longrightarrow> fold (\<lambda>(k, v). put_entry k v) ps m = m @ ps"
proof (induction ps arbitrary: m)
  case (Cons e ps)
  obtain k v where e: "e = (k, v)" by (cases e)
  have "put_entry k v m = m @ [(k, v)]"
    using Cons.prems by (intro put_entry_last) (auto simp: canonical_def e sorted_wrt_append)
  with Cons.IH [of "m @ [(k, v)]"] Cons.prems show ?case by (simp add: e)
qed simp

lemma set_put_entry: "fst ` set (put_entry k v m) = insert k (fst ` set m)"
  by (induction k v m rule: put_entry.induct) auto

lemma put_entry_canonical: "canonical m \<Longrightarrow> canonical (put_entry k v m)"
proof (induction k v m rule: put_entry.induct)
  case (2 k v x y m)
  have below: "x < z" if "z \<in> fst ` set (put_entry k v m)" "x < k" for z
    using that 2(2) set_put_entry [of k v m] by (auto simp: canonical_def)
  consider "k = x" | "k < x" | "x < k" by fastforce
  then show ?case
  proof cases
    case 3
    then have "k \<noteq> x" "\<not> k < x" by auto
    with 2 below 3 show ?thesis by (simp add: canonical_def)
  qed (use 2(2) in \<open>auto simp: canonical_def\<close>)
qed (simp add: canonical_def)

definition draft_keys :: "string list" where
  "draft_keys = [''site_id'', ''target_device_id'', ''namespace'', ''health_checks'', ''devices'']"

definition draft_device_keys :: "string list" where
  "draft_device_keys = [''device_id'', ''hostname'', ''role'', ''commands'', ''preview_commands'', ''scripts'', ''observed_state'']"

lemma go_entries_key:
  assumes "inj_on go_fold (set ks)" "k \<in> set ks" "name \<in> set ks"
  shows "go_entries name ((k, v) # kvs) = (if k = name then v # go_entries name kvs else go_entries name kvs)"
  using assms by (auto simp: go_entries_Cons inj_on_def)

lemma draft_keys_inj: "inj_on go_fold (set draft_keys)" "inj_on go_fold (set draft_device_keys)"
proof -
  have "distinct (map go_fold draft_keys)" "distinct (map go_fold draft_device_keys)" by code_simp+
  then show "inj_on go_fold (set draft_keys)" "inj_on go_fold (set draft_device_keys)" by (simp_all add: distinct_map)
qed

lemmas draft_entries = go_entries_key [OF draft_keys_inj(1)] go_entries_key [OF draft_keys_inj(2)]

lemma draft_keys_mem [simp]:
  "''site_id'' \<in> set draft_keys" "''target_device_id'' \<in> set draft_keys" "''namespace'' \<in> set draft_keys"
  "''health_checks'' \<in> set draft_keys" "''devices'' \<in> set draft_keys"
  "''device_id'' \<in> set draft_device_keys" "''hostname'' \<in> set draft_device_keys" "''role'' \<in> set draft_device_keys"
  "''commands'' \<in> set draft_device_keys" "''preview_commands'' \<in> set draft_device_keys"
  "''scripts'' \<in> set draft_device_keys" "''observed_state'' \<in> set draft_device_keys"
  by (simp_all add: draft_keys_def draft_device_keys_def)

lemma fold_slice_json_on:
  assumes "\<And>x. x \<in> set (slice_elems xs) \<Longrightarrow> dec (enc x) = Some x"
  shows "fold_slice dec None [slice_json enc xs] = Some xs"
proof (cases xs)
  case (Some ys)
  then have "all_some (map (dec \<circ> enc) ys) = Some ys" using assms by (intro all_some_map_dec) simp
  with Some show ?thesis by (simp add: slice_json_def)
qed (simp add: slice_json_def)

lemma fold_map_json: "canonical (slice_elems m) \<Longrightarrow> fold_map None [map_json m] = Some m"
proof (cases m)
  case (Some kvs)
  assume "canonical (slice_elems m)"
  then have "fold (\<lambda>(k, v). put_entry k v) kvs [] = kvs" using fold_put_entry [of "[]" kvs] Some by simp
  moreover have "all_some (map ((\<lambda>(k, v). map_option (Pair k) (elem_str v)) \<circ> (\<lambda>(k, v). (k, JStr v))) kvs) = Some kvs"
    by (intro all_some_map_dec) (auto simp: elem_str_def)
  ultimately show ?thesis by (simp add: Some map_json_def)
qed (simp add: map_json_def)

lemma dec_draft_device_json:
  assumes "canonical (slice_elems (dd_scripts d))" "canonical (slice_elems (dd_observed d))"
  shows "dec_draft_device (draft_device_json d) = Some d"
proof -
  have s: "fold_slice dec_command None [slice_json command_json (dd_commands d)] = Some (dd_commands d)"
    "fold_slice elem_str None [slice_json JStr (dd_preview d)] = Some (dd_preview d)"
    by (rule fold_slice_json_on, simp add: dec_command_json elem_str_def)+
  show ?thesis
    using s fold_map_json [OF assms(1)] fold_map_json [OF assms(2)]
    by (simp add: dec_draft_device_def draft_device_json_def go_obj_def go_str_def go_slice_def go_map_def draft_entries)
qed

definition draft_canonical :: "draft_plan \<Rightarrow> bool" where
  "draft_canonical p \<longleftrightarrow>
     (\<forall>d \<in> set (slice_elems (dp_devices p)). canonical (slice_elems (dd_scripts d)) \<and> canonical (slice_elems (dd_observed d)))"

lemma dec_draft_json: "draft_canonical p \<Longrightarrow> dec_draft (draft_json p) = Some p"
proof -
  assume c: "draft_canonical p"
  have s: "fold_slice elem_str None [slice_json JStr (dp_health_checks p)] = Some (dp_health_checks p)"
    by (rule fold_slice_json_on) (simp add: elem_str_def)
  have d: "fold_slice dec_draft_device None [slice_json draft_device_json (dp_devices p)] = Some (dp_devices p)"
    using c by (intro fold_slice_json_on dec_draft_device_json) (auto simp: draft_canonical_def)
  show ?thesis
    using s d
    by (simp add: dec_draft_def draft_json_def go_obj_def go_str_def go_slice_def draft_entries)
qed


section \<open>What a preview stores\<close>

lemma map_of_put_entry: "map_of (put_entry k v m) = (map_of m)(k \<mapsto> v)"
  by (induction k v m rule: put_entry.induct) (auto simp: fun_eq_iff)

lemma entry_put_entry: "entry (put_entry k v m) x = (if x = k then v else entry m x)"
  by (simp add: entry_def map_of_put_entry)

lemma filter_observed_subset: "set (filterUCICommandsByObservedState cmds secs) \<subseteq> set cmds"
  by (induction cmds) auto

text \<open>What the preflight found out about a command: the device showed its namespace, and the hash is stored.\<close>

definition observed_for :: "(string \<Rightarrow> string option) \<Rightarrow> str_map \<Rightarrow> string \<Rightarrow> bool" where
  "observed_for show st config \<longleftrightarrow> (\<exists>out. show config = Some out \<and> entry st config = observedStateHash out)"

lemma preflight_configs_observed:
  "preflight_configs show cmds configs = Some (cs, st) \<Longrightarrow> distinct configs \<Longrightarrow>
     canonical st \<and> (\<forall>config \<in> set configs. observed_for show st config)
     \<and> (\<forall>c \<in> set cs. c \<in> set cmds \<and> uc_config c \<in> set configs)"
proof (induction configs arbitrary: cs st)
  case (Cons config configs)
  then obtain out rest st' where t: "show config = Some out" "preflight_configs show cmds configs = Some (rest, st')"
      "cs = filterUCICommandsByObservedState (groupCommandsByConfig cmds config) (parseUciShow out config) @ rest"
      "st = put_entry config (observedStateHash out) st'"
    by (auto simp: bind_eq_Some_conv)
  note IH = Cons.IH [OF t(2)]
  have "\<forall>x \<in> set configs. observed_for show st x"
    using IH Cons.prems(2) by (auto simp: observed_for_def t(4) entry_put_entry)
  moreover have "observed_for show st config" by (simp add: observed_for_def t(1,4) entry_put_entry)
  moreover have "\<forall>c \<in> set cs. c \<in> set cmds \<and> uc_config c \<in> set (config # configs)"
    using IH Cons.prems(2) filter_observed_subset [of "groupCommandsByConfig cmds config" "parseUciShow out config"]
    by (auto simp: t(3) groupCommandsByConfig_def)
  ultimately show ?case using IH Cons.prems(2) by (simp add: t(4) put_entry_canonical)
qed (simp add: canonical_def)

definition surveyed :: "(string \<Rightarrow> string \<Rightarrow> string option) \<Rightarrow> observed_state \<Rightarrow> render_result \<Rightarrow> bool" where
  "surveyed show ob r \<longleftrightarrow>
     (\<exists>st. ob (rn_device r) = Some st \<and> canonical st
        \<and> (\<forall>c \<in> set (rn_commands r). observed_for (show (rn_device r)) st (uc_config c)))"

lemma sortedConfigNames_set: "set (sortedConfigNames cmds) = uc_config ` set cmds" "distinct (sortedConfigNames cmds)"
  by (simp_all add: sortedConfigNames_def)

lemma preflight_surveyed:
  "preflightRenderedResultsWithState show rs = Some (rs', ob) \<Longrightarrow> distinct (map rn_device rs) \<Longrightarrow>
     map rn_device rs' = map rn_device rs \<and> dom ob = set (map rn_device rs) \<and> list_all (surveyed show ob) rs'
     \<and> (\<forall>r' \<in> set rs'. \<exists>r \<in> set rs. rn_device r' = rn_device r \<and> set (rn_commands r') \<subseteq> set (rn_commands r))"
proof (induction rs arbitrary: rs' ob)
  case (Cons r rs)
  then obtain cmds st rest ob' where p:
      "preflight_configs (show (rn_device r)) (rn_commands r) (sortedConfigNames (rn_commands r)) = Some (cmds, st)"
      "preflightRenderedResultsWithState show rs = Some (rest, ob')"
      "rs' = r\<lparr>rn_commands := cmds\<rparr> # rest"
      "ob = (if rn_device r \<in> dom ob' then ob' else ob'(rn_device r \<mapsto> st))"
    by (auto simp: bind_eq_Some_conv)
  note IH = Cons.IH [OF p(2)]
  note c = preflight_configs_observed [OF p(1) sortedConfigNames_set(2)]
  have "rn_device r \<notin> dom ob'" using IH Cons.prems(2) by auto
  then have ob: "ob = ob'(rn_device r \<mapsto> st)" by (simp add: p(4))
  have "surveyed show ob x" if "x \<in> set rest" for x
  proof -
    have "rn_device x \<noteq> rn_device r" using IH Cons.prems(2) that by (metis distinct.simps(2) image_eqI list.map(2) list.set_map)
    then show ?thesis using IH Cons.prems(2) that by (auto simp: surveyed_def ob list_all_iff)
  qed
  moreover have "surveyed show ob (r\<lparr>rn_commands := cmds\<rparr>)"
    using c by (auto simp: surveyed_def ob sortedConfigNames_set)
  ultimately have "list_all (surveyed show ob) rs'" by (simp add: p(3) list_all_iff)
  moreover have "map rn_device rs' = map rn_device (r # rs)" "dom ob = set (map rn_device (r # rs))"
    using IH Cons.prems(2) by (simp_all add: p(3) ob)
  moreover have "\<forall>r' \<in> set rs'. \<exists>x \<in> set (r # rs). rn_device r' = rn_device x \<and> set (rn_commands r') \<subseteq> set (rn_commands x)"
    using IH Cons.prems(2) c by (auto simp: p(3))
  ultimately show ?case by blast
qed simp

lemma surveyed_restrict: "surveyed show ob r \<Longrightarrow> rn_device r \<in> D \<Longrightarrow> surveyed show (ob |` D) r"
  by (auto simp: surveyed_def)

lemma dropEmpty_surveyed:
  assumes "list_all (surveyed show ob) rs" "dropEmptyRolloutResults rs ob = (rs', ob')"
  shows "list_all (surveyed show ob') rs' \<and> set rs' \<subseteq> set rs"
  using assms by (auto simp: dropEmptyRolloutResults_def Let_def list_all_iff intro!: surveyed_restrict)

lemma device_scripts_entries:
  "device_scripts cmds hc st configs = Some m \<Longrightarrow> distinct configs \<Longrightarrow>
     canonical m \<and> (\<forall>config \<in> set configs.
        buildGuardedRolloutScript config (groupCommandsByConfig cmds config) hc (entry st config) = Some (entry m config))"
proof (induction configs arbitrary: m)
  case (Cons config configs)
  then obtain script m' where m: "buildGuardedRolloutScript config (groupCommandsByConfig cmds config) hc (entry st config) = Some script"
      "device_scripts cmds hc st configs = Some m'" "m = put_entry config script m'"
    by (auto simp: bind_eq_Some_conv)
  with Cons.IH [OF m(2)] Cons.prems(2) show ?case by (auto simp: entry_put_entry put_entry_canonical)
qed (simp add: canonical_def)

text \<open>A device of a draft, against the session it was planned with.\<close>

definition planned_from :: "(string \<Rightarrow> string \<Rightarrow> string option) \<Rightarrow> string list \<Rightarrow> draft_device \<Rightarrow> bool" where
  "planned_from show hc d \<longleftrightarrow>
     (\<forall>c \<in> set (slice_elems (dd_commands d)).
        observed_for (show (dd_id d)) (slice_elems (dd_observed d)) (uc_config c)
        \<and> buildGuardedRolloutScript (uc_config c) (groupCommandsByConfig (slice_elems (dd_commands d)) (uc_config c)) hc
            (entry (slice_elems (dd_observed d)) (uc_config c)) = Some (entry (slice_elems (dd_scripts d)) (uc_config c)))"

lemma draft_device_planned:
  assumes "draft_device_of hc ob r = Inr d" "surveyed show ob r"
  shows "planned_from show hc d" "canonical (slice_elems (dd_scripts d))" "canonical (slice_elems (dd_observed d))"
    "dd_id d = rn_device r" "dd_role d = rn_role r" "dd_commands d = Some (rn_commands r)"
proof -
  obtain st where st: "ob (rn_device r) = Some st" "canonical st"
      "\<forall>c \<in> set (rn_commands r). observed_for (show (rn_device r)) st (uc_config c)"
    using assms(2) by (auto simp: surveyed_def)
  obtain m where m: "device_scripts (rn_commands r) hc st (sortedConfigNames (rn_commands r)) = Some m"
      "d = \<lparr>dd_id = rn_device r, dd_hostname = rn_hostname r, dd_role = rn_role r, dd_commands = Some (rn_commands r),
            dd_preview = Some (PreviewCommands (rn_commands r)), dd_scripts = Some m, dd_observed = Some st\<rparr>"
    using assms(1) by (auto simp: draft_device_of_def Let_def st(1) split: if_splits option.splits)
  note s = device_scripts_entries [OF m(1) sortedConfigNames_set(2)]
  show "planned_from show hc d" "canonical (slice_elems (dd_scripts d))" "canonical (slice_elems (dd_observed d))"
    "dd_id d = rn_device r" "dd_role d = rn_role r" "dd_commands d = Some (rn_commands r)"
    using s st by (auto simp: m(2) planned_from_def sortedConfigNames_set)
qed

lemma list_all2_set_right: "list_all2 P xs ys \<Longrightarrow> y \<in> set ys \<Longrightarrow> \<exists>x \<in> set xs. P x y"
  by (induction rule: list_all2_induct) auto

lemma draft_devices_list: "draft_devices hc ob rs = Inr ds \<Longrightarrow> list_all2 (\<lambda>r d. draft_device_of hc ob r = Inr d) rs ds"
  by (induction rs arbitrary: ds) (auto simp: andthen_Inr_iff)

lemma phases_permute: "mset (concat (sequentialFleetRolloutPhases rs)) = mset [0..<length rs]"
  by (simp add: sequentialFleetRolloutPhases_def concat_map_singleton del: mset_upt)

lemma ordered_results_set: "set (map (\<lambda>i. rs ! i) (concat (sequentialFleetRolloutPhases rs))) = set rs"
proof -
  have "set (concat (sequentialFleetRolloutPhases rs)) = {0..<length rs}"
    using mset_eq_setD [OF phases_permute [of rs]] by simp
  then show ?thesis by (auto simp: set_conv_nth [of rs])
qed


lemma preview_plan_cases:
  assumes "preview_plan env req sites = Inr p"
  obtains sc devs health selected results ob results' ob' q where
    "trim_space (pq_namespace req) \<noteq> [] \<Longrightarrow> requestedChangeSetNamespaces (trim_space (pq_namespace req)) \<noteq> None"
    "GetSiteConfig sites (pq_site req) = Some sc" "ValidateSQM sc = None"
    "Option.bind (pv_devices env) (\<lambda>all. selectRolloutDevices all (pq_target req)) = Some devs" "devs \<noteq> []"
    "rolloutHealthTargets sc = Some health"
    "filterRolloutResultsByNamespace (RenderSiteConfig sc devs) (trim_space (pq_namespace req)) = Some selected"
    "preflightRenderedResultsWithState (pv_show env) selected = Some (results, ob)"
    "(results', ob') = (if trim_space (pq_namespace req) \<noteq> [] then dropEmptyRolloutResults results ob else (results, ob))"
    "trim_space (pq_namespace req) \<noteq> [] \<Longrightarrow> results' \<noteq> []" "\<not> rejectUnsafeNetworkMutations results'"
    "buildRolloutDraft (pq_site req) (pq_target req) health results' ob' = Inr q"
    "p = q\<lparr>dp_namespace := trim_space (pq_namespace req)\<rparr>"
proof -
  let ?ns = "trim_space (pq_namespace req)"
  from assms obtain sc all devs health schema selected results ob where 1:
      "?ns \<noteq> [] \<Longrightarrow> requestedChangeSetNamespaces ?ns \<noteq> None"
      "GetSiteConfig sites (pq_site req) = Some sc" "ValidateSQM sc = None" "pv_devices env = Some all"
      "selectRolloutDevices all (pq_target req) = Some devs" "devs \<noteq> []" "rolloutHealthTargets sc = Some health"
      "getTenantSchema (pq_schema req) = Inr schema"
      "filterRolloutResultsByNamespace (RenderSiteConfig sc devs) ?ns = Some selected"
      "preflightRenderedResultsWithState (pv_show env) selected = Some (results, ob)"
    unfolding preview_plan_def Let_def by (auto split: if_splits option.splits sum.splits)
  obtain results' ob' where 2: "(results', ob') = (if ?ns \<noteq> [] then dropEmptyRolloutResults results ob else (results, ob))"
    by (metis surj_pair)
  obtain q where 3: "?ns \<noteq> [] \<Longrightarrow> results' \<noteq> []" "\<not> rejectUnsafeNetworkMutations results'"
      "buildRolloutDraft (pq_site req) (pq_target req) health results' ob' = Inr q" "p = q\<lparr>dp_namespace := ?ns\<rparr>"
    using assms 1 2 by (cases "?ns = []") (auto simp: preview_plan_def Let_def split: if_splits sum.splits option.splits prod.splits)
  show thesis by (rule that [OF 1(1-3) _ 1(6,7,9,10) 2 3]) (simp_all add: 1)
qed


lemma select_distinct:
  "selectRolloutDevices all target = Some devs \<Longrightarrow> distinct (map dr_device all) \<Longrightarrow> distinct (map dr_device devs)"
  by (auto simp: selectRolloutDevices_def split: if_splits)

lemma filter_namespace_results:
  assumes "filterRolloutResultsByNamespace rs ns = Some rs'"
  shows "map rn_device rs' = map rn_device rs"
    "r' \<in> set rs' \<Longrightarrow> c \<in> set (rn_commands r') \<Longrightarrow> ns \<noteq> [] \<Longrightarrow> uc_config c \<in> set (the (requestedChangeSetNamespaces ns))"
  using assms by (auto simp: filterRolloutResultsByNamespace_def split: if_splits)

lemma build_draft_devices:
  assumes "buildRolloutDraft site target hc rs ob = Inr q" "list_all (surveyed show ob) rs"
  shows "dp_site q = site" "dp_health_checks q = Some hc"
    "\<forall>d \<in> set (slice_elems (dp_devices q)). \<exists>r \<in> set rs. draft_device_of hc ob r = Inr d \<and> surveyed show ob r"
    "rs \<noteq> [] \<Longrightarrow> slice_elems (dp_devices q) \<noteq> []"
proof -
  let ?rs = "map (\<lambda>i. rs ! i) (concat (sequentialFleetRolloutPhases rs))"
  obtain ds where ds: "draft_devices hc ob ?rs = Inr ds"
      "q = \<lparr>dp_site = site, dp_target = target, dp_namespace = [], dp_health_checks = Some hc, dp_devices = Some ds\<rparr>"
    using assms(1) by (auto simp: buildRolloutDraft_def andthen_Inr_iff)
  note l = draft_devices_list [OF ds(1)]
  show "dp_site q = site" "dp_health_checks q = Some hc" by (simp_all add: ds(2))
  have "\<exists>r \<in> set ?rs. draft_device_of hc ob r = Inr d" if "d \<in> set ds" for d
    using list_all2_set_right [OF l that] by blast
  then show "\<forall>d \<in> set (slice_elems (dp_devices q)). \<exists>r \<in> set rs. draft_device_of hc ob r = Inr d \<and> surveyed show ob r"
    using assms(2) unfolding ordered_results_set by (auto simp: ds(2) list_all_iff)
  show "slice_elems (dp_devices q) \<noteq> []" if "rs \<noteq> []"
    using list_all2_lengthD [OF l] mset_eq_length [OF phases_permute [of rs]] that by (cases ds) (simp_all add: ds(2))
qed

text \<open>
  The properties of a previewed plan: its site and namespace, canonical maps, and for every device
  commands outside the network configuration that were rendered and surveyed.
\<close>

definition plan_surveyed :: "preview_env \<Rightarrow> preview_request \<Rightarrow> string list \<Rightarrow> draft_plan \<Rightarrow> bool" where
  "plan_surveyed env req hc p \<longleftrightarrow>
     dp_site p = pq_site req \<and> dp_health_checks p = Some hc \<and> dp_namespace p = trim_space (pq_namespace req)
     \<and> (\<forall>d \<in> set (slice_elems (dp_devices p)).
          planned_from (pv_show env) hc d
          \<and> (\<forall>c \<in> set (slice_elems (dd_commands d)).
               uc_config c \<noteq> ''network''
               \<and> (dp_namespace p \<noteq> [] \<longrightarrow> uc_config c \<in> set (the (requestedChangeSetNamespaces (dp_namespace p))))))"

lemma preview_plan_surveyed:
  assumes "preview_plan env req sites = Inr p" "\<forall>all. pv_devices env = Some all \<longrightarrow> distinct (map dr_device all)"
  shows "(\<exists>hc. plan_surveyed env req hc p) \<and> draft_canonical p
    \<and> (dp_namespace p \<noteq> [] \<longrightarrow> requestedChangeSetNamespaces (dp_namespace p) \<noteq> None \<and> slice_elems (dp_devices p) \<noteq> [])"
  using assms(1)
proof (cases rule: preview_plan_cases)
  case (1 sc devs health selected results ob results' ob' q)
  let ?ns = "trim_space (pq_namespace req)"
  obtain all where "pv_devices env = Some all" "selectRolloutDevices all (pq_target req) = Some devs"
    using 1(4) by (auto simp: bind_eq_Some_conv)
  then have "distinct (map dr_device devs)" using select_distinct assms(2) by blast
  then have dist: "distinct (map rn_device selected)"
    using filter_namespace_results(1) [OF 1(7)] by (simp add: rendered_devices)
  note pre = preflight_surveyed [OF 1(8) dist]
  have sur: "list_all (surveyed (pv_show env) ob') results'" "set results' \<subseteq> set results"
    using dropEmpty_surveyed [of "pv_show env" ob results results' ob'] pre 1(9) by (auto split: if_splits)
  note q = build_draft_devices [OF 1(12) sur(1)]
  have ns: "uc_config c \<in> set (the (requestedChangeSetNamespaces ?ns))" if r: "r \<in> set results'" "c \<in> set (rn_commands r)" "?ns \<noteq> []" for r c
  proof -
    obtain x where "x \<in> set selected" "c \<in> set (rn_commands x)" using pre sur(2) r(1,2) by blast
    then show ?thesis using filter_namespace_results(2) [OF 1(7)] r(3) by blast
  qed
  have dev: "planned_from (pv_show env) health d \<and> canonical (slice_elems (dd_scripts d)) \<and> canonical (slice_elems (dd_observed d))
      \<and> (\<forall>c \<in> set (slice_elems (dd_commands d)). uc_config c \<noteq> ''network''
           \<and> (?ns \<noteq> [] \<longrightarrow> uc_config c \<in> set (the (requestedChangeSetNamespaces ?ns))))"
    if mem: "d \<in> set (slice_elems (dp_devices q))" for d
  proof -
    obtain r where r: "r \<in> set results'" "draft_device_of health ob' r = Inr d" "surveyed (pv_show env) ob' r"
      using q(3) mem by blast
    note d = draft_device_planned [OF r(2,3)]
    have net: "uc_config c \<noteq> ''network''" if "c \<in> set (rn_commands r)" for c
      using 1(11) r(1) that by (auto simp: rejectUnsafeNetworkMutations_def list_ex_iff)
    have cmds: "slice_elems (dd_commands d) = rn_commands r" by (simp add: d(6))
    show ?thesis unfolding cmds using d(1-3) net ns [OF r(1)] by blast
  qed
  have "plan_surveyed env req health p" unfolding plan_surveyed_def using q(1,2) dev by (simp add: 1(13))
  moreover have "draft_canonical p" unfolding draft_canonical_def using dev by (simp add: 1(13))
  moreover have "dp_namespace p \<noteq> [] \<longrightarrow> requestedChangeSetNamespaces (dp_namespace p) \<noteq> None \<and> slice_elems (dp_devices p) \<noteq> []"
    using 1(1,10) q(4) by (simp add: 1(13))
  ultimately show ?thesis by blast
qed


lemma plan_hash_length: "length (rolloutPlanHash p) = 64"
  unfolding rolloutPlanHash_def by (rule sha256_hex_length)

lemma PreviewSync_Previewed:
  assumes "PreviewSyncHandler env req s = (Previewed rec p views, s')"
  shows "preview_plan env req (fs_sites s) = Inr p \<and> views = rolloutDevicePreviews p
    \<and> (\<exists>schema targets. getTenantSchema (pq_schema req) = Inr schema
        \<and> CreateRolloutDraft schema (pv_now env) (pv_new_id env) (pq_site req) (pq_username req) (rolloutPlanHash p)
            targets (Some (draft_json p)) (fs_tenant s) = (Inr rec, fs_tenant s'))"
proof (cases "preview_plan env req (fs_sites s)")
  case (Inr q)
  show ?thesis
  proof (cases "getTenantSchema (pq_schema req)")
    case schema: (Inr schema)
    show ?thesis
      using assms
      by (auto simp: PreviewSyncHandler_def Inr schema auditRolloutEvent_def split: prod.splits sum.splits if_splits)
  qed (use assms in \<open>simp add: PreviewSyncHandler_def Inr\<close>)
qed (use assms in \<open>auto simp: PreviewSyncHandler_def preview_plan_def Let_def split: if_splits option.splits sum.splits prod.splits\<close>)

text \<open>
  What an operator previews is what will be applied: the draft a preview stores is read back from
  the database and decoded, under its hash and namespace check, to exactly the plan that was shown,
  and the stored record displays the same previews.
\<close>

theorem preview_roundtrip:
  assumes "PreviewSyncHandler env req s = (Previewed rec p views, s')"
    "\<forall>all. pv_devices env = Some all \<longrightarrow> distinct (map dr_device all)"
    "runs_wf (fs_tenant s)" "pv_new_id env \<notin> set (map rr_id (rollouts (fs_tenant s)))"
  shows "(\<exists>schema. getTenantSchema (pq_schema req) = Inr schema
       \<and> GetRolloutDraft schema (pq_site req) (pv_new_id env) (fs_tenant s') = Inr rec)
     \<and> decodeRolloutDraft rec = Inr p \<and> rolloutDevicePreviewsFromRecord rec = views"
proof -
  from PreviewSync_Previewed [OF assms(1)] obtain schema targets where
      plan: "preview_plan env req (fs_sites s) = Inr p" and views: "views = rolloutDevicePreviews p"
      and schema: "getTenantSchema (pq_schema req) = Inr schema"
      and create: "CreateRolloutDraft schema (pv_now env) (pv_new_id env) (pq_site req) (pq_username req) (rolloutPlanHash p)
            targets (Some (draft_json p)) (fs_tenant s) = (Inr rec, fs_tenant s')"
    by blast
  have "GetRolloutDraft schema (pq_site req) (pv_new_id env) (fs_tenant s') = Inr rec"
    using create_then_get [OF create assms(3,4) plan_hash_length] by blast
  moreover have "rd_plan rec = draft_json p" "rd_site rec = pq_site req" "rd_plan_hash rec = rolloutPlanHash p"
    using Create_success [OF create] by (auto simp: draft_of_row_def)
  moreover obtain hc where "plan_surveyed env req hc p" "draft_canonical p"
      "dp_namespace p \<noteq> [] \<longrightarrow> requestedChangeSetNamespaces (dp_namespace p) \<noteq> None"
    using preview_plan_surveyed [OF plan assms(2)] by blast
  ultimately have "decodeRolloutDraft rec = Inr p"
    by (auto simp: decodeRolloutDraft_def dec_draft_json plan_surveyed_def)
  with schema \<open>GetRolloutDraft _ _ _ _ = _\<close> views show ?thesis
    by (simp add: rolloutDevicePreviewsFromRecord_def)
qed

text \<open>
  C15. A previewed plan is grounded in what the devices showed: every command lies outside the network
  configuration and inside the requested namespaces, the device answered for the command's namespace,
  the stored hash is that of its answer, and the stored script is the guarded one for that hash.
\<close>

theorem preview_grounded:
  assumes "PreviewSyncHandler env req s = (Previewed rec p views, s')"
    "\<forall>all. pv_devices env = Some all \<longrightarrow> distinct (map dr_device all)"
    "d \<in> set (slice_elems (dp_devices p))" "c \<in> set (slice_elems (dd_commands d))"
  shows "uc_config c \<noteq> ''network''
    \<and> (dp_namespace p = [] \<or> uc_config c \<in> set (the (requestedChangeSetNamespaces (dp_namespace p))))
    \<and> (\<exists>out. pv_show env (dd_id d) (uc_config c) = Some out
         \<and> entry (slice_elems (dd_observed d)) (uc_config c) = observedStateHash out
         \<and> buildGuardedRolloutScript (uc_config c) (groupCommandsByConfig (slice_elems (dd_commands d)) (uc_config c))
             (slice_elems (dp_health_checks p)) (observedStateHash out) = Some (entry (slice_elems (dd_scripts d)) (uc_config c)))"
proof -
  obtain hc where hc: "plan_surveyed env req hc p"
    using preview_plan_surveyed [OF _ assms(2)] PreviewSync_Previewed [OF assms(1)] by blast
  then have "planned_from (pv_show env) hc d" "dp_health_checks p = Some hc"
      and c: "uc_config c \<noteq> ''network''"
      "dp_namespace p \<noteq> [] \<longrightarrow> uc_config c \<in> set (the (requestedChangeSetNamespaces (dp_namespace p)))"
    using assms(3,4) by (auto simp: plan_surveyed_def)
  then show ?thesis using assms(4) by (auto simp: planned_from_def observed_for_def)
qed


definition sample_ap :: device_role_info where
  "sample_ap = \<lparr>dr_device = ''dev-1'', dr_hostname = ''ap-1'', dr_last_ip = [], dr_role = ''AP'', dr_logical_networks = Map.empty\<rparr>"

definition sample_preview_env :: preview_env where
  "sample_preview_env = \<lparr>pv_now = 10, pv_new_id = ''r-9'', pv_devices = Some [sample_ap],
     pv_show = (\<lambda>_ config. Some (uci_show config [])), pv_audit = True\<rparr>"

definition sample_preview_request :: preview_request where
  "sample_preview_request = \<lparr>pq_site = ''site-1'', pq_schema = ''tenant_a'', pq_username = ''alice'', pq_remote = ''10.0.0.7'',
     pq_namespace = ''dropbear'', pq_target = []\<rparr>"

lemma mutation_marker_inner: "mutation_marker = m @ [CHR 0x0A] @ r \<Longrightarrow> r = []"
proof -
  have m: "mutation_marker = butlast mutation_marker @ [CHR 0x0A]" "CHR 0x0A \<notin> set (butlast mutation_marker)"
    by (simp_all add: mutation_marker_def unlines_def)
  assume eq: "mutation_marker = m @ [CHR 0x0A] @ r"
  show ?thesis
  proof (cases r rule: rev_cases)
    case (snoc ys y)
    then have "butlast mutation_marker = m @ [CHR 0x0A] @ ys" unfolding eq by (simp add: butlast_append)
    with m(2) show ?thesis by simp
  qed
qed

text \<open>Wherever the health checks went, the marker of the mutation phase is still in the script.\<close>

lemma marker_survives:
  assumes "B = a @ mutation_marker @ b" "B = pre @ post" "pre = p @ [CHR 0x0A]"
  shows "\<exists>x y. pre @ h @ post = x @ mutation_marker @ y"
proof -
  have eq: "a @ mutation_marker @ b = pre @ post" using assms(1,2) by simp
  consider us where "a = pre @ us" "us @ mutation_marker @ b = post"
    | us where "pre = a @ us" "mutation_marker @ b = us @ post"
    using eq by (auto simp: append_eq_append_conv2)
  then show ?thesis
  proof cases
    case 1
    then have "pre @ h @ post = (pre @ h @ us) @ mutation_marker @ b" by simp
    then show ?thesis by blast
  next
    case 2
    consider vs where "mutation_marker = us @ vs" "post = vs @ b" | vs where "us = mutation_marker @ vs" "b = vs @ post"
      using 2(2) by (auto simp: append_eq_append_conv2)
    then show ?thesis
    proof cases
      case in_marker: 1
      show ?thesis
      proof (cases us rule: rev_cases)
        case Nil
        then have "pre @ h @ post = (a @ h) @ mutation_marker @ b" using 2(1) in_marker by simp
        then show ?thesis by blast
      next
        case (snoc us' c)
        then have "c = CHR 0x0A" using 2(1) assms(3) by simp
        then have "vs = []" using mutation_marker_inner [of us' vs] in_marker(1) snoc by simp
        then have "pre @ h @ post = a @ mutation_marker @ h @ post" using 2(1) in_marker(1) by simp
        then show ?thesis by blast
      qed
    next
      case after: 2
      then have "pre @ h @ post = a @ mutation_marker @ vs @ h @ post" using 2(1) by simp
      then show ?thesis by blast
    qed
  qed
qed

lemma batch_script_marker: "\<exists>a b. BuildBatchScript config cmds \<noteq> [] \<longrightarrow> BuildBatchScript config cmds = a @ mutation_marker @ b"
proof -
  obtain t where t: "rollback_after_restart config = t @ mutation_marker"
    by (auto simp: rollback_after_restart_def mutation_marker_def unlines_Cons unlines_Nil)
  let ?a = "script_start @ lock_text @ rollback_before_restart config @ rollback_restart_line (restart_command config) @ t"
  let ?b = "mutation_text cmds @ [CHR 0x0A] @ phases_before_restart config @ restart_command config @ [CHR 0x0A] @ phases_after_restart config"
  have "BuildBatchScript config cmds = ?a @ mutation_marker @ ?b" if "BuildBatchScript config cmds \<noteq> []"
    using that by (simp add: batch_script_eq script_before_restart_def t split: if_splits)
  then show ?thesis by blast
qed

lemma guarded_script_exists:
  assumes "BuildBatchScript config cmds \<noteq> []" "hash \<noteq> []"
  shows "\<exists>script. buildGuardedRolloutScript config cmds hc hash = Some script"
proof -
  obtain p where p: "phases_before_restart config = p @ restart_marker" using phases_before_restart_marker by blast
  let ?r = "script_start @ lock_text @ rollback_before_restart config @ rollback_restart_line (restart_command config)
      @ rollback_after_restart config @ mutation_text cmds @ [CHR 0x0A] @ p"
  have "BuildBatchScript config cmds = ?r @ restart_marker @ restart_command config @ [CHR 0x0A] @ phases_after_restart config"
    using assms(1) by (simp add: batch_script_eq script_before_restart_def p split: if_splits)
  from safe_script_insertion [OF this, of hc] obtain pre post q where
      B: "BuildBatchScript config cmds = pre @ post" "pre = q @ [CHR 0x0A]"
      and safe: "BuildSafeBatchScript config cmds hc = pre @ health_text (effective_targets hc) @ post"
    by (metis append.assoc)
  obtain a b where "BuildBatchScript config cmds = a @ mutation_marker @ b" using batch_script_marker assms(1) by blast
  from marker_survives [OF this B] obtain x y where xy: "BuildSafeBatchScript config cmds hc = x @ mutation_marker @ y"
    unfolding safe by blast
  with index_of_first [of x mutation_marker y] obtain i where "index_of (BuildSafeBatchScript config cmds hc) mutation_marker = Some i"
    by auto
  moreover have "BuildSafeBatchScript config cmds hc \<noteq> []" unfolding safe B(2) by simp
  ultimately show ?thesis using assms(2) by (simp add: buildGuardedRolloutScript_def Let_def)
qed


definition sample_template :: site_config where
  "sample_template = (empty_site ''site-1'')\<lparr>sc_hostname_prefix := ''nerve'', sc_dropbear_port := 22,
     sc_wan_interfaces := Some (JArr []), sc_benchmark_baseline := Some (JObj []), sc_topology_metadata := Some (JObj []),
     sc_health_checks := Some (JArr [])\<rparr>"

definition sample_dropbear :: "uci_command list" where
  "sample_dropbear = [mk_uci ''set'' ''dropbear'' ''@dropbear[0]'' ''Port'' ''22'',
     mk_uci ''set'' ''dropbear'' ''@dropbear[0]'' ''PasswordAuth'' ''off'']"

definition sample_render :: render_result where
  "sample_render = \<lparr>rn_device = ''dev-1'', rn_hostname = ''ap-1'', rn_role = ''AP'', rn_last_ip = [], rn_commands = sample_dropbear\<rparr>"

lemma sample_preview_steps:
  "trim_space (pq_namespace sample_preview_request) = ''dropbear''"
  "requestedChangeSetNamespaces ''dropbear'' = Some [''dropbear'']"
  "ValidateSQM sample_template = None"
  "rolloutHealthTargets sample_template = Some [''1.1.1.1'']"
  "filterRolloutResultsByNamespace (RenderSiteConfig sample_template [sample_ap]) ''dropbear'' = Some [sample_render]"
  "sortedConfigNames sample_dropbear = [''dropbear'']"
  "filterUCICommandsByObservedState (groupCommandsByConfig sample_dropbear ''dropbear'') (parseUciShow (uci_show ''dropbear'' []) ''dropbear'')
     = sample_dropbear"
  "groupCommandsByConfig sample_dropbear ''dropbear'' = sample_dropbear"
  "\<not> rejectUnsafeNetworkMutations [sample_render]"
  "valid_uci_name ''dropbear'' \<and> batch_accepts ''dropbear'' sample_dropbear"
  "getTenantSchema ''tenant_a'' = Inr ''tenant_a''"
  by code_simp+


lemma sample_preflight:
  "preflightRenderedResultsWithState (pv_show sample_preview_env) [sample_render]
     = Some ([sample_render], [''dev-1'' \<mapsto> [(''dropbear'', observedStateHash (uci_show ''dropbear'' []))]])"
  using sample_preview_steps(6,7) by (simp add: sample_preview_env_def sample_render_def)

lemma observed_hash_nonempty: "observedStateHash out \<noteq> []"
  unfolding observedStateHash_def by (metis sha256_hex_length list.size(3) zero_neq_numeral)

definition sample_draft_device :: "string \<Rightarrow> draft_device" where
  "sample_draft_device script =
     \<lparr>dd_id = ''dev-1'', dd_hostname = ''ap-1'', dd_role = ''AP'', dd_commands = Some sample_dropbear,
      dd_preview = Some (PreviewCommands sample_dropbear), dd_scripts = Some [(''dropbear'', script)],
      dd_observed = Some [(''dropbear'', observedStateHash (uci_show ''dropbear'' []))]\<rparr>"

lemma sample_draft_build:
  "\<exists>script. buildRolloutDraft ''site-1'' [] [''1.1.1.1''] [sample_render]
       [''dev-1'' \<mapsto> [(''dropbear'', observedStateHash (uci_show ''dropbear'' []))]]
     = Inr \<lparr>dp_site = ''site-1'', dp_target = [], dp_namespace = [], dp_health_checks = Some [''1.1.1.1''],
            dp_devices = Some [sample_draft_device script]\<rparr>"
proof -
  have "BuildBatchScript ''dropbear'' sample_dropbear \<noteq> []"
    using sample_preview_steps(10) by (simp only: BuildBatchScript_nonempty)
  from guarded_script_exists [OF this observed_hash_nonempty] obtain script where
      "buildGuardedRolloutScript ''dropbear'' sample_dropbear [''1.1.1.1''] (observedStateHash (uci_show ''dropbear'' [])) = Some script"
    by blast
  then have "device_scripts sample_dropbear [''1.1.1.1''] [(''dropbear'', observedStateHash (uci_show ''dropbear'' []))]
      (sortedConfigNames sample_dropbear) = Some [(''dropbear'', script)]"
    unfolding sample_preview_steps(6) by (simp add: entry_def sample_preview_steps(8))
  moreover have "concat (sequentialFleetRolloutPhases [sample_render]) = [0]"
    by (simp add: sequentialFleetRolloutPhases_def)
  ultimately show ?thesis
    by (intro exI [of _ script])
      (simp add: buildRolloutDraft_def draft_device_of_def andthen_def sample_draft_device_def sample_render_def Let_def)
qed

definition sample_fleet :: fleet_state where
  "sample_fleet = \<lparr>fs_sites = [''site-1'' \<mapsto> sample_template], fs_tenant = sample_cs_db, fs_audit = []\<rparr>"

lemma sample_preview:
  "\<exists>script rec s'. PreviewSyncHandler sample_preview_env sample_preview_request sample_fleet
     = (Previewed rec \<lparr>dp_site = ''site-1'', dp_target = [], dp_namespace = ''dropbear'', dp_health_checks = Some [''1.1.1.1''],
            dp_devices = Some [sample_draft_device script]\<rparr> (rolloutDevicePreviews \<lparr>dp_site = ''site-1'', dp_target = [], dp_namespace = ''dropbear'', dp_health_checks = Some [''1.1.1.1''],
            dp_devices = Some [sample_draft_device script]\<rparr>), s')"
proof -
  obtain script where b: "buildRolloutDraft ''site-1'' [] [''1.1.1.1''] [sample_render]
       [''dev-1'' \<mapsto> [(''dropbear'', observedStateHash (uci_show ''dropbear'' []))]]
     = Inr \<lparr>dp_site = ''site-1'', dp_target = [], dp_namespace = [], dp_health_checks = Some [''1.1.1.1''],
            dp_devices = Some [sample_draft_device script]\<rparr>"
    using sample_draft_build by blast
  let ?p = "\<lparr>dp_site = ''site-1'', dp_target = [], dp_namespace = ''dropbear'', dp_health_checks = Some [''1.1.1.1''],
            dp_devices = Some [sample_draft_device script]\<rparr>"
  have site: "GetSiteConfig (fs_sites sample_fleet) ''site-1'' = Some sample_template"
    by (simp add: GetSiteConfig_def sample_fleet_def sample_template_def or_default_def)
  have "dropEmptyRolloutResults [sample_render] [''dev-1'' \<mapsto> [(''dropbear'', observedStateHash (uci_show ''dropbear'' []))]]
      = ([sample_render], [''dev-1'' \<mapsto> [(''dropbear'', observedStateHash (uci_show ''dropbear'' []))]])"
    by (simp add: dropEmptyRolloutResults_def sample_render_def sample_dropbear_def)
  moreover have "pv_devices sample_preview_env = Some [sample_ap]" "pq_site sample_preview_request = ''site-1''"
      "pq_schema sample_preview_request = ''tenant_a''" "pq_target sample_preview_request = []"
    by (simp_all add: sample_preview_env_def sample_preview_request_def)
  ultimately have "preview_plan sample_preview_env sample_preview_request (fs_sites sample_fleet) = Inr ?p"
    using sample_preview_steps site b sample_preflight
    by (simp add: preview_plan_def selectRolloutDevices_def)
  moreover have "\<exists>rec db. CreateRolloutDraft ''tenant_a'' 10 ''r-9'' ''site-1'' ''alice'' (rolloutPlanHash ?p)
      (Some (JArr (map (\<lambda>d. JStr (dd_id d)) (slice_elems (dp_devices ?p))))) (Some (draft_json ?p)) sample_cs_db = (Inr rec, db)"
  proof -
    have "isValidSchemaName ''tenant_a''" by code_simp
    then show ?thesis
      by (simp add: CreateRolloutDraft_def Let_def sample_cs_db_def sample_db_def next_sequence_def max_int64_def plan_hash_length)
  qed
  ultimately show ?thesis
    using sample_preview_steps(11)
    by (auto simp: PreviewSyncHandler_def sample_preview_env_def sample_preview_request_def sample_fleet_def auditRolloutEvent_def)
qed

theorem preview_roundtrip_witness:
  "\<exists>rec p views s'. PreviewSyncHandler sample_preview_env sample_preview_request sample_fleet = (Previewed rec p views, s')
     \<and> decodeRolloutDraft rec = Inr p \<and> map dd_id (slice_elems (dp_devices p)) = [''dev-1'']"
proof -
  obtain script rec s' views p where p: "PreviewSyncHandler sample_preview_env sample_preview_request sample_fleet = (Previewed rec p views, s')"
      "slice_elems (dp_devices p) = [sample_draft_device script]"
    using sample_preview by fastforce
  have "\<forall>all. pv_devices sample_preview_env = Some all \<longrightarrow> distinct (map dr_device all)" "runs_wf (fs_tenant sample_fleet)"
      "pv_new_id sample_preview_env \<notin> set (map rr_id (rollouts (fs_tenant sample_fleet)))"
    by (simp_all add: sample_preview_env_def sample_fleet_def sample_cs_db_def sample_db_def runs_wf_def)
  from preview_roundtrip [OF p(1) this] have "decodeRolloutDraft rec = Inr p" by blast
  with p show ?thesis by (auto simp: sample_draft_device_def)
qed

theorem preview_grounded_witness:
  "\<exists>rec p views s' d. PreviewSyncHandler sample_preview_env sample_preview_request sample_fleet = (Previewed rec p views, s')
     \<and> d \<in> set (slice_elems (dp_devices p))
     \<and> entry (slice_elems (dd_observed d)) ''dropbear'' = observedStateHash (uci_show ''dropbear'' [])"
proof -
  obtain script rec s' views p where p: "PreviewSyncHandler sample_preview_env sample_preview_request sample_fleet = (Previewed rec p views, s')"
      "slice_elems (dp_devices p) = [sample_draft_device script]"
    using sample_preview by fastforce
  let ?d = "sample_draft_device script" and ?c = "mk_uci ''set'' ''dropbear'' ''@dropbear[0]'' ''Port'' ''22''"
  have "\<forall>all. pv_devices sample_preview_env = Some all \<longrightarrow> distinct (map dr_device all)"
    by (simp add: sample_preview_env_def)
  moreover have d: "?d \<in> set (slice_elems (dp_devices p))" "?c \<in> set (slice_elems (dd_commands ?d))"
    by (simp_all add: p(2) sample_draft_device_def sample_dropbear_def)
  ultimately have "\<exists>out. pv_show sample_preview_env (dd_id ?d) (uc_config ?c) = Some out
      \<and> entry (slice_elems (dd_observed ?d)) (uc_config ?c) = observedStateHash out"
    using preview_grounded [OF p(1)] by blast
  with p(1) d(1) show ?thesis by (auto simp: sample_preview_env_def)
qed


section \<open>The upstream resolvers of a gateway\<close>

definition touches :: "string \<times> string \<Rightarrow> uci_command \<Rightarrow> bool" where
  "touches k c \<longleftrightarrow> uci_key c = k \<and> uc_action c \<in> {''set'', ''add_list'', ''delete'', ''del_list''}"

lemma uci_exec_untouched: "\<not> touches k c \<Longrightarrow> uci_exec c st k = st k"
  by (auto simp: touches_def uci_exec_def Let_def)

lemma fold_untouched: "\<forall>c \<in> set cmds. \<not> touches k c \<Longrightarrow> fold uci_exec cmds st k = st k"
  by (induction cmds arbitrary: st) (auto simp: uci_exec_untouched)

lemma filter_skip:
  assumes "\<not> touches k c"
  shows "\<exists>st'. st' k = st k \<and> fold uci_exec (filterUCICommandsByObservedState (c # later) secs) st
       = fold uci_exec (filterUCICommandsByObservedState later secs) st'"
  using uci_exec_untouched [OF assms, of st] by (cases "uc_option c \<noteq> [] \<and> (uciCommandMatchesObservedInPlan c later secs \<or> isDefaultDifference c)") auto

abbreviation resolvers :: "string \<times> string" where
  "resolvers \<equiv> (''@dnsmasq[0]'', ''server'')"

lemma reservations_untouched: "\<forall>c \<in> set (render_reservations cfg). \<not> touches k c \<and> uc_action c = ''ensure_host''"
  by (auto simp: render_reservations_def lease_command_def touches_def)

lemma other_groups:
  "groupCommandsByConfig (render_system cfg h) ''dhcp'' = []" "groupCommandsByConfig (render_network cfg lan) ''dhcp'' = []"
  "groupCommandsByConfig (render_firewall cfg) ''dhcp'' = []" "groupCommandsByConfig (render_forwards cfg) ''dhcp'' = []"
  "groupCommandsByConfig (render_sqm cfg) ''dhcp'' = []" "groupCommandsByConfig (render_portal cfg) ''dhcp'' = []"
  "groupCommandsByConfig (render_wans cfg) ''dhcp'' = []" "groupCommandsByConfig (render_dropbear cfg) ''dhcp'' = []"
proof -
  show "groupCommandsByConfig (render_system cfg h) ''dhcp'' = []" "groupCommandsByConfig (render_network cfg lan) ''dhcp'' = []"
    "groupCommandsByConfig (render_firewall cfg) ''dhcp'' = []" "groupCommandsByConfig (render_sqm cfg) ''dhcp'' = []"
    "groupCommandsByConfig (render_portal cfg) ''dhcp'' = []" "groupCommandsByConfig (render_dropbear cfg) ''dhcp'' = []"
    by (simp_all add: groupCommandsByConfig_def render_system_def render_network_def render_firewall_def render_sqm_def
        render_portal_def render_dropbear_def Let_def)
  show "groupCommandsByConfig (render_forwards cfg) ''dhcp'' = []"
    by (auto simp: groupCommandsByConfig_def render_forwards_def redirect_commands_def Let_def filter_empty_conv)
  have "\<forall>c \<in> set (wan_commands w). uc_config c \<noteq> ''dhcp''" for w by (simp add: wan_commands_def Let_def)
  then show "groupCommandsByConfig (render_wans cfg) ''dhcp'' = []"
    by (auto simp: groupCommandsByConfig_def render_wans_def renderMwan3Commands_def Let_def filter_empty_conv)
qed

lemma dhcp_group:
  assumes "rn_role (render_device cfg i dev) = ''Gateway''"
  shows "\<exists>lan. groupCommandsByConfig (rn_commands (render_device cfg i dev)) ''dhcp'' = render_dhcp cfg lan @ render_reservations cfg"
proof -
  have app: "groupCommandsByConfig (xs @ ys) n = groupCommandsByConfig xs n @ groupCommandsByConfig ys n" for xs ys n
    by (simp add: groupCommandsByConfig_def)
  have "groupCommandsByConfig (render_dhcp cfg lan) ''dhcp'' = render_dhcp cfg lan" for lan
    by (simp add: groupCommandsByConfig_def render_dhcp_def)
  moreover have "groupCommandsByConfig (render_reservations cfg) ''dhcp'' = render_reservations cfg"
    by (simp add: groupCommandsByConfig_def render_reservations_def lease_command_def filter_id_conv)
  ultimately show ?thesis
    using assms by (auto simp: render_device_def Let_def render_gateway_def app other_groups)
qed

lemma resolvers_filtered:
  assumes "observed_options secs resolvers = Some vs" "p \<in> set vs" "vs \<noteq> [p, q]"
    "\<forall>c \<in> set res. \<not> touches resolvers c \<and> uc_action c = ''ensure_host''" "st resolvers = Some vs"
  shows "\<forall>ws. fold uci_exec (filterUCICommandsByObservedState
      (mk_uci ''delete'' ''dhcp'' ''@dnsmasq[0]'' ''server'' [] # mk_uci ''add_list'' ''dhcp'' ''@dnsmasq[0]'' ''server'' p
        # mk_uci ''add_list'' ''dhcp'' ''@dnsmasq[0]'' ''server'' q # res) secs) st resolvers = Some ws \<longrightarrow> p \<notin> set ws"
proof -
  let ?del = "mk_uci ''delete'' ''dhcp'' ''@dnsmasq[0]'' ''server'' []" and ?add = "mk_uci ''add_list'' ''dhcp'' ''@dnsmasq[0]'' ''server''"
  obtain s v where s: "find (\<lambda>s. uciSectionMatchesReference ''@dnsmasq[0]'' s secs) secs = Some s"
      "us_options s ''server'' = Some v" "uciOptionValues v = vs"
    using assms(1) by (auto simp: observed_options_def observedUCIOption_def split: option.splits)
  then have mem: "s \<in> set secs" "uciSectionMatchesReference ''@dnsmasq[0]'' s secs" by (auto simp: find_Some_iff)
  have "\<not> list_ex (\<lambda>l. uc_action l \<in> {''delete'', ''set'', ''del_list''}) (filter (\<lambda>l. same_target l ?del) (?add p # ?add q # res))"
    "filter (\<lambda>l. uc_action l = ''add_list'') (filter (\<lambda>l. same_target l ?del) (?add p # ?add q # res)) = [?add p, ?add q]"
    using assms(4) by (auto simp: list_ex_iff same_target_def filter_empty_conv)
  then have "plannedListAfterDelete ?del (?add p # ?add q # res) = Some [p, q]"
    unfolding plannedListAfterDelete_def Let_def by simp
  then have kept: "\<not> uciCommandMatchesObservedInPlan ?del (?add p # ?add q # res) secs"
    using assms(3) s by (simp add: uciCommandMatchesObservedInPlan_def observedUCIOption_def uciListEquals_def)
  have gone: "uciCommandMatchesObservedInPlan (?add x) later secs" if "x \<in> set vs" for x later
    using that s(2,3) mem
    by (force simp: uciCommandMatchesObservedInPlan_def uciCommandMatchesObserved_def uciCommandValueMatches_def uciOptionContains_def list_ex_iff)
  have rest: "\<forall>c \<in> set (filterUCICommandsByObservedState res secs). \<not> touches resolvers c"
    using filter_observed_subset [of res secs] assms(4) by blast
  have d: "uci_exec ?del st resolvers = None" by (simp add: uci_exec_def uci_key_def Let_def)
  then have a: "uci_exec (?add q) (uci_exec ?del st) resolvers = Some [q]"
    by (simp add: uci_exec_def [of "?add q"] uci_key_def Let_def)
  show ?thesis
  proof (cases "uciCommandMatchesObservedInPlan (?add q) res secs")
    case True
    then show ?thesis using kept gone [OF assms(2)] d fold_untouched [OF rest] by (simp add: isDefaultDifference_def)
  next
    case False
    then have "p \<noteq> q" using gone [of q res] assms(2) by auto
    with False show ?thesis using kept gone [OF assms(2)] a fold_untouched [OF rest] by (simp add: isDefaultDifference_def)
  qed
qed

text \<open>
  The preflight loses resolvers: if a gateway already uses the primary resolver of the template but
  not exactly the two of the template, the filter keeps the deletion of the list and drops the command
  that adds the primary resolver again. The full plan ends with both resolvers, the filtered plan, which
  is what the draft stores, without the primary one.
\<close>

theorem dns_servers_lost:
  assumes "r \<in> set (RenderSiteConfig cfg devs)" "rn_role r = ''Gateway''"
    "observed_options secs resolvers = Some vs" "sc_dns_primary cfg \<in> set vs" "vs \<noteq> [sc_dns_primary cfg, sc_dns_secondary cfg]"
  shows "fold uci_exec (groupCommandsByConfig (rn_commands r) ''dhcp'') (observed_options secs) resolvers
       = Some [sc_dns_primary cfg, sc_dns_secondary cfg]
    \<and> (\<forall>ws. fold uci_exec (filterUCICommandsByObservedState (groupCommandsByConfig (rn_commands r) ''dhcp'') secs)
          (observed_options secs) resolvers = Some ws \<longrightarrow> sc_dns_primary cfg \<notin> set ws)"
proof -
  obtain lan where plan: "groupCommandsByConfig (rn_commands r) ''dhcp'' = render_dhcp cfg lan @ render_reservations cfg"
    using rendered [OF assms(1)] dhcp_group assms(2) by blast
  let ?c = "\<lambda>opt v. mk_uci ''set'' ''dhcp'' lan opt v"
  have un: "\<not> touches resolvers (?c ''start'' v)" "\<not> touches resolvers (?c ''limit'' v)" "\<not> touches resolvers (?c ''leasetime'' v)" for v
    by (simp_all add: touches_def uci_key_def)
  note res = reservations_untouched [of cfg resolvers]
  have "fold uci_exec (render_dhcp cfg lan @ render_reservations cfg) (observed_options secs) resolvers
      = fold uci_exec (render_dhcp cfg lan) (observed_options secs) resolvers"
    unfolding fold_append comp_def using res by (intro fold_untouched) blast
  also have "\<dots> = Some [sc_dns_primary cfg, sc_dns_secondary cfg]"
    by (simp add: render_dhcp_def uci_exec_def uci_key_def Let_def)
  finally have full: "fold uci_exec (groupCommandsByConfig (rn_commands r) ''dhcp'') (observed_options secs) resolvers
      = Some [sc_dns_primary cfg, sc_dns_secondary cfg]" by (simp only: plan)
  let ?tail = "mk_uci ''delete'' ''dhcp'' ''@dnsmasq[0]'' ''server'' [] # mk_uci ''add_list'' ''dhcp'' ''@dnsmasq[0]'' ''server'' (sc_dns_primary cfg)
        # mk_uci ''add_list'' ''dhcp'' ''@dnsmasq[0]'' ''server'' (sc_dns_secondary cfg) # render_reservations cfg"
  obtain st where st: "st resolvers = observed_options secs resolvers"
      "fold uci_exec (filterUCICommandsByObservedState (groupCommandsByConfig (rn_commands r) ''dhcp'') secs) (observed_options secs)
       = fold uci_exec (filterUCICommandsByObservedState ?tail secs) st"
    unfolding plan render_dhcp_def append_Cons append_Nil
    using filter_skip [OF un(1)] filter_skip [OF un(2)] filter_skip [OF un(3)] by metis
  show ?thesis
    using full resolvers_filtered [OF assms(3-5) res, of st] st assms(3) by simp
qed


definition sample_resolver_site :: site_config where
  "sample_resolver_site = (empty_site ''site-1'')\<lparr>sc_dns_primary := ''9.9.9.9'', sc_dns_secondary := ''1.1.1.1''\<rparr>"

definition sample_swapped :: "uci_section list" where
  "sample_swapped = [section_of (''@dnsmasq[0]'', ''dnsmasq'', [(''server'', [''1.1.1.1'', ''9.9.9.9''])])]"

theorem dns_servers_lost_witness:
  "\<exists>r. r \<in> set (RenderSiteConfig sample_resolver_site [sample_gateway])
     \<and> (\<forall>ws. fold uci_exec (filterUCICommandsByObservedState (groupCommandsByConfig (rn_commands r) ''dhcp'') sample_swapped)
          (observed_options sample_swapped) resolvers = Some ws \<longrightarrow> ''9.9.9.9'' \<notin> set ws)"
proof -
  let ?r = "render_device sample_resolver_site 0 sample_gateway"
  have r: "?r \<in> set (RenderSiteConfig sample_resolver_site [sample_gateway])" "rn_role ?r = ''Gateway''"
    by (simp_all add: RenderSiteConfig_def render_device_def sample_gateway_def Let_def)
  have o: "observed_options sample_swapped resolvers = Some [''1.1.1.1'', ''9.9.9.9'']" by code_simp
  have "sc_dns_primary sample_resolver_site \<in> set [''1.1.1.1'', ''9.9.9.9'']"
      "[''1.1.1.1'', ''9.9.9.9''] \<noteq> [sc_dns_primary sample_resolver_site, sc_dns_secondary sample_resolver_site]"
    by (simp_all add: sample_resolver_site_def)
  from dns_servers_lost [OF r o this] have "\<forall>ws. fold uci_exec (filterUCICommandsByObservedState (groupCommandsByConfig (rn_commands ?r) ''dhcp'') sample_swapped)
          (observed_options sample_swapped) resolvers = Some ws \<longrightarrow> ''9.9.9.9'' \<notin> set ws"
    by (simp add: sample_resolver_site_def)
  with r(1) show ?thesis by blast
qed

section \<open>One plan, two builders of changesets\<close>

text \<open>The plan as the worker decodes it, from the plan as the handler does.\<close>

definition worker_device :: "draft_device \<Rightarrow> rollout_device" where
  "worker_device d =
     \<lparr>rv_id = dd_id d, rv_hostname = dd_hostname d, rv_role = dd_role d, rv_commands = slice_elems (dd_commands d),
      rv_observed = rev (slice_elems (dd_observed d))\<rparr>"

definition worker_plan :: "draft_plan \<Rightarrow> rollout_plan" where
  "worker_plan p =
     \<lparr>pn_health_checks = dp_health_checks p, pn_namespace = dp_namespace p,
      pn_devices = map worker_device (slice_elems (dp_devices p))\<rparr>"

lemma fold_str_map_json: "fold_str_map [] [map_json m] = Some (rev (slice_elems m))"
proof (cases m)
  case (Some kvs)
  have "all_some (map ((\<lambda>(k, v). map_option (Pair k) (elem_str v)) \<circ> (\<lambda>(k, v). (k, JStr v))) kvs) = Some kvs"
    by (intro all_some_map_dec) (auto simp: elem_str_def)
  then show ?thesis by (simp add: Some map_json_def)
qed (simp add: map_json_def)

lemma worker_decodes_device: "dec_rollout_device (draft_device_json d) = Some (worker_device d)"
proof -
  have "fold_slice dec_command None [slice_json command_json (dd_commands d)] = Some (dd_commands d)"
    by (rule fold_slice_json_on) simp
  then show ?thesis
    by (simp add: dec_rollout_device_def draft_device_json_def go_obj_def go_str_def go_slice_def go_str_map_def
        draft_entries fold_str_map_json worker_device_def)
qed

lemma fold_slice_map:
  assumes "\<And>x. dec (enc x) = Some (f x)"
  shows "fold_slice dec None [slice_json enc xs] = Some (map_option (map f) xs)"
proof (cases xs)
  case (Some ys)
  have "all_some (map (\<lambda>x. dec (enc x)) ys) = Some (map f ys)" by (simp add: assms)
  then show ?thesis by (simp add: Some slice_json_def comp_def)
qed (simp add: slice_json_def)

lemma worker_decodes_draft: "dec_rollout_plan (draft_json p) = Some (worker_plan p)"
proof -
  have "fold_slice elem_str None [slice_json JStr (dp_health_checks p)] = Some (dp_health_checks p)"
    by (rule fold_slice_json_on) (simp add: elem_str_def)
  moreover have "fold_slice dec_rollout_device None [slice_json draft_device_json (dp_devices p)]
      = Some (map_option (map worker_device) (dp_devices p))"
    by (rule fold_slice_map) (rule worker_decodes_device)
  moreover have "slice_elems (map_option (map worker_device) (dp_devices p)) = map worker_device (slice_elems (dp_devices p))"
    by (cases "dp_devices p") simp_all
  ultimately show ?thesis
    by (simp add: dec_rollout_plan_def draft_json_def go_obj_def go_str_def go_slice_def draft_entries worker_plan_def)
qed

lemma canonical_distinct: "canonical m \<Longrightarrow> distinct (map fst m)"
  unfolding canonical_def by (simp add: strict_sorted_iff)

lemma map_of_rev:
  assumes "distinct (map fst m)"
  shows "map_of (rev m) k = map_of m k"
proof (cases "map_of m k")
  case None
  moreover from this have "map_of (rev m) k = None" unfolding map_of_eq_None_iff by simp
  ultimately show ?thesis by simp
next
  case (Some v)
  moreover have "distinct (map fst (rev m))" using assms by (simp add: rev_map [symmetric])
  ultimately show ?thesis using assms by (simp add: map_of_eq_Some_iff)
qed

lemma entry_rev: "canonical m \<Longrightarrow> (case map_of (rev m) k of None \<Rightarrow> [] | Some s \<Rightarrow> s) = entry m k"
  by (simp add: entry_def map_of_rev canonical_distinct)

lemma relabel_Inr: "(case x of Inl e \<Rightarrow> Inl (f e) | Inr c \<Rightarrow> Inr c) = Inr y \<longleftrightarrow> x = Inr y"
  by (cases x) simp_all

lemma operations_agree:
  assumes "canonical observed"
  shows "draft_operations i observed cmds nss = Inr ops \<Longrightarrow> gather_operations (rev observed) cmds nss = Some ops"
proof (induction nss arbitrary: ops)
  case (Cons ns nss)
  then show ?case
    using entry_rev [OF assms, of ns]
    by (auto simp: groupCommandsByConfig_def Let_def andthen_Inr_iff split: if_splits)
qed simp

text \<open>
  The handler and the worker agree: from the stored document the worker decodes the handler's plan,
  and for every device for which the handler can build a changeset the worker gathers the same
  operations and builds the same changeset, hash and identities included. So the phase a worker queues
  later is the one the handler recorded as waiting.
\<close>

theorem worker_builds_same_changeset:
  assumes "draft_canonical p" "d \<in> set (slice_elems (dp_devices p))" "buildDeviceChangeSet rolloutID p d = Inr cs"
  shows "dec_rollout_plan (draft_json p) = Some (worker_plan p)
    \<and> worker_device d \<in> set (pn_devices (worker_plan p))
    \<and> (\<exists>ops. device_operations (worker_plan p) (worker_device d) = Some ops
         \<and> NewDeviceChangeSetForRolloutOperations rolloutID (rv_id (worker_device d)) ops
             (slice_elems (pn_health_checks (worker_plan p))) ConfirmationLocalAuto = Inr cs)"
proof -
  obtain nss ops where b: "requestedChangeSetNamespaces (dp_namespace p) = Some nss"
      "find (\<lambda>c. uc_config c \<notin> set nss) (slice_elems (dd_commands d)) = None"
      "draft_operations (dd_id d) (slice_elems (dd_observed d)) (slice_elems (dd_commands d)) safe_namespaces = Inr ops"
      "NewDeviceChangeSetForRolloutOperations rolloutID (dd_id d) ops (slice_elems (dp_health_checks p)) ConfirmationLocalAuto = Inr cs"
    using assms(3) by (auto simp: buildDeviceChangeSet_def Let_def andthen_Inr_iff relabel_Inr split: option.splits if_splits)
  have "set (plan_namespaces (worker_plan p)) = set nss"
    using b(1) by (auto simp: requestedChangeSetNamespaces_def Let_def plan_namespaces_def worker_plan_def list_all_iff split: if_splits)
  then have "list_all (\<lambda>c. uc_config c \<in> set (plan_namespaces (worker_plan p))) (slice_elems (dd_commands d))"
    using b(2) by (auto simp: find_None_iff list_all_iff)
  moreover have "canonical (slice_elems (dd_observed d))" using assms(1,2) by (simp add: draft_canonical_def)
  ultimately have "device_operations (worker_plan p) (worker_device d) = Some ops"
    using operations_agree b(3) by (simp add: device_operations_def worker_device_def)
  with b(4) assms(2) show ?thesis
    by (simp add: worker_decodes_draft) (simp add: worker_plan_def worker_device_def)
qed

definition sample_built_device :: draft_device where
  "sample_built_device = (sample_draft_device [])\<lparr>dd_observed := Some [(''dropbear'', replicate 64 CHR ''0'')]\<rparr>"

definition sample_built_plan :: draft_plan where
  "sample_built_plan =
     \<lparr>dp_site = ''site-1'', dp_target = [], dp_namespace = ''dropbear'', dp_health_checks = None,
      dp_devices = Some [sample_built_device]\<rparr>"

lemma sample_operation_checks:
  "ValidateDeviceOperation ''dropbear'' sample_dropbear None = Inr ()" "deviceChangeSetConfigAllowed ''dropbear''"
  "validDeviceOperationPlanHash (replicate 64 CHR ''0'')" "validDeviceChangeSetDeviceID ''dev-1''"
  by code_simp+

lemma sample_build: "\<exists>cs. buildDeviceChangeSet ''r-1'' sample_built_plan sample_built_device = Inr cs"
proof -
  let ?op = "\<lparr>co_operation_id = [], co_config = ''dropbear'', co_commands = sample_dropbear, co_observed_hash = replicate 64 CHR ''0''\<rparr>"
  obtain cs where "NewDeviceChangeSetForRolloutOperations ''r-1'' ''dev-1'' [?op] [] ''local_auto'' = Inr cs"
    using single_rollout_change_set [of ?op "''dev-1''" "''r-1''"] sample_operation_checks by auto
  moreover have "draft_operations ''dev-1'' [(''dropbear'', replicate 64 CHR ''0'')] sample_dropbear safe_namespaces = Inr [?op]"
    by code_simp
  moreover have "find (\<lambda>c. uc_config c \<notin> set [''dropbear'']) sample_dropbear = None" "sample_dropbear \<noteq> []"
    by (simp_all add: sample_dropbear_def)
  ultimately show ?thesis
    using sample_preview_steps(2)
    by (simp add: buildDeviceChangeSet_def sample_built_plan_def sample_built_device_def sample_draft_device_def
        andthen_def ConfirmationLocalAuto_def)
qed

theorem worker_builds_same_changeset_witness:
  "\<exists>cs ops. buildDeviceChangeSet ''r-1'' sample_built_plan sample_built_device = Inr cs
     \<and> device_operations (worker_plan sample_built_plan) (worker_device sample_built_device) = Some ops
     \<and> NewDeviceChangeSetForRolloutOperations ''r-1'' ''dev-1'' ops [] ConfirmationLocalAuto = Inr cs"
proof -
  obtain cs where cs: "buildDeviceChangeSet ''r-1'' sample_built_plan sample_built_device = Inr cs"
    using sample_build by blast
  have c: "draft_canonical sample_built_plan" "sample_built_device \<in> set (slice_elems (dp_devices sample_built_plan))"
    by (simp_all add: sample_built_plan_def draft_canonical_def sample_built_device_def sample_draft_device_def canonical_def)
  have p: "rv_id (worker_device sample_built_device) = ''dev-1''" "pn_health_checks (worker_plan sample_built_plan) = None"
    by (simp_all add: worker_device_def worker_plan_def sample_built_plan_def sample_built_device_def sample_draft_device_def)
  from worker_builds_same_changeset [OF c cs, unfolded p] cs show ?thesis by auto
qed

end
