(* ===== verification/Fleet_Sync.thy ===== *)
theory Fleet_Sync
  imports Rollout_Planning
begin

text \<open>
  The synchronisation of a fleet, \<open>SyncFleetHandler\<close> and its helpers in
  \<open>src/internal/api/handlers/site_orchestrator.go\<close>. A stored draft is executed in one of two ways:
  a draft of selected namespaces is queued as changesets for the device agents, a draft of the whole
  template is claimed, checked against the devices, backed up and run over SSH, one device after the
  other. The SSH sessions, the backups, the clock, the claim token, the success of audit inserts, the
  parser of rollout ids (\<open>github.com/google/uuid\<close>) and the wording of error texts are arguments. The
  sessions a request opens are part of its result.
\<close>

section \<open>Results of a rollout\<close>

record fleet_result =
  fr_device :: string
  fr_hostname :: string
  fr_role :: string
  fr_status :: string
  fr_cs_state :: string
  fr_output :: string
  fr_error :: string
  fr_cmd_count :: int
  fr_cs_id :: string
  fr_plan_hash :: string
  fr_generation :: int

definition empty_result :: fleet_result where
  "empty_result =
     \<lparr>fr_device = [], fr_hostname = [], fr_role = [], fr_status = [], fr_cs_state = [], fr_output = [], fr_error = [],
      fr_cmd_count = 0, fr_cs_id = [], fr_plan_hash = [], fr_generation = 0\<rparr>"

definition omit_empty :: "string \<Rightarrow> string \<Rightarrow> (string \<times> json) list" where
  "omit_empty k s = (if s = [] then [] else [(k, JStr s)])"

definition fleet_result_json :: "fleet_result \<Rightarrow> json" where
  "fleet_result_json r = JObj
     ([(''device_id'', JStr (fr_device r)), (''hostname'', JStr (fr_hostname r)), (''role'', JStr (fr_role r)),
       (''status'', JStr (fr_status r))]
      @ omit_empty ''change_set_state'' (fr_cs_state r) @ [(''output'', JStr (fr_output r))]
      @ omit_empty ''error'' (fr_error r) @ [(''cmd_count'', JNum (fr_cmd_count r))]
      @ omit_empty ''change_set_id'' (fr_cs_id r) @ omit_empty ''plan_hash'' (fr_plan_hash r)
      @ (if fr_generation r = 0 then [] else [(''device_generation'', JNum (fr_generation r))]))"

definition dec_fleet_result :: "json \<Rightarrow> fleet_result option" where
  "dec_fleet_result j =
     (case go_obj j of
        None \<Rightarrow> None
      | Some kvs \<Rightarrow>
          (case (go_str ''device_id'' kvs, go_str ''hostname'' kvs, go_str ''role'' kvs, go_str ''status'' kvs,
                 go_str ''change_set_state'' kvs, go_str ''output'' kvs, go_str ''error'' kvs, go_int ''cmd_count'' kvs,
                 go_str ''change_set_id'' kvs, go_str ''plan_hash'' kvs, go_int ''device_generation'' kvs) of
             (Some i, Some h, Some ro, Some st, Some cst, Some out, Some err, Some n, Some c, Some ph, Some g) \<Rightarrow>
               Some \<lparr>fr_device = i, fr_hostname = h, fr_role = ro, fr_status = st, fr_cs_state = cst, fr_output = out,
                     fr_error = err, fr_cmd_count = n, fr_cs_id = c, fr_plan_hash = ph, fr_generation = g\<rparr>
           | _ \<Rightarrow> None))"

definition maxRolloutDiagnosticBytes :: nat where
  "maxRolloutDiagnosticBytes = 4096"

definition boundedRolloutDiagnostic :: "string \<Rightarrow> string" where
  "boundedRolloutDiagnostic v =
     (if length v \<le> maxRolloutDiagnosticBytes then v
      else take maxRolloutDiagnosticBytes v @ CHR 0x0A # ''[diagnostic output truncated]'')"

definition rolloutResultSuccess :: "string \<Rightarrow> bool" where
  "rolloutResultSuccess st \<longleftrightarrow> st = ''SUCCESS'' \<or> st = ''SKIPPED''"

definition stripFleetSyncOutput :: "fleet_result list \<Rightarrow> fleet_result list" where
  "stripFleetSyncOutput rs = map (\<lambda>r. r\<lparr>fr_output := boundedRolloutDiagnostic (fr_output r)\<rparr>) rs"

section \<open>Phases\<close>

definition fleetSyncMaxConcurrency :: nat where
  "fleetSyncMaxConcurrency = 4"

function phases_from :: "nat \<Rightarrow> nat \<Rightarrow> nat list list" where
  "phases_from start n =
     (if start < n
      then [start ..< min (start + fleetSyncMaxConcurrency) n] # phases_from (start + fleetSyncMaxConcurrency) n
      else [])"
  by auto
termination
  by (relation "measure (\<lambda>(start, n). n - start)") (simp_all add: fleetSyncMaxConcurrency_def)

declare phases_from.simps [simp del]

definition fleetRolloutPhases :: "nat \<Rightarrow> nat list list" where
  "fleetRolloutPhases n = (if n = 0 then [] else [0] # phases_from 1 n)"

definition orderedFleetRolloutPhases :: "nat \<Rightarrow> nat list list" where
  "orderedFleetRolloutPhases n = map (\<lambda>i. [i]) [0 ..< n]"

section \<open>The world of a request\<close>

datatype target_error =
    StaleHash string string | StaleState string string | TransportState string string
  | TransportSchema | StaleTarget string | StaleRole string | StaleOperation string | StaleChangeSet string

definition is_transport :: "target_error \<Rightarrow> bool" where
  "is_transport e \<longleftrightarrow> (case e of TransportState _ _ \<Rightarrow> True | TransportSchema \<Rightarrow> True | _ \<Rightarrow> False)"

datatype mark_error = MarkTenant db_error | MarkClaimLost | MarkConflict string

datatype persist_error = PersistTenant db_error | PersistClaimLost | PersistDevice string

datatype fleet_reason =
    ReasonDraft draft_error | ReasonNoDevices | ReasonNetwork | ReasonBuild build_error | ReasonCapability
  | ReasonNamespace string | ReasonCheck target_error | ReasonMark mark_error | ReasonPersist persist_error

datatype fleet_stage = AtReject | AtQueue | AtClaim | AtClose | AtMark | AtPersist

text \<open>How a session ends: its output and, when it fails, the exit status if there is one and the error text.\<close>

record ssh_outcome =
  so_output :: string
  so_failure :: "(int option \<times> string) option"

text \<open>
  \<open>fe_show b\<close> answers \<open>uci show\<close> before (\<open>b\<close> is false) and after the backup, \<open>fe_backup\<close> gives the error
  of a failed backup, and \<open>fe_run\<close> the outcome of the session for the position of the device in the
  draft, the namespace, the device and the script.
\<close>

record fleet_env =
  fe_now :: "fleet_stage \<Rightarrow> int"
  fe_token :: string
  fe_uuid :: "string \<Rightarrow> string option"
  fe_audit :: "string \<Rightarrow> bool"
  fe_show :: "bool \<Rightarrow> string \<Rightarrow> string \<Rightarrow> string option"
  fe_backup :: "string \<Rightarrow> string option"
  fe_run :: "nat \<Rightarrow> string \<Rightarrow> string \<Rightarrow> string \<Rightarrow> ssh_outcome"
  fe_wording :: "fleet_reason \<Rightarrow> string"

text \<open>The body is absent, not JSON, or a document.\<close>

record sync_request =
  sq_site :: string
  sq_schema :: string
  sq_username :: string
  sq_remote :: string
  sq_query :: string
  sq_body :: "raw_message option"

type_synonym session = "string \<times> string \<times> string"

definition audit_event :: "fleet_env \<Rightarrow> sync_request \<Rightarrow> string \<Rightarrow> string \<Rightarrow> fleet_state \<Rightarrow> fleet_state option" where
  "audit_event env req action payload s =
     auditRolloutEvent (fe_audit env action) (sq_username req) action (sq_site req) payload (sq_remote req) s"

definition validateRolloutID :: "fleet_env \<Rightarrow> string \<Rightarrow> string option" where
  "validateRolloutID env rolloutID = fe_uuid env rolloutID"

definition requestedRolloutID :: "fleet_env \<Rightarrow> sync_request \<Rightarrow> string option" where
  "requestedRolloutID env req =
     (let q = trim_space (sq_query req) in
      if q \<noteq> [] then validateRolloutID env q
      else case sq_body req of
             None \<Rightarrow> None
           | Some raw \<Rightarrow>
               (case Option.bind (Option.bind raw go_obj) (go_str ''rollout_id'') of
                  None \<Rightarrow> None
                | Some i \<Rightarrow> if trim_space i = [] then None else validateRolloutID env (trim_space i)))"

section \<open>Fences around the execution\<close>

definition assertRolloutClaim :: "string \<Rightarrow> string \<Rightarrow> tenant_db \<Rightarrow> bool" where
  "assertRolloutClaim rolloutID claimToken db \<longleftrightarrow>
     (case find (\<lambda>r. rr_id r = rolloutID \<and> rr_claim_token r = Some claimToken) (rollouts db) of
        None \<Rightarrow> False
      | Some r \<Rightarrow> rr_status r = ''RUNNING'')"

definition idle_device :: "string \<Rightarrow> device_row \<Rightarrow> bool" where
  "idle_device siteID d \<longleftrightarrow>
     dv_site d = Some siteID \<and> dv_pending_op d = None \<and> dv_pending_cs d = None
     \<and> coalesce (dv_rollout_status d) \<noteq> ''RUNNING''
     \<and> col_str ''state'' (dv_last_op d) \<noteq> ''RECOVERY_REQUIRED''
     \<and> col_str ''state'' (dv_last_cs d) \<noteq> ''RECOVERY_REQUIRED''"

definition device_role :: "device_row \<Rightarrow> string" where
  "device_role d = (case dv_role d of None \<Rightarrow> ''AP'' | Some r \<Rightarrow> r)"

definition set_rollout_status :: "int \<Rightarrow> string \<Rightarrow> device_row \<Rightarrow> device_row" where
  "set_rollout_status now st d = d\<lparr>dv_rollout_status := Some st, dv_rollout_at := Some now\<rparr>"

fun mark_devices :: "int \<Rightarrow> string \<Rightarrow> draft_device list \<Rightarrow> tenant_db \<Rightarrow> (mark_error + unit) \<times> tenant_db" where
  "mark_devices now siteID [] db = (Inr (), db)"
| "mark_devices now siteID (dd # dds) db =
     (case devices db (dd_id dd) of
        None \<Rightarrow> (Inl (MarkConflict (dd_id dd)), db)
      | Some d \<Rightarrow>
          if idle_device siteID d \<and> device_role d = dd_role dd
          then mark_devices now siteID dds (update_device (dd_id dd) (set_rollout_status now ''RUNNING'') db)
          else (Inl (MarkConflict (dd_id dd)), db))"

definition mark_site :: "int \<Rightarrow> string \<Rightarrow> tenant_db \<Rightarrow> tenant_db" where
  "mark_site now siteID db =
     db\<lparr>devices := (\<lambda>i. map_option (\<lambda>d. if idle_device siteID d then set_rollout_status now ''RUNNING'' d else d)
                          (devices db i))\<rparr>"

definition markRolloutDevicesRunning ::
  "string \<Rightarrow> int \<Rightarrow> string \<Rightarrow> string \<Rightarrow> string \<Rightarrow> draft_device list \<Rightarrow> tenant_db \<Rightarrow> (mark_error + unit) \<times> tenant_db" where
  "markRolloutDevicesRunning reqSchema now siteID rolloutID claimToken dds db =
     (case getTenantSchema reqSchema of
        Inl e \<Rightarrow> (Inl (MarkTenant e), db)
      | Inr schema \<Rightarrow>
          if \<not> assertRolloutClaim rolloutID claimToken db then (Inl MarkClaimLost, db)
          else if dds = [] then (Inr (), mark_site now siteID db)
          else (case mark_devices now siteID dds db of
                  (Inl e, _) \<Rightarrow> (Inl e, db)
                | (Inr _, db') \<Rightarrow> (Inr (), db')))"

definition device_verdict :: "string \<Rightarrow> string" where
  "device_verdict st =
     (if rolloutResultSuccess st then ''SUCCESS''
      else if st = ''ABORTED'' then ''ABORTED''
      else if st = ''STALE'' then ''STALE''
      else ''FAILED'')"

fun settle_devices :: "int \<Rightarrow> string \<Rightarrow> fleet_result list \<Rightarrow> tenant_db \<Rightarrow> (persist_error + unit) \<times> tenant_db" where
  "settle_devices now siteID [] db = (Inr (), db)"
| "settle_devices now siteID (r # rs) db =
     (case devices db (fr_device r) of
        None \<Rightarrow> (Inl (PersistDevice (fr_device r)), db)
      | Some d \<Rightarrow>
          if dv_site d = Some siteID \<and> dv_rollout_status d = Some ''RUNNING''
          then settle_devices now siteID rs
                 (update_device (fr_device r) (set_rollout_status now (device_verdict (fr_status r))) db)
          else (Inl (PersistDevice (fr_device r)), db))"

definition held_run :: "string \<Rightarrow> string \<Rightarrow> rollout_row \<Rightarrow> bool" where
  "held_run rolloutID claimToken r \<longleftrightarrow>
     rr_id r = rolloutID \<and> rr_status r = ''RUNNING'' \<and> rr_claim_token r = Some claimToken"

definition close_run :: "int \<Rightarrow> string \<Rightarrow> fleet_result list \<Rightarrow> rollout_row \<Rightarrow> rollout_row" where
  "close_run now st results r =
     r\<lparr>rr_status := st, rr_results := JArr (map fleet_result_json (stripFleetSyncOutput results)),
       rr_claim_token := None, rr_updated_at := now\<rparr>"

definition persistRolloutResults ::
  "string \<Rightarrow> int \<Rightarrow> string \<Rightarrow> string \<Rightarrow> string \<Rightarrow> string \<Rightarrow> fleet_result list \<Rightarrow> tenant_db
    \<Rightarrow> (persist_error + unit) \<times> tenant_db" where
  "persistRolloutResults reqSchema now siteID rolloutID claimToken st results db =
     (case getTenantSchema reqSchema of
        Inl e \<Rightarrow> (Inl (PersistTenant e), db)
      | Inr schema \<Rightarrow>
          if \<not> assertRolloutClaim rolloutID claimToken db then (Inl PersistClaimLost, db)
          else
            (case settle_devices now siteID results db of
               (Inl e, _) \<Rightarrow> (Inl e, db)
             | (Inr _, db1) \<Rightarrow>
                 (case update_run (held_run rolloutID claimToken) (close_run now st results) DbDraftNotAvailable db1 of
                    (Inl _, _) \<Rightarrow> (Inl PersistClaimLost, db)
                  | (Inr _, db2) \<Rightarrow> (Inr (), db2))))"

definition failure_results :: "string \<Rightarrow> fleet_result list \<Rightarrow> fleet_result list" where
  "failure_results cause results =
     results @ [empty_result\<lparr>fr_status := ''FAILED'',
       fr_error := boundedRolloutDiagnostic (''rollout result persistence failed: '' @ cause)\<rparr>]"

definition markRolloutPersistenceFailure ::
  "string \<Rightarrow> int \<Rightarrow> string \<Rightarrow> string \<Rightarrow> string \<Rightarrow> fleet_result list \<Rightarrow> string \<Rightarrow> tenant_db
    \<Rightarrow> (persist_error + unit) \<times> tenant_db" where
  "markRolloutPersistenceFailure reqSchema now siteID rolloutID claimToken results cause db =
     (case getTenantSchema reqSchema of
        Inl e \<Rightarrow> (Inl (PersistTenant e), db)
      | Inr schema \<Rightarrow>
          (case update_run (held_run rolloutID claimToken) (close_run now ''FAILED'' (failure_results cause results))
                  DbDraftNotAvailable (fail_running_devices now siteID db) of
             (Inl _, _) \<Rightarrow> (Inl PersistClaimLost, db)
           | (Inr _, db') \<Rightarrow> (Inr (), db')))"

section \<open>Checks before the execution\<close>

fun verify_configs ::
  "(string \<Rightarrow> string \<Rightarrow> string option) \<Rightarrow> string \<Rightarrow> str_map \<Rightarrow> string list \<Rightarrow> target_error option" where
  "verify_configs ask i observed [] = None"
| "verify_configs ask i observed (c # cs) =
     (if entry observed c = [] then Some (StaleHash i c)
      else case ask i c of
             None \<Rightarrow> Some (TransportState i c)
           | Some out \<Rightarrow>
               if observedStateHash out \<noteq> entry observed c then Some (StaleState i c)
               else verify_configs ask i observed cs)"

fun verifyRolloutDraftObservedState ::
  "(string \<Rightarrow> string \<Rightarrow> string option) \<Rightarrow> draft_device list \<Rightarrow> target_error option" where
  "verifyRolloutDraftObservedState ask [] = None"
| "verifyRolloutDraftObservedState ask (dd # dds) =
     (let observed = slice_elems (dd_observed dd) in
      case verify_configs ask (dd_id dd) observed (sort (remdups (map fst observed))) of
        Some e \<Rightarrow> Some e
      | None \<Rightarrow> verifyRolloutDraftObservedState ask dds)"

definition check_target :: "string \<Rightarrow> draft_device \<Rightarrow> tenant_db \<Rightarrow> target_error option" where
  "check_target siteID dd db =
     (case devices db (dd_id dd) of
        None \<Rightarrow> Some (StaleTarget (dd_id dd))
      | Some d \<Rightarrow>
          if dv_site d \<noteq> Some siteID \<or> col_str ''state'' (dv_last_op d) = ''RECOVERY_REQUIRED''
             \<or> col_str ''state'' (dv_last_cs d) = ''RECOVERY_REQUIRED''
          then Some (StaleTarget (dd_id dd))
          else if device_role d \<noteq> dd_role dd then Some (StaleRole (dd_id dd))
          else if dv_pending_op d \<noteq> None \<and> dv_pending_op d \<noteq> Some JNull then Some (StaleOperation (dd_id dd))
          else if dv_pending_cs d \<noteq> None \<and> dv_pending_cs d \<noteq> Some JNull then Some (StaleChangeSet (dd_id dd))
          else None)"

fun check_targets :: "string \<Rightarrow> draft_device list \<Rightarrow> tenant_db \<Rightarrow> target_error option" where
  "check_targets siteID [] db = None"
| "check_targets siteID (dd # dds) db =
     (case check_target siteID dd db of Some e \<Rightarrow> Some e | None \<Rightarrow> check_targets siteID dds db)"

definition verifyRolloutDraftTargets :: "string \<Rightarrow> string \<Rightarrow> draft_device list \<Rightarrow> tenant_db \<Rightarrow> target_error option" where
  "verifyRolloutDraftTargets schema siteID dds db =
     (case SafeSchemaIdent schema of
        Inl _ \<Rightarrow> Some TransportSchema
      | Inr _ \<Rightarrow> check_targets siteID dds db)"

text \<open>The first device with commands whose backup fails.\<close>

fun backup_failure :: "(string \<Rightarrow> string option) \<Rightarrow> render_result list \<Rightarrow> (string \<times> string) option" where
  "backup_failure backup [] = None"
| "backup_failure backup (r # rs) =
     (if rn_commands r = [] then backup_failure backup rs
      else case backup (rn_device r) of
             Some e \<Rightarrow> Some (rn_device r, e)
           | None \<Rightarrow> backup_failure backup rs)"

section \<open>The execution\<close>

fun run_configs ::
  "(string \<Rightarrow> string \<Rightarrow> string \<Rightarrow> ssh_outcome) \<Rightarrow> string \<Rightarrow> str_map \<Rightarrow> string list \<Rightarrow> string \<Rightarrow> fleet_result
    \<Rightarrow> fleet_result \<times> session list" where
  "run_configs run i scripts [] out sr = (sr\<lparr>fr_status := ''SUCCESS'', fr_output := boundedRolloutDiagnostic out\<rparr>, [])"
| "run_configs run i scripts (c # cs) out sr =
     (let script = entry scripts c in
      if script = []
      then (sr\<lparr>fr_status := ''FAILED'',
               fr_error := boundedRolloutDiagnostic (''missing immutable rollout script for config '' @ c),
               fr_output := boundedRolloutDiagnostic out\<rparr>, [])
      else
        (let o1 = run c i script;
             out' = out @ so_output o1 @ [CHR 0x0A]
         in case so_failure o1 of
              Some (code, msg) \<Rightarrow>
                (sr\<lparr>fr_status := (if code = Some 75 then ''STALE'' else ''FAILED''),
                    fr_error := boundedRolloutDiagnostic
                      (''config namespace '' @ c @ '': '' @ msg @ CHR 0x0A # so_output o1),
                    fr_output := boundedRolloutDiagnostic out'\<rparr>, [(i, c, script)])
            | None \<Rightarrow>
                (let (r, log) = run_configs run i scripts cs out' sr in (r, (i, c, script) # log))))"

definition new_result :: "render_result \<Rightarrow> fleet_result" where
  "new_result rr =
     empty_result\<lparr>fr_device := rn_device rr, fr_hostname := rn_hostname rr, fr_role := rn_role rr,
                  fr_cmd_count := int (length (rn_commands rr))\<rparr>"

definition run_device :: "fleet_env \<Rightarrow> nat \<Rightarrow> render_result \<Rightarrow> draft_device \<Rightarrow> fleet_result \<times> session list" where
  "run_device env idx rr dd =
     (if rn_commands rr = []
      then ((new_result rr)\<lparr>fr_status := ''SKIPPED'', fr_output := ''No commands to execute''\<rparr>, [])
      else run_configs (fe_run env idx) (rn_device rr) (slice_elems (dd_scripts dd)) (sortedConfigNames (rn_commands rr)) []
             (new_result rr))"

type_synonym run_state = "fleet_result list \<times> session list"

text \<open>The workers of a batch write different entries, so the batch is the sequence of its devices.\<close>

definition executeBatch :: "fleet_env \<Rightarrow> render_result list \<Rightarrow> draft_device list \<Rightarrow> nat list \<Rightarrow> run_state \<Rightarrow> run_state" where
  "executeBatch env rrs dds indices st =
     fold (\<lambda>i (rs, log). let (r, l) = run_device env i (rrs ! i) (dds ! i) in (rs[i := r], log @ l)) indices st"

definition aborted_result :: "string \<Rightarrow> render_result \<Rightarrow> fleet_result" where
  "aborted_result msg rr = (new_result rr)\<lparr>fr_status := ''ABORTED'', fr_error := msg\<rparr>"

definition canary_message :: string where
  "canary_message = ''canary failed; rollout not started''"

definition previous_message :: string where
  "previous_message = ''previous device failed; rollout not started''"

definition abort_rest :: "render_result list \<Rightarrow> nat list list \<Rightarrow> fleet_result list \<Rightarrow> fleet_result list" where
  "abort_rest rrs phases rs =
     fold (\<lambda>i rs. if fr_status (rs ! i) = [] then rs[i := aborted_result previous_message (rrs ! i)] else rs) (concat phases) rs"

fun run_phases ::
  "fleet_env \<Rightarrow> render_result list \<Rightarrow> draft_device list \<Rightarrow> nat list list \<Rightarrow> nat list list \<Rightarrow> run_state
    \<Rightarrow> string \<times> run_state" where
  "run_phases env rrs dds later [] st = (''completed'', st)"
| "run_phases env rrs dds later (phase # phases) st =
     (let (rs, log) = executeBatch env rrs dds phase st;
          status = fr_status (rs ! hd phase)
      in if rolloutResultSuccess status then run_phases env rrs dds later phases (rs, log)
         else ((if status = ''STALE'' then ''STALE'' else ''aborted''), (abort_rest rrs later rs, log)))"

text \<open>The caller has made sure that there is a device, so the first phase exists.\<close>

definition executeRollout ::
  "fleet_env \<Rightarrow> render_result list \<Rightarrow> draft_device list \<Rightarrow> string \<times> run_state" where
  "executeRollout env rrs dds =
     (let phases = orderedFleetRolloutPhases (length rrs);
          (rs, log) = executeBatch env rrs dds (hd phases) (replicate (length rrs) empty_result, []);
          status = fr_status (rs ! hd (hd phases))
      in if \<not> rolloutResultSuccess status
         then ((if status = ''STALE'' then ''STALE'' else ''canary_failed''),
               (fold (\<lambda>i rs. rs[i := aborted_result canary_message (rrs ! i)]) (concat (tl phases)) rs, log))
         else run_phases env rrs dds (tl phases) (tl phases) (rs, log))"

section \<open>Queueing a draft of selected namespaces\<close>

definition existingChangeSetResult :: "rollout_draft \<Rightarrow> change_set \<Rightarrow> string \<Rightarrow> fleet_result option" where
  "existingChangeSetResult rec cs required =
     (case top_slice dec_fleet_result (rd_results rec) of
        None \<Rightarrow> None
      | Some results \<Rightarrow>
          find (\<lambda>r. equal_fold (fr_device r) (cs_device_id cs) \<and> fr_cs_id r = cs_id cs \<and> fr_plan_hash r = cs_plan_hash cs
             \<and> (fr_generation r > 0 \<or> required = ''QUEUED'' \<and> equal_fold (fr_status r) ''WAITING'')
             \<and> \<not> (required = ''QUEUED'' \<and> \<not> equal_fold (fr_status r) ''QUEUED'' \<and> \<not> equal_fold (fr_status r) ''WAITING'')
             \<and> \<not> (required = ''TERMINAL'' \<and> equal_fold (fr_status r) ''QUEUED'')) (slice_elems results))"

definition queuedChangeSetResult :: "rollout_draft \<Rightarrow> change_set \<Rightarrow> fleet_result option" where
  "queuedChangeSetResult rec cs = existingChangeSetResult rec cs ''QUEUED''"

definition queued_result :: "string \<Rightarrow> string \<Rightarrow> draft_device \<Rightarrow> change_set \<Rightarrow> fleet_result" where
  "queued_result st out dd cs =
     empty_result\<lparr>fr_device := cs_device_id cs, fr_hostname := dd_hostname dd, fr_role := dd_role dd, fr_status := st,
       fr_output := out, fr_cmd_count := int (changeSetCommandCount cs), fr_cs_id := cs_id cs, fr_plan_hash := cs_plan_hash cs\<rparr>"

definition agent_message :: string where
  "agent_message = ''device agent will apply and report the durable changeset result''"

definition waiting_message :: string where
  "waiting_message = ''waiting for the previous rollout phase to complete''"

datatype queue_error = QueueBuild build_error | QueueDifferent string | QueueDb db_error

fun existing_results :: "rollout_draft \<Rightarrow> string \<Rightarrow> change_set list \<Rightarrow> queue_error + fleet_result list" where
  "existing_results rec required [] = Inr []"
| "existing_results rec required (cs # css) =
     (case existingChangeSetResult rec cs required of
        None \<Rightarrow> Inl (QueueDifferent (cs_device_id cs))
      | Some r \<Rightarrow> andthen (existing_results rec required css) (\<lambda>rs. Inr (r # rs)))"

record fleet_queued =
  fq_status :: string
  fq_generation :: int
  fq_devices :: "string list"
  fq_results :: "fleet_result list"

definition generation_of :: "generations \<Rightarrow> string \<Rightarrow> int" where
  "generation_of gens i = (case map_of gens i of None \<Rightarrow> 0 | Some g \<Rightarrow> g)"

definition fleet_items :: "nat list \<Rightarrow> draft_device list \<Rightarrow> change_set list \<Rightarrow> (string \<times> raw_message) list" where
  "fleet_items phase dds css =
     map (\<lambda>(i, cs). (dd_role (dds ! i), Some (change_set_json cs))) (filter (\<lambda>(i, _). i \<in> set phase) (enumerate 0 css))"

definition fleet_waiting :: "nat list \<Rightarrow> draft_device list \<Rightarrow> change_set list \<Rightarrow> fleet_result list" where
  "fleet_waiting phase dds css =
     map (\<lambda>(i, cs). if i \<in> set phase then queued_result ''QUEUED'' agent_message (dds ! i) cs
                    else queued_result ''WAITING'' waiting_message (dds ! i) cs) (enumerate 0 css)"

definition queueFleetDeviceChangeSets ::
  "fleet_env \<Rightarrow> sync_request \<Rightarrow> string \<Rightarrow> string \<Rightarrow> rollout_draft \<Rightarrow> draft_plan \<Rightarrow> fleet_state
    \<Rightarrow> (queue_error + fleet_queued) \<times> fleet_state" where
  "queueFleetDeviceChangeSets env req schema rolloutID rec p s =
     (case buildFleetDeviceChangeSets rolloutID p of
        Inl e \<Rightarrow> (Inl (QueueBuild e), s)
      | Inr css \<Rightarrow>
          (let phase = hd (sequentialFleetRolloutPhases (rolloutResultsFromDraft p));
               dds = slice_elems (dp_devices p);
               answer = (\<lambda>results. \<lparr>fq_status = to_lower (if rd_status rec = ''DRAFT'' then ''QUEUED'' else rd_status rec),
                  fq_generation = rd_generation rec, fq_devices = map cs_device_id css, fq_results = results\<rparr>)
           in
           if rd_status rec \<in> {''QUEUED'', ''completed'', ''failed''}
           then (case existing_results rec (if rd_status rec \<in> {''completed'', ''failed''} then ''TERMINAL'' else []) css of
                   Inl e \<Rightarrow> (Inl e, s)
                 | Inr results \<Rightarrow> (Inr (answer results), s))
           else
             (let results = fleet_waiting phase dds css in
              case ClaimAndQueueDeviceChangeSets schema (fe_now env AtQueue) (fe_token env) (sq_site req) rolloutID
                     (fleet_items phase dds css) (Some (JArr (map fleet_result_json results)))
                     (sq_username req) (sq_remote req) (fs_tenant s) of
                (Inl e, db) \<Rightarrow> (Inl (QueueDb e), s\<lparr>fs_tenant := db\<rparr>)
              | (Inr gens, db) \<Rightarrow>
                  (Inr (answer (map (\<lambda>r. r\<lparr>fr_generation := generation_of gens (fr_device r)\<rparr>) results)),
                   s\<lparr>fs_tenant := db\<rparr>))))"

section \<open>The handler\<close>

datatype fleet_response =
    FleetBadRequest | FleetTenant db_error | FleetNotFound | FleetLoad db_error
  | FleetRejected fleet_reason | FleetConflict queue_error | FleetQueued fleet_queued
  | SingleQueued rollout_draft change_set int | SingleDifferent | SingleUnavailable | SingleFailed db_error
  | FleetAuditFailed | FleetTransport target_error | FleetStale target_error
  | FleetUnavailable | FleetClaimFailed db_error | FleetBackupFailed | FleetDeviceChanged | FleetMarkFailed
  | FleetPersistFailed | FleetExecuted bool string int nat nat "fleet_result list"

definition with_tenant :: "(tenant_db \<Rightarrow> 'a \<times> tenant_db) \<Rightarrow> fleet_state \<Rightarrow> fleet_state" where
  "with_tenant f s = s\<lparr>fs_tenant := snd (f (fs_tenant s))\<rparr>"

definition audit_or :: "fleet_env \<Rightarrow> sync_request \<Rightarrow> string \<Rightarrow> string \<Rightarrow> fleet_response \<Rightarrow> fleet_state \<Rightarrow> fleet_response \<times> fleet_state" where
  "audit_or env req action payload response s =
     (case audit_event env req action payload s of
        None \<Rightarrow> (FleetAuditFailed, s)
      | Some s' \<Rightarrow> (response, s'))"

definition rejectUnexecutableRolloutDraft ::
  "fleet_env \<Rightarrow> sync_request \<Rightarrow> string \<Rightarrow> string \<Rightarrow> fleet_reason \<Rightarrow> fleet_state \<Rightarrow> fleet_state" where
  "rejectUnexecutableRolloutDraft env req schema rolloutID reason s =
     (let s1 = with_tenant (RejectRolloutDraft schema (fe_now env AtReject) (sq_site req) rolloutID (fe_wording env reason)) s
      in case audit_event env req ''SITE_ORCHESTRATOR_ROLLOUT_REJECTED''
                (''Rejected rollout '' @ rolloutID @ '': '' @ fe_wording env reason) s1 of
           None \<Rightarrow> s1
         | Some s2 \<Rightarrow> s2)"

definition releaseRolloutDraftForRetry :: "fleet_env \<Rightarrow> sync_request \<Rightarrow> string \<Rightarrow> string \<Rightarrow> string \<Rightarrow> fleet_state \<Rightarrow> fleet_state" where
  "releaseRolloutDraftForRetry env req schema rolloutID claimToken s =
     with_tenant (ReleaseRolloutDraft schema (fe_now env AtClose) (sq_site req) rolloutID claimToken) s"

definition mark_stale :: "fleet_env \<Rightarrow> sync_request \<Rightarrow> string \<Rightarrow> string \<Rightarrow> string \<Rightarrow> fleet_state \<Rightarrow> fleet_state" where
  "mark_stale env req schema rolloutID claimToken s =
     with_tenant (MarkRolloutDraftStale schema (fe_now env AtClose) (sq_site req) rolloutID claimToken) s"

definition handleRolloutDraftValidationFailure ::
  "fleet_env \<Rightarrow> sync_request \<Rightarrow> string \<Rightarrow> string \<Rightarrow> string \<Rightarrow> target_error \<Rightarrow> fleet_state \<Rightarrow> fleet_response \<times> fleet_state" where
  "handleRolloutDraftValidationFailure env req schema rolloutID claimToken e s =
     (if is_transport e
      then audit_or env req ''SITE_ORCHESTRATOR_ROLLOUT_RETRYABLE_FAILURE''
             (''Rollout '' @ rolloutID @ '' could not validate observed state: '' @ fe_wording env (ReasonCheck e))
             (FleetTransport e) (releaseRolloutDraftForRetry env req schema rolloutID claimToken s)
      else audit_or env req ''SITE_ORCHESTRATOR_ROLLOUT_STALE''
             (''Rollout '' @ rolloutID @ '' rejected: '' @ fe_wording env (ReasonCheck e))
             (FleetStale e) (mark_stale env req schema rolloutID claimToken s))"

text \<open>The branch for one device and selected namespaces.\<close>

definition queue_single ::
  "fleet_env \<Rightarrow> sync_request \<Rightarrow> string \<Rightarrow> string \<Rightarrow> rollout_draft \<Rightarrow> draft_plan \<Rightarrow> draft_device \<Rightarrow> fleet_state
    \<Rightarrow> fleet_response \<times> fleet_state" where
  "queue_single env req schema rolloutID rec p dd s =
     (case buildSingleDeviceChangeSet rolloutID p of
        Inl e \<Rightarrow> (FleetRejected (ReasonBuild e), rejectUnexecutableRolloutDraft env req schema rolloutID (ReasonBuild e) s)
      | Inr cs \<Rightarrow>
          if rd_status rec = ''QUEUED''
          then (case queuedChangeSetResult rec cs of
                  Some r \<Rightarrow> (SingleQueued rec cs (fr_generation r), s)
                | None \<Rightarrow> (SingleDifferent, s))
          else
            (case ClaimAndQueueDeviceChangeSet schema (fe_now env AtQueue) (fe_token env) (sq_site req) rolloutID (dd_role dd)
                    (Some (change_set_json cs))
                    (Some (JArr [fleet_result_json (queued_result ''QUEUED'' agent_message dd cs)]))
                    (sq_username req) (sq_remote req) (fs_tenant s) of
               (Inr g, db) \<Rightarrow> (SingleQueued rec cs g, s\<lparr>fs_tenant := db\<rparr>)
             | (Inl e, db) \<Rightarrow>
                 (let s' = s\<lparr>fs_tenant := db\<rparr> in
                  if e = DbCapability
                  then (FleetRejected ReasonCapability, rejectUnexecutableRolloutDraft env req schema rolloutID ReasonCapability s')
                  else if e = DbDraftNotAvailable
                  then (case GetRolloutDraft schema (sq_site req) rolloutID (fs_tenant s') of
                          Inl _ \<Rightarrow> (SingleUnavailable, s')
                        | Inr retry \<Rightarrow>
                            if rd_status retry = ''QUEUED''
                            then (case queuedChangeSetResult retry cs of
                                    Some r \<Rightarrow> (SingleQueued retry cs (fr_generation r), s')
                                  | None \<Rightarrow> (SingleUnavailable, s'))
                            else (SingleUnavailable, s'))
                  else (SingleFailed e, s'))))"

text \<open>The execution once the devices are marked, and its record.\<close>

definition run_marked ::
  "fleet_env \<Rightarrow> sync_request \<Rightarrow> string \<Rightarrow> rollout_draft \<Rightarrow> draft_plan \<Rightarrow> fleet_state
    \<Rightarrow> (fleet_response \<times> session list) \<times> fleet_state" where
  "run_marked env req rolloutID rec p s =
     (let (status, results, log) = executeRollout env (rolloutResultsFromDraft p) (slice_elems (dp_devices p)) in
      case persistRolloutResults (sq_schema req) (fe_now env AtPersist) (sq_site req) rolloutID (rd_claim_token rec)
             status results (fs_tenant s) of
        (Inl e, db) \<Rightarrow>
          ((FleetPersistFailed, log),
           with_tenant (markRolloutPersistenceFailure (sq_schema req) (fe_now env AtClose) (sq_site req) rolloutID
             (rd_claim_token rec) results (fe_wording env (ReasonPersist e))) (s\<lparr>fs_tenant := db\<rparr>))
      | (Inr _, db) \<Rightarrow>
          (let ok = length (filter (\<lambda>r. rolloutResultSuccess (fr_status r)) results);
               bad = length results - ok;
               s' = s\<lparr>fs_tenant := db\<rparr>
           in case audit_event env req ''SITE_ORCHESTRATOR_FLEET_SYNC''
                     (''Fleet sync: '' @ nat_str ok @ '' success, '' @ nat_str bad @ '' failed, rollout: '' @ rolloutID) s' of
                None \<Rightarrow> ((FleetExecuted False status (rd_generation rec) ok bad results, log), s')
              | Some s'' \<Rightarrow> ((FleetExecuted True status (rd_generation rec) ok bad results, log), s'')))"

text \<open>Marking the devices of the claimed draft, then the execution.\<close>

definition mark_and_run ::
  "fleet_env \<Rightarrow> sync_request \<Rightarrow> string \<Rightarrow> string \<Rightarrow> rollout_draft \<Rightarrow> draft_plan \<Rightarrow> fleet_state
    \<Rightarrow> (fleet_response \<times> session list) \<times> fleet_state" where
  "mark_and_run env req schema rolloutID rec p s =
     (case markRolloutDevicesRunning (sq_schema req) (fe_now env AtMark) (sq_site req) rolloutID (rd_claim_token rec)
             (slice_elems (dp_devices p)) (fs_tenant s) of
        (Inr _, db) \<Rightarrow> run_marked env req rolloutID rec p (s\<lparr>fs_tenant := db\<rparr>)
      | (Inl e, db) \<Rightarrow>
          (let s' = s\<lparr>fs_tenant := db\<rparr>;
               (r, s'') =
                 (case e of
                    MarkTenant _ \<Rightarrow>
                      audit_or env req ''SITE_ORCHESTRATOR_ROLLOUT_DEVICE_STATE_FAILED''
                        (''Rollout '' @ rolloutID @ '' could not mark target devices: '' @ fe_wording env (ReasonMark e))
                        FleetMarkFailed (releaseRolloutDraftForRetry env req schema rolloutID (rd_claim_token rec) s')
                  | _ \<Rightarrow>
                      audit_or env req ''SITE_ORCHESTRATOR_ROLLOUT_STALE''
                        (''Rollout '' @ rolloutID @ '' rejected because a target device changed state'')
                        FleetDeviceChanged (mark_stale env req schema rolloutID (rd_claim_token rec) s'))
           in ((r, []), s'')))"

text \<open>The checks of the claimed draft, then marking.\<close>

definition check_and_run ::
  "fleet_env \<Rightarrow> sync_request \<Rightarrow> string \<Rightarrow> string \<Rightarrow> rollout_draft \<Rightarrow> draft_plan \<Rightarrow> fleet_state
    \<Rightarrow> (fleet_response \<times> session list) \<times> fleet_state" where
  "check_and_run env req schema rolloutID rec p s =
     (let dds = slice_elems (dp_devices p);
          stop = (\<lambda>(r, s'). ((r, []), s'))
      in case verifyRolloutDraftObservedState (fe_show env False) dds of
           Some e \<Rightarrow> stop (handleRolloutDraftValidationFailure env req schema rolloutID (rd_claim_token rec) e s)
         | None \<Rightarrow>
             (case backup_failure (fe_backup env) (rolloutResultsFromDraft p) of
                Some (i, e) \<Rightarrow>
                  stop (audit_or env req ''SITE_ORCHESTRATOR_ROLLOUT_BACKUP_FAILED''
                          (''Rollout '' @ rolloutID @ '' backup failed for device '' @ i @ '': '' @ e) FleetBackupFailed
                          (releaseRolloutDraftForRetry env req schema rolloutID (rd_claim_token rec) s))
              | None \<Rightarrow>
                  (case verifyRolloutDraftObservedState (fe_show env True) dds of
                     Some e \<Rightarrow> stop (handleRolloutDraftValidationFailure env req schema rolloutID (rd_claim_token rec) e s)
                   | None \<Rightarrow> mark_and_run env req schema rolloutID rec p s)))"

text \<open>The branch for a draft of the whole template.\<close>

definition claim_and_run ::
  "fleet_env \<Rightarrow> sync_request \<Rightarrow> string \<Rightarrow> string \<Rightarrow> draft_plan \<Rightarrow> fleet_state
    \<Rightarrow> (fleet_response \<times> session list) \<times> fleet_state" where
  "claim_and_run env req schema rolloutID p s =
     (case verifyRolloutDraftTargets schema (sq_site req) (slice_elems (dp_devices p)) (fs_tenant s) of
        Some e \<Rightarrow> (let (r, s') = handleRolloutDraftValidationFailure env req schema rolloutID [] e s in ((r, []), s'))
      | None \<Rightarrow>
          (case ClaimRolloutDraft schema (fe_now env AtClaim) (fe_token env) (sq_site req) rolloutID (fs_tenant s) of
             (Inl e, db) \<Rightarrow>
               (((if e = DbDraftNotAvailable then FleetUnavailable else FleetClaimFailed e), []), s\<lparr>fs_tenant := db\<rparr>)
           | (Inr rec, db) \<Rightarrow>
               (let s' = s\<lparr>fs_tenant := db\<rparr> in
                case audit_event env req ''SITE_ORCHESTRATOR_ROLLOUT_START''
                       (''Claimed rollout draft '' @ rolloutID @ '' rollout sequence '' @ int_str (rd_generation rec)
                          @ '' plan_hash '' @ rd_plan_hash rec) s' of
                  None \<Rightarrow>
                    ((FleetAuditFailed, []), releaseRolloutDraftForRetry env req schema rolloutID (rd_claim_token rec) s')
                | Some s'' \<Rightarrow> check_and_run env req schema rolloutID rec p s'')))"

definition sync_draft ::
  "fleet_env \<Rightarrow> sync_request \<Rightarrow> string \<Rightarrow> string \<Rightarrow> rollout_draft \<Rightarrow> fleet_state
    \<Rightarrow> (fleet_response \<times> session list) \<times> fleet_state" where
  "sync_draft env req schema rolloutID rec s =
     (let reject = (\<lambda>reason. ((FleetRejected reason, []), rejectUnexecutableRolloutDraft env req schema rolloutID reason s)) in
      case decodeRolloutDraft rec of
        Inl e \<Rightarrow> reject (ReasonDraft e)
      | Inr p \<Rightarrow>
          (let results = rolloutResultsFromDraft p in
           if results = [] then reject ReasonNoDevices
           else if rejectUnsafeNetworkMutations results then reject ReasonNetwork
           else if dp_namespace p \<noteq> []
           then (case slice_elems (dp_devices p) of
                   [] \<Rightarrow> reject (ReasonNamespace (dp_namespace p))
                 | [dd] \<Rightarrow> (let (r, s') = queue_single env req schema rolloutID rec p dd s in ((r, []), s'))
                 | _ \<Rightarrow>
                     (case queueFleetDeviceChangeSets env req schema rolloutID rec p s of
                        (Inl e, s') \<Rightarrow>
                          if e = QueueDb DbCapability
                          then ((FleetRejected ReasonCapability, []),
                                rejectUnexecutableRolloutDraft env req schema rolloutID ReasonCapability s')
                          else ((FleetConflict e, []), s')
                      | (Inr q, s') \<Rightarrow> ((FleetQueued q, []), s')))
           else claim_and_run env req schema rolloutID p s))"

definition SyncFleetHandler ::
  "fleet_env \<Rightarrow> sync_request \<Rightarrow> fleet_state \<Rightarrow> (fleet_response \<times> session list) \<times> fleet_state" where
  "SyncFleetHandler env req s =
     (case requestedRolloutID env req of
        None \<Rightarrow> ((FleetBadRequest, []), s)
      | Some rolloutID \<Rightarrow>
          (case getTenantSchema (sq_schema req) of
             Inl e \<Rightarrow> ((FleetTenant e, []), s)
           | Inr schema \<Rightarrow>
               (case GetRolloutDraft schema (sq_site req) rolloutID (fs_tenant s) of
                  Inl DbDraftNotFound \<Rightarrow> ((FleetNotFound, []), s)
                | Inl e \<Rightarrow> ((FleetLoad e, []), s)
                | Inr rec \<Rightarrow> sync_draft env req schema rolloutID rec s)))"

section \<open>The execution stops at the first failure\<close>

lemma phases_from_concat: "start \<le> n \<Longrightarrow> concat (phases_from start n) = [start ..< n]"
proof (induction start n rule: phases_from.induct)
  case (1 start n)
  show ?case
  proof (cases "start + fleetSyncMaxConcurrency \<le> n")
    case True
    then show ?thesis
      using 1 upt_add_eq_append [of start "start + fleetSyncMaxConcurrency" "n - (start + fleetSyncMaxConcurrency)"]
      by (subst phases_from.simps) (auto simp: min_def)
  next
    case False
    then show ?thesis
      by (subst phases_from.simps, subst phases_from.simps) (auto simp: min_def)
  qed
qed

definition device_runs :: "fleet_env \<Rightarrow> render_result list \<Rightarrow> draft_device list \<Rightarrow> (fleet_result \<times> session list) list" where
  "device_runs env rrs dds = map (\<lambda>i. run_device env i (rrs ! i) (dds ! i)) [0 ..< length rrs]"

definition good_run :: "fleet_result \<times> session list \<Rightarrow> bool" where
  "good_run x \<longleftrightarrow> rolloutResultSuccess (fr_status (fst x))"

text \<open>What a rollout over the devices in order has to give, with \<open>k\<close> the number of devices that succeed first.\<close>

definition stop_at_failure ::
  "render_result list \<Rightarrow> (fleet_result \<times> session list) list \<Rightarrow> string \<times> run_state" where
  "stop_at_failure rrs runs =
     (let k = length (takeWhile good_run runs) in
      if k = length runs then (''completed'', map fst runs, concat (map snd runs))
      else ((if fr_status (fst (runs ! k)) = ''STALE'' then ''STALE'' else if k = 0 then ''canary_failed'' else ''aborted''),
            map fst (take (Suc k) runs)
              @ map (aborted_result (if k = 0 then canary_message else previous_message)) (drop (Suc k) rrs),
            concat (map snd (take (Suc k) runs))))"

lemma run_configs_status: "fr_status (fst (run_configs run i scripts cs out sr)) \<noteq> []"
  by (induction cs arbitrary: out) (auto simp: Let_def split_beta split: option.split)

lemma run_device_status: "fr_status (fst (run_device env i rr dd)) \<noteq> []"
  by (simp add: run_device_def run_configs_status)

lemma executeBatch_single:
  "executeBatch env rrs dds [i] (rs, log)
     = (rs[i := fst (run_device env i (rrs ! i) (dds ! i))], log @ snd (run_device env i (rrs ! i) (dds ! i)))"
  by (simp add: executeBatch_def split_beta)

lemma device_runs_nth [simp]:
  "i < length rrs \<Longrightarrow> device_runs env rrs dds ! i = run_device env i (rrs ! i) (dds ! i)"
  "length (device_runs env rrs dds) = length rrs"
  by (simp_all add: device_runs_def)

text \<open>Writing a run of entries by index is replacing a segment of the list.\<close>

lemma fold_upt_segment:
  assumes "k \<le> n"
  shows "fold (\<lambda>i rs. rs[i := f i]) [k ..< n] rs = map (\<lambda>i. if k \<le> i \<and> i < n then f i else rs ! i) [0 ..< length rs]"
  using assms
proof (induction n)
  case 0
  then show ?case by (simp add: map_nth)
next
  case (Suc n)
  show ?case
  proof (cases "k \<le> n")
    case True
    then show ?thesis
      using Suc by (auto intro!: nth_equalityI simp: nth_list_update less_Suc_eq)
  next
    case False
    with Suc.prems show ?thesis by (auto intro!: nth_equalityI)
  qed
qed

lemma fold_upt_guarded:
  assumes "k \<le> n" "\<And>i. k \<le> i \<Longrightarrow> i < n \<Longrightarrow> i < length rs"
  shows "fold (\<lambda>i rs. if P (rs ! i) then rs[i := f i] else rs) [k ..< n] rs
     = map (\<lambda>i. if k \<le> i \<and> i < n \<and> P (rs ! i) then f i else rs ! i) [0 ..< length rs]"
  using assms
proof (induction n)
  case 0
  then show ?case by (simp add: map_nth)
next
  case (Suc n)
  show ?case
  proof (cases "k \<le> n")
    case True
    with Suc show ?thesis
      by (auto intro!: nth_equalityI simp: nth_list_update less_Suc_eq)
  next
    case False
    with Suc.prems show ?thesis by (auto intro!: nth_equalityI)
  qed
qed

lemma concat_singletons [simp]: "concat (map (\<lambda>i. [i]) xs) = xs"
  by (induction xs) simp_all

lemma run_phases_upt:
  assumes "k \<le> n" "n = length rrs" "length rs = n" "list_all good_run (take k (device_runs env rrs dds))" "0 < k"
    "take k rs = map fst (take k (device_runs env rrs dds))" "\<And>i. k \<le> i \<Longrightarrow> i < n \<Longrightarrow> rs ! i = empty_result"
    "log = concat (map snd (take k (device_runs env rrs dds)))"
  shows "run_phases env rrs dds (map (\<lambda>i. [i]) [1 ..< n]) (map (\<lambda>i. [i]) [k ..< n]) (rs, log)
     = stop_at_failure rrs (device_runs env rrs dds)"
  using assms
proof (induction "n - k" arbitrary: k rs log)
  case 0
  then have k: "k = n" by simp
  with 0 have "takeWhile good_run (device_runs env rrs dds) = device_runs env rrs dds"
    by (simp add: list_all_iff takeWhile_eq_all_conv)
  then have "length (takeWhile good_run (device_runs env rrs dds)) = n" using 0 by (simp only: device_runs_nth)
  with 0 k show ?case by (simp add: stop_at_failure_def)
next
  case (Suc m)
  let ?runs = "device_runs env rrs dds"
  let ?r = "run_device env k (rrs ! k) (dds ! k)"
  have k: "k < n" using Suc.hyps(2) by simp
  then have phases: "map (\<lambda>i. [i]) [k ..< n] = [k] # map (\<lambda>i. [i]) [Suc k ..< n]" by (simp add: upt_conv_Cons)
  have nth: "?runs ! k = ?r" using k Suc.prems(2) by simp
  have take: "take (Suc k) ?runs = take k ?runs @ [?r]"
    using k Suc.prems(2) nth by (simp add: take_Suc_conv_app_nth)
  have step: "executeBatch env rrs dds [k] (rs, log) = (rs[k := fst ?r], log @ snd ?r)" by (rule executeBatch_single)
  have now_taken: "take (Suc k) (rs[k := fst ?r]) = map fst (take (Suc k) ?runs)"
    unfolding take using k Suc.prems(3,6) by (simp add: take_Suc_conv_app_nth)
  show ?case
  proof (cases "good_run ?r")
    case True
    have "run_phases env rrs dds (map (\<lambda>i. [i]) [1 ..< n]) (map (\<lambda>i. [i]) [Suc k ..< n]) (rs[k := fst ?r], log @ snd ?r)
        = stop_at_failure rrs ?runs"
      using Suc.prems Suc.hyps(2) k True now_taken by (intro Suc.hyps(1)) (auto simp: take)
    then show ?thesis
      unfolding phases using True k Suc.prems(3) by (simp add: step good_run_def)
  next
    case False
    have "takeWhile good_run ?runs = take k ?runs"
      using k Suc.prems(2,4) nth False
      by (intro takeWhile_eq_take_P_nth) (auto simp: list_all_length)
    then have first: "length (takeWhile good_run ?runs) = k" using k Suc.prems(2) by simp
    let ?rs = "rs[k := fst ?r]"
    have empty: "fr_status (?rs ! i) = [] \<longleftrightarrow> k < i" if "i < n" for i
    proof (cases "i < k")
      case True
      then have "rs ! i = fst (?runs ! i)"
        using arg_cong [OF Suc.prems(6), of "\<lambda>xs. xs ! i"] Suc.prems(2) k by simp
      then show ?thesis
        using True k Suc.prems(2) run_device_status by (simp add: device_runs_nth(1))
    next
      case False
      then show ?thesis
        using that Suc.prems(3,7) k run_device_status [of env k "rrs ! k" "dds ! k"]
        by (cases "i = k") (auto simp: empty_result_def)
    qed
    have "abort_rest rrs (map (\<lambda>i. [i]) [1 ..< n]) ?rs
        = map (\<lambda>i. if 1 \<le> i \<and> i < n \<and> fr_status (?rs ! i) = [] then aborted_result previous_message (rrs ! i) else ?rs ! i) [0 ..< n]"
      unfolding abort_rest_def concat_singletons
      using k Suc.prems(3) fold_upt_guarded [of 1 n ?rs "\<lambda>r. fr_status r = []" "\<lambda>i. aborted_result previous_message (rrs ! i)"]
      by simp
    also have "\<dots> = map fst (take (Suc k) ?runs) @ map (aborted_result previous_message) (drop (Suc k) rrs)"
    proof (rule nth_equalityI)
      fix i assume "i < length (map (\<lambda>i. if 1 \<le> i \<and> i < n \<and> fr_status (?rs ! i) = [] then aborted_result previous_message (rrs ! i) else ?rs ! i) [0 ..< n])"
      then have i: "i < n" by simp
      have "?rs ! i = map fst (take (Suc k) ?runs) ! i" if "i \<le> k"
        using that now_taken by (metis less_Suc_eq_le nth_take)
      then show "map (\<lambda>i. if 1 \<le> i \<and> i < n \<and> fr_status (?rs ! i) = [] then aborted_result previous_message (rrs ! i) else ?rs ! i) [0 ..< n] ! i
          = (map fst (take (Suc k) ?runs) @ map (aborted_result previous_message) (drop (Suc k) rrs)) ! i"
        using i k empty [OF i] Suc.prems(2) by (auto simp: nth_append not_le)
    qed (use k Suc.prems(2) in simp)
    finally show ?thesis
      unfolding phases using False k Suc.prems(2,3,5,8) nth first
      by (simp add: executeBatch_single good_run_def stop_at_failure_def take Let_def)
  qed
qed

lemma execution_reference:
  assumes "rrs \<noteq> []"
  shows "executeRollout env rrs dds = stop_at_failure rrs (device_runs env rrs dds)"
proof -
  let ?runs = "device_runs env rrs dds"
  let ?n = "length rrs"
  let ?r = "run_device env 0 (rrs ! 0) (dds ! 0)"
  let ?rs = "(replicate ?n empty_result)[0 := fst ?r]"
  have n: "0 < ?n" using assms by simp
  then have phases: "orderedFleetRolloutPhases ?n = [0] # map (\<lambda>i. [i]) [1 ..< ?n]"
    by (simp add: orderedFleetRolloutPhases_def upt_conv_Cons)
  have nth: "?runs ! 0 = ?r" using n by simp
  have runs: "?runs \<noteq> []" using n by (metis device_runs_nth(2) list.size(3) less_irrefl)
  then have take: "take 1 ?runs = [?r]" using nth by (cases ?runs) auto
  have step: "executeBatch env rrs dds [0] (replicate ?n empty_result, []) = (?rs, snd ?r)"
    by (simp add: executeBatch_single)
  have first: "?rs ! 0 = fst ?r" using n by simp
  show ?thesis
  proof (cases "good_run ?r")
    case True
    have "run_phases env rrs dds (map (\<lambda>i. [i]) [1 ..< ?n]) (map (\<lambda>i. [i]) [1 ..< ?n]) (?rs, snd ?r) = stop_at_failure rrs ?runs"
      by (rule run_phases_upt) (use n True first in \<open>auto simp: take take_Suc_conv_app_nth Suc_le_eq\<close>)
    then show ?thesis
      using True by (simp add: executeRollout_def phases step first good_run_def)
  next
    case False
    then have k: "length (takeWhile good_run ?runs) = 0" using runs nth by (cases ?runs) auto
    have "fold (\<lambda>i rs. rs[i := aborted_result canary_message (rrs ! i)]) [1 ..< ?n] ?rs
        = fst ?r # map (aborted_result canary_message) (drop 1 rrs)"
    proof -
      have "fold (\<lambda>i rs. rs[i := aborted_result canary_message (rrs ! i)]) [1 ..< ?n] ?rs
          = map (\<lambda>i. if 1 \<le> i \<and> i < ?n then aborted_result canary_message (rrs ! i) else ?rs ! i) [0 ..< length ?rs]"
        using n by (intro fold_upt_segment) (simp only: One_nat_def Suc_le_eq)
      also have "\<dots> = fst ?r # map (aborted_result canary_message) (drop 1 rrs)"
        using n by (intro nth_equalityI) (simp_all add: nth_Cons' Suc_le_eq)
      finally show ?thesis .
    qed
    then show ?thesis
      using False nth k take n
      by (simp add: executeRollout_def phases step first good_run_def stop_at_failure_def)
  qed
qed

text \<open>
  C17. The execution of a rollout, a canary phase and then one phase per device, is this: the devices run
  in the order of the draft until the first that does not succeed, whose status decides the verdict of
  the rollout, STALE or else the failure of the canary or of a later device; every later device is
  aborted without a session, and without a failure the rollout is completed.
\<close>

theorem execution_stops_at_failure:
  assumes "rrs \<noteq> []"
  shows "executeRollout env rrs dds = stop_at_failure rrs (device_runs env rrs dds)"
  using assms by (rule execution_reference)

section \<open>What a session rests on\<close>

lemma audit_event_Some: "audit_event env req action payload s = Some s' \<Longrightarrow> fe_audit env action \<and> fs_tenant s' = fs_tenant s"
  by (auto simp: audit_event_def auditRolloutEvent_def split: if_splits)

lemma audit_event_None: "audit_event env req action payload s = None \<longleftrightarrow> \<not> fe_audit env action"
  by (simp add: audit_event_def auditRolloutEvent_def)

lemma sync_sessions:
  assumes "SyncFleetHandler env req s = ((resp, log), s')" "log \<noteq> []"
  obtains rolloutID schema stored p rec db s1 db' where
    "requestedRolloutID env req = Some rolloutID" "getTenantSchema (sq_schema req) = Inr schema"
    "GetRolloutDraft schema (sq_site req) rolloutID (fs_tenant s) = Inr stored" "decodeRolloutDraft stored = Inr p"
    "rolloutResultsFromDraft p \<noteq> []" "\<not> rejectUnsafeNetworkMutations (rolloutResultsFromDraft p)" "dp_namespace p = []"
    "ClaimRolloutDraft schema (fe_now env AtClaim) (fe_token env) (sq_site req) rolloutID (fs_tenant s) = (Inr rec, db)"
    "fe_audit env ''SITE_ORCHESTRATOR_ROLLOUT_START''" "fs_tenant s1 = db"
    "verifyRolloutDraftObservedState (fe_show env False) (slice_elems (dp_devices p)) = None"
    "backup_failure (fe_backup env) (rolloutResultsFromDraft p) = None"
    "verifyRolloutDraftObservedState (fe_show env True) (slice_elems (dp_devices p)) = None"
    "markRolloutDevicesRunning (sq_schema req) (fe_now env AtMark) (sq_site req) rolloutID (rd_claim_token rec)
       (slice_elems (dp_devices p)) (fs_tenant s1) = (Inr (), db')"
    "run_marked env req rolloutID rec p (s1\<lparr>fs_tenant := db'\<rparr>) = ((resp, log), s')"
proof -
  obtain rolloutID schema stored where
      a: "requestedRolloutID env req = Some rolloutID" "getTenantSchema (sq_schema req) = Inr schema"
        "GetRolloutDraft schema (sq_site req) rolloutID (fs_tenant s) = Inr stored"
        "sync_draft env req schema rolloutID stored s = ((resp, log), s')"
    using assms by (auto simp: SyncFleetHandler_def split: option.splits sum.splits db_error.splits)
  then obtain p where
      b: "decodeRolloutDraft stored = Inr p" "rolloutResultsFromDraft p \<noteq> []"
        "\<not> rejectUnsafeNetworkMutations (rolloutResultsFromDraft p)" "dp_namespace p = []"
        "claim_and_run env req schema rolloutID p s = ((resp, log), s')"
    using assms(2) by (auto simp: sync_draft_def Let_def split_beta split: sum.splits if_splits list.splits prod.splits)
  then obtain rec db s1 where
      c: "ClaimRolloutDraft schema (fe_now env AtClaim) (fe_token env) (sq_site req) rolloutID (fs_tenant s) = (Inr rec, db)"
        "fe_audit env ''SITE_ORCHESTRATOR_ROLLOUT_START''" "fs_tenant s1 = db"
        "check_and_run env req schema rolloutID rec p s1 = ((resp, log), s')"
    using assms(2)
    by (auto simp: claim_and_run_def Let_def dest: audit_event_Some
        split: sum.splits option.splits prod.splits)
  then have
      d: "verifyRolloutDraftObservedState (fe_show env False) (slice_elems (dp_devices p)) = None"
        "backup_failure (fe_backup env) (rolloutResultsFromDraft p) = None"
        "verifyRolloutDraftObservedState (fe_show env True) (slice_elems (dp_devices p)) = None"
        "mark_and_run env req schema rolloutID rec p s1 = ((resp, log), s')"
    using assms(2) by (auto simp: check_and_run_def Let_def split_beta split: option.splits)
  then obtain db' where
      "markRolloutDevicesRunning (sq_schema req) (fe_now env AtMark) (sq_site req) rolloutID (rd_claim_token rec)
         (slice_elems (dp_devices p)) (fs_tenant s1) = (Inr (), db')"
      "run_marked env req rolloutID rec p (s1\<lparr>fs_tenant := db'\<rparr>) = ((resp, log), s')"
    using assms(2) by (auto simp: mark_and_run_def Let_def split: sum.splits prod.splits)
  with that a b c d show thesis by blast
qed

lemma verify_configs_sound:
  "verify_configs ask i observed cs = None \<Longrightarrow> c \<in> set cs \<Longrightarrow> \<exists>out. ask i c = Some out \<and> observedStateHash out = entry observed c"
  by (induction cs) (auto split: if_splits option.splits)

lemma verify_state_sound:
  "verifyRolloutDraftObservedState ask dds = None \<Longrightarrow> dd \<in> set dds \<Longrightarrow> c \<in> fst ` set (slice_elems (dd_observed dd))
    \<Longrightarrow> \<exists>out. ask (dd_id dd) c = Some out \<and> observedStateHash out = entry (slice_elems (dd_observed dd)) c"
proof (induction dds)
  case (Cons x dds)
  show ?case
  proof (cases "dd = x")
    case True
    with Cons.prems show ?thesis
      by (intro verify_configs_sound [of ask "dd_id dd" _ "sort (remdups (map fst (slice_elems (dd_observed dd))))"])
        (auto simp: Let_def split: option.splits)
  qed (use Cons in \<open>auto simp: Let_def split: option.splits\<close>)
qed simp

lemma backup_sound:
  "backup_failure backup rs = None \<Longrightarrow> r \<in> set rs \<Longrightarrow> rn_commands r \<noteq> [] \<Longrightarrow> backup (rn_device r) = None"
  by (induction rs) (auto split: if_splits option.splits)

lemma run_configs_log:
  "x \<in> set (snd (run_configs run i scripts cs out sr)) \<Longrightarrow>
     \<exists>c \<in> set cs. x = (i, c, entry scripts c) \<and> entry scripts c \<noteq> []"
  by (induction cs arbitrary: out) (auto simp: Let_def split_beta split: option.splits if_splits)

lemma run_device_log:
  "x \<in> set (snd (run_device env idx rr dd)) \<Longrightarrow>
     \<exists>c \<in> uc_config ` set (rn_commands rr). x = (rn_device rr, c, entry (slice_elems (dd_scripts dd)) c)
        \<and> entry (slice_elems (dd_scripts dd)) c \<noteq> []"
  unfolding run_device_def
  by (auto split: if_splits dest!: run_configs_log simp: sortedConfigNames_def)

lemma stop_at_failure_log: "set (snd (snd (stop_at_failure rrs runs))) \<subseteq> (\<Union>x \<in> set runs. set (snd x))"
  by (auto simp: stop_at_failure_def Let_def dest: in_set_takeD)

lemma results_nth:
  "i < length (slice_elems (dp_devices p)) \<Longrightarrow> rolloutResultsFromDraft p ! i =
     \<lparr>rn_device = dd_id (slice_elems (dp_devices p) ! i), rn_hostname = dd_hostname (slice_elems (dp_devices p) ! i),
      rn_role = dd_role (slice_elems (dp_devices p) ! i), rn_last_ip = [],
      rn_commands = slice_elems (dd_commands (slice_elems (dp_devices p) ! i))\<rparr>"
  "length (rolloutResultsFromDraft p) = length (slice_elems (dp_devices p))"
  by (simp_all add: rolloutResultsFromDraft_def)

lemma execution_log:
  assumes "rolloutResultsFromDraft p \<noteq> []"
    "x \<in> set (snd (snd (executeRollout env (rolloutResultsFromDraft p) (slice_elems (dp_devices p)))))"
  shows "\<exists>dd \<in> set (slice_elems (dp_devices p)). \<exists>c \<in> uc_config ` set (slice_elems (dd_commands dd)).
     x = (dd_id dd, c, entry (slice_elems (dd_scripts dd)) c) \<and> entry (slice_elems (dd_scripts dd)) c \<noteq> []"
proof -
  obtain i where i: "i < length (slice_elems (dp_devices p))"
      "x \<in> set (snd (run_device env i (rolloutResultsFromDraft p ! i) (slice_elems (dp_devices p) ! i)))"
    using subsetD [OF stop_at_failure_log assms(2) [unfolded execution_reference [OF assms(1)]]]
    by (auto simp: device_runs_def results_nth(2))
  from run_device_log [OF i(2)] show ?thesis
    unfolding results_nth(1) [OF i(1)] using i(1) by (intro bexI [OF _ nth_mem [OF i(1)]]) simp
qed

lemma run_marked_log:
  "run_marked env req rolloutID rec p s = ((resp, log), s') \<Longrightarrow>
     log = snd (snd (executeRollout env (rolloutResultsFromDraft p) (slice_elems (dp_devices p))))"
  by (auto simp: run_marked_def Let_def split: prod.splits sum.splits option.splits)

text \<open>
  C16. Nothing is run on a device on the strength of the request alone: every SSH session of a fleet
  synchronisation runs the script that the stored draft holds for that device and namespace, never one
  for the namespace \<open>network\<close>; the draft is claimed and the start is on record; the device has been
  backed up; and after the backup every namespace that the draft observed on the device still has the
  content that was observed.
\<close>

theorem sync_sessions_grounded:
  assumes "SyncFleetHandler env req s = ((resp, log), s')" "(i, c, script) \<in> set log"
  shows "fe_audit env ''SITE_ORCHESTRATOR_ROLLOUT_START''
     \<and> (\<exists>rolloutID schema stored p rec db dd.
         GetRolloutDraft schema (sq_site req) rolloutID (fs_tenant s) = Inr stored \<and> decodeRolloutDraft stored = Inr p
         \<and> ClaimRolloutDraft schema (fe_now env AtClaim) (fe_token env) (sq_site req) rolloutID (fs_tenant s) = (Inr rec, db)
         \<and> dd \<in> set (slice_elems (dp_devices p)) \<and> i = dd_id dd
         \<and> script = entry (slice_elems (dd_scripts dd)) c \<and> script \<noteq> [] \<and> c \<noteq> ''network''
         \<and> fe_backup env i = None
         \<and> (\<forall>n \<in> fst ` set (slice_elems (dd_observed dd)).
              \<exists>out. fe_show env True i n = Some out \<and> observedStateHash out = entry (slice_elems (dd_observed dd)) n))"
proof -
  have "log \<noteq> []" using assms(2) by auto
  from sync_sessions [OF assms(1) this] obtain rolloutID schema stored p rec db s1 db' where
    a: "GetRolloutDraft schema (sq_site req) rolloutID (fs_tenant s) = Inr stored" "decodeRolloutDraft stored = Inr p"
      "rolloutResultsFromDraft p \<noteq> []" "\<not> rejectUnsafeNetworkMutations (rolloutResultsFromDraft p)"
      "ClaimRolloutDraft schema (fe_now env AtClaim) (fe_token env) (sq_site req) rolloutID (fs_tenant s) = (Inr rec, db)"
      "fe_audit env ''SITE_ORCHESTRATOR_ROLLOUT_START''" "backup_failure (fe_backup env) (rolloutResultsFromDraft p) = None"
      "verifyRolloutDraftObservedState (fe_show env True) (slice_elems (dp_devices p)) = None"
      "run_marked env req rolloutID rec p (s1\<lparr>fs_tenant := db'\<rparr>) = ((resp, log), s')"
    by metis
  obtain dd where dd: "dd \<in> set (slice_elems (dp_devices p))" "c \<in> uc_config ` set (slice_elems (dd_commands dd))"
      "i = dd_id dd" "script = entry (slice_elems (dd_scripts dd)) c" "script \<noteq> []"
    using execution_log [OF a(3)] assms(2) run_marked_log [OF a(9)] by force
  have "c \<noteq> ''network''"
    using a(4) dd(1,2) by (auto simp: rejectUnsafeNetworkMutations_def rolloutResultsFromDraft_def list_ex_iff)
  moreover have "fe_backup env i = None"
    using backup_sound [OF a(7)] dd(1,2,3) by (fastforce simp: rolloutResultsFromDraft_def)
  ultimately show ?thesis
    using a dd verify_state_sound [OF a(8) dd(1)] by blast
qed

section \<open>Devices in a rollout\<close>

lemma mark_devices_ok:
  "mark_devices now siteID dds db = (Inr (), db') \<Longrightarrow>
     rollouts db' = rollouts db \<and> distinct (map dd_id dds)
     \<and> (\<forall>dd \<in> set dds. \<exists>d. devices db (dd_id dd) = Some d \<and> idle_device siteID d \<and> device_role d = dd_role dd
          \<and> devices db' (dd_id dd) = Some (set_rollout_status now ''RUNNING'' d))
     \<and> (\<forall>i. i \<notin> dd_id ` set dds \<longrightarrow> devices db' i = devices db i)"
proof (induction dds arbitrary: db)
  case (Cons x dds)
  let ?db = "update_device (dd_id x) (set_rollout_status now ''RUNNING'') db"
  from Cons.prems obtain d where d: "devices db (dd_id x) = Some d" "idle_device siteID d" "device_role d = dd_role x"
      "mark_devices now siteID dds ?db = (Inr (), db')"
    by (auto split: option.splits if_splits)
  note IH = Cons.IH [OF d(4)]
  have fresh: "dd_id x \<notin> dd_id ` set dds"
  proof
    assume "dd_id x \<in> dd_id ` set dds"
    then obtain dd where "dd \<in> set dds" "dd_id dd = dd_id x" by auto
    with IH obtain d' where "devices ?db (dd_id x) = Some d'" "idle_device siteID d'" by metis
    with d(1) show False by (auto simp: idle_device_def set_rollout_status_def)
  qed
  have "\<exists>e. devices db (dd_id dd) = Some e \<and> idle_device siteID e \<and> device_role e = dd_role dd
      \<and> devices db' (dd_id dd) = Some (set_rollout_status now ''RUNNING'' e)" if "dd \<in> set dds" for dd
    using IH that fresh by (metis image_eqI update_device_simps(4))
  moreover have "devices db' (dd_id x) = Some (set_rollout_status now ''RUNNING'' d)"
    using IH fresh d(1) by simp
  moreover have "devices db' i = devices db i" if "i \<notin> dd_id ` set (x # dds)" for i
    using IH that by simp
  ultimately show ?case
    using IH fresh d by (auto simp: comp_def)
qed simp

lemma mark_running_ok:
  assumes "markRolloutDevicesRunning reqSchema now siteID rolloutID tok dds db = (Inr (), db')" "dds \<noteq> []"
  shows "mark_devices now siteID dds db = (Inr (), db')" "assertRolloutClaim rolloutID tok db" "is_ok (getTenantSchema reqSchema)"
  using assms by (auto simp: markRolloutDevicesRunning_def is_ok_def split: sum.splits if_splits prod.splits)

text \<open>
  C19. A device in an SSH rollout takes no other work: once a rollout has marked its devices, no
  operation and no changeset, whoever owns it, can be queued for any of them, and no other rollout can
  mark any of them. The draft names each device once.
\<close>

theorem marked_devices_fenced:
  assumes "markRolloutDevicesRunning reqSchema now siteID rolloutID tok dds db = (Inr (), db')" "dd \<in> set dds"
  shows "distinct (map dd_id dds)
     \<and> snd (QueueDeviceOperation schema t (dd_id dd) plan db') = db'
     \<and> snd (queueDeviceChangeSet schema t site role (dd_id dd) cs rollout db') = db'
     \<and> (dd_id dd \<in> dd_id ` set dds' \<longrightarrow>
          (\<exists>e. markRolloutDevicesRunning reqSchema' t siteID' rolloutID' tok' dds' db' = (Inl e, db')))"
proof -
  have "dds \<noteq> []" using assms(2) by auto
  note ok = mark_devices_ok [OF mark_running_ok(1) [OF assms(1) this]]
  then obtain d where d: "devices db' (dd_id dd) = Some d" "dv_rollout_status d = Some ''RUNNING''"
    using assms(2) by (force simp: set_rollout_status_def)
  have "snd (QueueDeviceOperation schema t (dd_id dd) plan db') = db'"
    by (cases rule: QueueDeviceOperation_cases [of schema t "dd_id dd" plan db']) (use d in \<open>auto simp: queue_op_guard_def\<close>)
  moreover have "snd (queueDeviceChangeSet schema t site role (dd_id dd) cs rollout db') = db'"
    by (cases rule: queueDeviceChangeSet_cases [of schema t site role "dd_id dd" cs rollout db'])
      (use d in \<open>auto simp: queue_cs_guard_def\<close>)
  moreover have "\<exists>e. markRolloutDevicesRunning reqSchema' t siteID' rolloutID' tok' dds' db' = (Inl e, db')"
    if listed: "dd_id dd \<in> dd_id ` set dds'"
  proof -
    obtain dd' where dd': "dd' \<in> set dds'" "dd_id dd' = dd_id dd" using listed by (metis imageE)
    have "mark_devices t siteID' dds' db' \<noteq> (Inr (), db2)" for db2
      using mark_devices_ok [of t siteID' dds' db' db2] dd' d by (force simp: idle_device_def)
    moreover have "dds' \<noteq> []" using listed by auto
    ultimately show ?thesis
      by (auto simp: markRolloutDevicesRunning_def split: sum.split prod.split)
  qed
  ultimately show ?thesis using ok by blast
qed

lemma settle_devices_ok:
  assumes "distinct (map fr_device rs)"
    "\<forall>r \<in> set rs. \<exists>d. devices db (fr_device r) = Some d \<and> dv_site d = Some siteID \<and> dv_rollout_status d = Some ''RUNNING''"
  shows "\<exists>db'. settle_devices now siteID rs db = (Inr (), db') \<and> rollouts db' = rollouts db
     \<and> (\<forall>r \<in> set rs. \<exists>d. devices db' (fr_device r) = Some d \<and> dv_rollout_status d = Some (device_verdict (fr_status r)))
     \<and> (\<forall>i. i \<notin> fr_device ` set rs \<longrightarrow> devices db' i = devices db i)"
  using assms
proof (induction rs arbitrary: db)
  case (Cons r rs)
  obtain d where d: "devices db (fr_device r) = Some d" "dv_site d = Some siteID" "dv_rollout_status d = Some ''RUNNING''"
    using Cons.prems(2) by auto
  let ?db = "update_device (fr_device r) (set_rollout_status now (device_verdict (fr_status r))) db"
  have fresh: "fr_device r \<notin> fr_device ` set rs" using Cons.prems(1) by simp
  have "\<forall>r' \<in> set rs. \<exists>d. devices ?db (fr_device r') = Some d \<and> dv_site d = Some siteID \<and> dv_rollout_status d = Some ''RUNNING''"
    using Cons.prems(2) fresh by (metis image_eqI list.set_intros(2) update_device_simps(4))
  with Cons.IH [of ?db] Cons.prems(1) obtain db' where db': "settle_devices now siteID rs ?db = (Inr (), db')"
      "rollouts db' = rollouts db"
      "\<forall>r \<in> set rs. \<exists>d. devices db' (fr_device r) = Some d \<and> dv_rollout_status d = Some (device_verdict (fr_status r))"
      "\<forall>i. i \<notin> fr_device ` set rs \<longrightarrow> devices db' i = devices ?db i"
    by auto
  have "devices db' (fr_device r) = Some (set_rollout_status now (device_verdict (fr_status r)) d)"
    using db'(4) fresh d(1) by simp
  then show ?case
    using db' d by (auto simp: set_rollout_status_def)
qed simp

lemma claim_held: "assertRolloutClaim rolloutID tok db \<Longrightarrow> list_ex (held_run rolloutID tok) (rollouts db)"
  by (auto simp: assertRolloutClaim_def held_run_def list_ex_iff find_Some_iff split: option.splits)

lemma persist_after_mark:
  assumes "markRolloutDevicesRunning reqSchema now siteID rolloutID tok dds db = (Inr (), db')" "dds \<noteq> []"
    "map fr_device results = map dd_id dds"
  obtains db'' where "persistRolloutResults reqSchema now' siteID rolloutID tok st results db' = (Inr (), db'')"
    "rollouts db'' = map (\<lambda>r. if held_run rolloutID tok r then close_run now' st results r else r) (rollouts db)"
    "list_ex (held_run rolloutID tok) (rollouts db)"
    "\<And>r. r \<in> set results \<Longrightarrow> \<exists>d. devices db'' (fr_device r) = Some d \<and> dv_rollout_status d = Some (device_verdict (fr_status r))"
proof -
  note ok = mark_running_ok [OF assms(1,2)]
  note marked = mark_devices_ok [OF ok(1)]
  have "\<forall>r \<in> set results. \<exists>d. devices db' (fr_device r) = Some d \<and> dv_site d = Some siteID \<and> dv_rollout_status d = Some ''RUNNING''"
  proof
    fix r assume "r \<in> set results"
    then have "fr_device r \<in> dd_id ` set dds" using assms(3) by (metis image_eqI image_set)
    with marked show "\<exists>d. devices db' (fr_device r) = Some d \<and> dv_site d = Some siteID \<and> dv_rollout_status d = Some ''RUNNING''"
      by (fastforce simp: set_rollout_status_def idle_device_def)
  qed
  moreover have "distinct (map fr_device results)" using marked assms(3) by simp
  ultimately obtain db1 where db1: "settle_devices now' siteID results db' = (Inr (), db1)" "rollouts db1 = rollouts db"
      "\<forall>r \<in> set results. \<exists>d. devices db1 (fr_device r) = Some d \<and> dv_rollout_status d = Some (device_verdict (fr_status r))"
    using settle_devices_ok [of results db' siteID now'] marked by auto
  have claim: "assertRolloutClaim rolloutID tok db'" "list_ex (held_run rolloutID tok) (rollouts db)"
    using ok(2) marked claim_held by (simp_all add: assertRolloutClaim_def)
  let ?db = "update_rollouts (\<lambda>r. if held_run rolloutID tok r then close_run now' st results r else r) db1"
  have "persistRolloutResults reqSchema now' siteID rolloutID tok st results db' = (Inr (), ?db)"
    using ok(3) claim db1(1,2) by (cases "getTenantSchema reqSchema") (simp_all add: persistRolloutResults_def update_run_def is_ok_def)
  with that [of ?db] db1 claim show thesis by simp
qed

lemma run_configs_device: "fr_device (fst (run_configs run i scripts cs out sr)) = fr_device sr"
  by (induction cs arbitrary: out) (auto simp: Let_def split_beta split: option.split)

lemma run_device_device: "fr_device (fst (run_device env idx rr dd)) = rn_device rr"
  by (simp add: run_device_def run_configs_device new_result_def)

lemma stop_at_failure_devices:
  assumes "length runs = length rrs" "\<And>i. i < length rrs \<Longrightarrow> fr_device (fst (runs ! i)) = rn_device (rrs ! i)"
  shows "map fr_device (fst (snd (stop_at_failure rrs runs))) = map rn_device rrs"
proof (rule nth_equalityI)
  have k: "length (takeWhile good_run runs) \<le> length rrs" using assms(1) length_takeWhile_le by metis
  then show l: "length (map fr_device (fst (snd (stop_at_failure rrs runs)))) = length (map rn_device rrs)"
    using assms(1) by (auto simp: stop_at_failure_def Let_def)
  fix i assume "i < length (map fr_device (fst (snd (stop_at_failure rrs runs))))"
  then have "i < length rrs" using l by simp
  with k assms show "map fr_device (fst (snd (stop_at_failure rrs runs))) ! i = map rn_device rrs ! i"
    by (auto simp: stop_at_failure_def Let_def nth_append aborted_result_def new_result_def less_Suc_eq)
qed

lemma execution_devices:
  "rrs \<noteq> [] \<Longrightarrow> map fr_device (fst (snd (executeRollout env rrs dds))) = map rn_device rrs"
  unfolding execution_reference
  by (rule stop_at_failure_devices) (simp_all add: run_device_device)

lemma run_marked_persisted:
  assumes "run_marked env req rolloutID rec p s = ((resp, log), s')"
    "executeRollout env (rolloutResultsFromDraft p) (slice_elems (dp_devices p)) = (st, results, log0)"
    "persistRolloutResults (sq_schema req) (fe_now env AtPersist) (sq_site req) rolloutID (rd_claim_token rec) st results
       (fs_tenant s) = (Inr (), db)"
  shows "\<exists>audited ok bad. resp = FleetExecuted audited st (rd_generation rec) ok bad results \<and> ok + bad = length results
    \<and> log = log0 \<and> fs_tenant s' = db"
proof -
  have "length (filter (\<lambda>r. rolloutResultSuccess (fr_status r)) results) \<le> length results" by (rule length_filter_le)
  then show ?thesis
    using assms by (auto simp: run_marked_def Let_def dest!: audit_event_Some split: option.splits)
qed

text \<open>
  C18. A fleet synchronisation that reaches a device settles: without interference it answers with its
  results, one for each device of the draft in order, the run of the draft is closed with the status of
  the execution and its results, without a claim, and every device has the verdict of its result and is
  no longer marked as running.
\<close>

theorem sync_settles:
  assumes "SyncFleetHandler env req s = ((resp, log), s')" "log \<noteq> []"
  shows "\<exists>audited st g ok bad results p rolloutID schema stored.
     GetRolloutDraft schema (sq_site req) rolloutID (fs_tenant s) = Inr stored \<and> decodeRolloutDraft stored = Inr p
     \<and> resp = FleetExecuted audited st g ok bad results \<and> ok + bad = length results
     \<and> (st, results, log) = stop_at_failure (rolloutResultsFromDraft p)
           (device_runs env (rolloutResultsFromDraft p) (slice_elems (dp_devices p)))
     \<and> map fr_device results = map dd_id (slice_elems (dp_devices p))
     \<and> (\<exists>r \<in> set (rollouts (fs_tenant s')). rr_id r = rolloutID \<and> rr_status r = st \<and> rr_claim_token r = None
          \<and> rr_results r = JArr (map fleet_result_json (stripFleetSyncOutput results)))
     \<and> (\<forall>r \<in> set results. \<exists>d. devices (fs_tenant s') (fr_device r) = Some d
          \<and> dv_rollout_status d = Some (device_verdict (fr_status r)) \<and> dv_rollout_status d \<noteq> Some ''RUNNING'')"
proof -
  from sync_sessions [OF assms] obtain rolloutID schema stored p rec s1 db' where
    stored: "GetRolloutDraft schema (sq_site req) rolloutID (fs_tenant s) = Inr stored" "decodeRolloutDraft stored = Inr p" and
    a: "rolloutResultsFromDraft p \<noteq> []"
      "markRolloutDevicesRunning (sq_schema req) (fe_now env AtMark) (sq_site req) rolloutID (rd_claim_token rec)
         (slice_elems (dp_devices p)) (fs_tenant s1) = (Inr (), db')"
      "run_marked env req rolloutID rec p (s1\<lparr>fs_tenant := db'\<rparr>) = ((resp, log), s')"
    by metis
  let ?rrs = "rolloutResultsFromDraft p" and ?dds = "slice_elems (dp_devices p)"
  obtain st results log0 where ex: "executeRollout env ?rrs ?dds = (st, results, log0)" by (metis prod_cases3)
  have dds: "?dds \<noteq> []" using a(1) by (auto simp: rolloutResultsFromDraft_def)
  have devs: "map fr_device results = map dd_id ?dds"
    using execution_devices [OF a(1), of env ?dds] unfolding ex by (simp add: rolloutResultsFromDraft_def comp_def)
  obtain db'' where db'': "persistRolloutResults (sq_schema req) (fe_now env AtPersist) (sq_site req) rolloutID (rd_claim_token rec) st results db' = (Inr (), db'')"
      "rollouts db'' = map (\<lambda>r. if held_run rolloutID (rd_claim_token rec) r then close_run (fe_now env AtPersist) st results r else r) (rollouts (fs_tenant s1))"
      "list_ex (held_run rolloutID (rd_claim_token rec)) (rollouts (fs_tenant s1))"
      "\<And>r. r \<in> set results \<Longrightarrow> \<exists>d. devices db'' (fr_device r) = Some d \<and> dv_rollout_status d = Some (device_verdict (fr_status r))"
    by (rule persist_after_mark [OF a(2) dds devs, of "fe_now env AtPersist" st]) blast
  obtain audited ok bad where run: "resp = FleetExecuted audited st (rd_generation rec) ok bad results"
      "ok + bad = length results" "log = log0" "fs_tenant s' = db''"
    using run_marked_persisted [OF a(3) ex, of db''] db''(1) by auto
  have "\<exists>r \<in> set (rollouts db''). rr_id r = rolloutID \<and> rr_status r = st \<and> rr_claim_token r = None
      \<and> rr_results r = JArr (map fleet_result_json (stripFleetSyncOutput results))"
  proof -
    obtain r where "r \<in> set (rollouts (fs_tenant s1))" "held_run rolloutID (rd_claim_token rec) r"
      using db''(3) by (auto simp: list_ex_iff)
    moreover from this have "close_run (fe_now env AtPersist) st results r \<in> set (rollouts db'')"
      unfolding db''(2) by (auto intro!: image_eqI [of _ _ r])
    ultimately show ?thesis
      by (intro bexI [of _ "close_run (fe_now env AtPersist) st results r"]) (simp_all add: held_run_def close_run_def)
  qed
  moreover have "\<forall>r \<in> set results. \<exists>d. devices (fs_tenant s') (fr_device r) = Some d
      \<and> dv_rollout_status d = Some (device_verdict (fr_status r)) \<and> dv_rollout_status d \<noteq> Some ''RUNNING''"
    using db''(4) run(4) by (fastforce simp: device_verdict_def)
  moreover have "(st, results, log) = stop_at_failure ?rrs (device_runs env ?rrs ?dds)"
    using execution_reference [OF a(1), of env ?dds] by (simp add: ex run(3))
  ultimately show ?thesis
    using stored run(1,2) devs unfolding run(4) by blast
qed

section \<open>A synchronisation is a sequence of transactions\<close>

text \<open>Each request changes the tables only through these transactions, so other writers may come in between.\<close>

datatype fleet_event =
    FleetDraft draft_request
  | FleetMark string int string string string "draft_device list"
  | FleetPersist string int string string string string "fleet_result list"
  | FleetPersistFailure string int string string string "fleet_result list" string

fun fleet_step :: "string \<Rightarrow> fleet_event \<Rightarrow> tenant_db \<Rightarrow> tenant_db" where
  "fleet_step schema (FleetDraft req) db = draft_step schema req db"
| "fleet_step schema (FleetMark sc now site i tok dds) db = snd (markRolloutDevicesRunning sc now site i tok dds db)"
| "fleet_step schema (FleetPersist sc now site i tok st rs) db = snd (persistRolloutResults sc now site i tok st rs db)"
| "fleet_step schema (FleetPersistFailure sc now site i tok rs cause) db =
     snd (markRolloutPersistenceFailure sc now site i tok rs cause db)"

lemma set_status_progress [simp]: "row_progress d (set_rollout_status now st d)"
  by (simp add: set_rollout_status_def row_progress_def exclusive_def)

lemma close_run_kept [simp]: "run_kept r (close_run now st rs r)"
  by (simp add: close_run_def run_kept_def)

lemma mark_devices_contract:
  "db_progress db (snd (mark_devices now site dds db)) \<and> rollouts (snd (mark_devices now site dds db)) = rollouts db"
proof (induction dds arbitrary: db)
  case (Cons dd dds)
  show ?case
  proof (cases "devices db (dd_id dd)")
    case (Some d)
    let ?db = "update_device (dd_id dd) (set_rollout_status now ''RUNNING'') db"
    have "db_progress db ?db" using Some by (intro db_progress_update) auto
    with Some Cons.IH [of ?db] show ?thesis by (auto intro: db_progress_trans)
  qed simp
qed simp

lemma settle_devices_contract:
  "db_progress db (snd (settle_devices now site rs db)) \<and> rollouts (snd (settle_devices now site rs db)) = rollouts db"
proof (induction rs arbitrary: db)
  case (Cons r rs)
  show ?case
  proof (cases "devices db (fr_device r)")
    case (Some d)
    let ?db = "update_device (fr_device r) (set_rollout_status now (device_verdict (fr_status r))) db"
    have "db_progress db ?db" using Some by (intro db_progress_update) auto
    with Some Cons.IH [of ?db] show ?thesis by (auto intro: db_progress_trans)
  qed simp
qed simp

lemma mark_site_contract: "db_progress db (mark_site now site db) \<and> rollouts (mark_site now site db) = rollouts db"
  by (simp add: db_progress_def mark_site_def rel_option_iff split: option.split)

lemma fleet_step_contract: "db_progress db (fleet_step schema ev db) \<and> runs_extend db (fleet_step schema ev db)"
proof (cases ev)
  case (FleetDraft req)
  then show ?thesis by (simp add: drafts.progress drafts.extends)
next
  case (FleetMark sc now site i tok dds)
  then show ?thesis
    using mark_devices_contract [of db now site dds]
    by (auto simp: markRolloutDevicesRunning_def mark_site_contract split: sum.split prod.split)
next
  case (FleetPersist sc now site i tok st rs)
  obtain res db1 where sd: "settle_devices now site rs db = (res, db1)" by force
  let ?u = "snd (update_run (held_run i tok) (close_run now st rs) DbDraftNotAvailable db1)"
  have "db_progress db db1" "runs_extend db db1" "db_progress db1 ?u" "runs_extend db1 ?u"
    using sd settle_devices_contract [of db now site rs] by (simp_all add: update_run_contract)
  then have "db_progress db ?u \<and> runs_extend db ?u" by (blast intro: db_progress_trans runs_extend_trans)
  moreover have "fleet_step schema ev db \<in> {db, ?u}"
    by (auto simp: FleetPersist persistRolloutResults_def sd split: sum.split prod.split)
  ultimately show ?thesis by auto
next
  case (FleetPersistFailure sc now site i tok rs cause)
  let ?db = "fail_running_devices now site db"
  let ?u = "snd (update_run (held_run i tok) (close_run now ''FAILED'' (failure_results cause rs)) DbDraftNotAvailable ?db)"
  have "db_progress db ?db" "runs_extend db ?db" "db_progress ?db ?u" "runs_extend ?db ?u"
    by (simp_all add: update_run_contract fail_running_progress)
  then have "db_progress db ?u \<and> runs_extend db ?u" by (blast intro: db_progress_trans runs_extend_trans)
  moreover have "fleet_step schema ev db \<in> {db, ?u}"
    by (auto simp: FleetPersistFailure markRolloutPersistenceFailure_def split: sum.split prod.split)
  ultimately show ?thesis by auto
qed

interpretation fleet: control_writer "fleet_step schema" for schema
  by unfold_locales (simp_all add: fleet_step_contract)

definition by_transactions :: "string \<Rightarrow> fleet_state \<Rightarrow> fleet_state \<Rightarrow> bool" where
  "by_transactions schema s s' \<longleftrightarrow> (\<exists>evs. fs_tenant s' = fold (fleet_step schema) evs (fs_tenant s))"

lemma by_transactions_same [intro]: "fs_tenant s' = fs_tenant s \<Longrightarrow> by_transactions schema s s'"
  unfolding by_transactions_def by (intro exI [of _ "[]"]) simp

lemma by_transactions_step: "fs_tenant s' = fleet_step schema ev (fs_tenant s) \<Longrightarrow> by_transactions schema s s'"
  unfolding by_transactions_def by (intro exI [of _ "[ev]"]) simp

lemma by_transactions_draft: "fs_tenant s' = draft_step schema req (fs_tenant s) \<Longrightarrow> by_transactions schema s s'"
  by (rule by_transactions_step [where ev = "FleetDraft req"]) simp

lemma by_transactions_trans [trans]:
  "by_transactions schema a b \<Longrightarrow> by_transactions schema b c \<Longrightarrow> by_transactions schema a c"
  unfolding by_transactions_def by (metis fold_append comp_apply)

lemma audit_or_transactions:
  assumes "by_transactions schema s s1" shows "by_transactions schema s (snd (audit_or env req act pl r s1))"
  using assms
  by (cases "audit_event env req act pl s1") (auto simp: audit_or_def by_transactions_def dest!: audit_event_Some)

lemma reject_transactions: "by_transactions schema s (rejectUnexecutableRolloutDraft env req schema i reason s)"
proof -
  let ?s = "with_tenant (RejectRolloutDraft schema (fe_now env AtReject) (sq_site req) i (fe_wording env reason)) s"
  have "by_transactions schema s ?s"
    by (rule by_transactions_step [where ev = "FleetDraft (Reject (fe_now env AtReject) (sq_site req) i (fe_wording env reason))"])
      (simp add: with_tenant_def)
  then show ?thesis
    by (auto simp: rejectUnexecutableRolloutDraft_def Let_def by_transactions_def dest!: audit_event_Some split: option.split)
qed

lemma release_transactions: "by_transactions schema s (releaseRolloutDraftForRetry env req schema i tok s)"
  by (rule by_transactions_step [where ev = "FleetDraft (Release (fe_now env AtClose) (sq_site req) i tok)"])
    (simp add: releaseRolloutDraftForRetry_def with_tenant_def)

lemma stale_transactions: "by_transactions schema s (mark_stale env req schema i tok s)"
  by (rule by_transactions_step [where ev = "FleetDraft (Stale (fe_now env AtClose) (sq_site req) i tok)"])
    (simp add: mark_stale_def with_tenant_def)

lemma validation_transactions: "by_transactions schema s (snd (handleRolloutDraftValidationFailure env req schema i tok e s))"
  by (simp add: handleRolloutDraftValidationFailure_def audit_or_transactions release_transactions stale_transactions)

lemma run_marked_transactions: "by_transactions schema s (snd (run_marked env req i rec p s))"
proof -
  obtain st rs log where ex: "executeRollout env (rolloutResultsFromDraft p) (slice_elems (dp_devices p)) = (st, rs, log)"
    by (metis prod_cases3)
  obtain res db where ps: "persistRolloutResults (sq_schema req) (fe_now env AtPersist) (sq_site req) i (rd_claim_token rec) st rs (fs_tenant s) = (res, db)"
    by force
  have step: "by_transactions schema s (s\<lparr>fs_tenant := db\<rparr>)"
    by (rule by_transactions_step [where ev = "FleetPersist (sq_schema req) (fe_now env AtPersist) (sq_site req) i (rd_claim_token rec) st rs"])
      (simp add: ps)
  show ?thesis
  proof (cases res)
    case (Inl e)
    let ?s = "with_tenant (markRolloutPersistenceFailure (sq_schema req) (fe_now env AtClose) (sq_site req) i
          (rd_claim_token rec) rs (fe_wording env (ReasonPersist e))) (s\<lparr>fs_tenant := db\<rparr>)"
    have "by_transactions schema (s\<lparr>fs_tenant := db\<rparr>) ?s"
      by (rule by_transactions_step [where ev = "FleetPersistFailure (sq_schema req) (fe_now env AtClose) (sq_site req) i
          (rd_claim_token rec) rs (fe_wording env (ReasonPersist e))"]) (simp add: with_tenant_def)
    with step have "by_transactions schema s ?s" by (rule by_transactions_trans)
    then show ?thesis by (simp add: run_marked_def ex ps Inl)
  next
    case (Inr u)
    have "fs_tenant (snd (run_marked env req i rec p s)) = db"
      by (auto simp: run_marked_def ex ps Inr Let_def dest!: audit_event_Some split: option.split)
    with step show ?thesis by (simp add: by_transactions_def)
  qed
qed

lemma mark_and_run_transactions: "by_transactions schema s (snd (mark_and_run env req schema i rec p s))"
proof -
  obtain res db where m: "markRolloutDevicesRunning (sq_schema req) (fe_now env AtMark) (sq_site req) i (rd_claim_token rec)
      (slice_elems (dp_devices p)) (fs_tenant s) = (res, db)" by force
  have step: "by_transactions schema s (s\<lparr>fs_tenant := db\<rparr>)"
    by (rule by_transactions_step [where ev = "FleetMark (sq_schema req) (fe_now env AtMark) (sq_site req) i (rd_claim_token rec)
      (slice_elems (dp_devices p))"]) (simp add: m)
  then have close: "by_transactions schema s (releaseRolloutDraftForRetry env req schema i tok (s\<lparr>fs_tenant := db\<rparr>))"
      "by_transactions schema s (mark_stale env req schema i tok (s\<lparr>fs_tenant := db\<rparr>))" for tok
    by (blast intro: by_transactions_trans release_transactions stale_transactions)+
  show ?thesis
  proof (cases res)
    case (Inl e)
    with close show ?thesis
      by (cases e) (simp_all add: mark_and_run_def m Let_def split_beta audit_or_transactions)
  next
    case (Inr u)
    with step show ?thesis
      by (auto simp: mark_and_run_def m intro: by_transactions_trans run_marked_transactions)
  qed
qed

lemma check_and_run_transactions: "by_transactions schema s (snd (check_and_run env req schema i rec p s))"
  by (auto simp: check_and_run_def Let_def split_beta audit_or_transactions release_transactions validation_transactions
      mark_and_run_transactions split: option.split)

lemma claim_and_run_transactions: "by_transactions schema s (snd (claim_and_run env req schema i p s))"
proof (cases "verifyRolloutDraftTargets schema (sq_site req) (slice_elems (dp_devices p)) (fs_tenant s)")
  case None
  obtain res db where c: "ClaimRolloutDraft schema (fe_now env AtClaim) (fe_token env) (sq_site req) i (fs_tenant s) = (res, db)"
    by force
  have step: "by_transactions schema s (s\<lparr>fs_tenant := db\<rparr>)"
    by (rule by_transactions_step [where ev = "FleetDraft (Claim (fe_now env AtClaim) (fe_token env) (sq_site req) i)"]) (simp add: c)
  have run: "by_transactions schema s (snd (check_and_run env req schema i rec p s1))" if "fs_tenant s1 = db" for rec s1
    using step check_and_run_transactions [of schema s1 env req i rec p] that
    by (simp add: by_transactions_def) (metis fold_append comp_apply)
  show ?thesis
  proof (cases res)
    case (Inr rec)
    with step show ?thesis
      by (auto simp: claim_and_run_def None c Let_def dest!: audit_event_Some split: option.split
          intro: by_transactions_trans release_transactions run)
  qed (use step in \<open>simp add: claim_and_run_def None c\<close>)
qed (simp add: claim_and_run_def split_beta validation_transactions)

lemma claim_queue_single:
  "snd (ClaimAndQueueDeviceChangeSet schema now tok site i role cs qr u ip db)
     = draft_step schema (ClaimQueue now tok site i [(role, cs)] qr u ip) db"
  by (auto simp: ClaimAndQueueDeviceChangeSet_def split: prod.split sum.split)

lemma queue_single_transactions: "by_transactions schema s (snd (queue_single env req schema i rec p dd s))"
proof (cases "buildSingleDeviceChangeSet i p")
  case (Inr cs)
  obtain res db where c: "ClaimAndQueueDeviceChangeSet schema (fe_now env AtQueue) (fe_token env) (sq_site req) i (dd_role dd)
      (Some (change_set_json cs)) (Some (JArr [fleet_result_json (queued_result ''QUEUED'' agent_message dd cs)]))
      (sq_username req) (sq_remote req) (fs_tenant s) = (res, db)" by force
  have "db = draft_step schema (ClaimQueue (fe_now env AtQueue) (fe_token env) (sq_site req) i [(dd_role dd, Some (change_set_json cs))]
      (Some (JArr [fleet_result_json (queued_result ''QUEUED'' agent_message dd cs)])) (sq_username req) (sq_remote req)) (fs_tenant s)"
    using claim_queue_single [symmetric] c by (metis snd_conv)
  then have step: "by_transactions schema s (s\<lparr>fs_tenant := db\<rparr>)"
    by (intro by_transactions_draft [where req = "ClaimQueue (fe_now env AtQueue) (fe_token env) (sq_site req) i [(dd_role dd, Some (change_set_json cs))]
      (Some (JArr [fleet_result_json (queued_result ''QUEUED'' agent_message dd cs)])) (sq_username req) (sq_remote req)"])
      (simp del: draft_step.simps)
  then show ?thesis
    by (auto simp: queue_single_def Inr c Let_def split: sum.split option.split
        intro: by_transactions_trans reject_transactions)
qed (simp add: queue_single_def reject_transactions)

lemma queue_fleet_transactions: "by_transactions schema s (snd (queueFleetDeviceChangeSets env req schema i rec p s))"
proof (cases "buildFleetDeviceChangeSets i p")
  case (Inr css)
  let ?phase = "hd (sequentialFleetRolloutPhases (rolloutResultsFromDraft p))" and ?dds = "slice_elems (dp_devices p)"
  let ?ev = "ClaimQueue (fe_now env AtQueue) (fe_token env) (sq_site req) i (fleet_items ?phase ?dds css)
      (Some (JArr (map fleet_result_json (fleet_waiting ?phase ?dds css)))) (sq_username req) (sq_remote req)"
  have "by_transactions schema s (s\<lparr>fs_tenant := draft_step schema ?ev (fs_tenant s)\<rparr>)"
    by (rule by_transactions_step [where ev = "FleetDraft ?ev"]) simp
  then show ?thesis
    by (auto simp: queueFleetDeviceChangeSets_def Inr Let_def split: sum.split prod.split)
qed (simp add: queueFleetDeviceChangeSets_def by_transactions_same)

lemma sync_draft_transactions: "by_transactions schema s (snd (sync_draft env req schema i rec s))"
proof -
  show ?thesis
    by (auto simp: sync_draft_def Let_def split_beta reject_transactions claim_and_run_transactions queue_single_transactions
        split: sum.split list.split intro: by_transactions_trans reject_transactions queue_fleet_transactions)
qed

text \<open>
  Whatever a fleet synchronisation does to the tables, it does by the transactions of the draft
  store and the three of its own, one after the other; in particular no device loses a generation and
  no run its plan, whatever else happens in between.
\<close>

theorem sync_is_transactions:
  "\<exists>schema evs. fs_tenant (snd (SyncFleetHandler env req s)) = fold (fleet_step schema) evs (fs_tenant s)
     \<and> db_progress (fs_tenant s) (fs_tenant (snd (SyncFleetHandler env req s)))
     \<and> runs_extend (fs_tenant s) (fs_tenant (snd (SyncFleetHandler env req s)))"
proof -
  have "\<exists>schema. by_transactions schema s (snd (SyncFleetHandler env req s))"
    by (auto simp: SyncFleetHandler_def intro: sync_draft_transactions by_transactions_same
        split: option.split sum.split db_error.split)
  then show ?thesis
    unfolding by_transactions_def using fleet.run_progress fleet.run_extends by metis
qed

section \<open>A synchronisation\<close>

definition sample_ssh_device :: draft_device where
  "sample_ssh_device =
     \<lparr>dd_id = ''dev-1'', dd_hostname = ''ap-1'', dd_role = ''ap'', dd_commands = Some sample_dropbear, dd_preview = None,
      dd_scripts = Some [(''dropbear'', ''uci commit'')], dd_observed = Some [(''dropbear'', observedStateHash ''x'')]\<rparr>"

definition sample_ssh_plan :: draft_plan where
  "sample_ssh_plan =
     \<lparr>dp_site = ''site-1'', dp_target = [], dp_namespace = [], dp_health_checks = None, dp_devices = Some [sample_ssh_device]\<rparr>"

definition sample_ssh_run :: rollout_row where
  "sample_ssh_run = sample_run\<lparr>rr_status := ''DRAFT'', rr_plan := draft_json sample_ssh_plan, rr_plan_hash := rolloutPlanHash sample_ssh_plan\<rparr>"

definition sample_ssh_fleet :: fleet_state where
  "sample_ssh_fleet = \<lparr>fs_sites = Map.empty, fs_tenant = sample_cs_db\<lparr>rollouts := [sample_ssh_run]\<rparr>, fs_audit = []\<rparr>"

definition sample_ssh_env :: fleet_env where
  "sample_ssh_env =
     \<lparr>fe_now = (\<lambda>_. 100), fe_token = ''tok'', fe_uuid = Some, fe_audit = (\<lambda>_. True), fe_show = (\<lambda>_ _ _. Some ''x''),
      fe_backup = (\<lambda>_. None), fe_run = (\<lambda>_ _ _ _. \<lparr>so_output = ''ok'', so_failure = None\<rparr>), fe_wording = (\<lambda>_. [])\<rparr>"

definition sample_sync_request :: sync_request where
  "sample_sync_request =
     \<lparr>sq_site = ''site-1'', sq_schema = ''tenant_a'', sq_username = ''alice'', sq_remote = ''10.0.0.7'', sq_query = ''r-1'', sq_body = None\<rparr>"

lemma sample_ssh_fields [simp]:
  "rr_id sample_ssh_run = ''r-1''" "rr_site sample_ssh_run = ''site-1''" "rr_status sample_ssh_run = ''DRAFT''"
  "rr_plan sample_ssh_run = draft_json sample_ssh_plan" "rr_plan_hash sample_ssh_run = rolloutPlanHash sample_ssh_plan"
  "rr_generation sample_ssh_run = rr_generation sample_run"
  by (simp_all add: sample_ssh_run_def sample_run_def)

lemma sample_ssh_decode:
  "GetRolloutDraft ''tenant_a'' ''site-1'' ''r-1'' (fs_tenant sample_ssh_fleet) = Inr (draft_of_row sample_ssh_run)"
  "decodeRolloutDraft (draft_of_row sample_ssh_run) = Inr sample_ssh_plan"
proof -
  have "isValidSchemaName ''tenant_a''" by code_simp
  then show "GetRolloutDraft ''tenant_a'' ''site-1'' ''r-1'' (fs_tenant sample_ssh_fleet) = Inr (draft_of_row sample_ssh_run)"
    by (simp add: GetRolloutDraft_def andthen_def sample_ssh_fleet_def)
  have "draft_canonical sample_ssh_plan"
    by (simp add: draft_canonical_def sample_ssh_plan_def sample_ssh_device_def canonical_def)
  then show "decodeRolloutDraft (draft_of_row sample_ssh_run) = Inr sample_ssh_plan"
    by (simp add: decodeRolloutDraft_def draft_of_row_def dec_draft_json) (simp add: sample_ssh_plan_def)
qed

lemma sample_ssh_claim:
  "ClaimRolloutDraft ''tenant_a'' 100 ''tok'' ''site-1'' ''r-1'' (fs_tenant sample_ssh_fleet)
     = (Inr (draft_of_row (sample_ssh_run\<lparr>rr_status := ''RUNNING'', rr_claim_token := Some ''tok'', rr_updated_at := 100\<rparr>)),
        sample_cs_db\<lparr>rollouts := [sample_ssh_run\<lparr>rr_status := ''RUNNING'', rr_claim_token := Some ''tok'', rr_updated_at := 100\<rparr>]\<rparr>)"
proof -
  have "isValidSchemaName ''tenant_a''" by code_simp
  moreover have "claim_candidate 100 ''site-1'' ''r-1'' [sample_ssh_run] sample_ssh_run"
    by (simp add: claim_candidate_def newer_draft_def fresh_running_def)
  ultimately show ?thesis
    by (simp add: ClaimRolloutDraft_def claimRolloutDraftTx_def sample_ssh_fleet_def claim_row_def expired_run_def newer_draft_def
        update_rollouts_def)
qed

lemma sample_ssh_checks:
  "rolloutResultsFromDraft sample_ssh_plan =
     [\<lparr>rn_device = ''dev-1'', rn_hostname = ''ap-1'', rn_role = ''ap'', rn_last_ip = [], rn_commands = sample_dropbear\<rparr>]"
  "slice_elems (dp_devices sample_ssh_plan) = [sample_ssh_device]" "dp_namespace sample_ssh_plan = []"
  "\<not> rejectUnsafeNetworkMutations (rolloutResultsFromDraft sample_ssh_plan)"
  "verifyRolloutDraftObservedState (\<lambda>_ _. Some ''x'') [sample_ssh_device] = None"
proof -
  show r: "rolloutResultsFromDraft sample_ssh_plan =
     [\<lparr>rn_device = ''dev-1'', rn_hostname = ''ap-1'', rn_role = ''ap'', rn_last_ip = [], rn_commands = sample_dropbear\<rparr>]"
    by (simp add: rolloutResultsFromDraft_def sample_ssh_plan_def sample_ssh_device_def)
  show "\<not> rejectUnsafeNetworkMutations (rolloutResultsFromDraft sample_ssh_plan)"
    by (simp add: r rejectUnsafeNetworkMutations_def sample_dropbear_def)
  show "verifyRolloutDraftObservedState (\<lambda>_ _. Some ''x'') [sample_ssh_device] = None"
    by (simp add: sample_ssh_device_def entry_def observed_hash_nonempty)
qed (simp_all add: sample_ssh_plan_def)

lemma sample_ssh_marked:
  "\<exists>db'. markRolloutDevicesRunning ''tenant_a'' 100 ''site-1'' ''r-1'' ''tok'' [sample_ssh_device]
     (sample_cs_db\<lparr>rollouts := [sample_ssh_run\<lparr>rr_status := ''RUNNING'', rr_claim_token := Some ''tok'', rr_updated_at := 100\<rparr>]\<rparr>)
     = (Inr (), db')"
proof -
  have "idle_device ''site-1'' sample_cs_row" "device_role sample_cs_row = ''ap''"
    by (simp_all add: idle_device_def device_role_def sample_cs_row_def sample_row_def col_str_def)
  moreover have "dd_id sample_ssh_device = ''dev-1''" "dd_role sample_ssh_device = ''ap''"
    by (simp_all add: sample_ssh_device_def)
  ultimately show ?thesis
    using sample_preview_steps(11) by (simp add: markRolloutDevicesRunning_def assertRolloutClaim_def)
qed

lemma claim_and_run_started:
  assumes "verifyRolloutDraftTargets schema (sq_site req) (slice_elems (dp_devices p)) (fs_tenant s) = None"
    "ClaimRolloutDraft schema (fe_now env AtClaim) (fe_token env) (sq_site req) rolloutID (fs_tenant s) = (Inr rec, db)"
    "fe_audit env ''SITE_ORCHESTRATOR_ROLLOUT_START''"
  shows "\<exists>s1. fs_tenant s1 = db \<and> claim_and_run env req schema rolloutID p s = check_and_run env req schema rolloutID rec p s1"
  using assms by (auto simp: claim_and_run_def Let_def audit_event_None dest!: audit_event_Some intro!: exI split: option.split)

lemma sample_sync:
  "\<exists>resp s'. SyncFleetHandler sample_ssh_env sample_sync_request sample_ssh_fleet = ((resp, [(''dev-1'', ''dropbear'', ''uci commit'')]), s')"
proof -
  let ?rec = "draft_of_row (sample_ssh_run\<lparr>rr_status := ''RUNNING'', rr_claim_token := Some ''tok'', rr_updated_at := 100\<rparr>)"
  have req: "requestedRolloutID sample_ssh_env sample_sync_request = Some ''r-1''"
    by code_simp
  have fields: "sq_site sample_sync_request = ''site-1''" "sq_schema sample_sync_request = ''tenant_a''"
      "fe_now sample_ssh_env = (\<lambda>_. 100)" "fe_token sample_ssh_env = ''tok''" "fe_show sample_ssh_env = (\<lambda>_ _ _. Some ''x'')"
      "fe_backup sample_ssh_env = (\<lambda>_. None)" "\<And>a p s. \<exists>s'. audit_event sample_ssh_env sample_sync_request a p s = Some s' \<and> fs_tenant s' = fs_tenant s"
      "rd_claim_token ?rec = ''tok''"
    by (simp_all add: sample_sync_request_def sample_ssh_env_def audit_event_def auditRolloutEvent_def draft_of_row_def)
  have targets: "verifyRolloutDraftTargets ''tenant_a'' ''site-1'' [sample_ssh_device] (fs_tenant sample_ssh_fleet) = None"
    using sample_preview_steps(11)
    by (simp add: verifyRolloutDraftTargets_def getTenantSchema_def check_target_def sample_ssh_fleet_def sample_ssh_device_def
        device_role_def sample_cs_row_def sample_row_def col_str_def)
  have run: "executeRollout sample_ssh_env (rolloutResultsFromDraft sample_ssh_plan) [sample_ssh_device]
      = (st, rs, log) \<Longrightarrow> log = [(''dev-1'', ''dropbear'', ''uci commit'')]" for st rs log
    using sample_preview_steps(6)
    by (auto simp: sample_ssh_checks(1) execution_reference stop_at_failure_def Let_def device_runs_def run_device_def sample_ssh_device_def entry_def
        sample_ssh_env_def sample_dropbear_def split: if_splits)
  obtain s1 where s1: "fs_tenant s1 = snd (ClaimRolloutDraft ''tenant_a'' 100 ''tok'' ''site-1'' ''r-1'' (fs_tenant sample_ssh_fleet))"
      "claim_and_run sample_ssh_env sample_sync_request ''tenant_a'' ''r-1'' sample_ssh_plan sample_ssh_fleet
         = check_and_run sample_ssh_env sample_sync_request ''tenant_a'' ''r-1'' ?rec sample_ssh_plan s1"
    using claim_and_run_started [of "''tenant_a''" sample_sync_request sample_ssh_plan sample_ssh_fleet sample_ssh_env "''r-1''"]
      targets sample_ssh_claim by (force simp: fields sample_ssh_checks(2) sample_ssh_env_def)
  obtain db' where db': "markRolloutDevicesRunning ''tenant_a'' 100 ''site-1'' ''r-1'' ''tok'' [sample_ssh_device] (fs_tenant s1) = (Inr (), db')"
    using sample_ssh_marked by (auto simp: s1(1) sample_ssh_claim)
  have checked: "check_and_run sample_ssh_env sample_sync_request ''tenant_a'' ''r-1'' ?rec sample_ssh_plan s1
      = run_marked sample_ssh_env sample_sync_request ''r-1'' ?rec sample_ssh_plan (s1\<lparr>fs_tenant := db'\<rparr>)"
    using db' by (simp add: check_and_run_def mark_and_run_def fields sample_ssh_checks del: verifyRolloutDraftObservedState.simps)
  have "SyncFleetHandler sample_ssh_env sample_sync_request sample_ssh_fleet
      = run_marked sample_ssh_env sample_sync_request ''r-1'' ?rec sample_ssh_plan (s1\<lparr>fs_tenant := db'\<rparr>)"
    using sample_ssh_checks(4)
    by (simp add: SyncFleetHandler_def req fields sample_preview_steps(11) sample_ssh_decode sync_draft_def sample_ssh_checks(1,3)
        s1(2) checked)
  moreover obtain resp log s' where
      r: "run_marked sample_ssh_env sample_sync_request ''r-1'' ?rec sample_ssh_plan (s1\<lparr>fs_tenant := db'\<rparr>) = ((resp, log), s')"
    by (metis surj_pair)
  moreover have "log = [(''dev-1'', ''dropbear'', ''uci commit'')]"
    using run_marked_log [OF r] run by (metis sample_ssh_checks(2) prod.collapse)
  ultimately show ?thesis by auto
qed

theorem sync_sessions_grounded_witness:
  "\<exists>resp s' (p :: draft_plan) dd. SyncFleetHandler sample_ssh_env sample_sync_request sample_ssh_fleet
       = ((resp, [(''dev-1'', ''dropbear'', ''uci commit'')]), s')
     \<and> dd \<in> set (slice_elems (dp_devices p)) \<and> ''uci commit'' = entry (slice_elems (dd_scripts dd)) ''dropbear''"
proof -
  obtain resp s' where r: "SyncFleetHandler sample_ssh_env sample_sync_request sample_ssh_fleet
      = ((resp, [(''dev-1'', ''dropbear'', ''uci commit'')]), s')"
    using sample_sync by blast
  have listed: "(''dev-1'', ''dropbear'', ''uci commit'') \<in> set [(''dev-1'', ''dropbear'', ''uci commit'')]" by simp
  obtain p :: draft_plan and dd where "dd \<in> set (slice_elems (dp_devices p))" "''uci commit'' = entry (slice_elems (dd_scripts dd)) ''dropbear''"
    using sync_sessions_grounded [OF r listed] by (elim conjE exE) (erule that, assumption)
  with r show ?thesis by blast
qed

theorem sync_settles_witness:
  "\<exists>audited st g ok bad results s'. SyncFleetHandler sample_ssh_env sample_sync_request sample_ssh_fleet
     = ((FleetExecuted audited st g ok bad results, [(''dev-1'', ''dropbear'', ''uci commit'')]), s') \<and> ok + bad = length results"
proof -
  obtain resp s' where r: "SyncFleetHandler sample_ssh_env sample_sync_request sample_ssh_fleet
      = ((resp, [(''dev-1'', ''dropbear'', ''uci commit'')]), s')"
    using sample_sync by blast
  obtain audited st g ok bad results where "resp = FleetExecuted audited st g ok bad results" "ok + bad = length results"
    using sync_settles [OF r] by blast
  with r show ?thesis by blast
qed

theorem marked_devices_fenced_witness:
  "\<exists>db'. markRolloutDevicesRunning ''tenant_a'' 100 ''site-1'' ''r-1'' ''tok'' [sample_ssh_device]
       (sample_cs_db\<lparr>rollouts := [sample_ssh_run\<lparr>rr_status := ''RUNNING'', rr_claim_token := Some ''tok'', rr_updated_at := 100\<rparr>]\<rparr>)
       = (Inr (), db')
     \<and> snd (QueueDeviceOperation ''tenant_a'' 101 ''dev-1'' (Some sample_plan) db') = db'"
proof -
  obtain db' where m: "markRolloutDevicesRunning ''tenant_a'' 100 ''site-1'' ''r-1'' ''tok'' [sample_ssh_device]
       (sample_cs_db\<lparr>rollouts := [sample_ssh_run\<lparr>rr_status := ''RUNNING'', rr_claim_token := Some ''tok'', rr_updated_at := 100\<rparr>]\<rparr>)
       = (Inr (), db')"
    using sample_ssh_marked by blast
  have "dd_id sample_ssh_device = ''dev-1''" by (simp add: sample_ssh_device_def)
  with marked_devices_fenced [OF m, of sample_ssh_device] m show ?thesis by simp
qed

theorem execution_stops_at_failure_witness:
  "executeRollout sample_ssh_env (rolloutResultsFromDraft sample_ssh_plan) [sample_ssh_device]
     = stop_at_failure (rolloutResultsFromDraft sample_ssh_plan)
         (device_runs sample_ssh_env (rolloutResultsFromDraft sample_ssh_plan) [sample_ssh_device])"
  by (rule execution_stops_at_failure) (simp add: sample_ssh_checks(1))

end
