(* ===== verification/Fleet_Retry.thy ===== *)
theory Fleet_Retry
  imports Fleet_Sync
begin

text \<open>
  Repeating the synchronisation of a queued draft, \<open>queueFleetDeviceChangeSets\<close> and
  \<open>existingChangeSetResult\<close> in \<open>src/internal/api/handlers/site_orchestrator.go\<close>: what is stored for a
  run of several devices, and what a second request for it finds.
\<close>

section \<open>Stored results read back\<close>

definition result_keys :: "string list" where
  "result_keys =
     [''device_id'', ''hostname'', ''role'', ''status'', ''change_set_state'', ''output'', ''error'', ''cmd_count'',
      ''change_set_id'', ''plan_hash'', ''device_generation'']"

lemma result_keys_inj: "inj_on go_fold (set result_keys)"
proof -
  have "distinct (map go_fold result_keys)" by code_simp
  then show ?thesis by (simp add: distinct_map)
qed

lemma result_keys_mem [simp]:
  "''device_id'' \<in> set result_keys" "''hostname'' \<in> set result_keys" "''role'' \<in> set result_keys" "''status'' \<in> set result_keys"
  "''change_set_state'' \<in> set result_keys" "''output'' \<in> set result_keys" "''error'' \<in> set result_keys"
  "''cmd_count'' \<in> set result_keys" "''change_set_id'' \<in> set result_keys" "''plan_hash'' \<in> set result_keys"
  "''device_generation'' \<in> set result_keys"
  by (simp_all add: result_keys_def)

lemmas result_entries = go_entries_key [OF result_keys_inj]

lemma entries_omit:
  assumes "k \<in> set result_keys" "name \<in> set result_keys"
  shows "go_entries name (omit_empty k s) = (if k = name \<and> s \<noteq> [] then [JStr s] else [])"
  using assms by (simp add: omit_empty_def result_entries)

lemma entries_generation:
  assumes "name \<in> set result_keys"
  shows "go_entries name (if g = 0 then [] else [(''device_generation'', JNum g)])
    = (if name = ''device_generation'' \<and> g \<noteq> 0 then [JNum g] else [])"
  using assms by (simp add: result_entries)

lemma result_entry_simps:
  "go_entries ''device_id'' (case fleet_result_json r of JObj kvs \<Rightarrow> kvs | _ \<Rightarrow> []) = [JStr (fr_device r)]"
  "go_entries ''device_generation'' (case fleet_result_json r of JObj kvs \<Rightarrow> kvs | _ \<Rightarrow> [])
     = (if fr_generation r = 0 then [] else [JNum (fr_generation r)])"
  by (simp_all add: fleet_result_json_def result_entries entries_omit entries_generation go_entries_append go_entries_Nil)

lemma dec_fleet_result_parts:
  assumes "dec_fleet_result (JObj kvs) = Some x"
  shows "go_str ''device_id'' kvs = Some (fr_device x)" "go_int ''device_generation'' kvs = Some (fr_generation x)"
  using assms by (auto simp: dec_fleet_result_def go_obj_def split: option.splits)

lemma dec_result_json:
  assumes "dec_fleet_result (fleet_result_json r) = Some x"
  shows "fr_device x = fr_device r" "fr_generation x = fr_generation r"
proof -
  obtain kvs where kvs: "fleet_result_json r = JObj kvs" by (simp add: fleet_result_json_def)
  note p = dec_fleet_result_parts [OF assms [unfolded kvs]]
  show "fr_device x = fr_device r" "fr_generation x = fr_generation r"
    using p result_entry_simps [of r] by (auto simp: kvs go_str_def go_int_def split: if_splits)
qed

lemma dec_result_generation:
  assumes "dec_fleet_result (jset ''device_generation'' (JNum g) (fleet_result_json r)) = Some x"
  shows "fr_device x = fr_device r"
proof -
  obtain kvs where kvs: "fleet_result_json r = JObj kvs" by (simp add: fleet_result_json_def)
  have "go_entries ''device_id'' (filter (\<lambda>(x, _). x \<noteq> ''device_generation'') kvs) = go_entries ''device_id'' kvs"
  proof -
    have "go_fold ''device_id'' \<noteq> go_fold ''device_generation''" by code_simp
    then show ?thesis
      by (auto simp: go_entries_def intro!: arg_cong [of _ _ "map snd"] filter_cong)
  qed
  with dec_fleet_result_parts(1) [of "filter (\<lambda>(x, _). x \<noteq> ''device_generation'') kvs @ [(''device_generation'', JNum g)]" x]
    assms result_entry_simps(1) [of r]
  show ?thesis by (simp add: kvs jset_def go_str_def result_entries go_entries_append)
qed

lemma all_some_elem: "all_some xs = Some ys \<Longrightarrow> y \<in> set ys \<Longrightarrow> Some y \<in> set xs"
  by (induction xs arbitrary: ys rule: all_some.induct) auto

lemma stored_element:
  assumes "top_slice dec_fleet_result (JArr out) = Some results" "x \<in> set (slice_elems results)"
  shows "\<exists>j \<in> set out. dec_fleet_result j = Some x"
proof (cases "all_some (map dec_fleet_result out)")
  case (Some ys)
  with assms have "x \<in> set ys" by (auto simp: top_slice_def)
  from all_some_elem [OF Some this] show ?thesis by auto
qed (use assms in \<open>simp add: top_slice_def\<close>)

section \<open>Device ids\<close>

lemma valid_id_ascii: "validDeviceChangeSetDeviceID i \<Longrightarrow> list_all is_ascii i"
proof -
  have "is_ascii (CHR '':'')" "is_ascii (CHR ''.'')" "is_ascii (CHR ''_'')" "is_ascii (CHR ''-'')"
    by (simp_all add: is_ascii_def)
  then show "validDeviceChangeSetDeviceID i \<Longrightarrow> list_all is_ascii i"
    by (auto simp: validDeviceChangeSetDeviceID_def list_all_iff device_id_char_def dest: alnum_ascii)
qed

lemma equal_fold_valid:
  "validDeviceChangeSetDeviceID a \<Longrightarrow> validDeviceChangeSetDeviceID b \<Longrightarrow> equal_fold a b \<longleftrightarrow> to_lower a = to_lower b"
  by (simp add: equal_fold_def go_fold_ascii valid_id_ascii)

lemma built_device:
  assumes "buildDeviceChangeSet i p d = Inr cs"
  shows "cs_device_id cs = dd_id d" "validDeviceChangeSetDeviceID (dd_id d)"
    "parseDeviceChangeSet (Some (change_set_json cs)) False = Inr ident \<Longrightarrow> ci_device ident = dd_id d"
proof -
  obtain ops where "NewDeviceChangeSetForRolloutOperations i (dd_id d) ops (slice_elems (dp_health_checks p)) ConfirmationLocalAuto = Inr cs"
    using assms by (auto simp: buildDeviceChangeSet_def Let_def andthen_Inr_iff relabel_Inr split: option.splits if_splits)
  note new = rollout_change_set_Inr [OF this]
  then show "cs_device_id cs = dd_id d" "validDeviceChangeSetDeviceID (dd_id d)"
    by (auto simp: ValidateDeviceChangeSet_ok)
  show "ci_device ident = dd_id d" if "parseDeviceChangeSet (Some (change_set_json cs)) False = Inr ident"
    using that parse_validated [OF new(1,2)] new(3,4)
    by (auto simp: in_int64_def max_int64_def min_int64_def split: if_splits)
qed

lemma fleet_change_sets_built:
  "fleet_change_sets i p seen dds = Inr css \<Longrightarrow>
     list_all2 (\<lambda>d cs. buildDeviceChangeSet i p d = Inr cs) dds css
     \<and> distinct (map (\<lambda>d. to_lower (dd_id d)) dds) \<and> set (map (\<lambda>d. to_lower (dd_id d)) dds) \<inter> seen = {}"
  by (induction dds arbitrary: seen css) (fastforce simp: andthen_Inr_iff split: if_splits)+

lemma built_ids_distinct:
  assumes "fleet_change_sets i p {} dds = Inr css" "j < length css" "k < length css" "j \<noteq> k"
  shows "\<not> equal_fold (cs_device_id (css ! k)) (cs_device_id (css ! j))"
proof -
  note b = fleet_change_sets_built [OF assms(1)]
  have len: "length dds = length css" using b by (auto dest: list_all2_lengthD)
  have "buildDeviceChangeSet i p (dds ! j) = Inr (css ! j)" "buildDeviceChangeSet i p (dds ! k) = Inr (css ! k)"
    using b assms(2,3) len by (auto simp: list_all2_conv_all_nth)
  note j = built_device(1,2) [OF this(1)] and k = built_device(1,2) [OF this(2)]
  have "to_lower (dd_id (dds ! k)) \<noteq> to_lower (dd_id (dds ! j))"
    using b assms(2-4) len by (auto simp: distinct_conv_nth)
  with j k show ?thesis by (simp add: equal_fold_valid)
qed

section \<open>What a second request finds\<close>

lemma stored_results_outcome:
  assumes "addDeviceGenerations (Some (JArr js)) gens = Inr results"
  obtains out where "results = JArr out" "list_all2 (\<lambda>r r'. \<exists>i. jfield ''device_id'' r = Some (JStr i) \<and>
      (case map_of gens i of
         None \<Rightarrow> r' = r \<and> jfield ''status'' r = Some (JStr ''WAITING'')
       | Some g \<Rightarrow> r' = jset ''device_generation'' (JNum g) r)) js out"
proof -
  from assms obtain seen out where loop: "add_generations_loop gens {} js = Inr (seen, out)" and "results = JArr out"
    by (auto simp: addDeviceGenerations_def dec_results_def andthen_Inr_iff split_def split: if_splits)
  with that add_generations_loop_ok [OF loop] show thesis by blast
qed

lemma waiting_not_found:
  assumes css: "fleet_change_sets rolloutID p {} (slice_elems (dp_devices p)) = Inr css"
    and k: "k < length css" "j < length css" "j \<noteq> k"
    and stored: "addDeviceGenerations (Some (JArr (map fleet_result_json (fleet_waiting [k] (slice_elems (dp_devices p)) css)))) gens
      = Inr (rd_results rec)"
    and gens: "set (map fst gens) = {cs_device_id (css ! k)}"
  shows "existingChangeSetResult rec (css ! j) [] = None"
proof -
  let ?rs = "fleet_waiting [k] (slice_elems (dp_devices p)) css"
  obtain out where out: "rd_results rec = JArr out" "list_all2 (\<lambda>r r'. \<exists>i. jfield ''device_id'' r = Some (JStr i) \<and>
      (case map_of gens i of
         None \<Rightarrow> r' = r \<and> jfield ''status'' r = Some (JStr ''WAITING'')
       | Some g \<Rightarrow> r' = jset ''device_generation'' (JNum g) r)) (map fleet_result_json ?rs) out"
    using stored_results_outcome [OF stored] by blast
  have absent: "\<not> (equal_fold (fr_device x) (cs_device_id (css ! j)) \<and> fr_generation x > 0)"
    if found: "top_slice dec_fleet_result (JArr out) = Some results" "x \<in> set (slice_elems results)" for x results
  proof -
    obtain e where "e \<in> set out" "dec_fleet_result e = Some x" using stored_element [OF found] by blast
    then obtain n where n: "n < length out" "dec_fleet_result (out ! n) = Some x" by (metis in_set_conv_nth)
    let ?r = "?rs ! n"
    have len: "n < length ?rs" using n(1) list_all2_lengthD [OF out(2)] by simp
    obtain i where i: "jfield ''device_id'' (fleet_result_json ?r) = Some (JStr i)"
        "case map_of gens i of None \<Rightarrow> out ! n = fleet_result_json ?r | Some g \<Rightarrow> out ! n = jset ''device_generation'' (JNum g) (fleet_result_json ?r)"
      using out(2) n(1) len by (auto simp: list_all2_conv_all_nth split: option.splits)
    have "i = fr_device ?r"
      using i(1) by (simp add: fleet_result_json_def jfield_def omit_empty_def split: if_splits)
    show ?thesis
    proof (cases "map_of gens i")
      case None
      then have "fr_generation x = fr_generation ?r" using i(2) n(2) dec_result_json(2) [of ?r x] by simp
      also have "\<dots> = 0" using len by (simp add: fleet_waiting_def queued_result_def empty_result_def split_def nth_enumerate_eq)
      finally show ?thesis by simp
    next
      case (Some g)
      then have "fr_device x = i" using i(2) n(2) dec_result_generation [of g ?r x] \<open>i = fr_device ?r\<close> by simp
      moreover have "i = cs_device_id (css ! k)"
        using Some gens by (metis domI dom_map_of_conv_image_fst set_map singletonD)
      ultimately show ?thesis using built_ids_distinct [OF css k(2,1,3)] by simp
    qed
  qed
  then show ?thesis
    by (auto simp: existingChangeSetResult_def out(1) find_None_iff split: option.split)
qed

lemma filter_enumerate:
  "k < length xs \<Longrightarrow> filter (\<lambda>(i, _). i = n + k) (enumerate n xs) = [(n + k, xs ! k)]"
proof (induction xs arbitrary: n k)
  case (Cons x xs)
  have none: "filter (\<lambda>(i, _). i = n) (enumerate m ys) = []" if "n < m" for m and ys :: "'a list"
    using that by (auto simp: filter_empty_conv in_set_enumerate_eq)
  show ?case
  proof (cases k)
    case 0
    then show ?thesis by (simp add: none)
  next
    case (Suc k')
    with Cons.IH [of k' "Suc n"] Cons.prems show ?thesis by simp
  qed
qed simp

lemma fleet_items_single:
  "k < length css \<Longrightarrow> fleet_items [k] dds css = [(dd_role (dds ! k), Some (change_set_json (css ! k)))]"
  using filter_enumerate [of k css 0] by (simp add: fleet_items_def)

lemma first_phase:
  assumes "rrs \<noteq> []"
  obtains k where "hd (sequentialFleetRolloutPhases rrs) = [k]" "k < length rrs"
proof -
  let ?ix = "concat (sequentialFleetRolloutPhases rrs)"
  obtain ix where ix: "sequentialFleetRolloutPhases rrs = map (\<lambda>i. [i]) ix" "set ix = {0 ..< length rrs}"
    by (auto simp: sequentialFleetRolloutPhases_def)
  then have "ix \<noteq> []" using assms by auto
  with ix have "hd (sequentialFleetRolloutPhases rrs) = [hd ix]" "hd ix < length rrs"
    by (auto simp: hd_map dest: hd_in_set)
  with that show thesis by blast
qed

lemma existing_results_missing:
  "cs \<in> set css \<Longrightarrow> existingChangeSetResult rec cs required = None \<Longrightarrow> \<exists>i. existing_results rec required css = Inl (QueueDifferent i)"
  by (induction css) (auto simp: andthen_def split: option.split sum.split)

lemma claim_queue_then_get:
  assumes "ClaimAndQueueDeviceChangeSets schema now token site i items qr u ip db = (Inr gens, db')" "runs_wf db"
  obtains rec where "GetRolloutDraft schema site i db' = Inr rec" "rd_status rec = ''QUEUED''"
    "addDeviceGenerations qr gens = Inr (rd_results rec)"
    "\<exists>idents. map (\<lambda>(_, cs). parseDeviceChangeSet cs False) items = map Inr idents \<and> set (map fst gens) = set (map ci_device idents)"
proof -
  obtain rec db1 idents db2 results db3 where
    schema: "isValidSchemaName schema"
    and claim: "claimRolloutDraftTx now token site i db = (Inr rec, db1)"
    and queue: "queue_items schema now site i items [] [] db1 = (Inr (gens, idents), db2)"
    and results: "addDeviceGenerations qr gens = Inr results"
    and upd: "update_run (\<lambda>r. rr_id r = i \<and> rr_site r = site \<and> rr_status r = ''RUNNING''
              \<and> rr_claim_token r = Some (rd_claim_token rec))
           (\<lambda>r. r\<lparr>rr_status := ''QUEUED'', rr_results := results, rr_claim_token := None, rr_updated_at := now\<rparr>)
           DbDraftNotAvailable db2 = (Inr (), db3)"
    and db': "db' = audit_queued u ip site i rec gens idents db3"
    using assms(1) ClaimAndQueue_outcome [of schema now token site i items qr u ip db] by auto
  let ?P = "\<lambda>r. rr_id r = i \<and> rr_site r = site \<and> rr_status r = ''RUNNING'' \<and> rr_claim_token r = Some (rd_claim_token rec)"
  let ?f = "\<lambda>r. r\<lparr>rr_status := ''QUEUED'', rr_results := results, rr_claim_token := None, rr_updated_at := now\<rparr>"
  note up = queued_run_update [OF upd]
  have runs2: "rollouts db2 = rollouts db1"
    using queue_items_contract [of db1 schema now site i items "[]" "[]"] queue by simp
  have runs': "rollouts db' = map (\<lambda>r. if ?P r then ?f r else r) (rollouts db1)" using up(1) by (simp add: db' runs2)
  from up(2) obtain c where c: "c \<in> set (rollouts db1)" "?P c" by (auto simp: runs2 list_ex_iff)
  have mem: "?f c \<in> set (rollouts db')" unfolding runs' set_map using c by (intro image_eqI [of _ _ c]) simp_all
  have unique: "r = ?f c" if r: "r \<in> set (rollouts db')" "rr_id r = i" for r
  proof -
    obtain q where q: "q \<in> set (rollouts db1)" "r = (if ?P q then ?f q else q)" using r(1) unfolding runs' set_map by blast
    then have "rr_id q = rr_id c" using r(2) c(2) by (simp split: if_splits)
    then have "q = c" by (rule claimed_ids [OF claim assms(2) q(1) c(1)])
    with q(2) c(2) show ?thesis by simp
  qed
  have "find (\<lambda>r. rr_id r = i \<and> rr_site r = site) (rollouts db') = Some (?f c)"
  proof (cases "find (\<lambda>r. rr_id r = i \<and> rr_site r = site) (rollouts db')")
    case None
    with mem have "\<not> (rr_id (?f c) = i \<and> rr_site (?f c) = site)" unfolding find_None_iff by blast
    with c(2) show ?thesis by simp
  next
    case (Some r)
    then have "r \<in> set (rollouts db')" "rr_id r = i" by (auto simp: find_Some_iff)
    with unique Some show ?thesis by simp
  qed
  then have "GetRolloutDraft schema site i db' = Inr (draft_of_row (?f c))"
    using schema by (simp add: GetRolloutDraft_def andthen_def)
  moreover have "\<exists>idents. map (\<lambda>(_, cs). parseDeviceChangeSet cs False) items = map Inr idents \<and> set (map fst gens) = set (map ci_device idents)"
    using queue_items_keys [OF queue] by auto
  ultimately show thesis
    using results by (intro that [of "draft_of_row (?f c)"]) (simp_all add: draft_of_row_def)
qed

text \<open>
  A queued run of several devices cannot be synchronised a second time: the request that queued it
  has stored a result without generation for every device of a later phase, a repeated request accepts
  only results with one, and so it is answered with a conflict about a different changeset, although the
  run, its plan and its changesets are the same. With one device the repeated request succeeds.
\<close>

theorem fleet_retry_refused:
  assumes "queueFleetDeviceChangeSets env req schema rolloutID rec p s = (Inr q, s')"
    "rd_status rec \<notin> {''QUEUED'', ''completed'', ''failed''}" "1 < length (slice_elems (dp_devices p))" "runs_wf (fs_tenant s)"
  shows "\<exists>rec' i. GetRolloutDraft schema (sq_site req) rolloutID (fs_tenant s') = Inr rec' \<and> rd_status rec' = ''QUEUED''
     \<and> queueFleetDeviceChangeSets env' req' schema' rolloutID rec' p s1 = (Inl (QueueDifferent i), s1)"
proof -
  let ?dds = "slice_elems (dp_devices p)" and ?rrs = "rolloutResultsFromDraft p"
  obtain css where css: "buildFleetDeviceChangeSets rolloutID p = Inr css"
    using assms(1) by (cases "buildFleetDeviceChangeSets rolloutID p") (simp_all add: queueFleetDeviceChangeSets_def)
  then have built: "fleet_change_sets rolloutID p {} ?dds = Inr css"
    by (auto simp: buildFleetDeviceChangeSets_def split: if_splits)
  have len: "length css = length ?dds" using fleet_change_sets_built [OF built] by (auto dest: list_all2_lengthD)
  have "?rrs \<noteq> []" using assms(3) by (auto simp: rolloutResultsFromDraft_def)
  then obtain k where k: "hd (sequentialFleetRolloutPhases ?rrs) = [k]" "k < length ?rrs" by (rule first_phase)
  then have kl: "k < length css" by (simp add: results_nth(2) len)
  obtain gens db where cq: "ClaimAndQueueDeviceChangeSets schema (fe_now env AtQueue) (fe_token env) (sq_site req) rolloutID
        [(dd_role (?dds ! k), Some (change_set_json (css ! k)))]
        (Some (JArr (map fleet_result_json (fleet_waiting [k] ?dds css)))) (sq_username req) (sq_remote req) (fs_tenant s) = (Inr gens, db)"
      "fs_tenant s' = db"
    using assms(1,2) fleet_items_single [OF kl]
    by (auto simp: queueFleetDeviceChangeSets_def css Let_def k(1) split: prod.splits sum.splits if_splits)
  obtain rec' where rec': "GetRolloutDraft schema (sq_site req) rolloutID db = Inr rec'" "rd_status rec' = ''QUEUED''"
      "addDeviceGenerations (Some (JArr (map fleet_result_json (fleet_waiting [k] ?dds css)))) gens = Inr (rd_results rec')"
      "\<exists>idents. map (\<lambda>(_, cs). parseDeviceChangeSet cs False) [(dd_role (?dds ! k), Some (change_set_json (css ! k)))] = map Inr idents
         \<and> set (map fst gens) = set (map ci_device idents)"
    using claim_queue_then_get [OF cq(1) assms(4)] by blast
  have "buildDeviceChangeSet rolloutID p (?dds ! k) = Inr (css ! k)"
    using fleet_change_sets_built [OF built] kl len by (auto simp: list_all2_conv_all_nth)
  note dev = built_device [OF this]
  from rec'(4) obtain ident where "parseDeviceChangeSet (Some (change_set_json (css ! k))) False = Inr ident"
      "set (map fst gens) = {ci_device ident}" by auto
  with dev(1,3) have gens: "set (map fst gens) = {cs_device_id (css ! k)}" by metis
  define j where "j = (if k = 0 then 1 else 0 :: nat)"
  have j: "j < length css" "j \<noteq> k" using assms(3) len by (auto simp: j_def)
  have "existingChangeSetResult rec' (css ! j) [] = None"
    by (rule waiting_not_found [OF built kl j(1) j(2) rec'(3) gens])
  then obtain i where "existing_results rec' [] css = Inl (QueueDifferent i)"
    using existing_results_missing [OF nth_mem [OF j(1)]] by blast
  then have "queueFleetDeviceChangeSets env' req' schema' rolloutID rec' p s1 = (Inl (QueueDifferent i), s1)"
    by (simp add: queueFleetDeviceChangeSets_def css Let_def rec'(2))
  with rec'(1,2) cq(2) show ?thesis by blast
qed

definition sample_two_devices :: "draft_device list" where
  "sample_two_devices = [sample_built_device, sample_built_device\<lparr>dd_id := ''dev-2''\<rparr>]"

definition sample_two_plan :: draft_plan where
  "sample_two_plan = sample_built_plan\<lparr>dp_devices := Some (map (\<lambda>d. d\<lparr>dd_role := ''ap''\<rparr>) sample_two_devices)\<rparr>"

definition sample_two_fleet :: fleet_state where
  "sample_two_fleet = \<lparr>fs_sites = Map.empty, fs_tenant = sample_draft_db, fs_audit = []\<rparr>"

definition sample_draft_record :: rollout_draft where
  "sample_draft_record = draft_of_row (sample_run\<lparr>rr_status := ''DRAFT''\<rparr>)"

abbreviation sample_draft_op :: change_operation where
  "sample_draft_op \<equiv>
     \<lparr>co_operation_id = [], co_config = ''dropbear'', co_commands = sample_dropbear, co_observed_hash = replicate 64 CHR ''0''\<rparr>"

lemma sample_two_build:
  assumes "validDeviceChangeSetDeviceID (dd_id d)" "dd_commands d = Some sample_dropbear"
    "dd_observed d = Some [(''dropbear'', replicate 64 CHR ''0'')]"
  obtains cs where "buildDeviceChangeSet ''r-1'' sample_two_plan d = Inr cs"
    "NewDeviceChangeSetForRolloutOperations ''r-1'' (dd_id d) [sample_draft_op] [] ''local_auto'' = Inr cs"
proof -
  obtain cs where cs: "NewDeviceChangeSetForRolloutOperations ''r-1'' (dd_id d) [sample_draft_op] [] ''local_auto'' = Inr cs"
    using single_rollout_change_set [of sample_draft_op "dd_id d" "''r-1''"] sample_operation_checks assms(1) by auto
  have "draft_operations i [(''dropbear'', replicate 64 CHR ''0'')] sample_dropbear safe_namespaces = Inr [sample_draft_op]" for i
    by code_simp
  moreover have "find (\<lambda>c. uc_config c \<notin> set [''dropbear'']) sample_dropbear = None" "sample_dropbear \<noteq> []"
    by (simp_all add: sample_dropbear_def)
  ultimately have "buildDeviceChangeSet ''r-1'' sample_two_plan d = Inr cs"
    using sample_preview_steps(2) cs assms(2,3)
    by (simp add: buildDeviceChangeSet_def sample_two_plan_def sample_built_plan_def andthen_def ConfirmationLocalAuto_def)
  with cs that show thesis by blast
qed

lemma result_json_fields:
  "jfield ''device_id'' (fleet_result_json r) = Some (JStr (fr_device r))"
  "jfield ''status'' (fleet_result_json r) = Some (JStr (fr_status r))"
  by (simp_all add: fleet_result_json_def jfield_def omit_empty_def)

lemma sample_two_queued: "\<exists>q s'. queueFleetDeviceChangeSets sample_ssh_env sample_sync_request ''tenant_a'' ''r-1'' sample_draft_record sample_two_plan
    sample_two_fleet = (Inr q, s')"
proof -
  define d1 d2 where d: "d1 = sample_built_device\<lparr>dd_role := ''ap''\<rparr>" "d2 = sample_built_device\<lparr>dd_id := ''dev-2'', dd_role := ''ap''\<rparr>"
  have dds: "slice_elems (dp_devices sample_two_plan) = [d1, d2]"
    by (simp add: sample_two_plan_def sample_two_devices_def d)
  have ids: "dd_id d1 = ''dev-1''" "dd_id d2 = ''dev-2''" "dd_role d1 = ''ap''" "dd_commands d1 = Some sample_dropbear"
      "dd_commands d2 = Some sample_dropbear" "dd_observed d1 = Some [(''dropbear'', replicate 64 CHR ''0'')]"
      "dd_observed d2 = Some [(''dropbear'', replicate 64 CHR ''0'')]"
    by (simp_all add: d sample_built_device_def sample_draft_device_def)
  have valid: "validDeviceChangeSetDeviceID ''dev-1''" "validDeviceChangeSetDeviceID ''dev-2''" by code_simp+
  obtain c1 where c1: "buildDeviceChangeSet ''r-1'' sample_two_plan d1 = Inr c1"
      "NewDeviceChangeSetForRolloutOperations ''r-1'' ''dev-1'' [sample_draft_op] [] ''local_auto'' = Inr c1"
    using sample_two_build [of d1] ids valid by metis
  obtain c2 where c2: "buildDeviceChangeSet ''r-1'' sample_two_plan d2 = Inr c2"
    using sample_two_build [of d2] ids valid by metis
  note dev = built_device(1) [OF c1(1)] built_device(1) [OF c2]
  have lower: "to_lower ''dev-1'' \<noteq> to_lower ''dev-2''" by code_simp
  then have css: "buildFleetDeviceChangeSets ''r-1'' sample_two_plan = Inr [c1, c2]"
    using c1 c2 by (simp add: buildFleetDeviceChangeSets_def dds ids andthen_def)
  have "rn_role (rolloutResultsFromDraft sample_two_plan ! i) = ''ap''" "rn_device (rolloutResultsFromDraft sample_two_plan ! i) = (if i = 0 then ''dev-1'' else ''dev-2'')"
    if "i < 2" for i
    using that by (auto simp: rolloutResultsFromDraft_def dds ids d less_2_cases_iff sample_built_device_def sample_draft_device_def)
  then have phase: "hd (sequentialFleetRolloutPhases (rolloutResultsFromDraft sample_two_plan)) = [0]"
    by (simp add: sequentialFleetRolloutPhases_def results_nth(2) dds upt_rec [of _ 2])
  have "list_all db_action sample_dropbear" by code_simp
  moreover have "\<exists>res. addDeviceGenerations (Some (JArr (map fleet_result_json (fleet_waiting [0] [d1, d2] [c1, c2])))) [(''dev-1'', 5)] = Inr res"
  proof -
    let ?w = "fleet_waiting [0] [d1, d2] [c1, c2]"
    obtain r1 r2 where w: "?w = [r1, r2]" "fr_device r1 = ''dev-1''" "fr_device r2 = ''dev-2''" "fr_status r2 = ''WAITING''"
      using dev ids by (simp add: fleet_waiting_def queued_result_def empty_result_def)
    have obj: "case fleet_result_json r of JObj _ \<Rightarrow> True | JNull \<Rightarrow> True | _ \<Rightarrow> False" for r by (simp add: fleet_result_json_def)
    show ?thesis
      using obj w(2-4) by (simp add: w(1) addDeviceGenerations_def dec_results_def andthen_def result_json_fields)
  qed
  ultimately obtain db where "ClaimAndQueueDeviceChangeSets ''tenant_a'' 100 ''tok'' ''site-1'' ''r-1'' [(''ap'', Some (change_set_json c1))]
      (Some (JArr (map fleet_result_json (fleet_waiting [0] [d1, d2] [c1, c2])))) ''alice'' ''10.0.0.7'' sample_draft_db = (Inr [(''dev-1'', 5)], db)"
    using sample_claim_queue_results [OF c1(2)] by fastforce
  then show ?thesis
    using fleet_items_single [of 0 "[c1, c2]" "[d1, d2]"]
    by (simp add: queueFleetDeviceChangeSets_def css Let_def phase dds ids sample_ssh_env_def sample_sync_request_def
        sample_two_fleet_def sample_draft_record_def draft_of_row_def)
qed

theorem fleet_retry_refused_witness:
  "\<exists>q s' rec' i. queueFleetDeviceChangeSets sample_ssh_env sample_sync_request ''tenant_a'' ''r-1'' sample_draft_record sample_two_plan
       sample_two_fleet = (Inr q, s')
     \<and> rd_status rec' = ''QUEUED''
     \<and> queueFleetDeviceChangeSets sample_ssh_env sample_sync_request ''tenant_a'' ''r-1'' rec' sample_two_plan s' = (Inl (QueueDifferent i), s')"
proof -
  obtain q s' where q: "queueFleetDeviceChangeSets sample_ssh_env sample_sync_request ''tenant_a'' ''r-1'' sample_draft_record
      sample_two_plan sample_two_fleet = (Inr q, s')"
    using sample_two_queued by blast
  have "rd_status sample_draft_record \<notin> {''QUEUED'', ''completed'', ''failed''}" "1 < length (slice_elems (dp_devices sample_two_plan))"
    "runs_wf (fs_tenant sample_two_fleet)"
    using sample_draft_wf by (simp_all add: sample_draft_record_def draft_of_row_def sample_two_plan_def sample_two_devices_def sample_two_fleet_def)
  from fleet_retry_refused [OF q this, of sample_ssh_env sample_sync_request "''tenant_a''" s'] q show ?thesis by blast
qed

end
