(* ===== verification/Landlord.thy ===== *)
theory Landlord
  imports Tenant_Db "HOL-Library.While_Combinator"
begin

text \<open>
  The tables of the public schema and the code that owns them: the registry of tenants
  (\<open>src/internal/services/tenant_manager.go\<close>, \<open>src/internal/api/handlers/tenant_handlers.go\<close>),
  the users with their roles (\<open>src/internal/api/handlers/users.go\<close>), the bootstrap account of
  \<open>src/internal/database/postgres.go\<close> and the login (\<open>src/internal/api/handlers/auth.go\<close>).

  The tables are lists of rows in the order of insertion. A request is one transaction, so each
  handler is one step. What the handlers take from outside are arguments: \<open>bcrypt\<close>, the signature of
  JSON web tokens, the text forms PostgreSQL reads as a \<open>uuid\<close>, generated ids and the clock.
\<close>

section \<open>Rows and text columns\<close>

record tenant_row =
  tn_id :: string
  tn_name :: string
  tn_alias :: string
  tn_active :: bool
  tn_created :: int
  tn_updated :: int

record user_row =
  us_id :: string
  us_name :: string
  us_hash :: string
  us_role :: "string option"
  us_tenant :: "string option"
  us_created :: int

record landlord_db =
  ld_tenants :: "tenant_row list"
  ld_users :: "user_row list"

text \<open>A byte that starts a rune of UTF-8.\<close>

definition rune_start :: "char \<Rightarrow> bool" where
  "rune_start c \<longleftrightarrow> \<not> (128 \<le> (of_char c :: nat) \<and> (of_char c :: nat) < 192)"

fun split_runes :: "nat \<Rightarrow> string \<Rightarrow> string \<times> string" where
  "split_runes n [] = ([], [])"
| "split_runes n (c # cs) =
     (if rune_start c
      then (case n of 0 \<Rightarrow> ([], c # cs)
            | Suc m \<Rightarrow> (let (a, b) = split_runes m cs in (c # a, b)))
      else (let (a, b) = split_runes n cs in (c # a, b)))"

text \<open>
  What a column of type \<open>VARCHAR (n)\<close> stores of a text: NUL bytes are refused, and so is an excess
  over \<open>n\<close> characters that is not blank.
\<close>

definition varchar :: "nat \<Rightarrow> string \<Rightarrow> string option" where
  "varchar n s =
     (if CHR 0x00 \<in> set s then None
      else (let (a, b) = split_runes n s in if list_all (\<lambda>c. c = CHR '' '') b then Some a else None))"

text \<open>
  \<open>strings.ToLower\<close> and \<open>strings.ToUpper\<close>, exact on every character of the result that is ASCII:
  beside the ASCII letters, the Kelvin sign and the dotted capital I have an ASCII lower case, the
  dotless i and the long s an ASCII upper case.
\<close>

fun go_lower :: "string \<Rightarrow> string" where
  "go_lower [] = []"
| "go_lower (c # cs) =
     (case cs of
        d # ds \<Rightarrow>
          if c = CHR 0xC4 \<and> d = CHR 0xB0 then CHR ''i'' # go_lower ds
          else if c = CHR 0xE2 \<and> d = CHR 0x84 \<and> ds \<noteq> [] \<and> hd ds = CHR 0xAA
          then CHR ''k'' # go_lower (tl ds)
          else to_lower_char c # go_lower cs
      | [] \<Rightarrow> [to_lower_char c])"

fun go_upper :: "string \<Rightarrow> string" where
  "go_upper [] = []"
| "go_upper (c # cs) =
     (case cs of
        d # ds \<Rightarrow>
          if c = CHR 0xC4 \<and> d = CHR 0xB1 then CHR ''I'' # go_upper ds
          else if c = CHR 0xC5 \<and> d = CHR 0xBF then CHR ''S'' # go_upper ds
          else to_upper_char c # go_upper cs
      | [] \<Rightarrow> [to_upper_char c])"

declare go_lower.simps [simp del] go_upper.simps [simp del]

lemma hex_visible: "is_hex c \<Longrightarrow> visible c"
  by (auto simp: is_hex_def visible_def is_digit_def less_eq_char_def)

section \<open>The registry of tenants\<close>

datatype tenant_error =
    TenantAlias | TenantLookup | TenantExists | TenantInsert | TenantProvision | TenantNotFound

definition validAliasRegex :: "string \<Rightarrow> bool" where
  "validAliasRegex a \<longleftrightarrow>
     2 \<le> length a \<and> length a \<le> 55 \<and> is_lower (hd a)
     \<and> list_all (\<lambda>c. is_lower c \<or> is_digit c \<or> c = CHR ''_'') (tl a)"

definition normal_alias :: "string \<Rightarrow> string" where
  "normal_alias a = replace_char CHR ''-'' ''_'' (replace_char CHR '' '' ''_'' (go_lower (trim_space a)))"

definition add_tenant :: "tenant_row \<Rightarrow> landlord_db \<Rightarrow> landlord_db" where
  "add_tenant t db = db\<lparr>ld_tenants := ld_tenants db @ [t]\<rparr>"

definition drop_tenant :: "string \<Rightarrow> landlord_db \<Rightarrow> landlord_db" where
  "drop_tenant i db = db\<lparr>ld_tenants := filter (\<lambda>t. tn_id t \<noteq> i) (ld_tenants db)\<rparr>"

text \<open>
  \<open>newID\<close> and \<open>now\<close> are the defaults of the new row, \<open>migrated\<close> tells whether
  \<open>RunTenantMigrations\<close> created the tables of the new schema. The row is inserted before the schema
  is provisioned, and deleted again when that fails.
\<close>

definition RegisterTenant ::
  "string \<Rightarrow> int \<Rightarrow> bool \<Rightarrow> string \<Rightarrow> string \<Rightarrow> landlord_db \<Rightarrow> (tenant_error + tenant_row) \<times> landlord_db" where
  "RegisterTenant newID now migrated name schemaAlias db =
     (let alias = normal_alias schemaAlias in
      if \<not> validAliasRegex alias then (Inl TenantAlias, db)
      else if list_ex (\<lambda>t. tn_alias t = alias) (ld_tenants db) then (Inl TenantExists, db)
      else (case varchar 255 (trim_space name) of
              None \<Rightarrow> (Inl TenantInsert, db)
            | Some stored \<Rightarrow>
                if list_ex (\<lambda>t. tn_id t = newID) (ld_tenants db) then (Inl TenantInsert, db)
                else (let row = \<lparr>tn_id = newID, tn_name = stored, tn_alias = alias, tn_active = True,
                            tn_created = now, tn_updated = now\<rparr>;
                     db' = add_tenant row db
                 in if migrated then (Inr (row\<lparr>tn_name := name\<rparr>), db')
                    else (Inl TenantProvision, drop_tenant newID db'))))"

definition ToggleTenant ::
  "int \<Rightarrow> string option \<Rightarrow> bool \<Rightarrow> landlord_db \<Rightarrow> tenant_error option \<times> landlord_db" where
  "ToggleTenant now tenantID active db =
     (case tenantID of
        None \<Rightarrow> (Some TenantLookup, db)
      | Some i \<Rightarrow>
          if list_ex (\<lambda>t. tn_id t = i) (ld_tenants db)
          then (None, db\<lparr>ld_tenants :=
                  map (\<lambda>t. if tn_id t = i then t\<lparr>tn_active := active, tn_updated := now\<rparr> else t) (ld_tenants db)\<rparr>)
          else (Some TenantNotFound, db))"

definition GetTenantBySchema :: "string \<Rightarrow> landlord_db \<Rightarrow> tenant_error + tenant_row" where
  "GetTenantBySchema schemaAlias db =
     (case find (\<lambda>t. tn_alias t = schemaAlias) (ld_tenants db) of
        None \<Rightarrow> Inl TenantNotFound | Some t \<Rightarrow> Inr t)"

text \<open>\<open>SELECT schema_alias FROM tenants WHERE is_active = true\<close>, in the order of the rows.\<close>

definition active_aliases :: "landlord_db \<Rightarrow> string list" where
  "active_aliases db = map tn_alias (filter tn_active (ld_tenants db))"

section \<open>Handlers of the registry\<close>

datatype tenant_response =
    TrBadBody | TrMissing | TrConflict tenant_error | TrCreated tenant_row
  | TrNoId | TrUnknown tenant_error | TrOk

record landlord_state =
  ls_db :: landlord_db
  ls_audit :: "audit_row list"

definition landlord_audit ::
  "string \<Rightarrow> string \<Rightarrow> string \<Rightarrow> string \<Rightarrow> string \<Rightarrow> landlord_state \<Rightarrow> landlord_state" where
  "landlord_audit username action resourceID payload ip s =
     s\<lparr>ls_audit := ls_audit s @
        [\<lparr>au_username = username, au_action = action, au_resource_type = ''tenant'',
          au_resource_id = resourceID, au_payload = payload, au_ip = ip\<rparr>]\<rparr>"

definition CreateTenantHandler ::
  "string \<Rightarrow> int \<Rightarrow> bool \<Rightarrow> string \<Rightarrow> string \<Rightarrow> raw_message \<Rightarrow> landlord_state
    \<Rightarrow> tenant_response \<times> landlord_state" where
  "CreateTenantHandler newID now migrated username ip body s =
     (case Option.bind body go_obj of
        None \<Rightarrow> (TrBadBody, s)
      | Some kvs \<Rightarrow>
          (case (go_str ''name'' kvs, go_str ''schema_alias'' kvs) of
             (Some name, Some alias) \<Rightarrow>
               if name = [] \<or> alias = [] then (TrMissing, s)
               else
                 (case RegisterTenant newID now migrated name alias (ls_db s) of
                    (Inl e, db) \<Rightarrow> (TrConflict e, s\<lparr>ls_db := db\<rparr>)
                  | (Inr t, db) \<Rightarrow>
                      (TrCreated t, landlord_audit username ''CREATE_TENANT'' (tn_id t) name ip (s\<lparr>ls_db := db\<rparr>)))
           | _ \<Rightarrow> (TrBadBody, s)))"

definition ToggleTenantHandler ::
  "(string \<Rightarrow> string option) \<Rightarrow> int \<Rightarrow> string \<Rightarrow> string \<Rightarrow> string \<Rightarrow> raw_message \<Rightarrow> landlord_state
    \<Rightarrow> tenant_response \<times> landlord_state" where
  "ToggleTenantHandler uuid_in now username ip tenantID body s =
     (if tenantID = [] then (TrNoId, s)
      else
        (case Option.bind body go_obj of
           None \<Rightarrow> (TrBadBody, s)
         | Some kvs \<Rightarrow>
             (case go_bool ''is_active'' kvs of
                None \<Rightarrow> (TrBadBody, s)
              | Some active \<Rightarrow>
                  (case ToggleTenant now (uuid_in tenantID) active (ls_db s) of
                     (Some e, db) \<Rightarrow> (TrUnknown e, s\<lparr>ls_db := db\<rparr>)
                   | (None, db) \<Rightarrow>
                       (TrOk, landlord_audit username (if active then ''ENABLE_TENANT'' else ''DISABLE_TENANT'')
                                tenantID [] ip (s\<lparr>ls_db := db\<rparr>))))))"

section \<open>Users\<close>

datatype user_response =
    UrMethod | UrBadBody | UrBadRole | UrSecure | UrExists | UrDatabase | UrMissingId | UrLastAdmin
  | UrNotFound | UrCreated | UrOk

definition user_roles :: "string list" where
  "user_roles = [''ADMIN'', ''OPERATOR'', ''VIEWER'']"

definition find_user :: "string option \<Rightarrow> landlord_db \<Rightarrow> user_row option" where
  "find_user i db = Option.bind i (\<lambda>x. find (\<lambda>u. us_id u = x) (ld_users db))"

definition admin_count :: "landlord_db \<Rightarrow> nat" where
  "admin_count db = length (filter (\<lambda>u. us_role u = Some ''ADMIN'') (ld_users db))"

definition add_user :: "user_row \<Rightarrow> landlord_db \<Rightarrow> landlord_db" where
  "add_user u db = db\<lparr>ld_users := ld_users db @ [u]\<rparr>"

definition map_users :: "string \<Rightarrow> (user_row \<Rightarrow> user_row) \<Rightarrow> landlord_db \<Rightarrow> landlord_db" where
  "map_users i f db = db\<lparr>ld_users := map (\<lambda>u. if us_id u = i then f u else u) (ld_users db)\<rparr>"

text \<open>\<open>bcrypt_gen\<close> is \<open>bcrypt.GenerateFromPassword\<close>, which refuses passwords over 72 bytes.\<close>

definition CreateUserHandler ::
  "(string \<Rightarrow> string option) \<Rightarrow> string \<Rightarrow> int \<Rightarrow> string \<Rightarrow> raw_message \<Rightarrow> landlord_db \<Rightarrow> user_response \<times> landlord_db" where
  "CreateUserHandler bcrypt_gen newID now meth body db =
     (if meth \<noteq> ''POST'' then (UrMethod, db)
      else
        (case Option.bind body go_obj of
           None \<Rightarrow> (UrBadBody, db)
         | Some kvs \<Rightarrow>
             (case (go_str ''username'' kvs, go_str ''password'' kvs, go_str ''role'' kvs) of
                (Some name, Some password, Some r) \<Rightarrow>
                  (let role = go_upper r in
                   if role \<notin> set user_roles then (UrBadRole, db)
                   else
                     (case bcrypt_gen password of
                        None \<Rightarrow> (UrSecure, db)
                      | Some hash \<Rightarrow>
                          (case (varchar 100 name, varchar 255 hash) of
                             (Some stored, Some h) \<Rightarrow>
                               if list_ex (\<lambda>u. us_name u = stored \<or> us_id u = newID) (ld_users db)
                               then (UrExists, db)
                               else (UrCreated, add_user
                                       \<lparr>us_id = newID, us_name = stored, us_hash = h, us_role = Some role,
                                        us_tenant = None, us_created = now\<rparr> db)
                           | _ \<Rightarrow> (UrDatabase, db))))
              | _ \<Rightarrow> (UrBadBody, db))))"

definition UpdateUserRoleHandler ::
  "(string \<Rightarrow> string option) \<Rightarrow> string \<Rightarrow> string \<Rightarrow> raw_message \<Rightarrow> landlord_db \<Rightarrow> user_response \<times> landlord_db" where
  "UpdateUserRoleHandler uuid_in meth i body db =
     (if meth \<noteq> ''PUT'' then (UrMethod, db)
      else if i = [] then (UrMissingId, db)
      else
        (case Option.bind body go_obj of
           None \<Rightarrow> (UrBadBody, db)
         | Some kvs \<Rightarrow>
             (case go_str ''role'' kvs of
                None \<Rightarrow> (UrBadBody, db)
              | Some r \<Rightarrow>
                  (let role = go_upper r;
                       current = coalesce (Option.bind (find_user (uuid_in i) db) us_role)
                   in if role \<notin> set user_roles then (UrBadRole, db)
                      else if role \<noteq> ''ADMIN'' \<and> go_upper current = ''ADMIN'' \<and> admin_count db \<le> 1
                      then (UrLastAdmin, db)
                      else (case uuid_in i of
                              None \<Rightarrow> (UrDatabase, db)
                            | Some u \<Rightarrow> (UrOk, map_users u (\<lambda>x. x\<lparr>us_role := Some role\<rparr>) db))))))"

definition UpdateUserPasswordHandler ::
  "(string \<Rightarrow> string option) \<Rightarrow> (string \<Rightarrow> string option) \<Rightarrow> string \<Rightarrow> string \<Rightarrow> raw_message \<Rightarrow> landlord_db
    \<Rightarrow> user_response \<times> landlord_db" where
  "UpdateUserPasswordHandler uuid_in bcrypt_gen meth i body db =
     (if meth \<noteq> ''PUT'' then (UrMethod, db)
      else if i = [] then (UrMissingId, db)
      else
        (case Option.bind body go_obj of
           None \<Rightarrow> (UrBadBody, db)
         | Some kvs \<Rightarrow>
             (case go_str ''password'' kvs of
                None \<Rightarrow> (UrBadBody, db)
              | Some password \<Rightarrow>
                  (case bcrypt_gen password of
                     None \<Rightarrow> (UrSecure, db)
                   | Some hash \<Rightarrow>
                       (case (uuid_in i, varchar 255 hash) of
                          (Some u, Some h) \<Rightarrow> (UrOk, map_users u (\<lambda>x. x\<lparr>us_hash := h\<rparr>) db)
                        | _ \<Rightarrow> (UrDatabase, db))))))"

definition DeleteUserHandler ::
  "(string \<Rightarrow> string option) \<Rightarrow> string \<Rightarrow> string \<Rightarrow> landlord_db \<Rightarrow> user_response \<times> landlord_db" where
  "DeleteUserHandler uuid_in meth i db =
     (if meth \<noteq> ''DELETE'' then (UrMethod, db)
      else if i = [] then (UrMissingId, db)
      else
        (case find_user (uuid_in i) db of
           None \<Rightarrow> (UrNotFound, db)
         | Some u \<Rightarrow>
             (case us_role u of
                None \<Rightarrow> (UrNotFound, db)
              | Some role \<Rightarrow>
                  if go_upper role = ''ADMIN'' \<and> admin_count db \<le> 1 then (UrLastAdmin, db)
                  else (UrOk, db\<lparr>ld_users := filter (\<lambda>x. us_id x \<noteq> us_id u) (ld_users db)\<rparr>))))"

text \<open>
  \<open>seedSuperAdminUser\<close> at every start of the controller: \<open>hash\<close> is the hash of the configured or
  generated bootstrap password (\<open>None\<close>: \<open>bcrypt\<close> failed and the start is aborted).
\<close>

definition seedSuperAdminUser :: "string option \<Rightarrow> string \<Rightarrow> int \<Rightarrow> landlord_db \<Rightarrow> landlord_db option" where
  "seedSuperAdminUser hash newID now db =
     (if ld_users db = [] then
        (case Option.bind hash (varchar 255) of
           None \<Rightarrow> None
         | Some h \<Rightarrow>
             Some (db\<lparr>ld_users := [\<lparr>us_id = newID, us_name = ''admin'', us_hash = h, us_role = Some ''SUPERADMIN'',
                                    us_tenant = None, us_created = now\<rparr>]\<rparr>))
      else if list_ex (\<lambda>u. us_role u = Some ''SUPERADMIN'') (ld_users db) then Some db
      else Some (db\<lparr>ld_users :=
             map (\<lambda>u. if us_name u = ''admin'' \<and> us_role u = Some ''ADMIN''
                      then u\<lparr>us_role := Some ''SUPERADMIN''\<rparr> else u) (ld_users db)\<rparr>))"

section \<open>Login\<close>

text \<open>The claims of a token, \<open>jwt.MapClaims\<close>, and \<open>claims["k"].(string)\<close>.\<close>

type_synonym claims = "string \<rightharpoonup> json"

definition claim_str :: "string \<Rightarrow> claims \<Rightarrow> string option" where
  "claim_str k c = (case c k of Some (JStr s) \<Rightarrow> Some s | _ \<Rightarrow> None)"

datatype login_response =
    LrMethod | LrBadBody | LrUnavailable | LrDenied | LrSigning
  | LrToken string string string string

text \<open>
  \<open>timeout\<close>: the lookup of the user ran into \<open>LoginDBTimeout\<close>. \<open>bcrypt_ok\<close> compares a hash with a
  password, \<open>sign\<close> is \<open>SignedString\<close>, \<open>now\<close> and \<open>at\<close> are two readings of the clock in seconds.
\<close>

definition login_claims :: "int \<Rightarrow> int \<Rightarrow> user_row \<Rightarrow> string \<Rightarrow> string \<Rightarrow> landlord_db \<Rightarrow> claims \<times> string" where
  "login_claims now at u name role db =
     (let base = [''sub'' \<mapsto> JStr name, ''role'' \<mapsto> JStr role, ''exp'' \<mapsto> JNum (now + 86400), ''iat'' \<mapsto> JNum at]
      in case us_tenant u of
           None \<Rightarrow> (base, [])
         | Some tid \<Rightarrow>
             (case find (\<lambda>t. tn_id t = tid \<and> tn_active t) (ld_tenants db) of
                None \<Rightarrow> (base, [])
              | Some t \<Rightarrow>
                  if tn_alias t = [] then (base, [])
                  else (base(''tenant_id'' \<mapsto> JStr tid, ''schema_alias'' \<mapsto> JStr (tn_alias t)), tn_alias t)))"

definition LoginHandler ::
  "(string \<Rightarrow> string \<Rightarrow> bool) \<Rightarrow> (claims \<Rightarrow> string option) \<Rightarrow> bool \<Rightarrow> int \<Rightarrow> int \<Rightarrow> string \<Rightarrow> raw_message \<Rightarrow> landlord_db
    \<Rightarrow> login_response" where
  "LoginHandler bcrypt_ok sign timeout now at meth body db =
     (if meth \<noteq> ''POST'' then LrMethod
      else
        (case Option.bind body go_obj of
           None \<Rightarrow> LrBadBody
         | Some kvs \<Rightarrow>
             (case (go_str ''username'' kvs, go_str ''password'' kvs) of
                (Some name, Some password) \<Rightarrow>
                  if timeout then LrUnavailable
                  else
                    (case find (\<lambda>u. us_name u = name) (ld_users db) of
                       None \<Rightarrow> LrDenied
                     | Some u \<Rightarrow>
                         (case us_role u of
                            None \<Rightarrow> LrDenied
                          | Some role \<Rightarrow>
                              if \<not> bcrypt_ok (us_hash u) password then LrDenied
                              else
                                (let (c, alias) = login_claims now at u name role db in
                                 case sign c of None \<Rightarrow> LrSigning | Some t \<Rightarrow> LrToken t name role alias)))
              | _ \<Rightarrow> LrBadBody)))"

section \<open>The accounts over a sequence of requests\<close>

datatype landlord_call =
    CreateUser "string \<Rightarrow> string option" string int string raw_message
  | SetRole "string \<Rightarrow> string option" string string raw_message
  | SetPassword "string \<Rightarrow> string option" "string \<Rightarrow> string option" string string raw_message
  | DropUser "string \<Rightarrow> string option" string string
  | Register string int bool string string
  | Toggle int "string option" bool

fun landlord_step :: "landlord_call \<Rightarrow> landlord_db \<Rightarrow> landlord_db" where
  "landlord_step (CreateUser gen newID now meth body) db = snd (CreateUserHandler gen newID now meth body db)"
| "landlord_step (SetRole uuid_in meth i body) db = snd (UpdateUserRoleHandler uuid_in meth i body db)"
| "landlord_step (SetPassword uuid_in gen meth i body) db = snd (UpdateUserPasswordHandler uuid_in gen meth i body db)"
| "landlord_step (DropUser uuid_in meth i) db = snd (DeleteUserHandler uuid_in meth i db)"
| "landlord_step (Register newID now migrated name alias) db = snd (RegisterTenant newID now migrated name alias db)"
| "landlord_step (Toggle now i active) db = snd (ToggleTenant now i active db)"

definition users_wf :: "user_row list \<Rightarrow> bool" where
  "users_wf us \<longleftrightarrow> distinct (map us_id us) \<and> distinct (map us_name us)
     \<and> list_all (\<lambda>u. \<forall>r \<in> set_option (us_role u). r = ''SUPERADMIN'' \<or> r \<in> set user_roles) us"

definition tenants_wf :: "tenant_row list \<Rightarrow> bool" where
  "tenants_wf ts \<longleftrightarrow> distinct (map tn_id ts) \<and> distinct (map tn_alias ts)
     \<and> list_all (\<lambda>t. validAliasRegex (tn_alias t)) ts"

definition landlord_wf :: "landlord_db \<Rightarrow> bool" where
  "landlord_wf db \<longleftrightarrow> users_wf (ld_users db) \<and> tenants_wf (ld_tenants db)"

lemma user_roles_set [simp]: "r \<in> set user_roles \<longleftrightarrow> r = ''ADMIN'' \<or> r = ''OPERATOR'' \<or> r = ''VIEWER''"
  by (auto simp: user_roles_def)

lemma go_upper_role:
  "r = ''SUPERADMIN'' \<or> r \<in> set user_roles \<Longrightarrow> go_upper r = r"
  by (auto simp: go_upper.simps to_upper_char_def is_lower_def less_eq_char_def)

text \<open>The handlers of the users either leave the tables alone or do one of three things.\<close>

lemma CreateUserHandler_outcome:
  assumes "CreateUserHandler gen newID now meth body db = (r, db')" "db' \<noteq> db"
  shows "\<exists>u. db' = add_user u db \<and> us_tenant u = None \<and> (\<exists>role \<in> set user_roles. us_role u = Some role)
      \<and> us_id u \<notin> us_id ` set (ld_users db) \<and> us_name u \<notin> us_name ` set (ld_users db)"
  using assms unfolding CreateUserHandler_def Let_def
  by (simp split: option.splits if_splits) (elim conjE, rule exI, rule conjI, erule sym, auto simp: list_ex_iff)

lemma UpdateUserRoleHandler_outcome:
  assumes "UpdateUserRoleHandler uuid_in meth i body db = (r, db')" "db' \<noteq> db"
  shows "\<exists>u role. db' = map_users u (\<lambda>x. x\<lparr>us_role := Some role\<rparr>) db \<and> role \<in> set user_roles
      \<and> (role \<noteq> ''ADMIN'' \<and> go_upper (coalesce (Option.bind (find_user (Some u) db) us_role)) = ''ADMIN''
           \<longrightarrow> 2 \<le> admin_count db)"
  using assms unfolding UpdateUserRoleHandler_def Let_def
  by (simp split: option.splits if_splits) (elim conjE, rule exI, rule exI, rule conjI, erule sym, auto)

lemma UpdateUserPasswordHandler_outcome:
  assumes "UpdateUserPasswordHandler uuid_in gen meth i body db = (r, db')" "db' \<noteq> db"
  shows "\<exists>u h. db' = map_users u (\<lambda>x. x\<lparr>us_hash := h\<rparr>) db"
  using assms by (auto simp: UpdateUserPasswordHandler_def split: option.splits if_splits)

lemma DeleteUserHandler_outcome:
  assumes "DeleteUserHandler uuid_in meth i db = (r, db')" "db' \<noteq> db"
  shows "\<exists>u role. db' = db\<lparr>ld_users := filter (\<lambda>x. us_id x \<noteq> us_id u) (ld_users db)\<rparr>
      \<and> find_user (uuid_in i) db = Some u \<and> us_role u = Some role
      \<and> (go_upper role = ''ADMIN'' \<longrightarrow> 2 \<le> admin_count db)"
  using assms unfolding DeleteUserHandler_def
  by (auto split: option.splits if_splits intro!: exI [of _ "the (find_user (uuid_in i) db)"])

lemma drop_added_tenant:
  "\<not> list_ex (\<lambda>t. tn_id t = i) (ld_tenants db) \<Longrightarrow> tn_id t = i \<Longrightarrow> drop_tenant i (add_tenant t db) = db"
  by (auto simp: drop_tenant_def add_tenant_def list_ex_iff filter_id_conv)

lemma RegisterTenant_outcome:
  assumes "RegisterTenant newID now migrated name alias db = (r, db')" "db' \<noteq> db"
  shows "\<exists>row. db' = add_tenant row db
      \<and> tn_alias row = normal_alias alias \<and> validAliasRegex (tn_alias row) \<and> tn_active row
      \<and> tn_id row \<notin> tn_id ` set (ld_tenants db) \<and> tn_alias row \<notin> tn_alias ` set (ld_tenants db)"
  using assms unfolding RegisterTenant_def Let_def
  by (simp add: drop_added_tenant split: option.splits if_splits)
    (elim conjE, rule exI, rule conjI, erule sym, auto simp: list_ex_iff)

lemma ToggleTenant_outcome:
  assumes "ToggleTenant now i active db = (r, db')" "db' \<noteq> db"
  shows "\<exists>x. db' = db\<lparr>ld_tenants :=
      map (\<lambda>t. if tn_id t = x then t\<lparr>tn_active := active, tn_updated := now\<rparr> else t) (ld_tenants db)\<rparr>"
  using assms by (auto simp: ToggleTenant_def split: option.splits if_splits)

lemma map_key_kept: "(\<And>x. k (f x) = k x) \<Longrightarrow> map k (map (\<lambda>x. if P x then f x else x) xs) = map k xs"
  by auto

lemma map_users_wf:
  assumes "users_wf (ld_users db)" "\<And>x. us_id (f x) = us_id x" "\<And>x. us_name (f x) = us_name x"
    "\<And>x r. r \<in> set_option (us_role (f x)) \<Longrightarrow> r = ''SUPERADMIN'' \<or> r \<in> set user_roles \<or> us_role x = Some r"
  shows "users_wf (ld_users (map_users i f db))"
proof -
  let ?g = "\<lambda>u. if us_id u = i then f u else u"
  have same: "map us_id (map ?g us) = map us_id us" "map us_name (map ?g us) = map us_name us" for us
    by (rule map_key_kept, rule assms)+
  have "r = ''SUPERADMIN'' \<or> r \<in> set user_roles" if "u \<in> set (ld_users db)" "r \<in> set_option (us_role (?g u))" for u r
  proof -
    have "r = ''SUPERADMIN'' \<or> r \<in> set user_roles \<or> us_role u = Some r"
      using assms(4) that(2) by (auto split: if_splits)
    moreover have "us_role u = Some r \<Longrightarrow> r = ''SUPERADMIN'' \<or> r \<in> set user_roles"
      using assms(1) that(1) unfolding users_wf_def list_all_iff by blast
    ultimately show ?thesis by blast
  qed
  then have "list_all (\<lambda>u. \<forall>r \<in> set_option (us_role u). r = ''SUPERADMIN'' \<or> r \<in> set user_roles) (map ?g (ld_users db))"
    by (simp only: list_all_iff set_map) blast
  with assms(1) same show ?thesis
    unfolding users_wf_def map_users_def by (simp del: map_map user_roles_set)
qed

lemma admin_count_Suc: "Suc 0 \<le> admin_count db \<longleftrightarrow> (\<exists>u \<in> set (ld_users db). us_role u = Some ''ADMIN'')"
  by (auto simp: admin_count_def Suc_le_eq length_greater_0_conv filter_empty_conv)

lemma admin_count_other:
  assumes "2 \<le> admin_count db" "distinct (map us_id (ld_users db))"
  shows "\<exists>u \<in> set (ld_users db). us_role u = Some ''ADMIN'' \<and> us_id u \<noteq> i"
proof (rule ccontr)
  let ?as = "filter (\<lambda>u. us_role u = Some ''ADMIN'') (ld_users db)"
  assume "\<not> ?thesis"
  then have "us_id ` set ?as \<subseteq> {i}" by auto
  moreover have "card (us_id ` set ?as) = length ?as"
    using distinct_card [OF distinct_map_filter [OF assms(2), of "\<lambda>u. us_role u = Some ''ADMIN''"]] by simp
  ultimately show False
    using assms(1) card_mono [of "{i}" "us_id ` set ?as"] by (simp add: admin_count_def)
qed

lemma map_users_admin_count:
  assumes "\<And>x. us_role (f x) = us_role x"
  shows "admin_count (map_users i f db) = admin_count db"
proof -
  have "map us_role (ld_users (map_users i f db)) = map us_role (ld_users db)"
    unfolding map_users_def using assms by (simp add: map_key_kept del: map_map)
  then have "length (filter (\<lambda>r. r = Some ''ADMIN'') (map us_role (ld_users (map_users i f db))))
      = length (filter (\<lambda>r. r = Some ''ADMIN'') (map us_role (ld_users db)))"
    by simp
  then show ?thesis by (simp add: admin_count_def filter_map comp_def)
qed

lemma find_user_id:
  "landlord_wf db \<Longrightarrow> x \<in> set (ld_users db) \<Longrightarrow> find_user (Some (us_id x)) db = Some x"
  unfolding landlord_wf_def users_wf_def find_user_def
  by (auto simp: find_Some_iff in_set_conv_nth distinct_conv_nth)

text \<open>Every request keeps the tables well formed, and an ADMIN when there is one.\<close>

lemma landlord_step_wf:
  assumes "landlord_wf db"
  shows "landlord_wf (landlord_step c db)"
proof (cases "landlord_step c db = db")
  case False
  note changed = False
  show ?thesis
  proof (cases c)
    case (CreateUser gen newID now meth body)
    with changed obtain u where "landlord_step c db = add_user u db" "\<exists>role \<in> set user_roles. us_role u = Some role"
      "us_id u \<notin> us_id ` set (ld_users db)" "us_name u \<notin> us_name ` set (ld_users db)"
      using CreateUserHandler_outcome by (metis landlord_step.simps(1) prod.collapse)
    with assms show ?thesis by (auto simp: landlord_wf_def users_wf_def add_user_def)
  next
    case (SetRole uuid_in meth i body)
    with changed obtain u role where "landlord_step c db = map_users u (\<lambda>x. x\<lparr>us_role := Some role\<rparr>) db"
      "role \<in> set user_roles"
      using UpdateUserRoleHandler_outcome by (metis landlord_step.simps(2) prod.collapse)
    moreover have "users_wf (ld_users (landlord_step c db))"
      unfolding calculation(1) using assms calculation by (intro map_users_wf) (auto simp: landlord_wf_def)
    ultimately show ?thesis using assms by (simp add: landlord_wf_def map_users_def)
  next
    case (SetPassword uuid_in gen meth i body)
    with changed obtain u h where "landlord_step c db = map_users u (\<lambda>x. x\<lparr>us_hash := h\<rparr>) db"
      using UpdateUserPasswordHandler_outcome by (metis landlord_step.simps(3) prod.collapse)
    moreover have "users_wf (ld_users (landlord_step c db))"
      unfolding calculation(1) using assms calculation by (intro map_users_wf) (auto simp: landlord_wf_def)
    ultimately show ?thesis using assms by (simp add: landlord_wf_def map_users_def)
  next
    case (DropUser uuid_in meth i)
    with changed have "snd (DeleteUserHandler uuid_in meth i db) \<noteq> db" by simp
    from DeleteUserHandler_outcome [OF surjective_pairing this] obtain u
      where "landlord_step c db = db\<lparr>ld_users := filter (\<lambda>x. us_id x \<noteq> us_id (u :: user_row)) (ld_users db)\<rparr>"
      unfolding DropUser landlord_step.simps by blast
    with assms show ?thesis by (auto simp: landlord_wf_def users_wf_def distinct_map_filter list_all_iff)
  next
    case (Register newID now migrated name al)
    with changed obtain t where "landlord_step c db = add_tenant t db" "validAliasRegex (tn_alias t)"
      "tn_id t \<notin> tn_id ` set (ld_tenants db)" "tn_alias t \<notin> tn_alias ` set (ld_tenants db)"
      using RegisterTenant_outcome by (metis landlord_step.simps(5) prod.collapse)
    with assms show ?thesis by (auto simp: landlord_wf_def tenants_wf_def add_tenant_def)
  next
    case (Toggle now i active)
    with changed have "snd (ToggleTenant now i active db) \<noteq> db" by simp
    from ToggleTenant_outcome [OF surjective_pairing this] obtain x where "landlord_step c db = db\<lparr>ld_tenants :=
        map (\<lambda>t. if tn_id t = x then t\<lparr>tn_active := active, tn_updated := now\<rparr> else t) (ld_tenants db)\<rparr>"
      unfolding Toggle landlord_step.simps by blast
    with assms show ?thesis
      by (simp add: landlord_wf_def tenants_wf_def map_key_kept list_all_iff del: map_map) auto
  qed
qed (use assms in simp)

lemma landlord_step_admin:
  assumes "landlord_wf db" "1 \<le> admin_count db"
  shows "1 \<le> admin_count (landlord_step c db)"
proof (cases "landlord_step c db = db")
  case False
  note changed = False
  have others: "\<exists>u \<in> set (ld_users db). us_role u = Some ''ADMIN'' \<and> us_id u \<noteq> i" if "2 \<le> admin_count db" for i
    using admin_count_other [OF that] assms(1) by (simp add: landlord_wf_def users_wf_def)
  obtain a where a: "a \<in> set (ld_users db)" "us_role a = Some ''ADMIN''"
    using assms(2) admin_count_Suc [of db] by auto
  note lookup = find_user_id [OF assms(1)]
  show ?thesis
  proof (cases c)
    case (CreateUser gen newID now meth body)
    with changed obtain u where "landlord_step c db = add_user u db"
      using CreateUserHandler_outcome by (metis landlord_step.simps(1) prod.collapse)
    with assms(2) show ?thesis by (auto simp: admin_count_Suc add_user_def)
  next
    case (SetRole uuid_in meth i body)
    with changed have "snd (UpdateUserRoleHandler uuid_in meth i body db) \<noteq> db" by simp
    from UpdateUserRoleHandler_outcome [OF surjective_pairing this] obtain u role
      where step: "landlord_step c db = map_users u (\<lambda>x. x\<lparr>us_role := Some role\<rparr>) db"
        and guard: "role \<noteq> ''ADMIN'' \<and> go_upper (coalesce (Option.bind (find_user (Some u) db) us_role)) = ''ADMIN''
           \<longrightarrow> 2 \<le> admin_count db"
      unfolding SetRole landlord_step.simps by blast
    show ?thesis
    proof (cases "us_id a = u")
      case True
      with lookup [OF a(1)] a(2) have "go_upper (coalesce (Option.bind (find_user (Some u) db) us_role)) = ''ADMIN''"
        by (simp add: go_upper_role)
      with guard others [of u] a True show ?thesis
        by (cases "role = ''ADMIN''") (force simp: step admin_count_Suc map_users_def)+
    next
      case False
      with a show ?thesis by (force simp: step admin_count_Suc map_users_def)
    qed
  next
    case (SetPassword uuid_in gen meth i body)
    with changed obtain u h where "landlord_step c db = map_users u (\<lambda>x. x\<lparr>us_hash := h\<rparr>) db"
      using UpdateUserPasswordHandler_outcome by (metis landlord_step.simps(3) prod.collapse)
    with assms(2) show ?thesis by (simp add: map_users_admin_count)
  next
    case (DropUser uuid_in meth i)
    with changed have "snd (DeleteUserHandler uuid_in meth i db) \<noteq> db" by simp
    from DeleteUserHandler_outcome [OF surjective_pairing this] obtain u role
      where step: "landlord_step c db = db\<lparr>ld_users := filter (\<lambda>x. us_id x \<noteq> us_id (u :: user_row)) (ld_users db)\<rparr>"
        and u: "find_user (uuid_in i) db = Some u" "us_role u = Some role" "go_upper role = ''ADMIN'' \<longrightarrow> 2 \<le> admin_count db"
      unfolding DropUser landlord_step.simps by blast
    show ?thesis
    proof (cases "us_id a = us_id u")
      case True
      have "u \<in> set (ld_users db)" using u(1) by (auto simp: find_user_def find_Some_iff bind_eq_Some_conv)
      with True lookup [OF a(1)] lookup have "a = u" by fastforce
      with a(2) u(2,3) have "2 \<le> admin_count db" by (simp add: go_upper_role)
      with others [of "us_id u"] show ?thesis by (auto simp: step admin_count_Suc)
    next
      case False
      with a show ?thesis by (auto simp: step admin_count_Suc)
    qed
  next
    case (Register newID now migrated name al)
    with changed obtain t where "landlord_step c db = add_tenant t db"
      using RegisterTenant_outcome by (metis landlord_step.simps(5) prod.collapse)
    with assms(2) show ?thesis by (simp add: admin_count_Suc add_tenant_def)
  next
    case (Toggle now i active)
    with changed show ?thesis
      using ToggleTenant_outcome [of now i active db, OF surjective_pairing] assms(2)
      by (auto simp: admin_count_Suc)
  qed
qed (use assms in simp)

locale kept_tables =
  fixes step :: "'c \<Rightarrow> 's \<Rightarrow> 's" and wf :: "'s \<Rightarrow> bool" and extra :: "'s \<Rightarrow> bool"
  assumes step_wf: "wf s \<Longrightarrow> wf (step c s)"
    and step_extra: "wf s \<Longrightarrow> extra s \<Longrightarrow> extra (step c s)"
begin

lemma run_wf: "wf s \<Longrightarrow> wf (fold step cs s)"
  by (induction cs arbitrary: s) (auto intro: step_wf)

lemma run_keeps: "wf s \<Longrightarrow> extra s \<Longrightarrow> wf (fold step cs s) \<and> extra (fold step cs s)"
  by (induction cs arbitrary: s) (auto intro: step_wf step_extra)

end

interpretation landlord: kept_tables landlord_step landlord_wf "\<lambda>db. 1 \<le> admin_count db"
  by unfold_locales (rule landlord_step_wf, assumption, rule landlord_step_admin, assumption+)

text \<open>
  C25. Whatever sequence of requests the handlers of users and tenants answer, user ids and names,
  tenant ids and aliases stay unique, every role is a known one and every alias a legal one; and as
  long as the tables hold an ADMIN when the sequence starts, they hold one when it ends: the last
  ADMIN can be neither deleted nor demoted.
\<close>

theorem admins_remain:
  assumes "landlord_wf db" "1 \<le> admin_count db"
  shows "landlord_wf (fold landlord_step cs db) \<and> 1 \<le> admin_count (fold landlord_step cs db)"
  using assms by (rule landlord.run_keeps)

definition sample_landlord :: landlord_db where
  "sample_landlord =
     \<lparr>ld_tenants = [\<lparr>tn_id = ''t-1'', tn_name = ''Acme'', tn_alias = ''acme'', tn_active = True, tn_created = 1, tn_updated = 1\<rparr>,
                    \<lparr>tn_id = ''t-2'', tn_name = ''Beta'', tn_alias = ''beta'', tn_active = True, tn_created = 2, tn_updated = 2\<rparr>],
      ld_users = [\<lparr>us_id = ''u-0'', us_name = ''admin'', us_hash = ''h0'', us_role = Some ''SUPERADMIN'', us_tenant = None, us_created = 0\<rparr>,
                  \<lparr>us_id = ''u-1'', us_name = ''alice'', us_hash = ''h1'', us_role = Some ''ADMIN'', us_tenant = Some ''t-1'', us_created = 1\<rparr>]\<rparr>"

lemma sample_landlord_wf: "landlord_wf sample_landlord" "1 \<le> admin_count sample_landlord"
  by code_simp+

theorem admins_remain_witness:
  "landlord_wf (fold landlord_step [DropUser Some ''DELETE'' ''u-1'', SetRole Some ''PUT'' ''u-1'' (Some (JObj [(''role'', JStr ''viewer'')]))] sample_landlord)
   \<and> 1 \<le> admin_count (fold landlord_step [DropUser Some ''DELETE'' ''u-1'', SetRole Some ''PUT'' ''u-1'' (Some (JObj [(''role'', JStr ''viewer'')]))] sample_landlord)"
  by (rule admins_remain [OF sample_landlord_wf])

text \<open>Every alias the registry holds names a schema within the limit of PostgreSQL.\<close>

lemma alias_schema:
  assumes "validAliasRegex a"
  shows "SafeTenantSchema a = Inr (''tenant_'' @ a)"
proof -
  from assms have "a \<noteq> []" "length a \<le> 55" "is_lower (hd a)" by (auto simp: validAliasRegex_def)
  moreover have "list_all (\<lambda>c. is_alnum c \<or> c = CHR ''_'') (hd a # tl a)"
    using assms by (auto simp: validAliasRegex_def is_alnum_def list_all_iff)
  moreover have "\<not> is_digit (hd a)"
    using \<open>is_lower (hd a)\<close> by (auto simp: is_lower_def is_digit_def less_eq_char_def)
  ultimately show ?thesis
    by (cases a) (auto simp: SafeTenantSchema_def isValidSchemaName_def)
qed

section \<open>The bootstrap account is not protected\<close>

definition administrative :: "user_row \<Rightarrow> bool" where
  "administrative u \<longleftrightarrow> us_role u = Some ''ADMIN'' \<or> us_role u = Some ''SUPERADMIN''"

text \<open>
  The guards of \<open>DeleteUserHandler\<close> and \<open>UpdateUserRoleHandler\<close> look at the role ADMIN only.
  When a SUPERADMIN is the one account left with administrative rights, as after the first start,
  both handlers remove it: afterwards no account passes \<open>RequireAdmin\<close> any more.
\<close>

theorem last_superadmin_removed:
  assumes "uuid_in i = Some (us_id u)" "i \<noteq> []" "landlord_wf db" "u \<in> set (ld_users db)"
    "us_role u = Some ''SUPERADMIN''" "\<forall>x \<in> set (ld_users db). administrative x \<longrightarrow> x = u"
  shows "(\<exists>db'. DeleteUserHandler uuid_in ''DELETE'' i db = (UrOk, db') \<and> \<not> list_ex administrative (ld_users db'))
     \<and> (\<exists>db'. UpdateUserRoleHandler uuid_in ''PUT'' i (Some (JObj [(''role'', JStr ''VIEWER'')])) db = (UrOk, db')
          \<and> \<not> list_ex administrative (ld_users db'))"
proof -
  have found: "find_user (uuid_in i) db = Some u"
    using assms(1) find_user_id [OF assms(3,4)] by simp
  have upper: "go_upper ''SUPERADMIN'' \<noteq> ''ADMIN''" "go_upper ''VIEWER'' = ''VIEWER''"
    and body: "go_str ''role'' [(''role'', JStr ''VIEWER'')] = Some ''VIEWER''"
    by code_simp+
  have ids: "us_id x = us_id u \<longleftrightarrow> x = u" if "x \<in> set (ld_users db)" for x
    using find_user_id [OF assms(3) that] find_user_id [OF assms(3,4)] by (metis option.inject)
  have "DeleteUserHandler uuid_in ''DELETE'' i db
      = (UrOk, db\<lparr>ld_users := filter (\<lambda>x. us_id x \<noteq> us_id u) (ld_users db)\<rparr>)"
    using assms(2,5) upper by (simp add: DeleteUserHandler_def found)
  moreover have "\<not> list_ex administrative (filter (\<lambda>x. us_id x \<noteq> us_id u) (ld_users db))"
    using assms(6) by (auto simp: list_ex_iff)
  moreover have "UpdateUserRoleHandler uuid_in ''PUT'' i (Some (JObj [(''role'', JStr ''VIEWER'')])) db
      = (UrOk, map_users (us_id u) (\<lambda>x. x\<lparr>us_role := Some ''VIEWER''\<rparr>) db)"
    using assms(1,2,5) upper found by (simp add: UpdateUserRoleHandler_def go_obj_def body)
  moreover have "\<not> list_ex administrative (ld_users (map_users (us_id u) (\<lambda>x. x\<lparr>us_role := Some ''VIEWER''\<rparr>) db))"
    using assms(6) ids by (auto simp: list_ex_iff map_users_def administrative_def)
  ultimately show ?thesis by auto
qed

definition bootstrap_db :: landlord_db where
  "bootstrap_db = the (seedSuperAdminUser (Some ''h'') ''u-0'' 0 \<lparr>ld_tenants = [], ld_users = []\<rparr>)"

lemma bootstrap_user: "ld_users bootstrap_db =
    [\<lparr>us_id = ''u-0'', us_name = ''admin'', us_hash = ''h'', us_role = Some ''SUPERADMIN'', us_tenant = None, us_created = 0\<rparr>]"
  "landlord_wf bootstrap_db"
  by code_simp+

theorem last_superadmin_removed_witness:
  "\<exists>db'. DeleteUserHandler Some ''DELETE'' ''u-0'' bootstrap_db = (UrOk, db') \<and> \<not> list_ex administrative (ld_users db')"
  using last_superadmin_removed [of Some "''u-0''" "hd (ld_users bootstrap_db)" bootstrap_db]
  by (simp add: bootstrap_user)

section \<open>Masked keys\<close>

text \<open>
  \<open>itoa\<close> of \<open>postgres.go\<close> on \<open>int\<close>, 64 bits wide: the negation wraps around at the smallest value.
  The loop over the digits is a \<open>while\<close> loop, so that \<open>None\<close> would be a loop that never ends.
\<close>

definition neg_int64 :: "int \<Rightarrow> int" where
  "neg_int64 n = (if n = min_int64 then n else - n)"

definition itoa_digits :: "int \<times> string \<Rightarrow> (int \<times> string) option" where
  "itoa_digits = while_option (\<lambda>(n, ds). n > 0) (\<lambda>(n, ds). (n div 10, digit_char (nat (n mod 10)) # ds))"

definition itoa :: "int \<Rightarrow> string option" where
  "itoa n =
     (if n = 0 then Some ''0''
      else (case itoa_digits (if n < 0 then neg_int64 n else n, []) of
              None \<Rightarrow> None
            | Some (_, ds) \<Rightarrow> Some (if n < 0 then CHR ''-'' # ds else ds)))"

definition maskAPIKey :: "string \<Rightarrow> string option" where
  "maskAPIKey key =
     (if length key \<le> 8 then Some ''********''
      else map_option (\<lambda>n. take 8 key @ ''...'' @ ''('' @ n @ '' chars)'') (itoa (int (length key))))"

lemma itoa_digits_nat: "itoa_digits (int n, ds) = Some (0, (if n = 0 then [] else nat_str n) @ ds)"
proof (induction n arbitrary: ds rule: less_induct)
  case (less n)
  have step: "itoa_digits (int n, ds) =
      (if n = 0 then Some (0, ds) else itoa_digits (int (n div 10), digit_char (n mod 10) # ds))"
    unfolding itoa_digits_def by (subst while_option_unfold) (auto simp: zdiv_int zmod_int nat_mod_distrib)
  show ?case
  proof (cases "n = 0")
    case False
    with step less.IH [of "n div 10" "digit_char (n mod 10) # ds"] show ?thesis
      by (cases "n < 10") (auto simp: nat_str.simps [of n])
  qed (use step in simp)
qed

text \<open>
  \<open>itoa\<close> returns on every 64-bit integer, and what it returns is the decimal numeral, with one
  exception: the smallest integer is its own negation, the loop does not run and only the sign is left.
\<close>

theorem itoa_returns:
  assumes "in_int64 n"
  shows "itoa n = Some (if n = min_int64 then ''-'' else int_str n)"
proof (cases "n = min_int64")
  case True
  then show ?thesis
    unfolding itoa_def itoa_digits_def by (subst while_option_unfold) (simp add: neg_int64_def min_int64_def)
next
  case False
  have "itoa n = Some (int_str n)" if "n > 0"
    using that itoa_digits_nat [of "nat n" "[]"] by (simp add: itoa_def int_str_def)
  moreover have "itoa n = Some (int_str n)" if "n < 0"
    using that False itoa_digits_nat [of "nat (- n)" "[]"] by (simp add: itoa_def int_str_def neg_int64_def)
  moreover have "int_str 0 = ''0''" by code_simp
  then have "itoa 0 = Some (int_str 0)" by (simp add: itoa_def)
  ultimately show ?thesis
    using False by (metis linorder_neqE)
qed

theorem itoa_returns_witness:
  "itoa (- 42) = Some ''-42'' \<and> itoa min_int64 = Some ''-''"
proof -
  have "int_str (- 42) = ''-42''" by code_simp
  then show ?thesis
    using itoa_returns [of "- 42"] itoa_returns [of min_int64]
    by (simp add: in_int64_def min_int64_def max_int64_def)
qed

end
