(* ===== verification/Auth_Tickets.thy ===== *)
theory Auth_Tickets
  imports Sha256
begin

text \<open>
  The in-memory registry of WebSocket tickets, \<open>src/internal/authtickets/authtickets.go\<close>. Each method
  reads and writes the map under the store's mutex (\<open>Issue\<close> draws the id and reads the clock before
  it locks), so a method is one step on the store. Times are
  nanoseconds; the clock readings and the draw of \<open>crypto/rand\<close> are arguments. \<open>None\<close> is the nil store.
\<close>

datatype ticket_error =
    TicketStoreMissing | TicketEntropy | TicketNotFound | TicketExpired | TicketReused | TicketScope

record ticket =
  tk_username :: string
  tk_role :: string
  tk_device :: string
  tk_tenant :: string
  tk_issued :: int
  tk_expires :: int
  tk_consumed :: bool
  tk_consumed_at :: "int option"

record ticket_store =
  ts_tickets :: "string \<rightharpoonup> ticket"
  ts_ttl :: int

definition DefaultTicketTTL :: int where
  "DefaultTicketTTL = 30 * 1000000000"

definition LoadStore :: "int \<Rightarrow> ticket_store" where
  "LoadStore ttl = \<lparr>ts_tickets = Map.empty, ts_ttl = (if ttl = 0 then DefaultTicketTTL else ttl)\<rparr>"

definition newTicketID :: "string option \<Rightarrow> string option" where
  "newTicketID rnd = map_option hex_encode rnd"

definition gcLocked :: "int \<Rightarrow> ticket_store \<Rightarrow> ticket_store" where
  "gcLocked now s =
     s\<lparr>ts_tickets := (\<lambda>i. case ts_tickets s i of
         None \<Rightarrow> None | Some t \<Rightarrow> if now > tk_expires t then None else Some t)\<rparr>"

definition Issue ::
  "string option \<Rightarrow> int \<Rightarrow> string \<Rightarrow> string \<Rightarrow> string \<Rightarrow> string \<Rightarrow> ticket_store option
    \<Rightarrow> (ticket_error + string \<times> ticket) \<times> ticket_store option" where
  "Issue rnd now username role deviceID tenantSchema store =
     (case store of
        None \<Rightarrow> (Inl TicketStoreMissing, None)
      | Some s \<Rightarrow>
          (case newTicketID rnd of
             None \<Rightarrow> (Inl TicketEntropy, Some s)
           | Some i \<Rightarrow>
               (let t = \<lparr>tk_username = username, tk_role = role, tk_device = deviceID, tk_tenant = tenantSchema,
                         tk_issued = now, tk_expires = now + ts_ttl s, tk_consumed = False, tk_consumed_at = None\<rparr>
                in (Inr (i, t), Some (gcLocked now (s\<lparr>ts_tickets := (ts_tickets s)(i \<mapsto> t)\<rparr>))))))"

definition check_ticket :: "int \<Rightarrow> string \<Rightarrow> ticket_store \<Rightarrow> ticket_error + ticket" where
  "check_ticket now i s =
     (case ts_tickets s i of
        None \<Rightarrow> Inl TicketNotFound
      | Some t \<Rightarrow>
          if tk_consumed t then Inl TicketReused
          else if now > tk_expires t then Inl TicketExpired
          else Inr t)"

definition ValidateTicket :: "int \<Rightarrow> string \<Rightarrow> ticket_store option \<Rightarrow> ticket_error + ticket" where
  "ValidateTicket now i store =
     (case store of None \<Rightarrow> Inl TicketStoreMissing | Some s \<Rightarrow> check_ticket now i s)"

definition consume ::
  "int \<Rightarrow> int \<Rightarrow> string \<Rightarrow> string \<Rightarrow> bool \<Rightarrow> ticket_store option \<Rightarrow> (ticket_error + ticket) \<times> ticket_store option" where
  "consume now at i deviceID enforceDevice store =
     (case store of
        None \<Rightarrow> (Inl TicketStoreMissing, None)
      | Some s \<Rightarrow>
          (case check_ticket now i s of
             Inl e \<Rightarrow> (Inl e, Some s)
           | Inr t \<Rightarrow>
               if enforceDevice \<and> (tk_device t = [] \<or> tk_tenant t = [] \<or> tk_device t \<noteq> deviceID)
               then (Inl TicketScope, Some s)
               else (let t' = t\<lparr>tk_consumed := True, tk_consumed_at := Some at\<rparr>
                     in (Inr t', Some (s\<lparr>ts_tickets := (ts_tickets s)(i \<mapsto> t')\<rparr>)))))"

definition Consume ::
  "int \<Rightarrow> int \<Rightarrow> string \<Rightarrow> ticket_store option \<Rightarrow> (ticket_error + ticket) \<times> ticket_store option" where
  "Consume now at i store = consume now at i [] False store"

definition ConsumeForDevice ::
  "int \<Rightarrow> int \<Rightarrow> string \<Rightarrow> string \<Rightarrow> ticket_store option \<Rightarrow> (ticket_error + ticket) \<times> ticket_store option" where
  "ConsumeForDevice now at i deviceID store = consume now at i deviceID True store"

section \<open>Sequences of calls\<close>

text \<open>Calls in the order in which they get the mutex; \<open>Collect\<close> is a tick of the goroutine of \<open>StartGC\<close>.\<close>

datatype ticket_call =
    CallIssue "string option" int string string string string
  | CallConsume int int string
  | CallConsumeFor int int string string
  | CallCollect int

fun ticket_step :: "ticket_call \<Rightarrow> ticket_store \<Rightarrow> ticket_store" where
  "ticket_step (CallIssue rnd now u r d ten) s = the (snd (Issue rnd now u r d ten (Some s)))"
| "ticket_step (CallConsume now at i) s = the (snd (Consume now at i (Some s)))"
| "ticket_step (CallConsumeFor now at i d) s = the (snd (ConsumeForDevice now at i d (Some s)))"
| "ticket_step (CallCollect now) s = gcLocked now s"

definition issues :: "string \<Rightarrow> ticket_call \<Rightarrow> bool" where
  "issues i c = (case c of CallIssue rnd _ _ _ _ _ \<Rightarrow> newTicketID rnd = Some i | _ \<Rightarrow> False)"

text \<open>A ticket id is spent when no ticket of that id can be redeemed any more.\<close>

definition spent :: "string \<Rightarrow> ticket_store \<Rightarrow> bool" where
  "spent i s = (case ts_tickets s i of None \<Rightarrow> True | Some t \<Rightarrow> tk_consumed t)"

section \<open>Single use\<close>

locale single_use =
  fixes step :: "'c \<Rightarrow> 's \<Rightarrow> 's" and used :: "string \<Rightarrow> 's \<Rightarrow> bool" and creates :: "string \<Rightarrow> 'c \<Rightarrow> bool"
  assumes stays_used: "used i s \<Longrightarrow> \<not> creates i c \<Longrightarrow> used i (step c s)"
begin

lemma used_forever: "used i s \<Longrightarrow> \<forall>c \<in> set cs. \<not> creates i c \<Longrightarrow> used i (fold step cs s)"
  by (induction cs arbitrary: s) (auto intro: stays_used)

end

lemma consume_outcome:
  "(\<exists>e. consume now at i d b (Some s) = (Inl e, Some s)) \<or>
   (\<exists>t t'. ts_tickets s i = Some t \<and> \<not> tk_consumed t \<and> now \<le> tk_expires t
      \<and> (b \<longrightarrow> tk_device t = d \<and> d \<noteq> [] \<and> tk_tenant t \<noteq> [])
      \<and> t' = t\<lparr>tk_consumed := True, tk_consumed_at := Some at\<rparr>
      \<and> consume now at i d b (Some s) = (Inr t', Some (s\<lparr>ts_tickets := (ts_tickets s)(i \<mapsto> t')\<rparr>)))"
  by (auto simp: consume_def check_ticket_def Let_def split: option.split sum.split)

lemma spent_consume: "spent j s \<Longrightarrow> spent j (the (snd (consume now at i d b (Some s))))"
  using consume_outcome [of now at i d b s] by (auto simp: spent_def)

lemma spent_gc: "spent j s \<Longrightarrow> spent j (gcLocked now s)"
  by (auto simp: spent_def gcLocked_def split: option.splits)

lemma spent_issue:
  "spent j s \<Longrightarrow> newTicketID rnd \<noteq> Some j \<Longrightarrow> spent j (the (snd (Issue rnd now u r d ten (Some s))))"
  by (auto simp: Issue_def Let_def intro!: spent_gc split: option.split) (auto simp: spent_def)

interpretation tickets: single_use ticket_step spent issues
proof
  fix i s c
  assume "spent i s" "\<not> issues i c"
  then show "spent i (ticket_step c s)"
    by (cases c) (auto simp: Consume_def ConsumeForDevice_def issues_def spent_issue spent_consume spent_gc)
qed

text \<open>
  C9. A ticket is redeemed at most once: after a successful redemption no later call redeems the
  same id, through either method, for any device and at any time, as long as the id is not drawn again.
\<close>

theorem ticket_single_use:
  assumes "consume now at i d b (Some s) = (Inr t, Some s')" "\<forall>c \<in> set cs. \<not> issues i c"
  shows "\<exists>e. consume now' at' i d' b' (Some (fold ticket_step cs s')) = (Inl e, Some (fold ticket_step cs s'))"
proof -
  have "spent i s'" using assms(1) consume_outcome [of now at i d b s] by (auto simp: spent_def)
  then have "spent i (fold ticket_step cs s')" by (rule tickets.used_forever [OF _ assms(2)])
  then show ?thesis
    using consume_outcome [of now' at' i d' b' "fold ticket_step cs s'"] by (auto simp: spent_def)
qed

definition sample_ticket_store :: ticket_store where
  "sample_ticket_store = the (snd (Issue (Some ''k'') 10 ''alice'' ''admin'' ''dev-1'' ''tenant_a'' (Some (LoadStore 0))))"

lemma sample_redeem:
  "\<exists>t s'. consume 20 21 (hex_encode ''k'') ''dev-1'' True (Some sample_ticket_store) = (Inr t, Some s')"
  by (simp add: sample_ticket_store_def Issue_def newTicketID_def LoadStore_def gcLocked_def Let_def
      consume_def check_ticket_def DefaultTicketTTL_def)

theorem ticket_single_use_witness:
  "\<exists>t s' e. consume 20 21 (hex_encode ''k'') ''dev-1'' True (Some sample_ticket_store) = (Inr t, Some s')
     \<and> consume 22 23 (hex_encode ''k'') ''dev-1'' True (Some (fold ticket_step [CallCollect 22] s'))
         = (Inl e, Some (fold ticket_step [CallCollect 22] s'))"
proof -
  obtain t s' where c: "consume 20 21 (hex_encode ''k'') ''dev-1'' True (Some sample_ticket_store) = (Inr t, Some s')"
    using sample_redeem by blast
  have "\<forall>c \<in> set [CallCollect 22]. \<not> issues (hex_encode ''k'') c" by (simp add: issues_def)
  from ticket_single_use [OF c this, of 22 23 "''dev-1''" True] c show ?thesis by blast
qed

section \<open>Redemption goes back to an issue\<close>

text \<open>Every ticket of the store comes from a call of \<open>Issue\<close> that drew its id.\<close>

definition issued_by :: "int \<Rightarrow> ticket_call list \<Rightarrow> string \<Rightarrow> ticket \<Rightarrow> bool" where
  "issued_by ttl cs i t \<longleftrightarrow>
     (\<exists>rnd now. CallIssue rnd now (tk_username t) (tk_role t) (tk_device t) (tk_tenant t) \<in> set cs
        \<and> newTicketID rnd = Some i \<and> tk_expires t = now + ttl)"

lemma issued_by_more: "issued_by ttl cs i t \<Longrightarrow> issued_by ttl (cs @ ds) i t"
  by (auto simp: issued_by_def)

lemma step_ttl: "ts_ttl (ticket_step c s) = ts_ttl s"
proof (cases c)
  case (CallIssue rnd now u r d ten)
  then show ?thesis by (cases "newTicketID rnd") (simp_all add: Issue_def Let_def gcLocked_def)
next
  case (CallConsume now at i)
  then show ?thesis using consume_outcome [of now at i "[]" False s] by (auto simp: Consume_def)
next
  case (CallConsumeFor now at i d)
  then show ?thesis using consume_outcome [of now at i d True s] by (auto simp: ConsumeForDevice_def)
qed (simp add: gcLocked_def)

lemma consume_origin:
  assumes "ts_tickets (the (snd (consume now at j d b (Some s)))) i = Some t"
  shows "\<exists>t0. ts_tickets s i = Some t0 \<and> tk_username t = tk_username t0 \<and> tk_role t = tk_role t0
     \<and> tk_device t = tk_device t0 \<and> tk_tenant t = tk_tenant t0 \<and> tk_expires t = tk_expires t0"
  using assms consume_outcome [of now at j d b s] by (cases "i = j") auto

lemma step_origin:
  assumes "ts_tickets (ticket_step c s) i = Some t"
  shows "issued_by (ts_ttl s) [c] i t \<or>
    (\<exists>t0. ts_tickets s i = Some t0 \<and> tk_username t = tk_username t0 \<and> tk_role t = tk_role t0
     \<and> tk_device t = tk_device t0 \<and> tk_tenant t = tk_tenant t0 \<and> tk_expires t = tk_expires t0)"
proof (cases c)
  case (CallIssue rnd now u r d ten)
  with assms show ?thesis
    by (cases "newTicketID rnd")
      (auto simp: Issue_def Let_def gcLocked_def issued_by_def split: option.splits if_splits)
next
  case (CallConsume now at j)
  with assms consume_origin [of now at j "[]" False s i t] show ?thesis by (simp add: Consume_def)
next
  case (CallConsumeFor now at j d)
  with assms consume_origin [of now at j d True s i t] show ?thesis by (simp add: ConsumeForDevice_def)
next
  case (CallCollect now)
  with assms show ?thesis by (auto simp: gcLocked_def split: option.splits if_splits)
qed

lemma all_issued:
  "ts_tickets (fold ticket_step cs (LoadStore ttl)) i = Some t \<Longrightarrow> issued_by (ts_ttl (LoadStore ttl)) cs i t"
proof (induction cs arbitrary: t rule: rev_induct)
  case Nil
  then show ?case by (simp add: LoadStore_def)
next
  case (snoc c cs)
  have ttl: "ts_ttl (fold ticket_step cs (LoadStore ttl)) = ts_ttl (LoadStore ttl)"
    by (induction cs rule: rev_induct) (simp_all add: step_ttl)
  from step_origin [of c "fold ticket_step cs (LoadStore ttl)" i t] snoc.prems
  consider "issued_by (ts_ttl (LoadStore ttl)) [c] i t"
    | t0 where "ts_tickets (fold ticket_step cs (LoadStore ttl)) i = Some t0" "tk_username t = tk_username t0"
      "tk_role t = tk_role t0" "tk_device t = tk_device t0" "tk_tenant t = tk_tenant t0" "tk_expires t = tk_expires t0"
    by (auto simp: ttl)
  then show ?case
  proof cases
    case 1
    then show ?thesis by (auto simp: issued_by_def)
  next
    case 2
    from snoc.IH [OF 2(1)] 2 show ?thesis by (auto simp: issued_by_def)
  qed
qed

text \<open>
  Whoever redeems a ticket for a device acts as the user it was issued to: from an empty store,
  after any calls, a redemption for a device succeeds only if some call issued that id for exactly
  that device, to the user, role and tenant the redemption returns, no longer than the lifetime ago.
\<close>

theorem redeemed_was_issued:
  assumes "ConsumeForDevice now at i d (Some (fold ticket_step cs (LoadStore ttl))) = (Inr t, s')"
  shows "\<exists>rnd t0. CallIssue rnd t0 (tk_username t) (tk_role t) d (tk_tenant t) \<in> set cs
     \<and> newTicketID rnd = Some i \<and> d \<noteq> [] \<and> tk_tenant t \<noteq> [] \<and> tk_consumed t
     \<and> now \<le> t0 + (if ttl = 0 then DefaultTicketTTL else ttl)"
proof -
  obtain t0 where t0: "ts_tickets (fold ticket_step cs (LoadStore ttl)) i = Some t0" "now \<le> tk_expires t0"
      "tk_device t0 = d" "d \<noteq> []" "tk_tenant t0 \<noteq> []" "t = t0\<lparr>tk_consumed := True, tk_consumed_at := Some at\<rparr>"
    using assms consume_outcome [of now at i d True "fold ticket_step cs (LoadStore ttl)"]
    by (auto simp: ConsumeForDevice_def)
  from all_issued [OF t0(1)] obtain rnd t1 where
      "CallIssue rnd t1 (tk_username t0) (tk_role t0) (tk_device t0) (tk_tenant t0) \<in> set cs"
      "newTicketID rnd = Some i" "tk_expires t0 = t1 + ts_ttl (LoadStore ttl)"
    by (auto simp: issued_by_def)
  with t0 show ?thesis
    by (intro exI [of _ rnd] exI [of _ t1]) (simp add: LoadStore_def)
qed

theorem redeemed_was_issued_witness:
  "\<exists>t s'. ConsumeForDevice 20 21 (hex_encode ''k'') ''dev-1''
       (Some (fold ticket_step [CallIssue (Some ''k'') 10 ''alice'' ''admin'' ''dev-1'' ''tenant_a''] (LoadStore 0))) = (Inr t, s')
     \<and> tk_tenant t \<noteq> [] \<and> 20 \<le> 10 + DefaultTicketTTL"
proof -
  obtain t s' where c: "ConsumeForDevice 20 21 (hex_encode ''k'') ''dev-1''
       (Some (fold ticket_step [CallIssue (Some ''k'') 10 ''alice'' ''admin'' ''dev-1'' ''tenant_a''] (LoadStore 0))) = (Inr t, s')"
    using sample_redeem by (auto simp: sample_ticket_store_def ConsumeForDevice_def)
  from redeemed_was_issued [OF c] c show ?thesis by (auto simp: DefaultTicketTTL_def)
qed

end
