(* ===== verification/Request_Auth.thy ===== *)
theory Request_Auth
  imports Landlord Auth_Tickets
begin

text \<open>
  The gate in front of the handlers: \<open>WithAuth\<close>, \<open>RequireAdmin\<close> and \<open>RequireSuperAdmin\<close> of
  \<open>src/internal/api/middleware/auth.go\<close>, and the issue of WebSocket tickets of
  \<open>src/internal/api/handlers/ws_ticket.go\<close>. A request is admitted with its claims and the schema its
  transaction works in, or answered with an error. \<open>verify\<close> is \<open>jwt.Parse\<close> with the process secret,
  restricted to HMAC signatures: the claims of a valid token, \<open>None\<close> otherwise. Failures of the
  database connection are flags of the environment.
\<close>

section \<open>Requests\<close>

record auth_request =
  aq_ticket :: string
  aq_upgrade :: string
  aq_path :: string
  aq_device :: string
  aq_authorization :: string
  aq_query_token :: string
  aq_tenant :: string

record auth_env =
  ae_verify :: "string \<Rightarrow> claims option"
  ae_query_token :: bool
  ae_now :: int
  ae_at :: int
  ae_begin :: bool
  ae_lookup :: bool
  ae_path :: bool

datatype auth_failure =
    TicketRequired | NoTicketStore | TicketRefused ticket_error
  | MissingToken | InvalidToken
  | TicketTenantMismatch | AssumptionForbidden | InvalidTenant | UnknownTenant | AuthInternal

datatype auth_outcome = Rejected auth_failure | Admitted claims string

fun auth_status :: "auth_failure \<Rightarrow> nat" where
  "auth_status TicketRequired = 401"
| "auth_status NoTicketStore = 503"
| "auth_status (TicketRefused e) = (if e = TicketScope then 403 else 401)"
| "auth_status MissingToken = 401"
| "auth_status InvalidToken = 401"
| "auth_status TicketTenantMismatch = 403"
| "auth_status AssumptionForbidden = 403"
| "auth_status InvalidTenant = 400"
| "auth_status UnknownTenant = 403"
| "auth_status AuthInternal = 500"

section \<open>Who is asking\<close>

definition has_suffix :: "string \<Rightarrow> string \<Rightarrow> bool" where
  "has_suffix s p \<longleftrightarrow> suffix p s"

definition is_ssh_socket :: "auth_request \<Rightarrow> bool" where
  "is_ssh_socket req \<longleftrightarrow> equal_fold (aq_upgrade req) ''websocket'' \<and> has_suffix (aq_path req) ''/ssh''"

definition tenantHeaderAllowed :: "claims \<Rightarrow> bool" where
  "tenantHeaderAllowed c \<longleftrightarrow> equal_fold (coalesce (claim_str ''role'' c)) ''SUPERADMIN''"

definition bearer_token :: "bool \<Rightarrow> auth_request \<Rightarrow> string" where
  "bearer_token allow_query req =
     (if has_prefix (aq_authorization req) ''Bearer '' then trim_prefix (aq_authorization req) ''Bearer ''
      else if allow_query then aq_query_token req else [])"

definition ticket_claims :: "ticket \<Rightarrow> claims" where
  "ticket_claims t =
     [''sub'' \<mapsto> JStr (tk_username t), ''role'' \<mapsto> JStr (tk_role t), ''schema_alias'' \<mapsto> JStr (tk_tenant t)]"

text \<open>The claims of the request and, when it was admitted by a ticket, the alias of the ticket.\<close>

definition authenticate ::
  "auth_env \<Rightarrow> auth_request \<Rightarrow> ticket_store option
    \<Rightarrow> (auth_failure + claims \<times> string option) \<times> ticket_store option" where
  "authenticate env req store =
     (let ticketID = trim_space (aq_ticket req) in
      if ticketID \<noteq> [] \<or> is_ssh_socket req then
        (if \<not> is_ssh_socket req \<or> ticketID = [] then (Inl TicketRequired, store)
         else
           (case store of
              None \<Rightarrow> (Inl NoTicketStore, None)
            | Some _ \<Rightarrow>
                (case ConsumeForDevice (ae_now env) (ae_at env) ticketID (aq_device req) store of
                   (Inl e, store') \<Rightarrow> (Inl (TicketRefused e), store')
                 | (Inr t, store') \<Rightarrow> (Inr (ticket_claims t, Some (tk_tenant t)), store'))))
      else
        (let tok = bearer_token (ae_query_token env) req in
         if tok = [] then (Inl MissingToken, store)
         else (case ae_verify env tok of
                 None \<Rightarrow> (Inl InvalidToken, store)
               | Some c \<Rightarrow> (Inr (c, None), store))))"

section \<open>Which tenant\<close>

text \<open>
  \<open>SELECT schema_alias FROM tenants WHERE is_active = true ORDER BY created_at ASC LIMIT 1\<close>; rows of
  the same age are taken in the order of the table.
\<close>

definition default_alias :: "landlord_db \<Rightarrow> string" where
  "default_alias db =
     (case sort_key tn_created (filter tn_active (ld_tenants db)) of [] \<Rightarrow> [] | t # _ \<Rightarrow> tn_alias t)"

definition select_tenant ::
  "claims \<Rightarrow> string option \<Rightarrow> string \<Rightarrow> landlord_db \<Rightarrow> auth_failure + string" where
  "select_tenant c ticket header db =
     (let tenantSchema = trim_space header;
          chosen =
            (case ticket of
               Some alias \<Rightarrow>
                 if tenantSchema \<noteq> []
                    \<and> (case SafeTenantSchema tenantSchema of
                         Inl _ \<Rightarrow> True | Inr candidate \<Rightarrow> \<not> equal_fold candidate (''tenant_'' @ alias))
                 then Inl TicketTenantMismatch else Inr alias
             | None \<Rightarrow>
                 if tenantSchema \<noteq> [] \<and> \<not> tenantHeaderAllowed c
                    \<and> \<not> equal_fold tenantSchema (coalesce (claim_str ''schema_alias'' c))
                 then Inl AssumptionForbidden else Inr tenantSchema)
      in andthen chosen (\<lambda>s1.
           let s2 = (if s1 = [] then trim_space (coalesce (claim_str ''schema_alias'' c)) else s1)
           in Inr (if s2 = [] then default_alias db else s2)))"

text \<open>The whitelist check and the search path of the transaction; the empty schema is \<open>public\<close>.\<close>

definition enter_tenant :: "auth_env \<Rightarrow> string \<Rightarrow> landlord_db \<Rightarrow> auth_failure + string" where
  "enter_tenant env alias db =
     (let full = (if alias = [] then Inr [] else SafeTenantSchema alias) in
      case full of
        Inl _ \<Rightarrow> Inl InvalidTenant
      | Inr schema \<Rightarrow>
          if \<not> ae_begin env then Inl AuthInternal
          else if alias = [] then (if ae_path env then Inr [] else Inl AuthInternal)
          else if \<not> ae_lookup env then Inl AuthInternal
          else if \<not> list_ex (\<lambda>t. tn_alias t = alias \<and> tn_active t) (ld_tenants db) then Inl UnknownTenant
          else if \<not> ae_path env then Inl AuthInternal
          else Inr schema)"

definition WithAuth ::
  "auth_env \<Rightarrow> auth_request \<Rightarrow> landlord_db \<Rightarrow> ticket_store option \<Rightarrow> auth_outcome \<times> ticket_store option" where
  "WithAuth env req db store =
     (case authenticate env req store of
        (Inl e, store') \<Rightarrow> (Rejected e, store')
      | (Inr (c, ticket), store') \<Rightarrow>
          (case andthen (select_tenant c ticket (aq_tenant req) db) (\<lambda>alias. enter_tenant env alias db) of
             Inl e \<Rightarrow> (Rejected e, store')
           | Inr schema \<Rightarrow> (Admitted c schema, store')))"

section \<open>Roles\<close>

definition RequireAdmin :: "claims \<Rightarrow> bool" where
  "RequireAdmin c \<longleftrightarrow>
     (case claim_str ''role'' c of None \<Rightarrow> False
      | Some r \<Rightarrow> go_upper r = ''ADMIN'' \<or> go_upper r = ''SUPERADMIN'')"

definition RequireSuperAdmin :: "claims \<Rightarrow> bool" where
  "RequireSuperAdmin c \<longleftrightarrow> (case claim_str ''role'' c of None \<Rightarrow> False | Some r \<Rightarrow> go_upper r = ''SUPERADMIN'')"

section \<open>Tickets\<close>

datatype ws_ticket_response =
    WtMissing | WtInvalid | WtBadBody | WtNoDevice | WtNoTenant | WtUnknownDevice | WtNoStore
  | WtIssueFailed | WtIssued string ticket

text \<open>
  The request has passed \<open>WithAuth\<close>, \<open>schema\<close> is the schema of its context (empty: none) and
  \<open>device_exists\<close> the result of the query on the devices of that schema.
\<close>

definition IssueWSTicketHandler ::
  "(string \<Rightarrow> claims option) \<Rightarrow> string option \<Rightarrow> int \<Rightarrow> string \<Rightarrow> (string \<Rightarrow> string \<Rightarrow> bool) \<Rightarrow> string \<Rightarrow> raw_message
    \<Rightarrow> ticket_store option \<Rightarrow> ws_ticket_response \<times> ticket_store option" where
  "IssueWSTicketHandler verify rnd now schema device_exists auth body store =
     (if \<not> has_prefix auth ''Bearer '' then (WtMissing, store)
      else
        (case verify (trim_prefix auth ''Bearer '') of
           None \<Rightarrow> (WtInvalid, store)
         | Some c \<Rightarrow>
             (let sub = coalesce (claim_str ''sub'' c);
                  username = (if sub = [] then ''system'' else sub);
                  role = coalesce (claim_str ''role'' c)
              in case Option.bind (Option.bind body go_obj) (go_str ''device_id'') of
                   None \<Rightarrow> (WtBadBody, store)
                 | Some raw \<Rightarrow>
                     (let deviceID = trim_space raw;
                          ident = SafeSchemaIdent (if schema = [] then ''public'' else schema)
                      in if deviceID = [] then (WtNoDevice, store)
                         else if \<not> is_ok ident \<or> ident = Inr ''public'' then (WtNoTenant, store)
                         else if \<not> device_exists schema deviceID then (WtUnknownDevice, store)
                         else
                           (case store of
                              None \<Rightarrow> (WtNoStore, None)
                            | Some _ \<Rightarrow>
                                (case Issue rnd now username role deviceID (trim_prefix schema ''tenant_'') store of
                                   (Inl _, store') \<Rightarrow> (WtIssueFailed, store')
                                 | (Inr (i, t), store') \<Rightarrow> (WtIssued i t, store')))))))"

section \<open>A login stays in its tenant\<close>

lemma alias_text:
  assumes "validAliasRegex a"
  shows "a \<noteq> []" "trim_space a = a" "go_fold a = a"
proof -
  have "list_all (\<lambda>c. is_lower c \<or> is_digit c \<or> c = CHR ''_'') (hd a # tl a)" "a \<noteq> []"
    using assms by (auto simp: validAliasRegex_def)
  then have a: "list_all (\<lambda>c. is_lower c \<or> is_digit c \<or> c = CHR ''_'') a" "a \<noteq> []" by simp_all
  have char: "visible c \<and> is_ascii c \<and> \<not> is_upper c" if "is_lower c \<or> is_digit c \<or> c = CHR ''_''" for c
    using that alnum_visible [of c] alnum_ascii [of c]
    by (auto simp: is_alnum_def visible_def is_ascii_def is_upper_def is_lower_def is_digit_def less_eq_char_def)
  show "a \<noteq> []" by (rule a)
  show "trim_space a = a" using a char by (intro trim_all_visible) (auto simp: list_all_iff)
  show "go_fold a = a" using a char by (intro go_fold_no_upper) (auto simp: list_all_iff)
qed

lemma tenant_alias_valid: "landlord_wf db \<Longrightarrow> t \<in> set (ld_tenants db) \<Longrightarrow> validAliasRegex (tn_alias t)"
  by (simp add: landlord_wf_def tenants_wf_def list_all_iff)

lemma enter_tenant_Inr:
  "enter_tenant env a db = Inr schema \<Longrightarrow> a \<noteq> [] \<Longrightarrow>
     schema = ''tenant_'' @ a \<and> (\<exists>t \<in> set (ld_tenants db). tn_alias t = a \<and> tn_active t)"
  by (auto simp: enter_tenant_def SafeTenantSchema_def list_ex_iff Let_def split: if_splits sum.splits)

lemma login_token:
  assumes "LoginHandler bcrypt_ok sign timeout now at meth body db = LrToken tok name role alias"
  obtains u kvs password c where "u \<in> set (ld_users db)" "us_name u = name" "us_role u = Some role"
    "Option.bind body go_obj = Some kvs" "go_str ''username'' kvs = Some name" "go_str ''password'' kvs = Some password"
    "bcrypt_ok (us_hash u) password" "login_claims now at u name role db = (c, alias)" "sign c = Some tok"
  using assms
  by (auto simp: LoginHandler_def find_Some_iff split: option.splits if_splits prod.splits dest: nth_mem)

lemma login_claims_fields:
  assumes "login_claims now at u name role db = (c, alias)"
  shows "claim_str ''sub'' c = Some name" "claim_str ''role'' c = Some role"
    "claim_str ''schema_alias'' c = (if alias = [] then None else Some alias)"
    "alias \<noteq> [] \<Longrightarrow> \<exists>t \<in> set (ld_tenants db). tn_alias t = alias \<and> tn_active t \<and> us_tenant u = Some (tn_id t)"
  using assms
  by (auto simp: login_claims_def Let_def claim_str_def find_Some_iff split: option.splits if_splits dest: nth_mem)

lemma select_tenant_bearer:
  assumes "select_tenant c None header db = Inr a" "\<not> tenantHeaderAllowed c"
    "claim_str ''schema_alias'' c = Some sa" "trim_space sa = sa" "sa \<noteq> []"
  shows "equal_fold a sa \<and> a \<noteq> []"
  using assms
  by (auto simp: select_tenant_def Let_def coalesce_def split: if_splits)


section \<open>Sessions on devices\<close>

lemma ConsumeForDevice_Inr:
  assumes "ConsumeForDevice now at i d (Some s) = (Inr t', store')"
  obtains t where "ts_tickets s i = Some t" "\<not> tk_consumed t" "now \<le> tk_expires t" "tk_device t = d" "d \<noteq> []"
    "tk_tenant t \<noteq> []" "t' = t\<lparr>tk_consumed := True, tk_consumed_at := Some at\<rparr>"
    "store' = Some (s\<lparr>ts_tickets := (ts_tickets s)(i \<mapsto> t')\<rparr>)"
  using assms consume_outcome [of now at i d True s] unfolding ConsumeForDevice_def by auto

lemma select_tenant_ticket:
  "select_tenant c (Some alias) header db = Inr a \<Longrightarrow> alias \<noteq> [] \<Longrightarrow> a = alias"
  by (auto simp: select_tenant_def Let_def andthen_Inr_iff split: if_splits)

text \<open>
  A WebSocket on a device is opened by a ticket only, never by a bearer token: the ticket is one the
  store holds for this very device, unexpired and unused; the session acts with the ticket's user, role
  and tenant; and the ticket is spent afterwards, so the same handshake is refused from then on.
\<close>

theorem ssh_requires_ticket:
  assumes "is_ssh_socket req" "WithAuth env req db (Some s) = (Admitted c schema, store')"
  shows "\<exists>t t' s'. ts_tickets s (trim_space (aq_ticket req)) = Some t \<and> \<not> tk_consumed t \<and> ae_now env \<le> tk_expires t
     \<and> tk_device t = aq_device req \<and> c = ticket_claims t \<and> schema = ''tenant_'' @ tk_tenant t
     \<and> store' = Some s' \<and> ts_tickets s' (trim_space (aq_ticket req)) = Some t' \<and> tk_consumed t'
     \<and> (\<forall>env2 req2 db2. is_ssh_socket req2 \<longrightarrow> trim_space (aq_ticket req2) = trim_space (aq_ticket req) \<longrightarrow>
          WithAuth env2 req2 db2 (Some s') = (Rejected (TicketRefused TicketReused), Some s'))"
proof -
  let ?i = "trim_space (aq_ticket req)"
  obtain t1 where used: "?i \<noteq> []" "ConsumeForDevice (ae_now env) (ae_at env) ?i (aq_device req) (Some s) = (Inr t1, store')"
    and c: "c = ticket_claims t1"
    and tenant: "\<exists>a. select_tenant c (Some (tk_tenant t1)) (aq_tenant req) db = Inr a \<and> enter_tenant env a db = Inr schema"
    using assms
    by (auto simp: WithAuth_def authenticate_def Let_def andthen_Inr_iff split: if_splits sum.splits prod.splits)
  from used(2) obtain t where t: "ts_tickets s ?i = Some t" "\<not> tk_consumed t" "ae_now env \<le> tk_expires t"
    "tk_device t = aq_device req" "tk_tenant t \<noteq> []"
    and t1: "t1 = t\<lparr>tk_consumed := True, tk_consumed_at := Some (ae_at env)\<rparr>"
    and store': "store' = Some (s\<lparr>ts_tickets := (ts_tickets s)(?i \<mapsto> t1)\<rparr>)"
    by (rule ConsumeForDevice_Inr)
  let ?s = "s\<lparr>ts_tickets := (ts_tickets s)(?i \<mapsto> t1)\<rparr>"
  have "c = ticket_claims t" using c t1 by (simp add: ticket_claims_def)
  moreover have "schema = ''tenant_'' @ tk_tenant t"
    using tenant select_tenant_ticket [of c "tk_tenant t1" "aq_tenant req" db] enter_tenant_Inr t(5) t1 by fastforce
  moreover have "WithAuth env2 req2 db2 (Some ?s) = (Rejected (TicketRefused TicketReused), Some ?s)"
    if "is_ssh_socket req2" "trim_space (aq_ticket req2) = ?i" for env2 req2 db2
    using that used(1) t1
    by (simp add: WithAuth_def authenticate_def Let_def ConsumeForDevice_def consume_def check_ticket_def)
  ultimately show ?thesis using t t1 store' by force
qed

lemma admitted_schema:
  assumes "WithAuth env req db store = (Admitted c schema, store')" "schema \<noteq> []"
  shows "\<exists>t \<in> set (ld_tenants db). schema = ''tenant_'' @ tn_alias t \<and> tn_active t"
proof -
  obtain a where a: "enter_tenant env a db = Inr schema"
    using assms(1) by (auto simp: WithAuth_def andthen_Inr_iff split: sum.splits prod.splits)
  then have "a \<noteq> []" using assms(2) by (auto simp: enter_tenant_def Let_def split: if_splits)
  with enter_tenant_Inr [OF a] show ?thesis by blast
qed

lemma ws_ticket_issued:
  assumes "IssueWSTicketHandler verify (Some r) now schema device_exists auth body (Some s0) = (WtIssued i t, store1)"
    "ts_ttl s0 \<ge> 0"
  shows "i = hex_encode r" "tk_tenant t = trim_prefix schema ''tenant_''" "tk_device t \<noteq> []" "\<not> tk_consumed t"
    "tk_expires t = now + ts_ttl s0" "\<exists>s1. store1 = Some s1 \<and> ts_tickets s1 i = Some t"
  using assms
  by (auto simp: IssueWSTicketHandler_def Issue_def newTicketID_def gcLocked_def Let_def
      split: if_splits option.splits)

lemma select_ticket_default: "trim_space header = [] \<Longrightarrow> a \<noteq> [] \<Longrightarrow> select_tenant c (Some a) header db = Inr a"
  by (simp add: select_tenant_def)

lemma enter_active_tenant:
  assumes "landlord_wf db" "t \<in> set (ld_tenants db)" "tn_active t" "ae_begin env" "ae_lookup env" "ae_path env"
  shows "enter_tenant env (tn_alias t) db = Inr (''tenant_'' @ tn_alias t)"
  using assms alias_schema [OF tenant_alias_valid [OF assms(1,2)]] alias_text(1) [OF tenant_alias_valid [OF assms(1,2)]]
  by (auto simp: enter_tenant_def list_ex_iff)

text \<open>
  The ticket the controller issues to an admitted user opens, before it expires, a session on the
  named device in the same tenant and under the same name and role.
\<close>

theorem ws_ticket_roundtrip:
  assumes "landlord_wf db" "WithAuth env req db store = (Admitted c schema, Some s0)" "schema \<noteq> []"
    and issued: "IssueWSTicketHandler verify (Some r) now schema device_exists auth body (Some s0) = (WtIssued i t, store1)"
    and "r \<noteq> []" "now \<le> ae_now env2" "ae_now env2 \<le> now + ts_ttl s0"
    and "is_ssh_socket req2" "aq_ticket req2 = i" "aq_device req2 = tk_device t" "trim_space (aq_tenant req2) = []"
    and "ae_begin env2" "ae_lookup env2" "ae_path env2"
  shows "\<exists>store2. WithAuth env2 req2 db store1 = (Admitted (ticket_claims t) schema, store2)"
proof -
  from admitted_schema [OF assms(2,3)] obtain n where n: "n \<in> set (ld_tenants db)" "tn_active n"
    "schema = ''tenant_'' @ tn_alias n" by blast
  have ttl: "ts_ttl s0 \<ge> 0" using assms(6,7) by simp
  note t = ws_ticket_issued [OF issued ttl]
  from t(6) obtain s1 where s1: "store1 = Some s1" "ts_tickets s1 i = Some t" by blast
  have tenant: "tk_tenant t = tn_alias n"
    using t(2) n(3) by (simp add: trim_prefix_def has_prefix_iff)
  have "list_all visible i"
    using t(1) hex_encode_alphabet [of _ r] hex_visible by (simp add: list_all_iff)
  then have "trim_space i = i" by (rule trim_all_visible)
  moreover have "i \<noteq> []" using t(1) assms(5) by (cases r) simp_all
  moreover have "tn_alias n \<noteq> []" using alias_text(1) tenant_alias_valid [OF assms(1) n(1)] by blast
  ultimately show ?thesis
    using assms(6-14) t s1 tenant enter_active_tenant [OF assms(1) n(1,2), of env2] n(3)
    by (simp add: WithAuth_def authenticate_def Let_def ConsumeForDevice_def consume_def check_ticket_def
        select_ticket_default ticket_claims_def)
qed

section \<open>Accounts and tenants\<close>

text \<open>A route of \<open>routes.go\<close> of the form \<open>WithAuth (RequireAdmin (handler))\<close> on the landlord's tables.\<close>

definition admin_route ::
  "auth_env \<Rightarrow> auth_request \<Rightarrow> (landlord_db \<Rightarrow> 'r \<times> landlord_db) \<Rightarrow> landlord_db \<Rightarrow> ticket_store option
    \<Rightarrow> (nat + 'r) \<times> landlord_db \<times> ticket_store option" where
  "admin_route env req handler db store =
     (case WithAuth env req db store of
        (Rejected e, store') \<Rightarrow> (Inl (auth_status e), db, store')
      | (Admitted c schema, store') \<Rightarrow>
          if \<not> RequireAdmin c then (Inl 403, db, store')
          else (let (r, db') = handler db in (Inr r, db', store')))"

definition password_body :: "string \<Rightarrow> raw_message" where
  "password_body p = Some (JObj [(''password'', JStr p)])"

definition login_body :: "string \<Rightarrow> string \<Rightarrow> raw_message" where
  "login_body n p = Some (JObj [(''username'', JStr n), (''password'', JStr p)])"

lemma body_fields:
  "go_str ''password'' [(''password'', JStr p)] = Some p"
  "go_str ''username'' [(''username'', JStr n), (''password'', JStr p)] = Some n"
  "go_str ''password'' [(''username'', JStr n), (''password'', JStr p)] = Some p"
proof -
  have "go_fold ''username'' \<noteq> go_fold ''password''" "go_fold ''password'' \<noteq> go_fold ''username''" by code_simp+
  then show "go_str ''password'' [(''password'', JStr p)] = Some p"
    "go_str ''username'' [(''username'', JStr n), (''password'', JStr p)] = Some n"
    "go_str ''password'' [(''username'', JStr n), (''password'', JStr p)] = Some p"
    by (simp_all add: go_str_def go_entries_def del: go_fold.simps)
qed

lemma find_user_name:
  "landlord_wf db \<Longrightarrow> u \<in> set (ld_users db) \<Longrightarrow> find (\<lambda>x. us_name x = us_name u) (ld_users db) = Some u"
  unfolding landlord_wf_def users_wf_def
  by (auto simp: find_Some_iff in_set_conv_nth distinct_conv_nth)

text \<open>
  The routes of the users ask for the role ADMIN only and look at no tenant: whoever passes as the
  ADMIN of any tenant sets the password of the SUPERADMIN, and with the token of the login that follows
  passes \<open>RequireSuperAdmin\<close> and may assume every tenant.
\<close>

theorem admin_takes_over:
  assumes "landlord_wf db" "u \<in> set (ld_users db)" "us_role u = Some ''SUPERADMIN''"
    and "uuid_in i = Some (us_id u)" "i \<noteq> []"
    and "bcrypt_gen p = Some h" "varchar 255 h = Some h" "bcrypt_ok h p"
    and "login_claims t1 t2 u (us_name u) ''SUPERADMIN'' db = (c', alias)"
    and "sign c' = Some tok" "ae_verify env tok = Some c'"
    and "WithAuth env req db store = (Admitted c schema, store')" "claim_str ''role'' c = Some ''ADMIN''"
  shows "\<exists>db'.
      admin_route env req (UpdateUserPasswordHandler uuid_in bcrypt_gen ''PUT'' i (password_body p)) db store
        = (Inr UrOk, db', store')
    \<and> LoginHandler bcrypt_ok sign False t1 t2 ''POST'' (login_body (us_name u) p) db'
        = LrToken tok (us_name u) ''SUPERADMIN'' alias
    \<and> RequireSuperAdmin c' \<and> tenantHeaderAllowed c'"
proof -
  let ?db = "map_users (us_id u) (\<lambda>x. x\<lparr>us_hash := h\<rparr>) db"
  let ?u = "u\<lparr>us_hash := h\<rparr>"
  have upper: "go_upper ''ADMIN'' = ''ADMIN''" "go_upper ''SUPERADMIN'' = ''SUPERADMIN''" by code_simp+
  have route: "admin_route env req (UpdateUserPasswordHandler uuid_in bcrypt_gen ''PUT'' i (password_body p)) db store
      = (Inr UrOk, ?db, store')"
    using assms(4-7,12,13) upper
    by (simp add: admin_route_def RequireAdmin_def UpdateUserPasswordHandler_def password_body_def go_obj_def body_fields)
  have "landlord_step (SetPassword uuid_in bcrypt_gen ''PUT'' i (password_body p)) db = ?db"
    using assms(4-7) by (simp add: UpdateUserPasswordHandler_def password_body_def go_obj_def body_fields)
  then have "landlord_wf ?db" using landlord_step_wf [OF assms(1)] by metis
  moreover have "?u \<in> set (ld_users ?db)" using assms(2) by (force simp: map_users_def)
  ultimately have found: "find (\<lambda>x. us_name x = us_name u) (ld_users ?db) = Some ?u"
    using find_user_name [of ?db ?u] by simp
  have "login_claims t1 t2 ?u (us_name u) ''SUPERADMIN'' ?db = (c', alias)"
    using assms(9) by (simp add: login_claims_def map_users_def cong: option.case_cong)
  then have "LoginHandler bcrypt_ok sign False t1 t2 ''POST'' (login_body (us_name u) p) ?db
      = LrToken tok (us_name u) ''SUPERADMIN'' alias"
    using assms(3,8,10) found by (simp add: LoginHandler_def login_body_def go_obj_def body_fields)
  moreover have "RequireSuperAdmin c'" "tenantHeaderAllowed c'"
    using login_claims_fields(2) [OF assms(9)] upper by (simp_all add: RequireSuperAdmin_def tenantHeaderAllowed_def)
  ultimately show ?thesis using route by blast
qed

lemma CreateUserHandler_created:
  assumes "CreateUserHandler gen newID now meth body db = (UrCreated, db')"
  shows "\<exists>u. db' = add_user u db \<and> us_tenant u = None \<and> (\<exists>role \<in> set user_roles. us_role u = Some role)"
proof -
  have "db' \<noteq> db"
    using assms unfolding CreateUserHandler_def Let_def
    by (auto simp: add_user_def split: option.splits if_splits dest: arg_cong [of _ _ ld_users])
  from CreateUserHandler_outcome [OF assms this] show ?thesis by blast
qed

lemma default_alias_active:
  "default_alias db \<noteq> [] \<Longrightarrow> \<exists>t \<in> set (ld_tenants db). tn_active t \<and> default_alias db = tn_alias t"
proof -
  assume d: "default_alias db \<noteq> []"
  then obtain t ts where s: "sort_key tn_created (filter tn_active (ld_tenants db)) = t # ts"
    by (auto simp: default_alias_def split: list.splits)
  then have "t \<in> set (filter tn_active (ld_tenants db))" by (metis list.set_intros(1) set_sort)
  with s show ?thesis by (auto simp: default_alias_def)
qed

text \<open>
  \<open>CreateUserHandler\<close> binds no tenant to the account, so an account made by the ADMIN of a tenant
  signs in without an alias: without a header its requests work in the oldest active tenant, whichever
  that is, and with the header of any tenant, its creator's included, they are refused.
\<close>

theorem created_account_unbound:
  assumes "landlord_wf db" "CreateUserHandler gen newID now meth body db = (UrCreated, db')"
    and "LoginHandler bcrypt_ok sign timeout t1 t2 meth2 body2 db' = LrToken tok (us_name (last (ld_users db'))) role alias"
    and "\<forall>c. sign c = Some tok \<longrightarrow> ae_verify env tok = Some c" "tok \<noteq> []"
    and "trim_space (aq_ticket req) = []" "\<not> is_ssh_socket req" "bearer_token (ae_query_token env) req = tok"
    and "ae_begin env" "ae_lookup env" "ae_path env"
  shows "alias = [] \<and>
     (if trim_space (aq_tenant req) = []
      then \<exists>c. WithAuth env req db' store =
             (Admitted c (if default_alias db' = [] then [] else ''tenant_'' @ default_alias db'), store)
      else WithAuth env req db' store = (Rejected AssumptionForbidden, store))"
proof -
  from CreateUserHandler_created [OF assms(2)] obtain u where u: "db' = add_user u db" "us_tenant u = None"
    and role: "\<exists>role \<in> set user_roles. us_role u = Some role" by blast
  have wf: "landlord_wf db'"
    using landlord_step_wf [OF assms(1), of "CreateUser gen newID now meth body"] assms(2) by simp
  have last: "last (ld_users db') = u" "u \<in> set (ld_users db')" using u(1) by (simp_all add: add_user_def)
  from assms(3) obtain u1 c where u1: "u1 \<in> set (ld_users db')" "us_name u1 = us_name u" "us_role u1 = Some role"
    and c: "login_claims t1 t2 u1 (us_name u) role db' = (c, alias)" "sign c = Some tok"
    unfolding last by (rule login_token)
  have "u1 = u"
    using find_user_name [OF wf u1(1)] find_user_name [OF wf last(2)] unfolding u1(2) by (metis option.inject)
  with u1(3) role have noSuper: "role = ''ADMIN'' \<or> role = ''OPERATOR'' \<or> role = ''VIEWER''" by auto
  note fields = login_claims_fields [OF c(1)]
  have none: "alias = []" using fields(4) u(2) \<open>u1 = u\<close> by auto
  have "\<not> equal_fold ''ADMIN'' ''SUPERADMIN''" "\<not> equal_fold ''OPERATOR'' ''SUPERADMIN''" "\<not> equal_fold ''VIEWER'' ''SUPERADMIN''"
    by code_simp+
  then have noHeader: "\<not> tenantHeaderAllowed c"
    using fields(2) noSuper by (auto simp: tenantHeaderAllowed_def)
  have "go_fold x = [] \<longleftrightarrow> x = []" for x
    by (cases x) (auto split: list.split)
  then have blank: "equal_fold x [] \<longleftrightarrow> x = []" "trim_space [] = []" for x
    using trim_all_visible [of "[]"] by (auto simp: equal_fold_def)
  have auth: "authenticate env req store = (Inr (c, None), store)"
    using assms(4-8) c(2) by (simp add: authenticate_def)
  have chosen: "select_tenant c None (aq_tenant req) db'
      = (if trim_space (aq_tenant req) = [] then Inr (default_alias db') else Inl AssumptionForbidden)"
    using fields(3) none noHeader blank by (simp add: select_tenant_def)
  have "enter_tenant env (default_alias db') db'
      = Inr (if default_alias db' = [] then [] else ''tenant_'' @ default_alias db')"
  proof (cases "default_alias db' = []")
    case True
    with assms(9-11) show ?thesis by (simp add: enter_tenant_def)
  next
    case False
    then obtain t where "t \<in> set (ld_tenants db')" "tn_active t" "default_alias db' = tn_alias t"
      using default_alias_active by blast
    with enter_active_tenant [OF wf this(1,2) assms(9-11)] False show ?thesis by simp
  qed
  with auth chosen none show ?thesis by (simp add: WithAuth_def)
qed

section \<open>Samples\<close>

definition sample_claims :: claims where
  "sample_claims = fst (login_claims 10 10 (last (ld_users sample_landlord)) ''alice'' ''ADMIN'' sample_landlord)"

definition super_claims :: claims where
  "super_claims = fst (login_claims 10 10 (hd (ld_users sample_landlord)) ''admin'' ''SUPERADMIN'' sample_landlord)"

definition sample_sign :: "claims \<Rightarrow> string option" where
  "sample_sign c = (if c = sample_claims then Some ''jwt'' else None)"

definition sample_verify :: "string \<Rightarrow> claims option" where
  "sample_verify t = (if t = ''jwt'' then Some sample_claims else if t = ''root'' then Some super_claims else None)"

definition sample_auth_env :: auth_env where
  "sample_auth_env = \<lparr>ae_verify = sample_verify, ae_query_token = False, ae_now = 20, ae_at = 20,
                      ae_begin = True, ae_lookup = True, ae_path = True\<rparr>"

definition sample_auth_request :: auth_request where
  "sample_auth_request = \<lparr>aq_ticket = [], aq_upgrade = [], aq_path = ''/api/users'', aq_device = [],
                          aq_authorization = ''Bearer jwt'', aq_query_token = [], aq_tenant = []\<rparr>"

lemma sample_login_claims:
  "login_claims 10 10 (last (ld_users sample_landlord)) ''alice'' ''ADMIN'' sample_landlord = (sample_claims, ''acme'')"
  "login_claims 10 10 (hd (ld_users sample_landlord)) ''admin'' ''SUPERADMIN'' sample_landlord = (super_claims, [])"
  unfolding sample_claims_def super_claims_def
  by (simp_all add: login_claims_def sample_landlord_def)

lemmas sample_claim_fields =
  login_claims_fields [OF sample_login_claims(1)] login_claims_fields [OF sample_login_claims(2)]

lemma sample_login:
  "LoginHandler (\<lambda>h p. h = p) sample_sign False 10 10 ''POST'' (login_body ''alice'' ''h1'') sample_landlord
     = LrToken ''jwt'' ''alice'' ''ADMIN'' ''acme''"
proof -
  have "find (\<lambda>u. us_name u = ''alice'') (ld_users sample_landlord) = Some (last (ld_users sample_landlord))"
    "us_role (last (ld_users sample_landlord)) = Some ''ADMIN''" "us_hash (last (ld_users sample_landlord)) = ''h1''"
    by (simp_all add: sample_landlord_def)
  then show ?thesis
    by (simp add: LoginHandler_def login_body_def go_obj_def body_fields sample_login_claims(1) sample_sign_def)
qed

lemma sample_request_facts:
  "trim_space (aq_ticket sample_auth_request) = []" "\<not> is_ssh_socket sample_auth_request"
  "bearer_token False sample_auth_request = ''jwt''" "trim_space (aq_tenant sample_auth_request) = []"
  "trim_space ''acme'' = ''acme''"
  by code_simp+

lemma sample_admitted:
  "WithAuth sample_auth_env sample_auth_request sample_landlord store = (Admitted sample_claims ''tenant_acme'', store)"
proof -
  have "select_tenant sample_claims None (aq_tenant sample_auth_request) sample_landlord = Inr ''acme''"
    using sample_claim_fields sample_request_facts by (simp add: select_tenant_def)
  moreover have "enter_tenant sample_auth_env ''acme'' sample_landlord = Inr ''tenant_acme''"
    using enter_active_tenant [OF sample_landlord_wf(1), of "hd (ld_tenants sample_landlord)" sample_auth_env]
    by (simp add: sample_landlord_def sample_auth_env_def)
  ultimately show ?thesis
    using sample_request_facts
    by (simp add: WithAuth_def authenticate_def sample_auth_env_def sample_verify_def Let_def)
qed


theorem admin_takes_over_witness:
  "\<exists>db'. admin_route sample_auth_env sample_auth_request
      (UpdateUserPasswordHandler Some Some ''PUT'' ''u-0'' (password_body ''pw'')) sample_landlord None = (Inr UrOk, db', None)
    \<and> LoginHandler (\<lambda>h p. h = p) (\<lambda>_. Some ''root'') False 10 10 ''POST'' (login_body ''admin'' ''pw'') db'
        = LrToken ''root'' ''admin'' ''SUPERADMIN'' []"
proof -
  let ?u = "hd (ld_users sample_landlord)"
  have u: "?u \<in> set (ld_users sample_landlord)" "us_role ?u = Some ''SUPERADMIN''" "us_name ?u = ''admin''" "us_id ?u = ''u-0''"
    "varchar 255 ''pw'' = Some ''pw''" "ae_verify sample_auth_env ''root'' = Some super_claims"
    by (simp_all add: sample_landlord_def varchar_def rune_start_def sample_auth_env_def sample_verify_def)
  show ?thesis
    using admin_takes_over [OF sample_landlord_wf(1) u(1,2), of Some "''u-0''" Some "''pw''" "''pw''" "(=)" 10 10
        super_claims "[]" "\<lambda>_. Some ''root''" "''root''" sample_auth_env sample_auth_request None sample_claims "''tenant_acme''" None]
      sample_login_claims(2) sample_admitted [of None] sample_claim_fields(2) u
    by auto
qed

definition sample_ticket_row :: ticket where
  "sample_ticket_row = \<lparr>tk_username = ''alice'', tk_role = ''ADMIN'', tk_device = ''dev-1'', tk_tenant = ''acme'',
     tk_issued = 15, tk_expires = 30000000015, tk_consumed = False, tk_consumed_at = None\<rparr>"

definition sample_socket_request :: auth_request where
  "sample_socket_request = \<lparr>aq_ticket = ''6161'', aq_upgrade = ''websocket'', aq_path = ''/api/devices/dev-1/ssh'',
     aq_device = ''dev-1'', aq_authorization = [], aq_query_token = [], aq_tenant = []\<rparr>"

lemma sample_issue:
  "IssueWSTicketHandler sample_verify (Some ''aa'') 15 ''tenant_acme'' (\<lambda>_ _. True) ''Bearer jwt''
      (Some (JObj [(''device_id'', JStr ''dev-1'')])) (Some (LoadStore 0))
    = (WtIssued ''6161'' sample_ticket_row, Some (LoadStore 0\<lparr>ts_tickets := [''6161'' \<mapsto> sample_ticket_row]\<rparr>))"
proof -
  have "has_prefix ''Bearer jwt'' ''Bearer ''" "trim_prefix ''Bearer jwt'' ''Bearer '' = ''jwt''"
    "go_str ''device_id'' [(''device_id'', JStr ''dev-1'')] = Some ''dev-1''" "trim_space ''dev-1'' = ''dev-1''"
    "SafeSchemaIdent ''tenant_acme'' = Inr ''tenant_acme''" "trim_prefix ''tenant_acme'' ''tenant_'' = ''acme''"
    by code_simp+
  moreover have "hex_encode ''aa'' = ''6161''" by code_simp
  then have "Issue (Some ''aa'') 15 ''alice'' ''ADMIN'' ''dev-1'' ''acme'' (Some (LoadStore 0))
      = (Inr (''6161'', sample_ticket_row), Some (LoadStore 0\<lparr>ts_tickets := [''6161'' \<mapsto> sample_ticket_row]\<rparr>))"
    by (simp add: Issue_def newTicketID_def gcLocked_def Let_def LoadStore_def DefaultTicketTTL_def sample_ticket_row_def
        fun_eq_iff del: hex_encode_Cons)
  ultimately show ?thesis
    using sample_claim_fields by (simp add: IssueWSTicketHandler_def sample_verify_def go_obj_def LoadStore_def)
qed

lemma sample_socket_facts:
  "is_ssh_socket sample_socket_request" "trim_space (aq_tenant sample_socket_request) = []"
  "trim_space (aq_ticket sample_socket_request) = ''6161''"
  by code_simp+

theorem ws_ticket_roundtrip_witness:
  "\<exists>store2. WithAuth sample_auth_env sample_socket_request sample_landlord
      (Some (LoadStore 0\<lparr>ts_tickets := [''6161'' \<mapsto> sample_ticket_row]\<rparr>))
    = (Admitted (ticket_claims sample_ticket_row) ''tenant_acme'', store2)"
  using ws_ticket_roundtrip [OF sample_landlord_wf(1) sample_admitted [of "Some (LoadStore 0)"] _ sample_issue,
      of sample_auth_env sample_socket_request] sample_socket_facts
  by (simp add: sample_auth_env_def LoadStore_def DefaultTicketTTL_def sample_ticket_row_def sample_socket_request_def)

lemma sample_socket_admitted:
  "\<exists>store2. WithAuth sample_auth_env sample_socket_request sample_landlord
      (Some (LoadStore 0\<lparr>ts_tickets := [''6161'' \<mapsto> sample_ticket_row]\<rparr>))
    = (Admitted (ticket_claims sample_ticket_row) ''tenant_acme'', store2)"
proof -
  have "enter_tenant sample_auth_env ''acme'' sample_landlord = Inr ''tenant_acme''"
    using enter_active_tenant [OF sample_landlord_wf(1), of "hd (ld_tenants sample_landlord)" sample_auth_env]
    by (simp add: sample_landlord_def sample_auth_env_def)
  then show ?thesis
    using sample_socket_facts
    by (simp add: WithAuth_def authenticate_def Let_def ConsumeForDevice_def consume_def check_ticket_def select_ticket_default
        ticket_claims_def sample_auth_env_def sample_ticket_row_def sample_socket_request_def)
qed

theorem ssh_requires_ticket_witness:
  "\<exists>s'. \<forall>env2 req2 db2. is_ssh_socket req2 \<longrightarrow> trim_space (aq_ticket req2) = ''6161'' \<longrightarrow>
      WithAuth env2 req2 db2 (Some s') = (Rejected (TicketRefused TicketReused), Some s')"
proof -
  from sample_socket_admitted obtain store2 where "WithAuth sample_auth_env sample_socket_request sample_landlord
      (Some (LoadStore 0\<lparr>ts_tickets := [''6161'' \<mapsto> sample_ticket_row]\<rparr>))
    = (Admitted (ticket_claims sample_ticket_row) ''tenant_acme'', store2)" by blast
  from ssh_requires_ticket [OF sample_socket_facts(1) this] show ?thesis
    unfolding sample_socket_facts(3) by blast
qed

definition fresh_db :: landlord_db where
  "fresh_db = snd (CreateUserHandler Some ''u-2'' 3 ''POST''
     (Some (JObj [(''username'', JStr ''bob''), (''password'', JStr ''pw''), (''role'', JStr ''operator'')])) sample_landlord)"

lemma fresh_user:
  "CreateUserHandler Some ''u-2'' 3 ''POST''
     (Some (JObj [(''username'', JStr ''bob''), (''password'', JStr ''pw''), (''role'', JStr ''operator'')])) sample_landlord
   = (UrCreated, fresh_db)"
  "ld_users fresh_db = ld_users sample_landlord @ [\<lparr>us_id = ''u-2'', us_name = ''bob'', us_hash = ''pw'',
      us_role = Some ''OPERATOR'', us_tenant = None, us_created = 3\<rparr>]"
  by code_simp+

definition fresh_claims :: claims where
  "fresh_claims = fst (login_claims 10 10 (last (ld_users fresh_db)) ''bob'' ''OPERATOR'' fresh_db)"

lemma fresh_login:
  "LoginHandler (=) (\<lambda>c. if c = fresh_claims then Some ''jwt'' else None) False 10 10 ''POST'' (login_body ''bob'' ''pw'') fresh_db
     = LrToken ''jwt'' (us_name (last (ld_users fresh_db))) ''OPERATOR'' []"
proof -
  have "find (\<lambda>u. us_name u = ''bob'') (ld_users fresh_db) = Some (last (ld_users fresh_db))"
    "us_role (last (ld_users fresh_db)) = Some ''OPERATOR''" "us_hash (last (ld_users fresh_db)) = ''pw''"
    "us_name (last (ld_users fresh_db)) = ''bob''" "us_tenant (last (ld_users fresh_db)) = None"
    by (simp_all add: fresh_user(2) sample_landlord_def)
  moreover from this have "login_claims 10 10 (last (ld_users fresh_db)) ''bob'' ''OPERATOR'' fresh_db = (fresh_claims, [])"
    by (simp add: fresh_claims_def login_claims_def)
  ultimately show ?thesis
    by (simp add: LoginHandler_def login_body_def go_obj_def body_fields)
qed

theorem created_account_unbound_witness:
  "\<exists>c. WithAuth (sample_auth_env\<lparr>ae_verify := \<lambda>t. Some fresh_claims\<rparr>) sample_auth_request fresh_db None
     = (Admitted c ''tenant_acme'', None)"
proof -
  have "default_alias fresh_db = ''acme''" by code_simp
  then show ?thesis
    using created_account_unbound [OF sample_landlord_wf(1) fresh_user(1) fresh_login, of "sample_auth_env\<lparr>ae_verify := \<lambda>t. Some fresh_claims\<rparr>"
        sample_auth_request None] sample_request_facts
    by (simp add: sample_auth_env_def)
qed

end
