(* ===== verification/Enrollment.thy ===== *)
theory Enrollment
  imports Landlord Sha256
begin

text \<open>
  First contact of a device: the enrollment tokens of the sites and the enrollment itself
  (\<open>src/internal/database/enrollment.go\<close>, \<open>src/internal/api/handlers/enrollment.go\<close>), the adoption and
  migration by an operator (\<open>src/internal/api/handlers/adoption.go\<close>), and the search for the tenant of a
  device credential (\<open>GetTenantSchemaForDeviceToken\<close>, \<open>GetTenantSchemaForSiteKey\<close> of
  \<open>src/internal/database/postgres.go\<close>).

  The columns of \<open>devices\<close> the queues use are those of \<open>tenant_db\<close>; the token and the status of a device
  are rows beside them. Each function runs in one transaction, so it either
  changes all its tables or none. The random bytes and the clock (microseconds) are arguments.
\<close>

section \<open>Tables\<close>

record site_row =
  sr_id :: string
  sr_api_key :: "string option"
  sr_auto_adopt :: "bool option"
  sr_token_hash :: "string option"
  sr_token_expires :: "int option"
  sr_updated :: int

record nonce_row =
  nr_site :: string
  nr_hash :: string
  nr_device :: string
  nr_expires :: int

text \<open>The columns \<open>device_token\<close> and \<open>status\<close> of a row of \<open>devices\<close>.\<close>

record cred_row =
  cd_device :: string
  cd_token :: "string option"
  cd_status :: "string option"

record enroll_db =
  en_tenant :: tenant_db
  en_sites :: "site_row list"
  en_creds :: "cred_row list"
  en_nonces :: "nonce_row list"

datatype enroll_error =
    EnSchema | EnDb | EnTtl | EnEntropy
  | EnTokenNotFound | EnSiteNotFound | EnDisabled | EnNonceConflict | EnAlreadyEnrolled
  | EnAmbiguous | EnIncomplete | EnRecord

definition DeviceEnrollmentTokenTTL :: int where
  "DeviceEnrollmentTokenTTL = 24 * 3600 * 1000000"

definition HashDeviceEnrollmentToken :: "string \<Rightarrow> string" where
  "HashDeviceEnrollmentToken token = sha256_hex token"

definition hashEnrollmentNonce :: "string \<Rightarrow> string" where
  "hashEnrollmentNonce nonce = sha256_hex nonce"

definition randomEnrollmentToken :: "string option \<Rightarrow> string option" where
  "randomEnrollmentToken rnd = map_option hex_encode rnd"

section \<open>Tokens of a site\<close>

definition update_site :: "string \<Rightarrow> (site_row \<Rightarrow> site_row) \<Rightarrow> enroll_db \<Rightarrow> enroll_db" where
  "update_site i f db = db\<lparr>en_sites := map (\<lambda>s. if sr_id s = i then f s else s) (en_sites db)\<rparr>"

definition find_site :: "string \<Rightarrow> enroll_db \<Rightarrow> site_row option" where
  "find_site i db = find (\<lambda>s. sr_id s = i) (en_sites db)"

text \<open>\<open>uuid_in\<close> is the canonical form of a text PostgreSQL reads as a \<open>uuid\<close>.\<close>

definition IssueDeviceEnrollmentToken ::
  "(string \<Rightarrow> string option) \<Rightarrow> string option \<Rightarrow> int \<Rightarrow> int \<Rightarrow> string \<Rightarrow> string \<Rightarrow> int \<Rightarrow> enroll_db
    \<Rightarrow> (enroll_error + string \<times> int) \<times> enroll_db" where
  "IssueDeviceEnrollmentToken uuid_in rnd now at schema siteID ttl db =
     (case SafeSchemaIdent schema of
        Inl _ \<Rightarrow> (Inl EnSchema, db)
      | Inr _ \<Rightarrow>
          if trim_space siteID = [] then (Inl EnSiteNotFound, db)
          else if ttl \<le> 0 then (Inl EnTtl, db)
          else
            (case uuid_in siteID of
               None \<Rightarrow> (Inl EnDb, db)
             | Some i \<Rightarrow>
                 if find_site i db = None then (Inl EnSiteNotFound, db)
                 else
                   (case randomEnrollmentToken rnd of
                      None \<Rightarrow> (Inl EnEntropy, db)
                    | Some token \<Rightarrow>
                        (Inr (token, now + ttl),
                         update_site i (\<lambda>s. s\<lparr>sr_token_hash := Some (HashDeviceEnrollmentToken token),
                                             sr_token_expires := Some (now + ttl), sr_updated := at\<rparr>) db))))"

definition RevokeDeviceEnrollmentToken ::
  "(string \<Rightarrow> string option) \<Rightarrow> int \<Rightarrow> string \<Rightarrow> string \<Rightarrow> enroll_db \<Rightarrow> enroll_error option \<times> enroll_db" where
  "RevokeDeviceEnrollmentToken uuid_in at schema siteID db =
     (case SafeSchemaIdent schema of
        Inl _ \<Rightarrow> (Some EnSchema, db)
      | Inr _ \<Rightarrow>
          (case uuid_in siteID of
             None \<Rightarrow> (Some EnDb, db)
           | Some i \<Rightarrow>
               if find_site i db = None then (Some EnSiteNotFound, db)
               else (None, update_site i (\<lambda>s. s\<lparr>sr_token_hash := None, sr_token_expires := None, sr_updated := at\<rparr>) db)))"

definition token_live :: "int \<Rightarrow> site_row \<Rightarrow> bool" where
  "token_live now s = (case sr_token_expires s of None \<Rightarrow> False | Some e \<Rightarrow> e > now)"

definition token_opens :: "int \<Rightarrow> string \<Rightarrow> site_row \<Rightarrow> bool" where
  "token_opens now h s \<longleftrightarrow> sr_token_hash s = Some h \<and> token_live now s \<and> sr_auto_adopt s = Some True"

section \<open>The tenant of a credential\<close>

text \<open>All schemas of the installation by name, beside the registry of tenants.\<close>

record world =
  wd_landlord :: landlord_db
  wd_schemas :: "string \<rightharpoonup> enroll_db"

fun resolve_sites ::
  "int \<Rightarrow> string \<Rightarrow> (string \<rightharpoonup> enroll_db) \<Rightarrow> string list \<Rightarrow> (string \<times> string) option
    \<Rightarrow> enroll_error + (string \<times> string) option" where
  "resolve_sites now h dbs [] m = Inr m"
| "resolve_sites now h dbs (a # as) m =
     (case SafeTenantSchema a of
        Inl _ \<Rightarrow> resolve_sites now h dbs as m
      | Inr schema \<Rightarrow>
          (case dbs schema of
             None \<Rightarrow> Inl EnDb
           | Some db \<Rightarrow>
               (case find (token_opens now h) (en_sites db) of
                  None \<Rightarrow> resolve_sites now h dbs as m
                | Some s \<Rightarrow>
                    if m \<noteq> None then Inl EnAmbiguous
                    else resolve_sites now h dbs as (Some (schema, sr_id s)))))"

definition ResolveDeviceEnrollmentToken :: "int \<Rightarrow> string \<Rightarrow> world \<Rightarrow> enroll_error + string \<times> string" where
  "ResolveDeviceEnrollmentToken now token w =
     (if trim_space token = [] then Inl EnTokenNotFound
      else andthen (resolve_sites now (HashDeviceEnrollmentToken token) (wd_schemas w) (active_aliases (wd_landlord w)) None)
             (\<lambda>m. case m of None \<Rightarrow> Inl EnTokenNotFound | Some x \<Rightarrow> Inr x))"

text \<open>A schema that cannot be queried is skipped here.\<close>

fun resolve_devices ::
  "string \<Rightarrow> (string \<rightharpoonup> enroll_db) \<Rightarrow> string list \<Rightarrow> string option \<Rightarrow> enroll_error + string option" where
  "resolve_devices tok dbs [] m = Inr m"
| "resolve_devices tok dbs (a # as) m =
     (case SafeTenantSchema a of
        Inl _ \<Rightarrow> resolve_devices tok dbs as m
      | Inr schema \<Rightarrow>
          (case dbs schema of
             None \<Rightarrow> resolve_devices tok dbs as m
           | Some db \<Rightarrow>
               if \<not> list_ex (\<lambda>c. cd_token c = Some tok) (en_creds db) then resolve_devices tok dbs as m
               else if m \<noteq> None then Inl EnAmbiguous
               else resolve_devices tok dbs as (Some schema)))"

definition GetTenantSchemaForDeviceToken :: "string \<Rightarrow> world \<Rightarrow> enroll_error + string" where
  "GetTenantSchemaForDeviceToken tok w =
     (if trim_space tok = [] then Inl EnIncomplete
      else andthen (resolve_devices tok (wd_schemas w) (active_aliases (wd_landlord w)) None)
             (\<lambda>m. case m of None \<Rightarrow> Inl EnTokenNotFound | Some x \<Rightarrow> Inr x))"

fun resolve_site_key :: "string \<Rightarrow> (string \<rightharpoonup> enroll_db) \<Rightarrow> string list \<Rightarrow> string option" where
  "resolve_site_key key dbs [] = None"
| "resolve_site_key key dbs (a # as) =
     (case SafeTenantSchema a of
        Inl _ \<Rightarrow> resolve_site_key key dbs as
      | Inr schema \<Rightarrow>
          (case dbs schema of
             None \<Rightarrow> resolve_site_key key dbs as
           | Some db \<Rightarrow>
               if list_ex (\<lambda>s. sr_api_key s = Some key) (en_sites db) then Some schema
               else resolve_site_key key dbs as))"

definition GetTenantSchemaForSiteKey :: "string \<Rightarrow> world \<Rightarrow> enroll_error + string" where
  "GetTenantSchemaForSiteKey key w =
     (if trim_space key = [] then Inl EnIncomplete
      else (case resolve_site_key key (wd_schemas w) (active_aliases (wd_landlord w)) of
              None \<Rightarrow> Inl EnTokenNotFound | Some s \<Rightarrow> Inr s))"

section \<open>Enrollment\<close>

record enrollment_result =
  ir_device :: string
  ir_site :: string
  ir_token :: string
  ir_created :: bool

definition find_cred :: "string \<Rightarrow> enroll_db \<Rightarrow> cred_row option" where
  "find_cred i db = find (\<lambda>c. cd_device c = i) (en_creds db)"

definition dev_token :: "string \<Rightarrow> enroll_db \<Rightarrow> string option" where
  "dev_token i db = Option.bind (find_cred i db) cd_token"

definition put_cred :: "cred_row \<Rightarrow> enroll_db \<Rightarrow> enroll_db" where
  "put_cred c db = db\<lparr>en_creds := filter (\<lambda>x. cd_device x \<noteq> cd_device c) (en_creds db) @ [c]\<rparr>"

definition find_nonce :: "string \<Rightarrow> string \<Rightarrow> enroll_db \<Rightarrow> nonce_row option" where
  "find_nonce siteID h db = find (\<lambda>n. nr_site n = siteID \<and> nr_hash n = h) (en_nonces db)"

text \<open>The defaults of the columns for a row inserted by the enrollment.\<close>

definition new_device_row :: "int \<Rightarrow> string \<Rightarrow> json \<Rightarrow> device_row" where
  "new_device_row now siteID caps =
     \<lparr>dv_site = Some siteID, dv_role = Some ''AP'', dv_capabilities = Some caps,
      dv_desired = 0, dv_observed = 0, dv_last_successful = 0,
      dv_pending_op = None, dv_last_op = None, dv_pending_cs = None, dv_last_cs = None,
      dv_rollout_status = None, dv_rollout_at = None, dv_health_at = None, dv_updated_at = now\<rparr>"

text \<open>
  The device row, the token and the nonce of a successful enrollment: a known device keeps the other
  columns of its row, an unknown one is inserted.
\<close>

definition bind_device :: "int \<Rightarrow> string \<Rightarrow> string \<Rightarrow> json \<Rightarrow> device_row option \<Rightarrow> tenant_db \<Rightarrow> tenant_db" where
  "bind_device now siteID deviceID caps known db =
     db\<lparr>devices := (devices db)(deviceID \<mapsto>
         (case known of
            None \<Rightarrow> new_device_row now siteID caps
          | Some d \<Rightarrow> d\<lparr>dv_site := Some siteID, dv_capabilities := Some caps, dv_updated_at := now\<rparr>))\<rparr>"

definition record_enrollment ::
  "int \<Rightarrow> string \<Rightarrow> string \<Rightarrow> string \<Rightarrow> json \<Rightarrow> string \<Rightarrow> device_row option \<Rightarrow> enroll_db \<Rightarrow> enroll_db" where
  "record_enrollment now siteID deviceID nonceHash caps tok known db =
     (put_cred \<lparr>cd_device = deviceID, cd_token = Some tok, cd_status = Some ''Adopted''\<rparr> db)
       \<lparr>en_tenant := bind_device now siteID deviceID caps known (en_tenant db),
        en_nonces := en_nonces db @ [\<lparr>nr_site = siteID, nr_hash = nonceHash, nr_device = deviceID,
                                       nr_expires = now + 24 * 3600 * 1000000\<rparr>]\<rparr>"

text \<open>
  \<open>now\<close> is the timestamp of the transaction. The primary key of the nonces is site and hash: an expired
  row of the same nonce makes the insert fail. Device ids are those the handler accepts; others that the
  column would not store unchanged are refused by the insert.
\<close>

definition EnrollDevice ::
  "string option \<Rightarrow> int \<Rightarrow> string \<Rightarrow> string \<Rightarrow> string \<Rightarrow> string \<Rightarrow> string \<Rightarrow> json \<Rightarrow> enroll_db
    \<Rightarrow> (enroll_error + enrollment_result) \<times> enroll_db" where
  "EnrollDevice rnd now schema siteID enrollmentTokenHash deviceID nonce caps db =
     (case SafeSchemaIdent schema of
        Inl _ \<Rightarrow> (Inl EnSchema, db)
      | Inr _ \<Rightarrow>
          if siteID = [] \<or> enrollmentTokenHash = [] \<or> deviceID = [] \<or> nonce = [] then (Inl EnIncomplete, db)
          else
            (case find_site siteID db of
               None \<Rightarrow> (Inl EnTokenNotFound, db)
             | Some s \<Rightarrow>
                 if sr_auto_adopt s \<noteq> Some True then (Inl EnDisabled, db)
                 else if \<not> token_live now s \<or> sr_token_hash s \<noteq> Some enrollmentTokenHash
                 then (Inl EnTokenNotFound, db)
                 else
                   (let nonceHash = hashEnrollmentNonce nonce;
                        known = devices (en_tenant db) deviceID
                    in case find_nonce siteID nonceHash db of
                         Some n \<Rightarrow>
                           if nr_expires n > now then
                             (if nr_device n \<noteq> deviceID then (Inl EnNonceConflict, db)
                              else
                                (case known of
                                   None \<Rightarrow> (Inl EnDb, db)
                                 | Some d \<Rightarrow>
                                     (case dev_token deviceID db of
                                        Some tok \<Rightarrow>
                                          if dv_site d = Some siteID \<and> tok \<noteq> []
                                          then (Inr \<lparr>ir_device = deviceID, ir_site = siteID, ir_token = tok,
                                                     ir_created = False\<rparr>, db)
                                          else (Inl EnRecord, db)
                                      | None \<Rightarrow> (Inl EnRecord, db))))
                           else if coalesce (Option.bind known dv_site) \<noteq> [] then (Inl EnAlreadyEnrolled, db)
                           else (case randomEnrollmentToken rnd of None \<Rightarrow> (Inl EnEntropy, db) | Some _ \<Rightarrow> (Inl EnDb, db))
                       | None \<Rightarrow>
                           if coalesce (Option.bind known dv_site) \<noteq> [] then (Inl EnAlreadyEnrolled, db)
                           else
                             (case randomEnrollmentToken rnd of
                                None \<Rightarrow> (Inl EnEntropy, db)
                              | Some tok \<Rightarrow>
                                  if varchar 50 deviceID \<noteq> Some deviceID then (Inl EnDb, db)
                                  else (Inr \<lparr>ir_device = deviceID, ir_site = siteID, ir_token = tok, ir_created = True\<rparr>,
                                        record_enrollment now siteID deviceID nonceHash caps tok known db)))))"

section \<open>The endpoint\<close>

record enroll_request =
  iq_method :: string
  iq_token :: string
  iq_size :: nat
  iq_body :: raw_message

definition enrollmentDeviceIDPattern :: "string \<Rightarrow> bool" where
  "enrollmentDeviceIDPattern i \<longleftrightarrow>
     1 \<le> length i \<and> length i \<le> 50 \<and> (is_upper (hd i) \<or> is_digit (hd i))
     \<and> list_all (\<lambda>c. is_upper c \<or> is_digit c \<or> c \<in> set '':._-'') (tl i)"

definition enrollmentNoncePattern :: "string \<Rightarrow> bool" where
  "enrollmentNoncePattern n \<longleftrightarrow>
     16 \<le> length n \<and> length n \<le> 128 \<and> list_all (\<lambda>c. is_alnum c \<or> c = CHR ''_'' \<or> c = CHR ''-'') n"

definition normalizeEnrollmentDeviceID :: "string \<Rightarrow> string option" where
  "normalizeEnrollmentDeviceID raw =
     (let i = go_upper (trim_space raw) in if enrollmentDeviceIDPattern i then Some i else None)"

text \<open>
  The body is one JSON value with nothing after it, \<open>None\<close> otherwise; keys other than the three fields
  are refused.
\<close>

definition parseDeviceEnrollmentRequest :: "nat \<Rightarrow> raw_message \<Rightarrow> (string \<times> string \<times> json) option" where
  "parseDeviceEnrollmentRequest len body =
     (if len > 64 * 1024 then None
      else
        (case Option.bind body go_obj of
           None \<Rightarrow> None
         | Some kvs \<Rightarrow>
             if \<not> list_all (\<lambda>(k, _). go_fold k \<in> go_fold ` {''device_id'', ''nonce'', ''capabilities''}) kvs then None
             else
               (case (go_str ''device_id'' kvs, go_str ''nonce'' kvs) of
                  (Some rawID, Some rawNonce) \<Rightarrow>
                    (case normalizeEnrollmentDeviceID rawID of
                       None \<Rightarrow> None
                     | Some deviceID \<Rightarrow>
                         (let nonce = trim_space rawNonce;
                              caps = (case rev (go_entries ''capabilities'' kvs) of [] \<Rightarrow> JObj [] | c # _ \<Rightarrow> c)
                          in if \<not> enrollmentNoncePattern nonce then None
                             else (case caps of JObj _ \<Rightarrow> Some (deviceID, nonce, caps) | _ \<Rightarrow> None)))
                | _ \<Rightarrow> None)))"

datatype enroll_response =
    IeMethod | IeNoToken | IeBadToken | IeBadRequest | IeForbidden | IeUnavailable | IeDisabled
  | IeNonceConflict | IeAlready | IeNoSite | IeFailed | IeEnrolled enrollment_result

definition enroll_failure :: "enroll_error \<Rightarrow> enroll_response" where
  "enroll_failure e =
     (case e of
        EnTokenNotFound \<Rightarrow> IeForbidden | EnDisabled \<Rightarrow> IeDisabled | EnNonceConflict \<Rightarrow> IeNonceConflict
      | EnAlreadyEnrolled \<Rightarrow> IeAlready | EnSiteNotFound \<Rightarrow> IeNoSite | _ \<Rightarrow> IeFailed)"

text \<open>\<open>at\<close> and \<open>now\<close> are the timestamps of the lookup and of the enrolling transaction.\<close>

definition DeviceEnrollmentHandler ::
  "string option \<Rightarrow> int \<Rightarrow> int \<Rightarrow> enroll_request \<Rightarrow> world \<Rightarrow> enroll_response \<times> world" where
  "DeviceEnrollmentHandler rnd at now req w =
     (let token = trim_space (iq_token req) in
      if iq_method req \<noteq> ''POST'' then (IeMethod, w)
      else if token = [] then (IeNoToken, w)
      else if length token > 256 then (IeBadToken, w)
      else
        (case parseDeviceEnrollmentRequest (iq_size req) (iq_body req) of
           None \<Rightarrow> (IeBadRequest, w)
         | Some (deviceID, nonce, caps) \<Rightarrow>
             (case ResolveDeviceEnrollmentToken at token w of
                Inl e \<Rightarrow> (if e = EnTokenNotFound then IeForbidden else IeUnavailable, w)
              | Inr (schema, siteID) \<Rightarrow>
                  (case wd_schemas w schema of
                     None \<Rightarrow> (IeFailed, w)
                   | Some db \<Rightarrow>
                       (case EnrollDevice rnd now schema siteID (HashDeviceEnrollmentToken token) deviceID nonce caps db of
                          (Inl e, _) \<Rightarrow> (enroll_failure e, w)
                        | (Inr r, db') \<Rightarrow> (IeEnrolled r, w\<lparr>wd_schemas := (wd_schemas w)(schema \<mapsto> db')\<rparr>))))))"

section \<open>Adoption by an operator\<close>

datatype adopt_response = AdBadTenant | AdNoId | AdBadBody | AdNoSiteId | AdNotFound | AdNoSite | AdFailed | AdDone

definition assign_site :: "string \<Rightarrow> string \<Rightarrow> enroll_db \<Rightarrow> enroll_db" where
  "assign_site i site db =
     (put_cred \<lparr>cd_device = i, cd_token = dev_token i db, cd_status = Some ''Adopted''\<rparr> db)
       \<lparr>en_tenant := update_device i (\<lambda>d. d\<lparr>dv_site := Some site\<rparr>) (en_tenant db)\<rparr>"

definition AdoptDeviceHandler ::
  "(string \<Rightarrow> string option) \<Rightarrow> string \<Rightarrow> string \<Rightarrow> raw_message \<Rightarrow> enroll_db \<Rightarrow> adopt_response \<times> enroll_db" where
  "AdoptDeviceHandler uuid_in schema deviceID body db =
     (if \<not> is_ok (SafeSchemaIdent (if schema = [] then ''public'' else schema)) then (AdBadTenant, db)
      else if deviceID = [] then (AdNoId, db)
      else
        (case Option.bind (Option.bind body go_obj) (go_str ''site_id'') of
           None \<Rightarrow> (AdBadBody, db)
         | Some siteID \<Rightarrow>
             if siteID = [] then (AdNoSiteId, db)
             else if devices (en_tenant db) deviceID = None then (AdNotFound, db)
             else
               (case Option.bind (uuid_in siteID) (\<lambda>i. find_site i db) of
                  None \<Rightarrow> (AdFailed, db)
                | Some s \<Rightarrow> (AdDone, assign_site deviceID (sr_id s) db))))"

text \<open>The audit entry of a migration goes through the default connection and is not part of these tables.\<close>

definition MigrateDeviceHandler ::
  "(string \<Rightarrow> string option) \<Rightarrow> string \<Rightarrow> string \<Rightarrow> raw_message \<Rightarrow> enroll_db \<Rightarrow> adopt_response \<times> enroll_db" where
  "MigrateDeviceHandler uuid_in schema deviceID body db =
     (if \<not> is_ok (SafeSchemaIdent (if schema = [] then ''public'' else schema)) then (AdBadTenant, db)
      else if deviceID = [] then (AdNoId, db)
      else
        (case Option.bind (Option.bind body go_obj) (go_str ''site_id'') of
           None \<Rightarrow> (AdBadBody, db)
         | Some siteID \<Rightarrow>
             if siteID = [] then (AdNoSiteId, db)
             else if devices (en_tenant db) deviceID = None then (AdNotFound, db)
             else
               (case uuid_in siteID of
                  None \<Rightarrow> (AdFailed, db)
                | Some i \<Rightarrow>
                    (case find_site i db of
                       None \<Rightarrow> (AdNoSite, db)
                     | Some s \<Rightarrow> (AdDone, assign_site deviceID (sr_id s) db)))))"

section \<open>Outcomes\<close>

lemma EnrollDevice_outcome:
  assumes "EnrollDevice rnd now schema siteID h i nonce caps db = (r, db')"
  shows "(\<exists>e. r = Inl e \<and> db' = db)
    \<or> (\<exists>s. find_site siteID db = Some s \<and> sr_auto_adopt s = Some True \<and> token_live now s \<and> sr_token_hash s = Some h
        \<and> isValidSchemaName schema \<and> siteID \<noteq> [] \<and> h \<noteq> [] \<and> i \<noteq> [] \<and> nonce \<noteq> []
        \<and> ((\<exists>tok d n. r = Inr \<lparr>ir_device = i, ir_site = siteID, ir_token = tok, ir_created = False\<rparr> \<and> db' = db
              \<and> devices (en_tenant db) i = Some d \<and> dv_site d = Some siteID \<and> dev_token i db = Some tok \<and> tok \<noteq> []
              \<and> find_nonce siteID (hashEnrollmentNonce nonce) db = Some n \<and> nr_device n = i \<and> nr_expires n > now)
          \<or> (\<exists>b. rnd = Some b \<and> find_nonce siteID (hashEnrollmentNonce nonce) db = None
              \<and> coalesce (Option.bind (devices (en_tenant db) i) dv_site) = []
              \<and> r = Inr \<lparr>ir_device = i, ir_site = siteID, ir_token = hex_encode b, ir_created = True\<rparr>
              \<and> db' = record_enrollment now siteID i (hashEnrollmentNonce nonce) caps (hex_encode b)
                        (devices (en_tenant db) i) db)))"
  using assms
  by (auto simp: EnrollDevice_def SafeSchemaIdent_def Let_def randomEnrollmentToken_def
      split: option.splits if_splits sum.splits)

lemma find_snoc: "find P xs = None \<Longrightarrow> find P (xs @ [y]) = (if P y then Some y else None)"
  by (induction xs) (auto split: if_splits)

lemma find_put_cred [simp]:
  "find_cred i (put_cred c db) = (if cd_device c = i then Some c else find_cred i db)"
proof -
  have "find (\<lambda>x. cd_device x = i) (filter (\<lambda>x. cd_device x \<noteq> cd_device c) xs @ [c])
      = (if cd_device c = i then Some c else find (\<lambda>x. cd_device x = i) xs)" for xs
    by (induction xs) auto
  then show ?thesis by (simp add: find_cred_def put_cred_def)
qed

lemma put_cred_frame [simp]:
  "en_tenant (put_cred c db) = en_tenant db" "en_sites (put_cred c db) = en_sites db"
  "en_nonces (put_cred c db) = en_nonces db"
  by (simp_all add: put_cred_def)

lemma record_enrollment_frame [simp]:
  "en_sites (record_enrollment now s i n caps tok known db) = en_sites db"
  "find_site x (record_enrollment now s i n caps tok known db) = find_site x db"
  "j \<noteq> i \<Longrightarrow> devices (en_tenant (record_enrollment now s i n caps tok known db)) j = devices (en_tenant db) j"
  "rollouts (en_tenant (record_enrollment now s i n caps tok known db)) = rollouts (en_tenant db)"
  by (simp_all add: record_enrollment_def find_site_def bind_device_def)

lemma record_enrollment_reads [simp]:
  "dev_token j (record_enrollment now s i n caps tok known db) = (if j = i then Some tok else dev_token j db)"
  "\<exists>d. devices (en_tenant (record_enrollment now s i n caps tok known db)) i = Some d \<and> dv_site d = Some s"
  "find_nonce s n db = None \<Longrightarrow>
     find_nonce s n (record_enrollment now s i n caps tok known db)
       = Some \<lparr>nr_site = s, nr_hash = n, nr_device = i, nr_expires = now + 24 * 3600 * 1000000\<rparr>"
proof -
  have same: "find_cred j (x\<lparr>en_tenant := t, en_nonces := ns\<rparr>) = find_cred j x" for x t ns
    by (simp add: find_cred_def)
  show "dev_token j (record_enrollment now s i n caps tok known db) = (if j = i then Some tok else dev_token j db)"
    by (simp add: dev_token_def record_enrollment_def same)
  show "\<exists>d. devices (en_tenant (record_enrollment now s i n caps tok known db)) i = Some d \<and> dv_site d = Some s"
    by (simp add: record_enrollment_def bind_device_def new_device_row_def split: option.split)
  show "find_nonce s n db = None \<Longrightarrow>
     find_nonce s n (record_enrollment now s i n caps tok known db)
       = Some \<lparr>nr_site = s, nr_hash = n, nr_device = i, nr_expires = now + 24 * 3600 * 1000000\<rparr>"
    by (simp add: record_enrollment_def find_nonce_def find_snoc)
qed

lemma EnrollDevice_Inr:
  assumes "EnrollDevice rnd now schema siteID h i nonce caps db = (Inr r, db')"
  shows "ir_device r = i" "ir_site r = siteID"
    "\<exists>s. find_site siteID db = Some s \<and> sr_auto_adopt s = Some True \<and> token_live now s \<and> sr_token_hash s = Some h"
    "j \<noteq> i \<Longrightarrow> devices (en_tenant db') j = devices (en_tenant db) j \<and> dev_token j db' = dev_token j db"
    "devices (en_tenant db) i = Some d \<Longrightarrow> dv_site d = Some s0 \<Longrightarrow> s0 \<noteq> [] \<Longrightarrow>
       s0 = siteID \<and> \<not> ir_created r \<and> db' = db"
  using EnrollDevice_outcome [OF assms] by auto

section \<open>Retries\<close>

text \<open>
  C23. A device whose first answer got lost repeats its request: within the life of its nonce and of
  the site's token it gets the same device token again and nothing changes. The nonce serves no other
  device, and the device, once bound to the site, is not enrolled again under another nonce.
\<close>

theorem enrollment_retry:
  assumes "EnrollDevice (Some b) now schema siteID h i nonce caps db = (Inr r, db')" "ir_created r" "b \<noteq> []"
    and "later < now + 24 * 3600 * 1000000" "\<forall>s. find_site siteID db = Some s \<longrightarrow> token_live later s"
  shows "EnrollDevice rnd later schema siteID h i nonce caps' db' = (Inr (r\<lparr>ir_created := False\<rparr>), db')
    \<and> (j \<noteq> i \<and> j \<noteq> [] \<longrightarrow> EnrollDevice rnd later schema siteID h j nonce caps' db' = (Inl EnNonceConflict, db'))
    \<and> (nonce2 \<noteq> [] \<and> find_nonce siteID (hashEnrollmentNonce nonce2) db' = None \<longrightarrow>
         EnrollDevice rnd later schema siteID h i nonce2 caps' db' = (Inl EnAlreadyEnrolled, db'))"
proof -
  let ?n = "hashEnrollmentNonce nonce"
  from EnrollDevice_outcome [OF assms(1)] assms(2) obtain s
    where s: "find_site siteID db = Some s" "sr_auto_adopt s = Some True" "sr_token_hash s = Some h"
      and ids: "isValidSchemaName schema" "siteID \<noteq> []" "h \<noteq> []" "i \<noteq> []" "nonce \<noteq> []"
      and fresh: "find_nonce siteID ?n db = None"
      and r: "r = \<lparr>ir_device = i, ir_site = siteID, ir_token = hex_encode b, ir_created = True\<rparr>"
      and db': "db' = record_enrollment now siteID i ?n caps (hex_encode b) (devices (en_tenant db) i) db"
    by auto
  have live: "token_live later s" using assms(5) s(1) by blast
  have site: "find_site siteID db' = Some s" using s(1) db' by simp
  have nonce: "find_nonce siteID ?n db' = Some \<lparr>nr_site = siteID, nr_hash = ?n, nr_device = i, nr_expires = now + 24 * 3600 * 1000000\<rparr>"
    using fresh db' by simp
  obtain d where d: "devices (en_tenant db') i = Some d" "dv_site d = Some siteID"
    unfolding db' using record_enrollment_reads(2) by blast
  have tok: "dev_token i db' = Some (hex_encode b)" "hex_encode b \<noteq> []"
    using db' assms(3) by (simp_all) (cases b, simp_all)
  show ?thesis
    using s(2,3) live site nonce d tok ids r assms(4) by (simp add: EnrollDevice_def Let_def)
qed

section \<open>Who may enroll\<close>

lemma resolve_sites_found:
  assumes "resolve_sites now h dbs as m = Inr (Some (schema, i))"
  shows "m = Some (schema, i) \<or> (\<exists>a \<in> set as. SafeTenantSchema a = Inr schema
     \<and> (\<exists>db s. dbs schema = Some db \<and> s \<in> set (en_sites db) \<and> token_opens now h s \<and> sr_id s = i))"
  using assms
proof (induction as arbitrary: m)
  case (Cons a as)
  then show ?case
    by (fastforce split: sum.splits option.splits if_splits simp: find_Some_iff dest: nth_mem)
qed simp

lemma find_site_Some: "find_site i db = Some s \<Longrightarrow> s \<in> set (en_sites db) \<and> sr_id s = i"
  by (auto simp: find_site_def find_Some_iff)

lemma handler_enrolled:
  assumes "DeviceEnrollmentHandler rnd at now req w = (IeEnrolled r, w')"
  obtains a schema site db db' i nonce caps where "a \<in> set (active_aliases (wd_landlord w))" "SafeTenantSchema a = Inr schema"
    "wd_schemas w schema = Some db" "w' = w\<lparr>wd_schemas := (wd_schemas w)(schema \<mapsto> db')\<rparr>"
    "parseDeviceEnrollmentRequest (iq_size req) (iq_body req) = Some (i, nonce, caps)"
    "EnrollDevice rnd now schema site (sha256_hex (trim_space (iq_token req))) i nonce caps db = (Inr r, db')"
proof -
  let ?h = "sha256_hex (trim_space (iq_token req))"
  have refusal: "enroll_failure e \<noteq> IeEnrolled r" for e
    by (simp add: enroll_failure_def split: enroll_error.split)
  note handler = assms [unfolded DeviceEnrollmentHandler_def Let_def]
  obtain i nonce caps where parsed: "parseDeviceEnrollmentRequest (iq_size req) (iq_body req) = Some (i, nonce, caps)"
    using handler by (cases "parseDeviceEnrollmentRequest (iq_size req) (iq_body req)") (auto split: if_splits)
  then obtain schema site where found: "ResolveDeviceEnrollmentToken at (trim_space (iq_token req)) w = Inr (schema, site)"
    using handler by (cases "ResolveDeviceEnrollmentToken at (trim_space (iq_token req)) w") (auto split: if_splits)
  then have res: "resolve_sites at ?h (wd_schemas w) (active_aliases (wd_landlord w)) None = Inr (Some (schema, site))"
    by (auto simp: ResolveDeviceEnrollmentToken_def HashDeviceEnrollmentToken_def andthen_Inr_iff split: if_splits option.splits)
  obtain db where db: "wd_schemas w schema = Some db"
    using handler parsed found by (cases "wd_schemas w schema") (auto split: if_splits)
  obtain x db1 where x: "EnrollDevice rnd now schema site ?h i nonce caps db = (x, db1)"
    by fastforce
  have rest: "EnrollDevice rnd now schema site ?h i nonce caps db = (Inr r, db1)"
    "w' = w\<lparr>wd_schemas := (wd_schemas w)(schema \<mapsto> db1)\<rparr>"
    using handler parsed found db x refusal by (auto simp: HashDeviceEnrollmentToken_def split: if_splits sum.splits)
  from resolve_sites_found [OF res] obtain a where "a \<in> set (active_aliases (wd_landlord w))" "SafeTenantSchema a = Inr schema"
    by auto
  with rest db parsed show ?thesis by (intro that)
qed

text \<open>
  C24. A device is enrolled only with a token that is, at that moment, the live token of a site with
  auto-adoption in an active tenant, and only into that site. Its id is a normalised one, the rows and
  tokens of all other devices stay as they are, and a device that already has a site keeps it: the
  answer is then the retry of its own enrollment and changes nothing.
\<close>

theorem enrollment_authorised:
  assumes "DeviceEnrollmentHandler rnd at now req w = (IeEnrolled r, w')"
  shows "\<exists>a schema db db' s. a \<in> set (active_aliases (wd_landlord w)) \<and> SafeTenantSchema a = Inr schema
     \<and> wd_schemas w schema = Some db \<and> w' = w\<lparr>wd_schemas := (wd_schemas w)(schema \<mapsto> db')\<rparr>
     \<and> s \<in> set (en_sites db) \<and> sr_id s = ir_site r \<and> sr_auto_adopt s = Some True \<and> token_live now s
     \<and> sr_token_hash s = Some (sha256_hex (trim_space (iq_token req)))
     \<and> enrollmentDeviceIDPattern (ir_device r)
     \<and> (\<forall>j. j \<noteq> ir_device r \<longrightarrow> devices (en_tenant db') j = devices (en_tenant db) j \<and> dev_token j db' = dev_token j db)
     \<and> (\<forall>d s0. devices (en_tenant db) (ir_device r) = Some d \<and> dv_site d = Some s0 \<and> s0 \<noteq> [] \<longrightarrow>
          s0 = ir_site r \<and> \<not> ir_created r \<and> db' = db)"
proof -
  from assms obtain a schema site db db' i nonce caps where a: "a \<in> set (active_aliases (wd_landlord w))" "SafeTenantSchema a = Inr schema"
    "wd_schemas w schema = Some db" "w' = w\<lparr>wd_schemas := (wd_schemas w)(schema \<mapsto> db')\<rparr>"
    and parsed: "parseDeviceEnrollmentRequest (iq_size req) (iq_body req) = Some (i, nonce, caps)"
    and en: "EnrollDevice rnd now schema site (sha256_hex (trim_space (iq_token req))) i nonce caps db = (Inr r, db')"
    by (rule handler_enrolled)
  have pattern: "enrollmentDeviceIDPattern i"
    using parsed by (auto simp: parseDeviceEnrollmentRequest_def normalizeEnrollmentDeviceID_def Let_def
        split: if_splits option.splits list.splits json.splits)
  note facts = EnrollDevice_Inr [OF en]
  obtain s where s: "find_site site db = Some s" "sr_auto_adopt s = Some True" "token_live now s"
      "sr_token_hash s = Some (sha256_hex (trim_space (iq_token req)))"
    using facts(3) by blast
  show ?thesis
    by (rule exI [of _ a], rule exI [of _ schema], rule exI [of _ db], rule exI [of _ db'], rule exI [of _ s])
      (use a find_site_Some [OF s(1)] s(2-4) pattern facts(1,2,4,5) in simp)
qed

section \<open>The token of the device\<close>

lemma resolve_devices_none:
  assumes "\<And>a schema db. a \<in> set as \<Longrightarrow> SafeTenantSchema a = Inr schema \<Longrightarrow> dbs schema = Some db
      \<Longrightarrow> \<not> list_ex (\<lambda>c. cd_token c = Some tok) (en_creds db)"
  shows "resolve_devices tok dbs as m = Inr m"
  using assms by (induction as) (auto split: sum.split option.split)

lemma resolve_devices_append:
  "resolve_devices tok dbs (xs @ ys) m = andthen (resolve_devices tok dbs xs m) (resolve_devices tok dbs ys)"
  by (induction xs arbitrary: m) (auto split: sum.split option.split)

lemma SafeTenantSchema_inj: "SafeTenantSchema a = Inr s \<Longrightarrow> SafeTenantSchema b = Inr s \<Longrightarrow> a = b"
  by (auto simp: SafeTenantSchema_def split: if_splits)

text \<open>
  The token a device gets with its enrollment leads back to it: with it the controller finds the
  schema of the tenant, the site and the row of the device.
\<close>

theorem enrolled_token_resolves:
  assumes "DeviceEnrollmentHandler rnd at now req w = (IeEnrolled r, w')" "ir_created r" "rnd = Some b" "b \<noteq> []"
    and "landlord_wf (wd_landlord w)"
    and "\<forall>schema db. wd_schemas w schema = Some db \<longrightarrow> \<not> list_ex (\<lambda>c. cd_token c = Some (hex_encode b)) (en_creds db)"
  shows "\<exists>schema db' d. GetTenantSchemaForDeviceToken (ir_token r) w' = Inr schema \<and> wd_schemas w' schema = Some db'
     \<and> dev_token (ir_device r) db' = Some (ir_token r)
     \<and> devices (en_tenant db') (ir_device r) = Some d \<and> dv_site d = Some (ir_site r)"
proof -
  from assms(1) obtain a schema site db db' i nonce caps where a: "a \<in> set (active_aliases (wd_landlord w))" "SafeTenantSchema a = Inr schema"
    and db: "wd_schemas w schema = Some db" "w' = w\<lparr>wd_schemas := (wd_schemas w)(schema \<mapsto> db')\<rparr>"
    and en: "EnrollDevice rnd now schema site (sha256_hex (trim_space (iq_token req))) i nonce caps db = (Inr r, db')"
    by (rule handler_enrolled)
  from EnrollDevice_outcome [OF en] assms(2,3) have
    r: "ir_device r = i" "ir_token r = hex_encode b" "ir_site r = site"
    and db': "db' = record_enrollment now site i (hashEnrollmentNonce nonce) caps (hex_encode b) (devices (en_tenant db) i) db"
    by auto
  have has: "list_ex (\<lambda>c. cd_token c = Some (hex_encode b)) (en_creds db')"
    unfolding db' by (simp add: record_enrollment_def put_cred_def)
  have tok: "trim_space (hex_encode b) = hex_encode b" "hex_encode b \<noteq> []"
    using assms(4) hex_encode_alphabet [of _ b] hex_visible by (auto intro!: trim_all_visible simp: list_all_iff) (cases b, auto)
  obtain xs ys where split: "active_aliases (wd_landlord w) = xs @ a # ys" "a \<notin> set xs" "a \<notin> set ys"
  proof -
    have "distinct (active_aliases (wd_landlord w))"
      using assms(5) by (simp add: active_aliases_def landlord_wf_def tenants_wf_def distinct_map_filter)
    then show ?thesis using that a(1) by (metis distinct_append distinct.simps(2) disjoint_insert(1) list.simps(15) split_list)
  qed
  have others: "resolve_devices (hex_encode b) (wd_schemas w') as m = Inr m" if "a \<notin> set as" for as m
  proof (rule resolve_devices_none)
    fix x sch e
    assume x: "x \<in> set as" "SafeTenantSchema x = Inr sch" "wd_schemas w' sch = Some e"
    then have "sch \<noteq> schema" using that SafeTenantSchema_inj a(2) by blast
    with x(3) db(2) assms(6) show "\<not> list_ex (\<lambda>c. cd_token c = Some (hex_encode b)) (en_creds e)" by auto
  qed
  have "resolve_devices (hex_encode b) (wd_schemas w') (active_aliases (wd_landlord w')) None = Inr (Some schema)"
    using split others a(2) has db(2) by (simp add: resolve_devices_append)
  then have "GetTenantSchemaForDeviceToken (ir_token r) w' = Inr schema"
    using tok r(2) by (simp add: GetTenantSchemaForDeviceToken_def)
  moreover obtain d where "devices (en_tenant db') i = Some d" "dv_site d = Some site"
    unfolding db' using record_enrollment_reads(2) by blast
  moreover have "dev_token i db' = Some (hex_encode b)" unfolding db' by simp
  ultimately show ?thesis using r db(2) by auto
qed

section \<open>Rotation and revocation\<close>

lemma find_site_update:
  "(\<And>s. sr_id (f s) = sr_id s) \<Longrightarrow>
     find_site j (update_site i f db) = map_option (\<lambda>s. if sr_id s = i then f s else s) (find_site j db)"
proof -
  assume f: "\<And>s. sr_id (f s) = sr_id s"
  have "find (\<lambda>s. sr_id s = j) (map (\<lambda>s. if sr_id s = i then f s else s) xs)
      = map_option (\<lambda>s. if sr_id s = i then f s else s) (find (\<lambda>s. sr_id s = j) xs)" for xs
    using f by (induction xs) auto
  then show ?thesis by (simp add: find_site_def update_site_def)
qed

lemma enroll_refused:
  assumes "\<And>s. find_site siteID db = Some s \<Longrightarrow> sr_token_hash s \<noteq> Some h \<or> \<not> token_live now s"
  shows "\<exists>e. EnrollDevice rnd now schema siteID h i nonce caps db = (Inl e, db)"
proof -
  obtain r db' where r: "EnrollDevice rnd now schema siteID h i nonce caps db = (r, db')" by fastforce
  from EnrollDevice_outcome [OF r] assms show ?thesis unfolding r by blast
qed

text \<open>
  Issuing a token for a site replaces the one before: until the new one expires the site enrolls
  with the new token only, after that with none, and after a revocation with none at all.
\<close>

theorem token_rotation:
  assumes "IssueDeviceEnrollmentToken uuid_in (Some b) now at schema siteID ttl db = (Inr (tok, expires), db')"
    "uuid_in siteID = Some site"
  shows "tok = hex_encode b \<and> expires = now + ttl \<and> now < expires
    \<and> (h \<noteq> HashDeviceEnrollmentToken tok \<or> expires \<le> t \<longrightarrow>
         (\<exists>e. EnrollDevice rnd t schema' site h i nonce caps db' = (Inl e, db')))
    \<and> (\<exists>db''. RevokeDeviceEnrollmentToken uuid_in at' schema siteID db' = (None, db'')
         \<and> (\<exists>e. EnrollDevice rnd t schema' site h i nonce caps db'' = (Inl e, db'')))"
proof -
  let ?f = "\<lambda>s. s\<lparr>sr_token_hash := Some (HashDeviceEnrollmentToken tok), sr_token_expires := Some (now + ttl), sr_updated := at\<rparr>"
  let ?g = "\<lambda>s. s\<lparr>sr_token_hash := None, sr_token_expires := None, sr_updated := at'\<rparr>"
  have schema: "isValidSchemaName schema" and tok: "tok = hex_encode b" "expires = now + ttl" "ttl > 0"
    and site: "find_site site db \<noteq> None" and db': "db' = update_site site ?f db"
    using assms
    by (auto simp: IssueDeviceEnrollmentToken_def SafeSchemaIdent_def randomEnrollmentToken_def
        split: if_splits option.splits sum.splits)
  have row: "find_site site db' = map_option (\<lambda>s. if sr_id s = site then ?f s else s) (find_site site db)"
    unfolding db' by (rule find_site_update) simp
  obtain s0 where s0: "find_site site db = Some s0" "sr_id s0 = site" using site find_site_Some by blast
  then have new: "find_site site db' = Some (?f s0)" using row by simp
  have one: "\<exists>e. EnrollDevice rnd t schema' site h i nonce caps db' = (Inl e, db')"
    if "h \<noteq> HashDeviceEnrollmentToken tok \<or> expires \<le> t"
    using that tok(2) new by (intro enroll_refused) (auto simp: token_live_def)
  let ?db = "update_site site ?g db'"
  have revoked: "RevokeDeviceEnrollmentToken uuid_in at' schema siteID db' = (None, ?db)"
    using assms(2) schema new by (simp add: RevokeDeviceEnrollmentToken_def)
  have "find_site site ?db = map_option (\<lambda>s. if sr_id s = site then ?g s else s) (find_site site db')"
    by (rule find_site_update) simp
  then have two: "\<exists>e. EnrollDevice rnd t schema' site h i nonce caps ?db = (Inl e, ?db)"
    using new s0(2) by (intro enroll_refused) (auto simp: token_live_def)
  show ?thesis using tok one revoked two by auto
qed

section \<open>The tables over a sequence of calls\<close>

datatype enroll_call =
    IssueToken "string \<Rightarrow> string option" "string option" int int string string int
  | RevokeToken "string \<Rightarrow> string option" int string string
  | Enroll "string option" int string string string string string json
  | Adopt "string \<Rightarrow> string option" string string raw_message
  | Migrate "string \<Rightarrow> string option" string string raw_message

fun enroll_step :: "enroll_call \<Rightarrow> enroll_db \<Rightarrow> enroll_db" where
  "enroll_step (IssueToken u rnd now at schema s ttl) db = snd (IssueDeviceEnrollmentToken u rnd now at schema s ttl db)"
| "enroll_step (RevokeToken u at schema s) db = snd (RevokeDeviceEnrollmentToken u at schema s db)"
| "enroll_step (Enroll rnd now schema s h i nonce caps) db = snd (EnrollDevice rnd now schema s h i nonce caps db)"
| "enroll_step (Adopt u schema i body) db = snd (AdoptDeviceHandler u schema i body db)"
| "enroll_step (Migrate u schema i body) db = snd (MigrateDeviceHandler u schema i body db)"

definition has_row :: "enroll_db \<Rightarrow> string \<Rightarrow> bool" where
  "has_row db i \<longleftrightarrow> devices (en_tenant db) i \<noteq> None"

definition enroll_wf :: "enroll_db \<Rightarrow> bool" where
  "enroll_wf db \<longleftrightarrow>
     distinct (map sr_id (en_sites db)) \<and> [] \<notin> sr_id ` set (en_sites db)
     \<and> distinct (map cd_device (en_creds db)) \<and> (\<forall>c \<in> set (en_creds db). has_row db (cd_device c))
     \<and> distinct (map (\<lambda>n. (nr_site n, nr_hash n)) (en_nonces db))
     \<and> (\<forall>n \<in> set (en_nonces db). has_row db (nr_device n) \<and> nr_site n \<in> sr_id ` set (en_sites db))
     \<and> (\<forall>i d s. devices (en_tenant db) i = Some d \<longrightarrow> dv_site d = Some s \<longrightarrow> s \<in> sr_id ` set (en_sites db))"

definition in_site :: "string \<Rightarrow> enroll_db \<Rightarrow> bool" where
  "in_site i db \<longleftrightarrow> coalesce (Option.bind (devices (en_tenant db) i) dv_site) \<noteq> []"

lemma update_site_wf:
  assumes "\<And>s. sr_id (f s) = sr_id s"
  shows "enroll_wf (update_site i f db) = enroll_wf db"
proof -
  have "map sr_id (map (\<lambda>s. if sr_id s = i then f s else s) (en_sites db)) = map sr_id (en_sites db)"
    using assms by (rule map_key_kept)
  then have ids: "map sr_id (en_sites (update_site i f db)) = map sr_id (en_sites db)"
    "sr_id ` set (en_sites (update_site i f db)) = sr_id ` set (en_sites db)"
    unfolding update_site_def by (simp_all del: map_map flip: set_map)
  have same: "en_tenant (update_site i f db) = en_tenant db" "en_creds (update_site i f db) = en_creds db"
    "en_nonces (update_site i f db) = en_nonces db"
    by (simp_all add: update_site_def)
  show ?thesis unfolding enroll_wf_def has_row_def ids same ..
qed

lemma put_cred_distinct:
  "distinct (map cd_device (en_creds db)) \<Longrightarrow> distinct (map cd_device (en_creds (put_cred c db)))"
  by (auto simp: put_cred_def distinct_map_filter)

lemma record_enrollment_wf:
  assumes "enroll_wf db" "find_nonce s n db = None" "find_site s db \<noteq> None"
  shows "enroll_wf (record_enrollment now s i n caps tok (devices (en_tenant db) i) db)"
proof -
  have "s \<in> sr_id ` set (en_sites db)" using assms(3) find_site_Some by fastforce
  moreover have "(s, n) \<notin> (\<lambda>n. (nr_site n, nr_hash n)) ` set (en_nonces db)"
    using assms(2) by (auto simp: find_nonce_def find_None_iff)
  ultimately show ?thesis
    using assms(1) put_cred_distinct [of db]
    by (auto simp: enroll_wf_def has_row_def record_enrollment_def bind_device_def put_cred_def new_device_row_def
        distinct_map_filter split: option.splits if_splits)
qed

lemma assign_site_wf:
  assumes "enroll_wf db" "find_site s0 db = Some s" "has_row db i"
  shows "enroll_wf (assign_site i (sr_id s) db)"
proof -
  have "s \<in> set (en_sites db)" using find_site_Some [OF assms(2)] by simp
  with assms(1,3) put_cred_distinct [of db] show ?thesis
    by (auto simp: enroll_wf_def has_row_def assign_site_def update_device_def put_cred_def distinct_map_filter
        split: if_splits)
qed

lemma IssueDeviceEnrollmentToken_outcome:
  "snd (IssueDeviceEnrollmentToken u rnd now at schema s ttl db) = db
   \<or> (\<exists>i f. snd (IssueDeviceEnrollmentToken u rnd now at schema s ttl db) = update_site i f db \<and> (\<forall>x. sr_id (f x) = sr_id x))"
  unfolding IssueDeviceEnrollmentToken_def
  by (fastforce split: sum.split option.split)

lemma RevokeDeviceEnrollmentToken_outcome:
  "snd (RevokeDeviceEnrollmentToken u at schema s db) = db
   \<or> (\<exists>i f. snd (RevokeDeviceEnrollmentToken u at schema s db) = update_site i f db \<and> (\<forall>x. sr_id (f x) = sr_id x))"
  unfolding RevokeDeviceEnrollmentToken_def
  by (fastforce split: sum.split option.split)

lemma assign_outcome:
  "snd (AdoptDeviceHandler u schema i body db) = db
   \<or> (\<exists>s0 s. find_site s0 db = Some s \<and> has_row db i \<and> snd (AdoptDeviceHandler u schema i body db) = assign_site i (sr_id s) db)"
  "snd (MigrateDeviceHandler u schema i body db) = db
   \<or> (\<exists>s0 s. find_site s0 db = Some s \<and> has_row db i \<and> snd (MigrateDeviceHandler u schema i body db) = assign_site i (sr_id s) db)"
  unfolding AdoptDeviceHandler_def MigrateDeviceHandler_def has_row_def
  by (auto simp: bind_eq_Some_conv split: option.split)

lemma EnrollDevice_effect:
  "snd (EnrollDevice rnd now schema s h i nonce caps db) = db
   \<or> (\<exists>n tok. find_site s db \<noteq> None \<and> s \<noteq> [] \<and> find_nonce s n db = None
        \<and> snd (EnrollDevice rnd now schema s h i nonce caps db)
            = record_enrollment now s i n caps tok (devices (en_tenant db) i) db)"
  using EnrollDevice_outcome [of rnd now schema s h i nonce caps db, OF surjective_pairing] by auto

lemma enroll_step_effect:
  "enroll_step c db = db
   \<or> (\<exists>i f. enroll_step c db = update_site i f db \<and> (\<forall>x. sr_id (f x) = sr_id x))
   \<or> (\<exists>now s i n caps tok. find_site s db \<noteq> None \<and> s \<noteq> [] \<and> find_nonce s n db = None
        \<and> enroll_step c db = record_enrollment now s i n caps tok (devices (en_tenant db) i) db)
   \<or> (\<exists>i s0 s. find_site s0 db = Some s \<and> has_row db i \<and> enroll_step c db = assign_site i (sr_id s) db)"
proof (cases c)
  case (IssueToken u rnd now at schema s ttl)
  show ?thesis using IssueDeviceEnrollmentToken_outcome [of u rnd now at schema s ttl db] unfolding IssueToken enroll_step.simps by blast
next
  case (RevokeToken u at schema s)
  show ?thesis using RevokeDeviceEnrollmentToken_outcome [of u at schema s db] unfolding RevokeToken enroll_step.simps by blast
next
  case (Enroll rnd now schema s h i nonce caps)
  show ?thesis using EnrollDevice_effect [of rnd now schema s h i nonce caps db] unfolding Enroll enroll_step.simps by blast
next
  case (Adopt u schema i body)
  show ?thesis using assign_outcome(1) [of u schema i body db] unfolding Adopt enroll_step.simps by blast
next
  case (Migrate u schema i body)
  show ?thesis using assign_outcome(2) [of u schema i body db] unfolding Migrate enroll_step.simps by blast
qed

lemma enroll_step_wf: "enroll_wf db \<Longrightarrow> enroll_wf (enroll_step c db)"
  using enroll_step_effect [of c db] update_site_wf record_enrollment_wf assign_site_wf by metis

lemma in_site_kept:
  assumes "enroll_wf db" "in_site i db"
  shows "in_site i (enroll_step c db)"
proof -
  have sites: "sr_id s \<noteq> []" if "find_site s0 db = Some s" for s0 s
    using assms(1) find_site_Some [OF that] by (auto simp: enroll_wf_def image_iff)
  have "in_site i (record_enrollment now s j n caps tok known db)" if "s \<noteq> []" for now s j n caps tok known
    using assms(2) that by (auto simp: in_site_def record_enrollment_def bind_device_def new_device_row_def split: option.split)
  moreover have "in_site i (assign_site j (sr_id s) db)" if "find_site s0 db = Some s" for j s0 s
    using assms(2) sites [OF that] by (cases "devices (en_tenant db) i") (auto simp: in_site_def assign_site_def update_device_def)
  moreover have "in_site i (update_site j f db)" for j f using assms(2) by (simp add: in_site_def update_site_def)
  ultimately show ?thesis using enroll_step_effect [of c db] assms(2) by metis
qed

interpretation enrollment: kept_tables enroll_step enroll_wf "in_site i" for i
  by unfold_locales (rule enroll_step_wf, assumption, rule in_site_kept, assumption+)

text \<open>
  Issuing and revoking tokens, enrolling, adopting and migrating keep the tables consistent: one
  nonce per site and hash, one credential per device, every nonce and credential of a known device,
  every device in a known site; and a device that has a site never loses it.
\<close>

theorem enrollment_tables_kept:
  assumes "enroll_wf db" "in_site i db"
  shows "enroll_wf (fold enroll_step cs db) \<and> in_site i (fold enroll_step cs db)"
  using assms by (rule enrollment.run_keeps)

section \<open>Samples\<close>

definition sample_site :: site_row where
  "sample_site = \<lparr>sr_id = ''s-1'', sr_api_key = Some ''key'', sr_auto_adopt = Some True,
     sr_token_hash = Some (sha256_hex ''tok''), sr_token_expires = Some 1000, sr_updated = 0\<rparr>"

definition sample_enroll_db :: enroll_db where
  "sample_enroll_db = \<lparr>en_tenant = \<lparr>devices = Map.empty, rollouts = [], audit_logs = []\<rparr>, en_sites = [sample_site],
     en_creds = [], en_nonces = []\<rparr>"

definition sample_world :: world where
  "sample_world = \<lparr>wd_landlord = sample_landlord,
     wd_schemas = [''tenant_acme'' \<mapsto> sample_enroll_db, ''tenant_beta'' \<mapsto> sample_enroll_db\<lparr>en_sites := []\<rparr>]\<rparr>"

definition sample_nonce :: string where
  "sample_nonce = replicate 16 CHR ''n''"

definition sample_enroll_request :: enroll_request where
  "sample_enroll_request = \<lparr>iq_method = ''POST'', iq_token = ''tok'', iq_size = 60,
     iq_body = Some (JObj [(''device_id'', JStr ''aa:bb''), (''nonce'', JStr sample_nonce)])\<rparr>"

definition sample_result :: enrollment_result where
  "sample_result = \<lparr>ir_device = ''AA:BB'', ir_site = ''s-1'', ir_token = hex_encode ''r'', ir_created = True\<rparr>"

definition enrolled_db :: enroll_db where
  "enrolled_db = record_enrollment 5 ''s-1'' ''AA:BB'' (hashEnrollmentNonce sample_nonce) (JObj []) (hex_encode ''r'') None sample_enroll_db"

lemma sample_enroll:
  "EnrollDevice (Some ''r'') 5 ''tenant_acme'' ''s-1'' (sha256_hex ''tok'') ''AA:BB'' sample_nonce (JObj []) sample_enroll_db
     = (Inr sample_result, enrolled_db)"
proof -
  have "isValidSchemaName ''tenant_acme''" "sample_nonce \<noteq> []" "varchar 50 ''AA:BB'' = Some ''AA:BB''" by code_simp+
  moreover have "sha256_hex ''tok'' \<noteq> []"
    using sha256_hex_length [of "''tok''"] by (metis length_0_conv zero_neq_numeral)
  ultimately show ?thesis
    by (simp add: EnrollDevice_def sample_enroll_db_def find_site_def sample_site_def token_live_def find_nonce_def Let_def
        randomEnrollmentToken_def sample_result_def enrolled_db_def del: hex_encode_Cons)
qed

lemma sample_handled:
  "DeviceEnrollmentHandler (Some ''r'') 4 5 sample_enroll_request sample_world
     = (IeEnrolled sample_result, sample_world\<lparr>wd_schemas := (wd_schemas sample_world)(''tenant_acme'' \<mapsto> enrolled_db)\<rparr>)"
proof -
  have "parseDeviceEnrollmentRequest 60 (Some (JObj [(''device_id'', JStr ''aa:bb''), (''nonce'', JStr sample_nonce)]))
      = Some (''AA:BB'', sample_nonce, JObj [])" by code_simp
  moreover have aliases: "active_aliases sample_landlord = [''acme'', ''beta'']" "SafeTenantSchema ''acme'' = Inr ''tenant_acme''"
    "SafeTenantSchema ''beta'' = Inr ''tenant_beta''" "trim_space ''tok'' = ''tok''" by code_simp+
  moreover have "ResolveDeviceEnrollmentToken 4 ''tok'' sample_world = Inr (''tenant_acme'', ''s-1'')"
    using aliases
    by (simp add: ResolveDeviceEnrollmentToken_def sample_world_def sample_enroll_db_def token_opens_def sample_site_def
        HashDeviceEnrollmentToken_def token_live_def)
  ultimately show ?thesis
    using sample_enroll
    by (simp add: DeviceEnrollmentHandler_def sample_enroll_request_def Let_def HashDeviceEnrollmentToken_def sample_world_def)
qed

lemma sample_enroll_wf: "enroll_wf sample_enroll_db" "enroll_wf enrolled_db"
proof -
  show "enroll_wf sample_enroll_db"
    by (simp add: enroll_wf_def sample_enroll_db_def sample_site_def)
  from record_enrollment_wf [OF this, of "''s-1''" "hashEnrollmentNonce sample_nonce" 5 "''AA:BB''" "JObj []" "hex_encode ''r''"]
  show "enroll_wf enrolled_db"
    by (simp add: enrolled_db_def find_nonce_def sample_enroll_db_def find_site_def sample_site_def)
qed

theorem enrollment_retry_witness:
  "EnrollDevice None 9 ''tenant_acme'' ''s-1'' (sha256_hex ''tok'') ''AA:BB'' sample_nonce (JObj []) enrolled_db
     = (Inr (sample_result\<lparr>ir_created := False\<rparr>), enrolled_db)"
  using enrollment_retry [OF sample_enroll, of 9 None "JObj []" "''CC''" "[]"]
  by (simp add: sample_result_def sample_enroll_db_def find_site_def token_live_def sample_site_def)

theorem enrollment_authorised_witness:
  "\<exists>a schema. a \<in> set (active_aliases (wd_landlord sample_world)) \<and> SafeTenantSchema a = Inr schema"
  using enrollment_authorised [OF sample_handled] by blast

theorem enrolled_token_resolves_witness:
  "\<exists>schema. GetTenantSchemaForDeviceToken (hex_encode ''r'')
     (sample_world\<lparr>wd_schemas := (wd_schemas sample_world)(''tenant_acme'' \<mapsto> enrolled_db)\<rparr>) = Inr schema"
proof -
  have "\<forall>schema db. wd_schemas sample_world schema = Some db \<longrightarrow> en_creds db = []"
    by (simp add: sample_world_def sample_enroll_db_def)
  then have fresh: "\<forall>schema db. wd_schemas sample_world schema = Some db \<longrightarrow> \<not> list_ex (\<lambda>c. cd_token c = Some (hex_encode ''r'')) (en_creds db)"
    by simp
  have "ir_created sample_result" "ir_token sample_result = hex_encode ''r''" "wd_landlord sample_world = sample_landlord"
    by (simp_all add: sample_result_def sample_world_def)
  with enrolled_token_resolves [OF sample_handled _ refl _ _ fresh] sample_landlord_wf(1) show ?thesis by auto
qed

theorem token_rotation_witness:
  "\<exists>db'. IssueDeviceEnrollmentToken Some (Some ''r'') 5 5 ''tenant_acme'' ''s-1'' DeviceEnrollmentTokenTTL sample_enroll_db
      = (Inr (hex_encode ''r'', 5 + DeviceEnrollmentTokenTTL), db')
    \<and> (\<exists>e. EnrollDevice None (5 + DeviceEnrollmentTokenTTL) ''tenant_acme'' ''s-1'' (sha256_hex ''tok'') ''AA:BB'' sample_nonce (JObj []) db'
        = (Inl e, db'))"
proof -
  have "isValidSchemaName ''tenant_acme''" "trim_space ''s-1'' \<noteq> []" by code_simp+
  then obtain db' where i: "IssueDeviceEnrollmentToken Some (Some ''r'') 5 5 ''tenant_acme'' ''s-1'' DeviceEnrollmentTokenTTL sample_enroll_db
      = (Inr (hex_encode ''r'', 5 + DeviceEnrollmentTokenTTL), db')"
    by (simp add: IssueDeviceEnrollmentToken_def DeviceEnrollmentTokenTTL_def find_site_def sample_enroll_db_def sample_site_def
        randomEnrollmentToken_def del: hex_encode_Cons)
  from token_rotation [OF i, of "''s-1''"] i show ?thesis by (simp add: DeviceEnrollmentTokenTTL_def)
qed

theorem enrollment_tables_kept_witness:
  "enroll_wf (fold enroll_step [Adopt Some ''tenant_acme'' ''AA:BB'' (Some (JObj [(''site_id'', JStr ''s-2'')]))] enrolled_db)"
proof -
  obtain d where "devices (en_tenant enrolled_db) ''AA:BB'' = Some d" "dv_site d = Some ''s-1''"
    unfolding enrolled_db_def using record_enrollment_reads(2) by blast
  then have "in_site ''AA:BB'' enrolled_db" by (simp add: in_site_def)
  from enrollment_tables_kept [OF sample_enroll_wf(2) this] show ?thesis by blast
qed

end
