(* ===== verification/Central_Config.thy ===== *)
theory Central_Config
  imports Edge_Api Site_Renderer Uci_Observed Change_Set_Queue
begin

text \<open>
  The configuration editor, the handlers of \<open>src/internal/api/handlers/central_config.go\<close> and
  \<open>uci_ops.go\<close>: reading a namespace of a device, previewing commands, queueing typed commands
  (\<open>PutCentralConfigHandler\<close>, \<open>SafeRolloutHandler\<close>), the operation state of a device, the comparison
  of a device with its template, and the raw editor \<open>PutUciHandler\<close>.

  The outcome of a session over SSH is an argument: a function from the command to the output and
  whether the session failed. The parts that back up, queue, commit and audit are those of the edge
  handlers, with another beginning of the audit actions.
\<close>

section \<open>Namespaces\<close>

definition allowedUciConfigs :: "string list" where
  "allowedUciConfigs =
     [''network'', ''wireless'', ''dhcp'', ''firewall'', ''system'', ''dropbear'', ''uhttpd'', ''openvpn'', ''usteer'', ''sqm'']"

definition isAllowedUciConfig :: "string \<Rightarrow> bool" where
  "isAllowedUciConfig s \<longleftrightarrow> s \<in> set allowedUciConfigs"

definition requiresDeviceOperation :: "string \<Rightarrow> bool" where
  "requiresDeviceOperation config \<longleftrightarrow>
     config \<in> set [''wireless'', ''network'', ''dhcp'', ''firewall'', ''dropbear'', ''system'', ''sqm'']"

section \<open>Reading a namespace\<close>

type_synonym ssh_session = "string \<Rightarrow> string \<times> bool"

text \<open>The segments of a path follow the pattern of section references.\<close>

definition buildCentralConfigCommand :: "string \<Rightarrow> string \<Rightarrow> string option" where
  "buildCentralConfigCommand config path =
     (if \<not> isAllowedUciConfig config then None
      else if path = [] then Some (''uci show '' @ config @ '' 2>&1'')
      else if length path > 128 \<or> trim_space path \<noteq> path then None
      else (let parts = split_on CHR ''.'' path in
            if length parts > 3 \<or> hd parts \<noteq> config \<or> \<not> list_all valid_uci_section parts then None
            else Some (''uci show '' @ path @ '' 2>&1'')))"

datatype central_read =
    CrMissing | CrNamespace | CrBadPath | CrFailed string | CrSections "uci_section list" string

definition GetCentralConfigHandler :: "string \<Rightarrow> string \<Rightarrow> ssh_session \<Rightarrow> central_read" where
  "GetCentralConfigHandler config path ssh =
     (if config = [] then CrMissing
      else if \<not> isAllowedUciConfig config then CrNamespace
      else (case buildCentralConfigCommand config path of
              None \<Rightarrow> CrBadPath
            | Some cmd \<Rightarrow>
                (case ssh cmd of
                   (out, False) \<Rightarrow> CrFailed out
                 | (out, True) \<Rightarrow> CrSections (parseUciShow out config) out)))"

definition ListCentralConfigsHandler :: "ssh_session \<Rightarrow> string list option" where
  "ListCentralConfigsHandler ssh =
     (case ssh ''ls /etc/config/ 2>/dev/null'' of
        (out, False) \<Rightarrow> None
      | (out, True) \<Rightarrow> Some (filter (\<lambda>l. l \<noteq> []) (map trim_space (split_on CHR 0x0A (trim_space out)))))"

section \<open>Queueing typed commands\<close>

text \<open>\<open>CcSilent\<close>: the handler returns without writing a response.\<close>

datatype central_response =
    CcMissing | CcNamespace | CcBadBody | CcEmpty | CcInvalid | CcForeign | CcSilent
  | CcPreview "string list"
  | CcRun edge_response

definition PreviewCentralConfigHandler :: "raw_message \<Rightarrow> central_response" where
  "PreviewCentralConfigHandler body =
     (case Option.bind body go_obj of
        None \<Rightarrow> CcBadBody
      | Some kvs \<Rightarrow>
          (case go_slice dec_command ''commands'' kvs of
             None \<Rightarrow> CcBadBody
           | Some cmds \<Rightarrow> CcPreview (PreviewCommands (slice_elems cmds))))"

definition queue_central ::
  "string \<Rightarrow> string \<Rightarrow> string \<Rightarrow> uci_command list \<Rightarrow> string list option \<Rightarrow> edge_env \<Rightarrow> edge_request
    \<Rightarrow> edge_state \<Rightarrow> central_response \<times> edge_state" where
  "queue_central config label msg cmds hc env req s =
     (let (r, s') = queue_edge config label msg cmds hc env req s in (CcRun r, s'))"

definition PutCentralConfigHandler ::
  "string \<Rightarrow> bool \<Rightarrow> edge_env \<Rightarrow> edge_request \<Rightarrow> edge_state \<Rightarrow> central_response \<times> edge_state" where
  "PutCentralConfigHandler config dryRun env req s =
     (if config = [] then (CcMissing, s)
      else if \<not> isAllowedUciConfig config then (CcNamespace, s)
      else (case read_body dec_command ''commands'' (er_body req) of
              None \<Rightarrow> (CcBadBody, s)
            | Some (cmds, confirm, hc) \<Rightarrow>
                if cmds = [] then (CcEmpty, s)
                else if dryRun \<or> \<not> confirm
                then (if BuildDryRunScript config cmds = [] then (CcInvalid, s) else (CcPreview (PreviewCommands cmds), s))
                else queue_central config ''CENTRAL_LUCI''
                       (''Queued '' @ nat_str (length cmds) @ '' UCI commands to namespace: '' @ config) cmds hc env req s))"

definition SafeRolloutHandler ::
  "string \<Rightarrow> edge_env \<Rightarrow> edge_request \<Rightarrow> edge_state \<Rightarrow> central_response \<times> edge_state" where
  "SafeRolloutHandler config env req s =
     (if er_device req = [] \<or> config = [] \<or> \<not> isAllowedUciConfig config then (CcMissing, s)
      else (case read_body dec_command ''commands'' (er_body req) of
              None \<Rightarrow> (CcBadBody, s)
            | Some (cmds, confirm, hc) \<Rightarrow>
                if cmds = [] then (CcSilent, s)
                else if list_ex (\<lambda>c. uc_config c \<noteq> config) cmds then (CcForeign, s)
                else if \<not> confirm then (CcPreview (PreviewCommands cmds), s)
                else queue_central config ''SAFE_ROLLOUT''
                       (''Queued '' @ nat_str (length cmds) @ '' commands to '' @ config) cmds hc env req s))"

section \<open>The state of the operation of a device\<close>

datatype operation_state =
    OsNoId | OsTenant db_error | OsUnreadable | OsState "json option" "json option"

definition GetDeviceOperationHandler :: "string \<Rightarrow> string \<Rightarrow> tenant_db \<Rightarrow> operation_state" where
  "GetDeviceOperationHandler schema deviceID db =
     (if deviceID = [] then OsNoId
      else (case getTenantSchema schema of
              Inl e \<Rightarrow> OsTenant e
            | Inr sc \<Rightarrow>
                (case (GetPendingDeviceOperation sc deviceID db, GetLastDeviceOperation sc deviceID db) of
                   (Inr p, Inr l) \<Rightarrow> OsState p l
                 | _ \<Rightarrow> OsUnreadable)))"

section \<open>Drift of a device from its template\<close>

record namespace_result =
  nr_config :: string
  nr_status :: string
  nr_expected :: "string list"
  nr_observed :: string
  nr_missing :: "string list"
  nr_defaults :: "string list"

text \<open>
  One namespace: \<open>commands\<close> are the rendered commands of the namespace, in order. The text of a
  difference is the first line of the preview of its command; \<open>None\<close> is the index panic of the
  source when that preview is empty.
\<close>

definition formatted :: "uci_command \<Rightarrow> string option" where
  "formatted c = (case PreviewCommands [c] of [] \<Rightarrow> None | l # _ \<Rightarrow> Some (redactUCICommand l))"

definition differs :: "uci_command \<Rightarrow> uci_command list \<Rightarrow> uci_section list \<Rightarrow> bool" where
  "differs c later secs \<longleftrightarrow> uc_option c \<noteq> [] \<and> \<not> uciCommandMatchesObservedInPlan c later secs"

fun drift_commands :: "uci_command list \<Rightarrow> uci_section list \<Rightarrow> (string list \<times> string list) option" where
  "drift_commands [] secs = Some ([], [])"
| "drift_commands (c # later) secs =
     (if differs c later secs
      then Option.bind (formatted c) (\<lambda>l.
             map_option (\<lambda>(missing, defaults).
               if isDefaultDifference c then (missing, l # defaults) else (l # missing, defaults))
             (drift_commands later secs))
      else drift_commands later secs)"

definition drift_namespace :: "ssh_session \<Rightarrow> string \<Rightarrow> uci_command list \<Rightarrow> namespace_result option" where
  "drift_namespace ssh config commands =
     (let expected = map redactUCICommand (PreviewCommands commands) in
      case ssh (''uci show '' @ config @ '' 2>&1'') of
        (out, False) \<Rightarrow> Some \<lparr>nr_config = config, nr_status = ''UNREACHABLE'', nr_expected = expected, nr_observed = [],
                        nr_missing = [], nr_defaults = []\<rparr>
      | (out, True) \<Rightarrow>
          map_option (\<lambda>(missing, defaults).
              \<lparr>nr_config = config,
               nr_status = (if missing \<noteq> [] then ''DRIFT_RELEVANT''
                            else if defaults \<noteq> [] then ''DRIFT_DEFAULT'' else ''MATCH''),
               nr_expected = expected, nr_observed = redactUCIRaw out, nr_missing = missing, nr_defaults = defaults\<rparr>)
            (drift_commands commands (parseUciShow out config)))"

text \<open>
  The namespaces in the order of their first command; the iteration over the map of the source may
  take any other. \<open>host\<close> is the name the query finds for the device.
\<close>

definition namespaces :: "uci_command list \<Rightarrow> string list" where
  "namespaces cmds = dedup {} (map uc_config cmds)"

definition in_namespace :: "string \<Rightarrow> uci_command list \<Rightarrow> uci_command list" where
  "in_namespace ns cmds = filter (\<lambda>c. uc_config c = ns) cmds"

definition drift_device :: "string \<Rightarrow> string \<Rightarrow> device_row \<Rightarrow> device_role_info" where
  "drift_device deviceID host d =
     \<lparr>dr_device = deviceID, dr_hostname = host, dr_last_ip = [],
      dr_role = (case dv_role d of None \<Rightarrow> ''AP'' | Some r \<Rightarrow> r), dr_logical_networks = Map.empty\<rparr>"

datatype drift_response =
    DrNoId | DrTenant db_error | DrNoDevice | DrNoTemplate | DrEmpty | DrPanic | DrResults "namespace_result list"

definition GetDeviceDriftHandler ::
  "string \<Rightarrow> string \<Rightarrow> string \<Rightarrow> tenant_db \<Rightarrow> site_table \<Rightarrow> ssh_session \<Rightarrow> drift_response" where
  "GetDeviceDriftHandler schema deviceID host db tbl ssh =
     (if deviceID = [] then DrNoId
      else (case getTenantSchema schema of
              Inl e \<Rightarrow> DrTenant e
            | Inr _ \<Rightarrow>
                (case Option.bind (devices db deviceID) (\<lambda>d. map_option (Pair d) (dv_site d)) of
                   None \<Rightarrow> DrNoDevice
                 | Some (d, siteID) \<Rightarrow>
                     (case GetSiteConfig tbl siteID of
                        None \<Rightarrow> DrNoTemplate
                      | Some cfg \<Rightarrow>
                          (case RenderSiteConfig cfg [drift_device deviceID host d] of
                             [] \<Rightarrow> DrEmpty
                           | res # _ \<Rightarrow>
                               (case those (map (\<lambda>ns. drift_namespace ssh ns (in_namespace ns (rn_commands res)))
                                              (namespaces (rn_commands res))) of
                                  None \<Rightarrow> DrPanic
                                | Some rs \<Rightarrow> DrResults rs))))))"

section \<open>The raw editor\<close>

datatype raw_response = PuMissing | PuNamespace | PuTyped | PuBadBody | PuInvalid | PuFailed string | PuDone string

definition raw_restart :: "string \<Rightarrow> string" where
  "raw_restart config =
     (case map_of ServiceRestartMap config of
        None \<Rightarrow> []
      | Some svc \<Rightarrow> svc @ '' && logger -t uci_ops '' @ sq @ config @ '' restarted'' @ sq)"

definition raw_script_head :: "string \<Rightarrow> string list" where
  "raw_script_head config =
     [''#!/bin/sh'', ''set -e'', [],
      ''logger -t uci_ops '' @ dq @ ''UCI_OPS: starting config push for '' @ config @ dq, [],
      ''# Backup'',
      ''uci export '' @ config @ '' > /tmp/uci_ops_bak.conf 2>/dev/null || true'', [],
      ''rollback() {'',
      ''  logger -t uci_ops '' @ dq @ ''UCI_OPS: ERROR '' @ em_dash @ '' rolling back '' @ config @ dq,
      ''  uci import '' @ config @ '' < /tmp/uci_ops_bak.conf 2>/dev/null || true'',
      ''  uci commit '' @ config,
      ''  exit 1'', ''}'', ''trap rollback ERR'', [],
      ''# Apply changes'']"

definition raw_script_tail :: "string \<Rightarrow> string list" where
  "raw_script_tail config =
     [[], [], ''# Validation'',
      ''uci show '' @ config @ '' > /dev/null 2>&1 || { logger -t uci_ops '' @ dq @ ''validation failed'' @ dq @ ''; rollback; }'', [],
      ''# Autorestart'', raw_restart config, [],
      ''logger -t uci_ops '' @ dq @ ''UCI_OPS: push complete for '' @ config @ dq,
      ''exit 0'']"

definition raw_script :: "string \<Rightarrow> string list \<Rightarrow> string" where
  "raw_script config cmds = unlines (raw_script_head config @ cmds @ [''uci commit '' @ config] @ raw_script_tail config)"

text \<open>The response, the script that was run, and the state with its audit log.\<close>

definition PutUciHandler ::
  "string \<Rightarrow> edge_request \<Rightarrow> ssh_session \<Rightarrow> edge_state \<Rightarrow> raw_response \<times> string option \<times> edge_state" where
  "PutUciHandler config req ssh s =
     (if config = [] then (PuMissing, None, s)
      else if \<not> isAllowedUciConfig config then (PuNamespace, None, s)
      else if requiresDeviceOperation config then (PuTyped, None, s)
      else (case Option.bind (er_body req) (\<lambda>j. Option.bind (go_obj j) (go_slice elem_str ''commands'')) of
              None \<Rightarrow> (PuBadBody, None, s)
            | Some cs \<Rightarrow>
                (let cmds = slice_elems cs in
                 if list_ex (\<lambda>c. \<not> ValidRawUCICommand c config) cmds then (PuInvalid, None, s)
                 else (case ssh (raw_script config cmds) of
                         (out, False) \<Rightarrow> (PuFailed out, Some (raw_script config cmds), s)
                       | (out, True) \<Rightarrow>
                           (PuDone out, Some (raw_script config cmds),
                            InsertAuditLog (er_username req) ''UCI_OPS_PUSH'' ''DEVICE'' (er_device req)
                              (''Pushed '' @ nat_str (length cmds) @ '' UCI commands to namespace: '' @ config)
                              (er_remote req) s)))))"

section \<open>What the editor reads and queues\<close>

lemma join_prefix: "ps \<noteq> [] \<Longrightarrow> \<exists>r. join_with ''.'' ps = hd ps @ r"
  by (cases ps; cases "tl ps") auto

lemma allowed_name: "isAllowedUciConfig config \<Longrightarrow> valid_uci_name config \<and> config \<noteq> []"
proof -
  have "list_all (\<lambda>c. valid_uci_name c \<and> c \<noteq> []) allowedUciConfigs" by code_simp
  then show "isAllowedUciConfig config \<Longrightarrow> valid_uci_name config \<and> config \<noteq> []"
    by (simp add: isAllowedUciConfig_def list_all_iff)
qed

text \<open>
  Whatever path a request asks for, the command of a read is \<open>uci show\<close> of one word: the shell
  finds no operator, expansion or redirection in it beside the one the controller appends, and the
  word begins with an allowed namespace.
\<close>

theorem central_read_contained:
  assumes "buildCentralConfigCommand config path = Some cmd"
  shows "\<exists>target r. cmd = ''uci show '' @ target @ '' 2>&1'' \<and> target = config @ r \<and> isAllowedUciConfig config
     \<and> sh_words (''uci show '' @ target) = Some [''uci'', ''show'', target]"
proof -
  have allowed: "isAllowedUciConfig config"
    using assms by (auto simp: buildCentralConfigCommand_def split: if_splits)
  define target where "target = (if path = [] then config else path)"
  have cmd: "cmd = ''uci show '' @ target @ '' 2>&1''"
    using assms by (auto simp: buildCentralConfigCommand_def target_def Let_def split: if_splits)
  have "list_all sh_plain target \<and> (\<exists>r. target = config @ r)"
  proof (cases "path = []")
    case True
    with allowed_name [OF allowed] show ?thesis by (simp add: target_def name_plain)
  next
    case False
    let ?ps = "split_on CHR ''.'' path"
    have ps: "hd ?ps = config" "list_all valid_uci_section ?ps"
      using assms False by (auto simp: buildCentralConfigCommand_def Let_def split: if_splits)
    then have "list_all (list_all sh_plain) ?ps" by (auto simp: list_all_iff section_plain [unfolded list_all_iff])
    from join_plain [OF this] join_prefix [of ?ps] ps(1) False show ?thesis
      by (auto simp: target_def join_split_on)
  qed
  then obtain r where plain: "list_all sh_plain target" and r: "target = config @ r" by blast
  have "list_all sh_plain ''uci''" "list_all sh_plain ''show''" by code_simp+
  moreover have "target \<noteq> []" using r allowed_name [OF allowed] by simp
  ultimately have "sh_words (''uci'' @ CHR 0x20 # ''show'' @ CHR 0x20 # target) = Some [''uci'', ''show'', target]"
    by (intro sh_words_plain3 plain) simp_all
  with cmd r allowed show ?thesis by (intro exI [of _ target] exI [of _ r]) simp
qed

theorem central_read_contained_witness:
  "sh_words ''uci show wireless.radio0.channel'' = Some [''uci'', ''show'', ''wireless.radio0.channel'']"
proof -
  have "buildCentralConfigCommand ''wireless'' ''wireless.radio0.channel'' = Some (''uci show '' @ ''wireless.radio0.channel'' @ '' 2>&1'')"
    by code_simp
  from central_read_contained [OF this] show ?thesis by auto
qed

datatype central_kind = CentralPut bool | CentralSafe

fun central_put ::
  "central_kind \<Rightarrow> string \<Rightarrow> edge_env \<Rightarrow> edge_request \<Rightarrow> edge_state \<Rightarrow> central_response \<times> edge_state" where
  "central_put (CentralPut dryRun) config = PutCentralConfigHandler config dryRun"
| "central_put CentralSafe config = SafeRolloutHandler config"

fun central_label :: "central_kind \<Rightarrow> string" where
  "central_label (CentralPut _) = ''CENTRAL_LUCI''"
| "central_label CentralSafe = ''SAFE_ROLLOUT''"

lemma central_put_cases:
  assumes "central_put k config env req s = (r, s')"
  obtains (refused) "s' = s"
  | (queueing) cmds msg hc r' where "isAllowedUciConfig config" "k \<noteq> CentralPut True"
      "read_body dec_command ''commands'' (er_body req) = Some (cmds, True, hc)"
      "queue_edge config (central_label k) msg cmds hc env req s = (r', s')" "r = CcRun r'"
  using assms
  by (cases k) (auto simp: PutCentralConfigHandler_def SafeRolloutHandler_def queue_central_def
      split: option.splits prod.splits if_splits)

lemma check_op_config: "uc_config c \<noteq> config \<Longrightarrow> check_op_command config c = Some OpCrossesNamespace"
  by (simp add: check_op_command_def)

lemma plan_commands_in_config:
  assumes "ValidateDeviceOperationPlan p = Inr ()"
  shows "list_all (\<lambda>c. uc_config c = op_config p) (op_commands p)"
proof -
  have "list_all (\<lambda>c. check_op_command (op_config p) c = None) (op_commands p)"
    using assms by (simp add: ValidateDeviceOperationPlan_def ValidateDeviceOperation_ok split: if_splits)
  then show ?thesis using check_op_config by (fastforce simp: list_all_iff)
qed

text \<open>
  The configuration editor and the rollout to one device change the tenant's tables only by queueing
  what was asked for: the request confirmed and is not a dry run, the namespace is an allowed one and
  the one of every command, backup and commit succeeded, the device had nothing pending and now holds the
  validated plan with exactly the commands of the body under the next generation.
\<close>

theorem central_put_queues:
  assumes "ev_random env = Some b" "length b = 16" "central_put k config env req s = (r, s')"
  shows "es_tenant s' = es_tenant s \<or>
    (\<exists>cmds hc r' a. r = CcRun r' \<and> k \<noteq> CentralPut True \<and> isAllowedUciConfig config
       \<and> read_body dec_command ''commands'' (er_body req) = Some (cmds, True, hc)
       \<and> list_all (\<lambda>c. uc_config c = config) cmds
       \<and> edge_queued config cmds req s r' s' \<and> ev_backup env \<and> ev_commit env
       \<and> es_audit s' = es_audit s @ [a] \<and> au_username a = er_username req
       \<and> au_action a = central_label k @ ''_QUEUED'' \<and> au_resource_id a = er_device req)"
  using assms(3)
proof (cases rule: central_put_cases)
  case (queueing cmds msg hc r')
  have "list_all (\<lambda>c. uc_config c = config) cmds" if "edge_queued config cmds req s r' s'"
    using that plan_commands_in_config by (fastforce simp: edge_queued_def)
  with queueing queue_edge_outcome [OF assms(1,2) queueing(4)] show ?thesis by blast
qed simp

section \<open>Drift and the preflight of a rollout\<close>

lemma drift_commands_filter:
  "drift_commands cmds secs = Some (missing, defaults) \<Longrightarrow>
     missing = [] \<longleftrightarrow> list_all (\<lambda>c. uc_option c = []) (filterUCICommandsByObservedState cmds secs)"
  by (induction cmds arbitrary: missing defaults)
    (auto simp: differs_def bind_eq_Some_conv split: if_splits)

lemma drift_commands_none:
  "drift_commands cmds secs = Some ([], []) \<longleftrightarrow> (\<forall>cs c later. cmds = cs @ c # later \<longrightarrow> \<not> differs c later secs)"
proof (induction cmds)
  case (Cons c cmds)
  have "(\<forall>cs d later. c # cmds = cs @ d # later \<longrightarrow> \<not> differs d later secs) \<longleftrightarrow>
      \<not> differs c cmds secs \<and> (\<forall>cs d later. cmds = cs @ d # later \<longrightarrow> \<not> differs d later secs)"
    by (auto simp: Cons_eq_append_conv)
  with Cons show ?case by (auto simp: bind_eq_Some_conv split: if_splits)
qed simp

lemma those_member: "those xs = Some ys \<Longrightarrow> y \<in> set ys \<longleftrightarrow> Some y \<in> set xs"
  by (induction xs arbitrary: ys) (auto split: option.splits)

lemma those_None: "None \<in> set xs \<Longrightarrow> those xs = None"
  by (induction xs) (auto split: option.splits)

text \<open>What a drift report looks at.\<close>

definition template_commands :: "site_config \<Rightarrow> string \<Rightarrow> string \<Rightarrow> device_row \<Rightarrow> uci_command list" where
  "template_commands cfg i host d = rn_commands (render_device cfg 0 (drift_device i host d))"

lemma GetDeviceDriftHandler_known:
  assumes "i \<noteq> []" "getTenantSchema schema = Inr sc" "devices db i = Some d" "dv_site d = Some site"
    "GetSiteConfig tbl site = Some cfg"
  shows "GetDeviceDriftHandler schema i host db tbl ssh =
     (case those (map (\<lambda>ns. drift_namespace ssh ns (in_namespace ns (template_commands cfg i host d)))
                      (namespaces (template_commands cfg i host d))) of
        None \<Rightarrow> DrPanic | Some rs \<Rightarrow> DrResults rs)"
  using assms by (simp add: GetDeviceDriftHandler_def RenderSiteConfig_def template_commands_def)

lemma drift_result:
  assumes "GetDeviceDriftHandler schema i host db tbl ssh = DrResults rs" "n \<in> set rs"
  obtains d site cfg where "devices db i = Some d" "dv_site d = Some site" "GetSiteConfig tbl site = Some cfg"
    "drift_namespace ssh (nr_config n) (in_namespace (nr_config n) (template_commands cfg i host d)) = Some n"
proof -
  from assms(1) obtain d site cfg sc where known: "i \<noteq> []" "getTenantSchema schema = Inr sc"
      "devices db i = Some d" "dv_site d = Some site" "GetSiteConfig tbl site = Some cfg"
    by (auto simp: GetDeviceDriftHandler_def bind_eq_Some_conv split: if_splits sum.splits option.splits)
  from assms(1) have "those (map (\<lambda>ns. drift_namespace ssh ns (in_namespace ns (template_commands cfg i host d)))
                      (namespaces (template_commands cfg i host d))) = Some rs"
    by (simp add: GetDeviceDriftHandler_known [OF known] split: option.splits)
  from those_member [OF this] assms(2) obtain ns where
    n: "drift_namespace ssh ns (in_namespace ns (template_commands cfg i host d)) = Some n"
    by auto
  then have "nr_config n = ns"
    by (auto simp: drift_namespace_def Let_def split: prod.splits bool.splits)
  with n known that show thesis by simp
qed

text \<open>
  C30. The drift report and the preflight of a rollout agree: a reachable namespace is reported as
  relevant drift exactly when the preflight would keep, of the commands the template renders for it, one
  that sets an option; and as a match exactly when no such command differs from the device at all.
\<close>

theorem drift_agrees:
  assumes "GetDeviceDriftHandler schema i host db tbl ssh = DrResults rs" "n \<in> set rs"
    "ssh (''uci show '' @ nr_config n @ '' 2>&1'') = (out, True)"
  shows "\<exists>d site cfg cmds. devices db i = Some d \<and> dv_site d = Some site \<and> GetSiteConfig tbl site = Some cfg
     \<and> cmds = in_namespace (nr_config n) (template_commands cfg i host d)
     \<and> (nr_status n = ''DRIFT_RELEVANT'' \<longleftrightarrow>
          list_ex (\<lambda>c. uc_option c \<noteq> []) (filterUCICommandsByObservedState cmds (parseUciShow out (nr_config n))))
     \<and> (nr_status n = ''MATCH'' \<longleftrightarrow>
          (\<forall>cs c later. cmds = cs @ c # later \<longrightarrow> uc_option c = []
             \<or> uciCommandMatchesObservedInPlan c later (parseUciShow out (nr_config n))))"
proof -
  from drift_result [OF assms(1,2)] obtain d site cfg where known: "devices db i = Some d" "dv_site d = Some site"
      "GetSiteConfig tbl site = Some cfg"
    and n: "drift_namespace ssh (nr_config n) (in_namespace (nr_config n) (template_commands cfg i host d)) = Some n" .
  define cmds where "cmds = in_namespace (nr_config n) (template_commands cfg i host d)"
  define secs where "secs = parseUciShow out (nr_config n)"
  from n assms(3) obtain missing defaults where dc: "drift_commands cmds secs = Some (missing, defaults)"
    and st: "nr_status n = (if missing \<noteq> [] then ''DRIFT_RELEVANT''
                            else if defaults \<noteq> [] then ''DRIFT_DEFAULT'' else ''MATCH'')"
    by (cases n) (auto simp: drift_namespace_def cmds_def secs_def Let_def)
  have "nr_status n = ''DRIFT_RELEVANT'' \<longleftrightarrow> \<not> list_all (\<lambda>c. uc_option c = []) (filterUCICommandsByObservedState cmds secs)"
    using drift_commands_filter [OF dc] by (simp add: st)
  moreover have "nr_status n = ''MATCH'' \<longleftrightarrow> (\<forall>cs c later. cmds = cs @ c # later \<longrightarrow> \<not> differs c later secs)"
    using drift_commands_none [of cmds secs] dc by (auto simp: st)
  ultimately show ?thesis
    using known unfolding cmds_def [symmetric] secs_def [symmetric]
    by (intro exI [of _ d] exI [of _ site] exI [of _ cfg] exI [of _ cmds])
      (simp add: cmds_def differs_def list_ex_iff list_all_iff)
qed

section \<open>A reservation that breaks the drift report\<close>

lemma drift_commands_panic:
  assumes "cmds = cs @ c # later" "differs c later secs" "formatted c = None"
  shows "drift_commands cmds secs = None"
  using assms by (induction cs arbitrary: cmds) (auto split: bind_splits)

lemma bad_lease_unformatted:
  "ParseMACList (sl_mac l) = None \<Longrightarrow> formatted (lease_command l) = None"
  by (simp add: formatted_def PreviewCommands_def lease_command_def translateCommand_def ensureDHCPHost_def Let_def)

lemma bad_lease_differs:
  assumes "ParseMACList (sl_mac l) = None" "sl_mac l \<noteq> []"
  shows "differs (lease_command l) later secs"
  using assms by (simp add: differs_def lease_command_def uciCommandMatchesObservedInPlan_def uciCommandMatchesObserved_def)

text \<open>
  The template of a site is stored with any list of reservations. When one of them has a MAC address
  the bridge refuses, the report on the drift of the gateway does not come back with an error: the preview
  of the command is empty and its first line is out of range, so the handler panics, on every request
  for which the device can be read.
\<close>

theorem drift_panics:
  assumes "i \<noteq> []" "getTenantSchema schema = Inr sc" "devices db i = Some d" "dv_site d = Some site"
    "dv_role d = Some ''Gateway''" "GetSiteConfig tbl site = Some cfg"
    and "l \<in> set (column_list dec_lease (sc_dhcp_reservations cfg))" "ParseMACList (sl_mac l) = None" "sl_mac l \<noteq> []"
    and "snd (ssh ''uci show dhcp 2>&1'')"
  shows "GetDeviceDriftHandler schema i host db tbl ssh = DrPanic"
proof -
  let ?cmds = "template_commands cfg i host d" and ?c = "lease_command l"
  have mem: "?c \<in> set ?cmds"
    using assms(5,7) by (auto simp: template_commands_def render_device_def drift_device_def render_gateway_def
        render_reservations_def Let_def)
  have cfg: "uc_config ?c = ''dhcp''" by (simp add: lease_command_def)
  from mem cfg have "?c \<in> set (in_namespace ''dhcp'' ?cmds)" by (simp add: in_namespace_def)
  then obtain cs later where "in_namespace ''dhcp'' ?cmds = cs @ ?c # later" by (auto dest: split_list)
  from drift_commands_panic [OF this bad_lease_differs [OF assms(8,9)] bad_lease_unformatted [OF assms(8)]]
  have "drift_namespace ssh ''dhcp'' (in_namespace ''dhcp'' ?cmds) = None"
    using assms(10) by (auto simp: drift_namespace_def Let_def split: prod.splits bool.splits)
  moreover have "''dhcp'' \<in> set (namespaces ?cmds)"
    using imageI [OF mem, of uc_config] cfg by (simp add: namespaces_def set_dedup)
  ultimately have "None \<in> set (map (\<lambda>ns. drift_namespace ssh ns (in_namespace ns ?cmds)) (namespaces ?cmds))"
    by (metis (no_types, lifting) image_eqI list.set_map)
  from those_None [OF this] show ?thesis
    by (simp add: GetDeviceDriftHandler_known [OF assms(1-4,6)])
qed

section \<open>The raw editor\<close>

text \<open>
  A script of the raw editor reaches a device only in a namespace without a typed path, it consists of
  the commands of the request, each a validated line of its own, between the fixed parts, and
  the tenant's tables stay as they are. Every command but \<open>uci add\<close> is a single simple command of the shell.
\<close>

theorem raw_editor_contained:
  assumes "PutUciHandler config req ssh s = (r, Some script, s')"
  shows "config \<in> set [''uhttpd'', ''openvpn'', ''usteer''] \<and> es_tenant s' = es_tenant s
     \<and> (\<exists>cmds. script = raw_script config cmds
          \<and> list_all (\<lambda>c. ValidRawUCICommand c config \<and> CHR 0x0A \<notin> set c
               \<and> (has_prefix c ''uci add '' \<or> (\<exists>ws. sh_words c = Some (''uci'' # ws)))) cmds)"
proof -
  from assms obtain cs where typed: "isAllowedUciConfig config" "\<not> requiresDeviceOperation config"
    and valid: "\<not> list_ex (\<lambda>c. \<not> ValidRawUCICommand c config) (slice_elems cs)"
    and out: "script = raw_script config (slice_elems cs)" "es_tenant s' = es_tenant s"
    by (auto simp: PutUciHandler_def InsertAuditLog_def Let_def split: if_splits option.splits prod.splits bool.splits)
  from typed have "config \<in> set [''uhttpd'', ''openvpn'', ''usteer'']"
    by (auto simp: isAllowedUciConfig_def allowedUciConfigs_def requiresDeviceOperation_def)
  moreover have "CHR 0x0A \<notin> set c" if "ValidRawUCICommand c config" for c
    using that by (auto simp: ValidRawUCICommand_def contains_any_def shell_specials_def list_ex_iff split: if_splits)
  moreover have "has_prefix c ''uci add '' \<or> (\<exists>ws. sh_words c = Some (''uci'' # ws))" if "ValidRawUCICommand c config" for c
    using ValidRawUCICommand_simple [OF that] by blast
  ultimately have "list_all (\<lambda>c. ValidRawUCICommand c config \<and> CHR 0x0A \<notin> set c
       \<and> (has_prefix c ''uci add '' \<or> (\<exists>ws. sh_words c = Some (''uci'' # ws)))) (slice_elems cs)"
    using valid by (simp add: list_all_iff list_ex_iff)
  with \<open>config \<in> _\<close> out show ?thesis by blast
qed

section \<open>Samples\<close>

definition sample_hostname :: uci_command where
  "sample_hostname = mk_uci ''set'' ''system'' ''@system[0]'' ''hostname'' ''gw-1''"

definition sample_central_request :: edge_request where
  "sample_central_request = \<lparr>er_device = ''dev-1'', er_username = ''alice'', er_remote = ''10.0.0.7'', er_schema = ''tenant_a'',
     er_body = Some (JObj [(''commands'', JArr [command_json sample_hostname]), (''confirm'', JBool True)])\<rparr>"

lemma sample_central_body:
  "read_body dec_command ''commands'' (er_body sample_central_request) = Some ([sample_hostname], True, None)"
  by code_simp

lemma sample_hostname_ok: "ValidateDeviceOperation ''system'' [sample_hostname] None = Inr ()"
  by code_simp

lemma sample_central_fields:
  "er_device sample_central_request = ''dev-1''" "er_schema sample_central_request = ''tenant_a''"
  by (simp_all add: sample_central_request_def)

theorem central_put_queues_witness:
  "\<exists>r' s'. central_put CentralSafe ''system'' sample_edge_env sample_central_request \<lparr>es_tenant = sample_db, es_audit = []\<rparr> = (CcRun r', s')
     \<and> edge_queued ''system'' [sample_hostname] sample_central_request \<lparr>es_tenant = sample_db, es_audit = []\<rparr> r' s'"
proof -
  let ?s = "\<lparr>es_tenant = sample_db, es_audit = []\<rparr>"
  obtain r s' where run: "central_put CentralSafe ''system'' sample_edge_env sample_central_request ?s = (r, s')" by force
  have "isAllowedUciConfig ''system''" "uc_config sample_hostname = ''system''" by code_simp+
  then have "es_tenant s' = es_tenant (snd (queue_edge ''system'' ''SAFE_ROLLOUT''
      (''Queued '' @ nat_str 1 @ '' commands to '' @ ''system'') [sample_hostname] None sample_edge_env sample_central_request ?s))"
    using run by (simp add: SafeRolloutHandler_def queue_central_def sample_central_body sample_central_fields split: prod.splits)
  then have "es_tenant s' \<noteq> sample_db"
    using sample_queue_edge [OF sample_hostname_ok sample_central_fields] by simp
  with central_put_queues [OF sample_edge_fields(6) length_replicate run] run show ?thesis
    by (auto simp: sample_central_body)
qed

definition sample_raw_request :: edge_request where
  "sample_raw_request = sample_central_request\<lparr>er_body := Some (JObj [(''commands'', JArr [JStr ''uci set uhttpd.main.redirect_https=1''])])\<rparr>"

theorem raw_editor_contained_witness:
  "\<exists>script cmds. fst (snd (PutUciHandler ''uhttpd'' sample_raw_request (\<lambda>_. ([], True)) \<lparr>es_tenant = sample_db, es_audit = []\<rparr>)) = Some script
     \<and> script = raw_script ''uhttpd'' cmds"
proof -
  have "Option.bind (er_body sample_raw_request) (\<lambda>j. Option.bind (go_obj j) (go_slice elem_str ''commands''))
      = Some (Some [''uci set uhttpd.main.redirect_https=1''])"
    "ValidRawUCICommand ''uci set uhttpd.main.redirect_https=1'' ''uhttpd''"
    "isAllowedUciConfig ''uhttpd''" "\<not> requiresDeviceOperation ''uhttpd''"
    by code_simp+
  then obtain r script s' where "PutUciHandler ''uhttpd'' sample_raw_request (\<lambda>_. ([], True)) \<lparr>es_tenant = sample_db, es_audit = []\<rparr> = (r, Some script, s')"
    by (simp add: PutUciHandler_def)
  from raw_editor_contained [OF this] this show ?thesis by auto
qed

definition sample_drift_config :: site_config where
  "sample_drift_config = (empty_site ''s-1'')\<lparr>sc_id := ''c-1'',
     sc_dhcp_reservations := Some (JArr [JObj [(''name'', JStr ''printer''), (''mac'', JStr ''unknown''), (''ip'', JStr ''10.0.0.9'')]])\<rparr>"

definition sample_drift_db :: tenant_db where
  "sample_drift_db = \<lparr>devices = [''dev-1'' \<mapsto> sample_row\<lparr>dv_site := Some ''s-1'', dv_role := Some ''Gateway''\<rparr>],
     rollouts = [], audit_logs = []\<rparr>"


lemma sample_drift_known:
  "getTenantSchema ''tenant_a'' = Inr ''tenant_a''"
  "GetSiteConfig [''s-1'' \<mapsto> sample_drift_config] ''s-1'' = Some (the (GetSiteConfig [''s-1'' \<mapsto> sample_drift_config] ''s-1''))"
  "column_list dec_lease (sc_dhcp_reservations (the (GetSiteConfig [''s-1'' \<mapsto> sample_drift_config] ''s-1'')))
     = [\<lparr>sl_name = ''printer'', sl_mac = ''unknown'', sl_ip = ''10.0.0.9''\<rparr>]"
  "ParseMACList ''unknown'' = None"
  by code_simp+

theorem drift_panics_witness:
  "GetDeviceDriftHandler ''tenant_a'' ''dev-1'' [] sample_drift_db [''s-1'' \<mapsto> sample_drift_config] (\<lambda>_. ([], True)) = DrPanic"
  by (rule drift_panics [where sc = "''tenant_a''" and site = "''s-1''" and l = "\<lparr>sl_name = ''printer'', sl_mac = ''unknown'', sl_ip = ''10.0.0.9''\<rparr>"
        and cfg = "the (GetSiteConfig [''s-1'' \<mapsto> sample_drift_config] ''s-1'')"
        and d = "sample_row\<lparr>dv_site := Some ''s-1'', dv_role := Some ''Gateway''\<rparr>"])
    (use sample_drift_known in \<open>simp_all add: sample_drift_db_def\<close>)

definition sample_out :: string where
  "sample_out = ''system.@system[0]=system'' @ [CHR 0x0A] @ ''system.@system[0].hostname='' @ sq @ ''ap-1'' @ sq"

definition sample_read :: ssh_session where
  "sample_read cmd = (sample_out, True)"

definition sample_report :: drift_response where
  "sample_report = GetDeviceDriftHandler ''tenant_a'' ''dev-1'' ''ap-1''
     (sample_drift_db\<lparr>devices := [''dev-1'' \<mapsto> sample_row\<lparr>dv_site := Some ''s-1''\<rparr>]\<rparr>) [''s-1'' \<mapsto> sample_drift_config] sample_read"

theorem drift_agrees_witness:
  "\<exists>rs n d site cfg cmds. sample_report = DrResults rs \<and> n \<in> set rs \<and> nr_status n = ''DRIFT_RELEVANT''
     \<and> cmds = in_namespace (nr_config n) (template_commands cfg ''dev-1'' ''ap-1'' d) \<and> dv_site d = Some site
     \<and> list_ex (\<lambda>c. uc_option c \<noteq> [])
         (filterUCICommandsByObservedState cmds (parseUciShow sample_out (nr_config n)))"
proof -
  have "(case sample_report of DrResults rs \<Rightarrow> map nr_status rs | _ \<Rightarrow> []) = [''DRIFT_RELEVANT'', ''DRIFT_RELEVANT'']"
    by code_simp
  then obtain rs where rs: "sample_report = DrResults rs" "map nr_status rs = [''DRIFT_RELEVANT'', ''DRIFT_RELEVANT'']"
    by (simp split: drift_response.splits)
  then obtain n where n: "n \<in> set rs" "nr_status n = ''DRIFT_RELEVANT''"
    by (cases rs) auto
  obtain d site cfg cmds where "dv_site d = Some site"
      "cmds = in_namespace (nr_config n) (template_commands cfg ''dev-1'' ''ap-1'' d)"
      "list_ex (\<lambda>c. uc_option c \<noteq> []) (filterUCICommandsByObservedState cmds (parseUciShow sample_out (nr_config n)))"
    using drift_agrees [OF rs(1) [unfolded sample_report_def] n(1) sample_read_def] n(2) by blast
  with rs(1) n show ?thesis by blast
qed

end
