(* ===== verification/Device_Delivery.thy ===== *)
theory Device_Delivery
  imports Enrollment Edge_Api Site_Config Change_Set_Queue "HOL-Library.AList"
begin

text \<open>
  What a device fetches from the controller, \<open>src/internal/api/handlers/provision.go\<close>: the check of its
  credentials, the pending operation or changeset of its row, the WLANs of its site and the settings of the
  tunnel, with \<open>AssignInternalIP\<close> of \<open>src/internal/services/vpn.go\<close>.

  The endpoint runs without the transaction of the middleware: every statement commits by itself. Beside
  the tables of the enrollment it reads the WLANs, the template and the tunnel columns of a schema, which
  are a record of their own. The keys of WireGuard (Curve25519) and the random bytes are arguments, and
  so is the device a remote address belongs to (the columns \<open>last_ip\<close> and \<open>last_seen_at\<close>).
\<close>

section \<open>Tables\<close>

record ap_wlan = wlan_row +
  ap_id :: string
  ap_band :: "string option"
  ap_roaming :: "bool option"
  ap_k :: "bool option"
  ap_v :: "bool option"
  ap_w :: "string option"
  ap_auth_server :: "string option"
  ap_auth_secret :: "string option"
  ap_dynamic_vlan :: "string option"
  ap_target :: "string option"

record radio_db =
  rb_wlans :: "ap_wlan list"
  rb_assigned :: "(string \<times> string) list"
  rb_configs :: site_table
  rb_threat :: "string \<Rightarrow> bool"
  rb_wg_key :: "string \<rightharpoonup> string"
  rb_wg_ip :: "(string \<times> string) list"
  rb_site_endpoint :: "string \<rightharpoonup> string"
  rb_site_pub :: "string \<rightharpoonup> string"

record delivery_state =
  dl_world :: world
  dl_radio :: "string \<Rightarrow> radio_db"

section \<open>Addresses of the tunnel\<close>

definition tunnel_ip :: "nat \<Rightarrow> string" where
  "tunnel_ip n = ''10.8.0.'' @ nat_str n"

text \<open>
  The column \<open>wg_ip\<close> as pairs of a device and its address. The addresses in use are those that match
  \<open>LIKE '10.8.0.%'\<close>; the first free number from 2 to 253 is taken.
\<close>

definition used_ips :: "(string \<times> string) list \<Rightarrow> string list" where
  "used_ips ips = filter (\<lambda>ip. has_prefix ip ''10.8.0.'') (map snd ips)"

definition ip_read :: "(string \<times> string) list \<Rightarrow> string option" where
  "ip_read ips = map_option tunnel_ip (find (\<lambda>n. tunnel_ip n \<notin> set (used_ips ips)) [2..<254])"

definition ip_write :: "(string \<Rightarrow> bool) \<Rightarrow> string \<Rightarrow> string \<Rightarrow> (string \<times> string) list \<Rightarrow> (string \<times> string) list" where
  "ip_write known i ip ips = (if known i then AList.update i ip ips else ips)"

definition AssignInternalIP ::
  "(string \<Rightarrow> bool) \<Rightarrow> string \<Rightarrow> (string \<times> string) list \<Rightarrow> string option \<times> (string \<times> string) list" where
  "AssignInternalIP known i ips =
     (if known i \<and> coalesce (map_of ips i) \<noteq> [] then (map_of ips i, ips)
      else (case ip_read ips of
              None \<Rightarrow> (None, ips)
            | Some ip \<Rightarrow> (Some ip, ip_write known i ip ips)))"

section \<open>Who is asking\<close>

record provision_request =
  pq_device :: string
  pq_key :: string
  pq_token :: string
  pq_remote :: string

text \<open>
  \<open>pe_order\<close> is the order in which a scan of the devices of a schema meets their ids, \<open>pe_by_ip\<close> the
  device with a site that was seen last under an address.
\<close>

record provision_env =
  pe_legacy :: bool
  pe_random :: "string option"
  pe_keys :: "(string \<times> string) option"
  pe_site_keys :: "(string \<times> string) option"
  pe_order :: "string \<Rightarrow> string list"
  pe_by_ip :: "string \<Rightarrow> string \<Rightarrow> string option"
  pe_survey :: "string \<Rightarrow> string \<Rightarrow> string option"
  pe_public_key :: string

text \<open>\<open>net.SplitHostPort\<close>: the host, or \<open>None\<close> for an error.\<close>

definition SplitHostPort_host :: "string \<Rightarrow> string option" where
  "SplitHostPort_host s =
     (case cut_at CHR '':'' (rev s) of
        None \<Rightarrow> None
      | Some (rport, rbefore) \<Rightarrow>
          (let port = rev rport; before = rev rbefore in
           if before \<noteq> [] \<and> hd before = CHR ''[''
           then (case cut_at CHR '']'' (tl before) of
                   None \<Rightarrow> None
                 | Some (host, rest) \<Rightarrow>
                     if rest \<noteq> [] \<or> CHR ''['' \<in> set host \<or> CHR ''['' \<in> set port \<or> CHR '']'' \<in> set port then None else Some host)
           else if CHR '':'' \<in> set before \<or> CHR ''['' \<in> set before \<or> CHR '']'' \<in> set before
                   \<or> CHR ''['' \<in> set port \<or> CHR '']'' \<in> set port then None
           else Some before))"

definition requestRemoteIP :: "string \<Rightarrow> string" where
  "requestRemoteIP remoteAddr = (case SplitHostPort_host remoteAddr of None \<Rightarrow> remoteAddr | Some h \<Rightarrow> h)"

definition resolveDeviceTenant :: "bool \<Rightarrow> string \<Rightarrow> string \<Rightarrow> world \<Rightarrow> (string \<times> string) option" where
  "resolveDeviceTenant legacy providedToken providedKey w =
     (let by_key = (case GetTenantSchemaForSiteKey providedKey w of Inl _ \<Rightarrow> None | Inr s \<Rightarrow> Some (s, []))
      in if providedToken \<noteq> []
         then (case GetTenantSchemaForDeviceToken providedToken w of
                 Inr s \<Rightarrow> Some (s, providedToken)
               | Inl _ \<Rightarrow> if \<not> legacy \<or> providedKey = [] then None else by_key)
         else by_key)"

text \<open>The three lookups: the stored id and token, \<open>None\<close> for no row.\<close>

definition resolveDeviceIdentity :: "string list \<Rightarrow> string \<Rightarrow> enroll_db \<Rightarrow> (string \<times> string option) option" where
  "resolveDeviceIdentity order requestedID db =
     map_option (\<lambda>i. (i, dev_token i db))
       (find (\<lambda>i. devices (en_tenant db) i \<noteq> None \<and> go_lower i = go_lower requestedID) order)"

definition resolveDeviceIdentityByToken :: "string \<Rightarrow> enroll_db \<Rightarrow> (string \<times> string option) option" where
  "resolveDeviceIdentityByToken token db =
     map_option (\<lambda>c. (cd_device c, cd_token c)) (find (\<lambda>c. cd_token c = Some token) (en_creds db))"

definition resolveDeviceIdentityByIP ::
  "(string \<Rightarrow> string option) \<Rightarrow> string \<Rightarrow> enroll_db \<Rightarrow> (string \<times> string option) option" where
  "resolveDeviceIdentityByIP by_ip remoteIP db = map_option (\<lambda>i. (i, dev_token i db)) (by_ip remoteIP)"

definition identify :: "provision_env \<Rightarrow> provision_request \<Rightarrow> string \<Rightarrow> string \<Rightarrow> string \<Rightarrow> enroll_db \<Rightarrow> (string \<times> string option) option" where
  "identify env req schema token deviceID db =
     (case resolveDeviceIdentity (pe_order env schema) deviceID db of
        Some x \<Rightarrow> Some x
      | None \<Rightarrow>
          if token \<noteq> [] then resolveDeviceIdentityByToken token db
          else if pe_legacy env then resolveDeviceIdentityByIP (pe_by_ip env schema) (requestRemoteIP (pq_remote req)) db
          else None)"

text \<open>\<open>ensureDeviceToken\<close> and its \<open>UPDATE\<close>.\<close>

definition set_token :: "string \<Rightarrow> string \<Rightarrow> enroll_db \<Rightarrow> enroll_db" where
  "set_token i t db =
     put_cred \<lparr>cd_device = i, cd_token = Some t, cd_status = Option.bind (find_cred i db) cd_status\<rparr> db"

definition ensureDeviceToken ::
  "string option \<Rightarrow> string \<Rightarrow> string option \<Rightarrow> enroll_db \<Rightarrow> (string \<times> enroll_db) option" where
  "ensureDeviceToken rnd i current db =
     (if coalesce current \<noteq> [] then Some (coalesce current, db)
      else (case rnd of None \<Rightarrow> None | Some b \<Rightarrow> Some (hex_encode b, set_token i (hex_encode b) db)))"

section \<open>Pending work\<close>

definition dec_operation_plan :: "json \<Rightarrow> device_operation_plan option" where
  "dec_operation_plan j =
     Option.bind (go_obj j) (\<lambda>kvs.
     Option.bind (go_str ''operation_id'' kvs) (\<lambda>i.
     Option.bind (go_str ''plan_hash'' kvs) (\<lambda>h.
     Option.bind (go_int ''generation'' kvs) (\<lambda>g.
     Option.bind (go_str ''config'' kvs) (\<lambda>c.
     Option.bind (go_slice dec_command ''commands'' kvs) (\<lambda>cmds.
     Option.bind (go_slice elem_str ''health_checks'' kvs) (\<lambda>hc.
     Option.bind (go_bool ''auto_confirm'' kvs) (\<lambda>ac.
       Some \<lparr>op_id = i, op_plan_hash = h, op_generation = g, op_config = c, op_commands = slice_elems cmds,
             op_health_checks = hc, op_auto_confirm = ac\<rparr>))))))))"

definition dec_change_set :: "json \<Rightarrow> change_set option" where
  "dec_change_set j =
     Option.bind (go_obj j) (\<lambda>kvs.
     Option.bind (go_str ''change_set_id'' kvs) (\<lambda>i.
     Option.bind (go_str ''device_id'' kvs) (\<lambda>d.
     Option.bind (go_str ''plan_hash'' kvs) (\<lambda>h.
     Option.bind (go_int ''generation'' kvs) (\<lambda>g.
     Option.bind (go_slice dec_operation ''operations'' kvs) (\<lambda>ops.
     Option.bind (go_slice elem_str ''health_checks'' kvs) (\<lambda>hc.
     Option.bind (go_str ''confirmation_policy'' kvs) (\<lambda>p.
       Some \<lparr>cs_id = i, cs_device_id = d, cs_plan_hash = h, cs_generation = g, cs_operations = slice_elems ops,
             cs_health_checks = hc, cs_policy = p\<rparr>))))))))"

definition decodePendingDeviceOperation :: "json \<Rightarrow> device_operation_plan option" where
  "decodePendingDeviceOperation raw =
     Option.bind (dec_operation_plan raw)
       (\<lambda>plan. if ValidateDeviceOperationPlan plan = Inr () then Some plan else None)"

definition decodePendingDeviceChangeSet :: "json \<Rightarrow> change_set option" where
  "decodePendingDeviceChangeSet raw =
     Option.bind (dec_change_set raw)
       (\<lambda>cs. if ValidateDeviceChangeSet cs = Inr () then Some cs else None)"

definition validatePendingDeviceChangeSetForDevice :: "change_set \<Rightarrow> string \<Rightarrow> bool" where
  "validatePendingDeviceChangeSetForDevice cs deviceID \<longleftrightarrow>
     equal_fold (cs_device_id cs) deviceID \<and> cs_generation cs > 0"

text \<open>
  The pending work of a row as the handler hands it out: \<open>None\<close> for one of its refusals, otherwise the
  operation and the changeset.
\<close>

definition pending_work ::
  "string \<Rightarrow> string \<Rightarrow> tenant_db \<Rightarrow> (device_operation_plan option \<times> change_set option) option" where
  "pending_work schema i db =
     (case GetPendingDeviceOperation schema i db of
        Inl _ \<Rightarrow> None
      | Inr rawOp \<Rightarrow>
          (case (case rawOp of None \<Rightarrow> Some None | Some j \<Rightarrow> map_option Some (decodePendingDeviceOperation j)) of
             None \<Rightarrow> None
           | Some plan \<Rightarrow>
               (case GetPendingDeviceChangeSet schema i db of
                  Inl _ \<Rightarrow> None
                | Inr rawCs \<Rightarrow>
                    (case (case rawCs of None \<Rightarrow> Some None | Some j \<Rightarrow> map_option Some (decodePendingDeviceChangeSet j)) of
                       None \<Rightarrow> None
                     | Some cs \<Rightarrow>
                         if (case cs of None \<Rightarrow> False | Some c \<Rightarrow> \<not> validatePendingDeviceChangeSetForDevice c i) then None
                         else if plan \<noteq> None \<and> cs \<noteq> None then None
                         else Some (plan, cs)))))"

section \<open>The configuration\<close>

text \<open>The object of one WLAN, as key and value.\<close>

definition flag_entry :: "string \<Rightarrow> bool option \<Rightarrow> (string \<times> string) list" where
  "flag_entry k b = (if b = Some True then [(k, ''1'')] else [])"

definition text_entry :: "string \<Rightarrow> string list \<Rightarrow> string \<Rightarrow> (string \<times> string) list" where
  "text_entry k absent v = (if v \<in> set ([] # absent) then [] else [(k, v)])"

definition or_else :: "string \<Rightarrow> string option \<Rightarrow> string" where
  "or_else d x = (case x of None \<Rightarrow> d | Some v \<Rightarrow> v)"

definition wlan_object :: "string \<Rightarrow> string \<Rightarrow> ap_wlan \<Rightarrow> (string \<times> string) list" where
  "wlan_object security password w =
     [(''ssid'', wl_ssid w), (''security'', security), (''band'', or_else ''both'' (ap_band w))]
     @ text_entry ''key'' [] password
     @ flag_entry ''ieee80211r'' (ap_roaming w) @ flag_entry ''ieee80211k'' (ap_k w) @ flag_entry ''ieee80211v'' (ap_v w)
     @ text_entry ''ieee80211w'' [''0''] (or_else ''0'' (ap_w w))
     @ text_entry ''auth_server'' [] (coalesce (ap_auth_server w))
     @ text_entry ''auth_secret'' [] (coalesce (ap_auth_secret w))
     @ text_entry ''dynamic_vlan'' [''0''] (or_else ''0'' (ap_dynamic_vlan w))"

definition wlan_applies :: "radio_db \<Rightarrow> bool \<Rightarrow> string \<Rightarrow> ap_wlan \<Rightarrow> bool" where
  "wlan_applies rb globalEnabled deviceID w =
     WLANAppliesToDevice globalEnabled (or_else ''all'' (ap_target w)) ((deviceID, ap_id w) \<in> set (rb_assigned rb))"

text \<open>The template's global fields with the defaults of the query; no row leaves the initial values.\<close>

definition global_wlan :: "radio_db \<Rightarrow> string \<Rightarrow> bool \<times> string \<times> string \<times> string" where
  "global_wlan rb siteID =
     (case rb_configs rb siteID of
        None \<Rightarrow> (True, [], [], [])
      | Some c \<Rightarrow> (sc_enable_global_ssid c, sc_global_ssid c, sc_global_wpa_key c, sc_global_encryption c))"

definition site_wlans :: "radio_db \<Rightarrow> string \<Rightarrow> string \<Rightarrow> ap_wlan list" where
  "site_wlans rb siteID deviceID =
     filter (wlan_applies rb (fst (global_wlan rb siteID)) deviceID)
       (sort_key ap_id (filter (\<lambda>w. wl_site w = siteID \<and> wl_enabled w) (rb_wlans rb)))"

definition wlan_resolution :: "radio_db \<Rightarrow> string \<Rightarrow> ap_wlan \<Rightarrow> string \<times> string \<times> string list" where
  "wlan_resolution rb siteID w =
     (case global_wlan rb siteID of (_, ssid, key, enc) \<Rightarrow>
        ResolveCanonicalWLAN ssid enc key (wl_ssid w) (wl_security w) (coalesce (wl_password w)))"

definition wlansList :: "radio_db \<Rightarrow> string \<Rightarrow> string \<Rightarrow> (string \<times> string) list list" where
  "wlansList rb siteID deviceID =
     map (\<lambda>w. case wlan_resolution rb siteID w of (sec, pw, _) \<Rightarrow> wlan_object sec pw w) (site_wlans rb siteID deviceID)"

definition policyConflicts :: "radio_db \<Rightarrow> string \<Rightarrow> string \<Rightarrow> string list" where
  "policyConflicts rb siteID deviceID =
     concat (map (\<lambda>w. case wlan_resolution rb siteID w of (_, _, cs) \<Rightarrow>
         if cs = [] then [] else [wl_ssid w @ '': '' @ join_with '','' cs]) (site_wlans rb siteID deviceID))"

text \<open>
  The tunnel: missing keys of the device and of the site are generated and stored, and so is the
  address. The settings are sent to a gateway only, and when the site has an endpoint and the template
  does not switch the tunnel off.
\<close>

definition ensure_keys :: "(string \<times> string) option \<Rightarrow> (string \<times> string \<Rightarrow> string) \<Rightarrow> string \<Rightarrow> (string \<rightharpoonup> string) \<Rightarrow> (string \<rightharpoonup> string)" where
  "ensure_keys gen part i keys =
     (if coalesce (keys i) \<noteq> [] then keys
      else (case gen of None \<Rightarrow> keys | Some k \<Rightarrow> keys(i \<mapsto> part k)))"

definition prepare_tunnel :: "provision_env \<Rightarrow> (string \<Rightarrow> bool) \<Rightarrow> string \<Rightarrow> string \<Rightarrow> radio_db \<Rightarrow> radio_db" where
  "prepare_tunnel env known siteID i rb =
     rb\<lparr>rb_wg_key := ensure_keys (pe_keys env) fst i (rb_wg_key rb),
        rb_wg_ip := (if coalesce (map_of (rb_wg_ip rb) i) \<noteq> [] then rb_wg_ip rb
                     else snd (AssignInternalIP known i (rb_wg_ip rb))),
        rb_site_pub := ensure_keys (pe_site_keys env) snd siteID (rb_site_pub rb)\<rparr>"

definition wireguard :: "string option \<Rightarrow> string \<Rightarrow> string \<Rightarrow> radio_db \<Rightarrow> (string \<times> string) list option" where
  "wireguard role siteID i rb =
     (if coalesce (rb_site_endpoint rb siteID) \<noteq> [] \<and> role \<noteq> None \<and> equal_fold (coalesce role) ''gateway''
         \<and> (case rb_configs rb siteID of None \<Rightarrow> True | Some c \<Rightarrow> sc_secure_tunnel_enabled c)
      then Some [(''private_key'', coalesce (rb_wg_key rb i)), (''controller_pubkey'', coalesce (rb_site_pub rb siteID)),
                 (''endpoint_ip'', coalesce (rb_site_endpoint rb siteID)), (''internal_ip'', coalesce (map_of (rb_wg_ip rb) i)),
                 (''allowed_ips'', ''10.8.0.0/24'')]
      else None)"

record config_payload =
  cf_device_token :: string
  cf_wlans :: "(string \<times> string) list list"
  cf_conflicts :: "string list"
  cf_ssh :: "string option"
  cf_wireguard :: "(string \<times> string) list option"
  cf_threat_shield :: bool
  cf_tailscale :: "bool \<times> string"
  cf_survey :: "string option"
  cf_operation :: "device_operation_plan option"
  cf_change_set :: "change_set option"
  cf_root_token :: "string option"

definition config_of ::
  "provision_env \<Rightarrow> string \<Rightarrow> string \<Rightarrow> string \<Rightarrow> string option \<Rightarrow> string
    \<Rightarrow> device_operation_plan option \<times> change_set option \<Rightarrow> radio_db \<Rightarrow> config_payload" where
  "config_of env schema siteID i role token work rb =
     \<lparr>cf_device_token = token, cf_wlans = wlansList rb siteID i, cf_conflicts = policyConflicts rb siteID i,
      cf_ssh = (if pe_public_key env = [] then None else Some (trim_space (pe_public_key env))),
      cf_wireguard = wireguard role siteID i rb, cf_threat_shield = rb_threat rb siteID,
      cf_tailscale = (False, []),
      cf_survey = (if siteID = [] then None else pe_survey env schema siteID),
      cf_operation = fst work, cf_change_set = snd work,
      cf_root_token = (if pe_legacy env then Some token else None)\<rparr>"

section \<open>The handler\<close>

datatype provision_response =
    PrBadId | PrForbidden | PrTokenRequired | PrUnauthorized | PrNotFound | PrServer | PrUnavailable
  | PrWait
  | PrApply config_payload

definition site_key :: "string option \<Rightarrow> enroll_db \<Rightarrow> string" where
  "site_key site db = coalesce (Option.bind (Option.bind site (\<lambda>s. find_site s db)) sr_api_key)"

text \<open>What follows the check of the credentials: \<open>i\<close> is the id of the row, \<open>stored\<close> its token.\<close>

definition serve_device ::
  "provision_env \<Rightarrow> provision_request \<Rightarrow> string \<Rightarrow> string \<Rightarrow> string \<Rightarrow> string option \<Rightarrow> enroll_db \<Rightarrow> delivery_state
    \<Rightarrow> provision_response \<times> delivery_state" where
  "serve_device env req schema token i stored db st =
     (case devices (en_tenant db) i of
        None \<Rightarrow> (PrNotFound, st)
      | Some d \<Rightarrow>
          if token = [] \<and> site_key (dv_site d) db \<noteq> [] \<and> pq_key req \<noteq> [] \<and> pq_key req \<noteq> site_key (dv_site d) db
          then (PrForbidden, st)
          else
            (case pending_work schema i (en_tenant db) of
               None \<Rightarrow> (PrUnavailable, st)
             | Some work \<Rightarrow>
                 (case dv_site d of
                    None \<Rightarrow> (PrWait, st)
                  | Some siteID \<Rightarrow>
                      (let rb = prepare_tunnel env (\<lambda>x. devices (en_tenant db) x \<noteq> None) siteID i (dl_radio st schema)
                       in (PrApply (config_of env schema siteID i (dv_role d) (coalesce stored) work rb),
                           st\<lparr>dl_radio := (dl_radio st)(schema := rb)\<rparr>)))))"

definition GetDeviceConfigHandler ::
  "provision_env \<Rightarrow> provision_request \<Rightarrow> delivery_state \<Rightarrow> provision_response \<times> delivery_state" where
  "GetDeviceConfigHandler env req st =
     (case normalizeEnrollmentDeviceID (pq_device req) of
        None \<Rightarrow> (PrBadId, st)
      | Some deviceID \<Rightarrow>
          if pq_key req = [] \<and> pq_token req = [] then (PrForbidden, st)
          else if pq_token req = [] \<and> \<not> pe_legacy env then (PrTokenRequired, st)
          else
            (case resolveDeviceTenant (pe_legacy env) (pq_token req) (pq_key req) (dl_world st) of
               None \<Rightarrow> (PrForbidden, st)
             | Some (schema, token) \<Rightarrow>
                 (case SafeSchemaIdent schema of
                    Inl _ \<Rightarrow> (PrForbidden, st)
                  | Inr _ \<Rightarrow>
                      (case wd_schemas (dl_world st) schema of
                         None \<Rightarrow> (PrServer, st)
                       | Some db \<Rightarrow>
                           (case identify env req schema token deviceID db of
                              None \<Rightarrow> (if token = [] then (if pe_legacy env then PrNotFound else PrTokenRequired)
                                      else PrUnauthorized, st)
                            | Some (i, stored) \<Rightarrow>
                                if token \<noteq> [] \<and> stored \<noteq> Some token then (PrUnauthorized, st)
                                else if token = [] \<and> coalesce stored = []
                                then (case ensureDeviceToken (pe_random env) i stored db of
                                        None \<Rightarrow> (PrServer, st)
                                      | Some (t, db') \<Rightarrow>
                                          serve_device env req schema token i (Some t) db'
                                            (st\<lparr>dl_world := (dl_world st)
                                               \<lparr>wd_schemas := (wd_schemas (dl_world st))(schema \<mapsto> db')\<rparr>\<rparr>))
                                else serve_device env req schema token i stored db st)))))"

section \<open>Only the device itself gets its work\<close>

text \<open>The work of a row: decoded and validated, for this device, and not of both kinds.\<close>

definition row_work :: "device_row \<Rightarrow> string \<Rightarrow> device_operation_plan option \<Rightarrow> change_set option \<Rightarrow> bool" where
  "row_work d i plan cs \<longleftrightarrow>
     (case plan of
        None \<Rightarrow> non_null (dv_pending_op d) = None
      | Some p \<Rightarrow> Option.bind (dv_pending_op d) dec_operation_plan = Some p \<and> ValidateDeviceOperationPlan p = Inr ())
     \<and> (case cs of
          None \<Rightarrow> non_null (dv_pending_cs d) = None
        | Some c \<Rightarrow> Option.bind (dv_pending_cs d) dec_change_set = Some c \<and> ValidateDeviceChangeSet c = Inr ()
             \<and> equal_fold (cs_device_id c) i \<and> 0 < cs_generation c)
     \<and> (plan = None \<or> cs = None)"

lemma non_null_Some [simp]: "non_null col = Some j \<longleftrightarrow> col = Some j \<and> j \<noteq> JNull"
  by (auto simp: non_null_def split: option.splits)

lemma pending_work_row:
  assumes "pending_work schema i db = Some (plan, cs)" "devices db i = Some d"
  shows "row_work d i plan cs"
  using assms
  by (auto simp: pending_work_def row_work_def GetPendingDeviceOperation_def GetPendingDeviceChangeSet_def
      decodePendingDeviceOperation_def decodePendingDeviceChangeSet_def validatePendingDeviceChangeSetForDevice_def
      andthen_Inr_iff bind_eq_Some_conv split: sum.splits option.splits if_splits)

lemma serve_device_served:
  assumes "serve_device env req schema token i stored db st = (r, st')" "r = PrApply c \<or> r = PrWait"
  obtains d work where "devices (en_tenant db) i = Some d" "pending_work schema i (en_tenant db) = Some work"
    "dl_world st' = dl_world st" "r = PrWait \<longleftrightarrow> dv_site d = None"
    "r = PrApply c \<longrightarrow> (cf_operation c, cf_change_set c) = work \<and> cf_device_token c = coalesce stored"
    "token = [] \<longrightarrow> site_key (dv_site d) db \<in> {[], pq_key req} \<or> pq_key req = []"
  using assms
  by (auto simp: serve_device_def config_of_def Let_def split: option.splits if_splits)

lemma resolve_devices_found:
  "resolve_devices tok dbs as m = Inr (Some schema) \<Longrightarrow> m = Some schema \<or>
     (\<exists>a db. a \<in> set as \<and> SafeTenantSchema a = Inr schema \<and> dbs schema = Some db
        \<and> list_ex (\<lambda>c. cd_token c = Some tok) (en_creds db))"
  by (induction as arbitrary: m) (fastforce split: sum.splits option.splits if_splits)+

lemma token_schema:
  assumes "GetTenantSchemaForDeviceToken tok w = Inr schema"
  obtains a db where "a \<in> set (active_aliases (wd_landlord w))" "SafeTenantSchema a = Inr schema"
    "wd_schemas w schema = Some db" "list_ex (\<lambda>c. cd_token c = Some tok) (en_creds db)"
  using assms resolve_devices_found
  by (fastforce simp: GetTenantSchemaForDeviceToken_def andthen_Inr_iff split: if_splits option.splits)

lemma identify_token:
  assumes "identify env req schema token deviceID db = Some (i, Some token)" "token \<noteq> []"
  shows "\<exists>x \<in> set (en_creds db). cd_device x = i \<and> cd_token x = Some token"
  using assms
  by (auto simp: identify_def resolveDeviceIdentity_def resolveDeviceIdentityByToken_def dev_token_def find_cred_def
      find_Some_iff bind_eq_Some_conv split: option.splits)

text \<open>
  C26. With the legacy mode off a configuration goes out only to the holder of a device token: the token
  names one active tenant and the row of that device there, and the work sent is the pending operation or
  changeset of that very row, validated, addressed to it and never both. The answer to a device without a
  site carries no configuration at all, and no row of devices, tokens or sites changes.
\<close>

theorem delivery_authenticated:
  assumes "\<not> pe_legacy env" "GetDeviceConfigHandler env req st = (r, st')" "r = PrApply c \<or> r = PrWait"
  shows "\<exists>a schema e x d. a \<in> set (active_aliases (wd_landlord (dl_world st))) \<and> SafeTenantSchema a = Inr schema
     \<and> GetTenantSchemaForDeviceToken (pq_token req) (dl_world st) = Inr schema
     \<and> wd_schemas (dl_world st) schema = Some e
     \<and> x \<in> set (en_creds e) \<and> cd_token x = Some (pq_token req) \<and> devices (en_tenant e) (cd_device x) = Some d
     \<and> (r = PrWait \<longleftrightarrow> dv_site d = None)
     \<and> (r = PrApply c \<longrightarrow> row_work d (cd_device x) (cf_operation c) (cf_change_set c) \<and> cf_device_token c = pq_token req)
     \<and> dl_world st' = dl_world st"
proof -
  let ?w = "dl_world st" and ?tok = "pq_token req"
  have some: "?tok \<noteq> []" using assms by (auto simp: GetDeviceConfigHandler_def split: option.splits if_splits)
  with assms obtain schema e i deviceID where
      t: "GetTenantSchemaForDeviceToken ?tok ?w = Inr schema" and e: "wd_schemas ?w schema = Some e"
    and who: "identify env req schema ?tok deviceID e = Some (i, Some ?tok)"
    and serve: "serve_device env req schema ?tok i (Some ?tok) e st = (r, st')"
    by (auto simp: GetDeviceConfigHandler_def resolveDeviceTenant_def split: option.splits sum.splits if_splits prod.splits)
  from token_schema [OF t] obtain a where a: "a \<in> set (active_aliases (wd_landlord ?w))" "SafeTenantSchema a = Inr schema"
    by blast
  from identify_token [OF who some] obtain x where x: "x \<in> set (en_creds e)" "cd_device x = i" "cd_token x = Some ?tok"
    by blast
  obtain d work where d: "devices (en_tenant e) i = Some d"
    and work: "pending_work schema i (en_tenant e) = Some work" "dl_world st' = ?w" "r = PrWait \<longleftrightarrow> dv_site d = None"
      "r = PrApply c \<longrightarrow> (cf_operation c, cf_change_set c) = work \<and> cf_device_token c = coalesce (Some ?tok)"
      "?tok = [] \<longrightarrow> site_key (dv_site d) e \<in> {[], pq_key req} \<or> pq_key req = []"
    by (rule serve_device_served [OF serve assms(3)])
  have "r = PrApply c \<longrightarrow> row_work d i (cf_operation c) (cf_change_set c) \<and> cf_device_token c = ?tok"
    using pending_work_row [OF _ d] work(1,4) by (auto simp: coalesce_def)
  with a t e x d work(2,3) show ?thesis
    by (intro exI [of _ a] exI [of _ schema] exI [of _ e] exI [of _ x] exI [of _ d]) simp
qed

section \<open>What is queued is delivered\<close>

lemma queued_plan_decodes:
  assumes "in_int64 g"
  shows "dec_operation_plan (jset ''generation'' (JNum g) (operation_plan_json p)) =
     Some (p\<lparr>op_generation := g,
             op_health_checks := (if slice_elems (op_health_checks p) = [] then None else op_health_checks p)\<rparr>)"
proof -
  have cmds: "fold_slice dec_command None [slice_json command_json (append_nil (op_commands p))] = Some (append_nil (op_commands p))"
    by (rule fold_slice_json) simp
  have hc: "fold_slice elem_str None [slice_json JStr (op_health_checks p)] = Some (op_health_checks p)"
    by (rule fold_slice_json) simp
  show ?thesis
    using assms cmds hc
    by (cases "slice_elems (op_health_checks p) = []"; cases "op_generation p = 0")
      (simp_all add: dec_operation_plan_def operation_plan_json_def jset_def go_obj_def go_str_def go_int_def go_slice_def
        go_bool_def go_entries_plan)
qed

lemma queued_change_set_decodes:
  assumes "in_int64 g"
  shows "dec_change_set (jset ''generation'' (JNum g) (change_set_json cs)) =
     Some (cs\<lparr>cs_generation := g,
              cs_health_checks := (if slice_elems (cs_health_checks cs) = [] then None else cs_health_checks cs)\<rparr>)"
proof -
  have ops: "fold_slice dec_operation None [JArr (map operation_json (cs_operations cs))] = Some (Some (cs_operations cs))"
    using fold_slice_json [of dec_operation operation_json None "Some (cs_operations cs)"] by (simp add: slice_json_def)
  have hc: "fold_slice elem_str None [slice_json JStr (cs_health_checks cs)] = Some (cs_health_checks cs)"
    by (rule fold_slice_json) simp
  show ?thesis
    using assms ops hc
    by (cases "slice_elems (cs_health_checks cs) = []"; cases "cs_generation cs = 0")
      (simp_all add: dec_change_set_def change_set_json_def jset_def go_obj_def go_str_def go_int_def go_slice_def doc_entries)
qed


lemma plan_health_norm:
  "ValidateDeviceOperation config cmds (if slice_elems hc = [] then None else hc) = ValidateDeviceOperation config cmds hc"
  by (cases "slice_elems hc = []") (simp_all add: ValidateDeviceOperation_def)

text \<open>A request of device \<open>i\<close> that presents its token.\<close>

definition presents :: "provision_env \<Rightarrow> provision_request \<Rightarrow> string \<Rightarrow> string \<Rightarrow> delivery_state \<Rightarrow> bool" where
  "presents env req schema i st \<longleftrightarrow>
     GetTenantSchemaForDeviceToken (pq_token req) (dl_world st) = Inr schema \<and> isValidSchemaName schema
     \<and> (\<exists>e j. wd_schemas (dl_world st) schema = Some e \<and> normalizeEnrollmentDeviceID (pq_device req) = Some j
          \<and> resolveDeviceIdentity (pe_order env schema) j e = Some (i, Some (pq_token req)))"

lemma presents_served:
  assumes "presents env req schema i st" "wd_schemas (dl_world st) schema = Some e" "pending_work schema i (en_tenant e) = Some work"
    "devices (en_tenant e) i = Some d" "dv_site d = Some site"
  shows "\<exists>c st'. GetDeviceConfigHandler env req st = (PrApply c, st') \<and> (cf_operation c, cf_change_set c) = work"
proof -
  have "trim_space [] = []" by code_simp
  then have tok: "pq_token req \<noteq> []" "trim_space (pq_token req) \<noteq> []"
    using assms(1) by (auto simp: presents_def GetTenantSchemaForDeviceToken_def split: if_splits)
  from assms(1,2) obtain j where "normalizeEnrollmentDeviceID (pq_device req) = Some j"
      "resolveDeviceIdentity (pe_order env schema) j e = Some (i, Some (pq_token req))"
      "GetTenantSchemaForDeviceToken (pq_token req) (dl_world st) = Inr schema" "isValidSchemaName schema"
    by (auto simp: presents_def)
  with assms(2-5) tok show ?thesis
    by (simp add: GetDeviceConfigHandler_def resolveDeviceTenant_def SafeSchemaIdent_def identify_def serve_device_def
        config_of_def Let_def)
qed

text \<open>
  C27. What is queued reaches the device. Once an operation is queued for a device of a site, the next
  request in which the device presents its token is answered with exactly that operation, under the
  generation the queue has given it, and with no changeset.
\<close>

theorem queued_operation_delivered:
  assumes "QueueDeviceOperation schema now i (Some (operation_plan_json p)) db = (Inr g, db')" "db' \<noteq> db"
    and "ValidateDeviceOperationPlan p = Inr ()" "op_generation p = 0" "slice_elems (op_health_checks p) = [] \<longrightarrow> op_health_checks p = None"
    and "devices db i = Some d" "dv_site d = Some site" "in_int64 (dv_desired d)" "0 \<le> dv_desired d"
    and "presents env req schema i st" "wd_schemas (dl_world st) schema = Some e" "en_tenant e = db'"
  shows "\<exists>c st'. GetDeviceConfigHandler env req st = (PrApply c, st')
     \<and> cf_operation c = Some (p\<lparr>op_generation := g\<rparr>) \<and> cf_change_set c = None"
proof -
  let ?ident = "\<lparr>oi_id = op_id p, oi_plan_hash = op_plan_hash p, oi_generation = 0\<rparr>"
  have "snd (QueueDeviceOperation schema now i (Some (operation_plan_json p)) db) \<noteq> db" using assms(1,2) by simp
  with QueueDeviceOperation_outcome [of schema now i "Some (operation_plan_json p)" db] operation_plan_identity [OF assms(3,4)] assms(6)
  have q: "isValidSchemaName schema" "queue_op_guard db now (operation_plan_json p) ?ident d" "dv_desired d < max_int64"
    and res: "QueueDeviceOperation schema now i (Some (operation_plan_json p)) db
         = (Inr (dv_desired (queue_op_row now (operation_plan_json p) ?ident d)), update_device i (queue_op_row now (operation_plan_json p) ?ident) db)"
    by auto
  define d' where "d' = queue_op_row now (operation_plan_json p) ?ident d"
  have g: "g = dv_desired d + 1" "db' = update_device i (queue_op_row now (operation_plan_json p) ?ident) db"
    using res assms(1) by (simp_all add: queue_op_row_def)
  have d': "devices db' i = Some d'" "dv_site d' = Some site" "dv_pending_cs d' = None"
      "dv_pending_op d' = Some (jset ''generation'' (JNum g) (operation_plan_json p))"
    using q(2) assms(6,7) g by (simp_all add: d'_def update_device_def queue_op_row_def queue_op_guard_def)
  have "in_int64 g" using g q(3) assms(9) by (simp add: in_int64_def max_int64_def min_int64_def)
  from queued_plan_decodes [OF this, of p] assms(5)
  have dec: "dec_operation_plan (jset ''generation'' (JNum g) (operation_plan_json p)) = Some (p\<lparr>op_generation := g\<rparr>)"
    by (cases "op_health_checks p = None") (auto simp: slice_elems_def)
  have "ValidateDeviceOperationPlan (p\<lparr>op_generation := g\<rparr>) = Inr ()"
    using assms(3,9) g by (simp add: ValidateDeviceOperationPlan_def split: if_splits)
  moreover have "jset ''generation'' (JNum g) (operation_plan_json p) \<noteq> JNull"
    by (simp add: jset_def operation_plan_json_def)
  ultimately have "pending_work schema i db' = Some (Some (p\<lparr>op_generation := g\<rparr>), None)"
    using d' dec q(1) by (simp add: pending_work_def GetPendingDeviceOperation_def GetPendingDeviceChangeSet_def
        SafeSchemaIdent_def decodePendingDeviceOperation_def non_null_def)
  with presents_served [OF assms(10,11), of "(Some (p\<lparr>op_generation := g\<rparr>), None)" d' site] d' assms(12)
  show ?thesis by auto
qed

text \<open>
  A changeset of a rollout that is queued for a device of a site is what the device gets with its next
  request: the same operations, under the generation of the queue, and no operation beside it.
\<close>

theorem queued_change_set_delivered:
  assumes "NewDeviceChangeSetForRolloutOperations rollout i ops hc policy = Inr cs"
    and "queueDeviceChangeSet schema now fleet role i (Some (change_set_json cs)) owner db = (Inr g, db')" "db' \<noteq> db"
    and "devices db i = Some d" "dv_site d = Some site" "0 \<le> dv_desired d"
    and "presents env req schema i st" "wd_schemas (dl_world st) schema = Some e" "en_tenant e = db'"
  shows "\<exists>c st'. GetDeviceConfigHandler env req st = (PrApply c, st')
     \<and> cf_change_set c = Some (cs\<lparr>cs_generation := g\<rparr>) \<and> cf_operation c = None"
proof -
  note new = rollout_change_set_Inr [OF assms(1)]
  have "snd (queueDeviceChangeSet schema now fleet role i (Some (change_set_json cs)) owner db) \<noteq> db" using assms(2,3) by simp
  with queueDeviceChangeSet_outcome [of schema now fleet role i "Some (change_set_json cs)" owner db] assms(4) obtain ident where
      q: "isValidSchemaName schema" "parseDeviceChangeSet (Some (change_set_json cs)) False = Inr ident" "equal_fold (ci_device ident) i"
        "queue_cs_guard db now fleet role owner ident d" "ci_generation ident = 0 \<longrightarrow> dv_desired d < max_int64"
    and res: "queueDeviceChangeSet schema now fleet role i (Some (change_set_json cs)) owner db
         = (Inr (dv_desired (queue_cs_row now (change_set_json cs) ident d)), update_device i (queue_cs_row now (change_set_json cs) ident) db)"
    by auto
  have "parseDeviceChangeSet (Some (change_set_json cs)) False =
     (if list_all (\<lambda>p. list_all db_action (co_commands p)) (cs_operations cs)
      then Inr \<lparr>ci_id = cs_id cs, ci_device = i, ci_hash = cs_plan_hash cs, ci_generation = 0, ci_has_gen = False\<rparr>
      else Inl DbUnsupported)"
    using parse_validated [OF new(1,2)] new(3,4) by (simp add: in_int64_def max_int64_def min_int64_def)
  with q(2) have ident: "ident = \<lparr>ci_id = cs_id cs, ci_device = i, ci_hash = cs_plan_hash cs, ci_generation = 0, ci_has_gen = False\<rparr>"
    by (simp split: if_splits)
  define d' where "d' = queue_cs_row now (change_set_json cs) ident d"
  have g: "g = dv_desired d + 1" "db' = update_device i (queue_cs_row now (change_set_json cs) ident) db"
    using res assms(2) ident by (simp_all add: queue_cs_row_def)
  have d': "devices db' i = Some d'" "dv_site d' = Some site" "dv_pending_op d' = None"
      "dv_pending_cs d' = Some (jset ''generation'' (JNum g) (change_set_json cs))"
    using q(4) assms(4,5) g ident by (simp_all add: d'_def update_device_def queue_cs_row_def queue_cs_guard_def)
  have "in_int64 g" using g q(5) ident assms(6) by (simp add: in_int64_def max_int64_def min_int64_def)
  from queued_change_set_decodes [OF this, of cs] new(2)
  have dec: "dec_change_set (jset ''generation'' (JNum g) (change_set_json cs)) = Some (cs\<lparr>cs_generation := g\<rparr>)"
    by (cases "cs_health_checks cs") auto
  have hash: "deviceChangeSetPlanHash (cs\<lparr>cs_generation := g\<rparr>) = deviceChangeSetPlanHash cs"
    by (simp add: deviceChangeSetPlanHash_def)
  have valid: "ValidateDeviceChangeSet (cs\<lparr>cs_generation := g\<rparr>) = Inr ()"
    using new(1) assms(6) g hash by (simp add: ValidateDeviceChangeSet_ok)
  have "equal_fold i i" by (simp add: equal_fold_def)
  then have "validatePendingDeviceChangeSetForDevice (cs\<lparr>cs_generation := g\<rparr>) i"
    using new(4) g assms(6) by (simp add: validatePendingDeviceChangeSetForDevice_def)
  moreover have "jset ''generation'' (JNum g) (change_set_json cs) \<noteq> JNull" by (simp add: jset_def change_set_json_def)
  ultimately have "pending_work schema i db' = Some (None, Some (cs\<lparr>cs_generation := g\<rparr>))"
    using d' dec q(1) valid by (simp add: pending_work_def GetPendingDeviceOperation_def GetPendingDeviceChangeSet_def
        SafeSchemaIdent_def decodePendingDeviceChangeSet_def non_null_def)
  with presents_served [OF assms(7,8), of "(None, Some (cs\<lparr>cs_generation := g\<rparr>))" d' site] d' assms(9)
  show ?thesis by auto
qed

section \<open>The WLANs of a device\<close>

lemma text_entry_map: "map_of (text_entry k absent v @ xs) key =
    (if v \<in> set ([] # absent) then map_of xs key else if key = k then Some v else map_of xs key)"
  by (simp add: text_entry_def)

lemma flag_entry_map: "map_of (flag_entry k b @ xs) key =
    (if b \<noteq> Some True then map_of xs key else if key = k then Some ''1'' else map_of xs key)"
  by (simp add: flag_entry_def)

lemma text_entry_end: "map_of (text_entry k absent v) key =
    (if v \<in> set ([] # absent) then None else if key = k then Some v else None)"
  by (simp add: text_entry_def)

lemma flag_entry_end: "map_of (flag_entry k b) key = (if b = Some True \<and> key = k then Some ''1'' else None)"
  by (simp add: flag_entry_def)

lemma wlan_object_fields:
  "map_of (wlan_object sec pw w) ''ssid'' = Some (wl_ssid w)"
  "map_of (wlan_object sec pw w) ''security'' = Some sec"
  "map_of (wlan_object sec pw w) ''key'' = (if pw = [] then None else Some pw)"
  by (simp_all add: wlan_object_def text_entry_map flag_entry_map text_entry_end flag_entry_end)

lemma prepare_tunnel_wlans:
  "wlansList (prepare_tunnel env known s i' rb) siteID i = wlansList rb siteID i"
  "policyConflicts (prepare_tunnel env known s i' rb) siteID i = policyConflicts rb siteID i"
proof -
  define rb' where "rb' = prepare_tunnel env known s i' rb"
  have same: "rb_wlans rb' = rb_wlans rb" "rb_assigned rb' = rb_assigned rb" "rb_configs rb' = rb_configs rb"
    by (simp_all add: rb'_def prepare_tunnel_def)
  have "wlan_applies rb' = wlan_applies rb" by (intro ext) (simp only: wlan_applies_def same)
  moreover have g: "global_wlan rb' = global_wlan rb" by (intro ext) (simp only: global_wlan_def same)
  ultimately have "site_wlans rb' siteID i = site_wlans rb siteID i" by (simp only: site_wlans_def same)
  moreover have "wlan_resolution rb' siteID = wlan_resolution rb siteID"
    by (intro ext) (simp only: wlan_resolution_def g)
  ultimately show "wlansList (prepare_tunnel env known s i' rb) siteID i = wlansList rb siteID i"
      "policyConflicts (prepare_tunnel env known s i' rb) siteID i = policyConflicts rb siteID i"
    by (simp_all only: wlansList_def policyConflicts_def flip: rb'_def)
qed


section \<open>Addresses of the tunnel, one after the other and side by side\<close>

lemma tunnel_ip_inject [simp]: "tunnel_ip m = tunnel_ip n \<longleftrightarrow> m = n"
  by (simp add: tunnel_ip_def)

lemma tunnel_ip_prefix [simp]: "has_prefix (tunnel_ip n) ''10.8.0.''"
  by (simp add: tunnel_ip_def has_prefix_iff)

lemma find_member: "find P xs = Some x \<Longrightarrow> P x \<and> x \<in> set xs"
  by (induction xs) (auto split: if_splits)

lemma ip_read_free:
  assumes "ip_read ips = Some ip"
  shows "ip \<notin> set (map snd ips)" "\<exists>n. 2 \<le> n \<and> n < 254 \<and> ip = tunnel_ip n"
proof -
  from assms obtain n where n: "find (\<lambda>n. tunnel_ip n \<notin> set (used_ips ips)) [2..<254] = Some n" "ip = tunnel_ip n"
    by (simp only: ip_read_def map_option_eq_Some) blast
  from find_member [OF n(1)] have "tunnel_ip n \<notin> set (used_ips ips) \<and> n \<in> set [2..<254]" .
  then have "tunnel_ip n \<notin> set (used_ips ips)" "2 \<le> n" "n < 254"
    by (simp_all only: set_upt atLeastLessThan_iff simp_thms)
  with n(2) show "ip \<notin> set (map snd ips)" "\<exists>n. 2 \<le> n \<and> n < 254 \<and> ip = tunnel_ip n"
    by (auto simp: used_ips_def)
qed

lemma ip_read_None: "ip_read ips = None \<longleftrightarrow> (\<forall>n. 2 \<le> n \<and> n < 254 \<longrightarrow> tunnel_ip n \<in> set (map snd ips))"
proof -
  have "ip_read ips = None \<longleftrightarrow> (\<forall>n. n \<in> set [2..<254] \<longrightarrow> tunnel_ip n \<in> set (used_ips ips))"
    by (simp only: ip_read_def map_option_is_None find_None_iff) blast
  also have "\<dots> \<longleftrightarrow> (\<forall>n. 2 \<le> n \<and> n < 254 \<longrightarrow> tunnel_ip n \<in> set (used_ips ips))"
    by (simp only: set_upt atLeastLessThan_iff)
  finally show ?thesis by (simp add: used_ips_def)
qed

lemma used_update:
  assumes "ip \<notin> set (map snd ips)" "distinct (used_ips ips)" "has_prefix ip ''10.8.0.''"
  shows "distinct (used_ips (AList.update i ip ips))"
  using assms
proof (induction ips)
  case Nil
  then show ?case by (simp add: used_ips_def)
next
  case (Cons x xs)
  have sub: "set (used_ips (AList.update i ip xs)) \<subseteq> insert ip (set (used_ips xs))"
    by (induction xs) (auto simp: used_ips_def)
  obtain a b where x: "x = (a, b)" by force
  have rest: "b \<notin> set (used_ips xs)" if "has_prefix b ''10.8.0.''"
    using Cons.prems(2) that by (auto simp: x used_ips_def)
  have "distinct (used_ips (AList.update i ip xs))"
    using Cons.IH Cons.prems by (cases "has_prefix b ''10.8.0.''") (auto simp: x used_ips_def)
  moreover have "b \<notin> set (used_ips (AList.update i ip xs))" if "has_prefix b ''10.8.0.''"
    using rest [OF that] sub Cons.prems(1) by (auto simp: x)
  moreover have "distinct (used_ips xs)" "ip \<notin> set (used_ips xs)"
    using Cons.prems by (auto simp: x used_ips_def split: if_splits)
  ultimately show ?case
    using Cons.prems(3) by (auto simp: x used_ips_def)
qed

definition tunnel_wf :: "(string \<times> string) list \<Rightarrow> bool" where
  "tunnel_wf ips \<longleftrightarrow> distinct (map fst ips) \<and> distinct (used_ips ips)"

lemma AssignInternalIP_wf:
  assumes "tunnel_wf ips"
  shows "tunnel_wf (snd (AssignInternalIP known i ips))"
  using assms ip_read_free used_update
  by (fastforce simp: tunnel_wf_def AssignInternalIP_def ip_write_def distinct_update split: option.splits)

text \<open>
  C29. Requests that are served one after the other give every device of the schema an address of its own in
  \<open>10.8.0.2\<close> to \<open>10.8.0.253\<close>: no two devices ever share one, a device keeps the address it has, and an
  answer fails only when all 252 are taken.
\<close>

theorem tunnel_addresses:
  assumes "tunnel_wf ips" "ips' = fold (\<lambda>j m. snd (AssignInternalIP known j m)) js ips"
    and "known i" "AssignInternalIP known i ips' = (r, ips'')"
  shows "tunnel_wf ips'' \<and> (\<forall>ip. r = Some ip \<longrightarrow> map_of ips'' i = Some ip
            \<and> (coalesce (map_of ips' i) = [] \<longrightarrow> (\<exists>n. 2 \<le> n \<and> n < 254 \<and> ip = tunnel_ip n) \<and> ip \<notin> set (map snd ips'))
            \<and> AssignInternalIP known i ips'' = (Some ip, ips''))
     \<and> (r = None \<longleftrightarrow> coalesce (map_of ips' i) = [] \<and> (\<forall>n. 2 \<le> n \<and> n < 254 \<longrightarrow> tunnel_ip n \<in> set (map snd ips')))"
proof -
  have "tunnel_wf (fold (\<lambda>j m. snd (AssignInternalIP known j m)) js m)" if "tunnel_wf m" for m
    using that by (induction js arbitrary: m) (auto intro: AssignInternalIP_wf)
  with assms(1,2) have "tunnel_wf ips'" by simp
  with assms(4) have wf: "tunnel_wf ips''" using AssignInternalIP_wf [of ips' known i] by simp
  show ?thesis
  proof (cases "coalesce (map_of ips' i) = []")
    case False
    then have "r = map_of ips' i" "ips'' = ips'" "map_of ips' i \<noteq> None"
      using assms(3,4) by (auto simp: AssignInternalIP_def coalesce_def split: option.splits)
    with False wf assms(3) show ?thesis by (auto simp: AssignInternalIP_def coalesce_def)
  next
    case True
    show ?thesis
    proof (cases "ip_read ips'")
      case None
      with True assms(3,4) wf show ?thesis by (auto simp: AssignInternalIP_def ip_read_None)
    next
      case (Some ip)
      with True assms(3,4) have r: "r = Some ip" "ips'' = AList.update i ip ips'"
        by (auto simp: AssignInternalIP_def ip_write_def)
      obtain n where n: "2 \<le> n" "n < 254" "ip = tunnel_ip n" using ip_read_free(2) [OF Some] by blast
      have "ip \<noteq> []" using n(3) by (simp add: tunnel_ip_def)
      with r wf True Some n ip_read_free(1) [OF Some] assms(3) show ?thesis
        by (auto simp: AssignInternalIP_def coalesce_def update_conv')
    qed
  qed
qed

text \<open>
  The two statements of the assignment as steps of their own, on the column and the addresses that
  requests have read and not yet written.
\<close>

datatype tunnel_event = TunnelRead string | TunnelWrite string

fun tunnel_step ::
  "(string \<Rightarrow> bool) \<Rightarrow> tunnel_event \<Rightarrow> (string \<times> string) list \<times> (string \<rightharpoonup> string)
    \<Rightarrow> (string \<times> string) list \<times> (string \<rightharpoonup> string)" where
  "tunnel_step known (TunnelRead i) (ips, held) =
     (if known i \<and> coalesce (map_of ips i) \<noteq> [] then (ips, held) else (ips, held(i := ip_read ips)))"
| "tunnel_step known (TunnelWrite i) (ips, held) =
     (case held i of None \<Rightarrow> (ips, held) | Some ip \<Rightarrow> (ip_write known i ip ips, held(i := None)))"

lemma tunnel_serial:
  "held i = None \<Longrightarrow> fold (tunnel_step known) [TunnelRead i, TunnelWrite i] (ips, held) = (snd (AssignInternalIP known i ips), held)"
  by (auto simp: AssignInternalIP_def fun_upd_idem split: option.splits)

text \<open>
  Requests that overlap can share an address: when two devices without one are both read before either
  is written, both are given the first free address, although the comment of the function calls it unique. Had the second request
  waited for the first, each device would have had its own.
\<close>

theorem tunnel_race:
  assumes "tunnel_wf ips" "i \<noteq> j" "known i" "known j" "coalesce (map_of ips i) = []" "coalesce (map_of ips j) = []"
    and "ip_read ips = Some ip"
    and "fold (tunnel_step known) [TunnelRead i, TunnelRead j, TunnelWrite i, TunnelWrite j] (ips, Map.empty) = (ips', held)"
  shows "map_of ips' i = Some ip \<and> map_of ips' j = Some ip \<and> \<not> tunnel_wf ips'
     \<and> tunnel_wf (fst (fold (tunnel_step known) [TunnelRead i, TunnelWrite i, TunnelRead j, TunnelWrite j] (ips, Map.empty)))"
proof -
  have ips': "ips' = AList.update j ip (AList.update i ip ips)"
    using assms by (simp add: ip_write_def)
  then have both: "map_of ips' i = Some ip" "map_of ips' j = Some ip"
    using assms(2) by (simp_all add: update_conv')
  obtain n where "ip = tunnel_ip n" using ip_read_free(2) [OF assms(7)] by blast
  then have pre: "has_prefix ip ''10.8.0.''" by simp
  have "\<not> distinct (used_ips ips')"
  proof
    assume d: "distinct (used_ips ips')"
    have "used_ips ips' = map snd (filter (\<lambda>x. has_prefix (snd x) ''10.8.0.'') ips')"
      by (simp add: used_ips_def filter_map comp_def)
    with d have "inj_on snd (set (filter (\<lambda>x. has_prefix (snd x) ''10.8.0.'') ips'))" by (simp add: distinct_map)
    moreover have "(i, ip) \<in> set (filter (\<lambda>x. has_prefix (snd x) ''10.8.0.'') ips')"
        "(j, ip) \<in> set (filter (\<lambda>x. has_prefix (snd x) ''10.8.0.'') ips')"
      using both pre by (auto dest: map_of_SomeD)
    ultimately have "(i, ip) = (j, ip)" by - (rule inj_onD, assumption, simp only: snd_conv, assumption+)
    with assms(2) show False by simp
  qed
  moreover have "fold (tunnel_step known) [TunnelRead i, TunnelWrite i, TunnelRead j, TunnelWrite j] (ips, Map.empty)
      = (snd (AssignInternalIP known j (snd (AssignInternalIP known i ips))), Map.empty)"
    using tunnel_serial [of Map.empty i known ips] tunnel_serial [of Map.empty j known "snd (AssignInternalIP known i ips)"] by simp
  ultimately show ?thesis
    using both AssignInternalIP_wf [OF AssignInternalIP_wf [OF assms(1)]] by (simp add: tunnel_wf_def)
qed

section \<open>Samples\<close>

definition sample_delivery :: "tenant_db \<Rightarrow> ap_wlan list \<Rightarrow> delivery_state" where
  "sample_delivery db wlans =
     \<lparr>dl_world = \<lparr>wd_landlord = sample_landlord\<lparr>ld_tenants := [\<lparr>tn_id = ''t-1'', tn_name = ''A'', tn_alias = ''a'',
          tn_active = True, tn_created = 1, tn_updated = 1\<rparr>]\<rparr>,
        wd_schemas = [''tenant_a'' \<mapsto> \<lparr>en_tenant = db, en_sites = [],
          en_creds = [\<lparr>cd_device = ''dev-1'', cd_token = Some ''t'', cd_status = None\<rparr>], en_nonces = []\<rparr>]\<rparr>,
      dl_radio = (\<lambda>_. \<lparr>rb_wlans = wlans, rb_assigned = [], rb_configs = Map.empty, rb_threat = (\<lambda>_. False),
        rb_wg_key = Map.empty, rb_wg_ip = [], rb_site_endpoint = Map.empty, rb_site_pub = Map.empty\<rparr>)\<rparr>"

definition sample_provision_env :: provision_env where
  "sample_provision_env = \<lparr>pe_legacy = False, pe_random = None, pe_keys = None, pe_site_keys = None,
     pe_order = (\<lambda>_. [''dev-1'']), pe_by_ip = (\<lambda>_ _. None), pe_survey = (\<lambda>_ _. None), pe_public_key = []\<rparr>"

definition sample_provision :: provision_request where
  "sample_provision = \<lparr>pq_device = ''dev-1'', pq_key = [], pq_token = ''t'', pq_remote = ''10.0.0.7:1''\<rparr>"

lemma sample_presents:
  assumes "devices db ''dev-1'' \<noteq> None"
  shows "presents sample_provision_env sample_provision ''tenant_a'' ''dev-1'' (sample_delivery db wlans)"
proof -
  have f: "SafeTenantSchema ''a'' = Inr ''tenant_a''" "isValidSchemaName ''tenant_a''" "trim_space ''t'' \<noteq> []"
    "normalizeEnrollmentDeviceID ''dev-1'' = Some ''DEV-1''" "go_lower ''dev-1'' = go_lower ''DEV-1''" by code_simp+
  then show ?thesis
    using assms
    by (simp add: presents_def sample_provision_def sample_provision_env_def sample_delivery_def
        GetTenantSchemaForDeviceToken_def active_aliases_def resolveDeviceIdentity_def dev_token_def find_cred_def)
qed

theorem queued_operation_delivered_witness:
  "\<exists>p c st'. GetDeviceConfigHandler sample_provision_env sample_provision
       (sample_delivery (snd (QueueDeviceOperation ''tenant_a'' 9 ''dev-1'' (Some (operation_plan_json p)) sample_db)) []) = (PrApply c, st')
     \<and> cf_operation c = Some (p\<lparr>op_generation := 5\<rparr>)"
proof -
  obtain p where new: "NewDeviceOperationPlan (Some (replicate 16 CHR 0x07)) ''system'' [sample_set] None True = Inr p"
    by (simp add: NewDeviceOperationPlan_def NewDeviceOperationPlanForGeneration_def sample_operation_ok newDeviceOperationID_def)
  note valid = new_plan_valid [OF new length_replicate]
  from new have hc: "slice_elems (op_health_checks p) = [] \<longrightarrow> op_health_checks p = None"
    by (auto simp: NewDeviceOperationPlan_def NewDeviceOperationPlanForGeneration_def andthen_Inr_iff append_nil_def split: if_splits option.splits)
  from sample_plan_queued [OF valid(1,2)] obtain db' where
    q: "QueueDeviceOperation ''tenant_a'' 9 ''dev-1'' (Some (operation_plan_json p)) sample_db = (Inr 5, db')" "db' \<noteq> sample_db" by blast
  have row: "devices sample_db ''dev-1'' = Some sample_row" "dv_site sample_row = Some ''site-1''"
      "in_int64 (dv_desired sample_row)" "0 \<le> dv_desired sample_row"
    by (simp_all add: sample_row_def in_int64_def min_int64_def max_int64_def)
  have "devices db' ''dev-1'' \<noteq> None"
    using QueueDeviceOperation_outcome [of "''tenant_a''" 9 "''dev-1''" "Some (operation_plan_json p)" sample_db] q
      operation_plan_identity [OF valid(1,2)] row by (auto simp: update_device_def)
  then have pres: "presents sample_provision_env sample_provision ''tenant_a'' ''dev-1'' (sample_delivery db' [])"
    by (rule sample_presents)
  have e: "wd_schemas (dl_world (sample_delivery db' [])) ''tenant_a'' = Some \<lparr>en_tenant = db', en_sites = [],
          en_creds = [\<lparr>cd_device = ''dev-1'', cd_token = Some ''t'', cd_status = None\<rparr>], en_nonces = []\<rparr>"
    by (simp add: sample_delivery_def)
  from queued_operation_delivered [OF q valid(1,2) hc row pres e] q obtain c st' where
      "GetDeviceConfigHandler sample_provision_env sample_provision
         (sample_delivery (snd (QueueDeviceOperation ''tenant_a'' 9 ''dev-1'' (Some (operation_plan_json p)) sample_db)) []) = (PrApply c, st')"
      "cf_operation c = Some (p\<lparr>op_generation := 5\<rparr>)" by auto
  then show ?thesis by blast
qed

theorem queued_change_set_delivered_witness:
  "\<exists>cs c st'. GetDeviceConfigHandler sample_provision_env sample_provision
       (sample_delivery (snd (queueDeviceChangeSet ''tenant_a'' 7 [] [] ''dev-1'' (Some (change_set_json cs)) [] sample_cs_db)) []) = (PrApply c, st')
     \<and> cf_change_set c = Some (cs\<lparr>cs_generation := 5\<rparr>)"
proof -
  obtain cs where new: "NewDeviceChangeSetForRolloutOperations ''r-1'' ''dev-1'' [sample_operation sample_set] [] ''local_auto'' = Inr cs"
    using sample_change_set(1) by blast
  from sample_cs_queued [OF new] obtain db' where
    q: "queueDeviceChangeSet ''tenant_a'' 7 [] [] ''dev-1'' (Some (change_set_json cs)) [] sample_cs_db = (Inr 5, db')" "db' \<noteq> sample_cs_db"
    and there: "devices db' ''dev-1'' \<noteq> None"
    by (auto simp: equal_fold_def)
  have row: "devices sample_cs_db ''dev-1'' = Some sample_cs_row" "dv_site sample_cs_row = Some ''site-1''" "0 \<le> dv_desired sample_cs_row"
    by (simp_all add: sample_cs_row_def sample_row_def)
  from there have pres: "presents sample_provision_env sample_provision ''tenant_a'' ''dev-1'' (sample_delivery db' [])"
    by (rule sample_presents)
  have e: "wd_schemas (dl_world (sample_delivery db' [])) ''tenant_a'' = Some \<lparr>en_tenant = db', en_sites = [],
          en_creds = [\<lparr>cd_device = ''dev-1'', cd_token = Some ''t'', cd_status = None\<rparr>], en_nonces = []\<rparr>"
    by (simp add: sample_delivery_def)
  from queued_change_set_delivered [OF new q row pres e] q obtain c st' where
      "GetDeviceConfigHandler sample_provision_env sample_provision
         (sample_delivery (snd (queueDeviceChangeSet ''tenant_a'' 7 [] [] ''dev-1'' (Some (change_set_json cs)) [] sample_cs_db)) []) = (PrApply c, st')"
      "cf_change_set c = Some (cs\<lparr>cs_generation := 5\<rparr>)" by auto
  then show ?thesis by blast
qed

lemma sample_pending: "pending_work ''tenant_a'' ''dev-1'' sample_db = Some (None, None)"
  by code_simp

lemma sample_delivered:
  "\<exists>c st'. GetDeviceConfigHandler sample_provision_env sample_provision (sample_delivery sample_db []) = (PrApply c, st')"
proof -
  have "devices sample_db ''dev-1'' \<noteq> None" by simp
  note pres = sample_presents [OF this]
  have "wd_schemas (dl_world (sample_delivery sample_db [])) ''tenant_a'' = Some \<lparr>en_tenant = sample_db, en_sites = [],
          en_creds = [\<lparr>cd_device = ''dev-1'', cd_token = Some ''t'', cd_status = None\<rparr>], en_nonces = []\<rparr>"
      "dv_site sample_row = Some ''site-1''"
    by (simp_all add: sample_delivery_def sample_row_def)
  from presents_served [OF pres this(1), of "(None, None)" sample_row] this(2) sample_pending show ?thesis by auto
qed

theorem delivery_authenticated_witness:
  "\<exists>c st' schema. GetDeviceConfigHandler sample_provision_env sample_provision (sample_delivery sample_db []) = (PrApply c, st')
     \<and> GetTenantSchemaForDeviceToken ''t'' (dl_world st') = Inr schema"
proof -
  from sample_delivered obtain c st' where
    run: "GetDeviceConfigHandler sample_provision_env sample_provision (sample_delivery sample_db []) = (PrApply c, st')" by blast
  have "\<not> pe_legacy sample_provision_env" by (simp add: sample_provision_env_def)
  from delivery_authenticated [OF this run disjI1 [OF refl]] run show ?thesis by (auto simp: sample_provision_def)
qed

definition sample_wlan :: ap_wlan where
  "sample_wlan = \<lparr>wl_site = ''site-1'', wl_ssid = ''Home'', wl_enabled = True, wl_security = ''psk2'', wl_password = Some ''secret'',
     ap_id = ''w-1'', ap_band = None, ap_roaming = None, ap_k = None, ap_v = None, ap_w = None, ap_auth_server = None,
     ap_auth_secret = None, ap_dynamic_vlan = None, ap_target = None\<rparr>"


lemma sample_first_free: "ip_read [(''a'', ''10.8.0.2'')] = Some ''10.8.0.3''"
  by code_simp

theorem tunnel_addresses_witness:
  "tunnel_wf [(''a'', ''10.8.0.2''), (''b'', ''10.8.0.3'')]"
proof -
  have "tunnel_wf [(''a'', ''10.8.0.2'')]" by code_simp
  moreover have "AssignInternalIP (\<lambda>_. True) ''b'' [(''a'', ''10.8.0.2'')]
      = (Some ''10.8.0.3'', [(''a'', ''10.8.0.2''), (''b'', ''10.8.0.3'')])"
    by (simp add: AssignInternalIP_def sample_first_free ip_write_def coalesce_def)
  ultimately show ?thesis
    using tunnel_addresses [of "[(''a'', ''10.8.0.2'')]" "[(''a'', ''10.8.0.2'')]" "\<lambda>_. True" "[]" "''b''"] by simp
qed

theorem tunnel_race_witness:
  "\<not> tunnel_wf (fst (fold (tunnel_step (\<lambda>_. True)) [TunnelRead ''b'', TunnelRead ''c'', TunnelWrite ''b'', TunnelWrite ''c'']
     ([(''a'', ''10.8.0.2'')], Map.empty)))"
proof -
  have "tunnel_wf [(''a'', ''10.8.0.2'')]" by code_simp
  with tunnel_race [of "[(''a'', ''10.8.0.2'')]" "''b''" "''c''" "\<lambda>_. True" "''10.8.0.3''"] sample_first_free
  show ?thesis by (simp add: coalesce_def prod_eq_iff del: fold_simps)
qed

end
