(* ===== verification/Sentinel_Proposals.thy ===== *)
theory Sentinel_Proposals
  imports Device_Delivery
begin

text \<open>
  The way of a change that the assistant proposes: from \<open>src/internal/services/sentinel_agent.go\<close> the check of
  a proposal, from \<open>sentinel_case_investigation.go\<close> the check of its scope, and from \<open>sentinel_store.go\<close> its
  storage, approval and rejection. What the language model answers is an argument, the proposal itself.

  The statements on the proposals commit by themselves; the operation is queued in the transaction of the
  request, which the middleware commits after the response. An approval is three steps, and between them
  other requests run or the controller stops: the proposals that are between the first and the last
  step are a part of the state.
\<close>

section \<open>Proposals\<close>

record proposal_draft =
  pd_summary :: string
  pd_device :: string
  pd_config :: string
  pd_commands :: "uci_command list option"
  pd_checks :: "string list option"
  pd_blocked :: string

datatype proposal_fault = PfDevice | PfNetwork | PfCredential | PfInvalid op_error

definition identifier_char :: "char \<Rightarrow> bool" where
  "identifier_char c \<longleftrightarrow> is_alnum c \<or> c \<in> set ''_.:@/-''"

definition sentinelIdentifierPattern :: "string \<Rightarrow> bool" where
  "sentinelIdentifierPattern s \<longleftrightarrow> s \<noteq> [] \<and> length s \<le> 128 \<and> list_all identifier_char s"

text \<open>The options that may carry a credential are recognised by their name.\<close>

definition credential_option :: "uci_command \<Rightarrow> bool" where
  "credential_option c \<longleftrightarrow>
     list_ex (\<lambda>w. index_of (go_lower (uc_option c)) w \<noteq> None) [''password'', ''secret'', ''token'', ''key'']"

definition validateSentinelProposal :: "proposal_draft \<Rightarrow> proposal_fault option" where
  "validateSentinelProposal d =
     (if \<not> sentinelIdentifierPattern (pd_device d) then Some PfDevice
      else if pd_config d = ''network'' then Some PfNetwork
      else if list_ex credential_option (slice_elems (pd_commands d)) then Some PfCredential
      else (case ValidateDeviceOperation (pd_config d) (slice_elems (pd_commands d)) (pd_checks d) of
              Inl e \<Rightarrow> Some (PfInvalid e) | Inr _ \<Rightarrow> None))"

text \<open>The scope of a case, its site and its device, and what the investigation does with a proposal of the model.\<close>

definition sentinelCaseAllowsProposal :: "string \<Rightarrow> string \<Rightarrow> tenant_db \<Rightarrow> proposal_draft \<Rightarrow> string option" where
  "sentinelCaseAllowsProposal site device db d =
     (if device \<noteq> [] \<and> pd_device d \<noteq> device then Some ''proposal targets a device outside the Case device scope''
      else if site = [] then None
      else if (case devices db (pd_device d) of None \<Rightarrow> False | Some r \<Rightarrow> dv_site r = Some site) then None
      else Some ''proposal targets a device outside the Case site scope'')"

definition case_proposal :: "(proposal_fault \<Rightarrow> string) \<Rightarrow> string \<Rightarrow> string \<Rightarrow> tenant_db \<Rightarrow> proposal_draft \<Rightarrow> proposal_draft" where
  "case_proposal fault_text site device db d =
     (case validateSentinelProposal d of
        Some f \<Rightarrow> d\<lparr>pd_blocked := fault_text f\<rparr>
      | None \<Rightarrow>
          (case sentinelCaseAllowsProposal site device db d of
             Some t \<Rightarrow> d\<lparr>pd_blocked := t\<rparr>
           | None \<Rightarrow> d))"

definition draft_doc :: "proposal_draft \<Rightarrow> json" where
  "draft_doc d =
     JObj ([(''summary'', JStr (pd_summary d)), (''device_id'', JStr (pd_device d)), (''config'', JStr (pd_config d)),
            (''commands'', slice_json command_json (pd_commands d))]
       @ (if slice_elems (pd_checks d) = [] then [] else [(''health_checks'', slice_json JStr (pd_checks d))])
       @ (if pd_blocked d = [] then [] else [(''blocked_reason'', JStr (pd_blocked d))]))"

record proposal_row =
  sp_id :: string
  sp_device :: string
  sp_config :: string
  sp_summary :: string
  sp_plan :: json
  sp_status :: string
  sp_blocked :: "string option"
  sp_created_by :: string
  sp_approved_by :: "string option"
  sp_approved_at :: "int option"
  sp_expires :: int

record sentinel_state =
  ss_tenant :: tenant_db
  ss_proposals :: "proposal_row list"
  ss_flight :: "proposal_row list"

definition find_proposal :: "string \<Rightarrow> proposal_row list \<Rightarrow> proposal_row option" where
  "find_proposal i rows = find (\<lambda>r. sp_id r = i) rows"

definition update_proposal :: "string \<Rightarrow> (proposal_row \<Rightarrow> proposal_row) \<Rightarrow> sentinel_state \<Rightarrow> sentinel_state" where
  "update_proposal i f st = st\<lparr>ss_proposals := map (\<lambda>r. if sp_id r = i then f r else r) (ss_proposals st)\<rparr>"

section \<open>Creating\<close>

text \<open>
  What the storage gets from outside: the draw of \<open>crypto/rand\<close>, the clock in microseconds, the generated
  id, the text of a refusal, and whether the conversation and the case it names exist.
\<close>

record proposal_env =
  pn_random :: "string option"
  pn_now :: int
  pn_id :: string
  pn_text :: "proposal_fault \<Rightarrow> string"
  pn_known :: bool

datatype proposal_error = SeSchema | SeMissing | SePlan op_error | SeInsert | SeNotPending | SeDecode | SeQueue db_error | SeRecord

definition proposal_ttl :: int where
  "proposal_ttl = 30 * 60 * 1000000"

definition insert_proposal ::
  "proposal_env \<Rightarrow> string \<Rightarrow> proposal_draft \<Rightarrow> json \<Rightarrow> string \<Rightarrow> string \<Rightarrow> sentinel_state
    \<Rightarrow> (proposal_error + proposal_row) \<times> sentinel_state" where
  "insert_proposal env createdBy d plan status blocked st =
     (case (varchar 50 (pd_config d), varchar 100 createdBy) of
        (Some c, Some u) \<Rightarrow>
          (let r = \<lparr>sp_id = pn_id env, sp_device = pd_device d, sp_config = c, sp_summary = pd_summary d, sp_plan = plan,
               sp_status = status, sp_blocked = (if blocked = [] then None else Some blocked), sp_created_by = u,
               sp_approved_by = None, sp_approved_at = None, sp_expires = pn_now env + proposal_ttl\<rparr>
           in if \<not> pn_known env \<or> find_proposal (pn_id env) (ss_proposals st) \<noteq> None \<or> devices (ss_tenant st) (pd_device d) = None
              then (Inl SeInsert, st)
              else (Inr r, st\<lparr>ss_proposals := ss_proposals st @ [r]\<rparr>))
      | _ \<Rightarrow> (Inl SeInsert, st))"

definition CreateSentinelProposal ::
  "proposal_env \<Rightarrow> string \<Rightarrow> string \<Rightarrow> proposal_draft option \<Rightarrow> sentinel_state
    \<Rightarrow> (proposal_error + proposal_row) \<times> sentinel_state" where
  "CreateSentinelProposal env schema createdBy draft st =
     (case SafeSchemaIdent schema of
        Inl _ \<Rightarrow> (Inl SeSchema, st)
      | Inr _ \<Rightarrow>
          (case draft of
             None \<Rightarrow> (Inl SeMissing, st)
           | Some d \<Rightarrow>
               (case validateSentinelProposal d of
                  Some f \<Rightarrow> insert_proposal env createdBy d (draft_doc d) ''BLOCKED'' (pn_text env f) st
                | None \<Rightarrow>
                    (case NewDeviceOperationPlan (pn_random env) (pd_config d) (slice_elems (pd_commands d)) (pd_checks d) False of
                       Inl e \<Rightarrow> (Inl (SePlan e), st)
                     | Inr op \<Rightarrow> insert_proposal env createdBy d (operation_plan_json op) ''PENDING'' (pd_blocked d) st))))"

section \<open>Approval and rejection\<close>

text \<open>
  The first statement takes the proposal, the second part queues its operation and records the outcome.
  \<open>ae_commit\<close> tells whether the transaction of the request commits, \<open>ae_text\<close> gives the text of an error.
\<close>

record approve_env =
  ae_now :: int
  ae_commit :: bool
  ae_text :: "db_error \<Rightarrow> string"
  ae_decode_text :: string

definition approve_take :: "string \<Rightarrow> int \<Rightarrow> string \<Rightarrow> sentinel_state \<Rightarrow> (proposal_error + proposal_row) \<times> sentinel_state" where
  "approve_take schema now i st =
     (case SafeSchemaIdent schema of
        Inl _ \<Rightarrow> (Inl SeSchema, st)
      | Inr _ \<Rightarrow>
          (case find_proposal i (ss_proposals st) of
             None \<Rightarrow> (Inl SeNotPending, st)
           | Some r \<Rightarrow>
               if sp_status r = ''PENDING'' \<and> sp_expires r > now
               then (Inr r, update_proposal i (\<lambda>r. r\<lparr>sp_status := ''APPROVING''\<rparr>) st)
               else (Inl SeNotPending, st)))"

definition fail_proposal :: "string \<Rightarrow> string \<Rightarrow> sentinel_state \<Rightarrow> sentinel_state" where
  "fail_proposal i reason = update_proposal i (\<lambda>r. r\<lparr>sp_status := ''FAILED'', sp_blocked := Some reason\<rparr>)"

definition approve_settle ::
  "approve_env \<Rightarrow> string \<Rightarrow> string \<Rightarrow> proposal_row \<Rightarrow> sentinel_state
    \<Rightarrow> (proposal_error + device_operation_plan) \<times> sentinel_state" where
  "approve_settle env schema username r st =
     (case dec_operation_plan (sp_plan r) of
        None \<Rightarrow> (Inl SeDecode, fail_proposal (sp_id r) (ae_decode_text env) st)
      | Some op \<Rightarrow>
          (case QueueDeviceOperation schema (ae_now env) (sp_device r) (Some (sp_plan r)) (ss_tenant st) of
             (Inl e, _) \<Rightarrow> (Inl (SeQueue e), fail_proposal (sp_id r) (ae_text env e) st)
           | (Inr g, db) \<Rightarrow>
               (let st' = (if ae_commit env then st\<lparr>ss_tenant := db\<rparr> else st)
                in case varchar 100 username of
                     None \<Rightarrow> (Inl SeRecord, st')
                   | Some u \<Rightarrow>
                       (Inr (op\<lparr>op_generation := g\<rparr>),
                        update_proposal (sp_id r) (\<lambda>r. r\<lparr>sp_status := ''APPROVED'', sp_approved_by := Some u,
                          sp_approved_at := Some (ae_now env)\<rparr>) st'))))"

definition ApproveSentinelProposal ::
  "approve_env \<Rightarrow> string \<Rightarrow> string \<Rightarrow> string \<Rightarrow> sentinel_state
    \<Rightarrow> (proposal_error + device_operation_plan) \<times> sentinel_state" where
  "ApproveSentinelProposal env schema i username st =
     (case approve_take schema (ae_now env) i st of
        (Inl e, st') \<Rightarrow> (Inl e, st')
      | (Inr r, st') \<Rightarrow> approve_settle env schema username r st')"

definition RejectSentinelProposal ::
  "string \<Rightarrow> string \<Rightarrow> string \<Rightarrow> string \<Rightarrow> sentinel_state \<Rightarrow> (proposal_error + unit) \<times> sentinel_state" where
  "RejectSentinelProposal schema i username reason st =
     (case SafeSchemaIdent schema of
        Inl _ \<Rightarrow> (Inl SeSchema, st)
      | Inr _ \<Rightarrow>
          (case varchar 100 username of
             None \<Rightarrow> (Inl SeRecord, st)
           | Some u \<Rightarrow>
               (case find_proposal i (ss_proposals st) of
                  None \<Rightarrow> (Inl SeNotPending, st)
                | Some r \<Rightarrow>
                    if sp_status r = ''PENDING''
                    then (Inr (), update_proposal i (\<lambda>r. r\<lparr>sp_status := ''REJECTED'', sp_approved_by := Some u,
                            sp_blocked := Some (if trim_space reason = [] then ''Rejected by operator'' else reason)\<rparr>) st)
                    else (Inl SeNotPending, st))))"


section \<open>Runs\<close>

text \<open>
  Any interleaving of the handlers: an approval is taken and later settled, the controller may stop in
  between (\<open>Crash\<close>), and devices report what they have done. The result of a step is the id of a proposal
  whose operation was put into a device row.
\<close>

datatype proposal_event =
    Propose proposal_env string "proposal_draft option"
  | Take int string
  | Settle approve_env string string
  | Refuse string string string
  | Crash
  | Report "int \<times> string \<times> raw_message"

fun proposal_step :: "string \<Rightarrow> proposal_event \<Rightarrow> sentinel_state \<Rightarrow> string option \<times> sentinel_state" where
  "proposal_step schema (Propose env createdBy draft) st = (None, snd (CreateSentinelProposal env schema createdBy draft st))"
| "proposal_step schema (Take now i) st =
     (case approve_take schema now i st of
        (Inl _, st') \<Rightarrow> (None, st')
      | (Inr r, st') \<Rightarrow> (None, st'\<lparr>ss_flight := r # ss_flight st'\<rparr>))"
| "proposal_step schema (Settle env username i) st =
     (case find_proposal i (ss_flight st) of
        None \<Rightarrow> (None, st)
      | Some r \<Rightarrow>
          (let (res, st') = approve_settle env schema username r (st\<lparr>ss_flight := remove1 r (ss_flight st)\<rparr>)
           in (if ss_tenant st' \<noteq> ss_tenant st then Some i else None, st')))"
| "proposal_step schema (Refuse username reason i) st = (None, snd (RejectSentinelProposal schema i username reason st))"
| "proposal_step schema Crash st = (None, st\<lparr>ss_flight := []\<rparr>)"
| "proposal_step schema (Report req) st = (None, st\<lparr>ss_tenant := op_report schema req (ss_tenant st)\<rparr>)"

fun proposal_run :: "string \<Rightarrow> proposal_event list \<Rightarrow> sentinel_state \<Rightarrow> string option list \<times> sentinel_state" where
  "proposal_run schema [] st = ([], st)"
| "proposal_run schema (ev # evs) st =
     (let (q, st') = proposal_step schema ev st; (qs, st'') = proposal_run schema evs st' in (q # qs, st''))"

section \<open>What a plan of a proposal may be\<close>

text \<open>A valid plan for a namespace other than the network, without credentials.\<close>

definition guarded_plan :: "device_operation_plan \<Rightarrow> bool" where
  "guarded_plan p \<longleftrightarrow>
     ValidateDeviceOperation (op_config p) (op_commands p) (op_health_checks p) = Inr ()
     \<and> validDeviceOperationPlanHash (op_plan_hash p) \<and> op_generation p = 0 \<and> op_config p \<noteq> ''network'' \<and> \<not> op_auto_confirm p
     \<and> list_all (\<lambda>c. uc_config c = op_config p \<and> \<not> credential_option c) (op_commands p)
     \<and> (slice_elems (op_health_checks p) = [] \<longrightarrow> op_health_checks p = None)"

definition waiting :: "proposal_row \<Rightarrow> bool" where
  "waiting r \<longleftrightarrow> sp_status r = ''PENDING'' \<or> sp_status r = ''APPROVING''"

definition guarded_row :: "proposal_row \<Rightarrow> bool" where
  "guarded_row r \<longleftrightarrow> (\<exists>p. sp_plan r = operation_plan_json p \<and> guarded_plan p)"

definition proposals_wf :: "sentinel_state \<Rightarrow> bool" where
  "proposals_wf st \<longleftrightarrow>
     distinct (map sp_id (ss_proposals st)) \<and> distinct (map sp_id (ss_flight st))
     \<and> list_all (\<lambda>r. waiting r \<longrightarrow> guarded_row r) (ss_proposals st)
     \<and> list_all (\<lambda>r. guarded_row r \<and> (\<exists>x. find_proposal (sp_id r) (ss_proposals st) = Some x \<and> sp_status x = ''APPROVING''))
         (ss_flight st)"

lemma plan_decodes:
  assumes "op_generation p = 0" "slice_elems (op_health_checks p) = [] \<longrightarrow> op_health_checks p = None"
  shows "dec_operation_plan (operation_plan_json p) = Some p"
proof -
  have cmds: "fold_slice dec_command None [slice_json command_json (append_nil (op_commands p))] = Some (append_nil (op_commands p))"
    by (rule fold_slice_json) simp
  have hc: "fold_slice elem_str None [slice_json JStr (op_health_checks p)] = Some (op_health_checks p)"
    by (rule fold_slice_json) simp
  show ?thesis
    using assms cmds hc
    by (cases "slice_elems (op_health_checks p) = []")
      (simp_all add: dec_operation_plan_def operation_plan_json_def go_obj_def go_str_def go_int_def go_slice_def
        go_bool_def go_entries_plan)
qed

lemma new_plan_guarded:
  assumes "validateSentinelProposal d = None"
    and "NewDeviceOperationPlan rnd (pd_config d) (slice_elems (pd_commands d)) (pd_checks d) False = Inr op"
  shows "guarded_plan op"
proof -
  have v: "ValidateDeviceOperation (pd_config d) (slice_elems (pd_commands d)) (pd_checks d) = Inr ()"
      "pd_config d \<noteq> ''network''" "list_all (\<lambda>c. \<not> credential_option c) (slice_elems (pd_commands d))"
    using assms(1) by (auto simp: validateSentinelProposal_def list_all_iff list_ex_iff split: if_splits sum.splits)
  have op: "op_config op = pd_config d" "op_commands op = slice_elems (pd_commands d)" "op_generation op = 0"
      "op_health_checks op = append_nil (slice_elems (pd_checks d))" "\<not> op_auto_confirm op"
      "validDeviceOperationPlanHash (op_plan_hash op)"
    using assms(2)
    by (auto simp: NewDeviceOperationPlan_def NewDeviceOperationPlanForGeneration_def andthen_Inr_iff split: if_splits option.splits)
  have checks: "list_all (\<lambda>c. uc_config c = pd_config d) (slice_elems (pd_commands d))"
    using v(1) by (auto simp: ValidateDeviceOperation_ok list_all_iff dest: check_op_command_accepts)
  have "ValidateDeviceOperation (pd_config d) (slice_elems (pd_commands d)) (append_nil (slice_elems (pd_checks d))) = Inr ()"
    using v(1) by (auto simp: ValidateDeviceOperation_def split: if_splits option.splits)
  with v op checks show ?thesis by (auto simp: guarded_plan_def list_all_iff append_nil_def)
qed


section \<open>What every step keeps\<close>

lemma find_proposal_Some: "find_proposal i rows = Some r \<Longrightarrow> r \<in> set rows \<and> sp_id r = i"
  unfolding find_proposal_def by (drule find_member) simp

lemma find_append1: "find P (xs @ [x]) = (case find P xs of None \<Rightarrow> if P x then Some x else None | Some y \<Rightarrow> Some y)"
  by (induction xs) auto

lemma find_proposal_append: "find_proposal i (xs @ [r]) =
    (case find_proposal i xs of None \<Rightarrow> if sp_id r = i then Some r else None | Some x \<Rightarrow> Some x)"
  by (simp add: find_proposal_def find_append1)

lemma find_key_map:
  "(\<And>x. key (f x) = key x) \<Longrightarrow>
     find (\<lambda>x. key x = j) (map (\<lambda>x. if key x = i then f x else x) xs)
       = (if j = i then map_option f (find (\<lambda>x. key x = j) xs) else find (\<lambda>x. key x = j) xs)"
  by (induction xs) auto

lemma find_proposal_map:
  "(\<And>r. sp_id (f r) = sp_id r) \<Longrightarrow>
     find_proposal j (map (\<lambda>r. if sp_id r = i then f r else r) xs)
       = (if j = i then map_option f (find_proposal j xs) else find_proposal j xs)"
  unfolding find_proposal_def by (rule find_key_map)

lemma find_proposal_None: "find_proposal i xs = None \<longleftrightarrow> i \<notin> sp_id ` set xs"
  by (induction xs) (auto simp: find_proposal_def)

lemma find_proposal_member:
  "distinct (map sp_id xs) \<Longrightarrow> r \<in> set xs \<Longrightarrow> find_proposal (sp_id r) xs = Some r"
  by (induction xs) (auto simp: find_proposal_def rev_image_eqI)

lemma insert_proposal_accepted:
  "insert_proposal env createdBy d plan status blocked st = (Inr r, st') \<Longrightarrow>
     st' = st\<lparr>ss_proposals := ss_proposals st @ [r]\<rparr> \<and> find_proposal (sp_id r) (ss_proposals st) = None
     \<and> sp_id r = pn_id env \<and> sp_device r = pd_device d \<and> sp_plan r = plan \<and> sp_status r = status
     \<and> sp_blocked r = (if blocked = [] then None else Some blocked) \<and> sp_expires r = pn_now env + proposal_ttl"
  by (auto simp: insert_proposal_def Let_def split: option.splits if_splits)

lemma insert_proposal_refused: "insert_proposal env createdBy d plan status blocked st = (Inl e, st') \<Longrightarrow> st' = st"
  by (auto simp: insert_proposal_def Let_def split: option.splits if_splits)

lemma CreateSentinelProposal_refused: "CreateSentinelProposal env schema createdBy draft st = (Inl e, st') \<Longrightarrow> st' = st"
  by (auto simp: CreateSentinelProposal_def dest: insert_proposal_refused split: sum.splits option.splits)

lemma CreateSentinelProposal_accepted:
  "CreateSentinelProposal env schema createdBy draft st = (Inr r, st') \<Longrightarrow>
     st' = st\<lparr>ss_proposals := ss_proposals st @ [r]\<rparr> \<and> find_proposal (sp_id r) (ss_proposals st) = None
     \<and> sp_status r \<in> {''BLOCKED'', ''PENDING''} \<and> (waiting r \<longrightarrow> guarded_row r)"
  by (auto simp: CreateSentinelProposal_def waiting_def guarded_row_def
      dest!: insert_proposal_accepted dest: new_plan_guarded split: sum.splits option.splits)

lemma approve_take_outcome:
  "(\<exists>e. approve_take schema now i st = (Inl e, st)) \<or>
   (\<exists>r. approve_take schema now i st = (Inr r, update_proposal i (\<lambda>r. r\<lparr>sp_status := ''APPROVING''\<rparr>) st)
      \<and> find_proposal i (ss_proposals st) = Some r \<and> sp_status r = ''PENDING'' \<and> now < sp_expires r)"
  by (auto simp: approve_take_def split: sum.splits option.splits)

lemma RejectSentinelProposal_outcome:
  "snd (RejectSentinelProposal schema i username reason st) = st \<or>
   (\<exists>f r. snd (RejectSentinelProposal schema i username reason st) = update_proposal i f st
      \<and> find_proposal i (ss_proposals st) = Some r \<and> sp_status r = ''PENDING''
      \<and> (\<forall>r. sp_id (f r) = sp_id r \<and> sp_plan (f r) = sp_plan r \<and> sp_status (f r) = ''REJECTED''))"
  by (auto simp: RejectSentinelProposal_def split: sum.splits option.splits intro!: exI)

lemma approve_settle_outcome:
  obtains (unrecorded) db where "snd (approve_settle env schema username r st) = st\<lparr>ss_tenant := db\<rparr>"
  | (recorded) f status db where
      "snd (approve_settle env schema username r st) = update_proposal (sp_id r) f (st\<lparr>ss_tenant := db\<rparr>)"
      "\<forall>x. sp_id (f x) = sp_id x \<and> sp_plan (f x) = sp_plan x \<and> sp_status (f x) = status" "status \<in> {''APPROVED'', ''FAILED''}"
proof -
  let ?a = "snd (approve_settle env schema username r st)"
  consider "\<exists>db. ?a = st\<lparr>ss_tenant := db\<rparr>"
    | "\<exists>f status db. ?a = update_proposal (sp_id r) f (st\<lparr>ss_tenant := db\<rparr>)
         \<and> (\<forall>x. sp_id (f x) = sp_id x \<and> sp_plan (f x) = sp_plan x \<and> sp_status (f x) = status) \<and> status \<in> {''APPROVED'', ''FAILED''}"
  proof (cases "dec_operation_plan (sp_plan r)")
    case None
    have "?a = update_proposal (sp_id r) (\<lambda>r. r\<lparr>sp_status := ''FAILED'', sp_blocked := Some (ae_decode_text env)\<rparr>) (st\<lparr>ss_tenant := ss_tenant st\<rparr>)"
      using None by (simp add: approve_settle_def fail_proposal_def)
    then show thesis by (intro that(2) exI conjI) (assumption, simp, simp)
  next
    case (Some op)
    show thesis
    proof (cases "QueueDeviceOperation schema (ae_now env) (sp_device r) (Some (sp_plan r)) (ss_tenant st)")
      case (Pair q db)
      show thesis
      proof (cases q)
        case (Inl e)
        have "?a = update_proposal (sp_id r) (\<lambda>r. r\<lparr>sp_status := ''FAILED'', sp_blocked := Some (ae_text env e)\<rparr>) (st\<lparr>ss_tenant := ss_tenant st\<rparr>)"
          using Some Pair Inl by (simp add: approve_settle_def fail_proposal_def)
        then show thesis by (intro that(2) exI conjI) (assumption, simp, simp)
      next
        case (Inr g)
        let ?db = "if ae_commit env then db else ss_tenant st"
        show thesis
        proof (cases "varchar 100 username")
          case None
          then have "?a = st\<lparr>ss_tenant := ?db\<rparr>" using Some Pair Inr by (simp add: approve_settle_def)
          then show thesis using that(1) by blast
        next
          case (Some u)
          with \<open>dec_operation_plan (sp_plan r) = Some op\<close> Pair Inr
          have "?a = update_proposal (sp_id r) (\<lambda>r. r\<lparr>sp_status := ''APPROVED'', sp_approved_by := Some u,
                          sp_approved_at := Some (ae_now env)\<rparr>) (st\<lparr>ss_tenant := ?db\<rparr>)"
            by (simp add: approve_settle_def)
          then show thesis by (intro that(2) exI conjI) (assumption, simp, simp)
        qed
      qed
    qed
  qed
  then show thesis using that by cases blast+
qed

lemma update_proposal_simps [simp]:
  "ss_tenant (update_proposal i f st) = ss_tenant st" "ss_flight (update_proposal i f st) = ss_flight st"
  by (simp_all add: update_proposal_def)

lemma map_sp_id: "(\<And>r. sp_id (f r) = sp_id r) \<Longrightarrow> map sp_id (map (\<lambda>r. if sp_id r = i then f r else r) xs) = map sp_id xs"
  by simp


text \<open>An update of one row keeps the invariant when no approval of that row is under way.\<close>

lemma proposals_wf_update:
  assumes "proposals_wf st" "\<forall>x. sp_id (f x) = sp_id x \<and> sp_plan (f x) = sp_plan x"
    and "i \<notin> sp_id ` set (ss_flight st)" "\<forall>x \<in> set (ss_proposals st). waiting (f x) \<longrightarrow> sp_id x = i \<longrightarrow> guarded_row x"
  shows "proposals_wf (update_proposal i f st)"
proof -
  have keep: "find_proposal (sp_id r) (ss_proposals (update_proposal i f st)) = find_proposal (sp_id r) (ss_proposals st)"
    if "r \<in> set (ss_flight st)" for r
    using that assms(2,3) by (auto simp: update_proposal_def find_proposal_map)
  have ids: "map sp_id (ss_proposals (update_proposal i f st)) = map sp_id (ss_proposals st)"
    using assms(2) by (simp add: update_proposal_def)
  have "list_all (\<lambda>r. waiting r \<longrightarrow> guarded_row r) (ss_proposals (update_proposal i f st))"
    using assms(1,2,4) by (auto simp: proposals_wf_def update_proposal_def list_all_iff guarded_row_def)
  with assms(1) ids keep show ?thesis by (simp add: proposals_wf_def list_all_iff)
qed

lemma wf_flight:
  assumes "proposals_wf st" "find_proposal i (ss_flight st) = Some r"
  shows "guarded_row r" "sp_id r = i" "r \<in> set (ss_flight st)"
    "\<exists>x. find_proposal i (ss_proposals st) = Some x \<and> sp_status x = ''APPROVING''"
  using assms find_proposal_Some [OF assms(2)] by (auto simp: proposals_wf_def list_all_iff)

lemma wf_not_flying:
  assumes "proposals_wf st" "find_proposal i (ss_proposals st) = Some x" "sp_status x \<noteq> ''APPROVING''"
  shows "i \<notin> sp_id ` set (ss_flight st)"
  using assms by (auto simp: proposals_wf_def list_all_iff)

lemma remove1_flight:
  assumes "distinct (map sp_id xs)" "r \<in> set xs"
  shows "sp_id r \<notin> sp_id ` set (remove1 r xs)" "distinct (map sp_id (remove1 r xs))" "set (remove1 r xs) \<subseteq> set xs"
proof -
  have "distinct xs" using assms(1) by (simp add: distinct_map)
  then have "set (remove1 r xs) = set xs - {r}" by simp
  then show "sp_id r \<notin> sp_id ` set (remove1 r xs)" using assms by (auto simp: distinct_map inj_on_def)
  show "distinct (map sp_id (remove1 r xs))" using assms(1) by (auto simp: distinct_map inj_on_def dest: notin_set_remove1)
  show "set (remove1 r xs) \<subseteq> set xs" by (rule set_remove1_subset)
qed

lemma wf_landed:
  assumes "proposals_wf st" "find_proposal i (ss_flight st) = Some r"
  shows "proposals_wf (st\<lparr>ss_flight := remove1 r (ss_flight st)\<rparr>)" "i \<notin> sp_id ` set (remove1 r (ss_flight st))"
  using assms(1) wf_flight [OF assms] remove1_flight [of "ss_flight st" r] by (auto simp: proposals_wf_def list_all_iff)

lemma proposals_wf_tenant [simp]: "proposals_wf (st\<lparr>ss_tenant := db\<rparr>) = proposals_wf st"
  by (simp add: proposals_wf_def)

lemma proposals_wf_created:
  assumes "proposals_wf st" "find_proposal (sp_id r) (ss_proposals st) = None" "waiting r \<longrightarrow> guarded_row r"
  shows "proposals_wf (st\<lparr>ss_proposals := ss_proposals st @ [r]\<rparr>)"
  using assms by (auto simp: proposals_wf_def find_proposal_append find_proposal_None list_all_iff)

lemma proposals_wf_taken:
  assumes "proposals_wf st" "find_proposal i (ss_proposals st) = Some r" "sp_status r = ''PENDING''"
  shows "proposals_wf ((update_proposal i (\<lambda>r. r\<lparr>sp_status := ''APPROVING''\<rparr>) st)\<lparr>ss_flight := r # ss_flight st\<rparr>)"
proof -
  let ?st = "update_proposal i (\<lambda>r. r\<lparr>sp_status := ''APPROVING''\<rparr>) st"
  have r: "r \<in> set (ss_proposals st)" "sp_id r = i" using find_proposal_Some [OF assms(2)] by simp_all
  have out: "i \<notin> sp_id ` set (ss_flight st)" using wf_not_flying [OF assms(1,2)] assms(3) by simp
  have g: "guarded_row r" using assms(1,3) r(1) by (auto simp: proposals_wf_def list_all_iff waiting_def)
  have "\<forall>x \<in> set (ss_proposals st). sp_id x = i \<longrightarrow> x = r"
    using assms(1) r find_proposal_member by (metis assms(2) option.inject proposals_wf_def)
  then have "proposals_wf ?st" using assms(1) g out by (intro proposals_wf_update) (auto simp: waiting_def)
  moreover have "find_proposal i (ss_proposals ?st) = Some (r\<lparr>sp_status := ''APPROVING''\<rparr>)"
    using assms(2) by (simp add: update_proposal_def find_proposal_map)
  ultimately show ?thesis using r(2) g out by (auto simp: proposals_wf_def)
qed

lemma proposal_step_keeps:
  assumes "proposals_wf st"
  shows "proposals_wf (snd (proposal_step schema ev st))"
proof (cases ev)
  case (Propose env createdBy draft)
  show ?thesis
  proof (cases "CreateSentinelProposal env schema createdBy draft st")
    case (Pair res st')
    with assms Propose show ?thesis
      by (cases res) (auto dest: CreateSentinelProposal_refused CreateSentinelProposal_accepted intro!: proposals_wf_created)
  qed
next
  case (Take now i)
  with approve_take_outcome [of schema now i st] assms show ?thesis
    by (elim disjE exE) (auto intro: proposals_wf_taken)
next
  case (Settle env username i)
  show ?thesis
  proof (cases "find_proposal i (ss_flight st)")
    case (Some r)
    define st1 where "st1 = st\<lparr>ss_flight := remove1 r (ss_flight st)\<rparr>"
    have st1: "proposals_wf st1" "i \<notin> sp_id ` set (ss_flight st1)" and r: "sp_id r = i"
      using wf_landed [OF assms Some] wf_flight [OF assms Some] by (simp_all add: st1_def)
    have step: "snd (proposal_step schema ev st) = snd (approve_settle env schema username r st1)"
      using Settle Some by (simp add: st1_def split_beta Let_def)
    show ?thesis
    proof (cases rule: approve_settle_outcome [of env schema username r st1])
      case (unrecorded db)
      with st1 step show ?thesis by simp
    next
      case (recorded f status db)
      have "proposals_wf (update_proposal i f (st1\<lparr>ss_tenant := db\<rparr>))"
        using st1 recorded(2,3) by (intro proposals_wf_update) (auto simp: waiting_def)
      with recorded(1) step r show ?thesis by simp
    qed
  qed (use Settle assms in simp)
next
  case (Refuse username reason i)
  consider "snd (RejectSentinelProposal schema i username reason st) = st"
    | f r where "snd (RejectSentinelProposal schema i username reason st) = update_proposal i f st"
        "find_proposal i (ss_proposals st) = Some r" "sp_status r = ''PENDING''"
        "\<forall>r. sp_id (f r) = sp_id r \<and> sp_plan (f r) = sp_plan r \<and> sp_status (f r) = ''REJECTED''"
    using RejectSentinelProposal_outcome by blast
  then show ?thesis
  proof cases
    case 2
    have "i \<notin> sp_id ` set (ss_flight st)" using wf_not_flying [OF assms 2(2)] 2(3) by simp
    with 2 assms Refuse show ?thesis by (auto simp: waiting_def intro!: proposals_wf_update)
  qed (use Refuse assms in simp)
next
  case (Report req)
  with assms show ?thesis by simp
qed (use assms in \<open>simp add: proposals_wf_def\<close>)

lemma proposal_run_keeps: "proposals_wf st \<Longrightarrow> proposals_wf (snd (proposal_run schema evs st))"
proof (induction evs arbitrary: st)
  case (Cons ev evs)
  then show ?case using proposal_step_keeps [OF Cons.prems, of schema ev] by (simp add: split_beta Let_def)
qed simp

lemma empty_proposals_wf: "ss_proposals st = [] \<Longrightarrow> ss_flight st = [] \<Longrightarrow> proposals_wf st"
  by (simp add: proposals_wf_def)

section \<open>What reaches the devices\<close>

lemma approve_settle_tenant:
  "ss_tenant (snd (approve_settle env schema username r st)) = ss_tenant st \<or>
   ss_tenant (snd (approve_settle env schema username r st))
     = snd (QueueDeviceOperation schema (ae_now env) (sp_device r) (Some (sp_plan r)) (ss_tenant st))"
  by (auto simp: approve_settle_def fail_proposal_def Let_def split: option.splits prod.splits sum.splits)

lemma guarded_identity:
  assumes "guarded_plan p" "parseOperationIdentity (Some (operation_plan_json p)) False = Inr ident"
  shows "oi_generation ident = 0" "ValidateDeviceOperationPlan p = Inr ()"
  using assms
  by (auto simp: parseOperationIdentity_def operation_plan_envelope guarded_plan_def ValidateDeviceOperationPlan_def
      split: if_splits)

text \<open>A pending operation that the assistant may have caused.\<close>

definition assistant_operation :: "json \<Rightarrow> bool" where
  "assistant_operation j \<longleftrightarrow>
     (\<exists>p g. j = jset ''generation'' (JNum g) (operation_plan_json p) \<and> guarded_plan p
        \<and> ValidateDeviceOperationPlan p = Inr ())"

definition pending_from :: "tenant_db \<Rightarrow> tenant_db \<Rightarrow> bool" where
  "pending_from db0 db \<longleftrightarrow>
     (\<forall>i d j. devices db i = Some d \<longrightarrow> dv_pending_op d = Some j \<longrightarrow>
        (\<exists>d0. devices db0 i = Some d0 \<and> dv_pending_op d0 = Some j) \<or> assistant_operation j)"

lemma pending_from_refl [simp]: "pending_from db db"
  by (auto simp: pending_from_def)

lemma pending_from_trans: "pending_from a b \<Longrightarrow> pending_from b c \<Longrightarrow> pending_from a c"
  unfolding pending_from_def by blast

lemma pending_from_queue:
  assumes "guarded_row r"
  shows "pending_from db (snd (QueueDeviceOperation schema now i (Some (sp_plan r)) db))"
proof (cases rule: QueueDeviceOperation_cases [of schema now i "Some (sp_plan r)" db])
  case (queued ident j d)
  obtain p where p: "sp_plan r = operation_plan_json p" "guarded_plan p" using assms by (auto simp: guarded_row_def)
  with queued(2) have "oi_generation ident = 0" "ValidateDeviceOperationPlan p = Inr ()"
    using guarded_identity by auto
  moreover have "j = operation_plan_json p" using p(1) queued(3) by simp
  ultimately have "assistant_operation (jset ''generation'' (JNum (dv_desired d + 1)) j)"
    using p(2) unfolding assistant_operation_def by blast
  with queued \<open>oi_generation ident = 0\<close> show ?thesis
    by (auto simp: pending_from_def update_device_def queue_op_row_def)
qed simp

lemma pending_from_report: "pending_from db (op_report schema req db)"
proof -
  obtain now i status where req: "req = (now, i, status)" by (cases req)
  show ?thesis
  proof (cases rule: RecordDeviceOperationStatus_cases [of schema now i status db])
    case (applied ident j st d)
    then show ?thesis
      by (auto simp: op_report_def req pending_from_def update_device_def record_op_row_def Let_def split: if_splits)
  qed (simp add: op_report_def req)
qed

lemma proposal_step_tenant:
  assumes "proposals_wf st"
  shows "pending_from (ss_tenant st) (ss_tenant (snd (proposal_step schema ev st)))"
proof (cases ev)
  case (Propose env createdBy draft)
  then show ?thesis
    by (cases "CreateSentinelProposal env schema createdBy draft st"; cases "fst (CreateSentinelProposal env schema createdBy draft st)")
      (auto dest: CreateSentinelProposal_refused CreateSentinelProposal_accepted)
next
  case (Take now i)
  then show ?thesis using approve_take_outcome [of schema now i st] by auto
next
  case (Settle env username i)
  show ?thesis
  proof (cases "find_proposal i (ss_flight st)")
    case (Some r)
    then have "guarded_row r" by (rule wf_flight [OF assms])
    with approve_settle_tenant [of env schema username r "st\<lparr>ss_flight := remove1 r (ss_flight st)\<rparr>"] pending_from_queue
    show ?thesis using Settle Some by (auto simp: split_beta Let_def)
  qed (use Settle in simp)
next
  case (Refuse username reason i)
  then show ?thesis using RejectSentinelProposal_outcome [of schema i username reason st] by auto
qed (simp_all add: pending_from_report)

lemma proposal_run_tenant:
  "proposals_wf st \<Longrightarrow> pending_from (ss_tenant st) (ss_tenant (snd (proposal_run schema evs st)))"
proof (induction evs arbitrary: st)
  case (Cons ev evs)
  from Cons.IH [OF proposal_step_keeps [OF Cons.prems]] proposal_step_tenant [OF Cons.prems, of schema ev]
  show ?case by (auto simp: split_beta Let_def intro: pending_from_trans)
qed simp

text \<open>
  C31. What the assistant may do to a device. However proposals are created, approved, rejected and
  interrupted, an operation that waits in a device row has been there before, or it is a plan that passes
  the validation of the operations, is for a namespace other than the network, writes no option whose name
  tells of a credential and does not confirm itself.
\<close>

theorem assistant_operations_guarded:
  assumes "ss_proposals st0 = []" "ss_flight st0 = []" "proposal_run schema evs st0 = (qs, st)"
    and "devices (ss_tenant st) i = Some d" "dv_pending_op d = Some j"
    and "\<forall>d0. devices (ss_tenant st0) i = Some d0 \<longrightarrow> dv_pending_op d0 \<noteq> Some j"
  shows "\<exists>p g. j = jset ''generation'' (JNum g) (operation_plan_json p)
     \<and> ValidateDeviceOperationPlan p = Inr () \<and> op_config p \<noteq> ''network'' \<and> \<not> op_auto_confirm p
     \<and> list_all (\<lambda>c. uc_config c = op_config p \<and> \<not> credential_option c) (op_commands p)"
proof -
  have "pending_from (ss_tenant st0) (ss_tenant st)"
    using proposal_run_tenant [OF empty_proposals_wf [OF assms(1,2)], of schema evs] assms(3) by simp
  with assms(4-6) have "assistant_operation j" unfolding pending_from_def by blast
  then show ?thesis unfolding assistant_operation_def guarded_plan_def by blast
qed

section \<open>Each proposal at most once\<close>

text \<open>Whether the operation of a proposal may still be queued.\<close>

definition may_queue :: "string \<Rightarrow> sentinel_state \<Rightarrow> bool" where
  "may_queue i st \<longleftrightarrow>
     (case find_proposal i (ss_proposals st) of None \<Rightarrow> True | Some x \<Rightarrow> sp_status x = ''PENDING'')
     \<or> i \<in> sp_id ` set (ss_flight st)"

definition taken_by :: "string \<Rightarrow> proposal_event \<Rightarrow> bool" where
  "taken_by i ev = (case ev of Take now j \<Rightarrow> j = i | _ \<Rightarrow> False)"

definition queued_ids :: "string \<Rightarrow> string option list \<Rightarrow> nat" where
  "queued_ids i qs = length (filter (\<lambda>q. q = Some i) qs)"

lemma find_proposal_update:
  "\<forall>x. sp_id (f x) = sp_id x \<Longrightarrow>
     find_proposal j (ss_proposals (update_proposal i f st))
       = (if j = i then map_option f (find_proposal j (ss_proposals st)) else find_proposal j (ss_proposals st))"
  by (simp add: update_proposal_def find_proposal_map)

lemma may_queue_update:
  assumes "\<forall>x. sp_id (f x) = sp_id x" "\<forall>x. sp_status (f x) \<noteq> ''PENDING''" "may_queue j (update_proposal i f st)"
  shows "may_queue j st"
  using assms by (auto simp: may_queue_def find_proposal_update split: option.splits if_splits)

lemma settle_closes:
  assumes "proposals_wf st" "find_proposal i (ss_flight st) = Some r"
    and "snd (approve_settle env schema username r (st\<lparr>ss_flight := remove1 r (ss_flight st)\<rparr>)) = st'"
  shows "\<not> may_queue i st'" "may_queue j st' \<Longrightarrow> may_queue j st"
    "ss_flight st' = remove1 r (ss_flight st)"
proof -
  define st1 where "st1 = st\<lparr>ss_flight := remove1 r (ss_flight st)\<rparr>"
  have r: "sp_id r = i" "i \<notin> sp_id ` set (ss_flight st1)"
    using wf_flight [OF assms(1,2)] wf_landed [OF assms(1,2)] by (simp_all add: st1_def)
  obtain x where x: "find_proposal i (ss_proposals st1) = Some x" "sp_status x = ''APPROVING''"
    using wf_flight(4) [OF assms(1,2)] by (auto simp: st1_def)
  have less: "may_queue j st1 \<Longrightarrow> may_queue j st"
    using remove1_flight(3) [of "ss_flight st" r] assms(1) wf_flight(3) [OF assms(1,2)]
    by (auto simp: may_queue_def st1_def proposals_wf_def dest: notin_set_remove1 split: option.splits)
  show "\<not> may_queue i st'" "may_queue j st' \<Longrightarrow> may_queue j st" "ss_flight st' = remove1 r (ss_flight st)"
    using r x less assms(3) unfolding st1_def [symmetric]
    by (cases rule: approve_settle_outcome [of env schema username r st1];
        auto simp: may_queue_def find_proposal_update st1_def split: option.splits if_splits)+
qed

lemma proposal_step_queues:
  assumes "proposals_wf st" "proposal_step schema ev st = (q, st')"
  shows "may_queue i st' \<Longrightarrow> may_queue i st" "q = Some i \<Longrightarrow> may_queue i st \<and> \<not> may_queue i st'"
    "\<not> taken_by i ev \<Longrightarrow> i \<notin> sp_id ` set (ss_flight st) \<Longrightarrow> q \<noteq> Some i \<and> i \<notin> sp_id ` set (ss_flight st')"
proof -
  have "(may_queue i st' \<longrightarrow> may_queue i st) \<and> (q = Some i \<longrightarrow> may_queue i st \<and> \<not> may_queue i st')
     \<and> (\<not> taken_by i ev \<longrightarrow> i \<notin> sp_id ` set (ss_flight st) \<longrightarrow> q \<noteq> Some i \<and> i \<notin> sp_id ` set (ss_flight st'))"
  proof (cases ev)
    case (Propose env createdBy draft)
    with assms(2) show ?thesis
      by (cases "CreateSentinelProposal env schema createdBy draft st"; cases "fst (CreateSentinelProposal env schema createdBy draft st)")
        (auto simp: may_queue_def find_proposal_append dest!: CreateSentinelProposal_refused CreateSentinelProposal_accepted
          split: option.splits if_splits)
  next
    case (Take now j)
    with approve_take_outcome [of schema now j st] assms(2) find_proposal_Some [of j "ss_proposals st"] show ?thesis
      by (auto simp: may_queue_def find_proposal_update taken_by_def split: option.splits if_splits)
  next
    case (Settle env username j)
    show ?thesis
    proof (cases "find_proposal j (ss_flight st)")
      case (Some r)
      have st': "snd (approve_settle env schema username r (st\<lparr>ss_flight := remove1 r (ss_flight st)\<rparr>)) = st'"
        using assms(2) Settle Some by (simp add: split_beta Let_def)
      have q: "q = None \<or> q = Some j"
        using assms(2) Settle Some by (simp add: split_beta Let_def split: if_splits)
      note closes = settle_closes [OF assms(1) Some st']
      have "may_queue j st" using wf_flight(2,3) [OF assms(1) Some] by (auto simp: may_queue_def)
      then show ?thesis
        using closes q remove1_flight(3) [of "ss_flight st" r] wf_flight(2,3) [OF assms(1) Some] assms(1)
        by (auto simp: proposals_wf_def dest: notin_set_remove1)
    qed (use Settle assms(2) in simp)
  next
    case (Refuse username reason j)
    with RejectSentinelProposal_outcome [of schema j username reason st] assms(2) show ?thesis
      by (auto simp: may_queue_def find_proposal_update split: option.splits if_splits)
  next
    case (Report req)
    with assms(2) show ?thesis by (auto simp: may_queue_def)
  qed (use assms(2) in \<open>auto simp: may_queue_def\<close>)
  then show "may_queue i st' \<Longrightarrow> may_queue i st" "q = Some i \<Longrightarrow> may_queue i st \<and> \<not> may_queue i st'"
    "\<not> taken_by i ev \<Longrightarrow> i \<notin> sp_id ` set (ss_flight st) \<Longrightarrow> q \<noteq> Some i \<and> i \<notin> sp_id ` set (ss_flight st')"
    by blast+
qed

lemma proposal_run_queues:
  assumes "proposals_wf st" "proposal_run schema evs st = (qs, st')"
  shows "queued_ids i qs \<le> (if may_queue i st then 1 else 0)"
    "i \<notin> sp_id ` set (ss_flight st) \<Longrightarrow> \<not> list_ex (taken_by i) evs \<Longrightarrow> queued_ids i qs = 0"
proof -
  have "queued_ids i qs \<le> (if may_queue i st then 1 else 0)
     \<and> (i \<notin> sp_id ` set (ss_flight st) \<longrightarrow> \<not> list_ex (taken_by i) evs \<longrightarrow> queued_ids i qs = 0)"
    using assms
  proof (induction evs arbitrary: st qs)
    case (Cons ev evs)
    obtain q s where step: "proposal_step schema ev st = (q, s)" by fastforce
    obtain rest where run: "proposal_run schema evs s = (rest, st')" "qs = q # rest"
      using Cons.prems(2) step by (cases "proposal_run schema evs s") auto
    have "proposals_wf s" using proposal_step_keeps [OF Cons.prems(1), of schema ev] step by simp
    note IH = Cons.IH [OF this run(1)] and st = proposal_step_queues [OF Cons.prems(1) step, of i]
    show ?case using IH st run(2) by (auto simp: queued_ids_def split: if_splits)
  qed (auto simp: queued_ids_def)
  then show "queued_ids i qs \<le> (if may_queue i st then 1 else 0)"
    "i \<notin> sp_id ` set (ss_flight st) \<Longrightarrow> \<not> list_ex (taken_by i) evs \<Longrightarrow> queued_ids i qs = 0"
    by blast+
qed

text \<open>
  C32. An approval acts once. In any run that starts with no proposals, with approvals that overlap, are
  repeated or are interrupted by a stop of the controller, the operation of a proposal is put into a device
  row at most once, and only when somebody has approved that proposal in the run.
\<close>

theorem proposal_queued_once:
  assumes "ss_proposals st0 = []" "ss_flight st0 = []" "proposal_run schema evs st0 = (qs, st)"
  shows "queued_ids i qs \<le> 1 \<and> (0 < queued_ids i qs \<longrightarrow> list_ex (taken_by i) evs)"
proof -
  note run = proposal_run_queues [OF empty_proposals_wf [OF assms(1,2)] assms(3), of i]
  have "queued_ids i qs \<le> 1" using run(1) by (simp split: if_splits)
  moreover have "list_ex (taken_by i) evs" if "0 < queued_ids i qs"
    using that run(2) assms(2) by (cases "list_ex (taken_by i) evs") auto
  ultimately show ?thesis by blast
qed

section \<open>The life of a proposal\<close>

definition proposal_status :: "string \<Rightarrow> sentinel_state \<Rightarrow> string option" where
  "proposal_status i st = map_option sp_status (find_proposal i (ss_proposals st))"

inductive proposal_life :: "string option \<Rightarrow> string option \<Rightarrow> bool" where
  Proposed: "proposal_life None (Some ''PENDING'')"
| Blocked: "proposal_life None (Some ''BLOCKED'')"
| Approving: "proposal_life (Some ''PENDING'') (Some ''APPROVING'')"
| Rejected: "proposal_life (Some ''PENDING'') (Some ''REJECTED'')"
| Approved: "proposal_life (Some ''APPROVING'') (Some ''APPROVED'')"
| Failed: "proposal_life (Some ''APPROVING'') (Some ''FAILED'')"

inductive_cases proposal_life_from: "proposal_life (Some s) x"

lemma life_update:
  assumes "\<forall>x. sp_id (f x) = sp_id x \<and> sp_status (f x) = s" "find_proposal i (ss_proposals st) = Some r"
    and "proposal_life (Some (sp_status r)) (Some s)"
  shows "proposal_life\<^sup>=\<^sup>= (proposal_status j st) (proposal_status j (update_proposal i f st))"
  using assms by (auto simp: proposal_status_def find_proposal_update)

lemma proposal_status_simps [simp]:
  "proposal_status j (st\<lparr>ss_tenant := db\<rparr>) = proposal_status j st"
  "proposal_status j (st\<lparr>ss_flight := fl\<rparr>) = proposal_status j st"
  by (simp_all add: proposal_status_def)

lemma proposal_step_life:
  assumes "proposals_wf st"
  shows "proposal_life\<^sup>=\<^sup>= (proposal_status j st) (proposal_status j (snd (proposal_step schema ev st)))"
proof (cases ev)
  case (Propose env createdBy draft)
  then show ?thesis
    by (cases "CreateSentinelProposal env schema createdBy draft st"; cases "fst (CreateSentinelProposal env schema createdBy draft st)")
      (auto simp: proposal_status_def find_proposal_append dest!: CreateSentinelProposal_refused CreateSentinelProposal_accepted
        split: option.splits intro: proposal_life.intros)
next
  case (Take now i)
  show ?thesis
  proof (cases "\<exists>e. approve_take schema now i st = (Inl e, st)")
    case False
    then obtain r where r: "approve_take schema now i st = (Inr r, update_proposal i (\<lambda>r. r\<lparr>sp_status := ''APPROVING''\<rparr>) st)"
        "find_proposal i (ss_proposals st) = Some r" "sp_status r = ''PENDING''"
      using approve_take_outcome [of schema now i st] by auto
    have "proposal_life\<^sup>=\<^sup>= (proposal_status j st) (proposal_status j (update_proposal i (\<lambda>r. r\<lparr>sp_status := ''APPROVING''\<rparr>) st))"
      using r(3) by (intro life_update [OF _ r(2)]) (auto intro: proposal_life.intros)
    with r Take show ?thesis by simp
  qed (use Take in auto)
next
  case (Settle env username i)
  show ?thesis
  proof (cases "find_proposal i (ss_flight st)")
    case (Some r)
    let ?st = "st\<lparr>ss_flight := remove1 r (ss_flight st)\<rparr>"
    obtain x where x: "find_proposal i (ss_proposals st) = Some x" "sp_status x = ''APPROVING''" and r: "sp_id r = i"
      using wf_flight [OF assms Some] by blast
    have step: "snd (proposal_step schema ev st) = snd (approve_settle env schema username r ?st)"
      using Settle Some by (simp add: split_beta Let_def)
    show ?thesis
    proof (cases rule: approve_settle_outcome [of env schema username r ?st])
      case (recorded f status db)
      have "proposal_life\<^sup>=\<^sup>= (proposal_status j (?st\<lparr>ss_tenant := db\<rparr>)) (proposal_status j (update_proposal i f (?st\<lparr>ss_tenant := db\<rparr>)))"
        using recorded(2,3) x by (intro life_update [where s = status and r = x]) (auto intro: proposal_life.intros)
      with recorded(1) r step show ?thesis by simp
    qed (use step in simp)
  qed (use Settle in simp)
next
  case (Refuse username reason i)
  consider "snd (RejectSentinelProposal schema i username reason st) = st"
    | f r where "snd (RejectSentinelProposal schema i username reason st) = update_proposal i f st"
        "find_proposal i (ss_proposals st) = Some r" "sp_status r = ''PENDING''"
        "\<forall>r. sp_id (f r) = sp_id r \<and> sp_plan (f r) = sp_plan r \<and> sp_status (f r) = ''REJECTED''"
    using RejectSentinelProposal_outcome by blast
  then show ?thesis
  proof cases
    case 2
    then have "proposal_life\<^sup>=\<^sup>= (proposal_status j st) (proposal_status j (update_proposal i f st))"
      by (intro life_update [where s = "''REJECTED''" and r = r]) (auto intro: proposal_life.intros)
    with 2 Refuse show ?thesis by simp
  qed (use Refuse in simp)
qed simp_all

text \<open>
  C33. The life of a proposal. Whatever happens, the status of every proposal only moves along the
  transitions of \<open>proposal_life\<close>: it is stored as pending or blocked, a pending one is rejected or taken for
  approval, and one that is taken becomes approved or failed. In particular a blocked, rejected, approved or
  failed proposal stays what it is.
\<close>

theorem proposal_lifecycle:
  assumes "proposals_wf st"
  shows "proposal_life\<^sup>*\<^sup>* (proposal_status i st) (proposal_status i (snd (proposal_run schema evs st)))
     \<and> (\<forall>s \<in> {''BLOCKED'', ''REJECTED'', ''APPROVED'', ''FAILED''}.
          proposal_status i st = Some s \<longrightarrow> proposal_status i (snd (proposal_run schema evs st)) = Some s)"
proof -
  have life: "proposal_life\<^sup>*\<^sup>* (proposal_status i st) (proposal_status i (snd (proposal_run schema evs st)))"
    using assms
  proof (induction evs arbitrary: st)
    case (Cons ev evs)
    from proposal_step_life [OF Cons.prems, of i schema ev] Cons.IH [OF proposal_step_keeps [OF Cons.prems], of schema ev]
    show ?case by (auto simp: split_beta Let_def intro: converse_rtranclp_into_rtranclp)
  qed simp
  have "x = Some s" if "proposal_life\<^sup>*\<^sup>* (Some s) x" "s \<in> {''BLOCKED'', ''REJECTED'', ''APPROVED'', ''FAILED''}" for s x
    using that by (cases rule: converse_rtranclpE) (auto elim: proposal_life_from)
  with life show ?thesis by metis
qed

section \<open>What goes wrong\<close>

text \<open>
  C34. A blocked proposal can be approved. The investigation of a case gives a proposal for a device outside
  the scope of the case a reason why it is blocked. The proposal is stored as pending all the same, with that
  reason, and until it expires an approval takes it.
\<close>

theorem out_of_scope_approved:
  assumes "validateSentinelProposal d = None" "sentinelCaseAllowsProposal site device (ss_tenant st) d = Some t"
    and "CreateSentinelProposal env schema createdBy (Some (case_proposal fault_text site device (ss_tenant st) d)) st = (Inr r, st')"
    and "now < pn_now env + proposal_ttl"
  shows "sp_blocked r = Some t \<and> sp_device r = pd_device d \<and> proposal_status (sp_id r) st' = Some ''PENDING''
     \<and> fst (approve_take schema now (sp_id r) st') = Inr r"
proof -
  have t: "t \<noteq> []" using assms(2) by (auto simp: sentinelCaseAllowsProposal_def split: if_splits)
  have draft: "case_proposal fault_text site device (ss_tenant st) d = d\<lparr>pd_blocked := t\<rparr>"
    using assms(1,2) by (simp add: case_proposal_def)
  have v: "validateSentinelProposal (d\<lparr>pd_blocked := t\<rparr>) = None" using assms(1) by (simp add: validateSentinelProposal_def cong: if_cong)
  obtain op where "insert_proposal env createdBy (d\<lparr>pd_blocked := t\<rparr>) (operation_plan_json op) ''PENDING'' t st = (Inr r, st')"
      and schema: "\<exists>u. SafeSchemaIdent schema = Inr u"
    using assms(3) by (auto simp: CreateSentinelProposal_def draft v split: sum.splits)
  from insert_proposal_accepted [OF this(1)] t
  have r: "st' = st\<lparr>ss_proposals := ss_proposals st @ [r]\<rparr>" "find_proposal (sp_id r) (ss_proposals st) = None"
      "sp_device r = pd_device d" "sp_status r = ''PENDING''" "sp_blocked r = Some t" "sp_expires r = pn_now env + proposal_ttl"
    by auto
  then have find: "find_proposal (sp_id r) (ss_proposals st') = Some r" by (simp add: find_proposal_append)
  with r schema assms(4) show ?thesis by (auto simp: proposal_status_def approve_take_def)
qed

text \<open>
  A lost approval. The status of the proposal is written at once and the operation in the transaction of
  the request, which is committed only after the answer. When that commit fails, the operator has been told
  that the operation is queued and the proposal is approved, but the device has none, and the proposal cannot
  be approved again.
\<close>

theorem lost_approval:
  assumes "ApproveSentinelProposal env schema i username st = (Inr op, st')" "\<not> ae_commit env"
  shows "ss_tenant st' = ss_tenant st \<and> proposal_status i st' = Some ''APPROVED''
     \<and> approve_take schema later i st' = (Inl SeNotPending, st')"
proof -
  obtain r where take: "approve_take schema (ae_now env) i st = (Inr r, update_proposal i (\<lambda>r. r\<lparr>sp_status := ''APPROVING''\<rparr>) st)"
      "find_proposal i (ss_proposals st) = Some r"
    using assms(1) approve_take_outcome [of schema "ae_now env" i st] by (auto simp: ApproveSentinelProposal_def)
  let ?st = "update_proposal i (\<lambda>r. r\<lparr>sp_status := ''APPROVING''\<rparr>) st"
  have schema: "\<exists>u. SafeSchemaIdent schema = Inr u" using take(1) by (auto simp: approve_take_def split: sum.splits)
  have "approve_settle env schema username r ?st = (Inr op, st')"
    using assms(1) take(1) by (simp add: ApproveSentinelProposal_def)
  then obtain u where "st' = update_proposal (sp_id r) (\<lambda>r. r\<lparr>sp_status := ''APPROVED'', sp_approved_by := Some u,
                          sp_approved_at := Some (ae_now env)\<rparr>) ?st"
    using assms(2) by (auto simp: approve_settle_def Let_def split: option.splits prod.splits sum.splits)
  with take(2) find_proposal_Some [OF take(2)] schema show ?thesis
    by (auto simp: proposal_status_def find_proposal_update approve_take_def)
qed

section \<open>An example\<close>

definition sample_draft :: proposal_draft where
  "sample_draft = \<lparr>pd_summary = '''', pd_device = ''dev-1'', pd_config = ''system'', pd_commands = Some [sample_set],
     pd_checks = None, pd_blocked = ''''\<rparr>"

definition sample_proposal_env :: proposal_env where
  "sample_proposal_env = \<lparr>pn_random = Some (replicate 16 CHR 0x07), pn_now = 5, pn_id = ''p-1'', pn_text = (\<lambda>_. ''invalid''),
     pn_known = True\<rparr>"

definition sample_approve_env :: "bool \<Rightarrow> approve_env" where
  "sample_approve_env commits = \<lparr>ae_now = 9, ae_commit = commits, ae_text = (\<lambda>_. ''error''), ae_decode_text = ''error''\<rparr>"

definition sample_sentinel :: sentinel_state where
  "sample_sentinel = \<lparr>ss_tenant = sample_db, ss_proposals = [], ss_flight = []\<rparr>"

lemma sample_draft_fields [simp]:
  "pd_config sample_draft = ''system''" "pd_device sample_draft = ''dev-1''" "pd_commands sample_draft = Some [sample_set]"
  "pd_checks sample_draft = None" "pd_summary sample_draft = ''''"
  by (simp_all add: sample_draft_def)

lemma sample_draft_valid: "validateSentinelProposal sample_draft = None" "isValidSchemaName ''tenant_a''"
  "varchar 50 ''system'' = Some ''system''" "varchar 100 ''ann'' = Some ''ann''"
  by code_simp+

lemma sample_proposed:
  assumes "validateSentinelProposal d = None" "pd_config d = ''system''" "pd_device d = ''dev-1''"
    "pd_commands d = Some [sample_set]" "pd_checks d = None"
  obtains r p where
    "CreateSentinelProposal sample_proposal_env ''tenant_a'' ''ann'' (Some d) sample_sentinel
       = (Inr r, sample_sentinel\<lparr>ss_proposals := [r]\<rparr>)"
    "sp_id r = ''p-1''" "sp_device r = ''dev-1''" "sp_status r = ''PENDING''" "sp_expires r = 5 + proposal_ttl"
    "sp_plan r = operation_plan_json p" "dec_operation_plan (operation_plan_json p) = Some p"
    "ValidateDeviceOperationPlan p = Inr ()" "op_generation p = 0"
proof -
  obtain p where p: "NewDeviceOperationPlan (Some (replicate 16 CHR 0x07)) ''system'' [sample_set] None False = Inr p"
    by (simp add: NewDeviceOperationPlan_def NewDeviceOperationPlanForGeneration_def sample_operation_ok newDeviceOperationID_def)
  have g: "guarded_plan p" by (rule new_plan_guarded [OF assms(1)]) (use assms p in simp)
  have "op_id p = ''op-'' @ hex_encode (replicate 16 CHR 0x07)"
    using p by (auto simp: NewDeviceOperationPlan_def NewDeviceOperationPlanForGeneration_def newDeviceOperationID_def andthen_Inr_iff)
  then have "validDeviceOperationID (op_id p)" using hex_id_valid [OF op_prefix_chars(1)] by simp
  with g have v: "ValidateDeviceOperationPlan p = Inr ()" by (simp add: guarded_plan_def ValidateDeviceOperationPlan_def)
  have dec: "dec_operation_plan (operation_plan_json p) = Some p"
    using g by (intro plan_decodes) (auto simp: guarded_plan_def)
  obtain r st' where c: "CreateSentinelProposal sample_proposal_env ''tenant_a'' ''ann'' (Some d) sample_sentinel = (Inr r, st')"
      and i: "insert_proposal sample_proposal_env ''ann'' d (operation_plan_json p) ''PENDING'' (pd_blocked d) sample_sentinel = (Inr r, st')"
    using assms p sample_draft_valid(2-4)
    by (simp add: CreateSentinelProposal_def insert_proposal_def Let_def SafeSchemaIdent_def sample_proposal_env_def
        sample_sentinel_def find_proposal_def)
  note r = insert_proposal_accepted [OF i]
  show thesis
  proof (rule that)
    show "CreateSentinelProposal sample_proposal_env ''tenant_a'' ''ann'' (Some d) sample_sentinel
       = (Inr r, sample_sentinel\<lparr>ss_proposals := [r]\<rparr>)" using c r by (simp add: sample_sentinel_def)
  qed (use r assms(3) v dec g in \<open>auto simp: sample_proposal_env_def guarded_plan_def\<close>)
qed

lemma sample_approved:
  assumes "sp_id r = ''p-1''" "sp_device r = ''dev-1''" "sp_status r = ''PENDING''" "sp_expires r = 5 + proposal_ttl"
    "sp_plan r = operation_plan_json p" "dec_operation_plan (operation_plan_json p) = Some p"
    "ValidateDeviceOperationPlan p = Inr ()" "op_generation p = 0"
  obtains db where
    "approve_take ''tenant_a'' 9 ''p-1'' (sample_sentinel\<lparr>ss_proposals := [r]\<rparr>)
       = (Inr r, sample_sentinel\<lparr>ss_proposals := [r\<lparr>sp_status := ''APPROVING''\<rparr>]\<rparr>)"
    "approve_settle (sample_approve_env commits) ''tenant_a'' ''ann'' r (sample_sentinel\<lparr>ss_proposals := [r\<lparr>sp_status := ''APPROVING''\<rparr>]\<rparr>)
       = (Inr (p\<lparr>op_generation := 5\<rparr>), sample_sentinel\<lparr>ss_tenant := (if commits then db else sample_db),
            ss_proposals := [r\<lparr>sp_status := ''APPROVED'', sp_approved_by := Some ''ann'', sp_approved_at := Some 9\<rparr>]\<rparr>)"
    "QueueDeviceOperation ''tenant_a'' 9 ''dev-1'' (Some (operation_plan_json p)) sample_db = (Inr 5, db)" "db \<noteq> sample_db"
proof -
  obtain db where db: "QueueDeviceOperation ''tenant_a'' 9 ''dev-1'' (Some (operation_plan_json p)) sample_db = (Inr 5, db)" "db \<noteq> sample_db"
    using sample_plan_queued [OF assms(7,8)] by blast
  show thesis
    by (rule that [OF _ _ db])
      (use assms db(1) sample_draft_valid in \<open>simp_all add: approve_take_def approve_settle_def SafeSchemaIdent_def find_proposal_def
        update_proposal_def proposal_ttl_def sample_sentinel_def sample_approve_env_def\<close>)
qed

definition sample_approval :: "proposal_event list" where
  "sample_approval = [Propose sample_proposal_env ''ann'' (Some sample_draft), Take 9 ''p-1'',
     Settle (sample_approve_env True) ''ann'' ''p-1'']"

lemma sample_approval_run:
  obtains st d j where "proposal_run ''tenant_a'' sample_approval sample_sentinel = ([None, None, Some ''p-1''], st)"
    "devices (ss_tenant st) ''dev-1'' = Some d" "dv_pending_op d = Some j"
proof -
  obtain r p where c: "CreateSentinelProposal sample_proposal_env ''tenant_a'' ''ann'' (Some sample_draft) sample_sentinel
       = (Inr r, sample_sentinel\<lparr>ss_proposals := [r]\<rparr>)"
      and r: "sp_id r = ''p-1''" "sp_device r = ''dev-1''" "sp_status r = ''PENDING''" "sp_expires r = 5 + proposal_ttl"
        "sp_plan r = operation_plan_json p" "dec_operation_plan (operation_plan_json p) = Some p"
        "ValidateDeviceOperationPlan p = Inr ()" "op_generation p = 0"
    by (rule sample_proposed [OF sample_draft_valid(1)]) simp_all
  obtain db where take: "approve_take ''tenant_a'' 9 ''p-1'' (sample_sentinel\<lparr>ss_proposals := [r]\<rparr>)
       = (Inr r, sample_sentinel\<lparr>ss_proposals := [r\<lparr>sp_status := ''APPROVING''\<rparr>]\<rparr>)"
      and settle: "approve_settle (sample_approve_env True) ''tenant_a'' ''ann'' r (sample_sentinel\<lparr>ss_proposals := [r\<lparr>sp_status := ''APPROVING''\<rparr>]\<rparr>)
       = (Inr (p\<lparr>op_generation := 5\<rparr>), sample_sentinel\<lparr>ss_tenant := db,
            ss_proposals := [r\<lparr>sp_status := ''APPROVED'', sp_approved_by := Some ''ann'', sp_approved_at := Some 9\<rparr>]\<rparr>)"
      and db: "QueueDeviceOperation ''tenant_a'' 9 ''dev-1'' (Some (operation_plan_json p)) sample_db = (Inr 5, db)" "db \<noteq> sample_db"
    by (rule sample_approved [OF r, where commits = True]) simp
  have flight: "ss_flight sample_sentinel = []" "ss_tenant sample_sentinel = sample_db"
    "\<And>x. sample_sentinel\<lparr>ss_proposals := x, ss_flight := []\<rparr> = sample_sentinel\<lparr>ss_proposals := x\<rparr>"
    by (simp_all add: sample_sentinel_def)
  define st where "st = sample_sentinel\<lparr>ss_tenant := db,
            ss_proposals := [r\<lparr>sp_status := ''APPROVED'', sp_approved_by := Some ''ann'', sp_approved_at := Some 9\<rparr>]\<rparr>"
  have run: "proposal_run ''tenant_a'' sample_approval sample_sentinel = ([None, None, Some ''p-1''], st)"
    using c take settle db(2) r(1) by (simp add: sample_approval_def find_proposal_def flight st_def)
  have "\<exists>d j. devices db ''dev-1'' = Some d \<and> dv_pending_op d = Some j"
    using QueueDeviceOperation_outcome [of "''tenant_a''" 9 "''dev-1''" "Some (operation_plan_json p)" sample_db] db
    by (auto simp: update_device_def queue_op_row_def)
  with run that show thesis by (auto simp: st_def)
qed

theorem assistant_operations_guarded_witness:
  "\<exists>st d j p g. snd (proposal_run ''tenant_a'' sample_approval sample_sentinel) = st
     \<and> devices (ss_tenant st) ''dev-1'' = Some d \<and> dv_pending_op d = Some j
     \<and> j = jset ''generation'' (JNum g) (operation_plan_json p) \<and> ValidateDeviceOperationPlan p = Inr ()
     \<and> op_config p \<noteq> ''network''"
proof -
  obtain st d j where run: "proposal_run ''tenant_a'' sample_approval sample_sentinel = ([None, None, Some ''p-1''], st)"
    "devices (ss_tenant st) ''dev-1'' = Some d" "dv_pending_op d = Some j"
    using sample_approval_run by blast
  have "\<forall>d0. devices (ss_tenant sample_sentinel) ''dev-1'' = Some d0 \<longrightarrow> dv_pending_op d0 \<noteq> Some j"
    by (simp add: sample_sentinel_def sample_row_def)
  from assistant_operations_guarded [OF _ _ run this] run show ?thesis by (auto simp: sample_sentinel_def)
qed

theorem proposal_queued_once_witness:
  "\<exists>qs st. proposal_run ''tenant_a'' sample_approval sample_sentinel = (qs, st) \<and> queued_ids ''p-1'' qs = 1
     \<and> list_ex (taken_by ''p-1'') sample_approval"
proof -
  obtain st d j where run: "proposal_run ''tenant_a'' sample_approval sample_sentinel = ([None, None, Some ''p-1''], st)"
    using sample_approval_run by blast
  have "queued_ids ''p-1'' [None, None, Some ''p-1''] = 1" by (simp add: queued_ids_def)
  with proposal_queued_once [OF _ _ run, of "''p-1''"] run show ?thesis by (auto simp: sample_sentinel_def)
qed

definition sample_blocked :: sentinel_state where
  "sample_blocked = sample_sentinel\<lparr>ss_proposals := [\<lparr>sp_id = ''p-2'', sp_device = ''dev-1'', sp_config = ''network'',
     sp_summary = '''', sp_plan = JNull, sp_status = ''BLOCKED'', sp_blocked = Some ''network'', sp_created_by = ''ann'',
     sp_approved_by = None, sp_approved_at = None, sp_expires = 100\<rparr>]\<rparr>"

theorem proposal_lifecycle_witness:
  "proposal_status ''p-2'' (snd (proposal_run ''tenant_a'' [Take 9 ''p-2'', Refuse ''ann'' '''' ''p-2''] sample_blocked))
     = Some ''BLOCKED''"
proof -
  have "proposals_wf sample_blocked"
    by (simp add: sample_blocked_def proposals_wf_def waiting_def sample_sentinel_def)
  moreover have "proposal_status ''p-2'' sample_blocked = Some ''BLOCKED''"
    by (simp add: sample_blocked_def proposal_status_def find_proposal_def)
  ultimately show ?thesis using proposal_lifecycle by blast
qed

theorem out_of_scope_approved_witness:
  "\<exists>r st. CreateSentinelProposal sample_proposal_env ''tenant_a'' ''ann''
       (Some (case_proposal (\<lambda>_. ''invalid'') '''' ''dev-2'' sample_db sample_draft)) sample_sentinel = (Inr r, st)
     \<and> sp_blocked r = Some ''proposal targets a device outside the Case device scope''
     \<and> fst (approve_take ''tenant_a'' 9 (sp_id r) st) = Inr r"
proof -
  let ?t = "''proposal targets a device outside the Case device scope''"
  have allows: "sentinelCaseAllowsProposal '''' ''dev-2'' (ss_tenant sample_sentinel) sample_draft = Some ?t"
    by (simp add: sentinelCaseAllowsProposal_def)
  then have draft: "case_proposal (\<lambda>_. ''invalid'') '''' ''dev-2'' (ss_tenant sample_sentinel) sample_draft = sample_draft\<lparr>pd_blocked := ?t\<rparr>"
    by (simp add: case_proposal_def sample_draft_valid)
  have v: "validateSentinelProposal (sample_draft\<lparr>pd_blocked := ?t\<rparr>) = None" by code_simp
  obtain r p where c: "CreateSentinelProposal sample_proposal_env ''tenant_a'' ''ann'' (Some (sample_draft\<lparr>pd_blocked := ?t\<rparr>)) sample_sentinel
       = (Inr r, sample_sentinel\<lparr>ss_proposals := [r]\<rparr>)"
    by (rule sample_proposed [OF v]) simp_all
  have now: "9 < pn_now sample_proposal_env + proposal_ttl" by (simp add: sample_proposal_env_def proposal_ttl_def)
  from out_of_scope_approved [OF sample_draft_valid(1) allows c [folded draft] now] c draft
  show ?thesis by (simp add: sample_sentinel_def)
qed

theorem lost_approval_witness:
  "\<exists>st op st'. ApproveSentinelProposal (sample_approve_env False) ''tenant_a'' ''p-1'' ''ann'' st = (Inr op, st')
     \<and> ss_tenant st' = sample_db \<and> proposal_status ''p-1'' st' = Some ''APPROVED''"
proof -
  obtain r p where "CreateSentinelProposal sample_proposal_env ''tenant_a'' ''ann'' (Some sample_draft) sample_sentinel
       = (Inr r, sample_sentinel\<lparr>ss_proposals := [r]\<rparr>)"
      and r: "sp_id r = ''p-1''" "sp_device r = ''dev-1''" "sp_status r = ''PENDING''" "sp_expires r = 5 + proposal_ttl"
        "sp_plan r = operation_plan_json p" "dec_operation_plan (operation_plan_json p) = Some p"
        "ValidateDeviceOperationPlan p = Inr ()" "op_generation p = 0"
    by (rule sample_proposed [OF sample_draft_valid(1)]) simp_all
  obtain db where take: "approve_take ''tenant_a'' 9 ''p-1'' (sample_sentinel\<lparr>ss_proposals := [r]\<rparr>)
       = (Inr r, sample_sentinel\<lparr>ss_proposals := [r\<lparr>sp_status := ''APPROVING''\<rparr>]\<rparr>)"
      and settle: "\<exists>st'. approve_settle (sample_approve_env False) ''tenant_a'' ''ann'' r (sample_sentinel\<lparr>ss_proposals := [r\<lparr>sp_status := ''APPROVING''\<rparr>]\<rparr>)
       = (Inr (p\<lparr>op_generation := 5\<rparr>), st')"
    by (rule sample_approved [OF r, where commits = False]) simp
  obtain st' where "ApproveSentinelProposal (sample_approve_env False) ''tenant_a'' ''p-1'' ''ann'' (sample_sentinel\<lparr>ss_proposals := [r]\<rparr>)
       = (Inr (p\<lparr>op_generation := 5\<rparr>), st')"
    using take settle by (auto simp: ApproveSentinelProposal_def sample_approve_env_def)
  from this lost_approval [OF this] show ?thesis
    by (intro exI conjI) (assumption, simp_all add: sample_approve_env_def sample_sentinel_def)
qed

end
