(* ===== verification/Sentinel_Cases.thy ===== *)
theory Sentinel_Cases
  imports Sentinel_Proposals
begin

text \<open>
  The cases of the assistant: \<open>OpenSentinelCase\<close> of \<open>src/internal/services/sentinel_store.go\<close> and the evidence
  ledger of \<open>sentinel_case_context.go\<close>, with the ids that learned knowledge may cite
  (\<open>sentinel_learning_lifecycle.go\<close>). Generated ids and the clock in nanoseconds are arguments.
\<close>

section \<open>Timestamps\<close>

text \<open>
  Civil dates as days from 1970-01-01, and the layout \<open>time.RFC3339Nano\<close> of a time in UTC, in nanoseconds.
  
\<close>

definition days_from_civil :: "int \<Rightarrow> int \<Rightarrow> int \<Rightarrow> int" where
  "days_from_civil y m d =
     (let y' = (if m \<le> 2 then y - 1 else y); era = y' div 400; yoe = y' - era * 400;
          doy = (153 * (m + (if m > 2 then -3 else 9)) + 2) div 5 + d - 1
      in era * 146097 + yoe * 365 + yoe div 4 - yoe div 100 + doy - 719468)"

definition civil_from_days :: "int \<Rightarrow> int \<times> int \<times> int" where
  "civil_from_days z' =
     (let z = z' + 719468; era = z div 146097; doe = z - era * 146097;
          yoe = (doe - doe div 1460 + doe div 36524 - doe div 146096) div 365;
          doy = doe - (365 * yoe + yoe div 4 - yoe div 100); mp = (5 * doy + 2) div 153;
          d = doy - (153 * mp + 2) div 5 + 1; m = (if mp < 10 then mp + 3 else mp - 9)
      in (yoe + era * 400 + (if m \<le> 2 then 1 else 0), m, d))"

definition pad :: "nat \<Rightarrow> int \<Rightarrow> string" where
  "pad n i = (let s = nat_str (nat i) in replicate (n - length s) CHR ''0'' @ s)"

definition nano_second :: int where
  "nano_second = 1000000000"

definition format_nano :: "int \<Rightarrow> string" where
  "format_nano t =
     (let secs = t div nano_second; frac = t mod nano_second; (y, m, d) = civil_from_days (secs div 86400); r = secs mod 86400
      in pad 4 y @ ''-'' @ pad 2 m @ ''-'' @ pad 2 d @ ''T'' @ pad 2 (r div 3600) @ '':'' @ pad 2 (r div 60 mod 60) @ '':'' @ pad 2 (r mod 60)
         @ (if frac = 0 then [] else CHR ''.'' # rev (dropWhile (\<lambda>c. c = CHR ''0'') (rev (pad 9 frac)))) @ ''Z'')"

section \<open>Cases and their ledger\<close>

record case_row =
  ca_id :: string
  ca_fingerprint :: string
  ca_source :: string
  ca_site :: "string option"
  ca_device :: "string option"
  ca_severity :: string
  ca_status :: string
  ca_title :: string
  ca_summary :: string
  ca_evidence :: json
  ca_updated :: int
  ca_resolved :: "int option"

record evidence_record =
  lc_id :: string
  lc_tool :: string
  lc_trust :: string
  lc_source :: string
  lc_captured :: string
  lc_args :: "json option"
  lc_result :: "json option"

record evidence_run =
  lr_id :: string
  lr_run :: string
  lr_origin :: string
  lr_created :: string
  lr_records :: "evidence_record list option"

record evidence_ledger =
  lg_version :: int
  lg_origin :: "json option"
  lg_runs :: "evidence_run list"

definition sentinelCaseEvidenceLedgerVersion :: int where
  "sentinelCaseEvidenceLedgerVersion = 1"

definition sentinelCaseEvidenceRunLimit :: nat where
  "sentinelCaseEvidenceRunLimit = 20"

definition sentinelEvidenceTrustClass :: "string \<Rightarrow> string" where
  "sentinelEvidenceTrustClass tool =
     (if tool \<in> {''get_device_status'', ''get_site_clients'', ''get_incidents'', ''get_recent_changes''}
      then ''measurement'' else ''untrusted_observation'')"

text \<open>What \<open>json.Unmarshal\<close> makes of a ledger, and what \<open>json.Marshal\<close> writes.\<close>

definition dec_record :: "json \<Rightarrow> evidence_record option" where
  "dec_record j =
     Option.bind (go_obj j) (\<lambda>kvs. Option.bind (go_str ''id'' kvs) (\<lambda>i. Option.bind (go_str ''tool'' kvs) (\<lambda>t.
     Option.bind (go_str ''trust_class'' kvs) (\<lambda>c. Option.bind (go_str ''source'' kvs) (\<lambda>s.
     Option.bind (go_str ''captured_at'' kvs) (\<lambda>at.
       Some \<lparr>lc_id = i, lc_tool = t, lc_trust = c, lc_source = s, lc_captured = at,
             lc_args = go_raw ''args'' kvs, lc_result = go_raw ''result'' kvs\<rparr>))))))"

definition dec_run :: "json \<Rightarrow> evidence_run option" where
  "dec_run j =
     Option.bind (go_obj j) (\<lambda>kvs. Option.bind (go_str ''id'' kvs) (\<lambda>i. Option.bind (go_str ''run_id'' kvs) (\<lambda>r.
     Option.bind (go_str ''origin'' kvs) (\<lambda>o'. Option.bind (go_str ''created_at'' kvs) (\<lambda>c.
     Option.bind (go_slice dec_record ''records'' kvs) (\<lambda>rs.
       Some \<lparr>lr_id = i, lr_run = r, lr_origin = o', lr_created = c, lr_records = rs\<rparr>))))))"

definition dec_ledger :: "json \<Rightarrow> evidence_ledger option" where
  "dec_ledger j =
     Option.bind (go_obj j) (\<lambda>kvs. Option.bind (go_int ''version'' kvs) (\<lambda>v. Option.bind (go_slice dec_run ''runs'' kvs) (\<lambda>rs.
       Some \<lparr>lg_version = v, lg_origin = go_raw ''origin'' kvs, lg_runs = slice_elems rs\<rparr>)))"

definition record_doc :: "evidence_record \<Rightarrow> json" where
  "record_doc r =
     JObj ([(''id'', JStr (lc_id r)), (''tool'', JStr (lc_tool r)), (''trust_class'', JStr (lc_trust r)),
            (''source'', JStr (lc_source r)), (''captured_at'', JStr (lc_captured r))]
       @ (case lc_args r of None \<Rightarrow> [] | Some a \<Rightarrow> [(''args'', a)])
       @ [(''result'', case lc_result r of None \<Rightarrow> JNull | Some x \<Rightarrow> x)])"

definition run_doc :: "evidence_run \<Rightarrow> json" where
  "run_doc r =
     JObj ([(''id'', JStr (lr_id r))] @ (if lr_run r = [] then [] else [(''run_id'', JStr (lr_run r))])
       @ [(''origin'', JStr (lr_origin r)), (''created_at'', JStr (lr_created r)), (''records'', slice_json record_doc (lr_records r))])"

definition ledger_doc :: "evidence_ledger \<Rightarrow> json" where
  "ledger_doc l =
     JObj ([(''version'', JNum (lg_version l))] @ (case lg_origin l of None \<Rightarrow> [] | Some o' \<Rightarrow> [(''origin'', o')])
       @ [(''runs'', JArr (map run_doc (lg_runs l)))])"

definition decodeSentinelCaseEvidenceLedger :: "json \<Rightarrow> evidence_ledger" where
  "decodeSentinelCaseEvidenceLedger j =
     (let empty = \<lparr>lg_version = sentinelCaseEvidenceLedgerVersion, lg_origin = None, lg_runs = []\<rparr>
      in if j = JNull \<or> j = JArr [] \<or> j = JObj [] then empty
         else (case dec_ledger j of
                 Some l \<Rightarrow> if lg_version l = sentinelCaseEvidenceLedgerVersion then l else empty\<lparr>lg_origin := Some j\<rparr>
               | None \<Rightarrow> empty\<lparr>lg_origin := Some j\<rparr>))"

definition ledger_records :: "evidence_ledger \<Rightarrow> evidence_record list" where
  "ledger_records l = concat (map (\<lambda>r. slice_elems (lr_records r)) (lg_runs l))"

definition sentinelHistoricalRecords :: "evidence_ledger \<Rightarrow> int \<Rightarrow> evidence_record list" where
  "sentinelHistoricalRecords l limit =
     (if limit < 1 then []
      else (let all = ledger_records l in drop (length all - nat limit) all))"

definition sentinelCaseEvidenceIDs :: "case_row \<Rightarrow> string list" where
  "sentinelCaseEvidenceIDs c =
     filter (\<lambda>i. i \<noteq> []) (map lc_id (ledger_records (decodeSentinelCaseEvidenceLedger (ca_evidence c))))"

section \<open>Storing cases\<close>

record case_db =
  cb_cases :: "case_row list"

definition find_case :: "string \<Rightarrow> case_db \<Rightarrow> case_row option" where
  "find_case i db = find (\<lambda>c. ca_id c = i) (cb_cases db)"

definition update_case :: "string \<Rightarrow> (case_row \<Rightarrow> case_row) \<Rightarrow> case_db \<Rightarrow> case_db" where
  "update_case i f db = db\<lparr>cb_cases := map (\<lambda>c. if ca_id c = i then f c else c) (cb_cases db)\<rparr>"

definition case_active :: "case_row \<Rightarrow> bool" where
  "case_active c \<longleftrightarrow> ca_status c = ''OPEN'' \<or> ca_status c = ''INVESTIGATING''"

text \<open>The row a query with \<open>ORDER BY updated_at DESC LIMIT 1\<close> finds.\<close>

fun latest_case :: "case_row list \<Rightarrow> case_row option" where
  "latest_case [] = None"
| "latest_case (c # cs) =
     (case latest_case cs of None \<Rightarrow> Some c | Some x \<Rightarrow> if ca_updated c < ca_updated x then Some x else Some c)"

text \<open>\<open>known\<close> tells whether the site and the device exist, \<open>newID\<close> is the generated id.\<close>

record case_env =
  cn_now :: int
  cn_id :: string
  cn_known :: bool

definition OpenSentinelCase ::
  "case_env \<Rightarrow> string \<Rightarrow> string \<Rightarrow> string \<Rightarrow> string \<Rightarrow> string \<Rightarrow> string \<Rightarrow> json \<Rightarrow> case_db \<Rightarrow> string option \<times> case_db" where
  "OpenSentinelCase env source site device severity title summary evidence db =
     (let fp = join_with '':'' [source, site, device, title] in
      case latest_case (filter (\<lambda>c. ca_fingerprint c = fp \<and> case_active c) (cb_cases db)) of
        Some c \<Rightarrow>
          (case varchar 20 severity of
             None \<Rightarrow> (None, db)
           | Some sev \<Rightarrow>
               (Some (ca_id c), update_case (ca_id c) (\<lambda>c. c\<lparr>ca_severity := sev, ca_summary := summary, ca_evidence := evidence,
                   ca_updated := cn_now env\<rparr>) db))
      | None \<Rightarrow>
          (case (varchar 512 fp, varchar 80 source, varchar 20 severity, varchar 255 title) of
             (Some f, Some src, Some sev, Some t) \<Rightarrow>
               if \<not> cn_known env \<or> find_case (cn_id env) db \<noteq> None then (None, db)
               else (Some (cn_id env), db\<lparr>cb_cases := cb_cases db @
                 [\<lparr>ca_id = cn_id env, ca_fingerprint = f, ca_source = src, ca_site = (if site = [] then None else Some site),
                   ca_device = (if device = [] then None else Some device), ca_severity = sev, ca_status = ''OPEN'', ca_title = t,
                   ca_summary = summary, ca_evidence = evidence, ca_updated = cn_now env, ca_resolved = None\<rparr>]\<rparr>)
           | _ \<Rightarrow> (None, db)))"

text \<open>One piece of evidence of an investigation: the tool, its arguments and its result.\<close>

record evidence_item =
  ei_tool :: string
  ei_args :: "json option"
  ei_result :: "json option"

definition evidence_records :: "(nat \<Rightarrow> string) \<Rightarrow> int \<Rightarrow> evidence_item list \<Rightarrow> evidence_record list" where
  "evidence_records uuid now items =
     map (\<lambda>(k, e). \<lparr>lc_id = uuid k, lc_tool = ei_tool e, lc_trust = sentinelEvidenceTrustClass (ei_tool e),
            lc_source = ''tool:'' @ ei_tool e, lc_captured = format_nano now, lc_args = ei_args e, lc_result = ei_result e\<rparr>)
       (enumerate 0 items)"

text \<open>The references returned are the records without arguments and results.\<close>

definition PersistSentinelCaseEvidence ::
  "(nat \<Rightarrow> string) \<Rightarrow> int \<Rightarrow> string \<Rightarrow> string \<Rightarrow> string \<Rightarrow> evidence_item list \<Rightarrow> case_db
    \<Rightarrow> evidence_record list option \<times> case_db" where
  "PersistSentinelCaseEvidence uuid now caseID runID origin evidence db =
     (if evidence = [] then (Some [], db)
      else (case find_case caseID db of
              None \<Rightarrow> (None, db)
            | Some c \<Rightarrow>
                (let ledger = decodeSentinelCaseEvidenceLedger (ca_evidence c);
                     records = evidence_records uuid now evidence;
                     run = \<lparr>lr_id = uuid (length evidence), lr_run = runID, lr_origin = origin, lr_created = format_nano now,
                            lr_records = Some records\<rparr>;
                     runs = lg_runs ledger @ [run];
                     kept = drop (length runs - sentinelCaseEvidenceRunLimit) runs
                 in (Some records,
                     update_case caseID (\<lambda>c. c\<lparr>ca_evidence := ledger_doc (ledger\<lparr>lg_runs := kept\<rparr>), ca_updated := now\<rparr>) db))))"

definition validateSentinelCaseSite :: "case_row \<Rightarrow> string \<Rightarrow> bool" where
  "validateSentinelCaseSite c siteID \<longleftrightarrow> \<not> (siteID \<noteq> [] \<and> coalesce (ca_site c) \<noteq> [] \<and> coalesce (ca_site c) \<noteq> siteID)"

section \<open>Writing and reading a ledger\<close>

definition ledger_keys :: "string list" where
  "ledger_keys = [''id'', ''tool'', ''trust_class'', ''source'', ''captured_at'', ''args'', ''result'', ''run_id'', ''origin'',
     ''created_at'', ''records'', ''version'', ''runs'']"

lemma go_entries_ledger:
  assumes "k \<in> set ledger_keys" "name \<in> set ledger_keys"
  shows "go_entries name ((k, v) # kvs) = (if k = name then v # go_entries name kvs else go_entries name kvs)"
proof -
  have "distinct (map go_fold ledger_keys)" by code_simp
  then have "inj_on go_fold (set ledger_keys)" by (simp add: distinct_map)
  with assms show ?thesis by (auto simp: go_entries_Cons inj_on_def)
qed

lemma ledger_keys_mem:
  "''id'' \<in> set ledger_keys" "''tool'' \<in> set ledger_keys" "''trust_class'' \<in> set ledger_keys" "''source'' \<in> set ledger_keys"
  "''captured_at'' \<in> set ledger_keys" "''args'' \<in> set ledger_keys" "''result'' \<in> set ledger_keys" "''run_id'' \<in> set ledger_keys"
  "''origin'' \<in> set ledger_keys" "''created_at'' \<in> set ledger_keys" "''records'' \<in> set ledger_keys" "''version'' \<in> set ledger_keys"
  "''runs'' \<in> set ledger_keys"
  by (simp_all add: ledger_keys_def)

lemmas ledger_entries = go_entries_ledger ledger_keys_mem

text \<open>What a ledger becomes when it is written and read: a missing result is the literal \<open>null\<close>.\<close>

definition filled_record :: "evidence_record \<Rightarrow> evidence_record" where
  "filled_record r = r\<lparr>lc_result := Some (case lc_result r of None \<Rightarrow> JNull | Some x \<Rightarrow> x)\<rparr>"

definition filled_run :: "evidence_run \<Rightarrow> evidence_run" where
  "filled_run r = r\<lparr>lr_records := map_option (map filled_record) (lr_records r)\<rparr>"

definition filled_ledger :: "evidence_ledger \<Rightarrow> evidence_ledger" where
  "filled_ledger l = l\<lparr>lg_runs := map filled_run (lg_runs l)\<rparr>"

lemma fold_slice_filled:
  "(\<And>x. dec (enc x) = Some (f x)) \<Longrightarrow> fold_slice dec cur [slice_json enc s] = Some (map_option (map f) s)"
  by (cases s) (auto simp: slice_json_def comp_def)

lemma dec_record_doc [simp]: "dec_record (record_doc r) = Some (filled_record r)"
  by (cases "lc_args r")
    (simp_all add: dec_record_def record_doc_def filled_record_def go_obj_def go_str_def go_raw_def ledger_entries)

lemma dec_run_doc [simp]: "dec_run (run_doc r) = Some (filled_run r)"
proof -
  have "fold_slice dec_record None [slice_json record_doc (lr_records r)] = Some (map_option (map filled_record) (lr_records r))"
    by (rule fold_slice_filled) simp
  then show ?thesis
    by (cases "lr_run r = []")
      (simp_all add: dec_run_def run_doc_def filled_run_def go_obj_def go_str_def go_slice_def ledger_entries)
qed

lemma dec_ledger_doc: "in_int64 (lg_version l) \<Longrightarrow> dec_ledger (ledger_doc l) = Some (filled_ledger l)"
proof -
  assume v: "in_int64 (lg_version l)"
  have "fold_slice dec_run None [slice_json run_doc (Some (lg_runs l))] = Some (map_option (map filled_run) (Some (lg_runs l)))"
    by (rule fold_slice_filled) simp
  then have "fold_slice dec_run None [JArr (map run_doc (lg_runs l))] = Some (Some (map filled_run (lg_runs l)))"
    by (simp add: slice_json_def)
  with v show ?thesis
    by (cases "lg_origin l")
      (simp_all add: dec_ledger_def ledger_doc_def filled_ledger_def go_obj_def go_int_def go_raw_def go_slice_def ledger_entries)
qed

lemma version_in_int64: "in_int64 sentinelCaseEvidenceLedgerVersion"
  by (simp add: sentinelCaseEvidenceLedgerVersion_def in_int64_def max_int64_def min_int64_def)

lemma decode_version [simp]: "lg_version (decodeSentinelCaseEvidenceLedger j) = sentinelCaseEvidenceLedgerVersion"
  by (auto simp: decodeSentinelCaseEvidenceLedger_def Let_def split: option.split)

lemma decode_ledger_doc:
  "lg_version l = sentinelCaseEvidenceLedgerVersion \<Longrightarrow> decodeSentinelCaseEvidenceLedger (ledger_doc l) = filled_ledger l"
  using dec_ledger_doc [of l] version_in_int64
  by (simp add: decodeSentinelCaseEvidenceLedger_def filled_ledger_def) (simp add: ledger_doc_def)

lemma filled_ids: "map lc_id (ledger_records (filled_ledger l)) = map lc_id (ledger_records l)"
proof -
  have "map lc_id (slice_elems (lr_records (filled_run r))) = map lc_id (slice_elems (lr_records r))" for r
    by (cases "lr_records r") (simp_all add: filled_run_def filled_record_def)
  then show ?thesis by (simp add: ledger_records_def filled_ledger_def map_concat comp_def)
qed

lemma filled_idem: "filled_ledger (filled_ledger l) = filled_ledger l"
proof -
  have "filled_run (filled_run r) = filled_run r" for r
    by (cases "lr_records r") (simp_all add: filled_run_def filled_record_def)
  then show ?thesis by (simp add: filled_ledger_def)
qed

lemma filled_same:
  "\<forall>r \<in> set (ledger_records l). lc_result r \<noteq> None \<Longrightarrow> filled_ledger l = l"
proof -
  assume all: "\<forall>r \<in> set (ledger_records l). lc_result r \<noteq> None"
  have "filled_run r = r" if r: "r \<in> set (lg_runs l)" for r
  proof -
    have "filled_record x = x" if "x \<in> set (slice_elems (lr_records r))" for x
      using all r that by (fastforce simp: ledger_records_def filled_record_def)
    then show ?thesis by (cases "lr_records r") (simp_all add: filled_run_def map_idI)
  qed
  then show ?thesis by (simp add: filled_ledger_def map_idI)
qed

text \<open>
  A ledger survives its column. What the code reads back of a ledger of the current version that it has
  written is that ledger, with the literal \<open>null\<close> for a result that is missing.
\<close>

theorem ledger_roundtrip:
  assumes "lg_version l = sentinelCaseEvidenceLedgerVersion"
  shows "decodeSentinelCaseEvidenceLedger (ledger_doc l) = filled_ledger l
     \<and> ((\<forall>r \<in> set (ledger_records l). lc_result r \<noteq> None) \<longrightarrow> decodeSentinelCaseEvidenceLedger (ledger_doc l) = l)"
  using decode_ledger_doc [OF assms] filled_same by simp

theorem ledger_roundtrip_witness:
  "decodeSentinelCaseEvidenceLedger (ledger_doc \<lparr>lg_version = 1, lg_origin = Some (JStr ''x''), lg_runs = []\<rparr>)
     = \<lparr>lg_version = 1, lg_origin = Some (JStr ''x''), lg_runs = []\<rparr>"
  using ledger_roundtrip [of "\<lparr>lg_version = 1, lg_origin = Some (JStr ''x''), lg_runs = []\<rparr>"]
  by (simp add: ledger_records_def sentinelCaseEvidenceLedgerVersion_def filled_ledger_def)

section \<open>The history of a case\<close>

lemma find_case_Some: "find_case i db = Some c \<Longrightarrow> c \<in> set (cb_cases db) \<and> ca_id c = i"
  unfolding find_case_def by (drule find_member) simp

lemma find_case_update:
  "(\<And>c. ca_id (f c) = ca_id c) \<Longrightarrow>
     find_case j (update_case i f db) = (if j = i then map_option f (find_case j db) else find_case j db)"
  unfolding find_case_def update_case_def by (simp add: find_key_map)

lemma find_case_append:
  "find_case j (db\<lparr>cb_cases := cb_cases db @ [c]\<rparr>)
     = (case find_case j db of None \<Rightarrow> if ca_id c = j then Some c else None | Some x \<Rightarrow> Some x)"
  by (simp add: find_case_def find_append1)

definition persisted_run :: "(nat \<Rightarrow> string) \<Rightarrow> int \<Rightarrow> string \<Rightarrow> string \<Rightarrow> evidence_item list \<Rightarrow> evidence_run" where
  "persisted_run uuid now runID origin evidence =
     \<lparr>lr_id = uuid (length evidence), lr_run = runID, lr_origin = origin, lr_created = format_nano now,
      lr_records = Some (evidence_records uuid now evidence)\<rparr>"

lemma persist_accepted:
  assumes "PersistSentinelCaseEvidence uuid now i runID origin evidence db = (Some refs, db')" "evidence \<noteq> []"
    and "find_case i db = Some c"
  defines "runs \<equiv> lg_runs (decodeSentinelCaseEvidenceLedger (ca_evidence c)) @ [persisted_run uuid now runID origin evidence]"
  shows "refs = evidence_records uuid now evidence"
    "\<exists>c'. find_case i db' = Some c' \<and> ca_id c' = i
       \<and> decodeSentinelCaseEvidenceLedger (ca_evidence c')
           = filled_ledger ((decodeSentinelCaseEvidenceLedger (ca_evidence c))\<lparr>lg_runs := drop (length runs - 20) runs\<rparr>)"
proof -
  show "refs = evidence_records uuid now evidence"
    using assms(1-3) by (simp add: PersistSentinelCaseEvidence_def Let_def)
  have db': "db' = update_case i (\<lambda>x. x\<lparr>ca_evidence := ledger_doc ((decodeSentinelCaseEvidenceLedger (ca_evidence c))\<lparr>lg_runs := drop (length runs - 20) runs\<rparr>),
      ca_updated := now\<rparr>) db"
    using assms(1-3) by (auto simp: PersistSentinelCaseEvidence_def Let_def runs_def persisted_run_def sentinelCaseEvidenceRunLimit_def)
  then show "\<exists>c'. find_case i db' = Some c' \<and> ca_id c' = i
       \<and> decodeSentinelCaseEvidenceLedger (ca_evidence c')
           = filled_ledger ((decodeSentinelCaseEvidenceLedger (ca_evidence c))\<lparr>lg_runs := drop (length runs - 20) runs\<rparr>)"
    using find_case_Some [OF assms(3)] assms(3) by (simp add: find_case_update decode_ledger_doc)
qed

lemma ids_of_runs:
  "map lc_id (ledger_records (filled_ledger (l\<lparr>lg_runs := rs\<rparr>))) = concat (map (\<lambda>r. map lc_id (slice_elems (lr_records r))) rs)"
  by (simp add: filled_ids) (simp add: ledger_records_def map_concat comp_def)


lemma latest_case_member: "latest_case cs = Some c \<Longrightarrow> c \<in> set cs"
  by (induction cs arbitrary: c) (auto split: option.splits if_splits)

lemma OpenSentinelCase_cases:
  assumes "OpenSentinelCase env source site device severity title summary evidence db = (Some i, db')"
  obtains (again) sev where "find_case i db \<noteq> None"
      "db' = update_case i (\<lambda>c. c\<lparr>ca_severity := sev, ca_summary := summary, ca_evidence := evidence, ca_updated := cn_now env\<rparr>) db"
  | (fresh) c where "find_case i db = None" "ca_id c = i" "ca_evidence c = evidence" "ca_status c = ''OPEN''"
      "db' = db\<lparr>cb_cases := cb_cases db @ [c]\<rparr>"
proof -
  let ?active = "latest_case (filter (\<lambda>c. ca_fingerprint c = join_with '':'' [source, site, device, title] \<and> case_active c) (cb_cases db))"
  show thesis
  proof (cases ?active)
    case None
    let ?c = "last (cb_cases db')"
    have "find_case i db = None \<and> ca_id ?c = i \<and> ca_evidence ?c = evidence \<and> ca_status ?c = ''OPEN''
       \<and> db' = db\<lparr>cb_cases := cb_cases db @ [?c]\<rparr>"
      using None assms by (auto simp: OpenSentinelCase_def Let_def split: option.splits if_splits)
    then show thesis using fresh by blast
  next
    case (Some c)
    then have "c \<in> set (cb_cases db)" using latest_case_member by fastforce
    then have "find_case (ca_id c) db \<noteq> None" by (auto simp: find_case_def find_None_iff)
    moreover have "\<exists>sev. i = ca_id c \<and> db' = update_case (ca_id c)
        (\<lambda>c. c\<lparr>ca_severity := sev, ca_summary := summary, ca_evidence := evidence, ca_updated := cn_now env\<rparr>) db"
      using Some assms by (auto simp: OpenSentinelCase_def Let_def split: option.splits)
    ultimately show thesis using again by blast
  qed
qed

lemma list_event_runs: "lg_runs (decodeSentinelCaseEvidenceLedger (JArr js)) = []"
  by (simp add: decodeSentinelCaseEvidenceLedger_def dec_ledger_def go_obj_def Let_def)

text \<open>
  Evidence gets lost. When the event that has opened a case happens again while the case is still
  active, the code puts the new event in the place of the ledger: with a list of flows as event, every
  reference that was handed out for the case before can no longer be cited.
\<close>

theorem reopened_case_loses_evidence:
  assumes "PersistSentinelCaseEvidence uuid now i runID origin evidence db = (Some refs, db1)" "evidence \<noteq> []"
    and "OpenSentinelCase env source site device severity title summary (JArr flows) db1 = (Some i, db2)"
  shows "\<exists>c. find_case i db2 = Some c \<and> sentinelCaseEvidenceIDs c = []"
proof -
  obtain c where c: "find_case i db = Some c"
    using assms(1,2) by (auto simp: PersistSentinelCaseEvidence_def split: option.splits)
  obtain c1 where c1: "find_case i db1 = Some c1" using persist_accepted(2) [OF assms(1,2) c] by blast
  from assms(3) show ?thesis
  proof (cases rule: OpenSentinelCase_cases)
    case (again sev)
    with c1 have "find_case i db2 = Some (c1\<lparr>ca_severity := sev, ca_summary := summary, ca_evidence := JArr flows, ca_updated := cn_now env\<rparr>)"
      by (simp add: find_case_update)
    then show ?thesis by (simp add: sentinelCaseEvidenceIDs_def ledger_records_def list_event_runs)
  qed (use c1 in simp)
qed

section \<open>An example\<close>

definition sample_case :: case_row where
  "sample_case = \<lparr>ca_id = ''c-1'', ca_fingerprint = ''flow_sense:s:dev-1:flows'', ca_source = ''flow_sense'', ca_site = Some ''s'',
     ca_device = Some ''dev-1'', ca_severity = ''HIGH'', ca_status = ''OPEN'', ca_title = ''flows'', ca_summary = '''',
     ca_evidence = JArr [], ca_updated = 0, ca_resolved = None\<rparr>"

definition sample_evidence :: "evidence_item list" where
  "sample_evidence = [\<lparr>ei_tool = ''get_incidents'', ei_args = None, ei_result = Some (JArr [])\<rparr>]"

definition sample_uuid :: "nat \<Rightarrow> string" where
  "sample_uuid k = ''e'' @ nat_str k"

definition sample_persist :: "evidence_record list option \<times> case_db" where
  "sample_persist = PersistSentinelCaseEvidence sample_uuid 5 ''c-1'' ''r-1'' ''chat'' sample_evidence \<lparr>cb_cases = [sample_case]\<rparr>"

lemma sample_persisted:
  "sample_persist = (Some (evidence_records sample_uuid 5 sample_evidence), snd sample_persist)"
  by (simp add: sample_persist_def PersistSentinelCaseEvidence_def sample_evidence_def find_case_def sample_case_def Let_def)


theorem reopened_case_loses_evidence_witness:
  "\<exists>db2 c. OpenSentinelCase \<lparr>cn_now = 9, cn_id = ''c-2'', cn_known = True\<rparr> ''flow_sense'' ''s'' ''dev-1'' ''HIGH'' ''flows'' ''again''
       (JArr []) (snd sample_persist) = (Some ''c-1'', db2)
     \<and> find_case ''c-1'' db2 = Some c \<and> sentinelCaseEvidenceIDs c = []"
proof -
  let ?env = "\<lparr>cn_now = 9, cn_id = ''c-2'', cn_known = True\<rparr>"
  have v: "varchar 20 ''HIGH'' = Some ''HIGH''" by code_simp
  have db: "snd sample_persist = update_case ''c-1'' (\<lambda>c. c\<lparr>ca_evidence := ca_evidence (hd (cb_cases (snd sample_persist))), ca_updated := 5\<rparr>)
      \<lparr>cb_cases = [sample_case]\<rparr>"
    by (simp add: sample_persist_def PersistSentinelCaseEvidence_def sample_evidence_def find_case_def sample_case_def Let_def update_case_def)
  have "fst (OpenSentinelCase ?env ''flow_sense'' ''s'' ''dev-1'' ''HIGH'' ''flows'' ''again'' (JArr []) (snd sample_persist)) = Some ''c-1''"
    by (subst db) (simp add: OpenSentinelCase_def update_case_def sample_case_def case_active_def v)
  then obtain db2 where o: "OpenSentinelCase ?env ''flow_sense'' ''s'' ''dev-1'' ''HIGH'' ''flows'' ''again'' (JArr []) (snd sample_persist) = (Some ''c-1'', db2)"
    by (metis prod.collapse)
  have "sample_evidence \<noteq> []" by (simp add: sample_evidence_def)
  from reopened_case_loses_evidence [OF sample_persisted [unfolded sample_persist_def] this o [unfolded sample_persist_def]] o
  show ?thesis by blast
qed

end
