(* ===== verification/Alert_Engine.thy ===== *)
theory Alert_Engine
  imports Sentinel_Cases Complex_Main
begin

text \<open>
  The alerts: incidents of \<open>src/internal/services/alerts.go\<close> with the cases they open, and the watch over outbound
  flows of \<open>flow_monitor.go\<close>. The load of a CPU, a \<open>float64\<close>, is a rational number; a flow is decoded json.
  The tables are kept per schema. The last load of a device and the time of the last escalation of its flows
  are kept in the memory of the controller, under the id of the device alone.
\<close>

section \<open>Incidents\<close>

record incident_row =
  ic_id :: string
  ic_site :: string
  ic_device :: string
  ic_type :: string
  ic_severity :: string
  ic_status :: string
  ic_resolved :: "int option"

record alert_db =
  ad_cases :: case_db
  ad_incidents :: "incident_row list"

definition open_incident :: "string \<Rightarrow> string \<Rightarrow> incident_row \<Rightarrow> bool" where
  "open_incident i t r \<longleftrightarrow> ic_device r = i \<and> ic_type r = t \<and> ic_status r = ''OPEN''"

text \<open>
  \<open>cn_known\<close> tells whether the rows that the new one refers to exist; an empty site id is no UUID. The id of an
  incident is generated by the database.
\<close>

definition OpenIncident ::
  "case_env \<Rightarrow> string \<Rightarrow> string \<Rightarrow> string \<Rightarrow> string \<Rightarrow> string \<Rightarrow> alert_db \<Rightarrow> alert_db" where
  "OpenIncident env incidentID incidentType deviceID siteID severity db =
     (if list_ex (open_incident deviceID incidentType) (ad_incidents db) then db
      else case (varchar 50 incidentType, varchar 20 severity) of
        (Some t, Some sev) \<Rightarrow>
          if siteID = [] \<or> \<not> cn_known env then db
          else db\<lparr>ad_incidents := ad_incidents db @
                 [\<lparr>ic_id = incidentID, ic_site = siteID, ic_device = deviceID, ic_type = t, ic_severity = sev,
                   ic_status = ''OPEN'', ic_resolved = None\<rparr>],
               ad_cases := snd (OpenSentinelCase env ''incident'' siteID deviceID severity (incidentType @ '' on '' @ deviceID)
                 (''[!] ALERT: '' @ incidentType @ '' | Device: '' @ deviceID)
                 (JObj [(''device_id'', JStr deviceID), (''incident_type'', JStr incidentType), (''severity'', JStr severity)])
                 (ad_cases db))\<rparr>
      | _ \<Rightarrow> db)"

text \<open>\<open>title LIKE 'T on %'\<close>: an underscore of \<open>T\<close> matches any character.\<close>

fun like_prefix :: "string \<Rightarrow> string \<Rightarrow> bool" where
  "like_prefix [] s \<longleftrightarrow> True"
| "like_prefix (p # ps) [] \<longleftrightarrow> False"
| "like_prefix (p # ps) (c # cs) \<longleftrightarrow> (p = CHR ''_'' \<or> p = c) \<and> like_prefix ps cs"

definition ResolveIncident :: "int \<Rightarrow> string \<Rightarrow> string \<Rightarrow> alert_db \<Rightarrow> alert_db" where
  "ResolveIncident now incidentType deviceID db =
     db\<lparr>ad_incidents := map (\<lambda>r. if open_incident deviceID incidentType r then r\<lparr>ic_status := ''RESOLVED'', ic_resolved := Some now\<rparr> else r)
           (ad_incidents db),
        ad_cases := (ad_cases db)\<lparr>cb_cases := map (\<lambda>c. if ca_source c = ''incident'' \<and> ca_device c = Some deviceID
              \<and> like_prefix (incidentType @ '' on '') (ca_title c) \<and> case_active c
            then c\<lparr>ca_status := ''RESOLVED'', ca_resolved := Some now, ca_updated := now\<rparr> else c) (cb_cases (ad_cases db))\<rparr>\<rparr>"

record alert_state =
  al_dbs :: "string \<Rightarrow> alert_db"
  al_load :: "string \<rightharpoonup> rat \<times> int"
  al_flows :: "string \<rightharpoonup> int"

definition update_schema :: "string \<Rightarrow> (alert_db \<Rightarrow> alert_db) \<Rightarrow> alert_state \<Rightarrow> alert_state" where
  "update_schema schema f st = st\<lparr>al_dbs := (al_dbs st)(schema := f (al_dbs st schema))\<rparr>"

record telemetry =
  te_signal :: int
  te_cpu :: rat

definition cpuLoadRetention :: int where
  "cpuLoadRetention = 7 * 24 * 3600 * nano_second"

definition pruneCPULoads :: "int \<Rightarrow> alert_state \<Rightarrow> alert_state" where
  "pruneCPULoads now st =
     st\<lparr>al_load := (\<lambda>i. case al_load st i of None \<Rightarrow> None | Some (l, t) \<Rightarrow> if t < now - cpuLoadRetention then None else Some (l, t))\<rparr>"

definition critical :: "telemetry \<Rightarrow> bool" where
  "critical m \<longleftrightarrow> te_signal m \<noteq> 0 \<and> te_signal m < -80"

definition telemetry_incidents ::
  "(string \<Rightarrow> case_env \<times> string) \<Rightarrow> int \<Rightarrow> string \<Rightarrow> string \<Rightarrow> telemetry \<Rightarrow> rat option \<Rightarrow> alert_db \<Rightarrow> alert_db" where
  "telemetry_incidents env now deviceID siteID m last_load db =
     (let up = ResolveIncident now ''NODE_DOWN'' deviceID db;
          sig = (if critical m
                 then OpenIncident (fst (env ''SIGNAL_CRITICAL'')) (snd (env ''SIGNAL_CRITICAL'')) ''SIGNAL_CRITICAL'' deviceID siteID ''CRITICAL'' up
                 else ResolveIncident now ''SIGNAL_CRITICAL'' deviceID up)
      in if (case last_load of None \<Rightarrow> False | Some l \<Rightarrow> l > 4) \<and> te_cpu m > 4
         then OpenIncident (fst (env ''CPU_OVERLOAD'')) (snd (env ''CPU_OVERLOAD'')) ''CPU_OVERLOAD'' deviceID siteID ''WARNING'' sig
         else if te_cpu m \<le> 4 then ResolveIncident now ''CPU_OVERLOAD'' deviceID sig else sig)"

definition ProcessTelemetry ::
  "(string \<Rightarrow> case_env \<times> string) \<Rightarrow> int \<Rightarrow> string \<Rightarrow> string \<Rightarrow> string \<Rightarrow> telemetry \<Rightarrow> alert_state \<Rightarrow> alert_state" where
  "ProcessTelemetry env now schema deviceID siteID m st =
     (update_schema schema (telemetry_incidents env now deviceID siteID m (map_option fst (al_load st deviceID))) st)
       \<lparr>al_load := (al_load st)(deviceID \<mapsto> (te_cpu m, now))\<rparr>"

text \<open>
  \<open>checkDownNodes\<close> for one tenant: \<open>down\<close> lists the devices that were last seen more than 600 seconds ago
  with their site; a row without a site does not scan and is passed over.
\<close>

definition checkDownNodes :: "(string \<Rightarrow> case_env \<times> string) \<Rightarrow> (string \<times> string option) list \<Rightarrow> alert_db \<Rightarrow> alert_db" where
  "checkDownNodes env down db =
     fold (\<lambda>(i, site) db. case site of
            None \<Rightarrow> db
          | Some s \<Rightarrow> OpenIncident (fst (env i)) (snd (env i)) ''NODE_DOWN'' i s ''CRITICAL'' db) down db"

section \<open>Outbound flows\<close>

record flow_entry =
  fl_proto :: string
  fl_dst :: string
  fl_dport :: int
  fl_conns :: int
  fl_src :: string
  fl_flagged :: bool
  fl_reason :: string

definition getString :: "json \<Rightarrow> string \<Rightarrow> string" where
  "getString m key = (case jfield key m of Some (JStr s) \<Rightarrow> s | _ \<Rightarrow> [])"

definition getInt :: "json \<Rightarrow> string \<Rightarrow> int" where
  "getInt m key = (case jfield key m of Some (JNum n) \<Rightarrow> n | _ \<Rightarrow> 0)"

definition flow_of :: "json \<Rightarrow> flow_entry option" where
  "flow_of m =
     (case m of
        JObj _ \<Rightarrow> Some \<lparr>fl_proto = getString m ''proto'', fl_dst = getString m ''dst'', fl_dport = getInt m ''dport'',
                   fl_conns = getInt m ''conns'', fl_src = getString m ''sample_src'', fl_flagged = False, fl_reason = []\<rparr>
      | _ \<Rightarrow> None)"

definition standardSafePorts :: "int list" where
  "standardSafePorts = [80, 443, 53, 123, 25, 465, 587, 993, 995, 22]"

definition threatConnectionThreshold :: int where
  "threatConnectionThreshold = 50"

definition flowSentinelCooldown :: int where
  "flowSentinelCooldown = 10 * 60 * nano_second"

definition flow_whitelist :: "string \<Rightarrow> string list" where
  "flow_whitelist controllerIP =
     [controllerIP, ''8.8.8.8'', ''8.8.4.4'', ''1.1.1.1'', ''1.0.0.1'', ''9.9.9.9'', ''208.67.222.222'', ''127.0.0.1'']"

definition isWireGuardInternal :: "string \<Rightarrow> bool" where
  "isWireGuardInternal ip \<longleftrightarrow> has_prefix ip ''10.8.0.''"

definition isPrivateIP :: "string \<Rightarrow> bool" where
  "isPrivateIP ip \<longleftrightarrow>
     list_ex (has_prefix ip)
       [''10.'', ''192.168.'', ''172.16.'', ''172.17.'', ''172.18.'', ''172.19.'', ''172.20.'', ''172.21.'', ''172.22.'',
        ''172.23.'', ''172.24.'', ''172.25.'', ''172.26.'', ''172.27.'', ''172.28.'', ''172.29.'', ''172.30.'', ''172.31.'']"

definition flow_threat :: "flow_entry \<Rightarrow> string option" where
  "flow_threat e =
     (if fl_conns e > threatConnectionThreshold \<and> fl_dport e \<notin> set standardSafePorts
      then Some (''HIGH_CONN_COUNT ('' @ int_str (fl_conns e) @ '' connections) to non-standard port '' @ int_str (fl_dport e))
      else if fl_dport e = 6881 \<or> fl_dport e = 6889 \<or> (fl_dport e \<ge> 51413 \<and> fl_dport e \<le> 51415) \<or> fl_dport e = 4662 \<or> fl_dport e = 4672
      then Some (''SUSPECTED_P2P port '' @ int_str (fl_dport e))
      else if fl_dport e \<in> {1194, 4444, 9001, 9030, 8888, 31337}
      then Some (''SUSPECTED_TUNNEL_C2 port '' @ int_str (fl_dport e))
      else None)"

definition enrich_flow :: "string \<Rightarrow> flow_entry \<Rightarrow> flow_entry" where
  "enrich_flow controllerIP e =
     (if fl_dst e \<in> set (flow_whitelist controllerIP) \<or> isWireGuardInternal (fl_dst e) then e
      else if isPrivateIP (fl_dst e) then e
      else (case flow_threat e of None \<Rightarrow> e | Some reason \<Rightarrow> e\<lparr>fl_flagged := True, fl_reason := reason\<rparr>))"

text \<open>The second component tells which flows are given to the assistant, if any are.\<close>

definition processFlowSense ::
  "int \<Rightarrow> string \<Rightarrow> json list \<Rightarrow> string \<Rightarrow> (string \<rightharpoonup> int)
    \<Rightarrow> (flow_entry list \<times> flow_entry list option) \<times> (string \<rightharpoonup> int)" where
  "processFlowSense now deviceID rawFlows controllerIP cache =
     (let enriched = map (enrich_flow controllerIP) (List.map_filter flow_of rawFlows);
          suspicious = filter fl_flagged enriched;
          shouldRun = (case cache deviceID of None \<Rightarrow> True | Some lastRun \<Rightarrow> now - lastRun > flowSentinelCooldown)
      in if suspicious \<noteq> [] \<and> shouldRun then ((enriched, Some suspicious), cache(deviceID \<mapsto> now))
         else ((enriched, None), cache))"

definition flow_doc :: "flow_entry \<Rightarrow> json" where
  "flow_doc e =
     JObj ([(''proto'', JStr (fl_proto e)), (''dst'', JStr (fl_dst e)), (''dport'', JNum (fl_dport e)), (''conns'', JNum (fl_conns e)),
            (''sample_src'', JStr (fl_src e)), (''flagged'', JBool (fl_flagged e))]
       @ (if fl_reason e = [] then [] else [(''reason'', JStr (fl_reason e))]))"

definition flow_line :: "flow_entry \<Rightarrow> string" where
  "flow_line f =
     ''  '' @ [CHR 0xE2, CHR 0x80, CHR 0xA2] @ '' Proto: '' @ fl_proto f @ '' | Dst: '' @ fl_dst f @ '' | Port: '' @ int_str (fl_dport f)
     @ '' | Conns: '' @ int_str (fl_conns f) @ '' | Reason: '' @ fl_reason f @ '' | SrcClient: '' @ fl_src f @ [CHR 0x0A]"

definition flow_context :: "string \<Rightarrow> flow_entry list \<Rightarrow> string" where
  "flow_context deviceID suspicious =
     ''[FLOW_SENSE ALERT] Device: '' @ deviceID @ [CHR 0x0A] @ ''Suspicious outbound connection patterns detected:'' @ [CHR 0x0A, CHR 0x0A]
     @ concat (map flow_line suspicious) @ [CHR 0x0A]
     @ ''Analyze if this represents a security threat: P2P abuse, botnet C2, unauthorized tunnels, or data exfiltration. Provide actionable recommendation.''"

text \<open>
  The escalation runs in a goroutine of its own, so a panic ends the controller. \<open>analysed\<close> tells whether the
  language model answers, \<open>unix\<close> is the clock in seconds; the answer, when there is no panic, is the correlation id.
\<close>

datatype escalation = Escalated string | NotAnalysed | Panicked

definition escalateFlowToSentinel ::
  "case_env \<Rightarrow> bool \<Rightarrow> int \<Rightarrow> string \<Rightarrow> string \<Rightarrow> string \<Rightarrow> flow_entry list \<Rightarrow> alert_state \<Rightarrow> escalation \<times> alert_state" where
  "escalateFlowToSentinel env analysed unix schema siteID deviceID suspicious st =
     (let st' = (if schema = [] then st
                 else update_schema schema (\<lambda>db. db\<lparr>ad_cases := snd (OpenSentinelCase env ''flow_sense'' siteID deviceID ''HIGH''
                        ''Suspicious outbound flow activity'' (flow_context deviceID suspicious) (JArr (map flow_doc suspicious)) (ad_cases db))\<rparr>) st)
      in if \<not> analysed then (NotAnalysed, st')
         else if length deviceID < 8 then (Panicked, st')
         else (Escalated (''FLOW-'' @ take 8 deviceID @ ''-'' @ int_str unix), st'))"

text \<open>One report of flows: the escalation starts when it is due.\<close>

definition flow_report ::
  "case_env \<Rightarrow> bool \<Rightarrow> int \<Rightarrow> int \<Rightarrow> string \<Rightarrow> string \<Rightarrow> string \<Rightarrow> json list \<Rightarrow> string \<Rightarrow> alert_state
    \<Rightarrow> escalation option \<times> alert_state" where
  "flow_report env analysed unix now schema siteID deviceID rawFlows controllerIP st =
     (case processFlowSense now deviceID rawFlows controllerIP (al_flows st) of
        ((_, None), _) \<Rightarrow> (None, st)
      | ((_, Some suspicious), cache) \<Rightarrow>
          (let (e, st') = escalateFlowToSentinel env analysed unix schema siteID deviceID suspicious (st\<lparr>al_flows := cache\<rparr>)
           in (Some e, st')))"

section \<open>Runs\<close>

datatype alert_event =
    Telemetry "string \<Rightarrow> case_env \<times> string" int string string string telemetry
  | DownCheck "string \<Rightarrow> case_env \<times> string" string "(string \<times> string option) list"
  | Prune int
  | Flows case_env bool int int string string string "json list" string

fun alert_step :: "alert_event \<Rightarrow> alert_state \<Rightarrow> alert_state" where
  "alert_step (Telemetry env now schema i site m) st = ProcessTelemetry env now schema i site m st"
| "alert_step (DownCheck env schema down) st = update_schema schema (checkDownNodes env down) st"
| "alert_step (Prune now) st = pruneCPULoads now st"
| "alert_step (Flows env analysed unix now schema site i flows controller) st =
     snd (flow_report env analysed unix now schema site i flows controller st)"

section \<open>Which incidents are open\<close>

definition is_open :: "string \<Rightarrow> string \<Rightarrow> alert_db \<Rightarrow> bool" where
  "is_open i t db \<longleftrightarrow> list_ex (open_incident i t) (ad_incidents db)"

text \<open>An insertion succeeds when the texts fit and the rows it refers to exist.\<close>

definition insertable :: "case_env \<Rightarrow> string \<Rightarrow> string \<Rightarrow> string \<Rightarrow> bool" where
  "insertable env t site severity \<longleftrightarrow> varchar 50 t = Some t \<and> varchar 20 severity = Some severity \<and> site \<noteq> [] \<and> cn_known env"

lemma is_open_OpenIncident:
  assumes "insertable env t' site severity"
  shows "is_open i t (OpenIncident env k t' j site severity db) \<longleftrightarrow> is_open i t db \<or> (i = j \<and> t = t')"
  using assms by (auto simp: OpenIncident_def is_open_def insertable_def open_incident_def list_ex_iff)

lemma is_open_kept: "is_open i t db \<Longrightarrow> is_open i t (OpenIncident env k t' j site severity db)"
  by (auto simp: OpenIncident_def is_open_def split: option.splits)

lemma is_open_other:
  assumes "varchar 50 t' = Some t'" "(i, t) \<noteq> (j, t')"
  shows "is_open i t (OpenIncident env k t' j site severity db) \<longleftrightarrow> is_open i t db"
  using assms by (auto simp: OpenIncident_def is_open_def open_incident_def list_ex_iff split: option.splits)

lemma is_open_ResolveIncident:
  "is_open i t (ResolveIncident now t' j db) \<longleftrightarrow> is_open i t db \<and> (i, t) \<noteq> (j, t')"
  by (auto simp: ResolveIncident_def is_open_def open_incident_def list_ex_iff)

lemma incident_types [simp]:
  "varchar 50 ''NODE_DOWN'' = Some ''NODE_DOWN''" "varchar 50 ''SIGNAL_CRITICAL'' = Some ''SIGNAL_CRITICAL''"
  "varchar 50 ''CPU_OVERLOAD'' = Some ''CPU_OVERLOAD''" "varchar 20 ''CRITICAL'' = Some ''CRITICAL''" "varchar 20 ''WARNING'' = Some ''WARNING''"
  by code_simp+

definition telemetry_ok :: "(string \<Rightarrow> case_env \<times> string) \<Rightarrow> string \<Rightarrow> bool" where
  "telemetry_ok env site \<longleftrightarrow> site \<noteq> [] \<and> cn_known (fst (env ''SIGNAL_CRITICAL'')) \<and> cn_known (fst (env ''CPU_OVERLOAD''))"

lemmas open_rules = is_open_other is_open_ResolveIncident is_open_OpenIncident insertable_def telemetry_ok_def

lemma telemetry_signal:
  "telemetry_ok env site \<Longrightarrow> is_open i ''SIGNAL_CRITICAL'' (telemetry_incidents env now i site m l db) \<longleftrightarrow> critical m"
  by (cases "critical m") (simp_all add: telemetry_incidents_def Let_def open_rules)

lemma telemetry_overload:
  assumes "telemetry_ok env site"
  shows "is_open i ''CPU_OVERLOAD'' (telemetry_incidents env now i site m l db) \<longleftrightarrow>
     (is_open i ''CPU_OVERLOAD'' db \<or> (case l of None \<Rightarrow> False | Some l \<Rightarrow> l > 4)) \<and> te_cpu m > 4"
proof -
  define sig where "sig = (if critical m
      then OpenIncident (fst (env ''SIGNAL_CRITICAL'')) (snd (env ''SIGNAL_CRITICAL'')) ''SIGNAL_CRITICAL'' i site ''CRITICAL'' (ResolveIncident now ''NODE_DOWN'' i db)
      else ResolveIncident now ''SIGNAL_CRITICAL'' i (ResolveIncident now ''NODE_DOWN'' i db))"
  have ne: "(i, ''CPU_OVERLOAD'') \<noteq> (i, ''SIGNAL_CRITICAL'')" "(i, ''CPU_OVERLOAD'') \<noteq> (i, ''NODE_DOWN'')" by simp_all
  have sig: "is_open i ''CPU_OVERLOAD'' sig \<longleftrightarrow> is_open i ''CPU_OVERLOAD'' db"
    unfolding sig_def using is_open_other [OF incident_types(2) ne(1)] ne by (simp add: is_open_ResolveIncident)
  have ins: "insertable (fst (env ''CPU_OVERLOAD'')) ''CPU_OVERLOAD'' site ''WARNING''"
    using assms by (simp add: insertable_def telemetry_ok_def)
  show ?thesis
  proof (cases "te_cpu m > 4")
    case True
    then have "\<not> te_cpu m \<le> 4" by simp
    with True sig ins show ?thesis
      unfolding telemetry_incidents_def Let_def sig_def [symmetric] by (simp add: is_open_OpenIncident)
  next
    case False
    then have "te_cpu m \<le> 4" by simp
    with False show ?thesis
      unfolding telemetry_incidents_def Let_def sig_def [symmetric] by (simp add: is_open_ResolveIncident)
  qed
qed

lemma telemetry_other:
  assumes "j \<noteq> i"
  shows "is_open j t (telemetry_incidents env now i site m l db) \<longleftrightarrow> is_open j t db"
proof -
  have "(j, t) \<noteq> (i, t')" for t' using assms by simp
  note rules = is_open_other [OF _ this] is_open_ResolveIncident
  show ?thesis using assms unfolding telemetry_incidents_def Let_def by (simp add: rules)
qed

lemma checkDownNodes_open:
  assumes "t \<noteq> ''NODE_DOWN''"
  shows "is_open i t (checkDownNodes env down db) \<longleftrightarrow> is_open i t db"
proof (induction down arbitrary: db)
  case (Cons x down)
  have "(i, t) \<noteq> (j, ''NODE_DOWN'')" for j using assms by simp
  note other = is_open_other [OF incident_types(1) this]
  obtain j site where "x = (j, site)" by fastforce
  with Cons other show ?case by (cases site) (simp_all add: checkDownNodes_def)
qed (simp add: checkDownNodes_def)

lemma update_schema_simps [simp]:
  "al_load (update_schema s f st) = al_load st" "al_flows (update_schema s f st) = al_flows st"
  "al_dbs (update_schema s f st) s' = (if s' = s then f (al_dbs st s) else al_dbs st s')"
  by (simp_all add: update_schema_def)

lemma flow_report_keeps:
  "ad_incidents (al_dbs (snd (flow_report env analysed unix now schema site i flows controller st)) s) = ad_incidents (al_dbs st s)"
  "al_load (snd (flow_report env analysed unix now schema site i flows controller st)) = al_load st"
  by (auto simp: flow_report_def escalateFlowToSentinel_def Let_def split: prod.split option.split)

section \<open>What telemetry does to the alerts\<close>

text \<open>The samples of one device in a run, the newest last, and what the alerts should be.\<close>

fun samples :: "string \<Rightarrow> alert_event list \<Rightarrow> telemetry list" where
  "samples i [] = []"
| "samples i (Telemetry env now s j site m # evs) = (if j = i then m # samples i evs else samples i evs)"
| "samples i (_ # evs) = samples i evs"

definition signal_alert :: "telemetry list \<Rightarrow> bool" where
  "signal_alert ms \<longleftrightarrow> ms \<noteq> [] \<and> critical (last ms)"

definition overload_alert :: "telemetry list \<Rightarrow> bool" where
  "overload_alert ms \<longleftrightarrow> 2 \<le> length ms \<and> te_cpu (last ms) > 4 \<and> te_cpu (last (butlast ms)) > 4"

text \<open>A run in which one tenant owns the device, its reports can be stored and no load is forgotten.\<close>

definition orderly :: "string \<Rightarrow> string \<Rightarrow> alert_event \<Rightarrow> bool" where
  "orderly s i ev =
     (case ev of
        Telemetry env now s' j site m \<Rightarrow> j = i \<longrightarrow> s' = s \<and> telemetry_ok env site
      | Prune now \<Rightarrow> False
      | _ \<Rightarrow> True)"

lemma samples_append: "samples i (xs @ ys) = samples i xs @ samples i ys"
  by (induction i xs rule: samples.induct) auto

definition alert_run :: "alert_event list \<Rightarrow> alert_state \<Rightarrow> alert_state" where
  "alert_run evs st = fold alert_step evs st"

lemma alert_run_snoc: "alert_run (evs @ [ev]) st = alert_step ev (alert_run evs st)"
  by (simp add: alert_run_def)

lemma telemetry_alerts_invariant:
  assumes "list_all (orderly s i) evs" "\<not> is_open i ''SIGNAL_CRITICAL'' (al_dbs st s)" "\<not> is_open i ''CPU_OVERLOAD'' (al_dbs st s)"
    "al_load st i = None"
  defines "ms \<equiv> samples i evs"
  shows "is_open i ''SIGNAL_CRITICAL'' (al_dbs (alert_run evs st) s) \<longleftrightarrow> signal_alert ms"
    "is_open i ''CPU_OVERLOAD'' (al_dbs (alert_run evs st) s) \<longleftrightarrow> overload_alert ms"
    "map_option fst (al_load (alert_run evs st) i) = (if ms = [] then None else Some (te_cpu (last ms)))"
proof -
  have "(is_open i ''SIGNAL_CRITICAL'' (al_dbs (alert_run evs st) s) \<longleftrightarrow> signal_alert ms)
     \<and> (is_open i ''CPU_OVERLOAD'' (al_dbs (alert_run evs st) s) \<longleftrightarrow> overload_alert ms)
     \<and> map_option fst (al_load (alert_run evs st) i) = (if ms = [] then None else Some (te_cpu (last ms)))"
    using assms(1) unfolding ms_def
  proof (induction evs rule: rev_induct)
    case Nil
    with assms(2-4) show ?case by (simp add: alert_run_def signal_alert_def overload_alert_def)
  next
    case (snoc ev evs)
    then have IH: "is_open i ''SIGNAL_CRITICAL'' (al_dbs (alert_run evs st) s) \<longleftrightarrow> signal_alert (samples i evs)"
        "is_open i ''CPU_OVERLOAD'' (al_dbs (alert_run evs st) s) \<longleftrightarrow> overload_alert (samples i evs)"
        "map_option fst (al_load (alert_run evs st) i) = (if samples i evs = [] then None else Some (te_cpu (last (samples i evs))))"
      and ev: "orderly s i ev" by simp_all
    show ?case
    proof (cases ev)
      case (Telemetry env now s' j site m)
      show ?thesis
      proof (cases "j = i")
        case True
        with Telemetry ev have "s' = s" "telemetry_ok env site" by (simp_all add: orderly_def)
        with IH Telemetry True show ?thesis
          by (cases "samples i evs" rule: rev_cases)
            (auto simp: alert_run_snoc samples_append ProcessTelemetry_def telemetry_signal telemetry_overload signal_alert_def
              overload_alert_def butlast_append)
      next
        case False
        with IH Telemetry show ?thesis
          by (auto simp: alert_run_snoc samples_append ProcessTelemetry_def telemetry_other)
      qed
    next
      case (DownCheck env s' down)
      with IH show ?thesis by (auto simp: alert_run_snoc samples_append checkDownNodes_open)
    next
      case (Flows env analysed unix now s' site j flows controller)
      with IH show ?thesis by (simp add: alert_run_snoc samples_append flow_report_keeps is_open_def)
    qed (use ev in \<open>simp add: orderly_def\<close>)
  qed
  then show "is_open i ''SIGNAL_CRITICAL'' (al_dbs (alert_run evs st) s) \<longleftrightarrow> signal_alert ms"
    "is_open i ''CPU_OVERLOAD'' (al_dbs (alert_run evs st) s) \<longleftrightarrow> overload_alert ms"
    "map_option fst (al_load (alert_run evs st) i) = (if ms = [] then None else Some (te_cpu (last ms)))"
    by simp_all
qed


section \<open>What every step keeps\<close>

text \<open>
  The handlers touch the tables of a schema by opening and resolving incidents, and by opening cases; what
  these keep, every run keeps.
\<close>

locale incident_invariant =
  fixes keeps :: "alert_db \<Rightarrow> bool"
  assumes opens: "keeps db \<Longrightarrow> varchar 50 t = Some t \<Longrightarrow> keeps (OpenIncident env k t i site severity db)"
    and resolves: "keeps db \<Longrightarrow> keeps (ResolveIncident now t i db)"
    and cases_free: "keeps db \<Longrightarrow> keeps (db\<lparr>ad_cases := c\<rparr>)"
begin

lemma telemetry_keeps: "keeps db \<Longrightarrow> keeps (telemetry_incidents env now i site m l db)"
  unfolding telemetry_incidents_def Let_def using opens resolves by simp

lemma down_keeps: "keeps db \<Longrightarrow> keeps (checkDownNodes env down db)"
  unfolding checkDownNodes_def by (induction down arbitrary: db) (auto simp: opens split: option.split)

lemma step_keeps:
  assumes "\<forall>s. keeps (al_dbs st s)"
  shows "\<forall>s. keeps (al_dbs (alert_step ev st) s)"
proof (cases ev)
  case (Telemetry env now s' j site m)
  with assms telemetry_keeps show ?thesis by (simp add: ProcessTelemetry_def)
next
  case (DownCheck env s' down)
  with assms down_keeps show ?thesis by simp
next
  case (Prune now)
  with assms show ?thesis by (simp add: pruneCPULoads_def)
next
  case (Flows env analysed unix now s' site j flows controller)
  with assms cases_free show ?thesis
    by (auto simp: flow_report_def escalateFlowToSentinel_def Let_def split: prod.split option.split)
qed

lemma alert_run_keeps:
  assumes "\<forall>s. keeps (al_dbs st s)"
  shows "keeps (al_dbs (alert_run evs st) s)"
proof -
  have "\<forall>s. keeps (al_dbs (alert_run evs st) s)"
    using assms by (induction evs rule: rev_induct) (simp_all add: alert_run_def step_keeps)
  then show ?thesis by blast
qed

end

definition incidents_ok :: "alert_db \<Rightarrow> bool" where
  "incidents_ok db \<longleftrightarrow>
     (\<forall>i t. length (filter (open_incident i t) (ad_incidents db)) \<le> 1)
     \<and> list_all (\<lambda>r. (ic_status r = ''OPEN'' \<longleftrightarrow> ic_resolved r = None) \<and> ic_status r \<in> {''OPEN'', ''RESOLVED''}) (ad_incidents db)"

lemma filter_map_le: "(\<And>x. P (f x) \<Longrightarrow> P x) \<Longrightarrow> length (filter P (map f xs)) \<le> length (filter P xs)"
  by (induction xs) auto

lemma not_open_none: "\<not> list_ex P xs \<Longrightarrow> length (filter P xs) = 0"
  by (induction xs) auto

interpretation incidents: incident_invariant incidents_ok
proof
  fix db :: alert_db and env k t i site severity
  assume ok: "incidents_ok db" and t: "varchar 50 t = Some t"
  show "incidents_ok (OpenIncident env k t i site severity db)"
  proof (cases "OpenIncident env k t i site severity db = db")
    case False
    then have none: "\<not> list_ex (open_incident i t) (ad_incidents db)" by (auto simp: OpenIncident_def)
    define r where "r = last (ad_incidents (OpenIncident env k t i site severity db))"
    have new: "ad_incidents (OpenIncident env k t i site severity db) = ad_incidents db @ [r]"
        "ic_device r = i" "ic_type r = t" "ic_status r = ''OPEN''" "ic_resolved r = None"
      using False t by (auto simp: OpenIncident_def r_def split: option.splits if_splits)
    have "length (filter (open_incident j u) (ad_incidents db @ [r])) \<le> 1" for j u
      using ok new(2-4) not_open_none [OF none] by (auto simp: incidents_ok_def open_incident_def)
    with ok new show ?thesis by (simp add: incidents_ok_def)
  qed (use ok in simp)
next
  fix db :: alert_db and now t i
  assume ok: "incidents_ok db"
  let ?f = "\<lambda>r. if open_incident i t r then r\<lparr>ic_status := ''RESOLVED'', ic_resolved := Some now\<rparr> else r"
  have "open_incident j u (?f r) \<Longrightarrow> open_incident j u r" for j u r by (auto simp: open_incident_def split: if_splits)
  then have "length (filter (open_incident j u) (map ?f (ad_incidents db))) \<le> length (filter (open_incident j u) (ad_incidents db))" for j u
    by (rule filter_map_le)
  with ok have "length (filter (open_incident j u) (map ?f (ad_incidents db))) \<le> 1" for j u
    using order_trans unfolding incidents_ok_def by blast
  with ok show "incidents_ok (ResolveIncident now t i db)"
    by (auto simp: incidents_ok_def ResolveIncident_def list_all_iff)
qed (simp add: incidents_ok_def)


text \<open>
  The last load of a device is kept under its id alone. When a device of another tenant has the same id,
  its sample counts as the previous one: a single sample above 4 opens the load alert.
\<close>

lemma load_shared_by_tenants:
  assumes "telemetry_ok env2 site2" "te_cpu m1 > 4" "te_cpu m2 > 4"
  shows "is_open i ''CPU_OVERLOAD'' (al_dbs (alert_run [Telemetry env1 t1 a i site1 m1, Telemetry env2 t2 b i site2 m2] st) b)"
  using assms by (simp add: alert_run_def ProcessTelemetry_def telemetry_overload)

section \<open>Which flows are suspicious\<close>

definition dotted :: "nat \<Rightarrow> nat \<Rightarrow> nat \<Rightarrow> nat \<Rightarrow> string" where
  "dotted a b c d = nat_str a @ CHR ''.'' # nat_str b @ CHR ''.'' # nat_str c @ CHR ''.'' # nat_str d"

text \<open>The private networks 10/8, 172.16/12 and 192.168/16.\<close>

definition rfc1918 :: "nat \<Rightarrow> nat \<Rightarrow> bool" where
  "rfc1918 a b \<longleftrightarrow> a = 10 \<or> (a = 172 \<and> 16 \<le> b \<and> b \<le> 31) \<or> (a = 192 \<and> b = 168)"

lemma has_prefix_simps [simp]:
  "has_prefix s []" "has_prefix (x # s) (y # p) \<longleftrightarrow> x = y \<and> has_prefix s p" "\<not> has_prefix [] (y # p)"
  by (auto simp: has_prefix_def)

lemma prefix_field:
  "c \<notin> set p \<Longrightarrow> c \<notin> set q \<Longrightarrow> has_prefix (q @ c # s) (p @ c # r) \<longleftrightarrow> q = p \<and> has_prefix s r"
proof (induction p arbitrary: q)
  case Nil
  then show ?case by (cases q) auto
next
  case (Cons x p)
  then show ?case by (cases q) auto
qed

lemma no_dot: "CHR ''.'' \<notin> set (nat_str n)"
  using nat_str_digits [of n] by (auto simp: list_all_iff is_digit_def less_eq_char_def)

lemma dotted_prefix1: "has_prefix (dotted a b c d) (nat_str n @ [CHR ''.'']) \<longleftrightarrow> a = n"
  using prefix_field [OF no_dot no_dot, where r = "[]"] by (simp add: dotted_def)

lemma dotted_prefix2: "has_prefix (dotted a b c d) (nat_str n @ CHR ''.'' # nat_str k @ [CHR ''.'']) \<longleftrightarrow> a = n \<and> b = k"
  using prefix_field [OF no_dot no_dot, where r = "[]"] by (simp add: dotted_def prefix_field [OF no_dot no_dot])

lemma private_prefixes:
  "''10.'' = nat_str 10 @ [CHR ''.'']" "''192.168.'' = nat_str 192 @ CHR ''.'' # nat_str 168 @ [CHR ''.'']"
  "map (\<lambda>b. nat_str 172 @ CHR ''.'' # nat_str b @ [CHR ''.'']) [16..<32]
    = [''172.16.'', ''172.17.'', ''172.18.'', ''172.19.'', ''172.20.'', ''172.21.'', ''172.22.'',
        ''172.23.'', ''172.24.'', ''172.25.'', ''172.26.'', ''172.27.'', ''172.28.'', ''172.29.'', ''172.30.'', ''172.31.'']"
  by code_simp+

lemma isPrivateIP_rfc1918: "isPrivateIP (dotted a b c d) \<longleftrightarrow> rfc1918 a b"
proof -
  have "isPrivateIP ip \<longleftrightarrow> list_ex (has_prefix ip)
      (''10.'' # ''192.168.'' # map (\<lambda>b. nat_str 172 @ CHR ''.'' # nat_str b @ [CHR ''.'']) [16..<32])" for ip
    unfolding private_prefixes(3) isPrivateIP_def by (rule refl)
  then show ?thesis
    unfolding private_prefixes(1,2)
    by (auto simp: list_ex_iff dotted_prefix1 dotted_prefix2 rfc1918_def simp del: upt_rec_numeral)
qed

lemma isWireGuardInternal_private: "isWireGuardInternal (dotted a b c d) \<Longrightarrow> rfc1918 a b"
proof -
  have "''10.8.0.'' = nat_str 10 @ CHR ''.'' # ''8.0.''" by code_simp
  then show "isWireGuardInternal (dotted a b c d) \<Longrightarrow> rfc1918 a b"
    by (simp add: isWireGuardInternal_def dotted_def prefix_field [OF no_dot no_dot] rfc1918_def)
qed

text \<open>What makes a connection to the outside suspicious.\<close>

definition suspicious_port :: "int \<Rightarrow> bool" where
  "suspicious_port p \<longleftrightarrow> p \<in> {6881, 6889, 51413, 51414, 51415, 4662, 4672, 1194, 4444, 9001, 9030, 8888, 31337}"

lemma flow_threat_iff:
  "flow_threat e \<noteq> None \<longleftrightarrow>
     (fl_conns e > 50 \<and> fl_dport e \<notin> set standardSafePorts) \<or> suspicious_port (fl_dport e)"
proof -
  have "51413 \<le> p \<and> p \<le> 51415 \<longleftrightarrow> p \<in> {51413, 51414, 51415}" for p :: int by auto
  then show ?thesis by (auto simp: flow_threat_def suspicious_port_def threatConnectionThreshold_def)
qed

text \<open>
  Only traffic that leaves is suspicious. A flow to an IPv4 address is flagged exactly when the address is
  not on the whitelist and not in a private network of RFC 1918, and the flow has more than 50 connections to a
  port that is not a standard one or goes to one of the ports of file sharing, tunnels and control servers.
\<close>

theorem flow_flagged_iff:
  assumes "fl_dst e = dotted a b c d" "\<not> fl_flagged e"
  shows "fl_flagged (enrich_flow controllerIP e) \<longleftrightarrow>
     fl_dst e \<notin> set (flow_whitelist controllerIP) \<and> \<not> rfc1918 a b
     \<and> (fl_conns e > 50 \<and> fl_dport e \<notin> set standardSafePorts \<or> suspicious_port (fl_dport e))"
  using assms flow_threat_iff [of e] isWireGuardInternal_private [of a b c d]
  by (auto simp: enrich_flow_def isPrivateIP_rfc1918 split: option.splits)

definition sample_flow :: flow_entry where
  "sample_flow = \<lparr>fl_proto = ''tcp'', fl_dst = ''203.0.113.7'', fl_dport = 4444, fl_conns = 1, fl_src = ''192.168.1.9'',
     fl_flagged = False, fl_reason = ''''\<rparr>"

theorem flow_flagged_iff_witness:
  "fl_flagged (enrich_flow ''198.51.100.1'' sample_flow)
   \<and> \<not> fl_flagged (enrich_flow ''198.51.100.1'' (sample_flow\<lparr>fl_dst := dotted 172 20 0 1\<rparr>))"
proof -
  have dst: "fl_dst sample_flow = dotted 203 0 113 7" by code_simp
  have free: "fl_dst sample_flow \<notin> set (flow_whitelist ''198.51.100.1'')" by code_simp
  have "fl_flagged (enrich_flow ''198.51.100.1'' sample_flow)"
    using flow_flagged_iff [OF dst, of "''198.51.100.1''"] free
    by (simp add: sample_flow_def rfc1918_def suspicious_port_def)
  moreover have "\<not> fl_flagged (enrich_flow ''198.51.100.1'' (sample_flow\<lparr>fl_dst := dotted 172 20 0 1\<rparr>))"
    using flow_flagged_iff [of "sample_flow\<lparr>fl_dst := dotted 172 20 0 1\<rparr>" 172 20 0 1]
    by (simp add: sample_flow_def rfc1918_def)
  ultimately show ?thesis by blast
qed

section \<open>The pace of escalations\<close>

fun escalated_at :: "string \<Rightarrow> alert_event list \<Rightarrow> alert_state \<Rightarrow> int list" where
  "escalated_at i [] st = []"
| "escalated_at i (Flows env analysed unix now s site j flows controller # evs) st =
     (if j = i \<and> fst (flow_report env analysed unix now s site j flows controller st) \<noteq> None then [now] else [])
     @ escalated_at i evs (alert_step (Flows env analysed unix now s site j flows controller) st)"
| "escalated_at i (ev # evs) st = escalated_at i evs (alert_step ev st)"

lemma flow_report_clock:
  assumes "flow_report env analysed unix now s site j flows controller st = (e, st')"
  shows "e = None \<and> al_flows st' = al_flows st
     \<or> e \<noteq> None \<and> al_flows st' = (al_flows st)(j \<mapsto> now) \<and> (\<forall>t. al_flows st j = Some t \<longrightarrow> t + flowSentinelCooldown < now)"
  using assms
  by (auto simp: flow_report_def processFlowSense_def escalateFlowToSentinel_def Let_def split: if_splits option.splits)

lemma escalations_after:
  "al_flows st i = Some t \<Longrightarrow> list_all (\<lambda>x. t + flowSentinelCooldown < x) (escalated_at i evs st)
     \<and> sorted_wrt (\<lambda>a b. a + flowSentinelCooldown < b) (escalated_at i evs st)"
proof (induction evs arbitrary: st t)
  case (Cons ev evs)
  show ?case
  proof (cases ev)
    case (Flows env analysed unix now s site j flows controller)
    obtain e st' where step: "flow_report env analysed unix now s site j flows controller st = (e, st')" by fastforce
    have pos: "0 < flowSentinelCooldown" by (simp add: flowSentinelCooldown_def nano_second_def)
    show ?thesis
    proof (cases "j = i \<and> e \<noteq> None")
      case True
      with flow_report_clock [OF step] Cons.prems have "al_flows st' i = Some now" "t + flowSentinelCooldown < now" by auto
      with Cons.IH [of st' now] pos Flows step True show ?thesis by (auto simp: list_all_iff)
    next
      case False
      with flow_report_clock [OF step] Cons.prems have "al_flows st' i = Some t" by auto
      with Cons.IH [of st' t] Flows step False show ?thesis by auto
    qed
  next
    case (Telemetry env now s j site m)
    with Cons show ?thesis by (simp add: ProcessTelemetry_def)
  qed (use Cons in \<open>simp_all add: pruneCPULoads_def\<close>)
qed simp

text \<open>
  The assistant is not flooded. In any run, two escalations of the flows of one device are more than ten
  minutes apart.
\<close>

theorem escalations_spaced:
  "sorted_wrt (\<lambda>a b. a + 600 * nano_second < b) (escalated_at i evs st)"
proof -
  have "sorted_wrt (\<lambda>a b. a + flowSentinelCooldown < b) (escalated_at i evs st)"
  proof (induction evs arbitrary: st)
    case (Cons ev evs)
    show ?case
    proof (cases ev)
      case (Flows env analysed unix now s site j flows controller)
      obtain e st' where step: "flow_report env analysed unix now s site j flows controller st = (e, st')" by fastforce
      show ?thesis
      proof (cases "j = i \<and> e \<noteq> None")
        case True
        with flow_report_clock [OF step] have "al_flows st' i = Some now" by auto
        with escalations_after [OF this, of evs] Flows step True show ?thesis by (auto simp: list_all_iff)
      next
        case False
        with Cons.IH [of st'] Flows step show ?thesis by auto
      qed
    qed (use Cons in simp_all)
  qed simp
  then show ?thesis by (simp add: flowSentinelCooldown_def mult.commute)
qed

text \<open>A device whose id has less than eight characters ends the controller when its flows have been analysed.\<close>

lemma short_device_id_panics:
  "length deviceID < 8 \<Longrightarrow>
     fst (escalateFlowToSentinel env True unix schema siteID deviceID suspicious st) = Panicked"
  by (simp add: escalateFlowToSentinel_def)

section \<open>An example\<close>

definition sample_alert_env :: "string \<Rightarrow> case_env \<times> string" where
  "sample_alert_env t = (\<lparr>cn_now = 7, cn_id = ''c-9'', cn_known = True\<rparr>, ''i-9'')"

definition sample_alerts :: alert_state where
  "sample_alerts = \<lparr>al_dbs = (\<lambda>_. \<lparr>ad_cases = \<lparr>cb_cases = []\<rparr>, ad_incidents = []\<rparr>), al_load = (\<lambda>_. None), al_flows = (\<lambda>_. None)\<rparr>"

definition sample_samples :: "alert_event list" where
  "sample_samples = [Telemetry sample_alert_env 1 ''tenant_a'' ''dev-1'' ''s'' \<lparr>te_signal = -60, te_cpu = 5\<rparr>,
     Telemetry sample_alert_env 2 ''tenant_a'' ''dev-1'' ''s'' \<lparr>te_signal = -90, te_cpu = 6\<rparr>]"



end
