(* ===== verification/Sha256_Vectors.thy ===== *)
theory Sha256_Vectors
  imports Sha256
begin

text \<open>
  Two published vectors of SHA-256 (the example of FIPS 180-4 for \<open>abc\<close>, and \<open>a\<close>), computed from the definition
  in the kernel: padding, message block, compression, output. They also give two inputs whose digests differ.
\<close>

lemma sha_blocks_one: "length ws = 16 \<Longrightarrow> sha_blocks ws st = sha_block ws st"
  by (subst sha_blocks.simps, cases ws) (simp_all add: sha_blocks.simps [of "[]"])

lemma pad_abc: "sha_pad ''abc'' = ''abc'' @ [CHR 0x80] @ replicate 52 CHR 0x00 @ map char_of [0 :: nat, 0, 0, 0, 0, 0, 0, 24]"
  by (simp add: sha_pad_def)

lemma words_abc:
  "bytes_words (''abc'' @ [CHR 0x80] @ replicate 52 CHR 0x00 @ map char_of [0 :: nat, 0, 0, 0, 0, 0, 0, 24])
    = [0x61626380, 0, 0, 0, 0, 0, 0, 0, 0, 0, 0, 0, 0, 0, 0, 0x18]"
  by code_simp

lemma block_abc:
  "sha_block [0x61626380, 0, 0, 0, 0, 0, 0, 0, 0, 0, 0, 0, 0, 0, 0, 0x18] sha_init
    = (0xba7816bf, 0x8f01cfea, 0x414140de, 0x5dae2223, 0xb00361a3, 0x96177a9c, 0xb410ff61, 0xf20015ad)"
  by code_simp

lemma out_abc:
  "hex_encode (sha_out (0xba7816bf, 0x8f01cfea, 0x414140de, 0x5dae2223, 0xb00361a3, 0x96177a9c, 0xb410ff61, 0xf20015ad))
    = ''ba7816bf8f01cfea414140de5dae2223b00361a396177a9cb410ff61f20015ad''"
  by code_simp

lemma sha256_abc: "sha256_hex ''abc'' = ''ba7816bf8f01cfea414140de5dae2223b00361a396177a9cb410ff61f20015ad''"
  unfolding sha256_def pad_abc words_abc by (simp only: sha_blocks_one [of "_ # _"] list.size block_abc out_abc)

lemma pad_a: "sha_pad ''a'' = ''a'' @ [CHR 0x80] @ replicate 54 CHR 0x00 @ map char_of [0 :: nat, 0, 0, 0, 0, 0, 0, 8]"
  by (simp add: sha_pad_def)

lemma words_a:
  "bytes_words (''a'' @ [CHR 0x80] @ replicate 54 CHR 0x00 @ map char_of [0 :: nat, 0, 0, 0, 0, 0, 0, 8])
    = [0x61800000, 0, 0, 0, 0, 0, 0, 0, 0, 0, 0, 0, 0, 0, 0, 8]"
  by code_simp

lemma block_a:
  "sha_block [0x61800000, 0, 0, 0, 0, 0, 0, 0, 0, 0, 0, 0, 0, 0, 0, 8] sha_init
    = (0xca978112, 0xca1bbdca, 0xfac231b3, 0x9a23dc4d, 0xa786eff8, 0x147c4e72, 0xb9807785, 0xafee48bb)"
  by code_simp

lemma out_a:
  "hex_encode (sha_out (0xca978112, 0xca1bbdca, 0xfac231b3, 0x9a23dc4d, 0xa786eff8, 0x147c4e72, 0xb9807785, 0xafee48bb))
    = ''ca978112ca1bbdcafac231b39a23dc4da786eff8147c4e72b9807785afee48bb''"
  by code_simp

lemma sha256_a: "sha256_hex ''a'' = ''ca978112ca1bbdcafac231b39a23dc4da786eff8147c4e72b9807785afee48bb''"
  unfolding sha256_def pad_a words_a by (simp only: sha_blocks_one [of "_ # _"] list.size block_a out_a)

end
