(* ===== verification/Agent_Release.thy ===== *)
theory Agent_Release
  imports Enrollment Edge_Api Sha256_Vectors
begin

text \<open>
  Releases of the agent's script (\<open>src/internal/api/handlers/agent_mgmt.go\<close>): an operator deploys a script
  to a site, the devices of the site ask for the active version, its signature and its bytes. The check
  the agent makes before it replaces itself is the start of the main loop of \<open>src/devices/agent.sh\<close>.

  Scripts are byte strings. The signing primitive is an argument; keys and signatures travel as
  \<open>encoding/base64\<close> text, which is modelled. The id of a new row and the timestamp of a transaction are
  arguments.
\<close>

section \<open>Base64\<close>

definition b64_alphabet :: string where
  "b64_alphabet = ''ABCDEFGHIJKLMNOPQRSTUVWXYZabcdefghijklmnopqrstuvwxyz0123456789+/''"

definition b64_char :: "nat \<Rightarrow> char" where
  "b64_char n = b64_alphabet ! n"

definition b64_value :: "char \<Rightarrow> nat option" where
  "b64_value c = map_of (zip b64_alphabet [0..<64]) c"

fun b64_encode :: "string \<Rightarrow> string" where
  "b64_encode [] = []"
| "b64_encode [a] = [b64_char (of_char a div 4), b64_char (of_char a mod 4 * 16), CHR ''='', CHR ''='']"
| "b64_encode [a, b] =
     [b64_char (of_char a div 4), b64_char (of_char a mod 4 * 16 + of_char b div 16),
      b64_char (of_char b mod 16 * 4), CHR ''='']"
| "b64_encode (a # b # c # r) =
     b64_char (of_char a div 4) # b64_char (of_char a mod 4 * 16 + of_char b div 16)
     # b64_char (of_char b mod 16 * 4 + of_char c div 64) # b64_char (of_char c mod 64) # b64_encode r"

text \<open>Padding ends the text; the bits a padded group does not use are not checked.\<close>

fun b64_groups :: "string \<Rightarrow> string option" where
  "b64_groups [] = Some []"
| "b64_groups (a # b # c # d # r) =
     (case (b64_value a, b64_value b) of
        (Some x, Some y) \<Rightarrow>
          let p = char_of (x * 4 + y div 16) in
          if c = CHR ''='' then (if d = CHR ''='' \<and> r = [] then Some [p] else None)
          else
            (case b64_value c of
               None \<Rightarrow> None
             | Some z \<Rightarrow>
                 let q = char_of (y mod 16 * 16 + z div 4) in
                 if d = CHR ''='' then (if r = [] then Some [p, q] else None)
                 else
                   (case b64_value d of
                      None \<Rightarrow> None
                    | Some u \<Rightarrow> map_option (\<lambda>t. p # q # char_of (z mod 4 * 64 + u) # t) (b64_groups r)))
      | _ \<Rightarrow> None)"
| "b64_groups _ = None"

text \<open>\<open>DecodeString\<close> skips line breaks anywhere.\<close>

definition b64_decode :: "string \<Rightarrow> string option" where
  "b64_decode s = b64_groups (filter (\<lambda>c. c \<noteq> CHR 0x0A \<and> c \<noteq> CHR 0x0D) s)"

lemma b64_table:
  "list_all (\<lambda>n. b64_value (b64_char n) = Some n \<and> b64_char n \<noteq> CHR ''='' \<and> b64_char n \<noteq> CHR 0x0A
     \<and> b64_char n \<noteq> CHR 0x0D) [0..<64]"
  by code_simp

lemma b64_char [simp]:
  assumes "n < 64"
  shows "b64_value (b64_char n) = Some n" "b64_char n \<noteq> CHR ''=''" "b64_char n \<noteq> CHR 0x0A" "b64_char n \<noteq> CHR 0x0D"
  using b64_table assms by (auto simp: list_all_iff)

lemma b64_split:
  assumes "s < (m::nat)"
  shows "(q * m + s) div m = q" "(q * m + s) mod m = s"
  using assms by simp_all

lemma b64_bits:
  assumes "x < (256::nat)"
  shows "x div 4 < 64" "x div 16 < 16" "x div 64 < 4" "x mod 4 * 16 < 64" "x mod 16 * 4 < 64"
  using assms by (simp_all add: less_mult_imp_div_less)

lemma b64_joins:
  assumes "y < (256::nat)"
  shows "x mod 4 * 16 + y div 16 < 64" "x mod 16 * 4 + y div 64 < 64"
    "(x mod 4 * 16 + y div 16) div 16 = x mod 4" "(x mod 4 * 16 + y div 16) mod 16 = y div 16"
    "(x mod 16 * 4 + y div 64) div 4 = x mod 16" "(x mod 16 * 4 + y div 64) mod 4 = y div 64"
proof -
  have b: "y div 16 < 16" "y div 64 < 4" using assms by (simp_all add: less_mult_imp_div_less)
  have "x mod 4 \<le> 3" "x mod 16 \<le> 15" by simp_all
  with b show "x mod 4 * 16 + y div 16 < 64" "x mod 16 * 4 + y div 64 < 64" by linarith+
  show "(x mod 4 * 16 + y div 16) div 16 = x mod 4" "(x mod 4 * 16 + y div 16) mod 16 = y div 16"
    "(x mod 16 * 4 + y div 64) div 4 = x mod 16" "(x mod 16 * 4 + y div 64) mod 4 = y div 64"
    using b64_split b by blast+
qed

lemmas b64_byte = b64_bits [OF of_char_less] b64_joins [OF of_char_less]

lemma b64_groups_encode: "b64_groups (b64_encode s) = Some s"
  by (induction s rule: b64_encode.induct) (simp_all add: Let_def b64_byte)

lemma b64_encode_no_breaks: "filter (\<lambda>c. c \<noteq> CHR 0x0A \<and> c \<noteq> CHR 0x0D) (b64_encode s) = b64_encode s"
  by (induction s rule: b64_encode.induct) (simp_all add: b64_byte)

lemma b64_roundtrip [simp]: "b64_decode (b64_encode s) = Some s"
  by (simp add: b64_decode_def b64_encode_no_breaks b64_groups_encode)

lemma b64_encode_nonempty: "s \<noteq> [] \<Longrightarrow> b64_encode s \<noteq> []"
  by (cases s rule: b64_encode.cases) simp_all

section \<open>Signatures\<close>

text \<open>\<open>sign\<close> and \<open>verify\<close> are \<open>ed25519.Sign\<close> and \<open>ed25519.Verify\<close>; \<open>rawKey\<close> is the environment variable.\<close>

definition signAgentContent :: "(string \<Rightarrow> string \<Rightarrow> string) \<Rightarrow> string \<Rightarrow> string \<Rightarrow> (string \<times> string) option" where
  "signAgentContent sign rawKey content =
     (if rawKey = [] then None
      else
        (case b64_decode rawKey of
           None \<Rightarrow> None
         | Some key \<Rightarrow> if length key \<noteq> 64 then None else Some (b64_encode (sign key content), ''Ed25519'')))"

definition verifyAgentSignature :: "(string \<Rightarrow> string \<Rightarrow> string \<Rightarrow> bool) \<Rightarrow> string \<Rightarrow> string \<Rightarrow> string \<Rightarrow> bool" where
  "verifyAgentSignature verify content signature publicKey =
     (case b64_decode signature of None \<Rightarrow> False | Some s \<Rightarrow> length publicKey = 32 \<and> verify publicKey content s)"

section \<open>Versions\<close>

text \<open>A row of \<open>agent_versions\<close>; the deletion of a site sets its column to \<open>NULL\<close>.\<close>

record agent_version =
  av_id :: string
  av_hash :: string
  av_number :: int
  av_script :: string
  av_active :: bool
  av_site :: "string option"
  av_created :: int

record release_db =
  rl_world :: world
  rl_versions :: "string \<Rightarrow> agent_version list"

text \<open>The first row of an \<open>ORDER BY\<close>, whose strict order is \<open>before\<close>; ties go to the older row.\<close>

fun first_row :: "('a \<Rightarrow> 'a \<Rightarrow> bool) \<Rightarrow> 'a list \<Rightarrow> 'a option" where
  "first_row before [] = None"
| "first_row before (x # xs) =
     (case first_row before xs of None \<Rightarrow> Some x | Some y \<Rightarrow> if before y x then Some y else Some x)"

definition active_rows :: "string \<Rightarrow> agent_version list \<Rightarrow> agent_version list" where
  "active_rows site vs = filter (\<lambda>v. av_active v \<and> av_site v = Some site) vs"

definition latest_numbered :: "string \<Rightarrow> agent_version list \<Rightarrow> agent_version option" where
  "latest_numbered site vs =
     first_row (\<lambda>y x. av_number x < av_number y \<or> av_number x = av_number y \<and> av_created x < av_created y)
       (active_rows site vs)"

definition latest_created :: "string \<Rightarrow> agent_version list \<Rightarrow> agent_version option" where
  "latest_created site vs = first_row (\<lambda>y x. av_created x < av_created y) (active_rows site vs)"

section \<open>The site of an agent\<close>

record agent_request =
  gr_method :: string
  gr_device_token :: string
  gr_enrollment_token :: string
  gr_site_key :: string

definition device_site :: "string \<Rightarrow> enroll_db \<Rightarrow> string option" where
  "device_site token db =
     (case filter (\<lambda>c. cd_token c = Some token \<and> Option.bind (devices (en_tenant db) (cd_device c)) dv_site \<noteq> None) (en_creds db) of
        [] \<Rightarrow> None
      | c # _ \<Rightarrow> Option.bind (devices (en_tenant db) (cd_device c)) dv_site)"

text \<open>Every error is the same refusal for the callers, hence \<open>None\<close>.\<close>

definition resolveSiteByKey :: "string \<Rightarrow> world \<Rightarrow> (string \<times> string) option" where
  "resolveSiteByKey siteKey w =
     (case GetTenantSchemaForSiteKey siteKey w of
        Inl _ \<Rightarrow> None
      | Inr schema \<Rightarrow>
          map_option (\<lambda>s. (schema, sr_id s))
            (Option.bind (wd_schemas w schema) (\<lambda>db. find (\<lambda>s. sr_api_key s = Some siteKey) (en_sites db))))"

definition resolveAgentSite :: "bool \<Rightarrow> int \<Rightarrow> agent_request \<Rightarrow> world \<Rightarrow> (string \<times> string) option" where
  "resolveAgentSite allowLegacy now r w =
     (if gr_device_token r \<noteq> [] then
        (case GetTenantSchemaForDeviceToken (gr_device_token r) w of
           Inl _ \<Rightarrow> None
         | Inr schema \<Rightarrow>
             map_option (\<lambda>s. (schema, s)) (Option.bind (wd_schemas w schema) (device_site (gr_device_token r))))
      else if gr_enrollment_token r \<noteq> [] then
        (case ResolveDeviceEnrollmentToken now (gr_enrollment_token r) w of Inl _ \<Rightarrow> None | Inr x \<Rightarrow> Some x)
      else if \<not> allowLegacy then None
      else resolveSiteByKey (gr_site_key r) w)"

section \<open>What an agent is served\<close>

datatype agent_response =
    GaMethod | GaForbidden | GaNone | GaSigning
  | GaLatest agent_version string string
  | GaRaw string

definition agent_call ::
  "bool \<Rightarrow> int \<Rightarrow> agent_request \<Rightarrow> release_db \<Rightarrow> (string \<Rightarrow> agent_version list \<Rightarrow> agent_response) \<Rightarrow> agent_response" where
  "agent_call allowLegacy now r rl serve =
     (if gr_method r \<noteq> ''GET'' then GaMethod
      else if gr_device_token r = [] \<and> gr_enrollment_token r = [] then GaForbidden
      else
        (case resolveAgentSite allowLegacy now r (rl_world rl) of
           None \<Rightarrow> GaForbidden
         | Some (schema, siteID) \<Rightarrow> if siteID = [] then GaForbidden else serve siteID (rl_versions rl schema)))"

definition GetLatestAgentHandler ::
  "(string \<Rightarrow> string \<Rightarrow> string) \<Rightarrow> string \<Rightarrow> bool \<Rightarrow> int \<Rightarrow> agent_request \<Rightarrow> release_db \<Rightarrow> agent_response" where
  "GetLatestAgentHandler sign rawKey allowLegacy now r rl =
     agent_call allowLegacy now r rl (\<lambda>siteID vs.
       (case latest_numbered siteID vs of
          None \<Rightarrow> GaNone
        | Some v \<Rightarrow>
            (case signAgentContent sign rawKey (av_script v) of
               None \<Rightarrow> GaSigning
             | Some (signature, algorithm) \<Rightarrow> GaLatest v signature algorithm)))"

definition GetLatestAgentRawHandler :: "bool \<Rightarrow> int \<Rightarrow> agent_request \<Rightarrow> release_db \<Rightarrow> agent_response" where
  "GetLatestAgentRawHandler allowLegacy now r rl =
     agent_call allowLegacy now r rl (\<lambda>siteID vs.
       (case latest_created siteID vs of None \<Rightarrow> GaNone | Some v \<Rightarrow> GaRaw (av_script v)))"

section \<open>Deployment\<close>

definition next_number :: "string \<Rightarrow> agent_version list \<Rightarrow> int" where
  "next_number site vs =
     (case map av_number (filter (\<lambda>v. av_site v = Some site) vs) of [] \<Rightarrow> 0 | n # ns \<Rightarrow> fold max ns n) + 1"

definition deactivate :: "string list \<Rightarrow> agent_version list \<Rightarrow> agent_version list" where
  "deactivate ids vs = map (\<lambda>v. if av_id v \<in> set ids then v\<lparr>av_active := False\<rparr> else v) vs"

definition activate :: "string \<Rightarrow> agent_version list \<Rightarrow> agent_version list" where
  "activate i vs = map (\<lambda>v. if av_id v = i then v\<lparr>av_active := True\<rparr> else v) vs"

definition site_ids :: "string \<Rightarrow> agent_version list \<Rightarrow> string list" where
  "site_ids site vs = map av_id (filter (\<lambda>v. av_site v = Some site) vs)"

text \<open>
  The transaction of a deployment: \<open>ids\<close> are the rows its first statement has seen, \<open>None\<close> is a rollback.
  The hash is unique over the whole table, the column of the number is a \<open>bigint\<close>, and no text column
  holds a zero byte.
\<close>

definition deploy_tx ::
  "string list \<Rightarrow> string \<Rightarrow> int \<Rightarrow> string \<Rightarrow> string \<Rightarrow> agent_version list \<Rightarrow> agent_version list option" where
  "deploy_tx ids rid at site script vs =
     (let hashStr = sha256_hex script;
          vs' = deactivate ids vs
      in case find (\<lambda>v. av_hash v = hashStr \<and> av_site v = Some site) vs' of
           Some v \<Rightarrow> Some (activate (av_id v) vs')
         | None \<Rightarrow>
             (let versionNumber = next_number site vs' in
              if \<not> in_int64 versionNumber \<or> CHR 0x00 \<in> set script
                \<or> list_ex (\<lambda>v. av_hash v = hashStr \<or> av_id v = rid) vs' then None
              else Some (vs' @ [\<lparr>av_id = rid, av_hash = hashStr, av_number = versionNumber, av_script = script,
                                av_active = True, av_site = Some site, av_created = at\<rparr>])))"

datatype deploy_response =
    GdMethod | GdInvalid | GdNoSiteId | GdNoScript | GdTenant | GdNoSite | GdDatabase | GdCreated string

definition DeployAgentHandler ::
  "(string \<Rightarrow> string option) \<Rightarrow> string \<Rightarrow> int \<Rightarrow> string \<Rightarrow> string \<Rightarrow> raw_message \<Rightarrow> release_db \<Rightarrow> deploy_response \<times> release_db" where
  "DeployAgentHandler uuid_in rid at method reqSchema body rl =
     (if method \<noteq> ''POST'' then (GdMethod, rl)
      else
        (case Option.bind body go_obj of
           None \<Rightarrow> (GdInvalid, rl)
         | Some kvs \<Rightarrow>
             (case (go_str ''site_id'' kvs, go_str ''script_content'' kvs) of
                (Some siteID, Some script) \<Rightarrow>
                  if siteID = [] then (GdNoSiteId, rl)
                  else if script = [] then (GdNoScript, rl)
                  else
                    (case getTenantSchema reqSchema of
                       Inl _ \<Rightarrow> (GdTenant, rl)
                     | Inr schema \<Rightarrow>
                         (case (uuid_in siteID, wd_schemas (rl_world rl) schema) of
                            (Some site, Some db) \<Rightarrow>
                              if find_site site db = None then (GdNoSite, rl)
                              else
                                (let vs = rl_versions rl schema in
                                 case deploy_tx (site_ids site vs) rid at site script vs of
                                   None \<Rightarrow> (GdDatabase, rl)
                                 | Some vs' \<Rightarrow>
                                     (GdCreated (sha256_hex script),
                                      rl\<lparr>rl_versions := (rl_versions rl)(schema := vs')\<rparr>))
                          | _ \<Rightarrow> (GdNoSite, rl)))
              | _ \<Rightarrow> (GdInvalid, rl))))"

text \<open>The step of the deletion of a site that concerns this table.\<close>

definition orphan_versions :: "string \<Rightarrow> agent_version list \<Rightarrow> agent_version list" where
  "orphan_versions site vs = map (\<lambda>v. if av_site v = Some site then v\<lparr>av_site := None\<rparr> else v) vs"

section \<open>Views for the operator\<close>

definition siteHashes :: "agent_version list \<Rightarrow> string \<rightharpoonup> string" where
  "siteHashes vs =
     fold (\<lambda>v m. case av_site v of None \<Rightarrow> m | Some s \<Rightarrow> m(s \<mapsto> av_hash v)) (filter av_active vs) Map.empty"

text \<open>The site and the latest hash of each device; the columns that are only copied are left out.\<close>

definition GetAgentVersionsStatusHandler ::
  "enroll_db \<Rightarrow> agent_version list \<Rightarrow> (string \<rightharpoonup> string) \<times> (string \<rightharpoonup> string option \<times> string option)" where
  "GetAgentVersionsStatusHandler db vs =
     (siteHashes vs,
      \<lambda>i. map_option (\<lambda>d.
            let site = map_option sr_id (Option.bind (dv_site d) (\<lambda>s. find_site s db)) in
            (site, Option.bind site (siteHashes vs))) (devices (en_tenant db) i))"

definition GetSiteAgentRaw :: "string \<Rightarrow> agent_version list \<Rightarrow> agent_response" where
  "GetSiteAgentRaw siteID vs =
     (case latest_created siteID vs of None \<Rightarrow> GaNone | Some v \<Rightarrow> GaRaw (av_script v))"

section \<open>The agent\<close>

text \<open>
  What the turn of the main loop does with the two answers: it goes on to report and to sleep, it starts
  the loop again at once, or it replaces the script and the stored number. \<open>verify\<close> is
  \<open>verify_agent_artifact\<close> with the key of the device.
\<close>

datatype agent_turn = GoesOn | StartsAgain | Replaces string int

definition agent_turn ::
  "(string \<Rightarrow> string \<Rightarrow> bool) \<Rightarrow> string \<Rightarrow> nat \<Rightarrow> agent_response \<Rightarrow> agent_response \<Rightarrow> agent_turn" where
  "agent_turn verify installed number latest raw =
     (case latest of
        GaLatest v signature algorithm \<Rightarrow>
          if av_hash v = [] \<or> av_hash v = sha256_hex installed then GoesOn
          else if av_number v < 0 then StartsAgain
          else if av_number v \<le> int number then StartsAgain
          else
            (case raw of
               GaRaw script \<Rightarrow>
                 if sha256_hex script = av_hash v \<and> signature \<noteq> [] \<and> algorithm = ''Ed25519'' \<and> verify script signature
                 then Replaces script (av_number v) else GoesOn
             | _ \<Rightarrow> GoesOn)
      | _ \<Rightarrow> GoesOn)"

section \<open>One active version of a site\<close>

definition numbers_once :: "agent_version list \<Rightarrow> bool" where
  "numbers_once vs \<longleftrightarrow>
     (\<forall>v \<in> set vs. \<forall>w \<in> set vs. av_site v \<noteq> None \<longrightarrow> av_site v = av_site w \<longrightarrow> av_number v = av_number w \<longrightarrow> v = w)"

definition versions_wf :: "agent_version list \<Rightarrow> bool" where
  "versions_wf vs \<longleftrightarrow>
     distinct (map av_id vs) \<and> distinct (map av_hash vs) \<and> (\<forall>v \<in> set vs. av_hash v = sha256_hex (av_script v))
     \<and> numbers_once vs \<and> (\<forall>site. length (active_rows site vs) \<le> 1)"

definition switched :: "string \<Rightarrow> agent_version \<Rightarrow> agent_version" where
  "switched site v = (if av_site v = Some site then v\<lparr>av_active := False\<rparr> else v)"

lemma switched_reads [simp]:
  "av_id (switched site v) = av_id v" "av_hash (switched site v) = av_hash v" "av_number (switched site v) = av_number v"
  "av_script (switched site v) = av_script v" "av_site (switched site v) = av_site v" "av_created (switched site v) = av_created v"
  "av_active (switched site v) \<longleftrightarrow> av_active v \<and> av_site v \<noteq> Some site"
  by (simp_all add: switched_def)

lemma find_in_set: "find P xs = Some x \<Longrightarrow> x \<in> set xs \<and> P x"
  by (auto simp: find_Some_iff)

lemma deactivate_site:
  assumes "distinct (map av_id vs)"
  shows "deactivate (site_ids site vs) vs = map (switched site) vs"
proof -
  have "av_id v \<in> set (site_ids site vs) \<longleftrightarrow> av_site v = Some site" if "v \<in> set vs" for v
    using that assms by (force simp: site_ids_def distinct_map dest: inj_onD)
  then show ?thesis by (simp add: deactivate_def switched_def)
qed

lemma active_switched [simp]: "active_rows site (map (switched t) vs) = (if site = t then [] else active_rows site vs)"
  by (induction vs) (auto simp: active_rows_def switched_def)

lemma filter_key: "distinct (map f xs) \<Longrightarrow> x \<in> set xs \<Longrightarrow> filter (\<lambda>y. f y = f x) xs = [x]"
proof (induction xs)
  case (Cons a xs)
  then show ?case by (auto simp: filter_empty_conv image_iff intro: rev_image_eqI)
qed simp

definition woken :: "string \<Rightarrow> agent_version \<Rightarrow> agent_version" where
  "woken i v = (if av_id v = i then v\<lparr>av_active := True\<rparr> else v)"

lemma woken_reads [simp]:
  "av_id (woken i v) = av_id v" "av_hash (woken i v) = av_hash v" "av_number (woken i v) = av_number v"
  "av_script (woken i v) = av_script v" "av_site (woken i v) = av_site v" "av_created (woken i v) = av_created v"
  "av_active (woken i v) \<longleftrightarrow> av_active v \<or> av_id v = i"
  by (simp_all add: woken_def)

lemma activate_woken: "activate i vs = map (woken i) vs"
  by (simp add: activate_def woken_def)

lemma active_woken:
  assumes "distinct (map av_id vs)" "v \<in> set vs" "av_site v = Some site" "active_rows site vs = []"
  shows "active_rows site (map (woken (av_id v)) vs) = [woken (av_id v) v]"
    "t \<noteq> site \<Longrightarrow> active_rows t (map (woken (av_id v)) vs) = active_rows t vs"
proof -
  have same: "w = v" if "w \<in> set vs" "av_id w = av_id v" for w
    using that assms(1,2) by (auto simp: distinct_map dest: inj_onD)
  have "av_active (woken (av_id v) w) \<and> av_site w = Some site \<longleftrightarrow> av_id w = av_id v" if "w \<in> set vs" for w
    using that same assms(3,4) by (auto simp: active_rows_def filter_empty_conv)
  then have "filter (\<lambda>w. av_active (woken (av_id v) w) \<and> av_site w = Some site) vs = filter (\<lambda>w. av_id w = av_id v) vs"
    by (auto intro: filter_cong)
  then show "active_rows site (map (woken (av_id v)) vs) = [woken (av_id v) v]"
    using filter_key [OF assms(1,2)] by (simp add: active_rows_def filter_map o_def)
  assume t: "t \<noteq> site"
  have "map (woken (av_id v)) (filter (\<lambda>w. av_active w \<and> av_site w = Some t) vs) = filter (\<lambda>w. av_active w \<and> av_site w = Some t) vs"
    using same assms(3) t by (intro map_idI) (auto simp: woken_def)
  moreover have "av_id w \<noteq> av_id v" if "w \<in> set vs" "av_site w = Some t" for w
    using same [OF that(1)] that(2) assms(3) t by (metis option.inject)
  then have "filter (\<lambda>w. av_active (woken (av_id v) w) \<and> av_site w = Some t) vs = filter (\<lambda>w. av_active w \<and> av_site w = Some t) vs"
    by (intro filter_cong) auto
  ultimately show "active_rows t (map (woken (av_id v)) vs) = active_rows t vs"
    by (simp add: active_rows_def filter_map o_def)
qed

lemma fold_max_above: "n \<in> set (m # ns) \<Longrightarrow> n \<le> fold max ns (m :: int)"
  using Max.set_eq_fold [of m ns] Max_ge [of "set (m # ns)" n] by simp

lemma next_number_above:
  assumes "v \<in> set vs" "av_site v = Some site"
  shows "av_number v < next_number site vs"
proof -
  have "av_number v \<in> set (map av_number (filter (\<lambda>v. av_site v = Some site) vs))" (is "_ \<in> set ?ns")
    using assms by simp
  then obtain m ns where ns: "?ns = m # ns" by (cases ?ns) auto
  then show ?thesis
    using fold_max_above [of "av_number v" m ns] \<open>av_number v \<in> set ?ns\<close> by (simp add: next_number_def)
qed

lemma next_number_switched [simp]: "next_number site (map (switched t) vs) = next_number site vs"
  by (simp add: next_number_def filter_map o_def)

text \<open>A deployment switches all versions of its site off and exactly one on, old or new.\<close>

lemma deploy_tx_outcome:
  assumes "distinct (map av_id vs)"
    "deploy_tx (site_ids site vs) rid at site script vs = Some vs'"
  obtains
    (Again) v where "v \<in> set vs" "av_hash v = sha256_hex script" "av_site v = Some site"
      "vs' = map (woken (av_id v) \<circ> switched site) vs"
      "active_rows site vs' = [woken (av_id v) v]"
      "\<And>t. t \<noteq> site \<Longrightarrow> active_rows t vs' = active_rows t vs"
  | (Fresh) v where "sha256_hex script \<notin> av_hash ` set vs" "rid \<notin> av_id ` set vs"
      "v = \<lparr>av_id = rid, av_hash = sha256_hex script, av_number = next_number site vs, av_script = script,
              av_active = True, av_site = Some site, av_created = at\<rparr>"
      "vs' = map (switched site) vs @ [v]" "active_rows site vs' = [v]"
      "\<And>t. t \<noteq> site \<Longrightarrow> active_rows t vs' = active_rows t vs"
proof (cases "find (\<lambda>v. av_hash v = sha256_hex script \<and> av_site v = Some site) (map (switched site) vs)")
  case (Some w)
  then obtain v where v: "v \<in> set vs" "w = switched site v" "av_hash v = sha256_hex script" "av_site v = Some site"
    using find_in_set [OF Some] by auto
  have vs': "vs' = map (woken (av_id v)) (map (switched site) vs)"
    using assms Some v(2) by (simp add: deploy_tx_def Let_def deactivate_site activate_woken)
  have d: "distinct (map av_id (map (switched site) vs))" using assms(1) by (simp add: o_def)
  have m: "switched site v \<in> set (map (switched site) vs)" using v(1) by simp
  have w: "woken (av_id v) (switched site v) = woken (av_id v) v" using v(4) by (simp add: woken_def switched_def)
  have a: "active_rows site vs' = [woken (av_id v) v]"
    using active_woken(1) [OF d m] v(4) w by (simp only: vs') simp
  have b: "active_rows t vs' = active_rows t vs" if "t \<noteq> site" for t
    using active_woken(2) [OF d m] v(4) that by (simp only: vs') simp
  show thesis using Again [OF v(1,3,4)] vs' a b by simp
next
  case None
  then have "CHR 0x00 \<notin> set script \<and> \<not> list_ex (\<lambda>v. av_hash v = sha256_hex script \<or> av_id v = rid) vs
     \<and> vs' = map (switched site) vs @ [\<lparr>av_id = rid, av_hash = sha256_hex script, av_number = next_number site vs,
         av_script = script, av_active = True, av_site = Some site, av_created = at\<rparr>]"
    using assms by (simp add: deploy_tx_def Let_def deactivate_site list_ex_iff split: if_splits)
  moreover have "active_rows t (map (switched site) vs @ [v]) = (if t = site then [v] else active_rows t vs)"
    if "av_active v" "av_site v = Some site" for t v
    using that active_switched [of t site vs] by (auto simp: active_rows_def)
  ultimately show thesis
    by (intro Fresh [OF _ _ refl]) (auto simp: list_ex_iff)
qed

lemma versions_wf_map:
  assumes "versions_wf vs"
    "\<And>v. av_id (f v) = av_id v \<and> av_hash (f v) = av_hash v \<and> av_script (f v) = av_script v \<and> av_number (f v) = av_number v
        \<and> (av_site (f v) = av_site v \<or> av_site (f v) = None)"
    "\<And>site. length (active_rows site (map f vs)) \<le> 1"
  shows "versions_wf (map f vs)"
proof -
  have keys: "map av_id (map f vs) = map av_id vs" "map av_hash (map f vs) = map av_hash vs" using assms(2) by simp_all
  have "v = w" if "v \<in> set vs" "w \<in> set vs" "av_site (f v) \<noteq> None" "av_site (f v) = av_site (f w)" "av_number v = av_number w" for v w
    using that assms(1) assms(2) [of v] assms(2) [of w] unfolding versions_wf_def numbers_once_def by metis
  then have "numbers_once (map f vs)"
    using assms(2) unfolding numbers_once_def by (auto; metis)
  moreover have "\<forall>v \<in> set (map f vs). av_hash v = sha256_hex (av_script v)"
    using assms(1,2) by (simp add: versions_wf_def)
  ultimately show ?thesis
    using assms(1,3) keys unfolding versions_wf_def by (simp del: map_map)
qed

lemma deploy_tx_wf:
  assumes "versions_wf vs" "deploy_tx (site_ids site vs) rid at site script vs = Some vs'"
  shows "versions_wf vs'"
proof -
  have "distinct (map av_id vs)" using assms(1) by (simp add: versions_wf_def)
  then show ?thesis
    using assms(2)
  proof (cases rule: deploy_tx_outcome)
    case (Again v)
    have "length (active_rows t vs') \<le> 1" for t
      using Again(5) Again(6) [of t] assms(1) by (cases "t = site") (simp_all add: versions_wf_def)
    then show ?thesis using versions_wf_map [OF assms(1), of "woken (av_id v) \<circ> switched site"] Again(4) by simp
  next
    case (Fresh v)
    have old: "versions_wf (map (switched site) vs)"
      using assms(1) by (intro versions_wf_map) (simp_all add: versions_wf_def)
    have "length (active_rows t vs') \<le> 1" for t
      using Fresh(5) Fresh(6) [of t] assms(1) by (cases "t = site") (simp_all add: versions_wf_def)
    moreover have "av_number w \<noteq> next_number site vs" if "w \<in> set vs" "av_site w = Some site" for w
      using next_number_above [OF that] by simp
    then have "\<forall>w \<in> set (map (switched site) vs). av_site w = Some site \<longrightarrow> av_number w \<noteq> av_number v"
      using Fresh(3) by simp
    then have "numbers_once vs'"
      using old Fresh(3,4) unfolding versions_wf_def numbers_once_def by (auto simp del: set_map)
    moreover have "distinct (map av_id vs')" "distinct (map av_hash vs')"
      using old Fresh(1-4) by (simp_all add: versions_wf_def o_def)
    moreover have "\<forall>v \<in> set vs'. av_hash v = sha256_hex (av_script v)"
      using old Fresh(3,4) by (simp add: versions_wf_def)
    ultimately show ?thesis unfolding versions_wf_def by blast
  qed
qed

lemma orphan_versions_wf:
  assumes "versions_wf vs"
  shows "versions_wf (orphan_versions site vs)"
proof -
  have "active_rows t (orphan_versions site vs) = (if t = site then [] else active_rows t vs)" for t
    by (induction vs) (auto simp: orphan_versions_def active_rows_def)
  then show ?thesis
    using assms unfolding orphan_versions_def by (intro versions_wf_map) (simp_all add: versions_wf_def)
qed

lemma DeployAgentHandler_outcome:
  assumes "DeployAgentHandler uuid_in rid at m sch body rl = (r, rl')"
  shows "(rl' = rl \<and> (\<forall>h. r \<noteq> GdCreated h))
    \<or> (\<exists>kvs siteID script schema site vs'. m = ''POST'' \<and> Option.bind body go_obj = Some kvs
         \<and> go_str ''site_id'' kvs = Some siteID \<and> go_str ''script_content'' kvs = Some script \<and> script \<noteq> []
         \<and> getTenantSchema sch = Inr schema \<and> uuid_in siteID = Some site
         \<and> deploy_tx (site_ids site (rl_versions rl schema)) rid at site script (rl_versions rl schema) = Some vs'
         \<and> r = GdCreated (sha256_hex script) \<and> rl' = rl\<lparr>rl_versions := (rl_versions rl)(schema := vs')\<rparr>)"
  using assms unfolding DeployAgentHandler_def Let_def
  by (auto split: if_splits option.splits sum.splits)

datatype release_call =
    Deploy "string \<Rightarrow> string option" string int string string raw_message
  | DropSite string string
  | OtherTables world

fun release_step :: "release_call \<Rightarrow> release_db \<Rightarrow> release_db" where
  "release_step (Deploy uuid_in rid at m sch body) rl = snd (DeployAgentHandler uuid_in rid at m sch body rl)"
| "release_step (DropSite schema site) rl =
     rl\<lparr>rl_versions := (rl_versions rl)(schema := orphan_versions site (rl_versions rl schema))\<rparr>"
| "release_step (OtherTables w) rl = rl\<lparr>rl_world := w\<rparr>"

definition releases_wf :: "release_db \<Rightarrow> bool" where
  "releases_wf rl \<longleftrightarrow> (\<forall>schema. versions_wf (rl_versions rl schema))"

text \<open>A version with this id, script and number is on record.\<close>

definition on_record :: "string \<Rightarrow> string \<Rightarrow> string \<Rightarrow> int \<Rightarrow> release_db \<Rightarrow> bool" where
  "on_record schema i script number rl \<longleftrightarrow>
     list_ex (\<lambda>v. av_id v = i \<and> av_script v = script \<and> av_number v = number) (rl_versions rl schema)"

lemma release_step_wf: "releases_wf rl \<Longrightarrow> releases_wf (release_step c rl)"
proof (cases c)
  case (Deploy uuid_in rid at m sch body)
  assume "releases_wf rl"
  then show ?thesis
    using DeployAgentHandler_outcome [of uuid_in rid at m sch body rl, OF surjective_pairing] deploy_tx_wf
    unfolding Deploy release_step.simps by (fastforce simp: releases_wf_def)
qed (simp_all add: releases_wf_def orphan_versions_wf)

lemma release_step_on_record:
  assumes "releases_wf rl" "on_record schema i script number rl"
  shows "on_record schema i script number (release_step c rl)"
proof (cases c)
  case (Deploy uuid_in rid at m sch body)
  have "on_record schema i script number (rl\<lparr>rl_versions := (rl_versions rl)(s := vs')\<rparr>)"
    if d: "deploy_tx (site_ids site (rl_versions rl s)) rid at site new (rl_versions rl s) = Some vs'" for s site new vs'
  proof -
    have "distinct (map av_id (rl_versions rl s))" using assms(1) by (simp add: releases_wf_def versions_wf_def)
    from this d show ?thesis
      by (cases rule: deploy_tx_outcome) (use assms(2) in \<open>auto simp: on_record_def list_ex_iff\<close>)
  qed
  then show ?thesis
    using DeployAgentHandler_outcome [of uuid_in rid at m sch body rl, OF surjective_pairing] assms(2)
    unfolding Deploy release_step.simps by metis
next
  case (DropSite s site)
  have "list_ex P (orphan_versions site vs) = list_ex P vs" if "\<And>v. P (v\<lparr>av_site := None\<rparr>) = P v" for P vs
    using that by (induction vs) (auto simp: orphan_versions_def)
  then show ?thesis using assms(2) unfolding DropSite by (auto simp: on_record_def)
qed (use assms(2) in \<open>simp add: on_record_def\<close>)

interpretation releases: kept_tables release_step releases_wf "on_record schema i script number" for schema i script number
  by unfold_locales (rule release_step_wf, assumption, rule release_step_on_record, assumption+)

text \<open>
  Deployments by any requests and deletions of sites, in any order, keep the table of releases: ids
  and hashes distinct, each hash that of its script, a number used once in a site and at most one active
  version per site; a version on record keeps its script and its number.
\<close>

theorem releases_kept:
  assumes "releases_wf rl" "on_record schema i script number rl"
  shows "releases_wf (fold release_step cs rl) \<and> on_record schema i script number (fold release_step cs rl)"
  using assms by (rule releases.run_keeps)

section \<open>What a deployment serves\<close>

text \<open>The schema, the site and the script a request names.\<close>

definition deploy_target :: "(string \<Rightarrow> string option) \<Rightarrow> string \<Rightarrow> raw_message \<Rightarrow> (string \<times> string \<times> string) option" where
  "deploy_target uuid_in reqSchema body =
     Option.bind (Option.bind body go_obj) (\<lambda>kvs.
     Option.bind (go_str ''site_id'' kvs) (\<lambda>siteID.
     Option.bind (go_str ''script_content'' kvs) (\<lambda>script.
     Option.bind (uuid_in siteID) (\<lambda>site.
       (case getTenantSchema reqSchema of Inl _ \<Rightarrow> None | Inr schema \<Rightarrow> Some (schema, site, script))))))"

text \<open>A request of an agent the server takes for one of the site.\<close>

definition agent_of :: "bool \<Rightarrow> int \<Rightarrow> agent_request \<Rightarrow> world \<Rightarrow> string \<Rightarrow> string \<Rightarrow> bool" where
  "agent_of allowLegacy now r w schema site \<longleftrightarrow>
     gr_method r = ''GET'' \<and> (gr_device_token r \<noteq> [] \<or> gr_enrollment_token r \<noteq> []) \<and> site \<noteq> []
     \<and> resolveAgentSite allowLegacy now r w = Some (schema, site)"

text \<open>The documented behaviour of Ed25519 for one pair of keys of the right sizes.\<close>

definition key_pair ::
  "(string \<Rightarrow> string \<Rightarrow> string) \<Rightarrow> (string \<Rightarrow> string \<Rightarrow> string \<Rightarrow> bool) \<Rightarrow> string \<Rightarrow> string \<Rightarrow> bool" where
  "key_pair sign verify key publicKey \<longleftrightarrow>
     length key = 64 \<and> length publicKey = 32 \<and> (\<forall>m. sign key m \<noteq> [] \<and> verify publicKey m (sign key m))"

definition collision_free :: "string \<Rightarrow> agent_version list \<Rightarrow> bool" where
  "collision_free script vs \<longleftrightarrow> (\<forall>v \<in> set vs. sha256_hex (av_script v) = sha256_hex script \<longrightarrow> av_script v = script)"

lemma sign_ready:
  assumes "key_pair sign verify key pk" "b64_decode rawKey = Some key"
  shows "signAgentContent sign rawKey m = Some (b64_encode (sign key m), ''Ed25519'')"
    "verifyAgentSignature verify m (b64_encode (sign key m)) pk" "b64_encode (sign key m) \<noteq> []"
proof -
  have "rawKey \<noteq> []" using assms by (auto simp: key_pair_def b64_decode_def)
  then show "signAgentContent sign rawKey m = Some (b64_encode (sign key m), ''Ed25519'')"
    "verifyAgentSignature verify m (b64_encode (sign key m)) pk" "b64_encode (sign key m) \<noteq> []"
    using assms b64_encode_nonempty by (simp_all add: signAgentContent_def verifyAgentSignature_def key_pair_def)
qed

lemma one_row [simp]:
  "active_rows site vs = [v] \<Longrightarrow> latest_numbered site vs = Some v"
  "active_rows site vs = [v] \<Longrightarrow> latest_created site vs = Some v"
  by (simp_all add: latest_numbered_def latest_created_def)

lemma served:
  assumes "agent_of legacy now r (rl_world rl) schema site" "active_rows site (rl_versions rl schema) = [v]"
    "key_pair sign verify key pk" "b64_decode rawKey = Some key"
  shows "GetLatestAgentHandler sign rawKey legacy now r rl = GaLatest v (b64_encode (sign key (av_script v))) ''Ed25519''"
    "GetLatestAgentRawHandler legacy now r rl = GaRaw (av_script v)"
  using assms by (simp_all add: GetLatestAgentHandler_def GetLatestAgentRawHandler_def agent_call_def agent_of_def sign_ready)

lemma siteHashes_active: "active_rows site vs = [v] \<Longrightarrow> siteHashes vs site = Some (av_hash v)"
proof -
  have step: "fold (\<lambda>v m. case av_site v of None \<Rightarrow> m | Some s \<Rightarrow> m(s \<mapsto> av_hash v)) (filter av_active vs) m site
      = (case rev (active_rows site vs) of [] \<Rightarrow> m site | v # _ \<Rightarrow> Some (av_hash v))" for m
    by (induction vs arbitrary: m) (auto simp: active_rows_def split: option.split list.split)
  show "active_rows site vs = [v] \<Longrightarrow> siteHashes vs site = Some (av_hash v)"
    unfolding siteHashes_def step by simp
qed

lemma sha256_hex_nonempty: "sha256_hex s \<noteq> []"
  using sha256_hex_length [of s] by (metis length_0_conv zero_neq_numeral)

lemma turn_of_served:
  assumes "key_pair sign verify key pk" "av_hash v = sha256_hex (av_script v)"
  shows "agent_turn (\<lambda>c s. verifyAgentSignature verify c s pk) installed number
      (GaLatest v (b64_encode (sign key (av_script v))) ''Ed25519'') (GaRaw (av_script v))
    = (if sha256_hex installed = av_hash v then GoesOn
       else if av_number v \<le> int number then StartsAgain else Replaces (av_script v) (av_number v))"
  using sign_ready(2,3) [OF assms(1), of "b64_encode key"] assms(2) sha256_hex_nonempty by (simp add: agent_turn_def)

lemma deployed_row:
  assumes "releases_wf rl" "DeployAgentHandler uuid_in rid at m sch body rl = (GdCreated h, rl')"
    "deploy_target uuid_in sch body = Some (schema, site, script)" "collision_free script (rl_versions rl schema)"
  obtains v where "active_rows site (rl_versions rl' schema) = [v]" "av_script v = script" "av_hash v = h"
    "h = sha256_hex script" "rl_world rl' = rl_world rl"
    "sha256_hex script \<in> av_hash ` set (rl_versions rl schema) \<Longrightarrow> \<exists>w \<in> set (rl_versions rl schema).
       av_hash w = sha256_hex script \<and> av_site w = Some site \<and> av_number v = av_number w"
    "sha256_hex script \<notin> av_hash ` set (rl_versions rl schema) \<Longrightarrow> av_number v = next_number site (rl_versions rl schema)"
proof -
  from DeployAgentHandler_outcome [OF assms(2)] assms(3)
  obtain vs' where tx: "deploy_tx (site_ids site (rl_versions rl schema)) rid at site script (rl_versions rl schema) = Some vs'"
    and h: "h = sha256_hex script" and rl': "rl' = rl\<lparr>rl_versions := (rl_versions rl)(schema := vs')\<rparr>"
    by (auto simp: deploy_target_def bind_eq_Some_conv)
  have wf: "versions_wf (rl_versions rl schema)" using assms(1) by (simp add: releases_wf_def)
  then have "distinct (map av_id (rl_versions rl schema))" by (simp add: versions_wf_def)
  from this tx show thesis
  proof (cases rule: deploy_tx_outcome)
    case (Again v)
    have "av_script v = script"
      using wf assms(4) Again(1,2) by (auto simp: versions_wf_def collision_free_def)
    moreover have "sha256_hex script \<in> av_hash ` set (rl_versions rl schema)" using Again(1,2) by (metis imageI)
    ultimately show thesis
      using Again(1-3,5) rl' h by (intro that [of "woken (av_id v) v"]) auto
  next
    case (Fresh v)
    then show thesis using that [of v] rl' h by auto
  qed
qed

text \<open>
  C38. After a successful deployment every agent the server takes for one of the site is offered exactly
  the deployed script: the metadata carry its hash, the raw bytes are the script itself, and the
  signature of the metadata verifies over those bytes with the matching public key. The operator's view
  shows the same hash for the site. An agent that has another script
  replaces it if the number offered is greater than its own.
\<close>

theorem release_served:
  assumes "releases_wf rl" "DeployAgentHandler uuid_in rid at m sch body rl = (GdCreated h, rl')"
    "deploy_target uuid_in sch body = Some (schema, site, script)" "collision_free script (rl_versions rl schema)"
    "agent_of legacy now r (rl_world rl) schema site" "key_pair sign verify key pk" "b64_decode rawKey = Some key"
  shows "\<exists>v sig. GetLatestAgentHandler sign rawKey legacy now r rl' = GaLatest v sig ''Ed25519''
      \<and> GetLatestAgentRawHandler legacy now r rl' = GaRaw script
      \<and> av_hash v = sha256_hex script \<and> h = sha256_hex script \<and> verifyAgentSignature verify script sig pk
      \<and> siteHashes (rl_versions rl' schema) site = Some h
      \<and> (\<forall>installed number.
           agent_turn (\<lambda>c s. verifyAgentSignature verify c s pk) installed number
             (GetLatestAgentHandler sign rawKey legacy now r rl') (GetLatestAgentRawHandler legacy now r rl')
           = (if sha256_hex installed = sha256_hex script then GoesOn
              else if av_number v \<le> int number then StartsAgain else Replaces script (av_number v)))"
proof -
  from deployed_row [OF assms(1-4)] obtain v where v: "active_rows site (rl_versions rl' schema) = [v]" "av_script v = script"
    "av_hash v = h" "h = sha256_hex script" "rl_world rl' = rl_world rl" by metis
  then have "agent_of legacy now r (rl_world rl') schema site" using assms(5) by simp
  note s = served [OF this v(1) assms(6,7)]
  show ?thesis
    unfolding s using v sign_ready(2) [OF assms(6,7)] turn_of_served [OF assms(6), of v]
      siteHashes_active [OF v(1)]
    by (intro exI [of _ v] exI [of _ "b64_encode (sign key (av_script v))"]) auto
qed

text \<open>
  C39. A script that was never deployed in the tenant gets a number above all of its site, so that every
  agent of the site whose number comes from an earlier release replaces its script by it.
\<close>

theorem fresh_release_taken:
  assumes "releases_wf rl" "DeployAgentHandler uuid_in rid at m sch body rl = (GdCreated h, rl')"
    "deploy_target uuid_in sch body = Some (schema, site, script)" "sha256_hex script \<notin> av_hash ` set (rl_versions rl schema)"
    "agent_of legacy now r (rl_world rl) schema site" "key_pair sign verify key pk" "b64_decode rawKey = Some key"
    "old \<in> set (rl_versions rl schema)" "av_site old = Some site" "av_number old = int number" "av_script old = installed"
  shows "agent_turn (\<lambda>c s. verifyAgentSignature verify c s pk) installed number
      (GetLatestAgentHandler sign rawKey legacy now r rl') (GetLatestAgentRawHandler legacy now r rl')
    = Replaces script (next_number site (rl_versions rl schema))"
proof -
  have hashes: "\<forall>v \<in> set (rl_versions rl schema). av_hash v = sha256_hex (av_script v)"
    using assms(1) by (simp add: releases_wf_def versions_wf_def)
  have "sha256_hex (av_script v) \<noteq> sha256_hex script" if "v \<in> set (rl_versions rl schema)" for v
    using hashes that assms(4) by (metis imageI)
  then have free: "collision_free script (rl_versions rl schema)" and other: "sha256_hex installed \<noteq> sha256_hex script"
    using assms(8,11) by (auto simp: collision_free_def)
  from deployed_row [OF assms(1-3) free] assms(4) obtain v where v: "active_rows site (rl_versions rl' schema) = [v]"
    "av_script v = script" "av_hash v = h" "h = sha256_hex script" "rl_world rl' = rl_world rl"
    "av_number v = next_number site (rl_versions rl schema)" by metis
  then have "agent_of legacy now r (rl_world rl') schema site" using assms(5) by simp
  note s = served [OF this v(1) assms(6,7)]
  show ?thesis
    unfolding s using turn_of_served [OF assms(6), of v installed number] v other next_number_above [OF assms(8,9)] assms(10)
    by simp
qed

text \<open>
  C40. A script that was deployed before is offered under its old number: an agent that runs a later
  release of the site does not take it, whatever number the documentation promises, and its main loop
  starts again at once, before it reports and without a pause, in every turn.
\<close>

theorem redeploy_stalls_agents:
  assumes "releases_wf rl" "DeployAgentHandler uuid_in rid at m sch body rl = (GdCreated h, rl')"
    "deploy_target uuid_in sch body = Some (schema, site, script)" "collision_free script (rl_versions rl schema)"
    "agent_of legacy now r (rl_world rl) schema site" "key_pair sign verify key pk" "b64_decode rawKey = Some key"
    "old \<in> set (rl_versions rl schema)" "av_script old = script" "av_number old \<le> int number"
    "sha256_hex installed \<noteq> sha256_hex script"
  shows "agent_turn (\<lambda>c s. verifyAgentSignature verify c s pk) installed number
      (GetLatestAgentHandler sign rawKey legacy now r rl') (GetLatestAgentRawHandler legacy now r rl') = StartsAgain"
proof -
  have wf: "versions_wf (rl_versions rl schema)" using assms(1) by (simp add: releases_wf_def)
  then have old: "av_hash old = sha256_hex script" using assms(8,9) by (simp add: versions_wf_def)
  then have "sha256_hex script \<in> av_hash ` set (rl_versions rl schema)" using assms(8) by (metis imageI)
  with deployed_row [OF assms(1-4)] obtain v w where v: "active_rows site (rl_versions rl' schema) = [v]" "av_script v = script"
    "av_hash v = h" "h = sha256_hex script" "rl_world rl' = rl_world rl"
    and w: "w \<in> set (rl_versions rl schema)" "av_hash w = sha256_hex script" "av_number v = av_number w" by metis
  have "inj_on av_hash (set (rl_versions rl schema))" using wf by (simp add: versions_wf_def distinct_map)
  then have "w = old" using w(1,2) old assms(8) by (simp add: inj_onD)
  then have "av_number v \<le> int number" using w(3) assms(10) by simp
  moreover have "agent_of legacy now r (rl_world rl') schema site" using assms(5) v(5) by simp
  note s = served [OF this v(1) assms(6,7)]
  ultimately show ?thesis
    unfolding s using turn_of_served [OF assms(6), of v installed number] v assms(11) by simp
qed

text \<open>
  The hash of a version is unique over all sites of a tenant: a script on record for another site,
  or for a site deleted since, cannot be deployed, and the refused request changes nothing.
\<close>

theorem other_site_refused:
  assumes "releases_wf rl" "deploy_target uuid_in sch body = Some (schema, site, script)"
    "old \<in> set (rl_versions rl schema)" "av_script old = script" "av_site old \<noteq> Some site"
  shows "snd (DeployAgentHandler uuid_in rid at m sch body rl) = rl
    \<and> (\<forall>h. fst (DeployAgentHandler uuid_in rid at m sch body rl) \<noteq> GdCreated h)"
proof -
  have wf: "versions_wf (rl_versions rl schema)" using assms(1) by (simp add: releases_wf_def)
  then have d: "distinct (map av_id (rl_versions rl schema))" and h: "inj_on av_hash (set (rl_versions rl schema))"
    and old: "av_hash old = sha256_hex script"
    using assms(3,4) by (simp_all add: versions_wf_def distinct_map)
  have "deploy_tx (site_ids site (rl_versions rl schema)) rid at site script (rl_versions rl schema) \<noteq> Some vs'" for vs'
  proof
    assume "deploy_tx (site_ids site (rl_versions rl schema)) rid at site script (rl_versions rl schema) = Some vs'"
    with d show False
    proof (cases rule: deploy_tx_outcome)
      case (Again v)
      then have "v = old" using h old assms(3) by (simp add: inj_onD)
      then show False using Again(3) assms(5) by simp
    next
      case (Fresh v)
      then show False using old assms(3) by (metis imageI)
    qed
  qed
  then show ?thesis
    using DeployAgentHandler_outcome [of uuid_in rid at m sch body rl, OF surjective_pairing] assms(2)
    by (auto simp: deploy_target_def bind_eq_Some_conv)
qed

section \<open>Overlapping deployments\<close>

text \<open>
  Two deployments to one site whose first statements both ran before either committed: the second one to
  finish switches off the rows it has seen, and those do not include the row the first one inserts.
  Lookup, number and insert of the second one see the table the first has committed.
\<close>

definition overlapping_deploys ::
  "string \<Rightarrow> string \<times> int \<times> string \<Rightarrow> string \<times> int \<times> string \<Rightarrow> agent_version list \<Rightarrow> agent_version list option" where
  "overlapping_deploys site a b vs =
     (let seen = site_ids site vs;
          (ridA, atA, scriptA) = a;
          (ridB, atB, scriptB) = b
      in Option.bind (deploy_tx seen ridA atA site scriptA vs) (deploy_tx seen ridB atB site scriptB))"

lemma overlapping_rows:
  assumes "distinct (map av_id vs)" "sha256_hex scriptA \<notin> av_hash ` set vs"
    "sha256_hex scriptB \<noteq> sha256_hex scriptA" "sha256_hex scriptB \<notin> av_hash ` set vs"
    "ridA \<notin> av_id ` set vs" "overlapping_deploys site (ridA, atA, scriptA) (ridB, atB, scriptB) vs = Some vs'"
  obtains a b where "active_rows site vs' = [a, b]" "av_number a = next_number site vs" "av_number a < av_number b"
    "av_script a = scriptA" "av_script b = scriptB" "av_hash b = sha256_hex scriptB" "av_created a = atA" "av_created b = atB"
proof -
  from assms(6) obtain vs1 where tx: "deploy_tx (site_ids site vs) ridA atA site scriptA vs = Some vs1"
    "deploy_tx (site_ids site vs) ridB atB site scriptB vs1 = Some vs'"
    by (auto simp: overlapping_deploys_def Let_def bind_eq_Some_conv)
  from assms(1) tx(1) obtain a where a: "a = \<lparr>av_id = ridA, av_hash = sha256_hex scriptA, av_number = next_number site vs,
      av_script = scriptA, av_active = True, av_site = Some site, av_created = atA\<rparr>" "vs1 = map (switched site) vs @ [a]"
    using assms(2) by (cases rule: deploy_tx_outcome) (metis imageI, blast)
  have "ridA \<notin> set (site_ids site vs)" using assms(5) by (auto simp: site_ids_def)
  moreover have "deactivate (site_ids site vs) (map (switched site) vs) = map (switched site) vs"
    using deactivate_site [of "map (switched site) vs" site] assms(1)
    by (simp add: site_ids_def filter_map o_def switched_def if_distrib cong: if_cong)
  ultimately have same: "deactivate (site_ids site vs) vs1 = vs1" using a by (simp add: deactivate_def)
  have new: "\<not> list_ex (\<lambda>v. av_hash v = sha256_hex scriptB) vs1"
    using a assms(3,4) by (auto simp: list_ex_iff image_iff)
  then have "find (\<lambda>v. av_hash v = sha256_hex scriptB \<and> av_site v = Some site) vs1 = None"
    by (auto simp: find_None_iff list_ex_iff)
  then have vs': "vs' = vs1 @ [\<lparr>av_id = ridB, av_hash = sha256_hex scriptB, av_number = next_number site vs1, av_script = scriptB,
      av_active = True, av_site = Some site, av_created = atB\<rparr>]"
    using tx(2) same by (simp add: deploy_tx_def Let_def split: if_splits)
  have above: "av_number a < next_number site vs1"
    using a by (intro next_number_above) simp_all
  have off: "active_rows site (map (switched site) vs) = []" by simp
  have rows: "active_rows site (xs @ ys) = active_rows site xs @ active_rows site ys" for xs ys by (simp add: active_rows_def)
  show thesis
    by (rule that [of a "last vs'"]) (use a above off in \<open>simp_all add: vs' rows, simp_all add: active_rows_def\<close>)
qed

text \<open>
  When the deployment that finishes last began first, both versions stay active; the metadata are
  those of the later number and the bytes those of the later start. No agent of the site can then take
  either script: the hashes differ in every turn, until another deployment.
\<close>

theorem overlapping_deploys_block_updates:
  assumes "releases_wf rl" "overlapping_deploys site (ridA, atA, scriptA) (ridB, atB, scriptB) (rl_versions rl schema) = Some vs'"
    "sha256_hex scriptA \<notin> av_hash ` set (rl_versions rl schema)" "sha256_hex scriptB \<notin> av_hash ` set (rl_versions rl schema)"
    "sha256_hex scriptB \<noteq> sha256_hex scriptA" "ridA \<notin> av_id ` set (rl_versions rl schema)" "atB < atA"
    "agent_of legacy now r (rl_world rl) schema site" "key_pair sign verify key pk" "b64_decode rawKey = Some key"
    "rl' = rl\<lparr>rl_versions := (rl_versions rl)(schema := vs')\<rparr>"
  shows "\<not> releases_wf rl'
    \<and> (\<forall>check installed number script n.
         agent_turn check installed number (GetLatestAgentHandler sign rawKey legacy now r rl')
           (GetLatestAgentRawHandler legacy now r rl') \<noteq> Replaces script n)"
proof -
  have "distinct (map av_id (rl_versions rl schema))" using assms(1) by (simp add: releases_wf_def versions_wf_def)
  from overlapping_rows [OF this assms(3,5,4,6,2)] obtain a b where rows: "active_rows site vs' = [a, b]"
    and ab: "av_number a < av_number b" "av_script a = scriptA" "av_script b = scriptB" "av_hash b = sha256_hex scriptB"
      "av_created a = atA" "av_created b = atB" by metis
  have "\<not> versions_wf vs'" using rows by (auto simp: versions_wf_def intro: exI [of _ site])
  then have "\<not> releases_wf rl'" using assms(11) by (auto simp: releases_wf_def)
  moreover have "latest_numbered site vs' = Some b" "latest_created site vs' = Some a"
    using rows ab assms(7) by (simp_all add: latest_numbered_def latest_created_def)
  then have "GetLatestAgentHandler sign rawKey legacy now r rl' = GaLatest b (b64_encode (sign key scriptB)) ''Ed25519''"
    "GetLatestAgentRawHandler legacy now r rl' = GaRaw scriptA"
    using assms(8-11) ab
    by (simp_all add: GetLatestAgentHandler_def GetLatestAgentRawHandler_def agent_call_def agent_of_def sign_ready)
  ultimately show ?thesis using ab(4) assms(5) by (simp add: agent_turn_def)
qed

section \<open>Samples\<close>

definition sample_version :: "string \<Rightarrow> string \<Rightarrow> int \<Rightarrow> bool \<Rightarrow> string \<Rightarrow> agent_version" where
  "sample_version i script n act site =
     \<lparr>av_id = i, av_hash = sha256_hex script, av_number = n, av_script = script, av_active = act,
      av_site = Some site, av_created = n\<rparr>"

definition sample_releases :: "agent_version list \<Rightarrow> release_db" where
  "sample_releases vs = \<lparr>rl_world = sample_world, rl_versions = (\<lambda>_. [])(''tenant_acme'' := vs)\<rparr>"

definition sample_deploy :: "string \<Rightarrow> raw_message" where
  "sample_deploy script = Some (JObj [(''site_id'', JStr ''s-1''), (''script_content'', JStr script)])"

definition sample_agent :: agent_request where
  "sample_agent = \<lparr>gr_method = ''GET'', gr_device_token = [], gr_enrollment_token = ''tok'', gr_site_key = []\<rparr>"

definition sample_key :: string where
  "sample_key = replicate 64 CHR ''k''"

definition sample_sign :: "string \<Rightarrow> string \<Rightarrow> string" where
  "sample_sign key m = CHR ''s'' # m"

definition sample_verify :: "string \<Rightarrow> string \<Rightarrow> string \<Rightarrow> bool" where
  "sample_verify pk m s \<longleftrightarrow> s = CHR ''s'' # m"

lemma sample_keys: "key_pair sample_sign sample_verify sample_key (replicate 32 CHR ''p'')" "b64_decode (b64_encode sample_key) = Some sample_key"
  by (simp_all add: key_pair_def sample_sign_def sample_verify_def sample_key_def)

lemma sample_agent_of: "agent_of False 4 sample_agent (rl_world (sample_releases vs)) ''tenant_acme'' ''s-1''"
proof -
  have "active_aliases sample_landlord = [''acme'', ''beta'']" "SafeTenantSchema ''acme'' = Inr ''tenant_acme''"
    "SafeTenantSchema ''beta'' = Inr ''tenant_beta''" "trim_space ''tok'' = ''tok''" by code_simp+
  then have "ResolveDeviceEnrollmentToken 4 ''tok'' sample_world = Inr (''tenant_acme'', ''s-1'')"
    by (simp add: ResolveDeviceEnrollmentToken_def sample_world_def sample_enroll_db_def token_opens_def sample_site_def
        HashDeviceEnrollmentToken_def token_live_def)
  then show ?thesis by (simp add: agent_of_def sample_agent_def resolveAgentSite_def sample_releases_def)
qed

lemma sample_tenant: "getTenantSchema ''tenant_acme'' = Inr ''tenant_acme''"
  by code_simp

lemma sample_fields:
  "go_str ''site_id'' [(''site_id'', JStr ''s-1''), (''script_content'', JStr script)] = Some ''s-1''"
  "go_str ''script_content'' [(''site_id'', JStr ''s-1''), (''script_content'', JStr script)] = Some script"
proof -
  have "go_fold ''site_id'' \<noteq> go_fold ''script_content''" by code_simp
  then show "go_str ''site_id'' [(''site_id'', JStr ''s-1''), (''script_content'', JStr script)] = Some ''s-1''"
    "go_str ''script_content'' [(''site_id'', JStr ''s-1''), (''script_content'', JStr script)] = Some script"
    by (simp_all add: go_str_def go_entries_def)
qed

lemma sample_target: "deploy_target Some ''tenant_acme'' (sample_deploy script) = Some (''tenant_acme'', ''s-1'', script)"
  by (simp add: deploy_target_def sample_deploy_def go_obj_def sample_fields sample_tenant)

lemma sample_deployed:
  assumes "script \<noteq> []" "deploy_tx (site_ids ''s-1'' vs) rid at ''s-1'' script vs = Some vs'"
  shows "DeployAgentHandler Some rid at ''POST'' ''tenant_acme'' (sample_deploy script) (sample_releases vs)
    = (GdCreated (sha256_hex script), sample_releases vs')"
  using assms
  by (simp add: DeployAgentHandler_def sample_deploy_def go_obj_def sample_fields sample_tenant sample_releases_def
      sample_world_def sample_enroll_db_def find_site_def sample_site_def Let_def)

lemma sample_digests: "sha256_hex ''abc'' \<noteq> sha256_hex ''a''"
  unfolding sha256_abc sha256_a by simp

lemma sample_releases_wf:
  assumes "versions_wf vs"
  shows "releases_wf (sample_releases vs)"
proof -
  have "versions_wf []" by (simp add: versions_wf_def numbers_once_def active_rows_def)
  then show ?thesis using assms by (simp add: releases_wf_def sample_releases_def)
qed

lemma sample_rows [simp]:
  "av_id (sample_version i script n act site) = i" "av_hash (sample_version i script n act site) = sha256_hex script"
  "av_number (sample_version i script n act site) = n" "av_script (sample_version i script n act site) = script"
  "av_active (sample_version i script n act site) = act" "av_site (sample_version i script n act site) = Some site"
  "av_created (sample_version i script n act site) = n"
  by (simp_all add: sample_version_def)

lemma sample_wf:
  "versions_wf []" "versions_wf [sample_version ''v1'' ''abc'' 1 True site]"
  "versions_wf [sample_version ''v1'' ''abc'' 1 False ''s-1'', sample_version ''v2'' ''a'' 2 True ''s-1'']"
  using sample_digests by (simp_all add: versions_wf_def numbers_once_def active_rows_def)

lemma sample_txs:
  "deploy_tx (site_ids ''s-1'' []) ''v1'' 1 ''s-1'' ''abc'' [] = Some [sample_version ''v1'' ''abc'' 1 True ''s-1'']"
  "deploy_tx (site_ids ''s-1'' [sample_version ''v1'' ''abc'' 1 True ''s-1'']) ''v2'' 2 ''s-1'' ''a''
     [sample_version ''v1'' ''abc'' 1 True ''s-1'']
   = Some [sample_version ''v1'' ''abc'' 1 False ''s-1'', sample_version ''v2'' ''a'' 2 True ''s-1'']"
  "deploy_tx (site_ids ''s-1'' [sample_version ''v1'' ''abc'' 1 False ''s-1'', sample_version ''v2'' ''a'' 2 True ''s-1'']) ''v3'' 3
     ''s-1'' ''abc'' [sample_version ''v1'' ''abc'' 1 False ''s-1'', sample_version ''v2'' ''a'' 2 True ''s-1'']
   = Some [sample_version ''v1'' ''abc'' 1 True ''s-1'', sample_version ''v2'' ''a'' 2 False ''s-1'']"
  "overlapping_deploys ''s-1'' (''v1'', 2, ''abc'') (''v2'', 1, ''a'') [] =
     Some [(sample_version ''v1'' ''abc'' 1 True ''s-1'')\<lparr>av_created := 2\<rparr>,
           (sample_version ''v2'' ''a'' 2 True ''s-1'')\<lparr>av_created := 1\<rparr>]"
  using sample_digests sample_digests [symmetric]
  by (simp_all add: deploy_tx_def overlapping_deploys_def deactivate_def site_ids_def activate_def Let_def next_number_def
      in_int64_def max_int64_def min_int64_def sample_version_def)

theorem releases_kept_witness:
  "releases_wf (fold release_step
      [Deploy Some ''v2'' 2 ''POST'' ''tenant_acme'' (sample_deploy ''a''), DropSite ''tenant_acme'' ''s-1'']
      (sample_releases [sample_version ''v1'' ''abc'' 1 True ''s-1'']))"
proof -
  have "on_record ''tenant_acme'' ''v1'' ''abc'' 1 (sample_releases [sample_version ''v1'' ''abc'' 1 True ''s-1''])"
    by (simp add: on_record_def sample_releases_def)
  from releases_kept [OF sample_releases_wf [OF sample_wf(2)] this] show ?thesis by blast
qed

theorem release_served_witness:
  "\<exists>v sig. GetLatestAgentHandler sample_sign (b64_encode sample_key) False 4 sample_agent
      (sample_releases [sample_version ''v1'' ''abc'' 1 True ''s-1'']) = GaLatest v sig ''Ed25519'' \<and> av_hash v = sha256_hex ''abc''"
  using release_served [OF sample_releases_wf [OF sample_wf(1)] sample_deployed [OF _ sample_txs(1)] sample_target _
      sample_agent_of sample_keys]
  by (force simp: collision_free_def sample_releases_def)

theorem fresh_release_taken_witness:
  "agent_turn (\<lambda>c s. verifyAgentSignature sample_verify c s (replicate 32 CHR ''p'')) ''abc'' 1
     (GetLatestAgentHandler sample_sign (b64_encode sample_key) False 4 sample_agent
       (sample_releases [sample_version ''v1'' ''abc'' 1 False ''s-1'', sample_version ''v2'' ''a'' 2 True ''s-1'']))
     (GetLatestAgentRawHandler False 4 sample_agent
       (sample_releases [sample_version ''v1'' ''abc'' 1 False ''s-1'', sample_version ''v2'' ''a'' 2 True ''s-1'']))
   = Replaces ''a'' 2"
proof -
  have "rl_versions (sample_releases [sample_version ''v1'' ''abc'' 1 True ''s-1'']) ''tenant_acme''
      = [sample_version ''v1'' ''abc'' 1 True ''s-1'']" by (simp add: sample_releases_def)
  note rows = this
  from fresh_release_taken [OF sample_releases_wf [OF sample_wf(2)] sample_deployed [OF _ sample_txs(2)] sample_target _
      sample_agent_of sample_keys, of "sample_version ''v1'' ''abc'' 1 True ''s-1''" 1 "''abc''", unfolded rows]
  show ?thesis using sample_digests by (simp add: next_number_def)
qed

theorem redeploy_stalls_agents_witness:
  "agent_turn (\<lambda>c s. verifyAgentSignature sample_verify c s (replicate 32 CHR ''p'')) ''a'' 2
     (GetLatestAgentHandler sample_sign (b64_encode sample_key) False 4 sample_agent
       (sample_releases [sample_version ''v1'' ''abc'' 1 True ''s-1'', sample_version ''v2'' ''a'' 2 False ''s-1'']))
     (GetLatestAgentRawHandler False 4 sample_agent
       (sample_releases [sample_version ''v1'' ''abc'' 1 True ''s-1'', sample_version ''v2'' ''a'' 2 False ''s-1'']))
   = StartsAgain"
proof -
  have "rl_versions (sample_releases [sample_version ''v1'' ''abc'' 1 False ''s-1'', sample_version ''v2'' ''a'' 2 True ''s-1'']) ''tenant_acme''
      = [sample_version ''v1'' ''abc'' 1 False ''s-1'', sample_version ''v2'' ''a'' 2 True ''s-1'']" by (simp add: sample_releases_def)
  note rows = this
  from redeploy_stalls_agents [OF sample_releases_wf [OF sample_wf(3)] sample_deployed [OF _ sample_txs(3)] sample_target _
      sample_agent_of sample_keys, of "sample_version ''v1'' ''abc'' 1 False ''s-1''" 2 "''a''", unfolded rows]
  show ?thesis using sample_digests sample_digests [symmetric] by (simp add: collision_free_def)
qed

theorem other_site_refused_witness:
  "snd (DeployAgentHandler Some ''v2'' 2 ''POST'' ''tenant_acme'' (sample_deploy ''abc'')
      (sample_releases [sample_version ''v1'' ''abc'' 1 True ''s-9'']))
    = sample_releases [sample_version ''v1'' ''abc'' 1 True ''s-9'']"
  using other_site_refused [OF sample_releases_wf [OF sample_wf(2)] sample_target,
      of "sample_version ''v1'' ''abc'' 1 True ''s-9''" "''s-9''" "''abc''"]
  by (simp add: sample_releases_def)

theorem overlapping_deploys_block_updates_witness:
  "\<exists>vs. overlapping_deploys ''s-1'' (''v1'', 2, ''abc'') (''v2'', 1, ''a'') [] = Some vs \<and> \<not> releases_wf (sample_releases vs)"
  using overlapping_deploys_block_updates [OF sample_releases_wf [OF sample_wf(1)], of "''s-1''" "''v1''" 2 "''abc''" "''v2''" 1 "''a''"
      "''tenant_acme''" _ False 4 sample_agent sample_sign sample_verify sample_key "replicate 32 CHR ''p''" "b64_encode sample_key"]
    sample_txs(4) sample_digests sample_agent_of sample_keys
  by (auto simp: sample_releases_def)

end
