(* ===== verification/Spec2Isabelle.thy ===== *)
theory Spec2Isabelle
  imports Fleet_Retry Request_Auth Enrollment Central_Config Device_Delivery Alert_Engine Agent_Release
begin

text \<open>
  A verification development of the OMEGA OpenWrt controller: the part of the Go server that decides
  what is changed on a device, in which order, and on whose behalf. Paths are under \<open>src/internal\<close>.

  \<^bold>\<open>How the program works.\<close> An operator edits either one device or the template of a site. Both become
  lists of typed UCI commands. Commands reach a device by one of three ways: as a standalone operation
  or a changeset in the row of the device, which the agent on the device fetches, applies and reports,
  or as a guarded shell script over SSH. A rollout plans a change for all devices of a site, stores it as
  an immutable draft with a hash, and later executes exactly that draft, by queued changesets one phase
  after the other under a leased worker, or over SSH one device after the other. Everything durable is in
  PostgreSQL; the handlers and the worker only meet there.

  \<^bold>\<open>The theories\<close>, in the order in which they build on each other.

    \<^item> \<open>Prelude\<close>, \<open>Go_Json\<close>, \<open>Sha256\<close>, \<open>Go_Net\<close>: what the code uses of Go's standard library, as functions:
      strings (bytes), case folding, \<open>encoding/json\<close> in both directions, SHA-256 on 32-bit words, IP addresses.
    \<^item> \<open>Uci_Bridge\<close>, \<open>Uci_Scripts\<close>: \<open>services/uci_bridge.go\<close> and \<open>uci_restart_map.go\<close>, validation of commands,
      their translation to \<open>uci\<close> command lines, and the batch, safe and dry-run scripts. The lemmas read the
      produced text back with a model of the word splitting of the shell.
    \<^item> \<open>Device_Operation\<close>, \<open>Change_Set\<close>: \<open>services/device_operation.go\<close> and \<open>device_change_set.go\<close>, the two
      plans, their content hashes and identities, and their validators.
    \<^item> \<open>Tenant_Db\<close>: the rows and columns of \<open>database/postgres.go\<close> that the other parts use, schema names,
      and SQL's three-valued comparison. A statement is a guarded update of one row or of all rows, a
      transaction is a function that returns the tables it was given when it fails.
    \<^item> \<open>Device_Queue\<close>: \<open>database/device_operations.go\<close>. The locale \<open>device_writer\<close> states what every writer of
      device rows keeps (generations never fall, an operation and a changeset are never both pending).
    \<^item> \<open>Change_Set_Queue\<close>: \<open>database/device_change_sets.go\<close>, queueing, reports, and the settlement of runs; an
      abstract lifecycle of a changeset and the refinement of the reports to it.
    \<^item> \<open>Rollout_Drafts\<close>: \<open>database/rollout_drafts.go\<close>. The locales \<open>rollout_writer\<close> and \<open>control_writer\<close> state what
      every writer of runs keeps.
    \<^item> \<open>Rollout_Worker\<close>: \<open>database/rollout_worker.go\<close> and \<open>rolloutworker/worker.go\<close>, leases, progress and phases.
    \<^item> \<open>Auth_Tickets\<close>: \<open>authtickets/authtickets.go\<close>, the one-time login tickets.
    \<^item> \<open>Edge_Nexus\<close>, \<open>Edge_Api\<close>: \<open>services/edge_nexus.go\<close> and the PUT handlers of \<open>api/handlers/edge_api.go\<close>.
    \<^item> \<open>Site_Config\<close>, \<open>Site_Renderer\<close>: \<open>services/orchestrator_engine.go\<close>, \<open>services/wlan_policy.go\<close>, the save
      handler of \<open>api/handlers/site_orchestrator.go\<close> and the import of \<open>api/handlers/migration.go\<close>: the template
      of a site, how it is stored, and what it renders to for each role.
    \<^item> \<open>Uci_Observed\<close>: from \<open>api/handlers/central_config.go\<close> the parser of \<open>uci show\<close>, the comparison of planned
      commands with the observed state, and the redaction of secrets.
    \<^item> \<open>Rollout_Planning\<close>: from \<open>api/handlers/site_orchestrator.go\<close> the preview: selection, preflight, guarded
      scripts, the draft and its hash, and the changesets built from it.
    \<^item> \<open>Fleet_Sync\<close>, \<open>Fleet_Retry\<close>: the execution of a draft in the same file, by changesets or over SSH, with
      its claims, checks, backups, results and failure paths.
    \<^item> \<open>Central_Config\<close>: the handlers of \<open>api/handlers/central_config.go\<close> and \<open>uci_ops.go\<close>: reads within one namespace,
      typed changes to the queue, the raw editor with its script, and the drift of a device from its template.
    \<^item> \<open>Landlord\<close>: \<open>services/tenant_manager.go\<close>, \<open>api/handlers/tenant_handlers.go\<close> and \<open>users.go\<close>, the registry of tenants
      and accounts; its locale states what every call keeps of it.
    \<^item> \<open>Request_Auth\<close>: \<open>api/middleware/auth.go\<close>, \<open>api/handlers/auth.go\<close> and \<open>ws_ticket.go\<close>: from a login to the schema a
      request works on.
    \<^item> \<open>Enrollment\<close>: \<open>database/enrollment.go\<close>, \<open>api/handlers/enrollment.go\<close> and \<open>adoption.go\<close>: tokens of sites, the enrolment
      of a device with its nonce, adoption, migration, and the lookup of a tenant by a device token or site key.
    \<^item> \<open>Device_Delivery\<close>: \<open>api/handlers/provision.go\<close> and \<open>services/vpn.go\<close>: what a device fetches, its credentials, its
      pending work, its WLANs and its tunnel.
    \<^item> \<open>Sentinel_Proposals\<close>: from \<open>services/sentinel_agent.go\<close>, \<open>sentinel_case_investigation.go\<close> and \<open>sentinel_store.go\<close>
      the changes the assistant proposes: their check, storage, approval in two steps, and rejection.
    \<^item> \<open>Sentinel_Cases\<close>: the cases of \<open>sentinel_store.go\<close> and their evidence ledger (\<open>sentinel_case_context.go\<close>).
    \<^item> \<open>Alert_Engine\<close>: \<open>services/alerts.go\<close> and \<open>flow_monitor.go\<close>, incidents, the alerts of telemetry and the watch over
      outbound flows. The locale \<open>incident_invariant\<close> states what every step keeps of the incidents.
    \<^item> \<open>Agent_Release\<close>: \<open>api/handlers/agent_mgmt.go\<close>, the versions of the agent's script, their deployment and what
      an agent is served, with the check at the start of the main loop of \<open>src/devices/agent.sh\<close>. Its digests are
      those of \<open>Sha256_Vectors\<close>, two published vectors computed in the kernel.
    \<^item> \<open>Spec2Isabelle\<close>: all writers of the tables as the events of one system.

  \<^bold>\<open>What the lemmas show.\<close> For each component its functional behaviour on every branch, errors included,
  and its invariants; across components that a device is never given two changes at once, that a draft is
  executed by one claimant and as it was stored, that a stale worker or a late report changes nothing,
  that generations and worker cursors only grow under every interleaving of the transactions, that a request
  works on the schema its login allows, that a device enrols once and only with a live token of its site, and
  that what was queued for a device is handed to the holder of its token and to nobody else, that the proposals
  of the assistant stay within their bounds and act at most once, that the alerts follow the samples, and that a
  deployed script is the one the agents are offered.
  Where the code does not do what it means to, a theorem says what it does instead.

  \<^bold>\<open>Parameters.\<close> The clock, the random draws, the generated row ids, the outcome of SSH sessions and backups,
  the success of the separate audit inserts, the wording of error texts and the parser of UUIDs
  (\<open>github.com/google/uuid\<close>), bcrypt, Ed25519, the signing and checking of JWTs and the keys of WireGuard are arguments of the definitions that use them. A statement of the database
  does not fail by itself. Strings are lists of bytes; JSON documents hold valid UTF-8. Integers of Go that
  cannot leave the range of \<open>int64\<close> where they are used are unbounded, with the checks of the range where
  a document is read or a generation is advanced.

  \<^bold>\<open>Loops.\<close> Every loop of the code that is modelled runs over a list, over the bytes of a text or up to a
  bound, so its recursion ends by a measure and no fuel is needed; the one loop on a number that is not so
  bounded (\<open>itoa\<close> of \<open>users.go\<close>) is a \<open>while_option\<close>, shown to return. The ticker of the worker and the
  goroutines of the handlers have no model of their own: a run of the system is an arbitrary sequence of
  their transactions.

  \<^bold>\<open>Not modelled.\<close> Connections, migrations and plain queries of the database; SSH and HTTP transport;
  the agent on the device (but for its update check) and the web client; rate limits, the import of foreign backups, batch jobs and the
  scripts of the VPN mesh; telemetry storage, metrics, topology and surveys, which
  collect and display measurements; of the assistant its prompts, tools and learned memories, which surround
  an external language model; Telegram and webhooks; encryption and password hashing, thin layers over the standard library.
\<close>

section \<open>The control plane as one system\<close>

text \<open>
  Every writer of the pending work of the devices and of the rollout runs: the two queues and the reports of the
  devices, the operators' draft operations, the transactions of a fleet synchronisation, the edge
  handlers, the central editor and the worker passes. A run of the system is any interleaving of their
  transactions. The enrollment creates and deletes rows; its tables have their invariant in \<open>Enrollment\<close>.
\<close>

datatype control_event =
    QueueOperation "int \<times> string \<times> raw_message"
  | ReportOperation "int \<times> string \<times> raw_message"
  | QueueChangeSet "int \<times> string \<times> string \<times> string \<times> raw_message \<times> string"
  | ReportChangeSet "int \<times> string \<times> raw_message"
  | DraftRequest draft_request
  | FleetTransaction fleet_event
  | EdgePut edge_kind edge_env edge_request
  | ConfigPut central_kind string edge_env edge_request
  | WorkerRequest worker_request

definition edge_exec :: "edge_kind \<Rightarrow> edge_env \<Rightarrow> edge_request \<Rightarrow> tenant_db \<Rightarrow> tenant_db" where
  "edge_exec k env req db = es_tenant (snd (edge_put k env req \<lparr>es_tenant = db, es_audit = []\<rparr>))"

definition central_exec :: "central_kind \<Rightarrow> string \<Rightarrow> edge_env \<Rightarrow> edge_request \<Rightarrow> tenant_db \<Rightarrow> tenant_db" where
  "central_exec k config env req db = es_tenant (snd (central_put k config env req \<lparr>es_tenant = db, es_audit = []\<rparr>))"

fun control_step :: "string \<Rightarrow> control_event \<Rightarrow> tenant_db \<Rightarrow> tenant_db" where
  "control_step schema (QueueOperation req) db = op_request schema req db"
| "control_step schema (ReportOperation req) db = op_report schema req db"
| "control_step schema (QueueChangeSet req) db = cs_request schema req db"
| "control_step schema (ReportChangeSet req) db = cs_report schema req db"
| "control_step schema (DraftRequest req) db = draft_step schema req db"
| "control_step schema (FleetTransaction ev) db = fleet_step schema ev db"
| "control_step schema (EdgePut k env req) db = edge_exec k env req db"
| "control_step schema (ConfigPut k config env req) db = central_exec k config env req db"
| "control_step schema (WorkerRequest req) db = worker_exec schema req db"

lemma QueueDeviceOperation_rollouts [simp]:
  "rollouts (snd (QueueDeviceOperation schema now i plan db)) = rollouts db"
  by (cases rule: QueueDeviceOperation_cases [of schema now i plan db]) simp_all

lemma RecordDeviceOperationStatus_rollouts [simp]:
  "rollouts (snd (RecordDeviceOperationStatus schema now i status db)) = rollouts db"
  by (cases rule: RecordDeviceOperationStatus_cases [of schema now i status db]) simp_all

lemma queue_edge_contract:
  "db_progress db (es_tenant (snd (queue_edge config label msg cmds hc env req \<lparr>es_tenant = db, es_audit = []\<rparr>)))
   \<and> rollouts (es_tenant (snd (queue_edge config label msg cmds hc env req \<lparr>es_tenant = db, es_audit = []\<rparr>))) = rollouts db"
  (is "db_progress db ?db' \<and> _")
proof -
  from queue_edge_changes [of config label msg cmds hc env req "\<lparr>es_tenant = db, es_audit = []\<rparr>"] consider
      "?db' = db"
    | plan schema g db' where "?db' = db'"
        "QueueDeviceOperation schema (ev_now env) (er_device req) (Some (operation_plan_json plan)) db = (Inr g, db')"
    by (auto simp: InsertAuditLog_def)
  then show ?thesis
  proof cases
    case (2 plan schema g db')
    then have "?db' = snd (QueueDeviceOperation schema (ev_now env) (er_device req) (Some (operation_plan_json plan)) db)" by simp
    then show ?thesis by (simp only: QueueDeviceOperation_progress QueueDeviceOperation_rollouts simp_thms)
  qed simp
qed

lemma edge_exec_contract:
  "db_progress db (edge_exec k env req db) \<and> rollouts (edge_exec k env req db) = rollouts db"
proof -
  let ?s = "\<lparr>es_tenant = db, es_audit = []\<rparr>"
  obtain r s' where run: "edge_put k env req ?s = (r, s')" by force
  then have "edge_exec k env req db = es_tenant s'" by (simp add: edge_exec_def)
  with run queue_edge_contract [of db] show ?thesis by (cases rule: edge_put_cases) (simp, metis snd_conv)
qed

lemma central_exec_contract:
  "db_progress db (central_exec k config env req db) \<and> rollouts (central_exec k config env req db) = rollouts db"
proof -
  let ?s = "\<lparr>es_tenant = db, es_audit = []\<rparr>"
  obtain r s' where run: "central_put k config env req ?s = (r, s')" by force
  then have "central_exec k config env req db = es_tenant s'" by (simp add: central_exec_def)
  with run queue_edge_contract [of db] show ?thesis by (cases rule: central_put_cases) (simp, metis snd_conv)
qed

interpretation control: control_writer "control_step schema" for schema
proof
  fix db req
  show "db_progress db (control_step schema req db)"
    by (cases req) (simp_all add: op_queue.progress op_reports.progress cs_queue.progress cs_reports.progress
        drafts.progress fleet.progress workers.progress edge_exec_contract central_exec_contract)
  show "runs_extend db (control_step schema req db)"
    by (cases req) (simp_all add: op_request_def op_report_def cs_request_def runs_extend_same split_beta
        cs_report_extend drafts.extends fleet.extends workers.extends edge_exec_contract central_exec_contract)
qed

text \<open>
  C1. Over any interleaving of queue requests, device reports, draft operations, fleet
  synchronisations, edge and central editor requests and worker passes of a tenant, no device loses a generation, a device that is not both operated on and
  changed never becomes so, and no run loses its plan, its plan hash or any of its worker's progress.
\<close>

theorem control_plane_progress:
  assumes "devices db i = Some d" "r \<in> set (rollouts db)"
  shows "(\<exists>d'. devices (fold (control_step schema) evs db) i = Some d'
       \<and> dv_desired d \<le> dv_desired d' \<and> dv_observed d \<le> dv_observed d' \<and> dv_last_successful d \<le> dv_last_successful d'
       \<and> (exclusive d \<longrightarrow> exclusive d'))
     \<and> (\<exists>r' \<in> set (rollouts (fold (control_step schema) evs db)).
          rr_id r' = rr_id r \<and> rr_plan r' = rr_plan r \<and> rr_plan_hash r' = rr_plan_hash r \<and> rr_cursor r \<le> rr_cursor r')"
  using control.run_generations [OF assms(1)] control.plan_kept [OF assms(2)] by blast

theorem control_plane_progress_witness:
  "\<exists>d'. devices (fold (control_step ''tenant_a'')
      [EdgePut EdgeFirewall sample_edge_env sample_edge_request, WorkerRequest (WorkerClaim 10 ''w-2'' 60)] sample_running_db) ''dev-1'' = Some d'
     \<and> 4 \<le> dv_desired d'"
proof -
  have "devices sample_running_db ''dev-1'' = Some sample_cs_row" "dv_desired sample_cs_row = 4"
    "hd (rollouts sample_running_db) \<in> set (rollouts sample_running_db)"
    by (simp_all add: sample_running_db_def sample_cs_row_def sample_row_def)
  with control_plane_progress [of sample_running_db "''dev-1''" sample_cs_row "hd (rollouts sample_running_db)"] show ?thesis
    by metis
qed

end
